(* ===== verification/Prelude.thy ===== *)
theory Prelude
  imports Main "HOL-Library.Sublist"
begin

text \<open>
  Shared vocabulary of the development: the failure values of the code
  (\<open>BridgeError\<close>, src/src/core/errors.ts), sequencing of fallible steps, the array
  idioms the coordination code is written in (\<open>find\<close>, \<open>some\<close>, in-place update of the
  element that \<open>find\<close> returned, uniqueness by a key, \<open>[...new Set(xs)]\<close>), and the
  generic facts about them that the component proofs use.
\<close>

section \<open>Failures and fallible steps\<close>

text \<open>
  \<open>throw new BridgeError(code, message)\<close> is the left injection of its code; messages are
  prose for people and are not modelled. \<open>JsError\<close> stands for a \<open>TypeError\<close> that the
  language itself raises.
\<close>

datatype error = BridgeError string | JsError

type_synonym 'a res = "error + 'a"

abbreviation fail :: "string \<Rightarrow> 'a res" where
  "fail code \<equiv> Inl (BridgeError code)"

named_theorems res_simps \<open>unfolding of sequenced fallible steps\<close>

definition andThen :: "'a res \<Rightarrow> ('a \<Rightarrow> 'b res) \<Rightarrow> 'b res" where
  "andThen r f = (case r of Inl e \<Rightarrow> Inl e | Inr x \<Rightarrow> f x)"

text \<open>\<open>guard_fail b code\<close> is \<open>if (b) throw new BridgeError(code, ...)\<close>.\<close>

definition guard_fail :: "bool \<Rightarrow> string \<Rightarrow> unit res" where
  "guard_fail b code = (if b then fail code else Inr ())"

lemma andThen_simps [simp]:
  "andThen (Inl e) f = Inl e"
  "andThen (Inr x) f = f x"
  by (simp_all add: andThen_def)

lemma andThen_Inr_iff [res_simps]:
  "(andThen r f = Inr y) = (\<exists>x. r = Inr x \<and> f x = Inr y)"
  by (cases r) simp_all

lemma andThen_Inl_iff:
  "(andThen r f = Inl e) = (r = Inl e \<or> (\<exists>x. r = Inr x \<and> f x = Inl e))"
  by (cases r) simp_all

lemma guard_fail_Inr [res_simps]: "(guard_fail b code = Inr u) = (\<not> b)"
  by (simp add: guard_fail_def)

lemma guard_fail_simps [simp]:
  "guard_fail True code = fail code"
  "guard_fail False code = Inr ()"
  by (simp_all add: guard_fail_def)

lemma if_fail_Inr [res_simps]:
  "((if b then Inl e else r) = Inr y) = (\<not> b \<and> r = Inr y)"
  by simp

text \<open>\<open>Array.from(value, decode)\<close>: the first element that fails is the failure.\<close>

fun map_res :: "('a \<Rightarrow> 'b res) \<Rightarrow> 'a list \<Rightarrow> 'b list res" where
  "map_res f [] = Inr []"
| "map_res f (x # xs) = andThen (f x) (\<lambda>y. andThen (map_res f xs) (\<lambda>ys. Inr (y # ys)))"

lemma map_res_Inr_length: "map_res f xs = Inr ys \<Longrightarrow> length ys = length xs"
  by (induction xs arbitrary: ys) (auto simp: res_simps)

lemma map_res_Inr_set: "map_res f xs = Inr ys \<Longrightarrow> y \<in> set ys \<Longrightarrow> \<exists>x \<in> set xs. f x = Inr y"
  by (induction xs arbitrary: ys) (auto simp: res_simps)

lemma map_res_map_Inr:
  "(\<And>x. x \<in> set xs \<Longrightarrow> f (g x) = Inr x) \<Longrightarrow> map_res f (map g xs) = Inr xs"
  by (induction xs) auto

text \<open>A \<open>for\<close> loop whose body only checks: it stops at the first check that fails.\<close>

fun each_res :: "('a \<Rightarrow> unit res) \<Rightarrow> 'a list \<Rightarrow> unit res" where
  "each_res f [] = Inr ()"
| "each_res f (x # xs) = andThen (f x) (\<lambda>_. each_res f xs)"

lemma each_res_Inr [res_simps]:
  "(each_res f xs = Inr u) = (\<forall>x \<in> set xs. f x = Inr ())"
  by (induction xs) (auto simp: andThen_Inr_iff)

section \<open>Array idioms\<close>

text \<open>\<open>xs.find(p)\<close> followed by assignments to the found object: the first match changes.\<close>

fun update_first :: "('a \<Rightarrow> bool) \<Rightarrow> ('a \<Rightarrow> 'a) \<Rightarrow> 'a list \<Rightarrow> 'a list" where
  "update_first p f [] = []"
| "update_first p f (x # xs) = (if p x then f x # xs else x # update_first p f xs)"

text \<open>\<open>[...new Set(xs)]\<close> keeps the first occurrence of each element, in order.\<close>

fun uniq :: "'a list \<Rightarrow> 'a list" where
  "uniq [] = []"
| "uniq (x # xs) = x # filter (\<lambda>y. y \<noteq> x) (uniq xs)"

text \<open>\<open>new Set(items.map(key)).size === items.length\<close>.\<close>

definition unique_by :: "('a \<Rightarrow> 'k) \<Rightarrow> 'a list \<Rightarrow> bool" where
  "unique_by key xs = distinct (map key xs)"

definition starts_with :: "string \<Rightarrow> string \<Rightarrow> bool" where
  "starts_with s p = prefix p s"

definition ends_with :: "string \<Rightarrow> string \<Rightarrow> bool" where
  "ends_with s p = suffix p s"

text \<open>\<open>s.split(c)\<close> for a one-character separator.\<close>

fun split_on :: "char \<Rightarrow> string \<Rightarrow> string list" where
  "split_on c [] = [[]]"
| "split_on c (x # xs) =
     (if x = c then [] # split_on c xs
      else case split_on c xs of [] \<Rightarrow> [[x]] | (w # ws) \<Rightarrow> (x # w) # ws)"

lemma length_update_first [simp]: "length (update_first p f xs) = length xs"
  by (induction xs) auto

lemma update_first_id: "(\<And>x. x \<in> set xs \<Longrightarrow> \<not> p x) \<Longrightarrow> update_first p f xs = xs"
  by (induction xs) auto

lemma set_update_first_subset:
  "set (update_first p f xs) \<subseteq> set xs \<union> f ` {x \<in> set xs. p x}"
  by (induction xs) auto

text \<open>
  With unique keys, updating the first element of a key is updating the element of
  that key, which is the form in which the transition checks state it.
\<close>

lemma update_first_map_key:
  assumes "distinct (map key xs)"
  shows "update_first (\<lambda>x. key x = k) f xs = map (\<lambda>x. if key x = k then f x else x) xs"
  using assms
proof (induction xs)
  case (Cons x xs)
  show ?case
  proof (cases "key x = k")
    case True
    with Cons.prems have "\<forall>y \<in> set xs. key y \<noteq> k"
      by (auto simp: image_iff)
    then have "map (\<lambda>x. if key x = k then f x else x) xs = xs"
      by (simp add: map_idI)
    with True show ?thesis by simp
  next
    case False
    with Cons show ?thesis by simp
  qed
qed simp

lemma map_key_upd [simp]:
  assumes "\<And>x. g (f x) = g x"
  shows "map g (map (\<lambda>x. if p x then f x else x) xs) = map g xs"
  using assms by simp

lemma find_Some_iff_key:
  assumes "distinct (map key xs)"
  shows "(List.find (\<lambda>x. key x = k) xs = Some y) = (y \<in> set xs \<and> key y = k)"
  using assms by (induction xs) (auto simp: image_iff)

lemma find_SomeD: "List.find p xs = Some x \<Longrightarrow> x \<in> set xs \<and> p x"
  by (induction xs) (auto split: if_splits)

lemma find_None_iff_all: "(List.find p xs = None) = (\<forall>x \<in> set xs. \<not> p x)"
  by (induction xs) auto

lemma find_not_None: "x \<in> set xs \<Longrightarrow> p x \<Longrightarrow> \<exists>y. List.find p xs = Some y"
  by (induction xs) auto

lemma find_append:
  "List.find p (xs @ ys) = (case List.find p xs of None \<Rightarrow> List.find p ys | Some x \<Rightarrow> Some x)"
  by (induction xs) auto

lemma find_map_upd_same:
  assumes "\<And>x. key (f x) = key x"
  shows "List.find (\<lambda>x. key x = k) (map (\<lambda>x. if key x = k then f x else x) xs)
       = map_option f (List.find (\<lambda>x. key x = k) xs)"
  using assms by (induction xs) auto

lemma find_map_upd_other:
  assumes "\<And>x. key (f x) = key x" and "k \<noteq> j"
  shows "List.find (\<lambda>x. key x = k) (map (\<lambda>x. if key x = j then f x else x) xs)
       = List.find (\<lambda>x. key x = k) xs"
  using assms by (induction xs) auto

lemma set_uniq [simp]: "set (uniq xs) = set xs"
  by (induction xs) auto

lemma distinct_uniq [simp]: "distinct (uniq xs)"
  by (induction xs) auto

lemma filter_True_iff: "(filter p xs = xs) = (\<forall>x \<in> set xs. p x)"
  by (metis filter_True filter_id_conv)

lemma uniq_distinct: "distinct xs \<Longrightarrow> uniq xs = xs"
  by (induction xs) (auto simp: filter_True_iff)

lemma length_uniq_le: "length (uniq xs) \<le> length xs"
proof (induction xs)
  case (Cons x xs)
  have "length (filter (\<lambda>y. y \<noteq> x) (uniq xs)) \<le> length (uniq xs)"
    by (rule length_filter_le)
  also have "\<dots> \<le> length xs" by (rule Cons.IH)
  finally show ?case by simp
qed simp

lemma unique_byD: "unique_by key xs \<Longrightarrow> distinct (map key xs)"
  by (simp add: unique_by_def)

lemma unique_by_Nil [simp]: "unique_by key []"
  by (simp add: unique_by_def)

lemma unique_by_append1:
  "unique_by key (xs @ [x]) = (unique_by key xs \<and> key x \<notin> key ` set xs)"
  by (auto simp: unique_by_def)

lemma unique_by_inj:
  "unique_by key xs \<Longrightarrow> x \<in> set xs \<Longrightarrow> y \<in> set xs \<Longrightarrow> key x = key y \<Longrightarrow> x = y"
  unfolding unique_by_def by (meson distinct_map inj_onD)

lemma unique_by_filter: "unique_by key xs \<Longrightarrow> unique_by key (filter p xs)"
  by (simp add: unique_by_def distinct_map_filter)

lemma unique_by_map_upd:
  assumes "\<And>x. key (f x) = key x"
  shows "unique_by key (map (\<lambda>x. if p x then f x else x) xs) = unique_by key xs"
proof -
  have "map key (map (\<lambda>x. if p x then f x else x) xs) = map key xs"
    using assms by simp
  then show ?thesis unfolding unique_by_def by (rule arg_cong)
qed

end
