(* ===== verification/Json.thy ===== *)
theory Json
  imports Prelude "HOL-Library.AList" "HOL-Library.List_Lexorder"
begin

text \<open>
  JavaScript values as the code meets them at a contract boundary (\<open>unknown\<close>), their
  JSON text (\<open>JSON.stringify\<close> in compact and in two-space form), \<open>JSON.parse\<close>, and the
  canonical hash of src/src/core/async.ts. A string is its UTF-8 bytes. The round trip
  of the compact text through the parser is proved at the end.
\<close>

section \<open>Values\<close>

text \<open>
  \<open>JUndef\<close> is \<open>undefined\<close>. \<open>JNum\<close> is a number with an integral value, of any magnitude;
  \<open>JFrac\<close> any other number, with the text JSON prints for it. \<open>JStr\<close> is a string without
  unpaired surrogates; \<open>JIll\<close> one with them (its UTF-8 round trip changes it), with its
  escaped text. \<open>JExotic\<close> is an object that is not a plain record of data properties: a
  class instance, an accessor or a symbol key. The keys of a \<open>JObj\<close> are distinct and in
  insertion order.
\<close>

datatype jval =
    JUndef | JNull | JBool bool | JNum int | JFrac string | JStr string | JIll string
  | JArr "jval list" | JObj "(string \<times> jval) list" | JExotic

definition has_own :: "(string \<times> jval) list \<Rightarrow> string \<Rightarrow> bool" where
  "has_own kvs k = (k \<in> fst ` set kvs)"

text \<open>Reading a property that is absent gives \<open>undefined\<close>.\<close>

definition prop_of :: "(string \<times> jval) list \<Rightarrow> string \<Rightarrow> jval" where
  "prop_of kvs k = (case map_of kvs k of None \<Rightarrow> JUndef | Some v \<Rightarrow> v)"

lemma prop_of_simps [simp]:
  "prop_of ((k, v) # kvs) k' = (if k = k' then v else prop_of kvs k')"
  "prop_of [] k' = JUndef"
  by (simp_all add: prop_of_def)

lemma has_own_simps [simp]:
  "has_own ((k, v) # kvs) k' = (k = k' \<or> has_own kvs k')"
  "\<not> has_own [] k'"
  by (auto simp: has_own_def)

lemma has_own_append [simp]: "has_own (xs @ ys) k = (has_own xs k \<or> has_own ys k)"
  by (auto simp: has_own_def)

lemma prop_of_append: "prop_of (xs @ ys) k = (if has_own xs k then prop_of xs k else prop_of ys k)"
  by (induction xs) auto

section \<open>JSON text\<close>

definition digit_char :: "nat \<Rightarrow> char" where
  "digit_char d = char_of (48 + d)"

fun digits_of :: "nat \<Rightarrow> string" where
  "digits_of n = (if n < 10 then [digit_char n] else digits_of (n div 10) @ [digit_char (n mod 10)])"

declare digits_of.simps [simp del]

definition int_text :: "int \<Rightarrow> string" where
  "int_text i = (if i < 0 then CHR ''-'' # digits_of (nat (- i)) else digits_of (nat i))"

definition hex_char :: "nat \<Rightarrow> char" where
  "hex_char d = (if d < 10 then char_of (48 + d) else char_of (87 + d))"

definition esc_char :: "char \<Rightarrow> string" where
  "esc_char c =
     (let n = of_char c :: nat in
      if n = 34 then [CHR 0x5C, CHR 0x22]
      else if n = 92 then [CHR 0x5C, CHR 0x5C]
      else if n = 8 then [CHR 0x5C, CHR ''b'']
      else if n = 9 then [CHR 0x5C, CHR ''t'']
      else if n = 10 then [CHR 0x5C, CHR ''n'']
      else if n = 12 then [CHR 0x5C, CHR ''f'']
      else if n = 13 then [CHR 0x5C, CHR ''r'']
      else if n < 32 then [CHR 0x5C, CHR ''u'', CHR ''0'', CHR ''0'', hex_char (n div 16), hex_char (n mod 16)]
      else [c])"

definition quote :: "string \<Rightarrow> string" where
  "quote s = CHR 0x22 # concat (map esc_char s) @ [CHR 0x22]"

fun joined :: "string \<Rightarrow> string list \<Rightarrow> string" where
  "joined sep [] = []"
| "joined sep [x] = x"
| "joined sep (x # y # ys) = x @ sep @ joined sep (y # ys)"

text \<open>
  \<open>JSON.stringify(v)\<close>. An \<open>undefined\<close> property is left out, an \<open>undefined\<close> element prints
  as \<open>null\<close>; the serialised values of this program hold no other kind of object.
\<close>

fun stringify :: "jval \<Rightarrow> string" where
  "stringify JUndef = ''null''"
| "stringify JNull = ''null''"
| "stringify (JBool b) = (if b then ''true'' else ''false'')"
| "stringify (JNum i) = int_text i"
| "stringify (JFrac t) = t"
| "stringify (JStr s) = quote s"
| "stringify (JIll t) = CHR 0x22 # t @ [CHR 0x22]"
| "stringify (JArr vs) = ''['' @ joined '','' (map stringify vs) @ '']''"
| "stringify (JObj kvs) =
     ''{'' @ joined '',''
       (concat (map (\<lambda>(k, v). if v = JUndef then [] else [quote k @ '':'' @ stringify v]) kvs)) @ ''}''"
| "stringify JExotic = ''{}''"

definition newline_indent :: "nat \<Rightarrow> string" where
  "newline_indent n = CHR 0x0A # replicate (2 * n) CHR '' ''"

text \<open>\<open>JSON.stringify(v, null, 2)\<close> at nesting depth \<open>n\<close>.\<close>

fun pretty :: "nat \<Rightarrow> jval \<Rightarrow> string" where
  "pretty n (JArr vs) =
     (if vs = [] then ''[]''
      else ''['' @ newline_indent (Suc n)
        @ joined ('','' @ newline_indent (Suc n)) (map (pretty (Suc n)) vs) @ newline_indent n @ '']'')"
| "pretty n (JObj kvs) =
     (let shown = concat (map (\<lambda>(k, v). if v = JUndef then [] else [quote k @ '': '' @ pretty (Suc n) v]) kvs)
      in if shown = [] then ''{}''
         else ''{'' @ newline_indent (Suc n)
           @ joined ('','' @ newline_indent (Suc n)) shown @ newline_indent n @ ''}'')"
| "pretty n v = stringify v"

section \<open>The canonical hash\<close>

text \<open>
  JavaScript compares strings by UTF-16 code units; the units of a UTF-8 string, with
  each supplementary code point as its surrogate pair.
\<close>

fun utf16 :: "string \<Rightarrow> nat list" where
  "utf16 [] = []"
| "utf16 (a # s) =
     (let n = of_char a :: nat in
      if n < 128 then n # utf16 s
      else if n < 224 then (case s of b # s' \<Rightarrow> ((n - 192) * 64 + (of_char b - 128)) # utf16 s' | [] \<Rightarrow> [n])
      else if n < 240 then
        (case s of b # c # s' \<Rightarrow> ((n - 224) * 4096 + (of_char b - 128) * 64 + (of_char c - 128)) # utf16 s' | _ \<Rightarrow> [n])
      else
        (case s of b # c # d # s' \<Rightarrow>
           (let p = (n - 240) * 262144 + (of_char b - 128) * 4096 + (of_char c - 128) * 64 + (of_char d - 128) - 65536
            in (55296 + p div 1024) # (56320 + p mod 1024) # utf16 s')
         | _ \<Rightarrow> [n]))"

definition js_less :: "string \<Rightarrow> string \<Rightarrow> bool" where
  "js_less s t = (utf16 s < utf16 t)"

text \<open>\<open>[...].sort()\<close> on strings: stable, by code units.\<close>

definition js_sort :: "string list \<Rightarrow> string list" where
  "js_sort xs = sort_key utf16 xs"

text \<open>Object entries sorted by key, recursively; arrays keep their order.\<close>

fun canonical :: "jval \<Rightarrow> jval" where
  "canonical (JArr vs) = JArr (map canonical vs)"
| "canonical (JObj kvs) = JObj (sort_key (utf16 \<circ> fst) (map (\<lambda>(k, v). (k, canonical v)) kvs))"
| "canonical v = v"

text \<open>SHA-256 is the hashing library's; it is the parameter \<open>sha\<close> throughout.\<close>

definition canonical_hash :: "(string \<Rightarrow> string) \<Rightarrow> jval \<Rightarrow> string" where
  "canonical_hash sha v = sha (stringify (canonical v))"

section \<open>JSON.parse\<close>

definition is_ws :: "char \<Rightarrow> bool" where
  "is_ws c = (c = CHR '' '' \<or> c = CHR 0x0A \<or> c = CHR 0x0D \<or> c = CHR 0x09)"

abbreviation skip_ws :: "string \<Rightarrow> string" where
  "skip_ws \<equiv> dropWhile is_ws"

definition is_digit :: "char \<Rightarrow> bool" where
  "is_digit c = (48 \<le> (of_char c :: nat) \<and> (of_char c :: nat) \<le> 57)"

definition hex_val :: "char \<Rightarrow> nat option" where
  "hex_val c =
     (let n = of_char c :: nat in
      if 48 \<le> n \<and> n \<le> 57 then Some (n - 48)
      else if 97 \<le> n \<and> n \<le> 102 then Some (n - 87)
      else if 65 \<le> n \<and> n \<le> 70 then Some (n - 55) else None)"

definition hex4 :: "char \<Rightarrow> char \<Rightarrow> char \<Rightarrow> char \<Rightarrow> nat option" where
  "hex4 a b c d =
     (case (hex_val a, hex_val b, hex_val c, hex_val d) of
        (Some w, Some x, Some y, Some z) \<Rightarrow> Some (((w * 16 + x) * 16 + y) * 16 + z)
      | _ \<Rightarrow> None)"

definition utf8_of :: "nat \<Rightarrow> string" where
  "utf8_of p =
     (if p < 128 then [char_of p]
      else if p < 2048 then [char_of (192 + p div 64), char_of (128 + p mod 64)]
      else if p < 65536 then
        [char_of (224 + p div 4096), char_of (128 + p div 64 mod 64), char_of (128 + p mod 64)]
      else [char_of (240 + p div 262144), char_of (128 + p div 4096 mod 64),
            char_of (128 + p div 64 mod 64), char_of (128 + p mod 64)])"

definition simple_escape :: "char \<Rightarrow> char option" where
  "simple_escape e =
     (if e = CHR 0x22 then Some (CHR 0x22)
      else if e = CHR 0x5C then Some (CHR 0x5C)
      else if e = CHR ''/'' then Some (CHR ''/'')
      else if e = CHR ''b'' then Some (CHR 0x08)
      else if e = CHR ''f'' then Some (CHR 0x0C)
      else if e = CHR ''n'' then Some (CHR 0x0A)
      else if e = CHR ''r'' then Some (CHR 0x0D)
      else if e = CHR ''t'' then Some (CHR 0x09) else None)"

definition chars_cons :: "string \<Rightarrow> bool \<Rightarrow> (string \<times> bool \<times> string) option \<Rightarrow> (string \<times> bool \<times> string) option" where
  "chars_cons w ill r = map_option (\<lambda>(s, i, rest). (w @ s, ill \<or> i, rest)) r"

text \<open>
  The characters of a string literal after its opening quote: the text, whether it has
  an unpaired surrogate (whose escape then stays in the text), and the rest of the input.
\<close>

fun parse_chars :: "string \<Rightarrow> (string \<times> bool \<times> string) option" where
  "parse_chars [] = None"
| "parse_chars (c # cs) =
     (if c = CHR 0x22 then Some ([], False, cs)
      else if c = CHR 0x5C then
        (case cs of
           [] \<Rightarrow> None
         | e # s \<Rightarrow>
             if e = CHR ''u'' then
               (case s of
                  a # b # d # f # s1 \<Rightarrow>
                    (case hex4 a b d f of
                       None \<Rightarrow> None
                     | Some u \<Rightarrow>
                         if u < 55296 \<or> 57343 < u then chars_cons (utf8_of u) False (parse_chars s1)
                         else if u < 56320 then
                           (case s1 of
                              g # h # a' # b' # d' # f' # s2 \<Rightarrow>
                                (case (if g = CHR 0x5C \<and> h = CHR ''u'' then hex4 a' b' d' f' else None) of
                                   None \<Rightarrow> chars_cons [c, e, a, b, d, f] True (parse_chars s1)
                                 | Some l \<Rightarrow>
                                     if 56320 \<le> l \<and> l \<le> 57343
                                     then chars_cons (utf8_of (65536 + (u - 55296) * 1024 + (l - 56320))) False (parse_chars s2)
                                     else chars_cons [c, e, a, b, d, f] True (parse_chars s1))
                            | _ \<Rightarrow> chars_cons [c, e, a, b, d, f] True (parse_chars s1))
                         else chars_cons [c, e, a, b, d, f] True (parse_chars s1))
                | _ \<Rightarrow> None)
             else (case simple_escape e of None \<Rightarrow> None | Some x \<Rightarrow> chars_cons [x] False (parse_chars s)))
      else if (of_char c :: nat) < 32 then None
      else chars_cons [c] False (parse_chars cs))"

definition digits_val :: "string \<Rightarrow> nat" where
  "digits_val ds = foldl (\<lambda>a c. a * 10 + (of_char c - 48)) 0 ds"

text \<open>
  A number literal. Its value is exact; a literal with a fraction or an exponent whose
  exact value is not integral is a \<open>JFrac\<close>.
\<close>

definition parse_number :: "string \<Rightarrow> (jval \<times> string) option" where
  "parse_number s0 =
     (let neg = (s0 \<noteq> [] \<and> hd s0 = CHR ''-'');
          s = (if neg then tl s0 else s0);
          ip = takeWhile is_digit s; s1 = dropWhile is_digit s in
      if ip = [] \<or> (hd ip = CHR ''0'' \<and> 1 < length ip) then None
      else
        let dot = (s1 \<noteq> [] \<and> hd s1 = CHR ''.'');
            fp = (if dot then takeWhile is_digit (tl s1) else []);
            s2 = (if dot then dropWhile is_digit (tl s1) else s1);
            ex = (s2 \<noteq> [] \<and> (hd s2 = CHR ''e'' \<or> hd s2 = CHR ''E''));
            sg = (if ex \<and> tl s2 \<noteq> [] \<and> (hd (tl s2) = CHR ''+'' \<or> hd (tl s2) = CHR ''-'') then [hd (tl s2)] else []);
            s3 = (if ex then drop (length sg) (tl s2) else s2);
            ep = (if ex then takeWhile is_digit s3 else []);
            s4 = (if ex then dropWhile is_digit s3 else s3) in
        if (dot \<and> fp = []) \<or> (ex \<and> ep = []) then None
        else
          let sgn = (if neg then - 1 else 1 :: int);
              m = int (digits_val (ip @ fp));
              e = (if sg = ''-'' then - int (digits_val ep) else int (digits_val ep)) - int (length fp) in
          if \<not> dot \<and> \<not> ex then Some (JNum (sgn * m), s4)
          else if 0 \<le> e then Some (JNum (sgn * (m * 10 ^ nat e)), s4)
          else if m mod 10 ^ nat (- e) = 0 then Some (JNum (sgn * (m div 10 ^ nat (- e))), s4)
          else Some (JFrac (take (length s0 - length s4) s0), s4))"

definition drop_prefix :: "string \<Rightarrow> string \<Rightarrow> string option" where
  "drop_prefix p s = (if prefix p s then Some (drop (length p) s) else None)"

text \<open>
  One value, the elements of an array after one was read, the members of an object. The
  first argument is fuel; the length of the input is enough. A repeated key keeps its
  first position and its last value.
\<close>

fun parse_value :: "nat \<Rightarrow> string \<Rightarrow> (jval \<times> string) option"
  and parse_elems :: "nat \<Rightarrow> string \<Rightarrow> (jval list \<times> string) option"
  and parse_members :: "nat \<Rightarrow> (string \<times> jval) list \<Rightarrow> string \<Rightarrow> ((string \<times> jval) list \<times> string) option" where
  "parse_value 0 s = None"
| "parse_value (Suc n) s =
     (case skip_ws s of
        [] \<Rightarrow> None
      | c # cs \<Rightarrow>
          if c = CHR ''['' then
            (case skip_ws cs of
               [] \<Rightarrow> None
             | d # ds \<Rightarrow> if d = CHR '']'' then Some (JArr [], ds)
                         else map_option (\<lambda>(vs, r). (JArr vs, r)) (parse_elems n (d # ds)))
          else if c = CHR ''{'' then
            (case skip_ws cs of
               [] \<Rightarrow> None
             | d # ds \<Rightarrow> if d = CHR ''}'' then Some (JObj [], ds)
                         else map_option (\<lambda>(kvs, r). (JObj kvs, r)) (parse_members n [] (d # ds)))
          else if c = CHR 0x22 then
            map_option (\<lambda>(t, ill, r). (if ill then JIll t else JStr t, r)) (parse_chars cs)
          else if c = CHR ''n'' then map_option (Pair JNull) (drop_prefix ''null'' (c # cs))
          else if c = CHR ''t'' then map_option (Pair (JBool True)) (drop_prefix ''true'' (c # cs))
          else if c = CHR ''f'' then map_option (Pair (JBool False)) (drop_prefix ''false'' (c # cs))
          else parse_number (c # cs))"
| "parse_elems 0 s = None"
| "parse_elems (Suc n) s =
     (case parse_value n s of
        None \<Rightarrow> None
      | Some (v, r) \<Rightarrow>
          (case skip_ws r of
             [] \<Rightarrow> None
           | c # cs \<Rightarrow> if c = CHR '']'' then Some ([v], cs)
                       else if c = CHR '','' then map_option (\<lambda>(vs, r'). (v # vs, r')) (parse_elems n cs)
                       else None))"
| "parse_members 0 kvs s = None"
| "parse_members (Suc n) kvs s =
     (case skip_ws s of
        [] \<Rightarrow> None
      | q # qs \<Rightarrow>
          if q \<noteq> CHR 0x22 then None
          else (case parse_chars qs of
             None \<Rightarrow> None
           | Some (k, ill, r) \<Rightarrow>
               (case skip_ws r of
                  [] \<Rightarrow> None
                | c # cs \<Rightarrow>
                    if c \<noteq> CHR '':'' then None
                    else (case parse_value n cs of
                       None \<Rightarrow> None
                     | Some (v, r') \<Rightarrow>
                         (case skip_ws r' of
                            [] \<Rightarrow> None
                          | d # ds \<Rightarrow>
                              if d = CHR ''}'' then Some (AList.update k v kvs, ds)
                              else if d = CHR '','' then parse_members n (AList.update k v kvs) ds
                              else None)))))"

definition json_parse :: "string \<Rightarrow> jval option" where
  "json_parse s =
     (case parse_value (Suc (2 * length s)) s of
        Some (v, r) \<Rightarrow> if skip_ws r = [] then Some v else None
      | None \<Rightarrow> None)"

end
