(* ===== verification/Control_Types.thy ===== *)
theory Control_Types
  imports Json
begin

text \<open>
  The persisted coordination record and the commands that change it
  (src/src/contracts/coordination-control.ts, lines 1 to 150): one Isabelle record or
  datatype per TypeScript type, an optional property as an \<open>option\<close>, and the JSON value
  of each, which is what the code hashes, measures and stores. Two storage details are
  made explicit: the collections a schema version does not have yet are empty, and the
  value of a record lists its properties in the order the code creates them.
\<close>

section \<open>Constants\<close>

definition MAX_SAFE_INTEGER :: int where "MAX_SAFE_INTEGER = 9007199254740991"
definition CONTROL_MAX_BYTES :: nat where "CONTROL_MAX_BYTES = 2 * 1024 * 1024"
definition CONTROL_RELEASE_BYTES :: nat where "CONTROL_RELEASE_BYTES = 4096"
definition MAX_ENTITIES :: nat where "MAX_ENTITIES = 4096"
definition MAX_PARTIES :: nat where "MAX_PARTIES = 64"
definition MAX_REGIONS :: nat where "MAX_REGIONS = 256"
definition MAX_NOTE_BYTES :: nat where "MAX_NOTE_BYTES = 16384"
definition RECOVERY_STATEMENT_BYTES :: nat where "RECOVERY_STATEMENT_BYTES = 256"

definition CONTROL_SCHEMA :: nat where "CONTROL_SCHEMA = 1"
definition MANAGED_CONTROL_SCHEMA :: nat where "MANAGED_CONTROL_SCHEMA = 3"
definition SUBMISSION_CONTROL_SCHEMA :: nat where "SUBMISSION_CONTROL_SCHEMA = 4"
definition SOURCE_GRANT_CONTROL_SCHEMA :: nat where "SOURCE_GRANT_CONTROL_SCHEMA = 5"
definition SOURCE_WATCH_CONTROL_SCHEMA :: nat where "SOURCE_WATCH_CONTROL_SCHEMA = 6"
definition OBSERVED_CASE_CONTROL_SCHEMA :: nat where "OBSERVED_CASE_CONTROL_SCHEMA = 7"

lemmas schema_defs = CONTROL_SCHEMA_def MANAGED_CONTROL_SCHEMA_def SUBMISSION_CONTROL_SCHEMA_def
  SOURCE_GRANT_CONTROL_SCHEMA_def SOURCE_WATCH_CONTROL_SCHEMA_def OBSERVED_CASE_CONTROL_SCHEMA_def

section \<open>Works, cases, notes, receipts\<close>

datatype region_kind = RFile | RSubtree
record region =
  r_kind :: region_kind
  r_path :: string

datatype subject_kind = SWork | SCase
record subject =
  s_kind :: subject_kind
  s_id :: string

record selection =
  sel_work_id :: string
  sel_commit_oid :: string

record limits =
  lim_works :: nat
  lim_cases :: nat
  lim_notes :: nat
  lim_receipts :: nat
  lim_note_bytes :: nat

datatype areas_source = Allowed_paths | Not_declared
record managed_work =
  m_task_id :: string
  m_control_generation :: nat
  m_intent_truncated :: bool
  m_areas_source :: areas_source

datatype grant_scope = Report_scope | Detail_scope
record source_grant =
  g_recipient :: string
  g_scope :: grant_scope
  g_work_revision :: nat

datatype dialect = Jsx | C_dialect | Cpp
record dialect_override =
  do_path :: string
  do_dialect :: dialect

record watcher =
  wa_recipient :: string
  wa_regions :: "region list"
  wa_overrides :: "dialect_override list option"

record source_watch = watcher +
  sw_work_revision :: nat

datatype life = Active | Closed
datatype object_format = Sha1 | Sha256

record work =
  w_id :: string
  w_owner :: string
  w_workspace_id :: string
  w_revision :: nat
  w_state :: life
  w_input_oid :: string
  w_object_format :: object_format
  w_intent :: string
  w_areas :: "region list"
  w_readers :: "string list"
  w_managed :: "managed_work option"
  w_source_grants :: "source_grant list option"
  w_source_watches :: "source_watch list option"

datatype effect = Not_started | Possible
datatype origin = Pending_origin | Selected_origin

record observed_delivery =
  od_work_id :: string
  od_digest :: string

record visibility_delta =
  vd_work_id :: string
  vd_work_revision :: nat
  vd_control_generation :: nat
  vd_areas :: "region list"
  vd_added_readers :: "string list"

record case_rec =
  c_id :: string
  c_target :: string
  c_lead :: string
  c_members :: "string list"
  c_revision :: nat
  c_generation :: nat
  c_state :: life
  c_external_effect :: effect
  c_target_oid :: "string option"
  c_inputs :: "selection list"
  c_observed_origin :: "origin option"
  c_delivery_pending :: "string list option"
  c_delivery_observed :: "observed_delivery list option"
  c_visibility_delta :: "visibility_delta list option"

datatype note_kind = Intent_note | Question_note | Statement_note | Agreement_proposal | Resolution_update

record note_rec =
  n_id :: string
  n_subject :: subject
  n_author :: string
  n_kind :: note_kind
  n_text :: string
  n_work_refs :: "string list"
  n_parties :: "string list"
  n_acknowledged :: "string list"
  n_withdrawn :: bool
  n_readers :: "string list option"

datatype action =
    A_register_task_work | A_register_work | A_share_work | A_grant_source | A_watch_source
  | A_close_work | A_post_note | A_ack_note | A_withdraw_note | A_claim_target | A_select_inputs
  | A_release_case | A_begin_external_integration | A_record_external_settlement | A_transfer_case
  | A_extend_observed_case | A_observe_case_delivery

record receipt =
  rc_owner :: string
  rc_key :: string
  rc_request_hash :: string
  rc_revision :: nat
  rc_action :: action
  rc_entity :: subject
  rc_item_id :: string

section \<open>Submissions and recoveries\<close>

datatype announcement_state = Unresolved | Bound_ann | Linked | Withdrawn_ann

record announcement =
  an_id :: string
  an_owner :: string
  an_revision :: nat
  an_state :: announcement_state
  an_payload_ref :: string
  an_payload_digest :: string
  an_source_view :: string
  an_assignment_hash :: string
  an_areas :: "region list"
  an_readers :: "string list"
  an_task_id :: "string option"

record ann_ref =
  ar_id :: string
  ar_revision :: nat

datatype binding_state = Bound | Settled | Released | Terminal
datatype outcome = Completed | Blocked | Failed | Cancelled | Interrupted

record terminal_evidence =
  te_revision :: nat
  te_control_generation :: nat
  te_outcome :: outcome

record binding =
  b_task_id :: string
  b_request_key :: string
  b_owner :: string
  b_intent_hash :: string
  b_decision_identity :: string
  b_link_hash :: string
  b_source_view :: string
  b_input_oid :: string
  b_areas :: "region list"
  b_announcement :: "ann_ref option"
  b_state :: binding_state
  b_terminal :: "terminal_evidence option"

datatype event_kind = Ev_announce | Ev_withdraw | Ev_bind | Ev_settle | Ev_release | Ev_terminal

record event =
  ev_kind :: event_kind
  ev_owner :: string
  ev_key :: string
  ev_item_id :: string
  ev_request_hash :: string
  ev_revision :: nat

text \<open>The parts of a recovery command that depend on its kind.\<close>

datatype recovery_action =
    Adopt_work string string
  | Close_work_rec string
  | Adopt_case string nat string
  | Release_case_rec string nat
  | Settle_case string nat

record recovery_command =
  rv_operation_key :: string
  rv_epoch :: string
  rv_expected_owner :: string
  rv_expected_revision :: nat
  rv_statement :: string
  rv_action :: recovery_action

record recovery_receipt =
  rr_operator :: string
  rr_request_hash :: string
  rr_revision :: nat
  rr_command :: recovery_command

record control_state =
  cs_schema :: nat
  cs_repository_id :: string
  cs_epoch :: string
  cs_revision :: nat
  cs_limits :: limits
  cs_works :: "work list"
  cs_cases :: "case_rec list"
  cs_notes :: "note_rec list"
  cs_receipts :: "receipt list"
  cs_recoveries :: "recovery_receipt list"
  cs_announcements :: "announcement list"
  cs_bindings :: "binding list"
  cs_events :: "event list"

text \<open>
  \<open>recoveryReceipts\<close>, \<open>announcements\<close>, \<open>submissionBindings\<close> and \<open>submissionEvents\<close> of the
  code return the empty array where the schema version lacks the collection; the record
  holds that empty array, so they are its selectors.
\<close>

definition controlReceiptCount :: "control_state \<Rightarrow> nat" where
  "controlReceiptCount s = length (cs_receipts s) + length (cs_recoveries s) + length (cs_events s)"

definition has_submissions :: "control_state \<Rightarrow> bool" where
  "has_submissions s = (SUBMISSION_CONTROL_SCHEMA \<le> cs_schema s)"

section \<open>Commands\<close>

text \<open>The first argument of every command is its operation key.\<close>

datatype command =
    Register_task_work string string string object_format string "region list" managed_work
  | Register_work string string string object_format string "region list" "string list"
  | Share_work string string nat "string list"
  | Grant_source string string nat "(string \<times> grant_scope) list"
  | Watch_source string string nat "watcher list"
  | Close_work string string nat
  | Post_note string subject note_kind string "string list"
  | Ack_note string string
  | Withdraw_note string string
  | Claim_target string string "string list"
  | Select_inputs string string nat nat string "selection list"
  | Release_case string string nat nat
  | Begin_external_integration string string nat nat
  | Record_external_settlement string string nat nat
  | Transfer_case string string nat nat string

fun operation_key :: "command \<Rightarrow> string" where
  "operation_key (Register_task_work k _ _ _ _ _ _) = k"
| "operation_key (Register_work k _ _ _ _ _ _) = k"
| "operation_key (Share_work k _ _ _) = k"
| "operation_key (Grant_source k _ _ _) = k"
| "operation_key (Watch_source k _ _ _) = k"
| "operation_key (Close_work k _ _) = k"
| "operation_key (Post_note k _ _ _ _) = k"
| "operation_key (Ack_note k _) = k"
| "operation_key (Withdraw_note k _) = k"
| "operation_key (Claim_target k _ _) = k"
| "operation_key (Select_inputs k _ _ _ _ _) = k"
| "operation_key (Release_case k _ _ _) = k"
| "operation_key (Begin_external_integration k _ _ _) = k"
| "operation_key (Record_external_settlement k _ _ _) = k"
| "operation_key (Transfer_case k _ _ _ _) = k"

fun command_action :: "command \<Rightarrow> action" where
  "command_action (Register_task_work _ _ _ _ _ _ _) = A_register_task_work"
| "command_action (Register_work _ _ _ _ _ _ _) = A_register_work"
| "command_action (Share_work _ _ _ _) = A_share_work"
| "command_action (Grant_source _ _ _ _) = A_grant_source"
| "command_action (Watch_source _ _ _ _) = A_watch_source"
| "command_action (Close_work _ _ _) = A_close_work"
| "command_action (Post_note _ _ _ _ _) = A_post_note"
| "command_action (Ack_note _ _) = A_ack_note"
| "command_action (Withdraw_note _ _) = A_withdraw_note"
| "command_action (Claim_target _ _ _) = A_claim_target"
| "command_action (Select_inputs _ _ _ _ _ _) = A_select_inputs"
| "command_action (Release_case _ _ _ _) = A_release_case"
| "command_action (Begin_external_integration _ _ _ _) = A_begin_external_integration"
| "command_action (Record_external_settlement _ _ _ _) = A_record_external_settlement"
| "command_action (Transfer_case _ _ _ _ _) = A_transfer_case"

text \<open>The \<open>work_id\<close> and \<open>case_id\<close> properties of a command that has one.\<close>

fun command_work_id :: "command \<Rightarrow> string option" where
  "command_work_id (Share_work _ w _ _) = Some w"
| "command_work_id (Grant_source _ w _ _) = Some w"
| "command_work_id (Watch_source _ w _ _) = Some w"
| "command_work_id (Close_work _ w _) = Some w"
| "command_work_id _ = None"

fun command_case_id :: "command \<Rightarrow> string option" where
  "command_case_id (Select_inputs _ c _ _ _ _) = Some c"
| "command_case_id (Release_case _ c _ _) = Some c"
| "command_case_id (Begin_external_integration _ c _ _) = Some c"
| "command_case_id (Record_external_settlement _ c _ _) = Some c"
| "command_case_id (Transfer_case _ c _ _ _) = Some c"
| "command_case_id _ = None"

section \<open>JSON values\<close>

definition jnat :: "nat \<Rightarrow> jval" where "jnat n = JNum (int n)"
definition jstrs :: "string list \<Rightarrow> jval" where "jstrs xs = JArr (map JStr xs)"
definition jlist :: "('a \<Rightarrow> jval) \<Rightarrow> 'a list \<Rightarrow> jval" where "jlist f xs = JArr (map f xs)"

definition opt_field :: "string \<Rightarrow> ('a \<Rightarrow> jval) \<Rightarrow> 'a option \<Rightarrow> (string \<times> jval) list" where
  "opt_field k f x = (case x of None \<Rightarrow> [] | Some y \<Rightarrow> [(k, f y)])"

lemma opt_field_simps [simp]:
  "opt_field k f None = []"
  "opt_field k f (Some y) = [(k, f y)]"
  by (simp_all add: opt_field_def)

text \<open>The string literals of the enumerations, as the tables the decoders choose from.\<close>

definition region_kinds :: "(string \<times> region_kind) list" where
  "region_kinds = [(''file'', RFile), (''subtree'', RSubtree)]"
definition subject_kinds :: "(string \<times> subject_kind) list" where
  "subject_kinds = [(''work'', SWork), (''case'', SCase)]"
definition areas_sources :: "(string \<times> areas_source) list" where
  "areas_sources = [(''allowed_paths'', Allowed_paths), (''not_declared'', Not_declared)]"
definition grant_scopes :: "(string \<times> grant_scope) list" where
  "grant_scopes = [(''report'', Report_scope), (''detail'', Detail_scope)]"
definition dialects :: "(string \<times> dialect) list" where
  "dialects = [(''jsx'', Jsx), (''c'', C_dialect), (''cpp'', Cpp)]"
definition lives :: "(string \<times> life) list" where
  "lives = [(''active'', Active), (''closed'', Closed)]"
definition object_formats :: "(string \<times> object_format) list" where
  "object_formats = [(''sha1'', Sha1), (''sha256'', Sha256)]"
definition effects :: "(string \<times> effect) list" where
  "effects = [(''not_started'', Not_started), (''possible'', Possible)]"
definition origins :: "(string \<times> origin) list" where
  "origins = [(''pending'', Pending_origin), (''selected'', Selected_origin)]"
definition noteKinds :: "(string \<times> note_kind) list" where
  "noteKinds = [(''intent'', Intent_note), (''question'', Question_note), (''statement'', Statement_note),
     (''agreement_proposal'', Agreement_proposal), (''resolution_update'', Resolution_update)]"
definition command_actions :: "(string \<times> action) list" where
  "command_actions = [(''register_task_work'', A_register_task_work), (''register_work'', A_register_work),
     (''share_work'', A_share_work), (''grant_source'', A_grant_source), (''watch_source'', A_watch_source),
     (''close_work'', A_close_work), (''post_note'', A_post_note), (''ack_note'', A_ack_note),
     (''withdraw_note'', A_withdraw_note), (''claim_target'', A_claim_target),
     (''select_inputs'', A_select_inputs), (''release_case'', A_release_case),
     (''begin_external_integration'', A_begin_external_integration),
     (''record_external_settlement'', A_record_external_settlement), (''transfer_case'', A_transfer_case)]"
definition receipt_actions :: "(string \<times> action) list" where
  "receipt_actions = command_actions @ [(''extend_observed_case'', A_extend_observed_case),
     (''observe_case_delivery'', A_observe_case_delivery)]"
definition announcement_states :: "(string \<times> announcement_state) list" where
  "announcement_states = [(''unresolved'', Unresolved), (''bound'', Bound_ann), (''linked'', Linked),
     (''withdrawn'', Withdrawn_ann)]"
definition binding_states :: "(string \<times> binding_state) list" where
  "binding_states = [(''bound'', Bound), (''settled'', Settled), (''released'', Released), (''terminal'', Terminal)]"
definition outcomes :: "(string \<times> outcome) list" where
  "outcomes = [(''completed'', Completed), (''blocked'', Blocked), (''failed'', Failed),
     (''cancelled'', Cancelled), (''interrupted'', Interrupted)]"
definition event_kinds :: "(string \<times> event_kind) list" where
  "event_kinds = [(''announce'', Ev_announce), (''withdraw'', Ev_withdraw), (''bind'', Ev_bind),
     (''settle'', Ev_settle), (''release'', Ev_release), (''terminal'', Ev_terminal)]"

text \<open>The literal of a value: its first entry in its table.\<close>

definition literal :: "(string \<times> 'a) list \<Rightarrow> 'a \<Rightarrow> jval" where
  "literal table x = (case List.find (\<lambda>e. snd e = x) table of None \<Rightarrow> JUndef | Some e \<Rightarrow> JStr (fst e))"

lemmas table_defs = region_kinds_def subject_kinds_def areas_sources_def grant_scopes_def dialects_def
  lives_def object_formats_def effects_def origins_def noteKinds_def command_actions_def
  receipt_actions_def announcement_states_def binding_states_def outcomes_def event_kinds_def

definition region_json :: "region \<Rightarrow> jval" where
  "region_json r = JObj [(''kind'', literal region_kinds (r_kind r)), (''path'', JStr (r_path r))]"

definition subject_json :: "subject \<Rightarrow> jval" where
  "subject_json s = JObj [(''kind'', literal subject_kinds (s_kind s)), (''id'', JStr (s_id s))]"

definition selection_json :: "selection \<Rightarrow> jval" where
  "selection_json s = JObj [(''work_id'', JStr (sel_work_id s)), (''commit_oid'', JStr (sel_commit_oid s))]"

definition limits_json :: "limits \<Rightarrow> jval" where
  "limits_json l = JObj [(''works'', jnat (lim_works l)), (''cases'', jnat (lim_cases l)),
     (''notes'', jnat (lim_notes l)), (''receipts'', jnat (lim_receipts l)), (''note_bytes'', jnat (lim_note_bytes l))]"

definition managed_json :: "managed_work \<Rightarrow> jval" where
  "managed_json m = JObj [(''task_id'', JStr (m_task_id m)), (''control_generation'', jnat (m_control_generation m)),
     (''intent_truncated'', JBool (m_intent_truncated m)), (''areas_source'', literal areas_sources (m_areas_source m))]"

definition grant_json :: "source_grant \<Rightarrow> jval" where
  "grant_json g = JObj [(''recipient'', JStr (g_recipient g)), (''scope'', literal grant_scopes (g_scope g)),
     (''work_revision'', jnat (g_work_revision g))]"

definition override_json :: "dialect_override \<Rightarrow> jval" where
  "override_json d = JObj [(''path'', JStr (do_path d)), (''dialect'', literal dialects (do_dialect d))]"

definition watcher_fields :: "'a watcher_scheme \<Rightarrow> (string \<times> jval) list" where
  "watcher_fields w = [(''recipient'', JStr (wa_recipient w)), (''regions'', jlist region_json (wa_regions w))]
     @ opt_field ''dialect_overrides'' (jlist override_json) (wa_overrides w)"

definition watcher_json :: "watcher \<Rightarrow> jval" where
  "watcher_json w = JObj (watcher_fields w)"

definition source_watch_json :: "source_watch \<Rightarrow> jval" where
  "source_watch_json w = JObj (watcher_fields w @ [(''work_revision'', jnat (sw_work_revision w))])"

definition work_json :: "work \<Rightarrow> jval" where
  "work_json w = JObj ([(''id'', JStr (w_id w)), (''owner'', JStr (w_owner w)),
      (''workspace_id'', JStr (w_workspace_id w)), (''revision'', jnat (w_revision w)),
      (''state'', literal lives (w_state w)), (''input_oid'', JStr (w_input_oid w)),
      (''object_format'', literal object_formats (w_object_format w)), (''intent'', JStr (w_intent w)),
      (''areas'', jlist region_json (w_areas w)), (''readers'', jstrs (w_readers w))]
     @ opt_field ''managed'' managed_json (w_managed w)
     @ opt_field ''source_grants'' (jlist grant_json) (w_source_grants w)
     @ opt_field ''source_watches'' (jlist source_watch_json) (w_source_watches w))"

definition observed_json :: "observed_delivery \<Rightarrow> jval" where
  "observed_json d = JObj [(''work_id'', JStr (od_work_id d)), (''observation_digest'', JStr (od_digest d))]"

definition delta_json :: "visibility_delta \<Rightarrow> jval" where
  "delta_json d = JObj [(''work_id'', JStr (vd_work_id d)), (''work_revision'', jnat (vd_work_revision d)),
     (''control_generation'', jnat (vd_control_generation d)), (''areas'', jlist region_json (vd_areas d)),
     (''added_readers'', jstrs (vd_added_readers d))]"

definition oid_json :: "string option \<Rightarrow> jval" where
  "oid_json x = (case x of None \<Rightarrow> JNull | Some t \<Rightarrow> JStr t)"

definition case_json :: "case_rec \<Rightarrow> jval" where
  "case_json c = JObj ([(''id'', JStr (c_id c)), (''target'', JStr (c_target c)), (''lead'', JStr (c_lead c)),
      (''members'', jstrs (c_members c)), (''revision'', jnat (c_revision c)), (''generation'', jnat (c_generation c)),
      (''state'', literal lives (c_state c)), (''external_effect'', literal effects (c_external_effect c)),
      (''target_oid'', oid_json (c_target_oid c)), (''inputs'', jlist selection_json (c_inputs c))]
     @ opt_field ''observed_origin'' (literal origins) (c_observed_origin c)
     @ opt_field ''delivery_pending'' jstrs (c_delivery_pending c)
     @ opt_field ''delivery_observed'' (jlist observed_json) (c_delivery_observed c)
     @ opt_field ''visibility_delta'' (jlist delta_json) (c_visibility_delta c))"

definition note_json :: "note_rec \<Rightarrow> jval" where
  "note_json n = JObj ([(''id'', JStr (n_id n)), (''subject'', subject_json (n_subject n)),
      (''author'', JStr (n_author n)), (''kind'', literal noteKinds (n_kind n)), (''text'', JStr (n_text n)),
      (''work_refs'', jstrs (n_work_refs n)), (''parties'', jstrs (n_parties n)),
      (''acknowledged'', jstrs (n_acknowledged n)), (''withdrawn'', JBool (n_withdrawn n))]
     @ opt_field ''readers'' jstrs (n_readers n))"

definition receipt_json :: "receipt \<Rightarrow> jval" where
  "receipt_json r = JObj [(''owner'', JStr (rc_owner r)), (''key'', JStr (rc_key r)),
     (''request_hash'', JStr (rc_request_hash r)), (''revision'', jnat (rc_revision r)),
     (''action'', literal receipt_actions (rc_action r)), (''entity'', subject_json (rc_entity r)),
     (''item_id'', JStr (rc_item_id r)), (''outcome'', JStr ''recorded'')]"

definition announcement_json :: "announcement \<Rightarrow> jval" where
  "announcement_json a = JObj ([(''id'', JStr (an_id a)), (''owner'', JStr (an_owner a)),
      (''revision'', jnat (an_revision a)), (''state'', literal announcement_states (an_state a)),
      (''payload_ref'', JStr (an_payload_ref a)), (''payload_digest'', JStr (an_payload_digest a)),
      (''source_view'', JStr (an_source_view a)), (''assignment_hash'', JStr (an_assignment_hash a)),
      (''areas'', jlist region_json (an_areas a)), (''readers'', jstrs (an_readers a))]
     @ opt_field ''task_id'' JStr (an_task_id a))"

definition ann_ref_json :: "ann_ref \<Rightarrow> jval" where
  "ann_ref_json r = JObj [(''id'', JStr (ar_id r)), (''revision'', jnat (ar_revision r))]"

definition terminal_json :: "terminal_evidence \<Rightarrow> jval" where
  "terminal_json t = JObj [(''revision'', jnat (te_revision t)),
     (''control_generation'', jnat (te_control_generation t)), (''outcome'', literal outcomes (te_outcome t))]"

definition binding_json :: "binding \<Rightarrow> jval" where
  "binding_json b = JObj ([(''task_id'', JStr (b_task_id b)), (''request_key'', JStr (b_request_key b)),
      (''owner'', JStr (b_owner b)), (''intent_hash'', JStr (b_intent_hash b)),
      (''decision_identity'', JStr (b_decision_identity b)), (''link_hash'', JStr (b_link_hash b)),
      (''source_view'', JStr (b_source_view b)), (''input_oid'', JStr (b_input_oid b)),
      (''areas'', jlist region_json (b_areas b))]
     @ opt_field ''announcement'' ann_ref_json (b_announcement b)
     @ [(''state'', literal binding_states (b_state b))]
     @ opt_field ''terminal'' terminal_json (b_terminal b))"

definition event_json :: "event \<Rightarrow> jval" where
  "event_json e = JObj [(''kind'', literal event_kinds (ev_kind e)), (''owner'', JStr (ev_owner e)),
     (''key'', JStr (ev_key e)), (''item_id'', JStr (ev_item_id e)),
     (''request_hash'', JStr (ev_request_hash e)), (''revision'', jnat (ev_revision e))]"

definition recovery_base_fields :: "recovery_command \<Rightarrow> string \<Rightarrow> (string \<times> jval) list" where
  "recovery_base_fields r kind = [(''operation_key'', JStr (rv_operation_key r)), (''epoch'', JStr (rv_epoch r)),
     (''expected_owner'', JStr (rv_expected_owner r)), (''expected_revision'', jnat (rv_expected_revision r)),
     (''statement'', JStr (rv_statement r)), (''kind'', JStr kind)]"

definition recovery_json :: "recovery_command \<Rightarrow> jval" where
  "recovery_json r = (case rv_action r of
     Adopt_work w p \<Rightarrow> JObj (recovery_base_fields r ''adopt_work'' @ [(''work_id'', JStr w), (''new_owner'', JStr p)])
   | Close_work_rec w \<Rightarrow> JObj (recovery_base_fields r ''close_work'' @ [(''work_id'', JStr w)])
   | Adopt_case c g p \<Rightarrow> JObj (recovery_base_fields r ''adopt_case'' @
       [(''case_id'', JStr c), (''expected_generation'', jnat g), (''new_owner'', JStr p)])
   | Release_case_rec c g \<Rightarrow> JObj (recovery_base_fields r ''release_case'' @
       [(''case_id'', JStr c), (''expected_generation'', jnat g)])
   | Settle_case c g \<Rightarrow> JObj (recovery_base_fields r ''settle_case'' @
       [(''case_id'', JStr c), (''expected_generation'', jnat g)]))"

definition recovery_receipt_json :: "recovery_receipt \<Rightarrow> jval" where
  "recovery_receipt_json r = JObj [(''operator'', JStr (rr_operator r)), (''command'', recovery_json (rr_command r)),
     (''request_hash'', JStr (rr_request_hash r)), (''revision'', jnat (rr_revision r))]"

definition control_json :: "control_state \<Rightarrow> jval" where
  "control_json s = JObj ([(''schema_version'', jnat (cs_schema s)), (''repository_id'', JStr (cs_repository_id s)),
      (''epoch'', JStr (cs_epoch s)), (''revision'', jnat (cs_revision s)), (''limits'', limits_json (cs_limits s)),
      (''works'', jlist work_json (cs_works s)), (''cases'', jlist case_json (cs_cases s)),
      (''notes'', jlist note_json (cs_notes s)), (''receipts'', jlist receipt_json (cs_receipts s))]
     @ (if cs_schema s = 1 then [] else [(''recoveries'', jlist recovery_receipt_json (cs_recoveries s))])
     @ (if has_submissions s then
          [(''announcements'', jlist announcement_json (cs_announcements s)),
           (''bindings'', jlist binding_json (cs_bindings s)),
           (''submission_events'', jlist event_json (cs_events s))] else []))"

text \<open>The value of a decoded command, hashed with its owner as the identity of a request.\<close>

definition key_fields :: "string \<Rightarrow> string \<Rightarrow> (string \<times> jval) list" where
  "key_fields kind k = [(''kind'', JStr kind), (''operation_key'', JStr k)]"

definition case_fields :: "string \<Rightarrow> nat \<Rightarrow> nat \<Rightarrow> (string \<times> jval) list" where
  "case_fields c rv g = [(''case_id'', JStr c), (''expected_revision'', jnat rv), (''generation'', jnat g)]"

definition recipient_json :: "string \<times> grant_scope \<Rightarrow> jval" where
  "recipient_json p = JObj [(''recipient'', JStr (fst p)), (''scope'', literal grant_scopes (snd p))]"

fun command_json :: "command \<Rightarrow> jval" where
  "command_json (Register_task_work k ws oid fmt intent areas m) =
     JObj (key_fields ''register_task_work'' k @ [(''workspace_id'', JStr ws), (''input_oid'', JStr oid),
       (''object_format'', literal object_formats fmt), (''intent'', JStr intent),
       (''areas'', jlist region_json areas), (''managed'', managed_json m)])"
| "command_json (Register_work k ws oid fmt intent areas readers) =
     JObj (key_fields ''register_work'' k @ [(''workspace_id'', JStr ws), (''input_oid'', JStr oid),
       (''object_format'', literal object_formats fmt), (''intent'', JStr intent),
       (''areas'', jlist region_json areas), (''readers'', jstrs readers)])"
| "command_json (Share_work k w rv readers) =
     JObj (key_fields ''share_work'' k @ [(''work_id'', JStr w), (''expected_revision'', jnat rv), (''readers'', jstrs readers)])"
| "command_json (Grant_source k w rv rs) =
     JObj (key_fields ''grant_source'' k @ [(''work_id'', JStr w), (''expected_revision'', jnat rv),
       (''recipients'', jlist recipient_json rs)])"
| "command_json (Watch_source k w rv ws) =
     JObj (key_fields ''watch_source'' k @ [(''work_id'', JStr w), (''expected_revision'', jnat rv),
       (''watchers'', jlist watcher_json ws)])"
| "command_json (Close_work k w rv) =
     JObj (key_fields ''close_work'' k @ [(''work_id'', JStr w), (''expected_revision'', jnat rv)])"
| "command_json (Post_note k s nk t ps) =
     JObj (key_fields ''post_note'' k @ [(''subject'', subject_json s), (''note_kind'', literal noteKinds nk),
       (''text'', JStr t), (''parties'', jstrs ps)])"
| "command_json (Ack_note k n) = JObj (key_fields ''ack_note'' k @ [(''note_id'', JStr n)])"
| "command_json (Withdraw_note k n) = JObj (key_fields ''withdraw_note'' k @ [(''note_id'', JStr n)])"
| "command_json (Claim_target k t ms) =
     JObj (key_fields ''claim_target'' k @ [(''target'', JStr t), (''members'', jstrs ms)])"
| "command_json (Select_inputs k c rv g oid ins) =
     JObj (key_fields ''select_inputs'' k @ case_fields c rv g @ [(''target_oid'', JStr oid),
       (''inputs'', jlist selection_json ins)])"
| "command_json (Release_case k c rv g) = JObj (key_fields ''release_case'' k @ case_fields c rv g)"
| "command_json (Begin_external_integration k c rv g) =
     JObj (key_fields ''begin_external_integration'' k @ case_fields c rv g)"
| "command_json (Record_external_settlement k c rv g) =
     JObj (key_fields ''record_external_settlement'' k @ case_fields c rv g)"
| "command_json (Transfer_case k c rv g p) =
     JObj (key_fields ''transfer_case'' k @ case_fields c rv g @ [(''new_lead'', JStr p)])"

definition request_hash :: "(string \<Rightarrow> string) \<Rightarrow> string \<Rightarrow> command \<Rightarrow> string" where
  "request_hash sha owner cmd =
     canonical_hash sha (JObj [(''owner'', JStr owner), (''command'', command_json cmd)])"

definition recovery_hash :: "(string \<Rightarrow> string) \<Rightarrow> string \<Rightarrow> recovery_command \<Rightarrow> string" where
  "recovery_hash sha operator cmd =
     canonical_hash sha (JObj [(''operator'', JStr operator), (''recovery'', recovery_json cmd)])"

end
