(* ===== verification/Control_Decode.thy ===== *)
theory Control_Decode
  imports Control_Types
begin

text \<open>
  The decoders of the owned coordination contract
  (src/src/contracts/coordination-control.ts, lines 151 to 439): primitive fields, the
  retained records, the ordinary commands. Each record has a predicate of the values
  its decoder accepts; a decoder returns such values only, and accepts the JSON value
  of each of them.
\<close>

section \<open>Primitive fields\<close>

definition INVALID :: string where "INVALID = ''COORDINATION_INVALID''"

abbreviation invalid :: "'a res" where "invalid \<equiv> fail INVALID"

definition as_object :: "jval \<Rightarrow> (string \<times> jval) list res" where
  "as_object v = (case v of JObj kvs \<Rightarrow> Inr kvs | _ \<Rightarrow> invalid)"

definition fields :: "(string \<times> jval) list \<Rightarrow> string list \<Rightarrow> unit res" where
  "fields kvs names =
     guard_fail (length kvs \<noteq> length names \<or> (\<exists>k \<in> set names. \<not> has_own kvs k)) INVALID"

definition opt_name :: "(string \<times> jval) list \<Rightarrow> string \<Rightarrow> string list" where
  "opt_name kvs k = (if has_own kvs k then [k] else [])"

definition text_ok :: "nat \<Rightarrow> bool \<Rightarrow> string \<Rightarrow> bool" where
  "text_ok maximum allow_empty s = ((allow_empty \<or> s \<noteq> []) \<and> length s \<le> maximum \<and> CHR 0x00 \<notin> set s)"

definition text_of :: "jval \<Rightarrow> nat \<Rightarrow> bool \<Rightarrow> string res" where
  "text_of v maximum allow_empty =
     (case v of JStr s \<Rightarrow> if text_ok maximum allow_empty s then Inr s else invalid | _ \<Rightarrow> invalid)"

definition number_of :: "jval \<Rightarrow> nat \<Rightarrow> int \<Rightarrow> nat res" where
  "number_of v minimum maximum =
     (case v of
        JNum i \<Rightarrow> if abs i > MAX_SAFE_INTEGER \<or> i < int minimum \<or> i > maximum then invalid else Inr (nat i)
      | _ \<Rightarrow> invalid)"

definition boolean_of :: "jval \<Rightarrow> bool res" where
  "boolean_of v = (case v of JBool b \<Rightarrow> Inr b | _ \<Rightarrow> invalid)"

definition choice :: "jval \<Rightarrow> (string \<times> 'a) list \<Rightarrow> 'a res" where
  "choice v options =
     (case v of JStr s \<Rightarrow> (case map_of options s of Some x \<Rightarrow> Inr x | None \<Rightarrow> invalid) | _ \<Rightarrow> invalid)"

definition list_of :: "jval \<Rightarrow> nat \<Rightarrow> (jval \<Rightarrow> 'a res) \<Rightarrow> 'a list res" where
  "list_of v maximum decode =
     (case v of JArr vs \<Rightarrow> if maximum < length vs then invalid else map_res decode vs | _ \<Rightarrow> invalid)"

definition unique :: "'a list \<Rightarrow> ('a \<Rightarrow> 'k) \<Rightarrow> 'a list res" where
  "unique items key = (if unique_by key items then Inr items else invalid)"

definition unique_list :: "jval \<Rightarrow> nat \<Rightarrow> (jval \<Rightarrow> 'a res) \<Rightarrow> ('a \<Rightarrow> 'k) \<Rightarrow> 'a list res" where
  "unique_list v maximum decode key = andThen (list_of v maximum decode) (\<lambda>xs. unique xs key)"

section \<open>Identities and paths\<close>

definition is_hex :: "char \<Rightarrow> bool" where
  "is_hex c = (let n = of_char c :: nat in (97 \<le> n \<and> n \<le> 102) \<or> (48 \<le> n \<and> n \<le> 57))"

definition hex_of :: "nat \<Rightarrow> string \<Rightarrow> bool" where
  "hex_of n s = (length s = n \<and> list_all is_hex s)"

definition is_uuid :: "string \<Rightarrow> bool" where
  "is_uuid s = (map length (split_on CHR ''-'' s) = [8, 4, 4, 4, 12] \<and> list_all (\<lambda>c. is_hex c \<or> c = CHR ''-'') s)"

definition is_oid :: "string \<Rightarrow> bool" where
  "is_oid s = (hex_of 40 s \<or> hex_of 64 s)"

definition checked :: "jval \<Rightarrow> nat \<Rightarrow> (string \<Rightarrow> bool) \<Rightarrow> string res" where
  "checked v maximum p = andThen (text_of v maximum False) (\<lambda>s. if p s then Inr s else invalid)"

definition parentId :: "jval \<Rightarrow> string res" where "parentId v = checked v 64 (hex_of 64)"
definition entityId :: "jval \<Rightarrow> string res" where "entityId v = checked v 36 is_uuid"
definition digest_of :: "jval \<Rightarrow> string res" where "digest_of v = checked v 64 (hex_of 64)"
definition coordinationOid :: "jval \<Rightarrow> string res" where "coordinationOid v = checked v 64 is_oid"

definition oid_length :: "object_format \<Rightarrow> nat" where
  "oid_length fmt = (case fmt of Sha1 \<Rightarrow> 40 | Sha256 \<Rightarrow> 64)"

definition formatOid :: "string \<Rightarrow> object_format \<Rightarrow> unit res" where
  "formatOid commit fmt = guard_fail (length commit \<noteq> oid_length fmt) INVALID"

definition parents :: "jval \<Rightarrow> string list res" where
  "parents v = unique_list v MAX_PARTIES parentId (\<lambda>x. x)"

definition rel_path :: "string \<Rightarrow> bool" where
  "rel_path s = (\<not> starts_with s ''/'' \<and> (\<forall>x \<in> set (split_on CHR ''/'' s). x \<noteq> '''' \<and> x \<noteq> ''.'' \<and> x \<noteq> ''..''))"

definition path_of :: "jval \<Rightarrow> string res" where "path_of v = checked v 4096 rel_path"

definition region_of :: "jval \<Rightarrow> region res" where
  "region_of value =
     andThen (as_object value) (\<lambda>v. andThen (fields v [''kind'', ''path'']) (\<lambda>_.
     andThen (choice (prop_of v ''kind'') region_kinds) (\<lambda>k. andThen (path_of (prop_of v ''path'')) (\<lambda>p.
     Inr \<lparr>r_kind = k, r_path = p\<rparr>))))"

definition region_key :: "region \<Rightarrow> string" where
  "region_key r = (case r_kind r of RFile \<Rightarrow> ''file:'' | RSubtree \<Rightarrow> ''subtree:'') @ r_path r"

definition regions :: "jval \<Rightarrow> region list res" where
  "regions v = unique_list v MAX_REGIONS region_of region_key"

definition subject_of :: "jval \<Rightarrow> subject res" where
  "subject_of value =
     andThen (as_object value) (\<lambda>v. andThen (fields v [''kind'', ''id'']) (\<lambda>_.
     andThen (choice (prop_of v ''kind'') subject_kinds) (\<lambda>k. andThen (entityId (prop_of v ''id'')) (\<lambda>i.
     Inr \<lparr>s_kind = k, s_id = i\<rparr>))))"

definition target_ok :: "string \<Rightarrow> bool" where
  "target_ok s = (starts_with s ''refs/heads/'' \<and> length s \<noteq> 11 \<and> CHR 0x0D \<notin> set s \<and> CHR 0x0A \<notin> set s \<and> CHR 0x00 \<notin> set s)"

definition coordinationTarget :: "jval \<Rightarrow> string res" where
  "coordinationTarget v = checked v 512 target_ok"

definition selection_of :: "jval \<Rightarrow> selection res" where
  "selection_of value =
     andThen (as_object value) (\<lambda>v. andThen (fields v [''work_id'', ''commit_oid'']) (\<lambda>_.
     andThen (entityId (prop_of v ''work_id'')) (\<lambda>w. andThen (coordinationOid (prop_of v ''commit_oid'')) (\<lambda>c.
     Inr \<lparr>sel_work_id = w, sel_commit_oid = c\<rparr>))))"

definition selections :: "jval \<Rightarrow> selection list res" where
  "selections v = unique_list v MAX_REGIONS selection_of sel_work_id"

definition decodeLimits :: "jval \<Rightarrow> limits res" where
  "decodeLimits value =
     andThen (as_object value) (\<lambda>v. andThen (fields v [''works'', ''cases'', ''notes'', ''receipts'', ''note_bytes'']) (\<lambda>_.
     andThen (number_of (prop_of v ''works'') 1 (int MAX_ENTITIES)) (\<lambda>w.
     andThen (number_of (prop_of v ''cases'') 1 (int MAX_ENTITIES)) (\<lambda>c.
     andThen (number_of (prop_of v ''notes'') 1 (int MAX_ENTITIES)) (\<lambda>n.
     andThen (number_of (prop_of v ''receipts'') 1 (int MAX_ENTITIES)) (\<lambda>r.
     andThen (number_of (prop_of v ''note_bytes'') 1 (int MAX_NOTE_BYTES)) (\<lambda>b.
     Inr \<lparr>lim_works = w, lim_cases = c, lim_notes = n, lim_receipts = r, lim_note_bytes = b\<rparr>)))))))"

text \<open>A positive counter: \<open>number(v, 1)\<close>.\<close>

definition counter_of :: "jval \<Rightarrow> nat res" where
  "counter_of v = number_of v 1 MAX_SAFE_INTEGER"

section \<open>Works\<close>

definition managedWork :: "jval \<Rightarrow> managed_work res" where
  "managedWork value =
     andThen (as_object value) (\<lambda>v.
     andThen (fields v [''task_id'', ''control_generation'', ''intent_truncated'', ''areas_source'']) (\<lambda>_.
     andThen (entityId (prop_of v ''task_id'')) (\<lambda>t. andThen (counter_of (prop_of v ''control_generation'')) (\<lambda>g.
     andThen (boolean_of (prop_of v ''intent_truncated'')) (\<lambda>b. andThen (choice (prop_of v ''areas_source'') areas_sources) (\<lambda>a.
     Inr \<lparr>m_task_id = t, m_control_generation = g, m_intent_truncated = b, m_areas_source = a\<rparr>))))))"

definition override_ok :: "region list \<Rightarrow> dialect_override \<Rightarrow> bool" where
  "override_ok watched d =
     ((\<exists>r \<in> set watched. r_kind r = RFile \<and> r_path r = do_path d)
      \<and> \<not> (do_dialect d = Jsx \<and> (\<not> ends_with (do_path d) ''.js'' \<or> ends_with (do_path d) ''.svelte.js''))
      \<and> \<not> (do_dialect d \<noteq> Jsx \<and> \<not> ends_with (do_path d) ''.h''))"

definition override_of :: "region list \<Rightarrow> jval \<Rightarrow> dialect_override res" where
  "override_of watched value =
     andThen (as_object value) (\<lambda>v. andThen (fields v [''path'', ''dialect'']) (\<lambda>_.
     andThen (path_of (prop_of v ''path'')) (\<lambda>p. andThen (choice (prop_of v ''dialect'') dialects) (\<lambda>d.
     let x = \<lparr>do_path = p, do_dialect = d\<rparr> in if override_ok watched x then Inr x else invalid))))"

definition decodeDialectOverrides :: "jval \<Rightarrow> region list \<Rightarrow> dialect_override list res" where
  "decodeDialectOverrides v watched = unique_list v MAX_REGIONS (override_of watched) do_path"

text \<open>The watchers of one file agree on its dialect; the map remembers the dialects seen.\<close>

fun assertDialects :: "(string \<Rightarrow> dialect option) \<Rightarrow> dialect_override list \<Rightarrow> unit res" where
  "assertDialects seen [] = Inr ()"
| "assertDialects seen (d # ds) =
     (case seen (do_path d) of
        Some e \<Rightarrow> if e \<noteq> do_dialect d then invalid else assertDialects (seen(do_path d := Some (do_dialect d))) ds
      | None \<Rightarrow> assertDialects (seen(do_path d := Some (do_dialect d))) ds)"

definition region_total :: "'a watcher_scheme list \<Rightarrow> nat" where
  "region_total ws = sum_list (map (\<lambda>w. length (wa_regions w)) ws)"

definition all_overrides :: "'a watcher_scheme list \<Rightarrow> dialect_override list" where
  "all_overrides ws = concat (map (\<lambda>w. case wa_overrides w of None \<Rightarrow> [] | Some ds \<Rightarrow> ds) ws)"

definition assertWatchInventory :: "'a watcher_scheme list \<Rightarrow> unit res" where
  "assertWatchInventory ws =
     andThen (guard_fail (MAX_REGIONS < region_total ws) INVALID) (\<lambda>_.
     assertDialects (\<lambda>_. None) (all_overrides ws))"

definition opt_of :: "(string \<times> jval) list \<Rightarrow> string \<Rightarrow> (jval \<Rightarrow> 'a res) \<Rightarrow> 'a option res" where
  "opt_of v k decode =
     (if has_own v k then andThen (decode (prop_of v k)) (\<lambda>x. Inr (Some x)) else Inr None)"

definition watched_regions :: "jval \<Rightarrow> region list res" where
  "watched_regions value = andThen (regions value) (\<lambda>rs. if rs = [] then invalid else Inr rs)"

definition watcher_of :: "jval \<Rightarrow> watcher res" where
  "watcher_of value =
     andThen (as_object value) (\<lambda>v.
     andThen (fields v ([''recipient'', ''regions''] @ opt_name v ''dialect_overrides'')) (\<lambda>_.
     andThen (watched_regions (prop_of v ''regions'')) (\<lambda>rs.
     andThen (opt_of v ''dialect_overrides'' (\<lambda>x. decodeDialectOverrides x rs)) (\<lambda>ds.
     andThen (parentId (prop_of v ''recipient'')) (\<lambda>p.
     Inr \<lparr>wa_recipient = p, wa_regions = rs, wa_overrides = ds\<rparr>)))))"

definition source_watch_of :: "jval \<Rightarrow> source_watch res" where
  "source_watch_of value =
     andThen (as_object value) (\<lambda>v.
     andThen (fields v ([''recipient'', ''regions'', ''work_revision''] @ opt_name v ''dialect_overrides'')) (\<lambda>_.
     andThen (watched_regions (prop_of v ''regions'')) (\<lambda>rs.
     andThen (opt_of v ''dialect_overrides'' (\<lambda>x. decodeDialectOverrides x rs)) (\<lambda>ds.
     andThen (parentId (prop_of v ''recipient'')) (\<lambda>p. andThen (counter_of (prop_of v ''work_revision'')) (\<lambda>n.
     Inr \<lparr>wa_recipient = p, wa_regions = rs, wa_overrides = ds, sw_work_revision = n\<rparr>))))))"

definition grant_of :: "jval \<Rightarrow> source_grant res" where
  "grant_of value =
     andThen (as_object value) (\<lambda>v. andThen (fields v [''recipient'', ''scope'', ''work_revision'']) (\<lambda>_.
     andThen (parentId (prop_of v ''recipient'')) (\<lambda>p. andThen (choice (prop_of v ''scope'') grant_scopes) (\<lambda>s.
     andThen (counter_of (prop_of v ''work_revision'')) (\<lambda>n.
     Inr \<lparr>g_recipient = p, g_scope = s, g_work_revision = n\<rparr>)))))"

definition work_of :: "jval \<Rightarrow> work res" where
  "work_of value =
     andThen (as_object value) (\<lambda>v.
     andThen (fields v ([''id'', ''owner'', ''workspace_id'', ''revision'', ''state'', ''input_oid'', ''object_format'',
       ''intent'', ''areas'', ''readers''] @ opt_name v ''managed'' @ opt_name v ''source_grants'' @ opt_name v ''source_watches'')) (\<lambda>_.
     andThen (choice (prop_of v ''object_format'') object_formats) (\<lambda>fmt.
     andThen (coordinationOid (prop_of v ''input_oid'')) (\<lambda>oid. andThen (formatOid oid fmt) (\<lambda>_.
     andThen (entityId (prop_of v ''id'')) (\<lambda>i. andThen (parentId (prop_of v ''owner'')) (\<lambda>p.
     andThen (text_of (prop_of v ''workspace_id'') 4096 False) (\<lambda>ws. andThen (counter_of (prop_of v ''revision'')) (\<lambda>rv.
     andThen (choice (prop_of v ''state'') lives) (\<lambda>st. andThen (text_of (prop_of v ''intent'') 4096 True) (\<lambda>intent.
     andThen (regions (prop_of v ''areas'')) (\<lambda>areas. andThen (parents (prop_of v ''readers'')) (\<lambda>readers.
     andThen (opt_of v ''managed'' managedWork) (\<lambda>m.
     andThen (opt_of v ''source_grants'' (\<lambda>x. unique_list x MAX_PARTIES grant_of g_recipient)) (\<lambda>gs.
     andThen (opt_of v ''source_watches'' (\<lambda>x. unique_list x MAX_PARTIES source_watch_of wa_recipient)) (\<lambda>sws.
     andThen (assertWatchInventory (case sws of None \<Rightarrow> [] | Some l \<Rightarrow> l)) (\<lambda>_.
     Inr \<lparr>w_id = i, w_owner = p, w_workspace_id = ws, w_revision = rv, w_state = st, w_input_oid = oid,
       w_object_format = fmt, w_intent = intent, w_areas = areas, w_readers = readers, w_managed = m,
       w_source_grants = gs, w_source_watches = sws\<rparr>)))))))))))))))))"

section \<open>Cases, notes and receipts\<close>

definition observed_of :: "jval \<Rightarrow> observed_delivery res" where
  "observed_of value =
     andThen (as_object value) (\<lambda>v. andThen (fields v [''work_id'', ''observation_digest'']) (\<lambda>_.
     andThen (entityId (prop_of v ''work_id'')) (\<lambda>w. andThen (digest_of (prop_of v ''observation_digest'')) (\<lambda>d.
     Inr \<lparr>od_work_id = w, od_digest = d\<rparr>))))"

definition delta_of :: "jval \<Rightarrow> visibility_delta res" where
  "delta_of value =
     andThen (as_object value) (\<lambda>v.
     andThen (fields v [''work_id'', ''work_revision'', ''control_generation'', ''areas'', ''added_readers'']) (\<lambda>_.
     andThen (entityId (prop_of v ''work_id'')) (\<lambda>w. andThen (counter_of (prop_of v ''work_revision'')) (\<lambda>r.
     andThen (counter_of (prop_of v ''control_generation'')) (\<lambda>g. andThen (regions (prop_of v ''areas'')) (\<lambda>a.
     andThen (parents (prop_of v ''added_readers'')) (\<lambda>ps.
     Inr \<lparr>vd_work_id = w, vd_work_revision = r, vd_control_generation = g, vd_areas = a, vd_added_readers = ps\<rparr>)))))))"

definition target_oid_of :: "jval \<Rightarrow> string option res" where
  "target_oid_of v = (if v = JNull then Inr None else andThen (coordinationOid v) (\<lambda>x. Inr (Some x)))"

definition caseRecord :: "jval \<Rightarrow> case_rec res" where
  "caseRecord value =
     andThen (as_object value) (\<lambda>v.
     andThen (fields v ([''id'', ''target'', ''lead'', ''members'', ''revision'', ''generation'', ''state'',
       ''external_effect'', ''target_oid'', ''inputs''] @ opt_name v ''observed_origin'' @ opt_name v ''delivery_pending''
       @ opt_name v ''visibility_delta'' @ opt_name v ''delivery_observed'')) (\<lambda>_.
     andThen (entityId (prop_of v ''id'')) (\<lambda>i. andThen (coordinationTarget (prop_of v ''target'')) (\<lambda>t.
     andThen (parentId (prop_of v ''lead'')) (\<lambda>lead. andThen (parents (prop_of v ''members'')) (\<lambda>ms.
     andThen (counter_of (prop_of v ''revision'')) (\<lambda>rv. andThen (counter_of (prop_of v ''generation'')) (\<lambda>g.
     andThen (choice (prop_of v ''state'') lives) (\<lambda>st. andThen (choice (prop_of v ''external_effect'') effects) (\<lambda>ef.
     andThen (target_oid_of (prop_of v ''target_oid'')) (\<lambda>oid. andThen (selections (prop_of v ''inputs'')) (\<lambda>ins.
     andThen (opt_of v ''observed_origin'' (\<lambda>x. choice x origins)) (\<lambda>orig.
     andThen (opt_of v ''delivery_pending'' (\<lambda>x. unique_list x MAX_PARTIES entityId (\<lambda>y. y))) (\<lambda>pend.
     andThen (opt_of v ''delivery_observed'' (\<lambda>x. unique_list x MAX_PARTIES observed_of od_work_id)) (\<lambda>obs.
     andThen (opt_of v ''visibility_delta'' (\<lambda>x. unique_list x MAX_PARTIES delta_of vd_work_id)) (\<lambda>vd.
     Inr \<lparr>c_id = i, c_target = t, c_lead = lead, c_members = ms, c_revision = rv, c_generation = g, c_state = st,
       c_external_effect = ef, c_target_oid = oid, c_inputs = ins, c_observed_origin = orig, c_delivery_pending = pend,
       c_delivery_observed = obs, c_visibility_delta = vd\<rparr>))))))))))))))))"

definition note_of :: "jval \<Rightarrow> note_rec res" where
  "note_of value =
     andThen (as_object value) (\<lambda>v.
     andThen (fields v ([''id'', ''subject'', ''author'', ''kind'', ''text'', ''work_refs'', ''parties'', ''acknowledged'',
       ''withdrawn''] @ opt_name v ''readers'')) (\<lambda>_.
     andThen (choice (prop_of v ''kind'') noteKinds) (\<lambda>k. andThen (parents (prop_of v ''parties'')) (\<lambda>ps.
     andThen (parents (prop_of v ''acknowledged'')) (\<lambda>as.
     andThen (guard_fail ((k = Agreement_proposal) \<noteq> (ps \<noteq> []) \<or> (\<exists>p \<in> set as. p \<notin> set ps)) INVALID) (\<lambda>_.
     andThen (entityId (prop_of v ''id'')) (\<lambda>i. andThen (subject_of (prop_of v ''subject'')) (\<lambda>s.
     andThen (parentId (prop_of v ''author'')) (\<lambda>au. andThen (text_of (prop_of v ''text'') MAX_NOTE_BYTES False) (\<lambda>t.
     andThen (unique_list (prop_of v ''work_refs'') MAX_REGIONS entityId (\<lambda>y. y)) (\<lambda>ws.
     andThen (boolean_of (prop_of v ''withdrawn'')) (\<lambda>wd. andThen (opt_of v ''readers'' parents) (\<lambda>rs.
     Inr \<lparr>n_id = i, n_subject = s, n_author = au, n_kind = k, n_text = t, n_work_refs = ws, n_parties = ps,
       n_acknowledged = as, n_withdrawn = wd, n_readers = rs\<rparr>)))))))))))))"

definition receipt_of :: "jval \<Rightarrow> receipt res" where
  "receipt_of value =
     andThen (as_object value) (\<lambda>v.
     andThen (fields v [''owner'', ''key'', ''request_hash'', ''revision'', ''action'', ''entity'', ''item_id'', ''outcome'']) (\<lambda>_.
     andThen (parentId (prop_of v ''owner'')) (\<lambda>p. andThen (text_of (prop_of v ''key'') 256 False) (\<lambda>k.
     andThen (digest_of (prop_of v ''request_hash'')) (\<lambda>h. andThen (counter_of (prop_of v ''revision'')) (\<lambda>r.
     andThen (choice (prop_of v ''action'') receipt_actions) (\<lambda>a. andThen (subject_of (prop_of v ''entity'')) (\<lambda>e.
     andThen (entityId (prop_of v ''item_id'')) (\<lambda>i. andThen (choice (prop_of v ''outcome'') [(''recorded'', ())]) (\<lambda>_.
     Inr \<lparr>rc_owner = p, rc_key = k, rc_request_hash = h, rc_revision = r, rc_action = a, rc_entity = e, rc_item_id = i\<rparr>))))))))))"

section \<open>Submission records\<close>

definition coordinationOperationKey :: "jval \<Rightarrow> string res" where
  "coordinationOperationKey v = text_of v 256 False"

definition sourceView :: "jval \<Rightarrow> string res" where
  "sourceView v = checked v 4096 (\<lambda>s. starts_with s ''/'')"

definition announcementRecord :: "jval \<Rightarrow> announcement res" where
  "announcementRecord value =
     andThen (as_object value) (\<lambda>v.
     andThen (fields v ([''id'', ''owner'', ''revision'', ''state'', ''payload_ref'', ''payload_digest'', ''source_view'',
       ''assignment_hash'', ''areas'', ''readers''] @ opt_name v ''task_id'')) (\<lambda>_.
     andThen (choice (prop_of v ''state'') announcement_states) (\<lambda>st. andThen (opt_of v ''task_id'' entityId) (\<lambda>t.
     andThen (guard_fail ((st = Bound_ann \<or> st = Linked) \<noteq> (t \<noteq> None)) INVALID) (\<lambda>_.
     andThen (parentId (prop_of v ''owner'')) (\<lambda>p. andThen (parents (prop_of v ''readers'')) (\<lambda>rs.
     andThen (guard_fail (p \<in> set rs) INVALID) (\<lambda>_.
     andThen (entityId (prop_of v ''id'')) (\<lambda>i. andThen (counter_of (prop_of v ''revision'')) (\<lambda>rv.
     andThen (entityId (prop_of v ''payload_ref'')) (\<lambda>pr. andThen (digest_of (prop_of v ''payload_digest'')) (\<lambda>pd.
     andThen (sourceView (prop_of v ''source_view'')) (\<lambda>sv. andThen (digest_of (prop_of v ''assignment_hash'')) (\<lambda>ah.
     andThen (regions (prop_of v ''areas'')) (\<lambda>areas.
     Inr \<lparr>an_id = i, an_owner = p, an_revision = rv, an_state = st, an_payload_ref = pr, an_payload_digest = pd,
       an_source_view = sv, an_assignment_hash = ah, an_areas = areas, an_readers = rs, an_task_id = t\<rparr>)))))))))))))))"

definition announcementReference :: "jval \<Rightarrow> ann_ref res" where
  "announcementReference value =
     andThen (as_object value) (\<lambda>v. andThen (fields v [''id'', ''revision'']) (\<lambda>_.
     andThen (entityId (prop_of v ''id'')) (\<lambda>i. andThen (counter_of (prop_of v ''revision'')) (\<lambda>r.
     Inr \<lparr>ar_id = i, ar_revision = r\<rparr>))))"

definition terminalEvidence :: "jval \<Rightarrow> terminal_evidence res" where
  "terminalEvidence value =
     andThen (as_object value) (\<lambda>v. andThen (fields v [''revision'', ''control_generation'', ''outcome'']) (\<lambda>_.
     andThen (counter_of (prop_of v ''revision'')) (\<lambda>r. andThen (counter_of (prop_of v ''control_generation'')) (\<lambda>g.
     andThen (choice (prop_of v ''outcome'') outcomes) (\<lambda>oc.
     Inr \<lparr>te_revision = r, te_control_generation = g, te_outcome = oc\<rparr>)))))"

text \<open>The exact identity a submission binding is linked by, and its hash.\<close>

definition link_json :: "string \<Rightarrow> string \<Rightarrow> string \<Rightarrow> string \<Rightarrow> string \<Rightarrow> ann_ref option \<Rightarrow> jval" where
  "link_json task request_key owner intent decision ann =
     JObj ([(''schema_version'', JNum 1), (''task_id'', JStr task), (''request_key'', JStr request_key),
       (''owner_id'', JStr owner), (''intent_hash'', JStr intent), (''decision_identity'', JStr decision)]
       @ opt_field ''announcement'' ann_ref_json ann)"

definition submissionBinding :: "(string \<Rightarrow> string) \<Rightarrow> jval \<Rightarrow> binding res" where
  "submissionBinding sha value =
     andThen (as_object value) (\<lambda>v.
     andThen (fields v ([''task_id'', ''request_key'', ''owner'', ''intent_hash'', ''decision_identity'', ''link_hash'',
       ''source_view'', ''input_oid'', ''areas'', ''state''] @ opt_name v ''announcement'' @ opt_name v ''terminal'')) (\<lambda>_.
     andThen (entityId (prop_of v ''task_id'')) (\<lambda>t. andThen (coordinationOperationKey (prop_of v ''request_key'')) (\<lambda>k.
     andThen (parentId (prop_of v ''owner'')) (\<lambda>p. andThen (digest_of (prop_of v ''intent_hash'')) (\<lambda>ih.
     andThen (digest_of (prop_of v ''decision_identity'')) (\<lambda>di.
     andThen (opt_of v ''announcement'' announcementReference) (\<lambda>ann.
     andThen (digest_of (prop_of v ''link_hash'')) (\<lambda>lh.
     andThen (guard_fail (lh \<noteq> canonical_hash sha (link_json t k p ih di ann)) INVALID) (\<lambda>_.
     andThen (choice (prop_of v ''state'') binding_states) (\<lambda>st.
     andThen (guard_fail ((st = Terminal) \<noteq> has_own v ''terminal'') INVALID) (\<lambda>_.
     andThen (sourceView (prop_of v ''source_view'')) (\<lambda>sv. andThen (coordinationOid (prop_of v ''input_oid'')) (\<lambda>oid.
     andThen (regions (prop_of v ''areas'')) (\<lambda>areas.
     andThen (if st = Terminal then andThen (terminalEvidence (prop_of v ''terminal'')) (\<lambda>x. Inr (Some x)) else Inr None) (\<lambda>te.
     Inr \<lparr>b_task_id = t, b_request_key = k, b_owner = p, b_intent_hash = ih, b_decision_identity = di, b_link_hash = lh,
       b_source_view = sv, b_input_oid = oid, b_areas = areas, b_announcement = ann, b_state = st, b_terminal = te\<rparr>))))))))))))))))"

definition submissionEvent :: "jval \<Rightarrow> event res" where
  "submissionEvent value =
     andThen (as_object value) (\<lambda>v.
     andThen (fields v [''kind'', ''owner'', ''key'', ''item_id'', ''request_hash'', ''revision'']) (\<lambda>_.
     andThen (choice (prop_of v ''kind'') event_kinds) (\<lambda>k. andThen (parentId (prop_of v ''owner'')) (\<lambda>p.
     andThen (coordinationOperationKey (prop_of v ''key'')) (\<lambda>ky. andThen (entityId (prop_of v ''item_id'')) (\<lambda>i.
     andThen (digest_of (prop_of v ''request_hash'')) (\<lambda>h. andThen (counter_of (prop_of v ''revision'')) (\<lambda>r.
     Inr \<lparr>ev_kind = k, ev_owner = p, ev_key = ky, ev_item_id = i, ev_request_hash = h, ev_revision = r\<rparr>))))))))"

section \<open>Recovery commands\<close>

definition is_js_space :: "char \<Rightarrow> bool" where
  "is_js_space c = (let n = of_char c :: nat in n = 32 \<or> (9 \<le> n \<and> n \<le> 13))"

text \<open>
  \<open>trim()\<close> also removes the space separators and line terminators outside ASCII: U+00A0,
  U+1680, U+2000 to U+200A, U+2028, U+2029, U+202F, U+205F, U+3000 and U+FEFF.
\<close>

definition js_space_units :: "nat list" where
  "js_space_units = [9, 10, 11, 12, 13, 32, 160, 5760] @ [8192..<8203] @ [8232, 8233, 8239, 8287, 12288, 65279]"

definition blank_text :: "string \<Rightarrow> bool" where
  "blank_text s = list_all (\<lambda>u. u \<in> set js_space_units) (utf16 s)"

definition recovery_kinds :: "string list" where
  "recovery_kinds = [''adopt_work'', ''close_work'', ''adopt_case'', ''release_case'', ''settle_case'']"

definition recovery_common :: "string list" where
  "recovery_common = [''kind'', ''operation_key'', ''epoch'', ''expected_owner'', ''expected_revision'', ''statement'']"

definition recovery_action_of :: "(string \<times> jval) list \<Rightarrow> string \<Rightarrow> recovery_action res" where
  "recovery_action_of v kind =
     (if kind = ''adopt_work'' \<or> kind = ''close_work'' then
        andThen (fields v (recovery_common @ [''work_id''] @ (if kind = ''adopt_work'' then [''new_owner''] else []))) (\<lambda>_.
        andThen (entityId (prop_of v ''work_id'')) (\<lambda>w.
        if kind = ''adopt_work'' then andThen (parentId (prop_of v ''new_owner'')) (\<lambda>p. Inr (Adopt_work w p))
        else Inr (Close_work_rec w)))
      else
        andThen (fields v (recovery_common @ [''case_id'', ''expected_generation''] @ (if kind = ''adopt_case'' then [''new_owner''] else []))) (\<lambda>_.
        andThen (entityId (prop_of v ''case_id'')) (\<lambda>c.
        andThen (counter_of (prop_of v ''expected_generation'')) (\<lambda>g.
        if kind = ''adopt_case'' then andThen (parentId (prop_of v ''new_owner'')) (\<lambda>p. Inr (Adopt_case c g p))
        else if kind = ''release_case'' then Inr (Release_case_rec c g) else Inr (Settle_case c g)))))"

definition decodeRecoveryCommand :: "jval \<Rightarrow> recovery_command res" where
  "decodeRecoveryCommand value =
     andThen (as_object value) (\<lambda>v.
     (case prop_of v ''kind'' of
        JIll _ \<Rightarrow> fail ''COORDINATION_RECOVERY_OPERATION_UNSUPPORTED''
      | JStr kind \<Rightarrow>
          if kind \<notin> set recovery_kinds then fail ''COORDINATION_RECOVERY_OPERATION_UNSUPPORTED''
          else
            andThen (coordinationOperationKey (prop_of v ''operation_key'')) (\<lambda>k.
            andThen (entityId (prop_of v ''epoch'')) (\<lambda>e. andThen (parentId (prop_of v ''expected_owner'')) (\<lambda>p.
            andThen (counter_of (prop_of v ''expected_revision'')) (\<lambda>r.
            andThen (text_of (prop_of v ''statement'') RECOVERY_STATEMENT_BYTES False) (\<lambda>st.
            andThen (guard_fail (blank_text st) INVALID) (\<lambda>_.
            andThen (recovery_action_of v kind) (\<lambda>a.
            Inr \<lparr>rv_operation_key = k, rv_epoch = e, rv_expected_owner = p, rv_expected_revision = r,
              rv_statement = st, rv_action = a\<rparr>)))))))
      | _ \<Rightarrow> invalid))"

definition recovery_generation :: "recovery_action \<Rightarrow> nat option" where
  "recovery_generation a = (case a of Adopt_case _ g _ \<Rightarrow> Some g | Release_case_rec _ g \<Rightarrow> Some g
     | Settle_case _ g \<Rightarrow> Some g | _ \<Rightarrow> None)"

definition decodeRecoveryReceipt :: "(string \<Rightarrow> string) \<Rightarrow> jval \<Rightarrow> recovery_receipt res" where
  "decodeRecoveryReceipt sha value =
     andThen (as_object value) (\<lambda>v. andThen (fields v [''operator'', ''request_hash'', ''revision'', ''command'']) (\<lambda>_.
     andThen (parentId (prop_of v ''operator'')) (\<lambda>p. andThen (decodeRecoveryCommand (prop_of v ''command'')) (\<lambda>cmd.
     andThen (digest_of (prop_of v ''request_hash'')) (\<lambda>h.
     andThen (guard_fail (h \<noteq> recovery_hash sha p cmd) INVALID) (\<lambda>_.
     andThen (counter_of (prop_of v ''revision'')) (\<lambda>r.
     andThen (guard_fail (r \<le> rv_expected_revision cmd
        \<or> (case recovery_generation (rv_action cmd) of None \<Rightarrow> False | Some g \<Rightarrow> r \<le> g)) INVALID) (\<lambda>_.
     Inr \<lparr>rr_operator = p, rr_request_hash = h, rr_revision = r, rr_command = cmd\<rparr>))))))))"

section \<open>Ordinary commands\<close>

definition recipient_of :: "jval \<Rightarrow> (string \<times> grant_scope) res" where
  "recipient_of value =
     andThen (as_object value) (\<lambda>v. andThen (fields v [''recipient'', ''scope'']) (\<lambda>_.
     andThen (parentId (prop_of v ''recipient'')) (\<lambda>p. andThen (choice (prop_of v ''scope'') grant_scopes) (\<lambda>s.
     Inr (p, s)))))"

definition command_base :: "string list" where "command_base = [''kind'', ''operation_key'']"

definition case_base :: "string list" where
  "case_base = command_base @ [''case_id'', ''expected_revision'', ''generation'']"

definition decode_workspace :: "(string \<times> jval) list \<Rightarrow> (string \<times> string \<times> object_format) res" where
  "decode_workspace v =
     andThen (choice (prop_of v ''object_format'') object_formats) (\<lambda>fmt.
     andThen (coordinationOid (prop_of v ''input_oid'')) (\<lambda>oid. andThen (formatOid oid fmt) (\<lambda>_.
     andThen (text_of (prop_of v ''workspace_id'') 4096 False) (\<lambda>ws. Inr (ws, oid, fmt)))))"

definition decode_case_args :: "(string \<times> jval) list \<Rightarrow> (string \<times> nat \<times> nat) res" where
  "decode_case_args v =
     andThen (entityId (prop_of v ''case_id'')) (\<lambda>c. andThen (counter_of (prop_of v ''expected_revision'')) (\<lambda>r.
     andThen (counter_of (prop_of v ''generation'')) (\<lambda>g. Inr (c, r, g))))"

definition decode_work_args :: "(string \<times> jval) list \<Rightarrow> (string \<times> nat) res" where
  "decode_work_args v =
     andThen (entityId (prop_of v ''work_id'')) (\<lambda>w. andThen (counter_of (prop_of v ''expected_revision'')) (\<lambda>r. Inr (w, r)))"

fun decode_action :: "(string \<times> jval) list \<Rightarrow> string \<Rightarrow> action \<Rightarrow> command res" where
  "decode_action v k A_register_task_work =
     andThen (fields v (command_base @ [''workspace_id'', ''input_oid'', ''object_format'', ''intent'', ''areas'', ''managed''])) (\<lambda>_.
     andThen (decode_workspace v) (\<lambda>(ws, oid, fmt). andThen (managedWork (prop_of v ''managed'')) (\<lambda>m.
     andThen (regions (prop_of v ''areas'')) (\<lambda>areas.
     andThen (guard_fail (m_areas_source m = Not_declared \<and> areas \<noteq> []) INVALID) (\<lambda>_.
     andThen (text_of (prop_of v ''intent'') 4096 True) (\<lambda>intent.
     Inr (Register_task_work k ws oid fmt intent areas m)))))))"
| "decode_action v k A_register_work =
     andThen (fields v (command_base @ [''workspace_id'', ''input_oid'', ''object_format'', ''intent'', ''areas'', ''readers''])) (\<lambda>_.
     andThen (decode_workspace v) (\<lambda>(ws, oid, fmt). andThen (text_of (prop_of v ''intent'') 4096 True) (\<lambda>intent.
     andThen (regions (prop_of v ''areas'')) (\<lambda>areas. andThen (parents (prop_of v ''readers'')) (\<lambda>readers.
     Inr (Register_work k ws oid fmt intent areas readers))))))"
| "decode_action v k A_share_work =
     andThen (fields v (command_base @ [''work_id'', ''expected_revision'', ''readers''])) (\<lambda>_.
     andThen (decode_work_args v) (\<lambda>(w, r). andThen (parents (prop_of v ''readers'')) (\<lambda>readers.
     Inr (Share_work k w r readers))))"
| "decode_action v k A_grant_source =
     andThen (fields v (command_base @ [''work_id'', ''expected_revision'', ''recipients''])) (\<lambda>_.
     andThen (decode_work_args v) (\<lambda>(w, r).
     andThen (unique_list (prop_of v ''recipients'') MAX_PARTIES recipient_of fst) (\<lambda>rs.
     Inr (Grant_source k w r rs))))"
| "decode_action v k A_watch_source =
     andThen (fields v (command_base @ [''work_id'', ''expected_revision'', ''watchers''])) (\<lambda>_.
     andThen (unique_list (prop_of v ''watchers'') MAX_PARTIES watcher_of wa_recipient) (\<lambda>ws.
     andThen (assertWatchInventory ws) (\<lambda>_.
     andThen (decode_work_args v) (\<lambda>(w, r). Inr (Watch_source k w r ws)))))"
| "decode_action v k A_close_work =
     andThen (fields v (command_base @ [''work_id'', ''expected_revision''])) (\<lambda>_.
     andThen (decode_work_args v) (\<lambda>(w, r). Inr (Close_work k w r)))"
| "decode_action v k A_post_note =
     andThen (fields v (command_base @ [''subject'', ''note_kind'', ''text'', ''parties''])) (\<lambda>_.
     andThen (choice (prop_of v ''note_kind'') noteKinds) (\<lambda>nk. andThen (parents (prop_of v ''parties'')) (\<lambda>ps.
     andThen (guard_fail ((nk = Agreement_proposal) \<noteq> (ps \<noteq> [])) INVALID) (\<lambda>_.
     andThen (subject_of (prop_of v ''subject'')) (\<lambda>s. andThen (text_of (prop_of v ''text'') MAX_NOTE_BYTES False) (\<lambda>t.
     Inr (Post_note k s nk t ps)))))))"
| "decode_action v k A_ack_note =
     andThen (fields v (command_base @ [''note_id''])) (\<lambda>_. andThen (entityId (prop_of v ''note_id'')) (\<lambda>n. Inr (Ack_note k n)))"
| "decode_action v k A_withdraw_note =
     andThen (fields v (command_base @ [''note_id''])) (\<lambda>_. andThen (entityId (prop_of v ''note_id'')) (\<lambda>n. Inr (Withdraw_note k n)))"
| "decode_action v k A_claim_target =
     andThen (fields v (command_base @ [''target'', ''members''])) (\<lambda>_.
     andThen (coordinationTarget (prop_of v ''target'')) (\<lambda>t. andThen (parents (prop_of v ''members'')) (\<lambda>ms.
     Inr (Claim_target k t ms))))"
| "decode_action v k A_select_inputs =
     andThen (fields v (case_base @ [''target_oid'', ''inputs''])) (\<lambda>_. andThen (decode_case_args v) (\<lambda>(c, r, g).
     andThen (coordinationOid (prop_of v ''target_oid'')) (\<lambda>oid. andThen (selections (prop_of v ''inputs'')) (\<lambda>ins.
     Inr (Select_inputs k c r g oid ins)))))"
| "decode_action v k A_transfer_case =
     andThen (fields v (case_base @ [''new_lead''])) (\<lambda>_. andThen (decode_case_args v) (\<lambda>(c, r, g).
     andThen (parentId (prop_of v ''new_lead'')) (\<lambda>p. Inr (Transfer_case k c r g p))))"
| "decode_action v k A_release_case =
     andThen (fields v case_base) (\<lambda>_. andThen (decode_case_args v) (\<lambda>(c, r, g). Inr (Release_case k c r g)))"
| "decode_action v k A_begin_external_integration =
     andThen (fields v case_base) (\<lambda>_. andThen (decode_case_args v) (\<lambda>(c, r, g). Inr (Begin_external_integration k c r g)))"
| "decode_action v k A_record_external_settlement =
     andThen (fields v case_base) (\<lambda>_. andThen (decode_case_args v) (\<lambda>(c, r, g). Inr (Record_external_settlement k c r g)))"
| "decode_action v k A_extend_observed_case = invalid"
| "decode_action v k A_observe_case_delivery = invalid"

definition decodeCommand :: "jval \<Rightarrow> command res" where
  "decodeCommand value =
     andThen (as_object value) (\<lambda>v.
     (case prop_of v ''kind'' of
        JIll _ \<Rightarrow> fail ''COORDINATION_OPERATION_UNSUPPORTED''
      | JStr kind \<Rightarrow>
          (case map_of command_actions kind of
             None \<Rightarrow> fail ''COORDINATION_OPERATION_UNSUPPORTED''
           | Some a \<Rightarrow> andThen (text_of (prop_of v ''operation_key'') 256 False) (\<lambda>k. decode_action v k a))
      | _ \<Rightarrow> invalid))"

end
