(* ===== verification/Control_Wf.thy ===== *)
theory Control_Wf
  imports Control_Decode
begin

text \<open>
  What the record decoders accept. For every record a predicate, the fact that its
  decoder returns only values satisfying it (\<open>_sound\<close>), and the fact that the decoder
  maps the JSON value of each such record back to the record (\<open>_json\<close>). The collection
  \<open>decode_json\<close> holds the second kind, \<open>decode_sound\<close> the first.
\<close>

named_theorems decode_json \<open>a decoder inverts the JSON value of an accepted record\<close>
named_theorems decode_sound \<open>a decoder returns accepted records only\<close>

section \<open>Primitive fields\<close>

lemma as_object_Inr [res_simps]: "(as_object v = Inr kvs) = (v = JObj kvs)"
  by (cases v) (auto simp: as_object_def)

lemma as_object_JObj [simp]: "as_object (JObj kvs) = Inr kvs"
  by (simp add: as_object_def)

lemma text_of_Inr [res_simps]: "(text_of v m e = Inr s) = (v = JStr s \<and> text_ok m e s)"
  by (cases v) (auto simp: text_of_def)

lemma text_of_JStr [simp]: "text_ok m e s \<Longrightarrow> text_of (JStr s) m e = Inr s"
  by (simp add: text_of_def)

lemma checked_Inr [res_simps]: "(checked v m p = Inr s) = (v = JStr s \<and> text_ok m False s \<and> p s)"
  by (auto simp: checked_def res_simps)

lemma number_of_Inr: "(number_of v lo hi = Inr n) =
    (v = JNum (int n) \<and> lo \<le> n \<and> int n \<le> hi \<and> int n \<le> MAX_SAFE_INTEGER)"
  by (cases v) (auto simp: number_of_def)

definition counter_ok :: "nat \<Rightarrow> bool" where
  "counter_ok n = (1 \<le> n \<and> int n \<le> MAX_SAFE_INTEGER)"

lemma counter_of_Inr [res_simps]: "(counter_of v = Inr n) = (v = jnat n \<and> counter_ok n)"
  by (auto simp: counter_of_def number_of_Inr counter_ok_def jnat_def)

lemma boolean_of_Inr [res_simps]: "(boolean_of v = Inr b) = (v = JBool b)"
  by (cases v) (auto simp: boolean_of_def)

lemma choice_Inr: "choice v t = Inr x \<Longrightarrow> \<exists>s. v = JStr s \<and> map_of t s = Some x"
  by (cases v) (auto simp: choice_def split: option.splits)

lemma choice_literal_table:
  assumes "distinct (map fst t)" and "x \<in> snd ` set t"
  shows "choice (literal t x) t = Inr x"
proof -
  obtain e where e: "List.find (\<lambda>e. snd e = x) t = Some e"
    using assms(2) find_not_None [of _ t "\<lambda>e. snd e = x"] by fastforce
  then have "e \<in> set t" and "snd e = x" using find_SomeD [OF e] by auto
  with assms(1) have "map_of t (fst e) = Some x" by (metis map_of_eq_Some_iff prod.collapse)
  with e show ?thesis by (simp add: choice_def literal_def)
qed

lemma choice_literal [simp]:
  "choice (literal region_kinds x0) region_kinds = Inr x0"
  "choice (literal subject_kinds x1) subject_kinds = Inr x1"
  "choice (literal areas_sources x2) areas_sources = Inr x2"
  "choice (literal grant_scopes x3) grant_scopes = Inr x3"
  "choice (literal dialects x4) dialects = Inr x4"
  "choice (literal lives x5) lives = Inr x5"
  "choice (literal object_formats x6) object_formats = Inr x6"
  "choice (literal effects x7) effects = Inr x7"
  "choice (literal origins x8) origins = Inr x8"
  "choice (literal noteKinds x9) noteKinds = Inr x9"
  "choice (literal announcement_states x10) announcement_states = Inr x10"
  "choice (literal binding_states x11) binding_states = Inr x11"
  "choice (literal outcomes x12) outcomes = Inr x12"
  "choice (literal event_kinds x13) event_kinds = Inr x13"
  "choice (literal receipt_actions x14) receipt_actions = Inr x14"
proof -
  show "choice (literal region_kinds x0) region_kinds = Inr x0"
    by (rule choice_literal_table; cases x0; simp add: table_defs)
  show "choice (literal subject_kinds x1) subject_kinds = Inr x1"
    by (rule choice_literal_table; cases x1; simp add: table_defs)
  show "choice (literal areas_sources x2) areas_sources = Inr x2"
    by (rule choice_literal_table; cases x2; simp add: table_defs)
  show "choice (literal grant_scopes x3) grant_scopes = Inr x3"
    by (rule choice_literal_table; cases x3; simp add: table_defs)
  show "choice (literal dialects x4) dialects = Inr x4"
    by (rule choice_literal_table; cases x4; simp add: table_defs)
  show "choice (literal lives x5) lives = Inr x5"
    by (rule choice_literal_table; cases x5; simp add: table_defs)
  show "choice (literal object_formats x6) object_formats = Inr x6"
    by (rule choice_literal_table; cases x6; simp add: table_defs)
  show "choice (literal effects x7) effects = Inr x7"
    by (rule choice_literal_table; cases x7; simp add: table_defs)
  show "choice (literal origins x8) origins = Inr x8"
    by (rule choice_literal_table; cases x8; simp add: table_defs)
  show "choice (literal noteKinds x9) noteKinds = Inr x9"
    by (rule choice_literal_table; cases x9; simp add: table_defs)
  show "choice (literal announcement_states x10) announcement_states = Inr x10"
    by (rule choice_literal_table; cases x10; simp add: table_defs)
  show "choice (literal binding_states x11) binding_states = Inr x11"
    by (rule choice_literal_table; cases x11; simp add: table_defs)
  show "choice (literal outcomes x12) outcomes = Inr x12"
    by (rule choice_literal_table; cases x12; simp add: table_defs)
  show "choice (literal event_kinds x13) event_kinds = Inr x13"
    by (rule choice_literal_table; cases x13; simp add: table_defs)
  show "choice (literal receipt_actions x14) receipt_actions = Inr x14"
    by (rule choice_literal_table; cases x14; simp add: table_defs)
qed

lemma choice_recorded [simp]: "choice (JStr ''recorded'') [(''recorded'', ())] = Inr ()"
  by (simp add: choice_def)

text \<open>A list field with a bound and unique keys.\<close>

definition list_ok :: "nat \<Rightarrow> ('a \<Rightarrow> bool) \<Rightarrow> ('a \<Rightarrow> 'k) \<Rightarrow> 'a list \<Rightarrow> bool" where
  "list_ok m p key xs = (length xs \<le> m \<and> (\<forall>x \<in> set xs. p x) \<and> unique_by key xs)"

lemma list_of_sound:
  assumes "list_of v m d = Inr xs" and "\<And>v x. d v = Inr x \<Longrightarrow> p x"
  shows "length xs \<le> m \<and> (\<forall>x \<in> set xs. p x)"
proof -
  from assms(1) obtain vs where v: "length vs \<le> m" "map_res d vs = Inr xs"
    by (cases v) (simp_all add: list_of_def not_less split: if_splits)
  then show ?thesis
    using map_res_Inr_length [OF v(2)] map_res_Inr_set [OF v(2)] assms(2) by fastforce
qed

lemma list_of_json:
  assumes "length xs \<le> m" and "\<And>x. x \<in> set xs \<Longrightarrow> d (f x) = Inr x"
  shows "list_of (jlist f xs) m d = Inr xs"
  using assms by (simp add: list_of_def jlist_def map_res_map_Inr)

lemma unique_list_sound:
  assumes "unique_list v m d key = Inr xs" and "\<And>v x. d v = Inr x \<Longrightarrow> p x"
  shows "list_ok m p key xs"
proof -
  from assms(1) have xs: "list_of v m d = Inr xs" "unique_by key xs"
    by (auto simp: unique_list_def unique_def andThen_Inr_iff split: if_splits)
  with list_of_sound [where p = p, OF xs(1) assms(2)] show ?thesis by (simp add: list_ok_def)
qed

lemma unique_list_json:
  assumes "list_ok m p key xs" and "\<And>x. p x \<Longrightarrow> d (f x) = Inr x"
  shows "unique_list (jlist f xs) m d key = Inr xs"
  using assms by (simp add: unique_list_def unique_def list_ok_def list_of_json)

lemma unique_list_jstrs:
  assumes "list_ok m p key xs" and "\<And>x. p x \<Longrightarrow> d (JStr x) = Inr x"
  shows "unique_list (jstrs xs) m d key = Inr xs"
  using unique_list_json [OF assms] by (simp add: jstrs_def jlist_def)

definition parent_ok :: "string \<Rightarrow> bool" where "parent_ok s = (text_ok 64 False s \<and> hex_of 64 s)"
definition entity_ok :: "string \<Rightarrow> bool" where "entity_ok s = (text_ok 36 False s \<and> is_uuid s)"
definition oid_ok :: "string \<Rightarrow> bool" where "oid_ok s = (text_ok 64 False s \<and> is_oid s)"
definition path_ok :: "string \<Rightarrow> bool" where "path_ok s = (text_ok 4096 False s \<and> rel_path s)"
definition key_ok :: "string \<Rightarrow> bool" where "key_ok s = text_ok 256 False s"
definition view_ok :: "string \<Rightarrow> bool" where "view_ok s = (text_ok 4096 False s \<and> starts_with s ''/'')"
definition target_text_ok :: "string \<Rightarrow> bool" where "target_text_ok s = (text_ok 512 False s \<and> target_ok s)"

lemma identity_Inr [res_simps]:
  "(parentId v = Inr s) = (v = JStr s \<and> parent_ok s)"
  "(entityId v = Inr s) = (v = JStr s \<and> entity_ok s)"
  "(digest_of v = Inr s) = (v = JStr s \<and> parent_ok s)"
  "(coordinationOid v = Inr s) = (v = JStr s \<and> oid_ok s)"
  "(path_of v = Inr s) = (v = JStr s \<and> path_ok s)"
  "(coordinationOperationKey v = Inr s) = (v = JStr s \<and> key_ok s)"
  "(sourceView v = Inr s) = (v = JStr s \<and> view_ok s)"
  "(coordinationTarget v = Inr s) = (v = JStr s \<and> target_text_ok s)"
  by (auto simp: parentId_def entityId_def digest_of_def coordinationOid_def path_of_def sourceView_def
      coordinationOperationKey_def coordinationTarget_def parent_ok_def entity_ok_def oid_ok_def path_ok_def
      key_ok_def view_ok_def target_text_ok_def res_simps)

lemma identity_JStr [simp]:
  "parent_ok s \<Longrightarrow> parentId (JStr s) = Inr s"
  "entity_ok s \<Longrightarrow> entityId (JStr s) = Inr s"
  "parent_ok s \<Longrightarrow> digest_of (JStr s) = Inr s"
  "oid_ok s \<Longrightarrow> coordinationOid (JStr s) = Inr s"
  "path_ok s \<Longrightarrow> path_of (JStr s) = Inr s"
  "key_ok s \<Longrightarrow> coordinationOperationKey (JStr s) = Inr s"
  "view_ok s \<Longrightarrow> sourceView (JStr s) = Inr s"
  "target_text_ok s \<Longrightarrow> coordinationTarget (JStr s) = Inr s"
  by (simp_all add: identity_Inr)

lemma counter_of_jnat [simp]: "counter_ok n \<Longrightarrow> counter_of (jnat n) = Inr n"
  by (simp add: counter_of_Inr)

lemma boolean_of_JBool [simp]: "boolean_of (JBool b) = Inr b"
  by (simp add: boolean_of_Inr)

lemma formatOid_Inr [res_simps]: "(formatOid c f = Inr u) = (length c = oid_length f)"
  by (simp add: formatOid_def res_simps)

text \<open>Reading an optional property of an object literal.\<close>

lemma has_own_opt_field [simp]: "has_own (opt_field k f x) k' = (k = k' \<and> x \<noteq> None)"
  by (cases x) auto

lemma opt_of_Inr [res_simps]: "(opt_of v k d = Inr x) =
    (if has_own v k then \<exists>y. d (prop_of v k) = Inr y \<and> x = Some y else x = None)"
  by (auto simp: opt_of_def andThen_Inr_iff)

lemma opt_of_opt_field:
  assumes "\<not> has_own xs k" and "\<And>y. x = Some y \<Longrightarrow> d (f y) = Inr y" and "x = None \<Longrightarrow> \<not> has_own ys k"
  shows "opt_of (xs @ opt_field k f x @ ys) k d = Inr x"
  using assms by (cases x) (simp_all add: opt_of_def prop_of_append)

definition opt_ok :: "('a \<Rightarrow> bool) \<Rightarrow> 'a option \<Rightarrow> bool" where
  "opt_ok p x = (case x of None \<Rightarrow> True | Some y \<Rightarrow> p y)"

lemma opt_ok_simps [simp]: "opt_ok p None" "opt_ok p (Some y) = p y"
  by (simp_all add: opt_ok_def)

lemma opt_of_sound:
  assumes "opt_of v k d = Inr x" and "\<And>v y. d v = Inr y \<Longrightarrow> p y"
  shows "opt_ok p x"
  using assms by (auto simp: opt_of_Inr split: if_splits)

section \<open>Regions, subjects, selections, limits\<close>

definition region_ok :: "region \<Rightarrow> bool" where "region_ok r = path_ok (r_path r)"

lemma region_of_sound [decode_sound]: "region_of v = Inr r \<Longrightarrow> region_ok r"
  by (auto simp: region_of_def res_simps region_ok_def)

lemma region_of_json [decode_json]: "region_ok r \<Longrightarrow> region_of (region_json r) = Inr r"
  by (simp add: region_of_def region_json_def fields_def region_ok_def)

definition regions_ok :: "region list \<Rightarrow> bool" where
  "regions_ok rs = list_ok MAX_REGIONS region_ok region_key rs"

lemma regions_sound [decode_sound]: "regions v = Inr rs \<Longrightarrow> regions_ok rs"
  unfolding regions_def regions_ok_def by (erule unique_list_sound) (rule region_of_sound)

lemma regions_json [decode_json]: "regions_ok rs \<Longrightarrow> regions (jlist region_json rs) = Inr rs"
  unfolding regions_def regions_ok_def by (erule unique_list_json) (rule region_of_json)

definition parents_ok :: "string list \<Rightarrow> bool" where
  "parents_ok ps = list_ok MAX_PARTIES parent_ok (\<lambda>x. x) ps"

lemma parents_sound [decode_sound]: "parents v = Inr ps \<Longrightarrow> parents_ok ps"
  unfolding parents_def parents_ok_def by (erule unique_list_sound) (simp add: identity_Inr)

lemma parents_json [decode_json]: "parents_ok ps \<Longrightarrow> parents (jstrs ps) = Inr ps"
  unfolding parents_def parents_ok_def by (erule unique_list_jstrs) simp

definition subject_ok :: "subject \<Rightarrow> bool" where "subject_ok s = entity_ok (s_id s)"

lemma subject_of_sound [decode_sound]: "subject_of v = Inr x \<Longrightarrow> subject_ok x"
  by (auto simp: subject_of_def res_simps subject_ok_def)

lemma subject_of_json [decode_json]: "subject_ok x \<Longrightarrow> subject_of (subject_json x) = Inr x"
  by (simp add: subject_of_def subject_json_def fields_def subject_ok_def)

definition selection_ok :: "selection \<Rightarrow> bool" where
  "selection_ok s = (entity_ok (sel_work_id s) \<and> oid_ok (sel_commit_oid s))"

lemma selection_of_sound: "selection_of v = Inr x \<Longrightarrow> selection_ok x"
  by (auto simp: selection_of_def res_simps selection_ok_def)

lemma selection_of_json: "selection_ok x \<Longrightarrow> selection_of (selection_json x) = Inr x"
  by (simp add: selection_of_def selection_json_def fields_def selection_ok_def)

definition selections_ok :: "selection list \<Rightarrow> bool" where
  "selections_ok ss = list_ok MAX_REGIONS selection_ok sel_work_id ss"

lemma selections_sound [decode_sound]: "selections v = Inr ss \<Longrightarrow> selections_ok ss"
  unfolding selections_def selections_ok_def by (erule unique_list_sound) (rule selection_of_sound)

lemma selections_json [decode_json]: "selections_ok ss \<Longrightarrow> selections (jlist selection_json ss) = Inr ss"
  unfolding selections_def selections_ok_def by (erule unique_list_json) (rule selection_of_json)

definition limits_ok :: "limits \<Rightarrow> bool" where
  "limits_ok l = (1 \<le> lim_works l \<and> lim_works l \<le> MAX_ENTITIES \<and> 1 \<le> lim_cases l \<and> lim_cases l \<le> MAX_ENTITIES
     \<and> 1 \<le> lim_notes l \<and> lim_notes l \<le> MAX_ENTITIES \<and> 1 \<le> lim_receipts l \<and> lim_receipts l \<le> MAX_ENTITIES
     \<and> 1 \<le> lim_note_bytes l \<and> lim_note_bytes l \<le> MAX_NOTE_BYTES)"

lemma decodeLimits_sound [decode_sound]: "decodeLimits v = Inr l \<Longrightarrow> limits_ok l"
  by (auto simp: decodeLimits_def res_simps number_of_Inr limits_ok_def)

lemma decodeLimits_json [decode_json]: "limits_ok l \<Longrightarrow> decodeLimits (limits_json l) = Inr l"
  by (simp add: decodeLimits_def limits_json_def fields_def number_of_def limits_ok_def jnat_def
      MAX_SAFE_INTEGER_def MAX_ENTITIES_def MAX_NOTE_BYTES_def)

section \<open>Works\<close>

definition managed_ok :: "managed_work \<Rightarrow> bool" where
  "managed_ok m = (entity_ok (m_task_id m) \<and> counter_ok (m_control_generation m))"

lemma managedWork_sound [decode_sound]: "managedWork v = Inr m \<Longrightarrow> managed_ok m"
  by (auto simp: managedWork_def res_simps managed_ok_def)

lemma managedWork_json [decode_json]: "managed_ok m \<Longrightarrow> managedWork (managed_json m) = Inr m"
  by (simp add: managedWork_def managed_json_def fields_def managed_ok_def)

definition grant_ok :: "source_grant \<Rightarrow> bool" where
  "grant_ok g = (parent_ok (g_recipient g) \<and> counter_ok (g_work_revision g))"

lemma grant_of_sound: "grant_of v = Inr g \<Longrightarrow> grant_ok g"
  by (auto simp: grant_of_def res_simps grant_ok_def)

lemma grant_of_json: "grant_ok g \<Longrightarrow> grant_of (grant_json g) = Inr g"
  by (simp add: grant_of_def grant_json_def fields_def grant_ok_def)

definition grants_ok :: "source_grant list \<Rightarrow> bool" where
  "grants_ok gs = list_ok MAX_PARTIES grant_ok g_recipient gs"

lemma grants_sound: "unique_list v MAX_PARTIES grant_of g_recipient = Inr gs \<Longrightarrow> grants_ok gs"
  unfolding grants_ok_def by (erule unique_list_sound) (rule grant_of_sound)

lemma grants_json: "grants_ok gs \<Longrightarrow> unique_list (jlist grant_json gs) MAX_PARTIES grant_of g_recipient = Inr gs"
  unfolding grants_ok_def by (erule unique_list_json) (rule grant_of_json)

definition overrides_ok :: "region list \<Rightarrow> dialect_override list \<Rightarrow> bool" where
  "overrides_ok rs ds = list_ok MAX_REGIONS (\<lambda>d. path_ok (do_path d) \<and> override_ok rs d) do_path ds"

lemma override_of_sound: "override_of rs v = Inr d \<Longrightarrow> path_ok (do_path d) \<and> override_ok rs d"
  by (auto simp: override_of_def res_simps Let_def split: if_splits)

lemma override_of_json: "path_ok (do_path d) \<and> override_ok rs d \<Longrightarrow> override_of rs (override_json d) = Inr d"
  by (cases d) (simp add: override_of_def override_json_def fields_def Let_def)

lemma overrides_sound: "decodeDialectOverrides v rs = Inr ds \<Longrightarrow> overrides_ok rs ds"
  unfolding decodeDialectOverrides_def overrides_ok_def by (erule unique_list_sound) (rule override_of_sound)

lemma overrides_json: "overrides_ok rs ds \<Longrightarrow> decodeDialectOverrides (jlist override_json ds) rs = Inr ds"
  unfolding decodeDialectOverrides_def overrides_ok_def by (erule unique_list_json) (rule override_of_json)

definition watcher_ok :: "'a watcher_scheme \<Rightarrow> bool" where
  "watcher_ok w = (parent_ok (wa_recipient w) \<and> regions_ok (wa_regions w) \<and> wa_regions w \<noteq> []
     \<and> opt_ok (overrides_ok (wa_regions w)) (wa_overrides w))"

lemma watched_regions_Inr: "(watched_regions v = Inr rs) = (regions v = Inr rs \<and> rs \<noteq> [])"
  by (auto simp: watched_regions_def res_simps split: if_splits)

lemma watcher_of_sound [decode_sound]: "watcher_of v = Inr w \<Longrightarrow> watcher_ok w"
  unfolding watcher_of_def andThen_Inr_iff watcher_ok_def
  by (elim exE conjE)
     (clarsimp simp: identity_Inr watched_regions_Inr regions_sound opt_of_sound [OF _ overrides_sound]
      simp del: opt_of_Inr)

definition source_watch_ok :: "source_watch \<Rightarrow> bool" where
  "source_watch_ok w = (watcher_ok w \<and> counter_ok (sw_work_revision w))"

lemma source_watch_of_sound: "source_watch_of v = Inr w \<Longrightarrow> source_watch_ok w"
  unfolding source_watch_of_def andThen_Inr_iff watcher_ok_def source_watch_ok_def
  by (elim exE conjE)
     (clarsimp simp: identity_Inr counter_of_Inr watched_regions_Inr regions_sound opt_of_sound [OF _ overrides_sound]
      simp del: opt_of_Inr)

lemma source_watch_of_json: "source_watch_ok w \<Longrightarrow> source_watch_of (source_watch_json w) = Inr w"
  by (cases "wa_overrides w")
     (simp_all add: source_watch_of_def source_watch_json_def watcher_fields_def fields_def opt_name_def opt_of_def
      source_watch_ok_def watcher_ok_def watched_regions_Inr watched_regions_def regions_json overrides_json)

definition watches_ok :: "source_watch list \<Rightarrow> bool" where
  "watches_ok ws = list_ok MAX_PARTIES source_watch_ok wa_recipient ws"

lemma watches_sound: "unique_list v MAX_PARTIES source_watch_of wa_recipient = Inr ws \<Longrightarrow> watches_ok ws"
  unfolding watches_ok_def by (erule unique_list_sound) (rule source_watch_of_sound)

lemma watches_json: "watches_ok ws \<Longrightarrow>
    unique_list (jlist source_watch_json ws) MAX_PARTIES source_watch_of wa_recipient = Inr ws"
  unfolding watches_ok_def by (erule unique_list_json) (rule source_watch_of_json)

definition work_watches :: "work \<Rightarrow> source_watch list" where
  "work_watches w = (case w_source_watches w of None \<Rightarrow> [] | Some l \<Rightarrow> l)"

definition work_grants :: "work \<Rightarrow> source_grant list" where
  "work_grants w = (case w_source_grants w of None \<Rightarrow> [] | Some l \<Rightarrow> l)"

definition work_ok :: "work \<Rightarrow> bool" where
  "work_ok w = (oid_ok (w_input_oid w) \<and> length (w_input_oid w) = oid_length (w_object_format w)
     \<and> entity_ok (w_id w) \<and> parent_ok (w_owner w) \<and> text_ok 4096 False (w_workspace_id w)
     \<and> counter_ok (w_revision w) \<and> text_ok 4096 True (w_intent w) \<and> regions_ok (w_areas w)
     \<and> parents_ok (w_readers w) \<and> opt_ok managed_ok (w_managed w) \<and> opt_ok grants_ok (w_source_grants w)
     \<and> opt_ok watches_ok (w_source_watches w) \<and> assertWatchInventory (work_watches w) = Inr ())"

lemma work_of_sound [decode_sound]: "work_of v = Inr w \<Longrightarrow> work_ok w"
  unfolding work_of_def andThen_Inr_iff work_ok_def work_watches_def
  by (elim exE conjE)
     (clarsimp simp: identity_Inr counter_of_Inr formatOid_Inr text_of_Inr regions_sound parents_sound
      opt_of_sound [OF _ managedWork_sound] opt_of_sound [OF _ grants_sound] opt_of_sound [OF _ watches_sound]
      simp del: opt_of_Inr)

lemma work_of_json [decode_json]:
  assumes "work_ok w"
  shows "work_of (work_json w) = Inr w"
proof -
  obtain kvs where kvs: "work_json w = JObj kvs" by (simp add: work_json_def)
  note unfold_kvs = kvs [symmetric, unfolded work_json_def jval.inject]
  have own: "has_own kvs ''managed'' = (w_managed w \<noteq> None)"
    "has_own kvs ''source_grants'' = (w_source_grants w \<noteq> None)"
    "has_own kvs ''source_watches'' = (w_source_watches w \<noteq> None)"
    unfolding unfold_kvs by simp_all
  have names: "has_own kvs ''id''" "has_own kvs ''owner''" "has_own kvs ''workspace_id''" "has_own kvs ''revision''"
    "has_own kvs ''state''" "has_own kvs ''input_oid''" "has_own kvs ''object_format''" "has_own kvs ''intent''"
    "has_own kvs ''areas''" "has_own kvs ''readers''"
    unfolding unfold_kvs by simp_all
  have len: "length kvs = 10 + length (opt_name kvs ''managed'') + length (opt_name kvs ''source_grants'')
     + length (opt_name kvs ''source_watches'')"
    unfolding opt_name_def own unfolding unfold_kvs by (simp add: opt_field_def split: option.split)
  have vals: "prop_of kvs ''id'' = JStr (w_id w)" "prop_of kvs ''owner'' = JStr (w_owner w)"
    "prop_of kvs ''workspace_id'' = JStr (w_workspace_id w)" "prop_of kvs ''revision'' = jnat (w_revision w)"
    "prop_of kvs ''state'' = literal lives (w_state w)" "prop_of kvs ''input_oid'' = JStr (w_input_oid w)"
    "prop_of kvs ''object_format'' = literal object_formats (w_object_format w)" "prop_of kvs ''intent'' = JStr (w_intent w)"
    "prop_of kvs ''areas'' = jlist region_json (w_areas w)" "prop_of kvs ''readers'' = jstrs (w_readers w)"
    unfolding unfold_kvs by simp_all
  have opts: "w_managed w = Some a \<Longrightarrow> prop_of kvs ''managed'' = managed_json a"
    "w_source_grants w = Some b \<Longrightarrow> prop_of kvs ''source_grants'' = jlist grant_json b"
    "w_source_watches w = Some e \<Longrightarrow> prop_of kvs ''source_watches'' = jlist source_watch_json e" for a b e
    unfolding unfold_kvs by (simp_all add: prop_of_append)
  have get: "opt_of kvs ''managed'' managedWork = Inr (w_managed w)"
    "opt_of kvs ''source_grants'' (\<lambda>x. unique_list x MAX_PARTIES grant_of g_recipient) = Inr (w_source_grants w)"
    "opt_of kvs ''source_watches'' (\<lambda>x. unique_list x MAX_PARTIES source_watch_of wa_recipient) = Inr (w_source_watches w)"
    using assms by (auto simp: opt_of_def own opts work_ok_def managedWork_json grants_json watches_json)
  have "fields kvs ([''id'', ''owner'', ''workspace_id'', ''revision'', ''state'', ''input_oid'', ''object_format'',
       ''intent'', ''areas'', ''readers''] @ opt_name kvs ''managed'' @ opt_name kvs ''source_grants''
       @ opt_name kvs ''source_watches'') = Inr ()"
    unfolding fields_def using names by (auto simp: guard_fail_def len opt_name_def)
  then show ?thesis
    using assms unfolding kvs work_of_def
    by (simp add: vals get work_ok_def work_watches_def formatOid_def regions_json parents_json)
qed

end
