(* ===== verification/Control_Wf_Cases.thy ===== *)
theory Control_Wf_Cases
  imports Control_Wf
begin

text \<open>
  Continuation of \<open>Control_Wf\<close>: what the decoders of cases, notes, receipts, submission
  records and recovery receipts accept.
\<close>

section \<open>Cases\<close>

definition observed_ok :: "observed_delivery \<Rightarrow> bool" where
  "observed_ok d = (entity_ok (od_work_id d) \<and> parent_ok (od_digest d))"

lemma observed_of_sound: "observed_of v = Inr d \<Longrightarrow> observed_ok d"
  by (auto simp: observed_of_def res_simps observed_ok_def)

lemma observed_of_json: "observed_ok d \<Longrightarrow> observed_of (observed_json d) = Inr d"
  by (simp add: observed_of_def observed_json_def fields_def observed_ok_def)

definition delta_ok :: "visibility_delta \<Rightarrow> bool" where
  "delta_ok d = (entity_ok (vd_work_id d) \<and> counter_ok (vd_work_revision d) \<and> counter_ok (vd_control_generation d)
     \<and> regions_ok (vd_areas d) \<and> parents_ok (vd_added_readers d))"

lemma delta_of_sound: "delta_of v = Inr d \<Longrightarrow> delta_ok d"
  by (auto simp: delta_of_def res_simps delta_ok_def dest: regions_sound parents_sound)

lemma delta_of_json: "delta_ok d \<Longrightarrow> delta_of (delta_json d) = Inr d"
  by (simp add: delta_of_def delta_json_def fields_def delta_ok_def regions_json parents_json)

definition entities_ok :: "nat \<Rightarrow> string list \<Rightarrow> bool" where
  "entities_ok m xs = list_ok m entity_ok (\<lambda>x. x) xs"

lemma entities_sound: "unique_list v m entityId (\<lambda>x. x) = Inr xs \<Longrightarrow> entities_ok m xs"
  unfolding entities_ok_def by (erule unique_list_sound) (simp add: identity_Inr)

lemma entities_json: "entities_ok m xs \<Longrightarrow> unique_list (jstrs xs) m entityId (\<lambda>x. x) = Inr xs"
  unfolding entities_ok_def by (erule unique_list_jstrs) simp

definition observeds_ok :: "observed_delivery list \<Rightarrow> bool" where
  "observeds_ok xs = list_ok MAX_PARTIES observed_ok od_work_id xs"

lemma observeds_sound: "unique_list v MAX_PARTIES observed_of od_work_id = Inr xs \<Longrightarrow> observeds_ok xs"
  unfolding observeds_ok_def by (erule unique_list_sound) (rule observed_of_sound)

lemma observeds_json: "observeds_ok xs \<Longrightarrow> unique_list (jlist observed_json xs) MAX_PARTIES observed_of od_work_id = Inr xs"
  unfolding observeds_ok_def by (erule unique_list_json) (rule observed_of_json)

definition deltas_ok :: "visibility_delta list \<Rightarrow> bool" where
  "deltas_ok xs = list_ok MAX_PARTIES delta_ok vd_work_id xs"

lemma deltas_sound: "unique_list v MAX_PARTIES delta_of vd_work_id = Inr xs \<Longrightarrow> deltas_ok xs"
  unfolding deltas_ok_def by (erule unique_list_sound) (rule delta_of_sound)

lemma deltas_json: "deltas_ok xs \<Longrightarrow> unique_list (jlist delta_json xs) MAX_PARTIES delta_of vd_work_id = Inr xs"
  unfolding deltas_ok_def by (erule unique_list_json) (rule delta_of_json)

lemma target_oid_of_sound: "target_oid_of v = Inr x \<Longrightarrow> opt_ok oid_ok x"
  by (auto simp: target_oid_of_def res_simps split: if_splits)

lemma target_oid_of_json: "opt_ok oid_ok x \<Longrightarrow> target_oid_of (oid_json x) = Inr x"
  by (cases x) (simp_all add: target_oid_of_def oid_json_def)

definition case_ok :: "case_rec \<Rightarrow> bool" where
  "case_ok c = (entity_ok (c_id c) \<and> target_text_ok (c_target c) \<and> parent_ok (c_lead c) \<and> parents_ok (c_members c)
     \<and> counter_ok (c_revision c) \<and> counter_ok (c_generation c) \<and> opt_ok oid_ok (c_target_oid c)
     \<and> selections_ok (c_inputs c) \<and> opt_ok (entities_ok MAX_PARTIES) (c_delivery_pending c)
     \<and> opt_ok observeds_ok (c_delivery_observed c) \<and> opt_ok deltas_ok (c_visibility_delta c))"

lemma caseRecord_sound [decode_sound]: "caseRecord v = Inr c \<Longrightarrow> case_ok c"
  unfolding caseRecord_def andThen_Inr_iff case_ok_def
  by (elim exE conjE)
     (clarsimp simp: identity_Inr counter_of_Inr parents_sound selections_sound target_oid_of_sound
      opt_of_sound [OF _ entities_sound] opt_of_sound [OF _ observeds_sound] opt_of_sound [OF _ deltas_sound] simp del: opt_of_Inr)

lemma caseRecord_json [decode_json]:
  assumes "case_ok c" shows "caseRecord (case_json c) = Inr c"
proof -
  obtain kvs where kvs: "case_json c = JObj kvs" by (simp add: case_json_def)
  note unfold_kvs = kvs [symmetric, unfolded case_json_def jval.inject]
  have own: "has_own kvs ''observed_origin'' = (c_observed_origin c \<noteq> None)"
    "has_own kvs ''delivery_pending'' = (c_delivery_pending c \<noteq> None)"
    "has_own kvs ''visibility_delta'' = (c_visibility_delta c \<noteq> None)"
    "has_own kvs ''delivery_observed'' = (c_delivery_observed c \<noteq> None)"
    unfolding unfold_kvs by simp_all
  have names: "has_own kvs ''id''" "has_own kvs ''target''" "has_own kvs ''lead''" "has_own kvs ''members''"
    "has_own kvs ''revision''" "has_own kvs ''generation''" "has_own kvs ''state''" "has_own kvs ''external_effect''"
    "has_own kvs ''target_oid''" "has_own kvs ''inputs''"
    unfolding unfold_kvs by simp_all
  have len: "length kvs = 10 + length (opt_name kvs ''observed_origin'') + length (opt_name kvs ''delivery_pending'')
     + length (opt_name kvs ''visibility_delta'') + length (opt_name kvs ''delivery_observed'')"
    unfolding opt_name_def own unfolding unfold_kvs by (simp add: opt_field_def split: option.split)
  have vals: "prop_of kvs ''id'' = JStr (c_id c)" "prop_of kvs ''target'' = JStr (c_target c)"
    "prop_of kvs ''lead'' = JStr (c_lead c)" "prop_of kvs ''members'' = jstrs (c_members c)"
    "prop_of kvs ''revision'' = jnat (c_revision c)" "prop_of kvs ''generation'' = jnat (c_generation c)"
    "prop_of kvs ''state'' = literal lives (c_state c)" "prop_of kvs ''external_effect'' = literal effects (c_external_effect c)"
    "prop_of kvs ''target_oid'' = oid_json (c_target_oid c)" "prop_of kvs ''inputs'' = jlist selection_json (c_inputs c)"
    unfolding unfold_kvs by simp_all
  have opts: "c_observed_origin c = Some a \<Longrightarrow> prop_of kvs ''observed_origin'' = literal origins a"
    "c_delivery_pending c = Some b \<Longrightarrow> prop_of kvs ''delivery_pending'' = jstrs b"
    "c_visibility_delta c = Some e \<Longrightarrow> prop_of kvs ''visibility_delta'' = jlist delta_json e"
    "c_delivery_observed c = Some f \<Longrightarrow> prop_of kvs ''delivery_observed'' = jlist observed_json f" for a b e f
    unfolding unfold_kvs by (simp_all add: prop_of_append)
  have get: "opt_of kvs ''observed_origin'' (\<lambda>x. choice x origins) = Inr (c_observed_origin c)"
    "opt_of kvs ''delivery_pending'' (\<lambda>x. unique_list x MAX_PARTIES entityId (\<lambda>y. y)) = Inr (c_delivery_pending c)"
    "opt_of kvs ''delivery_observed'' (\<lambda>x. unique_list x MAX_PARTIES observed_of od_work_id) = Inr (c_delivery_observed c)"
    "opt_of kvs ''visibility_delta'' (\<lambda>x. unique_list x MAX_PARTIES delta_of vd_work_id) = Inr (c_visibility_delta c)"
    using assms by (auto simp: opt_of_def own opts case_ok_def entities_json observeds_json deltas_json)
  have "fields kvs ([''id'', ''target'', ''lead'', ''members'', ''revision'', ''generation'', ''state'',
       ''external_effect'', ''target_oid'', ''inputs''] @ opt_name kvs ''observed_origin'' @ opt_name kvs ''delivery_pending''
       @ opt_name kvs ''visibility_delta'' @ opt_name kvs ''delivery_observed'') = Inr ()"
    unfolding fields_def using names by (auto simp: guard_fail_def len opt_name_def)
  then show ?thesis
    using assms unfolding kvs caseRecord_def
    by (simp add: vals get case_ok_def parents_json selections_json target_oid_of_json)
qed

section \<open>Notes and receipts\<close>

definition note_ok :: "note_rec \<Rightarrow> bool" where
  "note_ok n = (parents_ok (n_parties n) \<and> parents_ok (n_acknowledged n)
     \<and> (n_kind n = Agreement_proposal) = (n_parties n \<noteq> []) \<and> set (n_acknowledged n) \<subseteq> set (n_parties n)
     \<and> entity_ok (n_id n) \<and> subject_ok (n_subject n) \<and> parent_ok (n_author n)
     \<and> text_ok MAX_NOTE_BYTES False (n_text n) \<and> entities_ok MAX_REGIONS (n_work_refs n)
     \<and> opt_ok parents_ok (n_readers n))"

lemma note_of_sound [decode_sound]: "note_of v = Inr n \<Longrightarrow> note_ok n"
  by (auto simp: note_of_def res_simps note_ok_def
      dest!: parents_sound subject_of_sound entities_sound split: if_splits)

lemma note_of_json [decode_json]: "note_ok n \<Longrightarrow> note_of (note_json n) = Inr n"
  by (cases "n_readers n")
     (simp_all add: note_of_def note_json_def fields_def opt_name_def opt_of_def note_ok_def subset_iff
      guard_fail_def parents_json subject_of_json entities_json)

definition receipt_ok :: "receipt \<Rightarrow> bool" where
  "receipt_ok r = (parent_ok (rc_owner r) \<and> key_ok (rc_key r) \<and> parent_ok (rc_request_hash r)
     \<and> counter_ok (rc_revision r) \<and> subject_ok (rc_entity r) \<and> entity_ok (rc_item_id r))"

lemma receipt_of_sound [decode_sound]: "receipt_of v = Inr r \<Longrightarrow> receipt_ok r"
  by (auto simp: receipt_of_def res_simps receipt_ok_def key_ok_def dest!: subject_of_sound)

lemma receipt_of_json [decode_json]: "receipt_ok r \<Longrightarrow> receipt_of (receipt_json r) = Inr r"
  by (simp add: receipt_of_def receipt_json_def fields_def receipt_ok_def key_ok_def subject_of_json)

section \<open>Submission records\<close>

definition announcement_ok :: "announcement \<Rightarrow> bool" where
  "announcement_ok a = ((an_state a = Bound_ann \<or> an_state a = Linked) = (an_task_id a \<noteq> None)
     \<and> opt_ok entity_ok (an_task_id a) \<and> parent_ok (an_owner a) \<and> parents_ok (an_readers a)
     \<and> an_owner a \<notin> set (an_readers a) \<and> entity_ok (an_id a) \<and> counter_ok (an_revision a)
     \<and> entity_ok (an_payload_ref a) \<and> parent_ok (an_payload_digest a) \<and> view_ok (an_source_view a)
     \<and> parent_ok (an_assignment_hash a) \<and> regions_ok (an_areas a))"

lemma announcementRecord_sound [decode_sound]: "announcementRecord v = Inr a \<Longrightarrow> announcement_ok a"
  by (auto simp: announcementRecord_def res_simps announcement_ok_def
      dest!: parents_sound regions_sound split: if_splits)

lemma announcementRecord_json [decode_json]: "announcement_ok a \<Longrightarrow> announcementRecord (announcement_json a) = Inr a"
  by (cases "an_task_id a")
     (simp_all add: announcementRecord_def announcement_json_def fields_def opt_name_def opt_of_def
      announcement_ok_def guard_fail_def parents_json regions_json)

definition ann_ref_ok :: "ann_ref \<Rightarrow> bool" where
  "ann_ref_ok r = (entity_ok (ar_id r) \<and> counter_ok (ar_revision r))"

lemma announcementReference_sound: "announcementReference v = Inr r \<Longrightarrow> ann_ref_ok r"
  by (auto simp: announcementReference_def res_simps ann_ref_ok_def)

lemma announcementReference_json: "ann_ref_ok r \<Longrightarrow> announcementReference (ann_ref_json r) = Inr r"
  by (simp add: announcementReference_def ann_ref_json_def fields_def ann_ref_ok_def)

definition terminal_ok :: "terminal_evidence \<Rightarrow> bool" where
  "terminal_ok t = (counter_ok (te_revision t) \<and> counter_ok (te_control_generation t))"

lemma terminalEvidence_sound: "terminalEvidence v = Inr t \<Longrightarrow> terminal_ok t"
  by (auto simp: terminalEvidence_def res_simps terminal_ok_def)

lemma terminalEvidence_json: "terminal_ok t \<Longrightarrow> terminalEvidence (terminal_json t) = Inr t"
  by (simp add: terminalEvidence_def terminal_json_def fields_def terminal_ok_def)

definition binding_link :: "binding \<Rightarrow> jval" where
  "binding_link b = link_json (b_task_id b) (b_request_key b) (b_owner b) (b_intent_hash b)
     (b_decision_identity b) (b_announcement b)"

definition binding_ok :: "(string \<Rightarrow> string) \<Rightarrow> binding \<Rightarrow> bool" where
  "binding_ok sha b = (entity_ok (b_task_id b) \<and> key_ok (b_request_key b) \<and> parent_ok (b_owner b)
     \<and> parent_ok (b_intent_hash b) \<and> parent_ok (b_decision_identity b) \<and> opt_ok ann_ref_ok (b_announcement b)
     \<and> parent_ok (b_link_hash b) \<and> canonical_hash sha (binding_link b) = b_link_hash b
     \<and> (b_state b = Terminal) = (b_terminal b \<noteq> None) \<and> opt_ok terminal_ok (b_terminal b)
     \<and> view_ok (b_source_view b) \<and> oid_ok (b_input_oid b) \<and> regions_ok (b_areas b))"

lemma submissionBinding_sound [decode_sound]: "submissionBinding sha v = Inr b \<Longrightarrow> binding_ok sha b"
  by (auto simp: submissionBinding_def res_simps binding_ok_def binding_link_def
      dest!: announcementReference_sound terminalEvidence_sound regions_sound split: if_splits)

lemma submissionBinding_json [decode_json]:
  "binding_ok sha b \<Longrightarrow> submissionBinding sha (binding_json b) = Inr b"
  by (cases "b_announcement b"; cases "b_terminal b")
     (simp_all add: submissionBinding_def binding_json_def fields_def opt_name_def opt_of_def binding_ok_def
      binding_link_def guard_fail_def announcementReference_json terminalEvidence_json regions_json)

definition event_ok :: "event \<Rightarrow> bool" where
  "event_ok e = (parent_ok (ev_owner e) \<and> key_ok (ev_key e) \<and> entity_ok (ev_item_id e)
     \<and> parent_ok (ev_request_hash e) \<and> counter_ok (ev_revision e))"

lemma submissionEvent_sound [decode_sound]: "submissionEvent v = Inr e \<Longrightarrow> event_ok e"
  by (auto simp: submissionEvent_def res_simps event_ok_def)

lemma submissionEvent_json [decode_json]: "event_ok e \<Longrightarrow> submissionEvent (event_json e) = Inr e"
  by (simp add: submissionEvent_def event_json_def fields_def event_ok_def)

section \<open>Recovery receipts\<close>

definition recovery_action_ok :: "recovery_action \<Rightarrow> bool" where
  "recovery_action_ok a = (case a of
       Adopt_work w p \<Rightarrow> entity_ok w \<and> parent_ok p
     | Close_work_rec w \<Rightarrow> entity_ok w
     | Adopt_case c g p \<Rightarrow> entity_ok c \<and> counter_ok g \<and> parent_ok p
     | Release_case_rec c g \<Rightarrow> entity_ok c \<and> counter_ok g
     | Settle_case c g \<Rightarrow> entity_ok c \<and> counter_ok g)"

definition recovery_ok :: "recovery_command \<Rightarrow> bool" where
  "recovery_ok r = (key_ok (rv_operation_key r) \<and> entity_ok (rv_epoch r) \<and> parent_ok (rv_expected_owner r)
     \<and> counter_ok (rv_expected_revision r) \<and> text_ok RECOVERY_STATEMENT_BYTES False (rv_statement r)
     \<and> \<not> blank_text (rv_statement r) \<and> recovery_action_ok (rv_action r))"

lemma recovery_action_of_sound: "recovery_action_of v k = Inr a \<Longrightarrow> recovery_action_ok a"
  unfolding recovery_action_of_def
  by (cases "k = ''adopt_work''"; cases "k = ''close_work''"; cases "k = ''adopt_case''"; cases "k = ''release_case''")
     (auto simp: andThen_Inr_iff identity_Inr counter_of_Inr recovery_action_ok_def)

lemma decodeRecoveryCommand_sound [decode_sound]:
  assumes "decodeRecoveryCommand v = Inr r"
  shows "recovery_ok r"
proof -
  from assms obtain x where v: "v = JObj x" by (auto simp: decodeRecoveryCommand_def res_simps)
  show ?thesis
  proof (cases "prop_of x ''kind''")
    case (JStr k)
    with assms v show ?thesis
      by (auto simp: decodeRecoveryCommand_def res_simps recovery_ok_def dest!: recovery_action_of_sound split: if_splits)
  qed (use assms v in \<open>simp_all add: decodeRecoveryCommand_def\<close>)
qed

lemma decodeRecoveryCommand_json [decode_json]:
  assumes "recovery_ok r"
  shows "decodeRecoveryCommand (recovery_json r) = Inr r"
proof -
  obtain k e p rv st a where r: "r = \<lparr>rv_operation_key = k, rv_epoch = e, rv_expected_owner = p,
      rv_expected_revision = rv, rv_statement = st, rv_action = a\<rparr>"
    by (cases r) auto
  show ?thesis
    using assms unfolding r
    by (cases a)
       (simp_all add: decodeRecoveryCommand_def recovery_json_def recovery_base_fields_def recovery_kinds_def
        recovery_action_of_def recovery_common_def fields_def recovery_ok_def recovery_action_ok_def)
qed

definition recovery_receipt_ok :: "(string \<Rightarrow> string) \<Rightarrow> recovery_receipt \<Rightarrow> bool" where
  "recovery_receipt_ok sha r = (parent_ok (rr_operator r) \<and> recovery_ok (rr_command r) \<and> parent_ok (rr_request_hash r)
     \<and> recovery_hash sha (rr_operator r) (rr_command r) = rr_request_hash r \<and> counter_ok (rr_revision r)
     \<and> rv_expected_revision (rr_command r) < rr_revision r
     \<and> opt_ok (\<lambda>g. g < rr_revision r) (recovery_generation (rv_action (rr_command r))))"

lemma decodeRecoveryReceipt_sound [decode_sound]: "decodeRecoveryReceipt sha v = Inr r \<Longrightarrow> recovery_receipt_ok sha r"
  by (auto simp: decodeRecoveryReceipt_def res_simps recovery_receipt_ok_def opt_ok_def
      dest!: decodeRecoveryCommand_sound split: option.splits)

lemma decodeRecoveryReceipt_json [decode_json]:
  "recovery_receipt_ok sha r \<Longrightarrow> decodeRecoveryReceipt sha (recovery_receipt_json r) = Inr r"
  by (cases "recovery_generation (rv_action (rr_command r))")
     (simp_all add: decodeRecoveryReceipt_def recovery_receipt_json_def fields_def recovery_receipt_ok_def
      decodeRecoveryCommand_json guard_fail_def)

end
