(* ===== verification/Control_Check.thy ===== *)
theory Control_Check
  imports Control_Wf_Cases
begin

text \<open>
  \<open>decodeControl\<close> (src/src/contracts/coordination-control.ts, lines 398 to 515): the reader
  of a persisted coordination record and the relations between its collections that it
  insists on. Each group of checks of the code is one predicate; \<open>control_ok\<close> is their
  conjunction with the validity of every record, and is exactly what the reader accepts.
  Every check of the groups fails with the same error, so their conjunction is the order
  of the code.
\<close>

section \<open>Lookups\<close>

definition find_work :: "control_state \<Rightarrow> string \<Rightarrow> work option" where
  "find_work s i = List.find (\<lambda>w. w_id w = i) (cs_works s)"

definition find_case :: "control_state \<Rightarrow> string \<Rightarrow> case_rec option" where
  "find_case s i = List.find (\<lambda>c. c_id c = i) (cs_cases s)"

definition all_ids :: "control_state \<Rightarrow> string list" where
  "all_ids s = map w_id (cs_works s) @ map c_id (cs_cases s) @ map n_id (cs_notes s)"

definition subject_exists :: "control_state \<Rightarrow> subject \<Rightarrow> bool" where
  "subject_exists s x = (case s_kind x of SWork \<Rightarrow> s_id x \<in> w_id ` set (cs_works s)
     | SCase \<Rightarrow> s_id x \<in> c_id ` set (cs_cases s))"

text \<open>\<open>`${owner}:${key}`\<close>, the name of a retained operation.\<close>

definition owner_key :: "string \<Rightarrow> string \<Rightarrow> string" where
  "owner_key p k = p @ '':'' @ k"

definition operation_names :: "control_state \<Rightarrow> string list" where
  "operation_names s = map (\<lambda>r. owner_key (rc_owner r) (rc_key r)) (cs_receipts s)
     @ map (\<lambda>r. owner_key (rr_operator r) (rv_operation_key (rr_command r))) (cs_recoveries s)
     @ map (\<lambda>e. owner_key (ev_owner e) (ev_key e)) (cs_events s)"

definition operation_revisions :: "control_state \<Rightarrow> nat list" where
  "operation_revisions s = map rc_revision (cs_receipts s) @ map rr_revision (cs_recoveries s) @ map ev_revision (cs_events s)"

section \<open>Storage versions\<close>

definition case_observed :: "case_rec \<Rightarrow> bool" where
  "case_observed c = (c_observed_origin c \<noteq> None \<or> c_delivery_pending c \<noteq> None \<or> c_delivery_observed c \<noteq> None
     \<or> c_visibility_delta c \<noteq> None)"

definition version_features_ok :: "control_state \<Rightarrow> bool" where
  "version_features_ok s =
     ((cs_schema s < SOURCE_GRANT_CONTROL_SCHEMA \<longrightarrow> (\<forall>w \<in> set (cs_works s). w_source_grants w = None))
    \<and> (cs_schema s < SOURCE_WATCH_CONTROL_SCHEMA \<longrightarrow> (\<forall>w \<in> set (cs_works s). w_source_watches w = None))
    \<and> (cs_schema s < OBSERVED_CASE_CONTROL_SCHEMA \<longrightarrow>
         (\<forall>c \<in> set (cs_cases s). \<not> case_observed c) \<and> (\<forall>n \<in> set (cs_notes s). n_readers n = None)
       \<and> (\<forall>r \<in> set (cs_receipts s). rc_action r \<noteq> A_extend_observed_case \<and> rc_action r \<noteq> A_observe_case_delivery))
    \<and> (cs_schema s = 2 \<longrightarrow> cs_recoveries s \<noteq> [])
    \<and> controlReceiptCount s \<le> lim_receipts (cs_limits s)
    \<and> unique_by (\<lambda>x. x) (operation_names s)
    \<and> (cs_schema s = MANAGED_CONTROL_SCHEMA \<longrightarrow> (\<exists>w \<in> set (cs_works s). w_managed w \<noteq> None))
    \<and> (cs_schema s < MANAGED_CONTROL_SCHEMA \<longrightarrow> (\<forall>w \<in> set (cs_works s). w_managed w = None)
       \<and> (\<forall>r \<in> set (cs_receipts s). rc_action r \<noteq> A_register_task_work)))"

section \<open>Managed enrollment\<close>

definition enrollments :: "control_state \<Rightarrow> receipt list" where
  "enrollments s = filter (\<lambda>r. rc_action r = A_register_task_work) (cs_receipts s)"

definition enrolled_ok :: "(string \<Rightarrow> string) \<Rightarrow> control_state \<Rightarrow> work \<Rightarrow> managed_work \<Rightarrow> bool" where
  "enrolled_ok sha s w m =
     (w_id w = m_task_id m \<and> \<not> (m_areas_source m = Not_declared \<and> w_areas w \<noteq> [])
    \<and> (case List.find (\<lambda>r. rc_item_id r = w_id w) (enrollments s) of
         None \<Rightarrow> False
       | Some r \<Rightarrow> s_kind (rc_entity r) = SWork \<and> s_id (rc_entity r) = w_id w
           \<and> rc_request_hash r = request_hash sha (rc_owner r) (Register_task_work (rc_key r) (w_workspace_id w)
               (w_input_oid w) (w_object_format w) (w_intent w) (w_areas w) m)))"

definition enrollment_ok :: "(string \<Rightarrow> string) \<Rightarrow> control_state \<Rightarrow> bool" where
  "enrollment_ok sha s =
     ((\<forall>r \<in> set (enrollments s). case find_work s (rc_item_id r) of None \<Rightarrow> False | Some w \<Rightarrow> w_managed w \<noteq> None)
    \<and> unique_by rc_item_id (enrollments s)
    \<and> (\<forall>w \<in> set (cs_works s). case w_managed w of None \<Rightarrow> True | Some m \<Rightarrow> enrolled_ok sha s w m))"

section \<open>Works, cases and notes\<close>

definition live_unique :: "control_state \<Rightarrow> bool" where
  "live_unique s =
     (unique_by w_workspace_id (filter (\<lambda>w. w_state w = Active) (cs_works s))
    \<and> unique_by c_target (filter (\<lambda>c. c_state c = Active) (cs_cases s))
    \<and> unique_by (\<lambda>x. x) (all_ids s))"

definition work_authority_ok :: "nat \<Rightarrow> work \<Rightarrow> bool" where
  "work_authority_ok revn w =
     (w_revision w \<le> revn \<and> w_owner w \<notin> set (w_readers w)
    \<and> (\<forall>g \<in> set (work_grants w). g_recipient g \<noteq> w_owner w \<and> g_work_revision g = w_revision w \<and> w_state w = Active)
    \<and> (\<forall>x \<in> set (work_watches w). sw_work_revision x = w_revision w \<and> w_state w = Active
         \<and> (wa_recipient x = w_owner w
            \<or> (\<exists>g \<in> set (work_grants w). g_recipient g = wa_recipient x \<and> g_work_revision g = w_revision w)))
    \<and> sum_list (map (\<lambda>x. length (wa_regions x)) (work_watches w)) \<le> MAX_REGIONS)"

definition input_ids :: "case_rec \<Rightarrow> string set" where
  "input_ids c = sel_work_id ` set (c_inputs c)"

definition pending_ids :: "case_rec \<Rightarrow> string list" where
  "pending_ids c = (case c_delivery_pending c of None \<Rightarrow> [] | Some l \<Rightarrow> l)"

definition delta_authority_ok :: "control_state \<Rightarrow> case_rec \<Rightarrow> visibility_delta \<Rightarrow> bool" where
  "delta_authority_ok s c d =
     (vd_work_id d \<in> input_ids c
    \<and> (case find_work s (vd_work_id d) of
         None \<Rightarrow> False
       | Some w \<Rightarrow> (case w_managed w of
           None \<Rightarrow> False
         | Some m \<Rightarrow> vd_work_revision d \<le> w_revision w \<and> vd_control_generation d \<le> m_control_generation m
             \<and> (\<forall>p \<in> set (vd_added_readers d). p \<noteq> w_owner w \<and> p \<in> set (c_members c)))))"

definition input_format_ok :: "control_state \<Rightarrow> case_rec \<Rightarrow> selection \<Rightarrow> bool" where
  "input_format_ok s c i =
     (case find_work s (sel_work_id i) of
        None \<Rightarrow> False
      | Some w \<Rightarrow> length (sel_commit_oid i) = oid_length (w_object_format w)
          \<and> (case c_target_oid c of None \<Rightarrow> True | Some oid \<Rightarrow> length oid = oid_length (w_object_format w)))"

definition case_authority_ok :: "control_state \<Rightarrow> case_rec \<Rightarrow> bool" where
  "case_authority_ok s c =
     (c_revision c \<le> cs_revision s \<and> c_generation c \<le> cs_revision s \<and> c_lead c \<in> set (c_members c)
    \<and> \<not> (c_state c = Closed \<and> c_external_effect c \<noteq> Not_started)
    \<and> \<not> (c_inputs c \<noteq> [] \<and> c_target_oid c = None)
    \<and> \<not> (c_observed_origin c = Some Pending_origin \<and> (c_inputs c \<noteq> [] \<or> c_target_oid c \<noteq> None))
    \<and> \<not> (c_observed_origin c = Some Selected_origin \<and> c_inputs c = [])
    \<and> (case c_delivery_pending c of None \<Rightarrow> True | Some ids \<Rightarrow>
         c_observed_origin c = Some Selected_origin \<and> set ids \<subseteq> input_ids c)
    \<and> (case c_delivery_observed c of None \<Rightarrow> True | Some obs \<Rightarrow>
         c_observed_origin c = Some Selected_origin
       \<and> (\<forall>d \<in> set obs. od_work_id d \<in> input_ids c \<and> od_work_id d \<notin> set (pending_ids c)))
    \<and> (case c_visibility_delta c of None \<Rightarrow> True | Some ds \<Rightarrow> \<forall>d \<in> set ds. delta_authority_ok s c d)
    \<and> (\<forall>i \<in> set (c_inputs c). input_format_ok s c i))"

definition note_authority_ok :: "control_state \<Rightarrow> note_rec \<Rightarrow> bool" where
  "note_authority_ok s n =
     (set (n_work_refs n) \<subseteq> w_id ` set (cs_works s)
    \<and> (s_kind (n_subject n) = SWork \<longrightarrow> n_work_refs n = [s_id (n_subject n)])
    \<and> length (n_text n) \<le> lim_note_bytes (cs_limits s) \<and> subject_exists s (n_subject n))"

section \<open>Retained history\<close>

definition receipt_history_ok :: "control_state \<Rightarrow> receipt \<Rightarrow> bool" where
  "receipt_history_ok s r = (rc_item_id r \<in> set (all_ids s) \<and> rc_revision r \<le> cs_revision s \<and> subject_exists s (rc_entity r))"

definition recovery_subject :: "recovery_action \<Rightarrow> subject" where
  "recovery_subject a = (case a of
     Adopt_work w _ \<Rightarrow> \<lparr>s_kind = SWork, s_id = w\<rparr> | Close_work_rec w \<Rightarrow> \<lparr>s_kind = SWork, s_id = w\<rparr>
   | Adopt_case c _ _ \<Rightarrow> \<lparr>s_kind = SCase, s_id = c\<rparr> | Release_case_rec c _ \<Rightarrow> \<lparr>s_kind = SCase, s_id = c\<rparr>
   | Settle_case c _ \<Rightarrow> \<lparr>s_kind = SCase, s_id = c\<rparr>)"

definition recovery_history_ok :: "control_state \<Rightarrow> recovery_receipt \<Rightarrow> bool" where
  "recovery_history_ok s r =
     (rr_revision r \<le> cs_revision s \<and> rv_epoch (rr_command r) = cs_epoch s
    \<and> rv_expected_revision (rr_command r) < rr_revision r
    \<and> subject_exists s (recovery_subject (rv_action (rr_command r))))"

section \<open>Submissions\<close>

definition announcement_changes :: "control_state \<Rightarrow> string \<Rightarrow> event list" where
  "announcement_changes s i =
     filter (\<lambda>e. ev_item_id e = i \<and> (ev_kind e = Ev_announce \<or> ev_kind e = Ev_withdraw)
       \<or> (ev_kind e = Ev_bind \<or> ev_kind e = Ev_settle \<or> ev_kind e = Ev_release)
         \<and> (\<exists>b \<in> set (cs_bindings s). b_task_id b = ev_item_id e \<and> map_option ar_id (b_announcement b) = Some i))
       (cs_events s)"

definition announcement_link_ok :: "control_state \<Rightarrow> announcement \<Rightarrow> bool" where
  "announcement_link_ok s a =
     (an_state a = Bound_ann \<or> an_state a = Linked \<longrightarrow>
       (case List.find (\<lambda>b. an_task_id a = Some (b_task_id b)) (cs_bindings s) of
          None \<Rightarrow> False
        | Some b \<Rightarrow> b_owner b = an_owner a
            \<and> (case b_announcement b of None \<Rightarrow> False
               | Some r \<Rightarrow> ar_id r = an_id a \<and> ar_revision r \<le> an_revision a)
            \<and> (an_state a = Bound_ann \<longrightarrow> b_state b = Bound)
            \<and> (an_state a = Linked \<longrightarrow> b_state b = Settled \<or> b_state b = Terminal)))"

definition announcement_history_ok :: "control_state \<Rightarrow> announcement \<Rightarrow> bool" where
  "announcement_history_ok s a =
     (an_payload_ref a = an_id a \<and> an_revision a \<le> cs_revision s \<and> announcement_link_ok s a
    \<and> (\<exists>e \<in> set (announcement_changes s (an_id a)). ev_kind e = Ev_announce)
    \<and> an_revision a = length (announcement_changes s (an_id a)))"

definition binding_history :: "control_state \<Rightarrow> string \<Rightarrow> event list" where
  "binding_history s t =
     filter (\<lambda>e. ev_item_id e = t \<and> (ev_kind e = Ev_bind \<or> ev_kind e = Ev_settle \<or> ev_kind e = Ev_release \<or> ev_kind e = Ev_terminal))
       (cs_events s)"

definition binding_kinds :: "binding_state \<Rightarrow> event_kind list" where
  "binding_kinds st = (case st of Bound \<Rightarrow> [Ev_bind] | Settled \<Rightarrow> [Ev_bind, Ev_settle]
     | Released \<Rightarrow> [Ev_bind, Ev_release] | Terminal \<Rightarrow> [Ev_bind, Ev_settle, Ev_terminal])"

definition binding_history_ok :: "control_state \<Rightarrow> binding \<Rightarrow> bool" where
  "binding_history_ok s b =
     ((case b_announcement b of None \<Rightarrow> True
       | Some r \<Rightarrow> \<exists>a \<in> set (cs_announcements s). an_id a = ar_id r \<and> an_owner a = b_owner b \<and> an_payload_ref a = ar_id r)
    \<and> map ev_kind (binding_history s (b_task_id b)) = binding_kinds (b_state b)
    \<and> (\<forall>e \<in> set (binding_history s (b_task_id b)). ev_owner e = b_owner b))"

definition event_history_ok :: "control_state \<Rightarrow> event \<Rightarrow> bool" where
  "event_history_ok s e =
     (ev_revision e \<le> cs_revision s
    \<and> (ev_item_id e \<in> an_id ` set (cs_announcements s) \<or> ev_item_id e \<in> b_task_id ` set (cs_bindings s)))"

definition submissions_ok :: "control_state \<Rightarrow> bool" where
  "submissions_ok s =
     (unique_by (\<lambda>b. owner_key (b_owner b) (b_request_key b)) (filter (\<lambda>b. b_state b \<noteq> Released) (cs_bindings s))
    \<and> (\<forall>a \<in> set (cs_announcements s). announcement_history_ok s a)
    \<and> (\<forall>b \<in> set (cs_bindings s). binding_history_ok s b)
    \<and> (\<forall>e \<in> set (cs_events s). event_history_ok s e))"

definition history_ok :: "control_state \<Rightarrow> bool" where
  "history_ok s =
     (unique_by (\<lambda>x. x) (operation_revisions s) \<and> controlReceiptCount s = cs_revision s
    \<and> (\<forall>r \<in> set (cs_receipts s). receipt_history_ok s r)
    \<and> (\<forall>r \<in> set (cs_recoveries s). recovery_history_ok s r))"

section \<open>The reader\<close>

definition control_relations_ok :: "(string \<Rightarrow> string) \<Rightarrow> control_state \<Rightarrow> bool" where
  "control_relations_ok sha s =
     (version_features_ok s \<and> enrollment_ok sha s \<and> live_unique s
    \<and> (\<forall>w \<in> set (cs_works s). work_authority_ok (cs_revision s) w)
    \<and> (\<forall>c \<in> set (cs_cases s). case_authority_ok s c)
    \<and> (\<forall>n \<in> set (cs_notes s). note_authority_ok s n)
    \<and> history_ok s
    \<and> (has_submissions s \<longrightarrow> submissions_ok s))"

definition schema_of :: "jval \<Rightarrow> nat res" where
  "schema_of v = (case v of
     JNum i \<Rightarrow> if 1 \<le> i \<and> i \<le> int OBSERVED_CASE_CONTROL_SCHEMA then Inr (nat i) else invalid
   | _ \<Rightarrow> invalid)"

definition future_schema :: "jval \<Rightarrow> bool" where
  "future_schema v = (case v of
     JNum i \<Rightarrow> abs i \<le> MAX_SAFE_INTEGER \<and> int OBSERVED_CASE_CONTROL_SCHEMA < i | _ \<Rightarrow> False)"

definition control_fields :: "jval \<Rightarrow> string list" where
  "control_fields version =
     [''schema_version'', ''repository_id'', ''epoch'', ''revision'', ''limits'', ''works'', ''cases'', ''notes'', ''receipts'']
     @ (if version = JNum 1 then [] else [''recoveries''])
     @ (case version of JNum i \<Rightarrow> if int SUBMISSION_CONTROL_SCHEMA \<le> i then [''announcements'', ''bindings'', ''submission_events''] else []
        | _ \<Rightarrow> [])"

text \<open>A collection the storage version has, or the empty one.\<close>

definition versioned :: "bool \<Rightarrow> 'a list res \<Rightarrow> 'a list res" where
  "versioned present r = (if present then r else Inr [])"

definition decodeControl :: "(string \<Rightarrow> string) \<Rightarrow> jval \<Rightarrow> string \<Rightarrow> control_state res" where
  "decodeControl sha value expectedRepository =
     andThen (as_object value) (\<lambda>v.
     andThen (guard_fail (future_schema (prop_of v ''schema_version'')) ''COORDINATION_VERSION_UNSUPPORTED'') (\<lambda>_.
     andThen (fields v (control_fields (prop_of v ''schema_version''))) (\<lambda>_.
     andThen (schema_of (prop_of v ''schema_version'')) (\<lambda>sv.
     andThen (text_of (prop_of v ''repository_id'') 256 False) (\<lambda>repo.
     andThen (guard_fail (repo \<noteq> expectedRepository) ''COORDINATION_BINDING_CONFLICT'') (\<lambda>_.
     andThen (decodeLimits (prop_of v ''limits'')) (\<lambda>lims.
     andThen (number_of (prop_of v ''revision'') 0 MAX_SAFE_INTEGER) (\<lambda>revn.
     andThen (unique_list (prop_of v ''works'') (lim_works lims) work_of w_id) (\<lambda>works.
     andThen (unique_list (prop_of v ''cases'') (lim_cases lims) caseRecord c_id) (\<lambda>cases.
     andThen (unique_list (prop_of v ''notes'') (lim_notes lims) note_of n_id) (\<lambda>notes.
     andThen (unique_list (prop_of v ''receipts'') (lim_receipts lims) receipt_of (\<lambda>r. owner_key (rc_owner r) (rc_key r))) (\<lambda>receipts.
     andThen (versioned (sv \<noteq> 1) (list_of (prop_of v ''recoveries'') (lim_receipts lims) (decodeRecoveryReceipt sha))) (\<lambda>recoveries.
     andThen (versioned (4 \<le> sv) (unique_list (prop_of v ''announcements'') (lim_works lims) announcementRecord an_id)) (\<lambda>anns.
     andThen (versioned (4 \<le> sv) (unique_list (prop_of v ''bindings'') (lim_receipts lims) (submissionBinding sha) b_task_id)) (\<lambda>bindings.
     andThen (versioned (4 \<le> sv) (list_of (prop_of v ''submission_events'') (lim_receipts lims) submissionEvent)) (\<lambda>events.
     andThen (entityId (prop_of v ''epoch'')) (\<lambda>epoch.
     (let s = \<lparr>cs_schema = sv, cs_repository_id = repo, cs_epoch = epoch, cs_revision = revn, cs_limits = lims,
        cs_works = works, cs_cases = cases, cs_notes = notes, cs_receipts = receipts, cs_recoveries = recoveries,
        cs_announcements = anns, cs_bindings = bindings, cs_events = events\<rparr>
      in andThen (guard_fail (\<not> control_relations_ok sha s) INVALID) (\<lambda>_. Inr s)))))))))))))))))))"

definition emptyControl :: "(string \<Rightarrow> string) \<Rightarrow> string \<Rightarrow> string \<Rightarrow> jval \<Rightarrow> control_state res" where
  "emptyControl sha repository epoch lims =
     decodeControl sha (JObj [(''schema_version'', jnat CONTROL_SCHEMA), (''repository_id'', JStr repository),
       (''epoch'', JStr epoch), (''revision'', JNum 0), (''limits'', lims), (''works'', JArr []), (''cases'', JArr []),
       (''notes'', JArr []), (''receipts'', JArr [])]) repository"

section \<open>What the reader accepts\<close>

definition control_records_ok :: "(string \<Rightarrow> string) \<Rightarrow> control_state \<Rightarrow> bool" where
  "control_records_ok sha s =
     (1 \<le> cs_schema s \<and> cs_schema s \<le> OBSERVED_CASE_CONTROL_SCHEMA
    \<and> text_ok 256 False (cs_repository_id s) \<and> entity_ok (cs_epoch s) \<and> limits_ok (cs_limits s)
    \<and> int (cs_revision s) \<le> MAX_SAFE_INTEGER
    \<and> list_ok (lim_works (cs_limits s)) work_ok w_id (cs_works s)
    \<and> list_ok (lim_cases (cs_limits s)) case_ok c_id (cs_cases s)
    \<and> list_ok (lim_notes (cs_limits s)) note_ok n_id (cs_notes s)
    \<and> list_ok (lim_receipts (cs_limits s)) receipt_ok (\<lambda>r. owner_key (rc_owner r) (rc_key r)) (cs_receipts s)
    \<and> length (cs_recoveries s) \<le> lim_receipts (cs_limits s) \<and> (\<forall>r \<in> set (cs_recoveries s). recovery_receipt_ok sha r)
    \<and> list_ok (lim_works (cs_limits s)) announcement_ok an_id (cs_announcements s)
    \<and> list_ok (lim_receipts (cs_limits s)) (binding_ok sha) b_task_id (cs_bindings s)
    \<and> length (cs_events s) \<le> lim_receipts (cs_limits s) \<and> (\<forall>e \<in> set (cs_events s). event_ok e)
    \<and> (cs_schema s = 1 \<longrightarrow> cs_recoveries s = [])
    \<and> (\<not> has_submissions s \<longrightarrow> cs_announcements s = [] \<and> cs_bindings s = [] \<and> cs_events s = []))"

definition control_ok :: "(string \<Rightarrow> string) \<Rightarrow> control_state \<Rightarrow> bool" where
  "control_ok sha s = (control_records_ok sha s \<and> control_relations_ok sha s)"

lemma number_of_sound: "number_of v lo hi = Inr n \<Longrightarrow> int n \<le> MAX_SAFE_INTEGER"
  by (simp add: number_of_Inr)

lemma schema_of_Inr: "schema_of v = Inr n \<Longrightarrow> 1 \<le> n \<and> n \<le> OBSERVED_CASE_CONTROL_SCHEMA"
  by (cases v) (auto simp: schema_of_def split: if_splits)

lemma schema_of_jnat: "1 \<le> n \<Longrightarrow> n \<le> OBSERVED_CASE_CONTROL_SCHEMA \<Longrightarrow> schema_of (jnat n) = Inr n"
  by (simp add: schema_of_def jnat_def)

lemma versioned_sound: "versioned b r = Inr xs \<Longrightarrow> (b \<and> r = Inr xs) \<or> (\<not> b \<and> xs = [])"
  by (auto simp: versioned_def split: if_splits)

lemma versioned_list_of_sound:
  assumes "versioned b (list_of v m d) = Inr xs" and "\<And>v x. d v = Inr x \<Longrightarrow> p x"
  shows "length xs \<le> m \<and> (\<forall>x \<in> set xs. p x) \<and> (\<not> b \<longrightarrow> xs = [])"
  using versioned_sound [OF assms(1)] list_of_sound [of v m d xs p] assms(2) by auto

lemma versioned_unique_sound:
  assumes "versioned b (unique_list v m d key) = Inr xs" and "\<And>v x. d v = Inr x \<Longrightarrow> p x"
  shows "list_ok m p key xs \<and> (\<not> b \<longrightarrow> xs = [])"
  using versioned_sound [OF assms(1)] unique_list_sound [of v m d key xs p] assms(2)
  by (auto simp: list_ok_def)

lemma control_list_sound:
  "unique_list v m work_of w_id = Inr ws \<Longrightarrow> list_ok m work_ok w_id ws"
  "unique_list v m caseRecord c_id = Inr cs \<Longrightarrow> list_ok m case_ok c_id cs"
  "unique_list v m note_of n_id = Inr ns \<Longrightarrow> list_ok m note_ok n_id ns"
  "unique_list v m receipt_of rkey = Inr rs \<Longrightarrow> list_ok m receipt_ok rkey rs"
  "versioned b (list_of v m (decodeRecoveryReceipt sha)) = Inr rcs
     \<Longrightarrow> length rcs \<le> m \<and> (\<forall>r \<in> set rcs. recovery_receipt_ok sha r) \<and> (\<not> b \<longrightarrow> rcs = [])"
  "versioned b (unique_list v m announcementRecord an_id) = Inr anns
     \<Longrightarrow> list_ok m announcement_ok an_id anns \<and> (\<not> b \<longrightarrow> anns = [])"
  "versioned b (unique_list v m (submissionBinding sha) b_task_id) = Inr bs
     \<Longrightarrow> list_ok m (binding_ok sha) b_task_id bs \<and> (\<not> b \<longrightarrow> bs = [])"
  "versioned b (list_of v m submissionEvent) = Inr es
     \<Longrightarrow> length es \<le> m \<and> (\<forall>e \<in> set es. event_ok e) \<and> (\<not> b \<longrightarrow> es = [])"
  by (erule unique_list_sound, erule work_of_sound, erule unique_list_sound, erule caseRecord_sound,
      erule unique_list_sound, erule note_of_sound, erule unique_list_sound, erule receipt_of_sound,
      erule versioned_list_of_sound, erule decodeRecoveryReceipt_sound,
      erule versioned_unique_sound, erule announcementRecord_sound,
      erule versioned_unique_sound, erule submissionBinding_sound,
      erule versioned_list_of_sound, erule submissionEvent_sound)

lemma decodeControl_sound:
  "decodeControl sha v repo = Inr s \<Longrightarrow> control_ok sha s \<and> cs_repository_id s = repo"
  unfolding decodeControl_def andThen_Inr_iff Let_def guard_fail_Inr control_ok_def control_records_ok_def
    has_submissions_def SUBMISSION_CONTROL_SCHEMA_def
  by (elim exE conjE, drule control_list_sound(1), drule control_list_sound(2), drule control_list_sound(3),
      drule control_list_sound(4), drule control_list_sound(5), drule control_list_sound(6),
      drule control_list_sound(7), drule control_list_sound(8), drule schema_of_Inr, drule decodeLimits_sound,
      drule number_of_sound)
     (clarsimp simp: text_of_Inr identity_Inr)

text \<open>The reader accepts the value of every record it could have returned.\<close>

lemma decodeControl_json:
  assumes "control_ok sha s"
  shows "decodeControl sha (control_json s) (cs_repository_id s) = Inr s"
proof -
  obtain kvs where kvs: "control_json s = JObj kvs" by (simp add: control_json_def)
  note unfold_kvs = kvs [symmetric, unfolded control_json_def jval.inject]
  from assms have sv: "1 \<le> cs_schema s" "cs_schema s \<le> OBSERVED_CASE_CONTROL_SCHEMA"
    by (simp_all add: control_ok_def control_records_ok_def)
  have ver: "prop_of kvs ''schema_version'' = jnat (cs_schema s)"
    unfolding unfold_kvs by simp
  have eta: "\<lparr>cs_schema = cs_schema s, cs_repository_id = cs_repository_id s, cs_epoch = cs_epoch s,
      cs_revision = cs_revision s, cs_limits = cs_limits s, cs_works = cs_works s, cs_cases = cs_cases s,
      cs_notes = cs_notes s, cs_receipts = cs_receipts s, cs_recoveries = cs_recoveries s,
      cs_announcements = cs_announcements s, cs_bindings = cs_bindings s, cs_events = cs_events s\<rparr> = s"
    by simp
  have fut: "\<not> future_schema (jnat (cs_schema s))"
    using sv by (simp add: future_schema_def jnat_def)
  have vals: "prop_of kvs ''repository_id'' = JStr (cs_repository_id s)" "prop_of kvs ''epoch'' = JStr (cs_epoch s)"
    "prop_of kvs ''revision'' = jnat (cs_revision s)" "prop_of kvs ''limits'' = limits_json (cs_limits s)"
    "prop_of kvs ''works'' = jlist work_json (cs_works s)" "prop_of kvs ''cases'' = jlist case_json (cs_cases s)"
    "prop_of kvs ''notes'' = jlist note_json (cs_notes s)" "prop_of kvs ''receipts'' = jlist receipt_json (cs_receipts s)"
    unfolding unfold_kvs by simp_all
  have later: "cs_schema s \<noteq> 1 \<Longrightarrow> prop_of kvs ''recoveries'' = jlist recovery_receipt_json (cs_recoveries s)"
    "has_submissions s \<Longrightarrow> prop_of kvs ''announcements'' = jlist announcement_json (cs_announcements s)"
    "has_submissions s \<Longrightarrow> prop_of kvs ''bindings'' = jlist binding_json (cs_bindings s)"
    "has_submissions s \<Longrightarrow> prop_of kvs ''submission_events'' = jlist event_json (cs_events s)"
    unfolding unfold_kvs by (simp_all add: prop_of_append)
  have "fields kvs (control_fields (jnat (cs_schema s))) = Inr ()"
    unfolding fields_def control_fields_def unfold_kvs
    using sv by (auto simp: guard_fail_def has_submissions_def jnat_def SUBMISSION_CONTROL_SCHEMA_def)
  moreover have "number_of (jnat (cs_revision s)) 0 MAX_SAFE_INTEGER = Inr (cs_revision s)"
    using assms by (simp add: control_ok_def control_records_ok_def number_of_Inr jnat_def)
  moreover have lists: "unique_list (jlist work_json (cs_works s)) (lim_works (cs_limits s)) work_of w_id = Inr (cs_works s)"
    "unique_list (jlist case_json (cs_cases s)) (lim_cases (cs_limits s)) caseRecord c_id = Inr (cs_cases s)"
    "unique_list (jlist note_json (cs_notes s)) (lim_notes (cs_limits s)) note_of n_id = Inr (cs_notes s)"
    "unique_list (jlist receipt_json (cs_receipts s)) (lim_receipts (cs_limits s)) receipt_of
       (\<lambda>r. owner_key (rc_owner r) (rc_key r)) = Inr (cs_receipts s)"
    using assms
    by (auto simp: control_ok_def control_records_ok_def
        intro: unique_list_json [OF _ work_of_json] unique_list_json [OF _ caseRecord_json]
          unique_list_json [OF _ note_of_json] unique_list_json [OF _ receipt_of_json])
  moreover have "versioned (cs_schema s \<noteq> 1) (list_of (prop_of kvs ''recoveries'') (lim_receipts (cs_limits s))
      (decodeRecoveryReceipt sha)) = Inr (cs_recoveries s)"
    "versioned (4 \<le> cs_schema s) (unique_list (prop_of kvs ''announcements'') (lim_works (cs_limits s))
      announcementRecord an_id) = Inr (cs_announcements s)"
    "versioned (4 \<le> cs_schema s) (unique_list (prop_of kvs ''bindings'') (lim_receipts (cs_limits s))
      (submissionBinding sha) b_task_id) = Inr (cs_bindings s)"
    "versioned (4 \<le> cs_schema s) (list_of (prop_of kvs ''submission_events'') (lim_receipts (cs_limits s))
      submissionEvent) = Inr (cs_events s)"
    using assms later
    by (auto simp: versioned_def control_ok_def control_records_ok_def has_submissions_def SUBMISSION_CONTROL_SCHEMA_def
        intro!: list_of_json unique_list_json [OF _ announcementRecord_json]
          unique_list_json [OF _ submissionBinding_json]
          intro: decodeRecoveryReceipt_json submissionEvent_json)
  ultimately show ?thesis
    using assms unfolding kvs decodeControl_def
    by (simp add: eta ver fut vals schema_of_jnat sv control_ok_def control_records_ok_def decodeLimits_json Let_def)
qed

end
