(* ===== verification/Control_Transition.thy ===== *)
theory Control_Transition
  imports Control_Check
begin

text \<open>
  Which record may follow which (src/src/contracts/coordination-control.ts, lines 538
  to 743): \<open>assertControlTransition\<close> with its submission and recovery parts, and the
  release slots a record owes. Equality of JSON texts of two decoded records is equality
  of the records; where the code compares a record with one it built by spreading, the
  property order of the built one is a condition of its own.
\<close>

section \<open>Reserved capacity\<close>

definition work_slots :: "work \<Rightarrow> nat" where
  "work_slots w = of_bool (w_state w = Active) + of_bool (w_readers w \<noteq> [])"

definition case_slots :: "case_rec \<Rightarrow> nat" where
  "case_slots c = (if c_state c = Active then if c_external_effect c = Possible then 2 else 1 else 0)"

definition note_slots :: "note_rec \<Rightarrow> nat" where
  "note_slots n = of_bool (\<not> n_withdrawn n \<and> n_kind n = Agreement_proposal)"

definition announcement_slots :: "announcement \<Rightarrow> nat" where
  "announcement_slots a = of_bool (an_state a = Unresolved \<or> an_state a = Bound_ann)"

definition binding_slots :: "binding \<Rightarrow> nat" where
  "binding_slots b = of_bool (b_state b = Settled \<or> b_state b = Bound \<and> b_announcement b = None)"

definition releaseSlotsRequired :: "control_state \<Rightarrow> nat" where
  "releaseSlotsRequired s =
     sum_list (map work_slots (cs_works s)) + sum_list (map case_slots (cs_cases s))
     + sum_list (map note_slots (cs_notes s)) + sum_list (map announcement_slots (cs_announcements s))
     + sum_list (map binding_slots (cs_bindings s))"

section \<open>Histories that only grow\<close>

definition last_opt :: "'a list \<Rightarrow> 'a option" where
  "last_opt xs = (if xs = [] then None else Some (last xs))"

text \<open>The element a list gained, when it is the other one with one element appended.\<close>

definition appended :: "'a list \<Rightarrow> 'a list \<Rightarrow> 'a option" where
  "appended old new = (if length new = length old + 1 then last_opt new else None)"

lemma last_opt_snoc [simp]: "last_opt (xs @ [x]) = Some x"
  by (simp add: last_opt_def)

lemma appended_snoc [simp]: "appended xs (xs @ [x]) = Some x"
  by (simp add: appended_def)

lemma appended_self [simp]: "appended xs xs = None"
  by (simp add: appended_def)

section \<open>Submission publications\<close>

definition assertSubmissionTransition :: "(string \<Rightarrow> string) \<Rightarrow> control_state \<Rightarrow> control_state \<Rightarrow> event \<Rightarrow> bool" where
  "assertSubmissionTransition sha before nxt e =
     (let sameA = (\<lambda>xs ys. canonical_hash sha (jlist announcement_json xs) = canonical_hash sha (jlist announcement_json ys));
          sameB = (\<lambda>xs ys. canonical_hash sha (jlist binding_json xs) = canonical_hash sha (jlist binding_json ys));
          oldA = cs_announcements before; newA = cs_announcements nxt;
          oldB = cs_bindings before; newB = cs_bindings nxt
      in has_submissions nxt \<and>
        (case ev_kind e of
           Ev_announce \<Rightarrow>
             (case last_opt newA of None \<Rightarrow> False | Some a \<Rightarrow>
                an_id a = ev_item_id e \<and> an_owner a = ev_owner e \<and> an_state a = Unresolved \<and> an_revision a = 1
              \<and> length newA = length oldA + 1 \<and> sameA (butlast newA) oldA \<and> sameB newB oldB)
         | Ev_withdraw \<Rightarrow>
             (case List.find (\<lambda>a. an_id a = ev_item_id e) oldA of None \<Rightarrow> False | Some old \<Rightarrow>
                an_owner old = ev_owner e \<and> an_state old = Unresolved \<and> sameB newB oldB
              \<and> sameA newA (map (\<lambda>a. if an_id a = an_id old
                    then a\<lparr>an_revision := an_revision a + 1, an_state := Withdrawn_ann\<rparr> else a) oldA))
         | Ev_bind \<Rightarrow>
             (case last_opt newB of None \<Rightarrow> False | Some b \<Rightarrow>
                b_task_id b = ev_item_id e \<and> b_owner b = ev_owner e \<and> b_state b = Bound
              \<and> length newB = length oldB + 1 \<and> sameB (butlast newB) oldB
              \<and> (case b_announcement b of None \<Rightarrow> True | Some r \<Rightarrow>
                   \<exists>a \<in> set oldA. an_id a = ar_id r \<and> an_owner a = ev_owner e \<and> an_state a = Unresolved \<and> an_revision a = ar_revision r)
              \<and> sameA newA (map (\<lambda>a. if Some (an_id a) = map_option ar_id (b_announcement b)
                    then a\<lparr>an_revision := an_revision a + 1, an_state := Bound_ann, an_task_id := Some (b_task_id b)\<rparr> else a) oldA))
         | Ev_terminal \<Rightarrow>
             (case List.find (\<lambda>b. b_task_id b = ev_item_id e) oldB of None \<Rightarrow> False | Some old \<Rightarrow>
                b_owner old = ev_owner e \<and> b_state old = Settled
              \<and> (case List.find (\<lambda>b. b_task_id b = ev_item_id e) newB of None \<Rightarrow> False | Some new \<Rightarrow>
                   b_terminal new \<noteq> None
                 \<and> sameB newB (map (\<lambda>b. if b_task_id b = b_task_id old
                       then b\<lparr>b_state := Terminal, b_terminal := b_terminal new\<rparr> else b) oldB))
              \<and> sameA newA oldA)
         | _ \<Rightarrow>
             (case List.find (\<lambda>b. b_task_id b = ev_item_id e) oldB of None \<Rightarrow> False | Some old \<Rightarrow>
                b_owner old = ev_owner e \<and> b_state old = Bound
              \<and> sameB newB (map (\<lambda>b. if b_task_id b = b_task_id old
                    then b\<lparr>b_state := (if ev_kind e = Ev_settle then Settled else Released)\<rparr> else b) oldB)
              \<and> sameA newA (map (\<lambda>a. if Some (an_id a) = map_option ar_id (b_announcement old)
                    then (if ev_kind e = Ev_settle
                          then a\<lparr>an_revision := an_revision a + 1, an_state := Linked\<rparr>
                          else a\<lparr>an_revision := an_revision a + 1, an_state := Unresolved, an_task_id := None\<rparr>)
                    else a) oldA))))"

section \<open>Recovery publications\<close>

text \<open>What the command makes of the work or case it names; \<open>None\<close> where it does not apply.\<close>

definition revoked :: "work \<Rightarrow> work" where
  "revoked w = w\<lparr>w_source_grants := map_option (\<lambda>_. []) (w_source_grants w),
                 w_source_watches := map_option (\<lambda>_. []) (w_source_watches w)\<rparr>"

definition recovered_work :: "recovery_command \<Rightarrow> work \<Rightarrow> work option" where
  "recovered_work cmd w =
     (if w_state w \<noteq> Active \<or> w_owner w \<noteq> rv_expected_owner cmd \<or> w_revision w \<noteq> rv_expected_revision cmd then None
      else let x = (revoked w)\<lparr>w_revision := w_revision w + 1\<rparr>
           in case rv_action cmd of
                Adopt_work _ p \<Rightarrow> if p = w_owner w then None
                  else Some (x\<lparr>w_owner := p, w_readers := filter (\<lambda>q. q \<noteq> p) (w_readers w)\<rparr>)
              | _ \<Rightarrow> Some (x\<lparr>w_state := Closed\<rparr>))"

definition recovered_case :: "recovery_command \<Rightarrow> nat \<Rightarrow> case_rec \<Rightarrow> case_rec option" where
  "recovered_case cmd g c =
     (if c_state c \<noteq> Active \<or> c_lead c \<noteq> rv_expected_owner cmd \<or> c_revision c \<noteq> rv_expected_revision cmd
         \<or> c_generation c \<noteq> g then None
      else let x = c\<lparr>c_revision := c_revision c + 1\<rparr>
           in case rv_action cmd of
                Settle_case _ _ \<Rightarrow> if c_external_effect c \<noteq> Possible then None else Some (x\<lparr>c_external_effect := Not_started\<rparr>)
              | Release_case_rec _ _ \<Rightarrow> if c_external_effect c \<noteq> Not_started then None else Some (x\<lparr>c_state := Closed\<rparr>)
              | Adopt_case _ _ p \<Rightarrow> if c_external_effect c \<noteq> Not_started \<or> c_lead c = p then None
                  else Some (x\<lparr>c_lead := p, c_generation := c_generation c + 1, c_members := uniq (c_members c @ [p])\<rparr>)
              | _ \<Rightarrow> None)"

definition recovery_work_id :: "recovery_action \<Rightarrow> string option" where
  "recovery_work_id a = (case a of Adopt_work w _ \<Rightarrow> Some w | Close_work_rec w \<Rightarrow> Some w | _ \<Rightarrow> None)"

definition recovery_case_id :: "recovery_action \<Rightarrow> string option" where
  "recovery_case_id a = (case a of Adopt_case c _ _ \<Rightarrow> Some c | Release_case_rec c _ \<Rightarrow> Some c
     | Settle_case c _ \<Rightarrow> Some c | _ \<Rightarrow> None)"

definition assertRecoveryTransition :: "(string \<Rightarrow> string) \<Rightarrow> control_state \<Rightarrow> control_state \<Rightarrow> recovery_command \<Rightarrow> bool" where
  "assertRecoveryTransition sha before nxt cmd =
     (let same = (\<lambda>v u. canonical_hash sha v = canonical_hash sha u)
      in rv_epoch cmd = cs_epoch before
       \<and> same (jlist note_json (cs_notes before)) (jlist note_json (cs_notes nxt))
       \<and> same (jlist receipt_json (cs_receipts before)) (jlist receipt_json (cs_receipts nxt))
       \<and> length (cs_works before) = length (cs_works nxt) \<and> length (cs_cases before) = length (cs_cases nxt)
       \<and> (case recovery_work_id (rv_action cmd) of
            Some i \<Rightarrow>
              (case Option.bind (find_work before i) (recovered_work cmd) of
                 None \<Rightarrow> False
               | Some x \<Rightarrow> same (jlist case_json (cs_cases before)) (jlist case_json (cs_cases nxt))
                   \<and> same (jlist work_json (cs_works nxt))
                        (jlist work_json (map (\<lambda>w. if w_id w = i then x else w) (cs_works before))))
          | None \<Rightarrow>
              (case (recovery_case_id (rv_action cmd), recovery_generation (rv_action cmd)) of
                 (Some i, Some g) \<Rightarrow>
                   (case Option.bind (find_case before i) (recovered_case cmd g) of
                      None \<Rightarrow> False
                    | Some x \<Rightarrow> same (jlist work_json (cs_works before)) (jlist work_json (cs_works nxt))
                        \<and> same (jlist case_json (cs_cases nxt))
                             (jlist case_json (map (\<lambda>c. if c_id c = i then x else c) (cs_cases before))))
               | _ \<Rightarrow> False)))"

section \<open>Ordinary publications\<close>

definition appended_receipt :: "control_state \<Rightarrow> control_state \<Rightarrow> receipt option" where
  "appended_receipt before nxt = appended (cs_receipts before) (cs_receipts nxt)"

definition appended_action :: "control_state \<Rightarrow> control_state \<Rightarrow> action \<Rightarrow> receipt option" where
  "appended_action before nxt a = (case appended_receipt before nxt of None \<Rightarrow> None
     | Some r \<Rightarrow> if rc_action r = a then Some r else None)"

text \<open>Storage versions an ordinary publication may move to, by its action.\<close>

definition schema_step_ok :: "control_state \<Rightarrow> control_state \<Rightarrow> bool" where
  "schema_step_ok before nxt =
     (let act = map_option rc_action (last_opt (cs_receipts nxt)) in
      cs_schema nxt = cs_schema before
      \<or> cs_schema nxt = MANAGED_CONTROL_SCHEMA \<and> act = Some A_register_task_work
      \<or> cs_schema nxt = SOURCE_GRANT_CONTROL_SCHEMA \<and> act = Some A_grant_source
      \<or> cs_schema nxt = SOURCE_WATCH_CONTROL_SCHEMA \<and> act = Some A_watch_source
      \<or> cs_schema nxt = OBSERVED_CASE_CONTROL_SCHEMA \<and> (act = Some A_claim_target \<or> act = Some A_post_note))"

definition enrollment_transition_ok :: "control_state \<Rightarrow> control_state \<Rightarrow> bool" where
  "enrollment_transition_ok before nxt =
     (case appended_action before nxt A_register_task_work of None \<Rightarrow> True | Some r \<Rightarrow>
        MANAGED_CONTROL_SCHEMA \<le> cs_schema nxt \<and> length (cs_works nxt) = length (cs_works before) + 1
      \<and> butlast (cs_works nxt) = cs_works before \<and> cs_cases before = cs_cases nxt \<and> cs_notes before = cs_notes nxt
      \<and> (case last_opt (cs_works nxt) of None \<Rightarrow> False | Some w \<Rightarrow>
           w_managed w \<noteq> None \<and> w_owner w = rc_owner r \<and> w_revision w = 1 \<and> w_state w = Active \<and> w_readers w = []
         \<and> rc_item_id r = w_id w)
      \<and> cs_recoveries before = cs_recoveries nxt)"

definition source_transition_ok :: "control_state \<Rightarrow> control_state \<Rightarrow> bool" where
  "source_transition_ok before nxt =
     (let g = appended_action before nxt A_grant_source; x = appended_action before nxt A_watch_source in
      case (if g \<noteq> None then g else x) of None \<Rightarrow> True | Some r \<Rightarrow>
        SOURCE_GRANT_CONTROL_SCHEMA \<le> cs_schema nxt \<and> (x \<noteq> None \<longrightarrow> SOURCE_WATCH_CONTROL_SCHEMA \<le> cs_schema nxt)
      \<and> cs_cases before = cs_cases nxt \<and> cs_notes before = cs_notes nxt
      \<and> length (cs_works nxt) = length (cs_works before) \<and> rc_item_id r \<in> w_id ` set (cs_works before))"

definition work_identity_ok :: "work \<Rightarrow> work \<Rightarrow> bool" where
  "work_identity_ok old item =
     (w_id old = w_id item \<and> w_owner old = w_owner item \<and> w_workspace_id old = w_workspace_id item
    \<and> w_input_oid old = w_input_oid item \<and> w_object_format old = w_object_format item \<and> w_intent old = w_intent item
    \<and> w_areas old = w_areas item \<and> w_managed old = w_managed item
    \<and> w_revision old \<le> w_revision item \<and> w_revision item \<le> w_revision old + 1
    \<and> (w_state old = Closed \<longrightarrow> w_state item = Closed) \<and> (w_revision item = w_revision old \<longrightarrow> old = item))"

definition grant_transition_ok :: "(string \<Rightarrow> string) \<Rightarrow> receipt \<Rightarrow> work \<Rightarrow> work \<Rightarrow> bool" where
  "grant_transition_ok sha r old item =
     (w_owner old = rc_owner r \<and> w_state old = Active \<and> w_state item = Active \<and> w_revision item = w_revision old + 1
    \<and> w_readers old = w_readers item
    \<and> (\<forall>g \<in> set (work_grants item). g_work_revision g = w_revision item \<and> g_recipient g \<noteq> w_owner old)
    \<and> work_watches item = []
    \<and> rc_request_hash r = request_hash sha (w_owner old) (Grant_source (rc_key r) (w_id old) (w_revision old)
         (map (\<lambda>g. (g_recipient g, g_scope g)) (work_grants item))))"

definition watch_transition_ok :: "(string \<Rightarrow> string) \<Rightarrow> receipt \<Rightarrow> work \<Rightarrow> work \<Rightarrow> bool" where
  "watch_transition_ok sha r old item =
     (w_owner old = rc_owner r \<and> w_state old = Active \<and> w_state item = Active \<and> w_revision item = w_revision old + 1
    \<and> w_readers old = w_readers item \<and> w_source_watches item \<noteq> None
    \<and> w_source_grants item = map_option (map (\<lambda>g. g\<lparr>g_work_revision := w_revision item\<rparr>)) (w_source_grants old)
    \<and> rc_request_hash r = request_hash sha (w_owner old) (Watch_source (rc_key r) (w_id old) (w_revision old)
         (map watcher.truncate (work_watches item))))"

definition work_transition_ok :: "(string \<Rightarrow> string) \<Rightarrow> control_state \<Rightarrow> control_state \<Rightarrow> recovery_receipt option \<Rightarrow> work \<Rightarrow> bool" where
  "work_transition_ok sha before nxt recovered old =
     (let gr = appended_action before nxt A_grant_source; wr = appended_action before nxt A_watch_source in
      case find_work nxt (w_id old) of None \<Rightarrow> False | Some item \<Rightarrow>
        Option.bind recovered (\<lambda>r. recovery_work_id (rv_action (rr_command r))) = Some (w_id old)
      \<or> work_identity_ok old item
        \<and> (case gr of
             Some r \<Rightarrow> if rc_item_id r = w_id old then grant_transition_ok sha r old item else old = item
           | None \<Rightarrow> (case wr of
               Some r \<Rightarrow> if rc_item_id r = w_id old then watch_transition_ok sha r old item else old = item
             | None \<Rightarrow>
                 (work_grants old = work_grants item \<or> w_revision item = w_revision old + 1 \<and> work_grants item = [])
               \<and> (work_watches old = work_watches item \<or> w_revision item = w_revision old + 1 \<and> work_watches item = []))))"

text \<open>The bookkeeping commands of an elected service, which only the record's history names.\<close>

definition extend_observed_json :: "string \<Rightarrow> string \<Rightarrow> nat \<Rightarrow> nat \<Rightarrow> string \<Rightarrow> string option \<Rightarrow> jval" where
  "extend_observed_json k c rv g w oid =
     JObj (key_fields ''extend_observed_case'' k @ case_fields c rv g @ [(''new_work_id'', JStr w), (''target_oid'', oid_json oid)])"

definition observe_delivery_json :: "string \<Rightarrow> string \<Rightarrow> nat \<Rightarrow> nat \<Rightarrow> string \<Rightarrow> string \<Rightarrow> jval" where
  "observe_delivery_json k c rv g w d =
     JObj (key_fields ''observe_case_delivery'' k @ [(''case_id'', JStr c), (''case_revision'', jnat rv),
       (''generation'', jnat g), (''recipient_work_id'', JStr w), (''observation_digest'', JStr d)])"

definition owner_command_hash :: "(string \<Rightarrow> string) \<Rightarrow> string \<Rightarrow> jval \<Rightarrow> string" where
  "owner_command_hash sha owner cmd = canonical_hash sha (JObj [(''owner'', JStr owner), (''command'', cmd)])"

text \<open>
  Properties the spread of a case does not have yet are appended after those it has; the
  result is in the order the decoder writes only if no later property was present.
\<close>

definition spread_in_order :: "case_rec \<Rightarrow> bool" where
  "spread_in_order c =
     ((c_delivery_pending c = None \<longrightarrow> c_delivery_observed c = None \<and> c_visibility_delta c = None)
    \<and> (c_delivery_observed c = None \<longrightarrow> c_visibility_delta c = None))"

text \<open>The delta of one selected work; a work that is missing is a property read of \<open>undefined\<close>.\<close>

definition expected_delta :: "control_state \<Rightarrow> string list \<Rightarrow> selection \<Rightarrow> visibility_delta option res" where
  "expected_delta s members i =
     (case find_work s (sel_work_id i) of
        None \<Rightarrow> Inl JsError
      | Some w \<Rightarrow> Inr (map_option (\<lambda>m. \<lparr>vd_work_id = w_id w, vd_work_revision = w_revision w,
          vd_control_generation = m_control_generation m, vd_areas = w_areas w,
          vd_added_readers = filter (\<lambda>p. p \<noteq> w_owner w \<and> p \<notin> set (w_readers w)) members\<rparr>) (w_managed w)))"

definition extension_transition :: "(string \<Rightarrow> string) \<Rightarrow> control_state \<Rightarrow> control_state \<Rightarrow> receipt \<Rightarrow> case_rec \<Rightarrow> case_rec \<Rightarrow> unit res" where
  "extension_transition sha before nxt r old item =
     (case last_opt (c_inputs item) of None \<Rightarrow> invalid | Some i \<Rightarrow>
     (case find_work nxt (sel_work_id i) of None \<Rightarrow> invalid | Some w \<Rightarrow>
     (let members = uniq (c_members old @ [w_owner w]) in
      andThen (map_res (expected_delta nxt members) (c_inputs old @ [i])) (\<lambda>deltas.
      guard_fail (\<not> (c_state old = Active \<and> c_observed_origin old = Some Selected_origin
        \<and> c_external_effect old = Not_started \<and> w_managed w \<noteq> None
        \<and> sel_work_id i \<notin> input_ids old
        \<and> None \<notin> set deltas \<and> spread_in_order old
        \<and> item = old\<lparr>c_members := members, c_inputs := c_inputs old @ [i],
            c_delivery_pending := Some (map sel_work_id (c_inputs item)), c_delivery_observed := Some [],
            c_visibility_delta := Some (map the deltas), c_revision := c_revision old + 1\<rparr>
        \<and> rc_owner r = c_lead old
        \<and> rc_request_hash r = owner_command_hash sha (c_lead old)
             (extend_observed_json (rc_key r) (c_id old) (c_revision old) (c_generation old) (sel_work_id i) (c_target_oid old))
        \<and> cs_works before = cs_works nxt \<and> cs_notes before = cs_notes nxt)) INVALID))))"

definition observed_of_case :: "case_rec \<Rightarrow> observed_delivery list" where
  "observed_of_case c = (case c_delivery_observed c of None \<Rightarrow> [] | Some l \<Rightarrow> l)"

definition observation_transition_ok :: "(string \<Rightarrow> string) \<Rightarrow> control_state \<Rightarrow> control_state \<Rightarrow> receipt \<Rightarrow> case_rec \<Rightarrow> case_rec \<Rightarrow> bool" where
  "observation_transition_ok sha before nxt r old item =
     (case last_opt (observed_of_case item) of None \<Rightarrow> False | Some d \<Rightarrow>
        c_state old = Active \<and> c_observed_origin old = Some Selected_origin
      \<and> od_work_id d \<in> set (pending_ids old) \<and> spread_in_order old
      \<and> item = old\<lparr>c_delivery_pending := map_option (filter (\<lambda>i. i \<noteq> od_work_id d)) (c_delivery_pending old),
          c_delivery_observed := Some (observed_of_case old @ [d])\<rparr>
      \<and> rc_owner r = c_lead old
      \<and> rc_request_hash r = owner_command_hash sha (c_lead old)
           (observe_delivery_json (rc_key r) (c_id old) (c_revision old) (c_generation old) (od_work_id d) (od_digest d))
      \<and> cs_works before = cs_works nxt \<and> cs_notes before = cs_notes nxt)"

definition case_identity_ok :: "bool \<Rightarrow> bool \<Rightarrow> case_rec \<Rightarrow> case_rec \<Rightarrow> bool" where
  "case_identity_ok extension observation old item =
     (c_target old = c_target item \<and> (extension \<or> c_members old = c_members item)
    \<and> c_revision old \<le> c_revision item \<and> c_revision item \<le> c_revision old + 1
    \<and> c_generation old \<le> c_generation item \<and> c_generation item \<le> c_generation old + 1
    \<and> (c_lead old \<noteq> c_lead item \<longrightarrow> c_generation item = c_generation old + 1)
    \<and> (c_state old = Closed \<longrightarrow> old = item)
    \<and> (c_revision old = c_revision item \<and> \<not> observation \<longrightarrow> old = item))"

definition case_transition :: "(string \<Rightarrow> string) \<Rightarrow> control_state \<Rightarrow> control_state \<Rightarrow> recovery_receipt option \<Rightarrow> case_rec \<Rightarrow> unit res" where
  "case_transition sha before nxt recovered old =
     (let ext = Option.bind (appended_action before nxt A_extend_observed_case)
            (\<lambda>r. if rc_item_id r = c_id old then Some r else None);
          obs = Option.bind (appended_action before nxt A_observe_case_delivery)
            (\<lambda>r. if rc_item_id r = c_id old then Some r else None) in
      case find_case nxt (c_id old) of None \<Rightarrow> invalid | Some item \<Rightarrow>
      if Option.bind recovered (\<lambda>r. recovery_case_id (rv_action (rr_command r))) = Some (c_id old) then Inr ()
      else andThen (guard_fail (\<not> case_identity_ok (ext \<noteq> None) (obs \<noteq> None) old item) INVALID) (\<lambda>_.
           andThen (case ext of None \<Rightarrow> Inr () | Some r \<Rightarrow> extension_transition sha before nxt r old item) (\<lambda>_.
           case obs of None \<Rightarrow> Inr ()
           | Some r \<Rightarrow> guard_fail (\<not> observation_transition_ok sha before nxt r old item) INVALID)))"

definition note_transition_ok :: "control_state \<Rightarrow> note_rec \<Rightarrow> bool" where
  "note_transition_ok nxt old =
     (case List.find (\<lambda>n. n_id n = n_id old) (cs_notes nxt) of None \<Rightarrow> False | Some item \<Rightarrow>
        old\<lparr>n_acknowledged := n_acknowledged item, n_withdrawn := n_withdrawn item\<rparr> = item
      \<and> (n_withdrawn old \<longrightarrow> n_withdrawn item) \<and> prefix (n_acknowledged old) (n_acknowledged item))"

definition assertControlTransition :: "(string \<Rightarrow> string) \<Rightarrow> control_state \<Rightarrow> control_state \<Rightarrow> unit res" where
  "assertControlTransition sha before nxt =
     (let recovered = appended (cs_recoveries before) (cs_recoveries nxt);
          submission = appended (cs_events before) (cs_events nxt);
          ok = (\<lambda>b. guard_fail (\<not> b) INVALID)
      in
     andThen (ok (cs_epoch before = cs_epoch nxt \<and> cs_repository_id before = cs_repository_id nxt
        \<and> cs_limits before = cs_limits nxt \<and> cs_revision nxt = cs_revision before + 1)) (\<lambda>_.
     andThen (ok (cs_schema before \<le> cs_schema nxt \<and> prefix (cs_recoveries before) (cs_recoveries nxt))) (\<lambda>_.
     andThen (ok (prefix (cs_events before) (cs_events nxt) \<and> length (cs_events nxt) \<le> length (cs_events before) + 1)) (\<lambda>_.
     andThen (case submission of None \<Rightarrow> Inr () | Some e \<Rightarrow>
        ok (SUBMISSION_CONTROL_SCHEMA \<le> cs_schema nxt \<and> recovered = None
          \<and> length (cs_receipts nxt) = length (cs_receipts before) \<and> length (cs_recoveries nxt) = length (cs_recoveries before)
          \<and> ev_revision e = cs_revision nxt \<and> cs_works before = cs_works nxt \<and> cs_cases before = cs_cases nxt
          \<and> cs_notes before = cs_notes nxt \<and> assertSubmissionTransition sha before nxt e)) (\<lambda>_.
     andThen (case recovered of
          Some r \<Rightarrow> ok (2 \<le> cs_schema nxt \<and> \<not> (MANAGED_CONTROL_SCHEMA \<le> cs_schema before \<and> cs_schema nxt < MANAGED_CONTROL_SCHEMA)
            \<and> rr_revision r = cs_revision nxt \<and> length (cs_receipts before) = length (cs_receipts nxt) \<and> submission = None
            \<and> assertRecoveryTransition sha before nxt (rr_command r))
        | None \<Rightarrow> ok (submission \<noteq> None \<or> length (cs_recoveries nxt) = length (cs_recoveries before)
            \<and> length (cs_receipts nxt) = length (cs_receipts before) + 1 \<and> schema_step_ok before nxt)) (\<lambda>_.
     andThen (ok (submission \<noteq> None \<or> cs_announcements before = cs_announcements nxt \<and> cs_bindings before = cs_bindings nxt)) (\<lambda>_.
     andThen (ok (prefix (cs_receipts before) (cs_receipts nxt))) (\<lambda>_.
     andThen (ok (enrollment_transition_ok before nxt)) (\<lambda>_.
     andThen (ok (source_transition_ok before nxt)) (\<lambda>_.
     andThen (each_res (\<lambda>w. ok (work_transition_ok sha before nxt recovered w)) (cs_works before)) (\<lambda>_.
     andThen (each_res (case_transition sha before nxt recovered) (cs_cases before)) (\<lambda>_.
     each_res (\<lambda>n. ok (note_transition_ok nxt n)) (cs_notes before)))))))))))))"

end
