(* ===== verification/Peer_Resolution.thy ===== *)
theory Peer_Resolution
  imports Control_Check
begin

text \<open>
  Peer-resolution records carried in coordination notes
  (src/src/coordination/peer-resolution.ts): the record types, the strict decoder, the
  content digest of a proposal, and the reader of note text. SHA-256 is the parameter
  \<open>sha\<close>; base64 is decided on the canonical alphabet, which is what survives the code's
  decode and encode comparison.
\<close>

section \<open>Records\<close>

record peer_source =
  ps_work_id :: string
  ps_work_revision :: nat
  ps_input_oid :: string
  ps_selected_oid :: string

record peer_change =
  pc_path :: string
  pc_before :: "string option"
  pc_after :: "string option"

record peer_base =
  pb_schema :: nat
  pb_case_id :: string
  pb_case_revision :: nat
  pb_case_generation :: nat
  pb_evidence_id :: string
  pb_evidence_revision :: nat
  pb_sources :: "peer_source list"
  pb_scope :: "region list"

datatype peer_action = Propose | Counter_propose
datatype application_status = Pending | Applied | Effect_unknown | Rejected
datatype verification_status = Not_run | Passed | Failed_check | Unavailable

record peer_proposal = peer_base +
  pp_revision :: nat
  pp_participants :: "string list"
  pp_action :: peer_action
  pp_digest :: string
  pp_predecessor :: "string option"
  pp_extra :: "(string \<times> peer_change list) option"

record peer_application = peer_base +
  pa_proposal_digest :: string
  pa_digest :: string
  pa_status :: application_status

record peer_verification = peer_base +
  pv_application_digest :: string
  pv_status :: verification_status

datatype peer_record =
    Proposal peer_proposal
  | Application peer_application
  | Verification peer_verification

fun peer_base_of :: "peer_record \<Rightarrow> peer_base" where
  "peer_base_of (Proposal p) = peer_base.truncate p"
| "peer_base_of (Application a) = peer_base.truncate a"
| "peer_base_of (Verification v) = peer_base.truncate v"

definition PEER_RESOLUTION_PREFIX :: string where "PEER_RESOLUTION_PREFIX = ''passeur-peer-resolution-v1:''"
definition PEER_RESOLUTION_MAX_BYTES :: nat where "PEER_RESOLUTION_MAX_BYTES = 15000"

definition PEER_RESOLUTION_ACTIONS :: "string list" where
  "PEER_RESOLUTION_ACTIONS =
     [''inspect_evidence'', ''propose'', ''counter_propose'', ''acknowledge'', ''apply'', ''verify'']"

definition peer_actions :: "(string \<times> peer_action) list" where
  "peer_actions = [(''propose'', Propose), (''counter_propose'', Counter_propose)]"
definition application_statuses :: "(string \<times> application_status) list" where
  "application_statuses = [(''pending'', Pending), (''applied'', Applied), (''effect_unknown'', Effect_unknown), (''rejected'', Rejected)]"
definition verification_statuses :: "(string \<times> verification_status) list" where
  "verification_statuses = [(''not_run'', Not_run), (''passed'', Passed), (''failed'', Failed_check), (''unavailable'', Unavailable)]"

section \<open>Fields\<close>

definition PEER_INVALID :: string where "PEER_INVALID = ''PEER_RESOLUTION_INVALID''"

abbreviation peer_invalid :: "'a res" where "peer_invalid \<equiv> fail PEER_INVALID"

definition peer_check :: "bool \<Rightarrow> unit res" where
  "peer_check b = guard_fail (\<not> b) PEER_INVALID"

definition peer_object :: "jval \<Rightarrow> (string \<times> jval) list res" where
  "peer_object v = (case v of JObj kvs \<Rightarrow> Inr kvs | _ \<Rightarrow> peer_invalid)"

definition peer_exact :: "(string \<times> jval) list \<Rightarrow> string list \<Rightarrow> unit res" where
  "peer_exact kvs names = peer_check (length kvs = length names \<and> (\<forall>k \<in> set names. has_own kvs k))"

definition peer_text :: "jval \<Rightarrow> nat \<Rightarrow> string res" where
  "peer_text v maximum =
     (case v of
        JStr s \<Rightarrow> if text_ok maximum False s \<and> CHR 0x0A \<notin> set s \<and> CHR 0x0D \<notin> set s then Inr s else peer_invalid
      | _ \<Rightarrow> peer_invalid)"

definition peer_checked :: "jval \<Rightarrow> nat \<Rightarrow> (string \<Rightarrow> bool) \<Rightarrow> string res" where
  "peer_checked v maximum p = andThen (peer_text v maximum) (\<lambda>s. if p s then Inr s else peer_invalid)"

definition peer_integer :: "jval \<Rightarrow> nat \<Rightarrow> int \<Rightarrow> nat res" where
  "peer_integer v minimum maximum =
     (case v of
        JNum i \<Rightarrow> if abs i > MAX_SAFE_INTEGER \<or> i < int minimum \<or> i > maximum then peer_invalid else Inr (nat i)
      | _ \<Rightarrow> peer_invalid)"

definition peer_counter :: "jval \<Rightarrow> nat res" where "peer_counter v = peer_integer v 1 MAX_SAFE_INTEGER"
definition peer_digest :: "jval \<Rightarrow> string res" where "peer_digest v = peer_checked v 64 (hex_of 64)"
definition peer_uuid :: "jval \<Rightarrow> string res" where "peer_uuid v = peer_checked v 36 is_uuid"
definition peer_parent :: "jval \<Rightarrow> string res" where "peer_parent v = peer_checked v 64 (hex_of 64)"
definition peer_oid :: "jval \<Rightarrow> string res" where "peer_oid v = peer_checked v 64 is_oid"

definition git_path :: "string \<Rightarrow> bool" where
  "git_path s = (\<not> starts_with s ''/''
     \<and> (\<forall>x \<in> set (split_on CHR ''/'' s). x \<noteq> [] \<and> x \<noteq> ''.'' \<and> x \<noteq> ''..'' \<and> x \<noteq> ''.git''))"

definition peer_path :: "jval \<Rightarrow> string res" where "peer_path v = peer_checked v 4096 git_path"

definition lower_ascii :: "char \<Rightarrow> char" where
  "lower_ascii c = (let n = of_char c :: nat in if 65 \<le> n \<and> n \<le> 90 then char_of (n + 32) else c)"

text \<open>No other code point has a lower case among the letters of \<open>.git\<close>.\<close>

definition effect_path_ok :: "string \<Rightarrow> bool" where
  "effect_path_ok s = (CHR 0x5C \<notin> set s \<and> (\<forall>c \<in> set s. 32 \<le> (of_char c :: nat) \<and> (of_char c :: nat) \<noteq> 127)
     \<and> (\<forall>x \<in> set (split_on CHR ''/'' s). map lower_ascii x \<noteq> ''.git''))"

definition effectPath :: "jval \<Rightarrow> string res" where
  "effectPath v = andThen (peer_path v) (\<lambda>s. if effect_path_ok s then Inr s else peer_invalid)"

definition peer_choice :: "jval \<Rightarrow> (string \<times> 'a) list \<Rightarrow> 'a res" where
  "peer_choice v options =
     (case v of JStr s \<Rightarrow> (case map_of options s of Some x \<Rightarrow> Inr x | None \<Rightarrow> peer_invalid) | _ \<Rightarrow> peer_invalid)"

definition peer_list :: "jval \<Rightarrow> nat \<Rightarrow> nat \<Rightarrow> (jval \<Rightarrow> 'a res) \<Rightarrow> ('a \<Rightarrow> 'k) \<Rightarrow> 'a list res" where
  "peer_list v minimum maximum decode key =
     (case v of
        JArr vs \<Rightarrow> if length vs < minimum \<or> maximum < length vs then peer_invalid
          else andThen (map_res decode vs) (\<lambda>xs. if unique_by key xs then Inr xs else peer_invalid)
      | _ \<Rightarrow> peer_invalid)"

definition peer_region :: "jval \<Rightarrow> region res" where
  "peer_region value =
     andThen (peer_object value) (\<lambda>v. andThen (peer_exact v [''kind'', ''path'']) (\<lambda>_.
     andThen (peer_choice (prop_of v ''kind'') region_kinds) (\<lambda>k. andThen (peer_path (prop_of v ''path'')) (\<lambda>p.
     Inr \<lparr>r_kind = k, r_path = p\<rparr>))))"

definition peer_regions :: "jval \<Rightarrow> region list res" where
  "peer_regions v = peer_list v 0 256 peer_region region_key"

definition peer_participants :: "jval \<Rightarrow> string list res" where
  "peer_participants v = peer_list v 1 64 peer_parent (\<lambda>x. x)"

definition peer_source_of :: "jval \<Rightarrow> peer_source res" where
  "peer_source_of value =
     andThen (peer_object value) (\<lambda>v.
     andThen (peer_exact v [''work_id'', ''work_revision'', ''input_oid'', ''selected_commit_oid'']) (\<lambda>_.
     andThen (peer_uuid (prop_of v ''work_id'')) (\<lambda>w. andThen (peer_counter (prop_of v ''work_revision'')) (\<lambda>r.
     andThen (peer_oid (prop_of v ''input_oid'')) (\<lambda>i. andThen (peer_oid (prop_of v ''selected_commit_oid'')) (\<lambda>c.
     Inr \<lparr>ps_work_id = w, ps_work_revision = r, ps_input_oid = i, ps_selected_oid = c\<rparr>))))))"

definition peer_sources :: "jval \<Rightarrow> peer_source list res" where
  "peer_sources v = peer_list v 1 64 peer_source_of ps_work_id"

text \<open>The permitted actions are exactly the canonical list, so nothing of them is retained.\<close>

definition peer_permitted :: "jval \<Rightarrow> unit res" where
  "peer_permitted v = peer_check (v = JArr (map JStr PEER_RESOLUTION_ACTIONS))"

section \<open>Canonical base64\<close>

definition base64_digit :: "char \<Rightarrow> nat option" where
  "base64_digit c =
     (let n = of_char c :: nat in
      if 65 \<le> n \<and> n \<le> 90 then Some (n - 65)
      else if 97 \<le> n \<and> n \<le> 122 then Some (n - 71)
      else if 48 \<le> n \<and> n \<le> 57 then Some (n + 4)
      else if n = 43 then Some 62 else if n = 47 then Some 63 else None)"

text \<open>The number of bytes a canonical base64 text encodes; \<open>None\<close> for any other text.\<close>

fun base64_length :: "string \<Rightarrow> nat option" where
  "base64_length [] = Some 0"
| "base64_length (a # b # c # d # rest) =
     (case (base64_digit a, base64_digit b, base64_digit c, base64_digit d) of
        (Some _, Some _, Some _, Some _) \<Rightarrow> map_option (\<lambda>n. n + 3) (base64_length rest)
      | (Some _, Some _, Some z, None) \<Rightarrow> if d = CHR ''='' \<and> rest = [] \<and> z mod 4 = 0 then Some 2 else None
      | (Some _, Some y, None, None) \<Rightarrow>
          if c = CHR ''='' \<and> d = CHR ''='' \<and> rest = [] \<and> y mod 16 = 0 then Some 1 else None
      | _ \<Rightarrow> None)"
| "base64_length _ = None"

definition base64_ok :: "string \<Rightarrow> bool" where
  "base64_ok s = (length s \<le> 8192 \<and> (case base64_length s of None \<Rightarrow> False | Some n \<Rightarrow> n \<le> 6144))"

definition peer_after :: "jval \<Rightarrow> string option res" where
  "peer_after v =
     (case v of JNull \<Rightarrow> Inr None | JStr s \<Rightarrow> if base64_ok s then Inr (Some s) else peer_invalid | _ \<Rightarrow> peer_invalid)"

definition peer_nullable_digest :: "jval \<Rightarrow> string option res" where
  "peer_nullable_digest v = (if v = JNull then Inr None else map_sum id Some (peer_digest v))"

definition peer_change_of :: "jval \<Rightarrow> peer_change res" where
  "peer_change_of value =
     andThen (peer_object value) (\<lambda>v. andThen (peer_exact v [''path'', ''before_sha256'', ''after_base64'']) (\<lambda>_.
     andThen (peer_nullable_digest (prop_of v ''before_sha256'')) (\<lambda>b.
     andThen (peer_check (\<not> (b = None \<and> prop_of v ''after_base64'' = JNull))) (\<lambda>_.
     andThen (peer_after (prop_of v ''after_base64'')) (\<lambda>a.
     andThen (effectPath (prop_of v ''path'')) (\<lambda>p.
     Inr \<lparr>pc_path = p, pc_before = b, pc_after = a\<rparr>))))))"

section \<open>The digest of a proposal's effects\<close>

definition change_json :: "peer_change \<Rightarrow> jval" where
  "change_json c = JObj [(''path'', JStr (pc_path c)), (''before_sha256'', oid_json (pc_before c)),
     (''after_base64'', oid_json (pc_after c))]"

definition peerResolutionDigest :: "(string \<Rightarrow> string) \<Rightarrow> string \<Rightarrow> peer_change list \<Rightarrow> string" where
  "peerResolutionDigest sha summary changes =
     sha (stringify (JObj [(''schema_version'', JNum 2), (''summary'', JStr summary), (''changes'', jlist change_json changes)]))"

fun sorted_changes :: "peer_change list \<Rightarrow> bool" where
  "sorted_changes (a # b # cs) = (js_less (pc_path a) (pc_path b) \<and> sorted_changes (b # cs))"
| "sorted_changes _ = True"

definition in_scope :: "region list \<Rightarrow> string \<Rightarrow> bool" where
  "in_scope scope p = (\<exists>r \<in> set scope. r_path r = p \<or> r_kind r = RSubtree \<and> starts_with p (r_path r @ ''/''))"

definition peer_extra :: "(string \<Rightarrow> string) \<Rightarrow> (string \<times> jval) list \<Rightarrow> (string \<times> peer_change list) res" where
  "peer_extra sha v =
     andThen (peer_text (prop_of v ''summary'') 1024) (\<lambda>summary.
     andThen (peer_list (prop_of v ''changes'') 1 32 peer_change_of pc_path) (\<lambda>changes.
     andThen (peer_check (sorted_changes changes)) (\<lambda>_.
     andThen (peer_regions (prop_of v ''scope'')) (\<lambda>scope.
     andThen (each_res (\<lambda>r. map_sum id (\<lambda>_. ()) (effectPath (JStr (r_path r)))) scope) (\<lambda>_.
     andThen (peer_check (\<forall>c \<in> set changes. in_scope scope (pc_path c))) (\<lambda>_.
     andThen (peer_check (prop_of v ''resolution_digest'' = JStr (peerResolutionDigest sha summary changes))) (\<lambda>_.
     Inr (summary, changes))))))))"

section \<open>Records\<close>

definition proposal_fields :: "string list" where
  "proposal_fields = [''schema_version'', ''kind'', ''case_id'', ''case_revision'', ''case_generation'', ''proposal_revision'',
     ''evidence_id'', ''evidence_revision'', ''participants'', ''sources'', ''scope'', ''action'', ''resolution_digest'',
     ''predecessor_digest'', ''permitted_actions'']"

definition application_fields :: "string list" where
  "application_fields = [''schema_version'', ''kind'', ''case_id'', ''case_revision'', ''case_generation'', ''evidence_id'',
     ''evidence_revision'', ''sources'', ''scope'', ''proposal_digest'', ''application_digest'', ''status'']"

definition verification_fields :: "string list" where
  "verification_fields = [''schema_version'', ''kind'', ''case_id'', ''case_revision'', ''case_generation'', ''evidence_id'',
     ''evidence_revision'', ''sources'', ''scope'', ''application_digest'', ''status'']"

definition baseFields :: "(string \<times> jval) list \<Rightarrow> peer_base res" where
  "baseFields v =
     andThen (if prop_of v ''schema_version'' = JNum 1 then Inr 1 else if prop_of v ''schema_version'' = JNum 2 then Inr 2
              else peer_invalid) (\<lambda>sv.
     andThen (peer_uuid (prop_of v ''case_id'')) (\<lambda>c. andThen (peer_counter (prop_of v ''case_revision'')) (\<lambda>cr.
     andThen (peer_counter (prop_of v ''case_generation'')) (\<lambda>cg. andThen (peer_digest (prop_of v ''evidence_id'')) (\<lambda>e.
     andThen (peer_counter (prop_of v ''evidence_revision'')) (\<lambda>er.
     andThen (peer_sources (prop_of v ''sources'')) (\<lambda>ss. andThen (peer_regions (prop_of v ''scope'')) (\<lambda>sc.
     Inr \<lparr>pb_schema = sv, pb_case_id = c, pb_case_revision = cr, pb_case_generation = cg, pb_evidence_id = e,
       pb_evidence_revision = er, pb_sources = ss, pb_scope = sc\<rparr>))))))))"

definition proposal_of :: "(string \<Rightarrow> string) \<Rightarrow> (string \<times> jval) list \<Rightarrow> peer_proposal res" where
  "proposal_of sha v =
     (let v2 = (prop_of v ''schema_version'' = JNum 2) in
     andThen (peer_exact v (proposal_fields @ (if v2 then [''summary'', ''changes''] else []))) (\<lambda>_.
     andThen (baseFields v) (\<lambda>b.
     andThen (peer_choice (prop_of v ''action'') peer_actions) (\<lambda>a.
     andThen (peer_nullable_digest (prop_of v ''predecessor_digest'')) (\<lambda>pre.
     andThen (peer_check ((a = Counter_propose) = (pre \<noteq> None))) (\<lambda>_.
     andThen (if v2 then map_sum id Some (peer_extra sha v) else Inr None) (\<lambda>extra.
     andThen (peer_integer (prop_of v ''proposal_revision'') 1 4096) (\<lambda>r.
     andThen (peer_participants (prop_of v ''participants'')) (\<lambda>ps.
     andThen (peer_digest (prop_of v ''resolution_digest'')) (\<lambda>d.
     andThen (peer_permitted (prop_of v ''permitted_actions'')) (\<lambda>_.
     Inr (peer_base.extend b \<lparr>pp_revision = r, pp_participants = ps, pp_action = a, pp_digest = d,
       pp_predecessor = pre, pp_extra = extra\<rparr>))))))))))))"

definition application_of :: "(string \<times> jval) list \<Rightarrow> peer_application res" where
  "application_of v =
     andThen (peer_exact v application_fields) (\<lambda>_. andThen (baseFields v) (\<lambda>b.
     andThen (peer_choice (prop_of v ''status'') application_statuses) (\<lambda>st.
     andThen (peer_check (pb_schema b = 1)) (\<lambda>_.
     andThen (peer_digest (prop_of v ''proposal_digest'')) (\<lambda>p. andThen (peer_digest (prop_of v ''application_digest'')) (\<lambda>d.
     Inr (peer_base.extend b \<lparr>pa_proposal_digest = p, pa_digest = d, pa_status = st\<rparr>)))))))"

definition verification_of :: "(string \<times> jval) list \<Rightarrow> peer_verification res" where
  "verification_of v =
     andThen (peer_exact v verification_fields) (\<lambda>_. andThen (baseFields v) (\<lambda>b.
     andThen (peer_choice (prop_of v ''status'') verification_statuses) (\<lambda>st.
     andThen (peer_check (pb_schema b = 1)) (\<lambda>_. andThen (peer_digest (prop_of v ''application_digest'')) (\<lambda>d.
     Inr (peer_base.extend b \<lparr>pv_application_digest = d, pv_status = st\<rparr>))))))"

definition decodeRecord :: "(string \<Rightarrow> string) \<Rightarrow> jval \<Rightarrow> peer_record res" where
  "decodeRecord sha value =
     andThen (peer_object value) (\<lambda>v.
     if prop_of v ''kind'' = JStr ''peer_resolution_proposal'' then map_sum id Proposal (proposal_of sha v)
     else if prop_of v ''kind'' = JStr ''peer_resolution_application'' then map_sum id Application (application_of v)
     else if prop_of v ''kind'' = JStr ''peer_resolution_verification'' then map_sum id Verification (verification_of v)
     else peer_invalid)"

definition decodePeerResolutionText :: "(string \<Rightarrow> string) \<Rightarrow> string \<Rightarrow> peer_record option res" where
  "decodePeerResolutionText sha t =
     (if \<not> starts_with t PEER_RESOLUTION_PREFIX then Inr None
      else if PEER_RESOLUTION_MAX_BYTES < length t then peer_invalid
      else case json_parse (drop (length PEER_RESOLUTION_PREFIX) t) of
             None \<Rightarrow> peer_invalid
           | Some v \<Rightarrow> map_sum id Some (decodeRecord sha v))"

text \<open>
  \<open>retainedPeerRecord\<close> (src/src/coordination/control.ts): the decoder fails with its own
  code only, and a note with the reserved prefix that does not decode is ordinary text.
\<close>

definition retainedPeerRecord :: "(string \<Rightarrow> string) \<Rightarrow> string \<Rightarrow> peer_record option res" where
  "retainedPeerRecord sha t =
     (case decodePeerResolutionText sha t of
        Inr r \<Rightarrow> Inr r
      | Inl e \<Rightarrow> if starts_with t PEER_RESOLUTION_PREFIX \<and> e = BridgeError PEER_INVALID then Inr None else Inl e)"

section \<open>The decoder fails with its own code only\<close>

definition fails_with :: "string \<Rightarrow> 'a res \<Rightarrow> bool" where
  "fails_with code r = (case r of Inl e \<Rightarrow> e = BridgeError code | Inr _ \<Rightarrow> True)"

named_theorems fails_intro \<open>a step fails with a given code only\<close>

lemma fails_with_simps [simp, fails_intro]:
  "fails_with code (Inr x)" "fails_with code (fail code)"
  by (simp_all add: fails_with_def)

lemma fails_with_andThen [fails_intro]:
  "fails_with code r \<Longrightarrow> (\<And>x. fails_with code (f x)) \<Longrightarrow> fails_with code (andThen r f)"
  by (cases r) (simp_all add: fails_with_def)

lemma fails_with_if [fails_intro]:
  "fails_with code r \<Longrightarrow> fails_with code s \<Longrightarrow> fails_with code (if b then r else s)"
  by simp

lemma fails_with_map_sum [fails_intro]: "fails_with code r \<Longrightarrow> fails_with code (map_sum id f r)"
  by (cases r) (simp_all add: fails_with_def)

lemma fails_with_map_res [fails_intro]:
  "(\<And>x. fails_with code (f x)) \<Longrightarrow> fails_with code (map_res f xs)"
  by (induction xs) (auto intro!: fails_intro)

lemma fails_with_each_res [fails_intro]:
  "(\<And>x. fails_with code (f x)) \<Longrightarrow> fails_with code (each_res f xs)"
  by (induction xs) (auto intro!: fails_intro)

lemma peer_field_fails [fails_intro]:
  "fails_with PEER_INVALID (peer_check b)"
  "fails_with PEER_INVALID (peer_object v)"
  "fails_with PEER_INVALID (peer_text v m)"
  "fails_with PEER_INVALID (peer_integer v lo hi)"
  "fails_with PEER_INVALID (peer_choice v opts)"
  "fails_with PEER_INVALID (peer_after v)"
  by (auto simp: peer_check_def guard_fail_def peer_object_def peer_text_def peer_integer_def peer_choice_def
      peer_after_def split: jval.splits option.splits)

lemma peer_checked_fails [fails_intro]: "fails_with PEER_INVALID (peer_checked v m p)"
  unfolding peer_checked_def by (intro fails_intro)

lemma peer_scalar_fails [fails_intro]:
  "fails_with PEER_INVALID (peer_counter v)" "fails_with PEER_INVALID (peer_digest v)"
  "fails_with PEER_INVALID (peer_uuid v)" "fails_with PEER_INVALID (peer_parent v)"
  "fails_with PEER_INVALID (peer_oid v)" "fails_with PEER_INVALID (peer_path v)"
  "fails_with PEER_INVALID (peer_exact kvs names)" "fails_with PEER_INVALID (peer_permitted v)"
  unfolding peer_counter_def peer_digest_def peer_uuid_def peer_parent_def peer_oid_def peer_path_def
    peer_exact_def peer_permitted_def
  by (intro fails_intro)+

lemma peer_nullable_fails [fails_intro]: "fails_with PEER_INVALID (peer_nullable_digest v)"
  unfolding peer_nullable_digest_def by (intro fails_intro)

lemma effectPath_fails [fails_intro]: "fails_with PEER_INVALID (effectPath v)"
  unfolding effectPath_def by (intro fails_intro)

lemma peer_list_fails [fails_intro]:
  assumes "\<And>x. fails_with PEER_INVALID (d x)"
  shows "fails_with PEER_INVALID (peer_list v lo hi d key)"
  unfolding peer_list_def
  by (cases v) (simp_all, intro impI fails_intro assms)

lemma peer_items_fail [fails_intro]:
  "fails_with PEER_INVALID (peer_region v)" "fails_with PEER_INVALID (peer_source_of v)"
  "fails_with PEER_INVALID (peer_change_of v)"
  unfolding peer_region_def peer_source_of_def peer_change_of_def by (intro fails_intro)+

lemma peer_lists_fail [fails_intro]:
  "fails_with PEER_INVALID (peer_regions v)" "fails_with PEER_INVALID (peer_participants v)"
  "fails_with PEER_INVALID (peer_sources v)"
  unfolding peer_regions_def peer_participants_def peer_sources_def by (intro fails_intro)+

lemma decodeRecord_fails [fails_intro]: "fails_with PEER_INVALID (decodeRecord sha v)"
  unfolding decodeRecord_def proposal_of_def application_of_def verification_of_def baseFields_def peer_extra_def Let_def
  by (intro fails_intro)

text \<open>Reading a retained note never fails: text that does not decode is an ordinary note.\<close>

lemma decodePeerResolutionText_fails: "fails_with PEER_INVALID (decodePeerResolutionText sha t)"
  unfolding decodePeerResolutionText_def
  by (cases "json_parse (drop (length PEER_RESOLUTION_PREFIX) t)") (simp_all add: fails_intro)

lemma retainedPeerRecord_total: "\<exists>r. retainedPeerRecord sha t = Inr r"
proof (cases "decodePeerResolutionText sha t")
  case (Inl e)
  then have "e = BridgeError PEER_INVALID"
    using decodePeerResolutionText_fails [of sha t] by (simp add: fails_with_def)
  moreover have "starts_with t PEER_RESOLUTION_PREFIX"
    using Inl by (auto simp: decodePeerResolutionText_def split: if_splits)
  ultimately show ?thesis using Inl by (simp add: retainedPeerRecord_def)
qed (simp add: retainedPeerRecord_def)

definition peer_of :: "(string \<Rightarrow> string) \<Rightarrow> string \<Rightarrow> peer_record option" where
  "peer_of sha t = (case retainedPeerRecord sha t of Inr r \<Rightarrow> r | Inl _ \<Rightarrow> None)"

lemma retainedPeerRecord_eq: "retainedPeerRecord sha t = Inr (peer_of sha t)"
  using retainedPeerRecord_total [of sha t] by (auto simp: peer_of_def)

end
