(* ===== verification/Peer_Lineage.thy ===== *)
theory Peer_Lineage
  imports Peer_Resolution
begin

text \<open>
  Who may read what, and which peer-resolution records are current
  (src/src/coordination/control.ts, lines 1396 to 1408 and 1605 to 1837): sharing of
  works and cases, the proposal, counter-proposal, application and verification records a
  case retains, their acknowledgment, supersession and currency, and the checks made
  before such a record is posted or acknowledged. \<open>peer_of\<close> is \<open>retainedPeerRecord\<close>,
  which never fails.
\<close>

section \<open>Reading authority\<close>

abbreviation unavailable :: "'a res" where "unavailable \<equiv> fail ''COORDINATION_NOT_FOUND''"

definition canReadWork :: "string \<Rightarrow> work \<Rightarrow> bool" where
  "canReadWork p w = (w_owner w = p \<or> p \<in> set (w_readers w))"

definition case_deltas :: "case_rec \<Rightarrow> visibility_delta list" where
  "case_deltas c = (case c_visibility_delta c of None \<Rightarrow> [] | Some ds \<Rightarrow> ds)"

definition delta_shares :: "(string \<Rightarrow> string) \<Rightarrow> string \<Rightarrow> work \<Rightarrow> visibility_delta \<Rightarrow> bool" where
  "delta_shares sha p w d =
     (vd_work_id d = w_id w \<and> vd_work_revision d = w_revision w
    \<and> Some (vd_control_generation d) = map_option m_control_generation (w_managed w)
    \<and> canonical_hash sha (jlist region_json (vd_areas d)) = canonical_hash sha (jlist region_json (w_areas w))
    \<and> p \<in> set (vd_added_readers d))"

definition canReadSelectedWork :: "(string \<Rightarrow> string) \<Rightarrow> control_state \<Rightarrow> string \<Rightarrow> work \<Rightarrow> bool" where
  "canReadSelectedWork sha s p w =
     (canReadWork p w
    \<or> (\<exists>c \<in> set (cs_cases s). c_state c = Active \<and> c_observed_origin c = Some Selected_origin
         \<and> p \<in> set (c_members c) \<and> w_id w \<in> input_ids c \<and> (\<exists>d \<in> set (case_deltas c). delta_shares sha p w d)))"

definition visibleWork :: "(string \<Rightarrow> string) \<Rightarrow> control_state \<Rightarrow> string \<Rightarrow> string \<Rightarrow> work res" where
  "visibleWork sha s p i =
     (case find_work s i of
        None \<Rightarrow> unavailable
      | Some w \<Rightarrow> if canReadSelectedWork sha s p w then Inr w else unavailable)"

definition canReadCase :: "(string \<Rightarrow> string) \<Rightarrow> control_state \<Rightarrow> string \<Rightarrow> case_rec \<Rightarrow> bool" where
  "canReadCase sha s p c =
     (p \<in> set (c_members c)
    \<and> (\<forall>i \<in> set (c_inputs c). case find_work s (sel_work_id i) of None \<Rightarrow> False | Some w \<Rightarrow> canReadSelectedWork sha s p w))"

definition visibleCase :: "(string \<Rightarrow> string) \<Rightarrow> control_state \<Rightarrow> string \<Rightarrow> string \<Rightarrow> case_rec res" where
  "visibleCase sha s p i =
     (case find_case s i of
        None \<Rightarrow> unavailable
      | Some c \<Rightarrow> if canReadCase sha s p c then Inr c else unavailable)"

definition requireSubject :: "(string \<Rightarrow> string) \<Rightarrow> control_state \<Rightarrow> string \<Rightarrow> subject \<Rightarrow> unit res" where
  "requireSubject sha s p x =
     (case s_kind x of SWork \<Rightarrow> map_sum id (\<lambda>_. ()) (visibleWork sha s p (s_id x))
      | SCase \<Rightarrow> map_sum id (\<lambda>_. ()) (visibleCase sha s p (s_id x)))"

definition note_audience_checked :: "control_state \<Rightarrow> note_rec \<Rightarrow> bool" where
  "note_audience_checked s n =
     (s_kind (n_subject n) = SWork \<or> n_readers n \<noteq> None
    \<or> (case find_case s (s_id (n_subject n)) of None \<Rightarrow> False | Some c \<Rightarrow> c_observed_origin c \<noteq> None))"

definition note_audience :: "note_rec \<Rightarrow> string \<Rightarrow> bool" where
  "note_audience n p = ((case n_readers n of None \<Rightarrow> False | Some rs \<Rightarrow> p \<in> set rs) \<or> n_author n = p \<or> p \<in> set (n_parties n))"

definition requireNoteAccess :: "(string \<Rightarrow> string) \<Rightarrow> control_state \<Rightarrow> string \<Rightarrow> note_rec \<Rightarrow> unit res" where
  "requireNoteAccess sha s p n =
     andThen (requireSubject sha s p (n_subject n)) (\<lambda>_.
     if note_audience_checked s n \<and> \<not> note_audience n p then unavailable
     else each_res (\<lambda>i. map_sum id (\<lambda>_. ()) (visibleWork sha s p i)) (n_work_refs n))"

section \<open>Parties of a worker proposal\<close>

definition WORKER_PEER_KEY_PREFIX :: string where "WORKER_PEER_KEY_PREFIX = ''worker-peer-v1:''"

definition principal_json :: "work \<Rightarrow> managed_work \<Rightarrow> jval" where
  "principal_json w m = JObj [(''task_id'', JStr (m_task_id m)), (''owner'', JStr (w_owner w)),
     (''control_generation'', jnat (m_control_generation m)), (''workspace_id'', JStr (w_workspace_id w))]"

definition peer_party :: "(string \<Rightarrow> string) \<Rightarrow> control_state \<Rightarrow> selection \<Rightarrow> (string \<times> string) res" where
  "peer_party sha s i =
     (case find_work s (sel_work_id i) of
        None \<Rightarrow> fail ''PEER_OPERATION_FORBIDDEN''
      | Some w \<Rightarrow> (case w_managed w of
          None \<Rightarrow> fail ''PEER_OPERATION_FORBIDDEN''
        | Some m \<Rightarrow> if w_state w = Active then Inr (m_task_id m, canonical_hash sha (principal_json w m))
                    else fail ''PEER_OPERATION_FORBIDDEN''))"

definition workerPeerParties :: "(string \<Rightarrow> string) \<Rightarrow> control_state \<Rightarrow> case_rec \<Rightarrow> (string \<times> string) list res" where
  "workerPeerParties sha s c =
     andThen (map_res (peer_party sha s) (c_inputs c)) (\<lambda>ps.
     if MAX_PARTIES < length ps \<or> \<not> unique_by snd ps
        \<or> (\<exists>p \<in> set (c_members c). \<not> (\<exists>i \<in> set (c_inputs c). map_option w_owner (find_work s (sel_work_id i)) = Some p))
     then fail ''PEER_OPERATION_FORBIDDEN'' else Inr ps)"

definition sameSet :: "string list \<Rightarrow> string list \<Rightarrow> bool" where
  "sameSet xs ys = (length xs = length ys \<and> set xs \<subseteq> set ys)"

section \<open>Retained proposals\<close>

definition source_json :: "peer_source \<Rightarrow> jval" where
  "source_json s = JObj [(''work_id'', JStr (ps_work_id s)), (''work_revision'', jnat (ps_work_revision s)),
     (''input_oid'', JStr (ps_input_oid s)), (''selected_commit_oid'', JStr (ps_selected_oid s))]"

definition samePeerEvidence :: "(string \<Rightarrow> string) \<Rightarrow> peer_base \<Rightarrow> peer_base \<Rightarrow> bool" where
  "samePeerEvidence sha l r =
     (pb_case_id l = pb_case_id r \<and> pb_case_revision l = pb_case_revision r \<and> pb_case_generation l = pb_case_generation r
    \<and> pb_evidence_id l = pb_evidence_id r \<and> pb_evidence_revision l = pb_evidence_revision r
    \<and> canonical_hash sha (jlist source_json (pb_sources l)) = canonical_hash sha (jlist source_json (pb_sources r))
    \<and> canonical_hash sha (jlist region_json (pb_scope l)) = canonical_hash sha (jlist region_json (pb_scope r)))"

abbreviation base_of :: "'a peer_base_scheme \<Rightarrow> peer_base" where
  "base_of \<equiv> peer_base.truncate"

fun proposal_in :: "peer_record option \<Rightarrow> peer_proposal option" where
  "proposal_in (Some (Proposal p)) = Some p"
| "proposal_in _ = None"

fun application_in :: "peer_record option \<Rightarrow> peer_application option" where
  "application_in (Some (Application a)) = Some a"
| "application_in _ = None"

definition proposal_note :: "(string \<Rightarrow> string) \<Rightarrow> case_rec \<Rightarrow> bool \<Rightarrow> note_rec \<Rightarrow> (note_rec \<times> peer_proposal) option" where
  "proposal_note sha c includeWithdrawn n =
     (if s_kind (n_subject n) \<noteq> SCase \<or> s_id (n_subject n) \<noteq> c_id c \<or> n_kind n \<noteq> Agreement_proposal
         \<or> n_withdrawn n \<and> \<not> includeWithdrawn then None
      else map_option (Pair n) (proposal_in (peer_of sha (n_text n))))"

definition peerProposalNotes :: "(string \<Rightarrow> string) \<Rightarrow> control_state \<Rightarrow> case_rec \<Rightarrow> bool \<Rightarrow> (note_rec \<times> peer_proposal) list" where
  "peerProposalNotes sha s c includeWithdrawn = List.map_filter (proposal_note sha c includeWithdrawn) (cs_notes s)"

definition workerProposalReceipt :: "control_state \<Rightarrow> note_rec \<Rightarrow> receipt option" where
  "workerProposalReceipt s n =
     List.find (\<lambda>r. rc_action r = A_post_note \<and> rc_item_id r = n_id n \<and> starts_with (rc_key r) WORKER_PEER_KEY_PREFIX) (cs_receipts s)"

definition single :: "'a list \<Rightarrow> 'a option" where
  "single xs = (case xs of [x] \<Rightarrow> Some x | _ \<Rightarrow> None)"

definition matchingPredecessor :: "(string \<Rightarrow> string) \<Rightarrow> control_state \<Rightarrow> case_rec \<Rightarrow> peer_proposal \<Rightarrow> (note_rec \<times> peer_proposal) option" where
  "matchingPredecessor sha s c p =
     (if pp_action p \<noteq> Counter_propose \<or> pp_predecessor p = Some (pp_digest p) then None
      else case single (filter (\<lambda>(n, q). Some (pp_digest q) = pp_predecessor p \<and> samePeerEvidence sha (base_of q) (base_of p))
              (peerProposalNotes sha s c True)) of
             None \<Rightarrow> None
           | Some (n, q) \<Rightarrow> if \<not> n_withdrawn n \<and> pp_revision p = pp_revision q + 1 then Some (n, q) else None)"

definition note_revision :: "(string \<Rightarrow> string) \<Rightarrow> note_rec \<Rightarrow> nat" where
  "note_revision sha n = (case proposal_in (peer_of sha (n_text n)) of None \<Rightarrow> 0 | Some p \<Rightarrow> pp_revision p)"

lemma set_map_filter: "y \<in> set (List.map_filter f xs) \<longleftrightarrow> (\<exists>x \<in> set xs. f x = Some y)"
  by (induction xs) (auto simp: List.map_filter_simps split: option.splits)

lemma proposal_in_Some: "proposal_in r = Some q \<longleftrightarrow> r = Some (Proposal q)"
  by (cases r rule: proposal_in.cases) auto

lemma proposal_note_Some:
  "proposal_note sha c b m = Some (n, q) \<longleftrightarrow>
     n = m \<and> s_kind (n_subject m) = SCase \<and> s_id (n_subject m) = c_id c \<and> n_kind m = Agreement_proposal
     \<and> (n_withdrawn m \<longrightarrow> b) \<and> peer_of sha (n_text m) = Some (Proposal q)"
  by (auto simp: proposal_note_def proposal_in_Some)

lemma peerProposalNotes_mem:
  "(n, q) \<in> set (peerProposalNotes sha s c b) \<longleftrightarrow>
     n \<in> set (cs_notes s) \<and> s_kind (n_subject n) = SCase \<and> s_id (n_subject n) = c_id c \<and> n_kind n = Agreement_proposal
      \<and> (n_withdrawn n \<longrightarrow> b) \<and> peer_of sha (n_text n) = Some (Proposal q)"
  unfolding peerProposalNotes_def set_map_filter proposal_note_Some by blast

lemma single_SomeD: "single xs = Some x \<Longrightarrow> xs = [x]"
  by (auto simp: single_def split: list.splits)

lemma matchingPredecessor_SomeD:
  assumes "matchingPredecessor sha s c p = Some (n, q)"
  shows "pp_revision p = pp_revision q + 1 \<and> peer_of sha (n_text n) = Some (Proposal q)
    \<and> Some (pp_digest q) = pp_predecessor p \<and> samePeerEvidence sha (base_of q) (base_of p)
    \<and> \<not> n_withdrawn n \<and> n \<in> set (cs_notes s)"
proof -
  from assms have "single (filter (\<lambda>(n, q). Some (pp_digest q) = pp_predecessor p
      \<and> samePeerEvidence sha (base_of q) (base_of p)) (peerProposalNotes sha s c True)) = Some (n, q)"
    and rev: "\<not> n_withdrawn n \<and> pp_revision p = pp_revision q + 1"
    by (auto simp: matchingPredecessor_def split: if_splits option.splits)
  then have "(n, q) \<in> set (filter (\<lambda>(n, q). Some (pp_digest q) = pp_predecessor p
      \<and> samePeerEvidence sha (base_of q) (base_of p)) (peerProposalNotes sha s c True))"
    by (drule_tac single_SomeD) simp
  with rev show ?thesis by (simp add: peerProposalNotes_mem)
qed

text \<open>A predecessor has a smaller revision, so every walk along predecessors ends.\<close>

lemma matchingPredecessor_decreases:
  "matchingPredecessor sha s c p = Some (n, q) \<Longrightarrow> note_revision sha n < pp_revision p"
  using matchingPredecessor_SomeD [of sha s c p n q] by (simp add: note_revision_def)

section \<open>Worker lineage\<close>

function workerProposalLineage :: "(string \<Rightarrow> string) \<Rightarrow> control_state \<Rightarrow> case_rec \<Rightarrow> note_rec \<Rightarrow> string list \<Rightarrow> bool" where
  "workerProposalLineage sha s c n seen =
     (if n_id n \<in> set seen then False
      else if workerProposalReceipt s n \<noteq> None then True
      else case proposal_in (peer_of sha (n_text n)) of
        None \<Rightarrow> False
      | Some p \<Rightarrow> if pp_action p \<noteq> Counter_propose then False
          else (case matchingPredecessor sha s c p of
                  None \<Rightarrow> False
                | Some (m, q) \<Rightarrow> workerProposalLineage sha s c m (n_id n # seen)))"
  by pat_completeness auto
termination
  by (relation "measure (\<lambda>(sha, s, c, n, seen). note_revision sha n)")
     (auto simp: note_revision_def dest: matchingPredecessor_decreases)

declare workerProposalLineage.simps [simp del]

definition workerProposalCurrent :: "(string \<Rightarrow> string) \<Rightarrow> control_state \<Rightarrow> case_rec \<Rightarrow> note_rec \<Rightarrow> bool" where
  "workerProposalCurrent sha s c n =
     ((case proposal_in (peer_of sha (n_text n)) of
         None \<Rightarrow> True
       | Some p \<Rightarrow> \<not> (pp_action p = Counter_propose
           \<and> (case matchingPredecessor sha s c p of None \<Rightarrow> False | Some (m, q) \<Rightarrow> workerProposalLineage sha s c m [])
           \<and> workerProposalReceipt s n = None))
    \<and> (workerProposalReceipt s n = None
       \<or> (case workerPeerParties sha s c of Inl _ \<Rightarrow> False | Inr ps \<Rightarrow> sameSet (n_parties n) (map snd ps))))"

definition acknowledged :: "(string \<Rightarrow> string) \<Rightarrow> control_state \<Rightarrow> case_rec \<Rightarrow> note_rec \<Rightarrow> bool" where
  "acknowledged sha s c n = (workerProposalCurrent sha s c n \<and> set (n_parties n) \<subseteq> set (n_acknowledged n))"

section \<open>Supersession\<close>

text \<open>
  The inner loop over the candidates for one digest: \<open>None\<close> when an acknowledged
  successor is met, otherwise the notes seen and the digests to follow, last pushed first.
\<close>

fun follow :: "(string \<Rightarrow> string) \<Rightarrow> control_state \<Rightarrow> case_rec \<Rightarrow> string \<Rightarrow> (note_rec \<times> peer_proposal) list
    \<Rightarrow> string list \<Rightarrow> string list \<Rightarrow> (string list \<times> string list) option" where
  "follow sha s c dg [] seen pending = Some (seen, pending)"
| "follow sha s c dg ((n, q) # rest) seen pending =
     (if pp_predecessor q \<noteq> Some dg \<or> pp_digest q = dg \<or> n_id n \<in> set seen then follow sha s c dg rest seen pending
      else if acknowledged sha s c n then None
      else follow sha s c dg rest (n_id n # seen) (pp_digest q # pending))"

definition unseen :: "(note_rec \<times> peer_proposal) list \<Rightarrow> string list \<Rightarrow> nat" where
  "unseen succs seen = card (n_id ` fst ` set succs - set seen)"

lemma follow_measure:
  assumes "follow sha s c dg rest seen pending = Some (seen', pending')" and "set rest \<subseteq> set succs"
  shows "unseen succs seen' + length pending' = unseen succs seen + length pending"
  using assms
proof (induction sha s c dg rest seen pending rule: follow.induct)
  case (2 sha s c dg n q rest seen pending)
  show ?case
  proof (cases "pp_predecessor q \<noteq> Some dg \<or> pp_digest q = dg \<or> n_id n \<in> set seen")
    case False
    let ?ids = "n_id ` fst ` set succs"
    have mem: "n_id n \<in> ?ids - set seen" using 2 False by force
    have "?ids - set (n_id n # seen) = (?ids - set seen) - {n_id n}" by auto
    then have "unseen succs (n_id n # seen) + 1 = unseen succs seen"
      unfolding unseen_def using mem card_Suc_Diff1 [of "?ids - set seen" "n_id n"] by (metis DiffI Suc_eq_plus1 finite_Diff finite_imageI finite_set)
    with 2 False show ?thesis by (auto split: if_splits)
  qed (use 2 in auto)
qed simp

function supersession :: "(string \<Rightarrow> string) \<Rightarrow> control_state \<Rightarrow> case_rec \<Rightarrow> (note_rec \<times> peer_proposal) list
    \<Rightarrow> string list \<Rightarrow> string list \<Rightarrow> bool" where
  "supersession sha s c succs seen [] = False"
| "supersession sha s c succs seen (dg # pending) =
     (case follow sha s c dg succs seen pending of
        None \<Rightarrow> True
      | Some (seen', pending') \<Rightarrow> supersession sha s c succs seen' pending')"
  by pat_completeness auto
termination
proof (relation "measure (\<lambda>(sha, s, c, succs, seen, pending). unseen succs seen + length pending)", goal_cases)
  case (2 sha s c succs seen dg pending x seen' pending')
  then show ?case using follow_measure [of sha s c dg succs seen pending seen' pending' succs] by (cases x) simp
qed simp

definition peerProposalSuperseded :: "(string \<Rightarrow> string) \<Rightarrow> control_state \<Rightarrow> case_rec \<Rightarrow> peer_proposal \<Rightarrow> string option \<Rightarrow> bool" where
  "peerProposalSuperseded sha s c p ignored =
     supersession sha s c
       (filter (\<lambda>(n, q). Some (n_id n) \<noteq> ignored \<and> samePeerEvidence sha (base_of q) (base_of p)) (peerProposalNotes sha s c False))
       [] [pp_digest p]"

definition matchingProposal :: "(string \<Rightarrow> string) \<Rightarrow> control_state \<Rightarrow> case_rec \<Rightarrow> peer_application \<Rightarrow> (note_rec \<times> peer_proposal) option" where
  "matchingProposal sha s c a =
     (case single (filter (\<lambda>(n, q). pp_digest q = pa_proposal_digest a \<and> samePeerEvidence sha (base_of q) (base_of a))
         (peerProposalNotes sha s c True)) of
        None \<Rightarrow> None
      | Some (n, q) \<Rightarrow> if \<not> n_withdrawn n \<and> acknowledged sha s c n \<and> \<not> peerProposalSuperseded sha s c q None
          then Some (n, q) else None)"

section \<open>Currency\<close>

lemma matchingProposal_SomeD:
  assumes "matchingProposal sha s c a = Some (n, q)"
  shows "pp_digest q = pa_proposal_digest a \<and> samePeerEvidence sha (base_of q) (base_of a)
    \<and> peer_of sha (n_text n) = Some (Proposal q) \<and> n \<in> set (cs_notes s) \<and> \<not> n_withdrawn n
    \<and> acknowledged sha s c n \<and> \<not> peerProposalSuperseded sha s c q None"
proof -
  from assms have "single (filter (\<lambda>(n, q). pp_digest q = pa_proposal_digest a
      \<and> samePeerEvidence sha (base_of q) (base_of a)) (peerProposalNotes sha s c True)) = Some (n, q)"
    and fin: "\<not> n_withdrawn n \<and> acknowledged sha s c n \<and> \<not> peerProposalSuperseded sha s c q None"
    by (auto simp: matchingProposal_def split: if_splits option.splits)
  then have "(n, q) \<in> set (filter (\<lambda>(n, q). pp_digest q = pa_proposal_digest a
      \<and> samePeerEvidence sha (base_of q) (base_of a)) (peerProposalNotes sha s c True))"
    by (drule_tac single_SomeD) simp
  with fin show ?thesis by (simp add: peerProposalNotes_mem)
qed

text \<open>The application notes of a case that are applied and carry the named digest.\<close>

definition application_note :: "(string \<Rightarrow> string) \<Rightarrow> case_rec \<Rightarrow> note_rec \<Rightarrow> (note_rec \<times> peer_application) option" where
  "application_note sha c n =
     (if s_kind (n_subject n) \<noteq> SCase \<or> s_id (n_subject n) \<noteq> c_id c \<or> n_kind n \<noteq> Resolution_update \<or> n_withdrawn n then None
      else map_option (Pair n) (application_in (peer_of sha (n_text n))))"

definition source_current :: "control_state \<Rightarrow> case_rec \<Rightarrow> peer_source \<Rightarrow> bool" where
  "source_current s c x =
     (case (find_work s (ps_work_id x), List.find (\<lambda>i. sel_work_id i = ps_work_id x) (c_inputs c)) of
        (Some w, Some i) \<Rightarrow> w_revision w = ps_work_revision x \<and> w_input_oid w = ps_input_oid x
          \<and> sel_commit_oid i = ps_selected_oid x
      | _ \<Rightarrow> False)"

text \<open>What is asked of every kind of record: its note, its case and its sources.\<close>

definition record_context :: "control_state \<Rightarrow> note_rec \<Rightarrow> peer_base \<Rightarrow> note_kind \<Rightarrow> case_rec option" where
  "record_context s n b nk =
     (if n_withdrawn n \<or> s_kind (n_subject n) \<noteq> SCase \<or> s_id (n_subject n) \<noteq> pb_case_id b \<or> n_kind n \<noteq> nk then None
      else case find_case s (pb_case_id b) of
        None \<Rightarrow> None
      | Some c \<Rightarrow> if c_state c = Active \<and> c_revision c = pb_case_revision b \<and> c_generation c = pb_case_generation b
          then Some c else None)"

definition sources_current :: "control_state \<Rightarrow> case_rec \<Rightarrow> peer_base \<Rightarrow> bool" where
  "sources_current s c b =
     (list_all (source_current s c) (pb_sources b) \<and> length (pb_sources b) = length (c_inputs c))"

function proposal_current :: "(string \<Rightarrow> string) \<Rightarrow> control_state \<Rightarrow> note_rec \<Rightarrow> peer_proposal \<Rightarrow> string option \<Rightarrow> bool" where
  "proposal_current sha s n p ignored =
     (case record_context s n (base_of p) Agreement_proposal of
        None \<Rightarrow> False
      | Some c \<Rightarrow>
          workerProposalCurrent sha s c n \<and> \<not> peerProposalSuperseded sha s c p ignored \<and> sources_current s c (base_of p)
        \<and> (if pp_action p = Counter_propose
           then (case matchingPredecessor sha s c p of
                   None \<Rightarrow> False
                 | Some (m, q) \<Rightarrow> proposal_current sha s m q (Some (n_id n)))
           else True))"
  by pat_completeness auto
termination
  by (relation "measure (\<lambda>(sha, s, n, p, ignored). pp_revision p)") (auto dest!: matchingPredecessor_SomeD)

declare proposal_current.simps [simp del]

definition application_current :: "(string \<Rightarrow> string) \<Rightarrow> control_state \<Rightarrow> note_rec \<Rightarrow> peer_application \<Rightarrow> bool" where
  "application_current sha s n a =
     (case record_context s n (base_of a) Resolution_update of
        None \<Rightarrow> False
      | Some c \<Rightarrow> sources_current s c (base_of a)
        \<and> (case matchingProposal sha s c a of
             None \<Rightarrow> False
           | Some (m, q) \<Rightarrow> samePeerEvidence sha (base_of q) (base_of a) \<and> proposal_current sha s m q None))"

definition matchingAppliedApplication :: "(string \<Rightarrow> string) \<Rightarrow> control_state \<Rightarrow> case_rec \<Rightarrow> peer_verification
    \<Rightarrow> (note_rec \<times> peer_application) option" where
  "matchingAppliedApplication sha s c v =
     List.find (\<lambda>(n, a). pa_digest a = pv_application_digest v \<and> pa_status a = Applied
         \<and> samePeerEvidence sha (base_of a) (base_of v) \<and> application_current sha s n a)
       (List.map_filter (application_note sha c) (cs_notes s))"

text \<open>\<open>peerRecordCurrent\<close>, by the kind of the record.\<close>

fun peerRecordCurrent :: "(string \<Rightarrow> string) \<Rightarrow> control_state \<Rightarrow> note_rec \<Rightarrow> peer_record \<Rightarrow> string option \<Rightarrow> bool" where
  "peerRecordCurrent sha s n (Proposal p) ignored = proposal_current sha s n p ignored"
| "peerRecordCurrent sha s n (Application a) ignored = application_current sha s n a"
| "peerRecordCurrent sha s n (Verification v) ignored =
     (case record_context s n (base_of v) Resolution_update of
        None \<Rightarrow> False
      | Some c \<Rightarrow> sources_current s c (base_of v) \<and> matchingAppliedApplication sha s c v \<noteq> None)"

definition workerConsentNote :: "(string \<Rightarrow> string) \<Rightarrow> control_state \<Rightarrow> case_rec \<Rightarrow> peer_record \<Rightarrow> note_rec option \<Rightarrow> note_rec option" where
  "workerConsentNote sha s c r n =
     (let worker_note = (\<lambda>a. case matchingProposal sha s c a of
            None \<Rightarrow> None
          | Some (m, q) \<Rightarrow> if workerProposalReceipt s m \<noteq> None then Some m else None)
      in case r of
        Proposal _ \<Rightarrow> Option.bind n (\<lambda>x. if workerProposalReceipt s x \<noteq> None then Some x else None)
      | Application a \<Rightarrow> worker_note a
      | Verification v \<Rightarrow> (case matchingAppliedApplication sha s c v of None \<Rightarrow> None | Some (m, a) \<Rightarrow> worker_note a))"

section \<open>Posting and acknowledging records\<close>

abbreviation stale_revision :: "'a res" where "stale_revision \<equiv> fail ''COORDINATION_STALE_REVISION''"

definition assertPeerResolutionSources :: "(string \<Rightarrow> string) \<Rightarrow> control_state \<Rightarrow> string \<Rightarrow> case_rec \<Rightarrow> peer_source list \<Rightarrow> unit res" where
  "assertPeerResolutionSources sha s p c srcs =
     andThen (peer_check (length srcs = length (c_inputs c))) (\<lambda>_.
     each_res (\<lambda>x.
       case List.find (\<lambda>i. sel_work_id i = ps_work_id x) (c_inputs c) of
         None \<Rightarrow> peer_invalid
       | Some i \<Rightarrow>
           andThen (visibleWork sha s p (ps_work_id x)) (\<lambda>w.
           if ps_work_revision x \<noteq> w_revision w \<or> ps_input_oid x \<noteq> w_input_oid w \<or> ps_selected_oid x \<noteq> sel_commit_oid i
           then stale_revision else Inr ())) srcs)"

definition post_proposal :: "(string \<Rightarrow> string) \<Rightarrow> control_state \<Rightarrow> string \<Rightarrow> string list \<Rightarrow> case_rec \<Rightarrow> peer_proposal \<Rightarrow> bool \<Rightarrow> unit res" where
  "post_proposal sha s p parties c r worker =
     (let same = (\<lambda>q. samePeerEvidence sha (base_of q) (base_of r)) in
     andThen (peer_check (sameSet (pp_participants r) (c_members c) \<and> sameSet parties (c_members c) \<and> p \<in> set (pp_participants r))) (\<lambda>_.
     andThen (assertPeerResolutionSources sha s p c (pb_sources r)) (\<lambda>_.
     andThen (peer_check (\<not> (\<exists>(n, q) \<in> set (peerProposalNotes sha s c True). pp_digest q = pp_digest r \<and> same q))) (\<lambda>_.
     if pp_action r \<noteq> Counter_propose then Inr ()
     else case matchingPredecessor sha s c r of
            None \<Rightarrow> peer_invalid
          | Some (m, q) \<Rightarrow>
              andThen (peer_check (proposal_current sha s m q None)) (\<lambda>_.
              andThen (guard_fail (\<not> worker \<and> workerProposalLineage sha s c m []) ''COORDINATION_FORBIDDEN'') (\<lambda>_.
              peer_check (\<not> (\<exists>(n, x) \<in> set (peerProposalNotes sha s c False). pp_predecessor x = pp_predecessor r \<and> same x))))))))"

definition post_outcome :: "(string \<Rightarrow> string) \<Rightarrow> control_state \<Rightarrow> case_rec \<Rightarrow> peer_record \<Rightarrow> unit res" where
  "post_outcome sha s c r =
     (case r of
        Application a \<Rightarrow>
          (case matchingProposal sha s c a of
             None \<Rightarrow> fail ''COORDINATION_NOT_ACKNOWLEDGED''
           | Some (m, q) \<Rightarrow> guard_fail (\<not> (samePeerEvidence sha (base_of q) (base_of a) \<and> proposal_current sha s m q None))
               ''COORDINATION_NOT_ACKNOWLEDGED'')
      | Verification v \<Rightarrow> guard_fail (matchingAppliedApplication sha s c v = None) ''COORDINATION_NOT_ACKNOWLEDGED''
      | Proposal _ \<Rightarrow> Inr ())"

definition record_note_kind :: "peer_record \<Rightarrow> note_kind \<Rightarrow> bool" where
  "record_note_kind r nk = (case r of Proposal _ \<Rightarrow> nk = Agreement_proposal | _ \<Rightarrow> nk = Resolution_update)"

definition assertPeerResolutionPost :: "(string \<Rightarrow> string) \<Rightarrow> control_state \<Rightarrow> string \<Rightarrow> subject \<Rightarrow> note_kind \<Rightarrow> string list
    \<Rightarrow> peer_record \<Rightarrow> bool \<Rightarrow> unit res" where
  "assertPeerResolutionPost sha s p sub nk parties r worker =
     (let b = peer_base_of r in
     andThen (peer_check (record_note_kind r nk)) (\<lambda>_.
     andThen (peer_check (s_kind sub = SCase \<and> pb_case_id b = s_id sub)) (\<lambda>_.
     andThen (visibleCase sha s p (s_id sub)) (\<lambda>c.
     andThen (guard_fail (c_state c \<noteq> Active) ''COORDINATION_CASE_CLOSED'') (\<lambda>_.
     andThen (guard_fail (pb_case_revision b \<noteq> c_revision c \<or> pb_case_generation b \<noteq> c_generation c) ''COORDINATION_STALE_REVISION'') (\<lambda>_.
     case r of
       Proposal q \<Rightarrow> post_proposal sha s p parties c q worker
     | _ \<Rightarrow> if p \<noteq> c_lead c then fail ''COORDINATION_FORBIDDEN''
            else andThen (assertPeerResolutionSources sha s p c (pb_sources b)) (\<lambda>_. post_outcome sha s c r)))))))"

definition assertPeerResolutionAcknowledgment :: "(string \<Rightarrow> string) \<Rightarrow> control_state \<Rightarrow> note_rec \<Rightarrow> peer_record \<Rightarrow> bool \<Rightarrow> unit res" where
  "assertPeerResolutionAcknowledgment sha s n r worker =
     (case r of
        Proposal p \<Rightarrow>
          (case find_case s (pb_case_id p) of
             None \<Rightarrow> stale_revision
           | Some c \<Rightarrow>
               andThen (guard_fail (c_state c \<noteq> Active \<or> c_revision c \<noteq> pb_case_revision p \<or> c_generation c \<noteq> pb_case_generation p)
                 ''COORDINATION_STALE_REVISION'') (\<lambda>_.
               andThen (guard_fail (peerProposalSuperseded sha s c p None) ''COORDINATION_STALE_REVISION'') (\<lambda>_.
               andThen (guard_fail (\<not> list_all (source_current s c) (pb_sources p)) ''COORDINATION_STALE_REVISION'') (\<lambda>_.
               andThen (guard_fail (pp_action p = Counter_propose \<and> \<not> proposal_current sha s n p None) ''COORDINATION_STALE_REVISION'') (\<lambda>_.
               andThen (if worker then map_sum id (map snd) (workerPeerParties sha s c) else Inr (pp_participants p)) (\<lambda>expected.
               peer_check (sameSet (n_parties n) expected)))))))
      | _ \<Rightarrow> Inr ())"

end
