(* ===== verification/Control_Apply.thy ===== *)
theory Control_Apply
  imports Control_Transition Peer_Lineage
begin

text \<open>
  The effect of one accepted command on the coordination record
  (src/src/coordination/control.ts, lines 1838 to 2031): ownership checks, \<open>apply\<close>,
  \<open>applyRecovery\<close>, region overlap and the capacity check. The code changes the object
  that \<open>find\<close> returned in place; the model updates the first element that matches. A new
  identity of \<open>randomUUID\<close> is the argument \<open>fresh\<close>.
\<close>

section \<open>Ownership\<close>

definition ownWork :: "(string \<Rightarrow> string) \<Rightarrow> control_state \<Rightarrow> string \<Rightarrow> string \<Rightarrow> nat \<Rightarrow> work res" where
  "ownWork sha s p i rv =
     andThen (visibleWork sha s p i) (\<lambda>w.
     andThen (guard_fail (w_owner w \<noteq> p) ''COORDINATION_FORBIDDEN'') (\<lambda>_.
     andThen (guard_fail (w_revision w \<noteq> rv) ''COORDINATION_STALE_REVISION'') (\<lambda>_. Inr w)))"

definition ownCase :: "control_state \<Rightarrow> string \<Rightarrow> string \<Rightarrow> nat \<Rightarrow> nat \<Rightarrow> case_rec res" where
  "ownCase s p i rv g =
     (case find_case s i of
        None \<Rightarrow> unavailable
      | Some c \<Rightarrow>
          if p \<notin> set (c_members c) then unavailable
          else andThen (guard_fail (c_lead c \<noteq> p) ''COORDINATION_FORBIDDEN'') (\<lambda>_.
               andThen (guard_fail (c_generation c \<noteq> g) ''COORDINATION_STALE_GENERATION'') (\<lambda>_.
               andThen (guard_fail (c_revision c \<noteq> rv) ''COORDINATION_STALE_REVISION'') (\<lambda>_.
               andThen (guard_fail (c_state c \<noteq> Active) ''COORDINATION_CASE_CLOSED'') (\<lambda>_. Inr c)))))"

definition idle :: "case_rec \<Rightarrow> unit res" where
  "idle c = guard_fail (c_external_effect c \<noteq> Not_started) ''COORDINATION_EXTERNAL_EFFECT_UNRESOLVED''"

section \<open>Changes to the record\<close>

abbreviation work_subject :: "string \<Rightarrow> subject" where "work_subject i \<equiv> \<lparr>s_kind = SWork, s_id = i\<rparr>"
abbreviation case_subject :: "string \<Rightarrow> subject" where "case_subject i \<equiv> \<lparr>s_kind = SCase, s_id = i\<rparr>"

definition add_work :: "work \<Rightarrow> control_state \<Rightarrow> control_state" where
  "add_work w s = s\<lparr>cs_works := cs_works s @ [w]\<rparr>"
definition add_case :: "case_rec \<Rightarrow> control_state \<Rightarrow> control_state" where
  "add_case c s = s\<lparr>cs_cases := cs_cases s @ [c]\<rparr>"
definition add_note :: "note_rec \<Rightarrow> control_state \<Rightarrow> control_state" where
  "add_note n s = s\<lparr>cs_notes := cs_notes s @ [n]\<rparr>"
definition change_work :: "string \<Rightarrow> (work \<Rightarrow> work) \<Rightarrow> control_state \<Rightarrow> control_state" where
  "change_work i f s = s\<lparr>cs_works := update_first (\<lambda>w. w_id w = i) f (cs_works s)\<rparr>"
definition change_case :: "string \<Rightarrow> (case_rec \<Rightarrow> case_rec) \<Rightarrow> control_state \<Rightarrow> control_state" where
  "change_case i f s = s\<lparr>cs_cases := update_first (\<lambda>c. c_id c = i) f (cs_cases s)\<rparr>"
definition change_note :: "string \<Rightarrow> (note_rec \<Rightarrow> note_rec) \<Rightarrow> control_state \<Rightarrow> control_state" where
  "change_note i f s = s\<lparr>cs_notes := update_first (\<lambda>n. n_id n = i) f (cs_notes s)\<rparr>"

definition new_work :: "string \<Rightarrow> string \<Rightarrow> string \<Rightarrow> string \<Rightarrow> object_format \<Rightarrow> string \<Rightarrow> region list \<Rightarrow> string list
    \<Rightarrow> managed_work option \<Rightarrow> work" where
  "new_work i p ws oid fmt intent areas readers m =
     \<lparr>w_id = i, w_owner = p, w_workspace_id = ws, w_revision = 1, w_state = Active, w_input_oid = oid,
      w_object_format = fmt, w_intent = intent, w_areas = areas, w_readers = readers, w_managed = m,
      w_source_grants = None, w_source_watches = None\<rparr>"

definition workspace_held :: "control_state \<Rightarrow> string \<Rightarrow> bool" where
  "workspace_held s ws = (\<exists>w \<in> set (cs_works s). w_state w = Active \<and> w_workspace_id w = ws)"

definition bump_work :: "work \<Rightarrow> work" where "bump_work w = w\<lparr>w_revision := w_revision w + 1\<rparr>"
definition bump_case :: "case_rec \<Rightarrow> case_rec" where "bump_case c = c\<lparr>c_revision := c_revision c + 1\<rparr>"

definition share_change :: "string list \<Rightarrow> work \<Rightarrow> work" where
  "share_change readers w = bump_work ((revoked w)\<lparr>w_readers := readers\<rparr>)"

definition grant_change :: "(string \<times> grant_scope) list \<Rightarrow> work \<Rightarrow> work" where
  "grant_change rs w =
     bump_work (w\<lparr>w_source_grants := Some (map (\<lambda>(r, sc). \<lparr>g_recipient = r, g_scope = sc, g_work_revision = w_revision w + 1\<rparr>) rs),
                  w_source_watches := map_option (\<lambda>_. []) (w_source_watches w)\<rparr>)"

definition watch_change :: "watcher list \<Rightarrow> work \<Rightarrow> work" where
  "watch_change ws w =
     bump_work (w\<lparr>w_source_watches := Some (map (\<lambda>x. watcher.extend x \<lparr>sw_work_revision = w_revision w + 1\<rparr>) ws),
                  w_source_grants := map_option (map (\<lambda>g. g\<lparr>g_work_revision := w_revision w + 1\<rparr>)) (w_source_grants w)\<rparr>)"

definition close_change :: "work \<Rightarrow> work" where
  "close_change w = bump_work ((revoked w)\<lparr>w_state := Closed\<rparr>)"

type_synonym applied = "control_state \<times> subject \<times> string"

definition changed_work :: "control_state \<Rightarrow> string \<Rightarrow> (work \<Rightarrow> work) \<Rightarrow> applied res" where
  "changed_work s i f = Inr (change_work i f s, work_subject i, i)"

definition changed_case :: "control_state \<Rightarrow> string \<Rightarrow> (case_rec \<Rightarrow> case_rec) \<Rightarrow> applied res" where
  "changed_case s i f = Inr (change_case i (\<lambda>c. bump_case (f c)) s, case_subject i, i)"

section \<open>Works\<close>

fun apply_work :: "(string \<Rightarrow> string) \<Rightarrow> control_state \<Rightarrow> string \<Rightarrow> command \<Rightarrow> string \<Rightarrow> applied res" where
  "apply_work sha s p (Register_task_work k ws oid fmt intent areas m) fresh =
     (if m_task_id m \<in> w_id ` set (cs_works s) then fail ''COORDINATION_TASK_REGISTERED''
      else if workspace_held s ws then fail ''COORDINATION_WORKSPACE_HELD''
      else Inr (add_work (new_work (m_task_id m) p ws oid fmt intent areas [] (Some m)) s, work_subject (m_task_id m), m_task_id m))"
| "apply_work sha s p (Register_work k ws oid fmt intent areas readers) fresh =
     (if workspace_held s ws then fail ''COORDINATION_WORKSPACE_HELD''
      else if p \<in> set readers then invalid
      else Inr (add_work (new_work fresh p ws oid fmt intent areas readers None) s, work_subject fresh, fresh))"
| "apply_work sha s p (Share_work k i rv readers) fresh =
     andThen (ownWork sha s p i rv) (\<lambda>w.
     andThen (guard_fail (p \<in> set readers) INVALID) (\<lambda>_. changed_work s i (share_change readers)))"
| "apply_work sha s p (Grant_source k i rv rs) fresh =
     andThen (ownWork sha s p i rv) (\<lambda>w.
     andThen (guard_fail (w_state w \<noteq> Active) ''COORDINATION_WORK_CLOSED'') (\<lambda>_.
     andThen (guard_fail (p \<in> fst ` set rs) INVALID) (\<lambda>_. changed_work s i (grant_change rs))))"
| "apply_work sha s p (Watch_source k i rv ws) fresh =
     andThen (ownWork sha s p i rv) (\<lambda>w.
     andThen (guard_fail (w_state w \<noteq> Active) ''COORDINATION_WORK_CLOSED'') (\<lambda>_.
     andThen (guard_fail (\<exists>x \<in> set ws. wa_recipient x \<noteq> p
         \<and> \<not> (\<exists>g \<in> set (work_grants w). g_recipient g = wa_recipient x \<and> g_work_revision g = w_revision w)) ''COORDINATION_FORBIDDEN'') (\<lambda>_.
     andThen (guard_fail (MAX_REGIONS < sum_list (map (\<lambda>x. length (wa_regions x)) ws)) INVALID) (\<lambda>_.
     changed_work s i (watch_change ws)))))"
| "apply_work sha s p (Close_work k i rv) fresh =
     andThen (ownWork sha s p i rv) (\<lambda>w.
     andThen (guard_fail (w_state w = Closed) ''COORDINATION_WORK_CLOSED'') (\<lambda>_. changed_work s i close_change))"
| "apply_work sha s p cmd fresh = Inl JsError"

section \<open>Notes\<close>

definition note_readers :: "control_state \<Rightarrow> subject \<Rightarrow> string list option" where
  "note_readers s x =
     (case s_kind x of
        SCase \<Rightarrow> (case find_case s (s_id x) of None \<Rightarrow> None
          | Some c \<Rightarrow> if c_observed_origin c \<noteq> None then Some (c_members c) else None)
      | SWork \<Rightarrow> (case find_work s (s_id x) of None \<Rightarrow> None | Some w \<Rightarrow> Some (uniq (w_owner w # w_readers w))))"

definition note_refs :: "control_state \<Rightarrow> subject \<Rightarrow> string list" where
  "note_refs s x =
     (case s_kind x of SWork \<Rightarrow> [s_id x]
      | SCase \<Rightarrow> (case find_case s (s_id x) of None \<Rightarrow> [] | Some c \<Rightarrow> map sel_work_id (c_inputs c)))"

definition new_note :: "control_state \<Rightarrow> string \<Rightarrow> string \<Rightarrow> subject \<Rightarrow> note_kind \<Rightarrow> string \<Rightarrow> string list \<Rightarrow> note_rec" where
  "new_note s i p x nk t parties =
     \<lparr>n_id = i, n_subject = x, n_author = p, n_kind = nk, n_text = t, n_work_refs = note_refs s x,
      n_parties = parties, n_acknowledged = [], n_withdrawn = False, n_readers = note_readers s x\<rparr>"

definition find_note :: "control_state \<Rightarrow> string \<Rightarrow> note_rec option" where
  "find_note s i = List.find (\<lambda>n. n_id n = i) (cs_notes s)"

definition ack_change :: "string \<Rightarrow> note_rec \<Rightarrow> note_rec" where
  "ack_change p n = n\<lparr>n_acknowledged := n_acknowledged n @ [p]\<rparr>"

definition withdraw_change :: "note_rec \<Rightarrow> note_rec" where
  "withdraw_change n = n\<lparr>n_withdrawn := True\<rparr>"

definition acknowledge :: "(string \<Rightarrow> string) \<Rightarrow> control_state \<Rightarrow> string \<Rightarrow> note_rec \<Rightarrow> applied res" where
  "acknowledge sha s p n =
     andThen (requireNoteAccess sha s p n) (\<lambda>_.
     andThen (guard_fail (n_withdrawn n) ''COORDINATION_NOTE_WITHDRAWN'') (\<lambda>_.
     andThen (guard_fail (n_kind n \<noteq> Agreement_proposal \<or> p \<notin> set (n_parties n)) ''COORDINATION_FORBIDDEN'') (\<lambda>_.
     andThen (case peer_of sha (n_text n) of None \<Rightarrow> Inr ()
              | Some r \<Rightarrow> assertPeerResolutionAcknowledgment sha s n r False) (\<lambda>_.
     andThen (guard_fail (p \<in> set (n_acknowledged n)) ''COORDINATION_ALREADY_ACKNOWLEDGED'') (\<lambda>_.
     Inr (change_note (n_id n) (ack_change p) s, n_subject n, n_id n))))))"

definition withdraw :: "(string \<Rightarrow> string) \<Rightarrow> control_state \<Rightarrow> string \<Rightarrow> note_rec \<Rightarrow> applied res" where
  "withdraw sha s p n =
     (if n_author n = p then
        andThen (guard_fail (n_withdrawn n) ''COORDINATION_NOTE_WITHDRAWN'') (\<lambda>_.
        Inr (change_note (n_id n) withdraw_change s, n_subject n, n_id n))
      else andThen (requireNoteAccess sha s p n) (\<lambda>_. fail ''COORDINATION_FORBIDDEN''))"

fun apply_note :: "(string \<Rightarrow> string) \<Rightarrow> control_state \<Rightarrow> string \<Rightarrow> command \<Rightarrow> string \<Rightarrow> applied res" where
  "apply_note sha s p (Post_note k x nk t parties) fresh =
     andThen (requireSubject sha s p x) (\<lambda>_.
     andThen (each_res (\<lambda>q. requireSubject sha s q x) parties) (\<lambda>_.
     Inr (add_note (new_note s fresh p x nk t parties) s, x, fresh)))"
| "apply_note sha s p (Ack_note k i) fresh =
     (case find_note s i of None \<Rightarrow> unavailable | Some n \<Rightarrow> acknowledge sha s p n)"
| "apply_note sha s p (Withdraw_note k i) fresh =
     (case find_note s i of None \<Rightarrow> unavailable | Some n \<Rightarrow> withdraw sha s p n)"
| "apply_note sha s p cmd fresh = Inl JsError"

section \<open>Cases\<close>

definition next_generation :: "control_state \<Rightarrow> string \<Rightarrow> nat" where
  "next_generation s t = foldr max (map c_generation (filter (\<lambda>c. c_target c = t) (cs_cases s))) 0 + 1"

definition new_case :: "control_state \<Rightarrow> string \<Rightarrow> string \<Rightarrow> string \<Rightarrow> string list \<Rightarrow> bool \<Rightarrow> case_rec" where
  "new_case s i p t ms observed =
     \<lparr>c_id = i, c_target = t, c_lead = p, c_members = uniq (p # ms), c_revision = 1, c_generation = next_generation s t,
      c_state = Active, c_external_effect = Not_started, c_target_oid = None, c_inputs = [],
      c_observed_origin = (if observed then Some Pending_origin else None), c_delivery_pending = None,
      c_delivery_observed = None, c_visibility_delta = None\<rparr>"

definition select_change :: "string \<Rightarrow> selection list \<Rightarrow> bool \<Rightarrow> case_rec \<Rightarrow> case_rec" where
  "select_change oid ins observed c =
     c\<lparr>c_inputs := ins, c_target_oid := Some oid,
       c_observed_origin := (if observed then Some Selected_origin else c_observed_origin c)\<rparr>"

definition transfer_change :: "string \<Rightarrow> case_rec \<Rightarrow> case_rec" where
  "transfer_change p c = c\<lparr>c_lead := p, c_generation := c_generation c + 1\<rparr>"

fun apply_case :: "(string \<Rightarrow> string) \<Rightarrow> control_state \<Rightarrow> string \<Rightarrow> command \<Rightarrow> bool \<Rightarrow> string \<Rightarrow> applied res" where
  "apply_case sha s p (Claim_target k t ms) observed fresh =
     (if \<exists>c \<in> set (cs_cases s). c_target c = t \<and> c_state c = Active then fail ''COORDINATION_TARGET_HELD''
      else Inr (add_case (new_case s fresh p t ms observed) s, case_subject fresh, fresh))"
| "apply_case sha s p (Select_inputs k i rv g oid ins) observed fresh =
     andThen (ownCase s p i rv g) (\<lambda>c. andThen (idle c) (\<lambda>_.
     andThen (guard_fail (c_observed_origin c = Some Pending_origin \<and> \<not> observed
         \<or> observed \<and> c_observed_origin c \<noteq> Some Pending_origin) ''COORDINATION_OBSERVED_ORIGIN_UNAVAILABLE'') (\<lambda>_.
     andThen (each_res (\<lambda>x. each_res (\<lambda>q. map_sum id (\<lambda>_. ()) (visibleWork sha s q (sel_work_id x))) (c_members c)) ins) (\<lambda>_.
     changed_case s i (select_change oid ins observed)))))"
| "apply_case sha s p (Transfer_case k i rv g q) observed fresh =
     andThen (ownCase s p i rv g) (\<lambda>c. andThen (idle c) (\<lambda>_.
     andThen (guard_fail (q = p \<or> q \<notin> set (c_members c)) ''COORDINATION_FORBIDDEN'') (\<lambda>_.
     andThen (visibleCase sha s q (c_id c)) (\<lambda>_.
     changed_case s i (transfer_change q)))))"
| "apply_case sha s p (Begin_external_integration k i rv g) observed fresh =
     andThen (ownCase s p i rv g) (\<lambda>c. andThen (idle c) (\<lambda>_.
     andThen (visibleCase sha s p (c_id c)) (\<lambda>_.
     andThen (guard_fail (c_target_oid c = None \<or> c_inputs c = []) ''COORDINATION_INPUTS_REQUIRED'') (\<lambda>_.
     changed_case s i (\<lambda>c. c\<lparr>c_external_effect := Possible\<rparr>)))))"
| "apply_case sha s p (Record_external_settlement k i rv g) observed fresh =
     andThen (ownCase s p i rv g) (\<lambda>c.
     andThen (guard_fail (c_external_effect c \<noteq> Possible) ''COORDINATION_NO_EXTERNAL_EFFECT'') (\<lambda>_.
     changed_case s i (\<lambda>c. c\<lparr>c_external_effect := Not_started\<rparr>)))"
| "apply_case sha s p (Release_case k i rv g) observed fresh =
     andThen (ownCase s p i rv g) (\<lambda>c. andThen (idle c) (\<lambda>_. changed_case s i (\<lambda>c. c\<lparr>c_state := Closed\<rparr>)))"
| "apply_case sha s p cmd observed fresh = Inl JsError"

text \<open>\<open>apply\<close>: the switch over the kinds of command.\<close>

fun apply_command :: "(string \<Rightarrow> string) \<Rightarrow> control_state \<Rightarrow> string \<Rightarrow> command \<Rightarrow> bool \<Rightarrow> string \<Rightarrow> applied res" where
  "apply_command sha s p (Register_task_work k ws oid fmt intent areas m) observed fresh =
     apply_work sha s p (Register_task_work k ws oid fmt intent areas m) fresh"
| "apply_command sha s p (Register_work k ws oid fmt intent areas readers) observed fresh =
     apply_work sha s p (Register_work k ws oid fmt intent areas readers) fresh"
| "apply_command sha s p (Share_work k i rv readers) observed fresh = apply_work sha s p (Share_work k i rv readers) fresh"
| "apply_command sha s p (Grant_source k i rv rs) observed fresh = apply_work sha s p (Grant_source k i rv rs) fresh"
| "apply_command sha s p (Watch_source k i rv ws) observed fresh = apply_work sha s p (Watch_source k i rv ws) fresh"
| "apply_command sha s p (Close_work k i rv) observed fresh = apply_work sha s p (Close_work k i rv) fresh"
| "apply_command sha s p (Post_note k x nk t ps) observed fresh = apply_note sha s p (Post_note k x nk t ps) fresh"
| "apply_command sha s p (Ack_note k i) observed fresh = apply_note sha s p (Ack_note k i) fresh"
| "apply_command sha s p (Withdraw_note k i) observed fresh = apply_note sha s p (Withdraw_note k i) fresh"
| "apply_command sha s p cmd observed fresh = apply_case sha s p cmd observed fresh"

section \<open>Operator recovery\<close>

definition recover_work :: "recovery_command \<Rightarrow> work \<Rightarrow> work res" where
  "recover_work cmd w =
     (if w_owner w \<noteq> rv_expected_owner cmd \<or> w_revision w \<noteq> rv_expected_revision cmd then stale_revision
      else if w_state w \<noteq> Active then fail ''COORDINATION_WORK_CLOSED''
      else case rv_action cmd of
        Adopt_work _ p \<Rightarrow> if p = w_owner w then invalid
          else Inr (bump_work ((revoked w)\<lparr>w_owner := p, w_readers := filter (\<lambda>q. q \<noteq> p) (w_readers w)\<rparr>))
      | _ \<Rightarrow> Inr (bump_work ((revoked w)\<lparr>w_state := Closed\<rparr>)))"

definition recover_case :: "(string \<Rightarrow> string) \<Rightarrow> control_state \<Rightarrow> recovery_command \<Rightarrow> nat \<Rightarrow> case_rec \<Rightarrow> case_rec res" where
  "recover_case sha s cmd g c =
     (if c_lead c \<noteq> rv_expected_owner cmd \<or> c_revision c \<noteq> rv_expected_revision cmd then stale_revision
      else if c_generation c \<noteq> g then fail ''COORDINATION_STALE_GENERATION''
      else if c_state c \<noteq> Active then fail ''COORDINATION_CASE_CLOSED''
      else case rv_action cmd of
        Settle_case _ _ \<Rightarrow> if c_external_effect c \<noteq> Possible then fail ''COORDINATION_NO_EXTERNAL_EFFECT''
          else Inr (bump_case (c\<lparr>c_external_effect := Not_started\<rparr>))
      | Release_case_rec _ _ \<Rightarrow> andThen (idle c) (\<lambda>_. Inr (bump_case (c\<lparr>c_state := Closed\<rparr>)))
      | Adopt_case _ _ p \<Rightarrow>
          andThen (idle c) (\<lambda>_.
          andThen (guard_fail (p = c_lead c) INVALID) (\<lambda>_.
          andThen (each_res (\<lambda>i. map_sum id (\<lambda>_. ()) (visibleWork sha s p (sel_work_id i))) (c_inputs c)) (\<lambda>_.
          (let ms = uniq (c_members c @ [p]) in
           andThen (guard_fail (MAX_PARTIES < length ms) ''COORDINATION_CAPACITY'') (\<lambda>_.
           Inr (bump_case (c\<lparr>c_members := ms, c_lead := p, c_generation := c_generation c + 1\<rparr>)))))))
      | _ \<Rightarrow> Inl JsError)"

definition applyRecovery :: "(string \<Rightarrow> string) \<Rightarrow> control_state \<Rightarrow> recovery_command \<Rightarrow> control_state res" where
  "applyRecovery sha s cmd =
     (case recovery_work_id (rv_action cmd) of
        Some i \<Rightarrow>
          (case find_work s i of None \<Rightarrow> unavailable
           | Some w \<Rightarrow> andThen (recover_work cmd w) (\<lambda>x. Inr (change_work i (\<lambda>_. x) s)))
      | None \<Rightarrow>
          (case (recovery_case_id (rv_action cmd), recovery_generation (rv_action cmd)) of
             (Some i, Some g) \<Rightarrow>
               (case find_case s i of None \<Rightarrow> unavailable
                | Some c \<Rightarrow> andThen (recover_case sha s cmd g c) (\<lambda>x. Inr (change_case i (\<lambda>_. x) s)))
           | _ \<Rightarrow> Inl JsError))"

section \<open>Overlap and capacity\<close>

definition overlap :: "region \<Rightarrow> region \<Rightarrow> bool" where
  "overlap a b =
     (r_path a = r_path b \<or> r_kind a = RSubtree \<and> starts_with (r_path b) (r_path a @ ''/'')
    \<or> r_kind b = RSubtree \<and> starts_with (r_path a) (r_path b @ ''/''))"

text \<open>The text that is stored: \<open>`${JSON.stringify(state, null, 2)}\n`\<close>.\<close>

definition control_text :: "control_state \<Rightarrow> string" where
  "control_text s = pretty 0 (control_json s) @ [CHR 0x0A]"

definition checkCapacity :: "control_state \<Rightarrow> unit res" where
  "checkCapacity s =
     (let l = cs_limits s; reserved = releaseSlotsRequired s in
      guard_fail (CONTROL_MAX_BYTES < length (control_text s) + reserved * CONTROL_RELEASE_BYTES
        \<or> lim_works l < length (cs_works s) \<or> lim_cases l < length (cs_cases s) \<or> lim_notes l < length (cs_notes s)
        \<or> lim_receipts l < controlReceiptCount s + reserved
        \<or> (\<exists>n \<in> set (cs_notes s). lim_note_bytes l < length (n_text n))) ''COORDINATION_CAPACITY'')"

end
