(* ===== verification/Control_Frame.thy ===== *)
theory Control_Frame
  imports Control_Apply
begin

text \<open>
  What a change of one part of the record leaves intact. The relations the reader checks
  refer from one collection to another; the lemmas say which of them survive when works
  evolve, collections grow and one retained operation is appended.
\<close>

section \<open>Parts of an accepted record\<close>

lemma control_okD:
  assumes "control_ok sha s"
  shows "control_records_ok sha s" "version_features_ok s" "enrollment_ok sha s" "live_unique s"
    "\<And>w. w \<in> set (cs_works s) \<Longrightarrow> work_authority_ok (cs_revision s) w"
    "\<And>c. c \<in> set (cs_cases s) \<Longrightarrow> case_authority_ok s c"
    "\<And>n. n \<in> set (cs_notes s) \<Longrightarrow> note_authority_ok s n"
    "history_ok s" "has_submissions s \<Longrightarrow> submissions_ok s"
  using assms by (simp_all add: control_ok_def control_relations_ok_def)

lemma control_unique:
  assumes "control_ok sha s"
  shows "unique_by w_id (cs_works s)" "unique_by c_id (cs_cases s)" "unique_by n_id (cs_notes s)"
    "unique_by an_id (cs_announcements s)" "unique_by b_task_id (cs_bindings s)"
  using control_okD(1) [OF assms] by (simp_all add: control_records_ok_def list_ok_def)

lemma control_members:
  assumes "control_ok sha s"
  shows "w \<in> set (cs_works s) \<Longrightarrow> work_ok w" "c \<in> set (cs_cases s) \<Longrightarrow> case_ok c"
    "n \<in> set (cs_notes s) \<Longrightarrow> note_ok n" "r \<in> set (cs_receipts s) \<Longrightarrow> receipt_ok r"
    "rr \<in> set (cs_recoveries s) \<Longrightarrow> recovery_receipt_ok sha rr" "e \<in> set (cs_events s) \<Longrightarrow> event_ok e"
    "a \<in> set (cs_announcements s) \<Longrightarrow> announcement_ok a" "b \<in> set (cs_bindings s) \<Longrightarrow> binding_ok sha b"
  using control_okD(1) [OF assms] by (simp_all add: control_records_ok_def list_ok_def)

lemma find_work_iff:
  assumes "control_ok sha s"
  shows "find_work s i = Some w \<longleftrightarrow> w \<in> set (cs_works s) \<and> w_id w = i"
  using control_unique(1) [OF assms] unfolding find_work_def unique_by_def by (rule find_Some_iff_key)

lemma find_case_iff:
  assumes "control_ok sha s"
  shows "find_case s i = Some c \<longleftrightarrow> c \<in> set (cs_cases s) \<and> c_id c = i"
  using control_unique(2) [OF assms] unfolding find_case_def unique_by_def by (rule find_Some_iff_key)

lemma find_note_iff:
  assumes "control_ok sha s"
  shows "find_note s i = Some n \<longleftrightarrow> n \<in> set (cs_notes s) \<and> n_id n = i"
  using control_unique(3) [OF assms] unfolding find_note_def unique_by_def by (rule find_Some_iff_key)

lemma change_work_eq:
  assumes "control_ok sha s"
  shows "change_work i f s = s\<lparr>cs_works := map (\<lambda>w. if w_id w = i then f w else w) (cs_works s)\<rparr>"
  using control_unique(1) [OF assms] by (simp add: change_work_def update_first_map_key unique_by_def)

lemma change_case_eq:
  assumes "control_ok sha s"
  shows "change_case i f s = s\<lparr>cs_cases := map (\<lambda>c. if c_id c = i then f c else c) (cs_cases s)\<rparr>"
  using control_unique(2) [OF assms] by (simp add: change_case_def update_first_map_key unique_by_def)

lemma change_note_eq:
  assumes "control_ok sha s"
  shows "change_note i f s = s\<lparr>cs_notes := map (\<lambda>n. if n_id n = i then f n else n) (cs_notes s)\<rparr>"
  using control_unique(3) [OF assms] by (simp add: change_note_def update_first_map_key unique_by_def)

text \<open>No retained operation is newer than the record.\<close>

lemma revisions_bounded:
  assumes "control_ok sha s" and "x \<in> set (operation_revisions s)"
  shows "x \<le> cs_revision s"
proof -
  have "e \<in> set (cs_events s) \<Longrightarrow> ev_revision e \<le> cs_revision s" for e
    using control_okD(9) [OF assms(1)] control_okD(1) [OF assms(1)]
    by (cases "has_submissions s") (auto simp: submissions_ok_def event_history_ok_def control_records_ok_def)
  then show ?thesis
    using control_okD(8) [OF assms(1)] assms(2)
    by (auto simp: operation_revisions_def history_ok_def receipt_history_ok_def recovery_history_ok_def)
qed

section \<open>Names of operations\<close>

lemma owner_key_inj:
  assumes "owner_key p k = owner_key q l" and "parent_ok p" and "parent_ok q"
  shows "p = q \<and> k = l"
  using assms by (simp add: owner_key_def parent_ok_def hex_of_def)

definition key_unused :: "control_state \<Rightarrow> string \<Rightarrow> string \<Rightarrow> bool" where
  "key_unused s p k =
     (\<not> (\<exists>r \<in> set (cs_receipts s). rc_owner r = p \<and> rc_key r = k)
    \<and> \<not> (\<exists>r \<in> set (cs_recoveries s). rr_operator r = p \<and> rv_operation_key (rr_command r) = k)
    \<and> \<not> (\<exists>e \<in> set (cs_events s). ev_owner e = p \<and> ev_key e = k))"

lemma key_unused_name:
  assumes ok: "control_ok sha s" and p: "parent_ok p" and "key_unused s p k"
  shows "owner_key p k \<notin> set (operation_names s)"
proof
  assume "owner_key p k \<in> set (operation_names s)"
  then consider r where "r \<in> set (cs_receipts s)" "owner_key p k = owner_key (rc_owner r) (rc_key r)"
    | r where "r \<in> set (cs_recoveries s)" "owner_key p k = owner_key (rr_operator r) (rv_operation_key (rr_command r))"
    | e where "e \<in> set (cs_events s)" "owner_key p k = owner_key (ev_owner e) (ev_key e)"
    by (auto simp: operation_names_def)
  then show False
  proof cases
    case 1
    with owner_key_inj [OF 1(2) p] control_members(4) [OF ok 1(1)] assms(3) show ?thesis
      by (auto simp: receipt_ok_def key_unused_def)
  next
    case 2
    with owner_key_inj [OF 2(2) p] control_members(5) [OF ok 2(1)] assms(3) show ?thesis
      by (auto simp: recovery_receipt_ok_def key_unused_def)
  next
    case 3
    with owner_key_inj [OF 3(2) p] control_members(6) [OF ok 3(1)] assms(3) show ?thesis
      by (auto simp: event_ok_def key_unused_def)
  qed
qed

section \<open>Works that evolve\<close>

definition evolves :: "work \<Rightarrow> work \<Rightarrow> bool" where
  "evolves w x = (w_id w = w_id x \<and> w_owner w = w_owner x \<and> w_object_format w = w_object_format x
     \<and> w_managed w = w_managed x \<and> w_revision w \<le> w_revision x)"

definition works_evolve :: "control_state \<Rightarrow> control_state \<Rightarrow> bool" where
  "works_evolve s t = (\<forall>i w. find_work s i = Some w \<longrightarrow> (\<exists>x. find_work t i = Some x \<and> evolves w x))"

lemma works_evolve_same: "cs_works t = cs_works s \<Longrightarrow> works_evolve s t"
  by (simp add: works_evolve_def find_work_def evolves_def)

lemma find_map_upd:
  assumes "\<And>x. key x = i \<Longrightarrow> key (f x) = i"
  shows "List.find (\<lambda>x. key x = j) (map (\<lambda>x. if key x = i then f x else x) xs)
       = map_option (\<lambda>x. if key x = i then f x else x) (List.find (\<lambda>x. key x = j) xs)"
  using assms by (induction xs) auto

lemma works_evolve_change:
  assumes "cs_works t = map (\<lambda>w. if w_id w = i then f w else w) (cs_works s)"
    and "\<And>w. w_id w = i \<Longrightarrow> evolves w (f w)"
  shows "works_evolve s t"
proof -
  have "w_id w = i \<Longrightarrow> w_id (f w) = i" for w using assms(2) [of w] by (simp add: evolves_def)
  then have "find_work t j = map_option (\<lambda>w. if w_id w = i then f w else w) (find_work s j)" for j
    unfolding find_work_def assms(1) by (rule find_map_upd)
  then show ?thesis using assms(2) by (auto simp: works_evolve_def evolves_def)
qed

lemma works_evolve_add: "cs_works t = cs_works s @ ws \<Longrightarrow> works_evolve s t"
  by (auto simp: works_evolve_def find_work_def find_append evolves_def)

lemma works_evolve_find:
  "works_evolve s t \<Longrightarrow> find_work s i = Some w \<Longrightarrow> \<exists>x. find_work t i = Some x \<and> evolves w x"
  by (simp add: works_evolve_def)

lemma delta_authority_mono:
  assumes ev: "works_evolve s t" and d: "delta_authority_ok s c d"
  shows "delta_authority_ok t c d"
proof -
  from d obtain w m where w: "find_work s (vd_work_id d) = Some w" "w_managed w = Some m"
    by (auto simp: delta_authority_ok_def split: option.splits)
  obtain x where x: "find_work t (vd_work_id d) = Some x" "evolves w x"
    using works_evolve_find [OF ev w(1)] by blast
  then have "w_managed x = Some m" using w(2) by (simp add: evolves_def)
  with d w x show ?thesis by (auto simp: delta_authority_ok_def evolves_def)
qed

lemma input_format_mono:
  assumes ev: "works_evolve s t" and i: "input_format_ok s c i"
  shows "input_format_ok t c i"
proof -
  from i obtain w where w: "find_work s (sel_work_id i) = Some w"
    by (auto simp: input_format_ok_def split: option.splits)
  obtain x where x: "find_work t (sel_work_id i) = Some x" "evolves w x"
    using works_evolve_find [OF ev w] by blast
  then have "w_object_format x = w_object_format w" by (simp add: evolves_def)
  with i w x show ?thesis by (simp add: input_format_ok_def split: option.splits)
qed

lemma case_authority_mono:
  assumes "works_evolve s t" and "cs_revision s \<le> cs_revision t" and "case_authority_ok s c"
  shows "case_authority_ok t c"
  using assms(2,3) delta_authority_mono [OF assms(1)] input_format_mono [OF assms(1)]
  unfolding case_authority_ok_def by (auto split: option.splits)

definition ids_grow :: "control_state \<Rightarrow> control_state \<Rightarrow> bool" where
  "ids_grow s t = (w_id ` set (cs_works s) \<subseteq> w_id ` set (cs_works t) \<and> c_id ` set (cs_cases s) \<subseteq> c_id ` set (cs_cases t)
     \<and> n_id ` set (cs_notes s) \<subseteq> n_id ` set (cs_notes t))"

lemma ids_grow_all: "ids_grow s t \<Longrightarrow> x \<in> set (all_ids s) \<Longrightarrow> x \<in> set (all_ids t)"
  by (auto simp: ids_grow_def all_ids_def)

lemma ids_grow_subject: "ids_grow s t \<Longrightarrow> subject_exists s x \<Longrightarrow> subject_exists t x"
  by (auto simp: ids_grow_def subject_exists_def split: subject_kind.splits)

lemma note_authority_mono:
  assumes "ids_grow s t" and "cs_limits t = cs_limits s" and "note_authority_ok s n"
    and "n_subject m = n_subject n" and "n_work_refs m = n_work_refs n" and "n_text m = n_text n"
  shows "note_authority_ok t m"
  using assms ids_grow_subject [OF assms(1)] by (auto simp: note_authority_ok_def ids_grow_def)

section \<open>Appending one retained operation\<close>

definition same_identity :: "control_state \<Rightarrow> control_state \<Rightarrow> bool" where
  "same_identity s t = (cs_epoch t = cs_epoch s \<and> cs_repository_id t = cs_repository_id s \<and> cs_limits t = cs_limits s
     \<and> cs_revision t = cs_revision s + 1)"

definition ordinary_step :: "control_state \<Rightarrow> control_state \<Rightarrow> receipt \<Rightarrow> bool" where
  "ordinary_step s t r = (same_identity s t \<and> cs_receipts t = cs_receipts s @ [r] \<and> rc_revision r = cs_revision s + 1
     \<and> cs_recoveries t = cs_recoveries s \<and> cs_announcements t = cs_announcements s \<and> cs_bindings t = cs_bindings s
     \<and> cs_events t = cs_events s \<and> cs_schema s \<le> cs_schema t)"

lemma history_ordinary:
  assumes ok: "control_ok sha s" and st: "ordinary_step s t r" and ids: "ids_grow s t"
    and "rc_item_id r \<in> set (all_ids t)" and "subject_exists t (rc_entity r)"
  shows "history_ok t"
proof -
  have "rc_revision r \<notin> set (operation_revisions s)"
    using revisions_bounded [OF ok, of "rc_revision r"] st by (auto simp: ordinary_step_def)
  then have "unique_by (\<lambda>x. x) (operation_revisions t)"
    using control_okD(8) [OF ok] st
    by (auto simp: history_ok_def operation_revisions_def ordinary_step_def unique_by_def)
  moreover have "receipt_history_ok t x" if "x \<in> set (cs_receipts t)" for x
    using that control_okD(8) [OF ok] st assms(4,5) ids_grow_all [OF ids] ids_grow_subject [OF ids]
    by (fastforce simp: history_ok_def ordinary_step_def receipt_history_ok_def same_identity_def)
  moreover have "recovery_history_ok t x" if "x \<in> set (cs_recoveries t)" for x
    using that control_okD(8) [OF ok] st ids_grow_subject [OF ids]
    by (auto simp: history_ok_def ordinary_step_def recovery_history_ok_def same_identity_def)
  moreover have "controlReceiptCount t = cs_revision t"
    using control_okD(8) [OF ok] st
    by (auto simp: history_ok_def ordinary_step_def controlReceiptCount_def same_identity_def)
  ultimately show ?thesis by (simp add: history_ok_def)
qed

lemma announcement_changes_cong:
  "cs_events t = cs_events s \<Longrightarrow> cs_bindings t = cs_bindings s \<Longrightarrow> announcement_changes t i = announcement_changes s i"
  by (simp add: announcement_changes_def)

lemma submissions_mono:
  assumes "submissions_ok s" and "cs_announcements t = cs_announcements s" and "cs_bindings t = cs_bindings s"
    and "cs_events t = cs_events s" and "cs_revision s \<le> cs_revision t"
  shows "submissions_ok t"
proof -
  have "announcement_history_ok s a \<Longrightarrow> announcement_history_ok t a" for a
    using assms(3-5) announcement_changes_cong [OF assms(4,3)]
    by (simp add: announcement_history_ok_def announcement_link_ok_def)
  moreover have "binding_history_ok t b = binding_history_ok s b" for b
    using assms(2,4) by (simp add: binding_history_ok_def binding_history_def split: option.split)
  moreover have "event_history_ok s e \<Longrightarrow> event_history_ok t e" for e
    using assms(2,3,5) by (simp add: event_history_ok_def)
  ultimately show ?thesis using assms(1-4) by (simp add: submissions_ok_def)
qed

lemma submissions_empty:
  "cs_announcements t = [] \<Longrightarrow> cs_bindings t = [] \<Longrightarrow> cs_events t = [] \<Longrightarrow> submissions_ok t"
  by (simp add: submissions_ok_def)

lemma submissions_ordinary:
  assumes ok: "control_ok sha s" and st: "ordinary_step s t r"
  shows "submissions_ok t"
proof (cases "has_submissions s")
  case True
  show ?thesis
    by (rule submissions_mono [OF control_okD(9) [OF ok True]])
       (use st in \<open>simp_all add: ordinary_step_def same_identity_def\<close>)
next
  case False
  with control_okD(1) [OF ok] st show ?thesis
    by (intro submissions_empty) (auto simp: ordinary_step_def control_records_ok_def)
qed

text \<open>An accepted record, changed and with one ordinary receipt more, is accepted.\<close>

lemma control_ok_ordinary:
  assumes "control_ok sha s" and "ordinary_step s t r" and "ids_grow s t" and "works_evolve s t"
    and "control_records_ok sha t" and "version_features_ok t" and "enrollment_ok sha t" and "live_unique t"
    and "rc_item_id r \<in> set (all_ids t)" and "subject_exists t (rc_entity r)"
    and "\<And>w. w \<in> set (cs_works t) \<Longrightarrow> work_authority_ok (cs_revision t) w"
    and "\<And>c. c \<in> set (cs_cases t) \<Longrightarrow> c \<in> set (cs_cases s) \<or> case_authority_ok t c"
    and "\<And>n. n \<in> set (cs_notes t) \<Longrightarrow> (\<exists>m \<in> set (cs_notes s). n_subject n = n_subject m
           \<and> n_work_refs n = n_work_refs m \<and> n_text n = n_text m) \<or> note_authority_ok t n"
  shows "control_ok sha t"
proof -
  have rev: "cs_revision s \<le> cs_revision t" "cs_limits t = cs_limits s"
    using assms(2) by (auto simp: ordinary_step_def same_identity_def)
  have "case_authority_ok t c" if "c \<in> set (cs_cases t)" for c
    using assms(12) [OF that] case_authority_mono [OF assms(4) rev(1)] control_okD(6) [OF assms(1)] by blast
  moreover have "note_authority_ok t n" if "n \<in> set (cs_notes t)" for n
    using assms(13) [OF that] note_authority_mono [OF assms(3) rev(2)] control_okD(7) [OF assms(1)] by blast
  ultimately show ?thesis
    using assms(5-8,11) history_ordinary [OF assms(1-3,9,10)] submissions_ordinary [OF assms(1,2)]
    by (simp add: control_ok_def control_relations_ok_def)
qed

end
