(* ===== verification/Control_Commit.thy ===== *)
theory Control_Commit
  imports Control_Apply
begin

text \<open>
  One accepted command as the record that is published
  (src/src/coordination/control.ts, lines 493 to 533): the storage version the command
  needs, the effect, the next revision and the retained receipt. The lemmas show that
  such a record is one the reader accepts and one that may follow its predecessor.
\<close>

section \<open>What the command decoder returns\<close>

definition watcher_list_ok :: "watcher list \<Rightarrow> bool" where
  "watcher_list_ok ws = (list_ok MAX_PARTIES watcher_ok wa_recipient ws \<and> assertWatchInventory ws = Inr ())"

definition recipients_ok :: "(string \<times> grant_scope) list \<Rightarrow> bool" where
  "recipients_ok rs = list_ok MAX_PARTIES (\<lambda>p. parent_ok (fst p)) fst rs"

definition workspace_ok :: "string \<Rightarrow> string \<Rightarrow> object_format \<Rightarrow> bool" where
  "workspace_ok ws oid fmt = (oid_ok oid \<and> length oid = oid_length fmt \<and> text_ok 4096 False ws)"

fun command_args_ok :: "command \<Rightarrow> bool" where
  "command_args_ok (Register_task_work k ws oid fmt intent areas m) =
     (workspace_ok ws oid fmt \<and> managed_ok m \<and> regions_ok areas \<and> \<not> (m_areas_source m = Not_declared \<and> areas \<noteq> [])
      \<and> text_ok 4096 True intent)"
| "command_args_ok (Register_work k ws oid fmt intent areas readers) =
     (workspace_ok ws oid fmt \<and> regions_ok areas \<and> text_ok 4096 True intent \<and> parents_ok readers)"
| "command_args_ok (Share_work k i rv readers) = (entity_ok i \<and> counter_ok rv \<and> parents_ok readers)"
| "command_args_ok (Grant_source k i rv rs) = (entity_ok i \<and> counter_ok rv \<and> recipients_ok rs)"
| "command_args_ok (Watch_source k i rv ws) = (entity_ok i \<and> counter_ok rv \<and> watcher_list_ok ws)"
| "command_args_ok (Close_work k i rv) = (entity_ok i \<and> counter_ok rv)"
| "command_args_ok (Post_note k x nk t ps) =
     (subject_ok x \<and> text_ok MAX_NOTE_BYTES False t \<and> parents_ok ps \<and> (nk = Agreement_proposal) = (ps \<noteq> []))"
| "command_args_ok (Ack_note k i) = entity_ok i"
| "command_args_ok (Withdraw_note k i) = entity_ok i"
| "command_args_ok (Claim_target k t ms) = (target_text_ok t \<and> parents_ok ms)"
| "command_args_ok (Select_inputs k c rv g oid ins) = (entity_ok c \<and> counter_ok rv \<and> counter_ok g \<and> oid_ok oid \<and> selections_ok ins)"
| "command_args_ok (Transfer_case k c rv g p) = (entity_ok c \<and> counter_ok rv \<and> counter_ok g \<and> parent_ok p)"
| "command_args_ok (Release_case k c rv g) = (entity_ok c \<and> counter_ok rv \<and> counter_ok g)"
| "command_args_ok (Begin_external_integration k c rv g) = (entity_ok c \<and> counter_ok rv \<and> counter_ok g)"
| "command_args_ok (Record_external_settlement k c rv g) = (entity_ok c \<and> counter_ok rv \<and> counter_ok g)"

definition command_ok :: "command \<Rightarrow> bool" where
  "command_ok cmd = (key_ok (operation_key cmd) \<and> command_args_ok cmd)"

lemma decode_workspace_sound: "decode_workspace v = Inr (ws, oid, fmt) \<Longrightarrow> workspace_ok ws oid fmt"
  unfolding decode_workspace_def andThen_Inr_iff
  by (elim exE conjE) (simp add: identity_Inr formatOid_Inr text_of_Inr workspace_ok_def)

lemma decode_case_args_sound: "decode_case_args v = Inr (c, r, g) \<Longrightarrow> entity_ok c \<and> counter_ok r \<and> counter_ok g"
  unfolding decode_case_args_def andThen_Inr_iff by (elim exE conjE) (simp add: identity_Inr counter_of_Inr)

lemma decode_work_args_sound: "decode_work_args v = Inr (w, r) \<Longrightarrow> entity_ok w \<and> counter_ok r"
  unfolding decode_work_args_def andThen_Inr_iff by (elim exE conjE) (simp add: identity_Inr counter_of_Inr)

lemma recipients_sound: "unique_list v MAX_PARTIES recipient_of fst = Inr rs \<Longrightarrow> recipients_ok rs"
  unfolding recipients_ok_def
  by (erule unique_list_sound) (auto simp: recipient_of_def andThen_Inr_iff identity_Inr)

lemma watchers_sound: "unique_list v MAX_PARTIES watcher_of wa_recipient = Inr ws \<Longrightarrow> list_ok MAX_PARTIES watcher_ok wa_recipient ws"
  by (erule unique_list_sound) (rule watcher_of_sound)

lemma decode_action_sound:
  assumes "decode_action v k a = Inr cmd"
  shows "operation_key cmd = k \<and> command_action cmd = a \<and> command_args_ok cmd"
  using assms
  by (cases a)
     (auto simp: andThen_Inr_iff guard_fail_Inr identity_Inr text_of_Inr managedWork_sound regions_sound parents_sound
       subject_of_sound selections_sound recipients_sound watchers_sound watcher_list_ok_def
       dest: decode_workspace_sound decode_case_args_sound decode_work_args_sound)

lemma decodeCommand_sound:
  assumes "decodeCommand v = Inr cmd"
  shows "command_ok cmd"
proof -
  from assms obtain kvs where v: "v = JObj kvs" by (auto simp: decodeCommand_def as_object_Inr andThen_Inr_iff)
  with assms obtain k a where "text_of (prop_of kvs ''operation_key'') 256 False = Inr k" "decode_action kvs k a = Inr cmd"
    by (auto simp: decodeCommand_def andThen_Inr_iff split: jval.splits option.splits)
  then show ?thesis
    using decode_action_sound by (auto simp: command_ok_def key_ok_def text_of_Inr)
qed

section \<open>The published record\<close>

fun upgrade :: "command \<Rightarrow> bool \<Rightarrow> control_state \<Rightarrow> control_state" where
  "upgrade (Claim_target _ _ _) observed s = (if observed then s\<lparr>cs_schema := OBSERVED_CASE_CONTROL_SCHEMA\<rparr> else s)"
| "upgrade (Post_note _ x _ _ _) observed s =
     (if s_kind x = SWork \<and> cs_schema s < OBSERVED_CASE_CONTROL_SCHEMA then s\<lparr>cs_schema := OBSERVED_CASE_CONTROL_SCHEMA\<rparr> else s)"
| "upgrade (Watch_source _ _ _ _) observed s =
     (if SOURCE_WATCH_CONTROL_SCHEMA \<le> cs_schema s then s else s\<lparr>cs_schema := SOURCE_WATCH_CONTROL_SCHEMA\<rparr>)"
| "upgrade (Grant_source _ _ _ _) observed s =
     (if SOURCE_GRANT_CONTROL_SCHEMA \<le> cs_schema s then s else s\<lparr>cs_schema := SOURCE_GRANT_CONTROL_SCHEMA\<rparr>)"
| "upgrade (Register_task_work _ _ _ _ _ _ _) observed s =
     (if SUBMISSION_CONTROL_SCHEMA \<le> cs_schema s then s else s\<lparr>cs_schema := MANAGED_CONTROL_SCHEMA\<rparr>)"
| "upgrade _ observed s = s"

definition retain :: "control_state \<Rightarrow> string \<Rightarrow> string \<Rightarrow> string \<Rightarrow> action \<Rightarrow> subject \<Rightarrow> string \<Rightarrow> control_state \<times> receipt" where
  "retain s p k h a e i =
     (let r = \<lparr>rc_owner = p, rc_key = k, rc_request_hash = h, rc_revision = cs_revision s + 1, rc_action = a,
        rc_entity = e, rc_item_id = i\<rparr>
      in (s\<lparr>cs_revision := cs_revision s + 1, cs_receipts := cs_receipts s @ [r]\<rparr>, r))"

definition commit :: "(string \<Rightarrow> string) \<Rightarrow> control_state \<Rightarrow> string \<Rightarrow> command \<Rightarrow> bool \<Rightarrow> string \<Rightarrow> (control_state \<times> receipt) res" where
  "commit sha s p cmd observed fresh =
     andThen (apply_command sha (upgrade cmd observed s) p cmd observed fresh) (\<lambda>(n, e, i).
     (let (next, r) = retain n p (operation_key cmd) (request_hash sha p cmd) (command_action cmd) e i in
      andThen (checkCapacity next) (\<lambda>_. Inr (next, r))))"

end
