(* ===== verification/Control_Accept.thy ===== *)
theory Control_Accept
  imports Control_Frame Control_Commit
begin

text \<open>
  The record after one ordinary command is one the reader accepts: one lemma per kind of
  change (a work changed or added, a case changed or added, a note changed or added),
  under the conditions the commands establish.
\<close>

section \<open>Shared conditions of an ordinary publication\<close>

text \<open>The retained receipt is new and fits, and the storage version only grows.\<close>

definition fits :: "(string \<Rightarrow> string) \<Rightarrow> control_state \<Rightarrow> control_state \<Rightarrow> receipt \<Rightarrow> bool" where
  "fits sha s t r =
     (control_ok sha s \<and> ordinary_step s t r \<and> receipt_ok r \<and> key_unused s (rc_owner r) (rc_key r)
    \<and> controlReceiptCount t \<le> lim_receipts (cs_limits t) \<and> int (cs_revision t) \<le> MAX_SAFE_INTEGER
    \<and> cs_schema t \<le> OBSERVED_CASE_CONTROL_SCHEMA)"

lemma fitsD:
  assumes "fits sha s t r"
  shows "control_ok sha s" "ordinary_step s t r" "receipt_ok r" "key_unused s (rc_owner r) (rc_key r)"
    "cs_revision t = cs_revision s + 1" "cs_limits t = cs_limits s"
  using assms by (auto simp: fits_def ordinary_step_def same_identity_def)

lemma names_ordinary:
  assumes "fits sha s t r"
  shows "unique_by (\<lambda>x. x) (operation_names t)"
proof -
  have "parent_ok (rc_owner r)" using fitsD(3) [OF assms] by (simp add: receipt_ok_def)
  then have "owner_key (rc_owner r) (rc_key r) \<notin> set (operation_names s)"
    using key_unused_name fitsD [OF assms] by blast
  then show ?thesis
    using control_okD(2) [OF fitsD(1) [OF assms]] fitsD(2) [OF assms]
    by (auto simp: version_features_ok_def operation_names_def ordinary_step_def unique_by_def)
qed

lemma records_ordinary:
  assumes fit: "fits sha s t r"
    and "list_ok (lim_works (cs_limits s)) work_ok w_id (cs_works t)"
    and "list_ok (lim_cases (cs_limits s)) case_ok c_id (cs_cases t)"
    and "list_ok (lim_notes (cs_limits s)) note_ok n_id (cs_notes t)"
  shows "control_records_ok sha t"
proof -
  have ok: "control_records_ok sha s" using control_okD(1) [OF fitsD(1) [OF fit]] .
  have "length (cs_receipts t) \<le> lim_receipts (cs_limits s)"
    using fit fitsD(6) [OF fit] by (simp add: fits_def controlReceiptCount_def)
  moreover have "unique_by (\<lambda>r. owner_key (rc_owner r) (rc_key r)) (cs_receipts t)"
    using names_ordinary [OF fit] by (simp add: operation_names_def unique_by_def)
  moreover have "x \<in> set (cs_receipts t) \<Longrightarrow> receipt_ok x" for x
    using control_members(4) [OF fitsD(1) [OF fit]] fitsD(2,3) [OF fit] by (auto simp: ordinary_step_def)
  ultimately have "list_ok (lim_receipts (cs_limits s)) receipt_ok (\<lambda>r. owner_key (rc_owner r) (rc_key r)) (cs_receipts t)"
    by (simp add: list_ok_def)
  then show ?thesis
    using ok assms fitsD(2) [OF fit] unfolding control_records_ok_def
    by (auto simp: fits_def ordinary_step_def same_identity_def has_submissions_def)
qed

lemma enrollments_ordinary:
  "ordinary_step s t r \<Longrightarrow> rc_action r \<noteq> A_register_task_work \<Longrightarrow> enrollments t = enrollments s"
  by (simp add: ordinary_step_def enrollments_def)

lemma version_step:
  assumes fit: "fits sha s t r" and schema: "cs_schema t = cs_schema s \<or> MANAGED_CONTROL_SCHEMA \<le> cs_schema t"
    and "\<And>w. w \<in> set (cs_works t) \<Longrightarrow> cs_schema t < SOURCE_GRANT_CONTROL_SCHEMA \<Longrightarrow> w_source_grants w = None"
    and "\<And>w. w \<in> set (cs_works t) \<Longrightarrow> cs_schema t < SOURCE_WATCH_CONTROL_SCHEMA \<Longrightarrow> w_source_watches w = None"
    and "\<And>c. c \<in> set (cs_cases t) \<Longrightarrow> cs_schema t < OBSERVED_CASE_CONTROL_SCHEMA \<Longrightarrow> \<not> case_observed c"
    and "\<And>n. n \<in> set (cs_notes t) \<Longrightarrow> cs_schema t < OBSERVED_CASE_CONTROL_SCHEMA \<Longrightarrow> n_readers n = None"
    and "cs_schema t < OBSERVED_CASE_CONTROL_SCHEMA \<Longrightarrow> rc_action r \<noteq> A_extend_observed_case \<and> rc_action r \<noteq> A_observe_case_delivery"
    and "cs_schema t = MANAGED_CONTROL_SCHEMA \<Longrightarrow> \<exists>w \<in> set (cs_works t). w_managed w \<noteq> None"
    and "\<And>w. w \<in> set (cs_works t) \<Longrightarrow> cs_schema t < MANAGED_CONTROL_SCHEMA \<Longrightarrow> w_managed w = None"
    and "cs_schema t < MANAGED_CONTROL_SCHEMA \<Longrightarrow> rc_action r \<noteq> A_register_task_work"
  shows "version_features_ok t"
proof -
  have old: "version_features_ok s" by (rule control_okD(2) [OF fitsD(1) [OF fit]])
  have st: "ordinary_step s t r" by (rule fitsD(2) [OF fit])
  have acts: "rc_action x \<noteq> A_extend_observed_case \<and> rc_action x \<noteq> A_observe_case_delivery"
    if "x \<in> set (cs_receipts t)" "cs_schema t < OBSERVED_CASE_CONTROL_SCHEMA" for x
    using that old st assms(7) by (auto simp: ordinary_step_def version_features_ok_def)
  have enrolled: "rc_action x \<noteq> A_register_task_work"
    if "x \<in> set (cs_receipts t)" "cs_schema t < MANAGED_CONTROL_SCHEMA" for x
    using that old st assms(10) by (auto simp: ordinary_step_def version_features_ok_def)
  have rec: "cs_schema t = 2 \<Longrightarrow> cs_recoveries t \<noteq> []"
    using old st schema by (auto simp: version_features_ok_def ordinary_step_def schema_defs)
  show ?thesis
    unfolding version_features_ok_def
    using assms(3-6,8,9) acts enrolled rec names_ordinary [OF fit] fit by (simp add: fits_def)
qed

text \<open>The case where works are neither enrolled nor dropped.\<close>

lemma version_ordinary:
  assumes fit: "fits sha s t r" and schema: "cs_schema t = cs_schema s \<or> SOURCE_GRANT_CONTROL_SCHEMA \<le> cs_schema t"
    and "\<And>w. w \<in> set (cs_works t) \<Longrightarrow> cs_schema t < SOURCE_GRANT_CONTROL_SCHEMA \<Longrightarrow> w_source_grants w = None"
    and "\<And>w. w \<in> set (cs_works t) \<Longrightarrow> cs_schema t < SOURCE_WATCH_CONTROL_SCHEMA \<Longrightarrow> w_source_watches w = None"
    and "\<And>c. c \<in> set (cs_cases t) \<Longrightarrow> cs_schema t < OBSERVED_CASE_CONTROL_SCHEMA \<Longrightarrow> \<not> case_observed c"
    and "\<And>n. n \<in> set (cs_notes t) \<Longrightarrow> cs_schema t < OBSERVED_CASE_CONTROL_SCHEMA \<Longrightarrow> n_readers n = None"
    and "cs_schema t < OBSERVED_CASE_CONTROL_SCHEMA \<Longrightarrow> rc_action r \<noteq> A_extend_observed_case \<and> rc_action r \<noteq> A_observe_case_delivery"
    and managed: "\<And>w. w \<in> set (cs_works s) \<Longrightarrow> w_managed w \<noteq> None \<Longrightarrow> \<exists>x \<in> set (cs_works t). w_managed x \<noteq> None"
    and unmanaged: "\<And>w. w \<in> set (cs_works t) \<Longrightarrow> w_managed w \<noteq> None \<Longrightarrow> \<exists>x \<in> set (cs_works s). w_managed x \<noteq> None"
    and "rc_action r \<noteq> A_register_task_work"
  shows "version_features_ok t"
proof (rule version_step [OF fit])
  have old: "version_features_ok s" by (rule control_okD(2) [OF fitsD(1) [OF fit]])
  show "cs_schema t = MANAGED_CONTROL_SCHEMA \<Longrightarrow> \<exists>w \<in> set (cs_works t). w_managed w \<noteq> None"
    using old schema managed by (auto simp: version_features_ok_def schema_defs)
  fix w assume here: "w \<in> set (cs_works t)" and early: "cs_schema t < MANAGED_CONTROL_SCHEMA"
  show "w_managed w = None"
  proof (rule ccontr)
    assume "w_managed w \<noteq> None"
    then obtain x where "x \<in> set (cs_works s)" "w_managed x \<noteq> None" using unmanaged here by blast
    moreover have "cs_schema s < MANAGED_CONTROL_SCHEMA" using early schema by (auto simp: schema_defs)
    ultimately show False using old by (simp add: version_features_ok_def)
  qed
qed (use schema assms(3-7,10) in \<open>auto simp: schema_defs\<close>)

section \<open>A changed work\<close>

definition same_work :: "work \<Rightarrow> work \<Rightarrow> bool" where
  "same_work w x = (evolves w x \<and> w_workspace_id x = w_workspace_id w \<and> w_input_oid x = w_input_oid w
     \<and> w_intent x = w_intent w \<and> w_areas x = w_areas w \<and> (w_state x = Active \<longrightarrow> w_state w = Active))"

text \<open>The same without its owner and revision, which an operator may change.\<close>

definition same_task :: "work \<Rightarrow> work \<Rightarrow> bool" where
  "same_task w x = (w_id x = w_id w \<and> w_managed x = w_managed w \<and> w_object_format x = w_object_format w
     \<and> w_workspace_id x = w_workspace_id w \<and> w_input_oid x = w_input_oid w \<and> w_intent x = w_intent w
     \<and> w_areas x = w_areas w \<and> (w_state x = Active \<longrightarrow> w_state w = Active))"

lemma same_work_task: "same_work w x \<Longrightarrow> same_task w x"
  by (simp add: same_work_def same_task_def evolves_def)

lemma enrolled_cong:
  assumes "same_task w x" and "enrollments t = enrollments s"
  shows "enrolled_ok sha t x m = enrolled_ok sha s w m"
  using assms by (simp add: enrolled_ok_def same_task_def split: option.split)

lemma find_map_key:
  assumes "\<And>x. key (g x) = key x"
  shows "List.find (\<lambda>x. key x = j) (map g xs) = map_option g (List.find (\<lambda>x. key x = j) xs)"
  using assms by (induction xs) auto

lemma enrollment_works:
  assumes "enrollment_ok sha s" and works: "cs_works t = map g (cs_works s)" and g: "\<And>w. same_task w (g w)"
    and enr: "enrollments t = enrollments s"
  shows "enrollment_ok sha t"
proof -
  have idg: "w_id (g w) = w_id w" "w_managed (g w) = w_managed w" for w
    using g [of w] by (simp_all add: same_task_def)
  have find: "find_work t j = map_option g (find_work s j)" for j
    unfolding find_work_def works by (rule find_map_key) (rule idg)
  have "enrolled_ok sha t (g w) m = enrolled_ok sha s w m" for w m
    by (rule enrolled_cong [OF g enr])
  then show ?thesis
    using assms(1) unfolding enrollment_ok_def enr find works
    by (auto simp: idg split: option.splits)
qed

lemma work_authority_mono: "work_authority_ok n w \<Longrightarrow> n \<le> m \<Longrightarrow> work_authority_ok m w"
  by (auto simp: work_authority_ok_def)

lemma live_unique_works:
  assumes "live_unique s" and "cs_works t = map g (cs_works s)" and "\<And>w. same_task w (g w)"
    and "cs_cases t = cs_cases s" and "cs_notes t = cs_notes s"
  shows "live_unique t"
proof -
  have ids: "map w_id (cs_works t) = map w_id (cs_works s)"
    using assms(2,3) by (simp add: same_task_def)
  have "unique_by w_workspace_id (filter (\<lambda>w. w_state w = Active) (map g ws))"
    if "unique_by w_workspace_id (filter (\<lambda>w. w_state w = Active) ws)" for ws
    using that
  proof (induction ws)
    case (Cons a ws)
    have *: "w_workspace_id (g w) = w_workspace_id w" "w_state (g w) = Active \<Longrightarrow> w_state w = Active" for w
      using assms(3) [of w] by (simp_all add: same_task_def)
    from Cons show ?case using * by (auto simp: unique_by_def split: if_splits)
  qed simp
  moreover have "all_ids t = all_ids s" unfolding all_ids_def ids assms(4,5) by simp
  ultimately show ?thesis using assms(1,2,4) by (simp add: live_unique_def)
qed

lemma control_ok_change_work:
  assumes fit: "fits sha s t r" and schema: "cs_schema t = cs_schema s \<or> SOURCE_GRANT_CONTROL_SCHEMA \<le> cs_schema t"
    and act: "rc_action r \<notin> {A_register_task_work, A_extend_observed_case, A_observe_case_delivery}"
    and ent: "rc_entity r = work_subject i" "rc_item_id r = i" and w: "find_work s i = Some w"
    and works: "cs_works t = map (\<lambda>w. if w_id w = i then f w else w) (cs_works s)"
    and rest: "cs_cases t = cs_cases s" "cs_notes t = cs_notes s"
    and f: "\<And>w. same_work w (f w)" and fw: "work_ok (f w)" "work_authority_ok (cs_revision t) (f w)"
    and grants: "cs_schema t < SOURCE_GRANT_CONTROL_SCHEMA \<Longrightarrow> w_source_grants (f w) = None"
    and watches: "cs_schema t < SOURCE_WATCH_CONTROL_SCHEMA \<Longrightarrow> w_source_watches (f w) = None"
  shows "control_ok sha t"
proof (rule control_ok_ordinary [OF fitsD(1,2) [OF fit]])
  let ?g = "\<lambda>w. if w_id w = i then f w else w"
  have ok: "control_ok sha s" by (rule fitsD(1) [OF fit])
  have st: "ordinary_step s t r" by (rule fitsD(2) [OF fit])
  have wi: "w \<in> set (cs_works s)" "w_id w = i" using w find_work_iff [OF ok] by auto
  have g: "same_work x (?g x)" for x using f [of x] by (simp add: same_work_def evolves_def)
  have mem: "(x \<in> set (cs_works s) \<and> x \<noteq> w) \<or> x = f w" if here: "x \<in> set (cs_works t)" for x
  proof -
    obtain y where y: "y \<in> set (cs_works s)" "x = ?g y" using here unfolding works by auto
    show ?thesis
    proof (cases "w_id y = i")
      case True
      then have "y = w" using unique_by_inj [OF control_unique(1) [OF ok] y(1) wi(1)] wi by simp
      then show ?thesis using y True by simp
    qed (use y wi in auto)
  qed
  have idf: "w_id (f x) = w_id x" "w_managed (f x) = w_managed x" for x using f [of x] by (simp_all add: same_work_def evolves_def)
  have wids: "map w_id (cs_works t) = map w_id (cs_works s)" unfolding works by (simp add: idf)
  have ids: "all_ids t = all_ids s" unfolding all_ids_def wids rest by simp
  show "ids_grow s t"
    using wids unfolding ids_grow_def rest by (metis list.set_map order_refl)
  show "works_evolve s t"
    by (rule works_evolve_change [OF works]) (use f in \<open>simp add: same_work_def\<close>)
  show "control_records_ok sha t"
  proof (rule records_ordinary [OF fit])
    have len: "length (cs_works t) = length (cs_works s)" by (simp add: works)
    have "list_ok (lim_works (cs_limits s)) work_ok w_id (cs_works s)"
      using control_okD(1) [OF ok] by (simp add: control_records_ok_def)
    then show "list_ok (lim_works (cs_limits s)) work_ok w_id (cs_works t)"
      unfolding list_ok_def unique_by_def wids len using mem fw(1) by blast
  qed (use control_okD(1) [OF ok] in \<open>simp_all add: rest control_records_ok_def\<close>)
  have old: "version_features_ok s" by (rule control_okD(2) [OF ok])
  have le: "cs_schema s \<le> cs_schema t" using st by (simp add: ordinary_step_def)
  show "version_features_ok t"
  proof (rule version_ordinary [OF fit schema])
    fix x assume x: "x \<in> set (cs_works t)"
    show "cs_schema t < SOURCE_GRANT_CONTROL_SCHEMA \<Longrightarrow> w_source_grants x = None"
      using mem [OF x] grants old le by (auto simp: version_features_ok_def)
    show "cs_schema t < SOURCE_WATCH_CONTROL_SCHEMA \<Longrightarrow> w_source_watches x = None"
      using mem [OF x] watches old le by (auto simp: version_features_ok_def)
    show "w_managed x \<noteq> None \<Longrightarrow> \<exists>x \<in> set (cs_works s). w_managed x \<noteq> None"
      using mem [OF x] wi(1) idf(2) [of w] by metis
  next
    fix x assume x: "x \<in> set (cs_works s)" "w_managed x \<noteq> None"
    have "?g x \<in> set (cs_works t)" unfolding works set_map by (rule imageI [OF x(1)])
    moreover have "w_managed (?g x) \<noteq> None" using x(2) by (simp add: idf)
    ultimately show "\<exists>x \<in> set (cs_works t). w_managed x \<noteq> None" by (rule rev_bexI)
  qed (use old le act in \<open>auto simp: rest version_features_ok_def\<close>)
  have enr: "enrollments t = enrollments s"
    using enrollments_ordinary [OF st] act by simp
  show "enrollment_ok sha t"
    by (rule enrollment_works [OF control_okD(3) [OF ok] works same_work_task [OF g] enr])
  show "live_unique t"
    by (rule live_unique_works [OF control_okD(4) [OF ok] works same_work_task [OF g] rest])
  show "rc_item_id r \<in> set (all_ids t)" unfolding ids using wi ent by (auto simp: all_ids_def)
  have "subject_exists s (rc_entity r)" using wi ent by (auto simp: subject_exists_def)
  then show "subject_exists t (rc_entity r)"
    using ids_grow_subject \<open>ids_grow s t\<close> by blast
  fix x assume "x \<in> set (cs_works t)"
  from mem [OF this] show "work_authority_ok (cs_revision t) x"
    using fw(2) work_authority_mono [OF control_okD(5) [OF ok], of x "cs_revision t"] fitsD(5) [OF fit] by auto
qed (auto simp: rest)

section \<open>An added work\<close>

lemma enrollment_add_unmanaged:
  assumes "enrollment_ok sha s" and "cs_works t = cs_works s @ [w]" and "w_managed w = None"
    and "w_id w \<notin> w_id ` set (cs_works s)" and "enrollments t = enrollments s"
  shows "enrollment_ok sha t"
proof -
  have "find_work s j \<noteq> None \<Longrightarrow> find_work t j = find_work s j" for j
    unfolding find_work_def assms(2) by (auto simp: find_append)
  moreover have "enrolled_ok sha t = enrolled_ok sha s"
    using assms(5) by (simp add: enrolled_ok_def fun_eq_iff)
  ultimately show ?thesis
    using assms by (auto simp: enrollment_ok_def split: option.splits)
qed

lemma enrollment_add_managed:
  assumes ok: "enrollment_ok sha s" and works: "cs_works t = cs_works s @ [w]" and m: "w_managed w = Some m"
    and fresh: "w_id w \<notin> w_id ` set (cs_works s)" and enr: "enrollments t = enrollments s @ [r]"
    and r: "rc_item_id r = w_id w" "rc_entity r = work_subject (w_id w)"
      "rc_request_hash r = request_hash sha (rc_owner r) (Register_task_work (rc_key r) (w_workspace_id w)
         (w_input_oid w) (w_object_format w) (w_intent w) (w_areas w) m)"
    and attr: "w_id w = m_task_id m" "\<not> (m_areas_source m = Not_declared \<and> w_areas w \<noteq> [])"
  shows "enrollment_ok sha t"
proof -
  have old: "find_work s (rc_item_id x) \<noteq> None" if "x \<in> set (enrollments s)" for x
    using that ok by (auto simp: enrollment_ok_def split: option.splits)
  have known: "rc_item_id x \<in> w_id ` set (cs_works s)" if here: "x \<in> set (enrollments s)" for x
  proof -
    obtain y where "find_work s (rc_item_id x) = Some y" using old [OF here] by auto
    then have "y \<in> set (cs_works s) \<and> w_id y = rc_item_id x" unfolding find_work_def by (rule find_SomeD)
    then show ?thesis by (metis imageI)
  qed
  have keep: "find_work s j \<noteq> None \<Longrightarrow> find_work t j = find_work s j" for j
    unfolding find_work_def works by (auto simp: find_append)
  have new: "find_work t (w_id w) = Some w"
  proof -
    have "List.find (\<lambda>x. w_id x = w_id w) (cs_works s) = None" using fresh by (auto simp: find_None_iff_all image_iff)
    then show ?thesis unfolding find_work_def works by (simp add: find_append)
  qed
  have other: "rc_item_id x \<noteq> w_id w" if "x \<in> set (enrollments s)" for x
    using known [OF that] fresh by metis
  then have "List.find (\<lambda>x. rc_item_id x = w_id w) (enrollments s) = None"
    by (simp add: find_None_iff_all)
  then have "enrolled_ok sha t w m" using r attr by (simp add: enrolled_ok_def enr find_append)
  moreover have "enrolled_ok sha s x y \<Longrightarrow> enrolled_ok sha t x y" for x y
    by (auto simp: enrolled_ok_def enr find_append split: option.splits)
  moreover have "rc_item_id r \<notin> rc_item_id ` set (enrollments s)" using other r(1) by (metis imageE)
  then have "unique_by rc_item_id (enrollments t)"
    using ok unfolding enr enrollment_ok_def by (simp add: unique_by_append1)
  ultimately show ?thesis
    using ok old keep new m r unfolding enrollment_ok_def enr works by (auto split: option.splits)
qed

lemma live_unique_add_work:
  assumes "live_unique s" and "cs_works t = cs_works s @ [w]" and "cs_cases t = cs_cases s" and "cs_notes t = cs_notes s"
    and "\<not> workspace_held s (w_workspace_id w)" and "w_id w \<notin> set (all_ids s)"
  shows "live_unique t"
  using assms by (auto simp: live_unique_def workspace_held_def all_ids_def unique_by_def)

lemma control_ok_add_work:
  assumes fit: "fits sha s t r" and schema: "cs_schema t = cs_schema s \<or> MANAGED_CONTROL_SCHEMA \<le> cs_schema t"
    and act: "rc_action r \<notin> {A_extend_observed_case, A_observe_case_delivery}"
    and ent: "rc_entity r = work_subject (w_id w)" "rc_item_id r = w_id w"
    and works: "cs_works t = cs_works s @ [w]" and rest: "cs_cases t = cs_cases s" "cs_notes t = cs_notes s"
    and fresh: "w_id w \<notin> set (all_ids s)" and held: "\<not> workspace_held s (w_workspace_id w)"
    and cap: "length (cs_works t) \<le> lim_works (cs_limits s)"
    and w: "work_ok w" "w_owner w \<notin> set (w_readers w)" "w_revision w = 1" "w_source_grants w = None" "w_source_watches w = None"
    and enrolled: "enrollment_ok sha t"
    and managed: "if rc_action r = A_register_task_work then w_managed w \<noteq> None \<and> MANAGED_CONTROL_SCHEMA \<le> cs_schema t
       else w_managed w = None \<and> cs_schema t = cs_schema s"
  shows "control_ok sha t"
proof (rule control_ok_ordinary [OF fitsD(1,2) [OF fit]])
  have ok: "control_ok sha s" by (rule fitsD(1) [OF fit])
  have st: "ordinary_step s t r" by (rule fitsD(2) [OF fit])
  have old: "version_features_ok s" by (rule control_okD(2) [OF ok])
  have le: "cs_schema s \<le> cs_schema t" using st by (simp add: ordinary_step_def)
  show "ids_grow s t" by (auto simp: ids_grow_def works rest)
  show "works_evolve s t" by (rule works_evolve_add [OF works])
  show "control_records_ok sha t"
    using control_okD(1) [OF ok] cap w(1) fresh
    by (intro records_ordinary [OF fit])
       (auto simp: control_records_ok_def list_ok_def works rest unique_by_append1 all_ids_def)
  show "version_features_ok t"
    by (rule version_step [OF fit schema])
       (use old le w act managed in \<open>auto simp: rest works version_features_ok_def split: if_splits\<close>)
  show "enrollment_ok sha t" by (rule enrolled)
  show "live_unique t"
    by (rule live_unique_add_work [OF control_okD(4) [OF ok] works rest held fresh])
  show "rc_item_id r \<in> set (all_ids t)" by (simp add: all_ids_def works ent)
  show "subject_exists t (rc_entity r)" by (simp add: subject_exists_def works ent)
  have "work_authority_ok (cs_revision t) w"
    using w fitsD(5) [OF fit] by (simp add: work_authority_ok_def work_grants_def work_watches_def)
  then show "work_authority_ok (cs_revision t) x" if "x \<in> set (cs_works t)" for x
    using that work_authority_mono [OF control_okD(5) [OF ok], of x "cs_revision t"] fitsD(5) [OF fit] by (auto simp: works)
qed (auto simp: rest)

section \<open>Cases and notes\<close>

lemma enrollment_same:
  assumes "enrollment_ok sha s" and "cs_works t = cs_works s" and "enrollments t = enrollments s"
  shows "enrollment_ok sha t"
proof -
  have "find_work t = find_work s" using assms(2) by (simp add: find_work_def fun_eq_iff)
  moreover have "enrolled_ok sha t = enrolled_ok sha s" using assms(3) by (simp add: enrolled_ok_def fun_eq_iff)
  ultimately show ?thesis using assms by (simp add: enrollment_ok_def split: option.splits)
qed

text \<open>Works and storage version untouched: what cases and ns have in common.\<close>

lemma control_ok_same_works:
  assumes fit: "fits sha s t r" and act: "rc_action r \<noteq> A_register_task_work"
    and schema: "cs_schema t = cs_schema s \<or> cs_schema t = OBSERVED_CASE_CONTROL_SCHEMA"
    and obs: "cs_schema t < OBSERVED_CASE_CONTROL_SCHEMA \<Longrightarrow> rc_action r \<noteq> A_extend_observed_case \<and> rc_action r \<noteq> A_observe_case_delivery"
    and works: "cs_works t = cs_works s" and ids: "ids_grow s t" and live: "live_unique t"
    and item: "rc_item_id r \<in> set (all_ids t)" and ent: "subject_exists t (rc_entity r)"
    and cases: "list_ok (lim_cases (cs_limits s)) case_ok c_id (cs_cases t)"
      "\<And>c. c \<in> set (cs_cases t) \<Longrightarrow> c \<in> set (cs_cases s) \<or> case_authority_ok t c"
      "\<And>c. c \<in> set (cs_cases t) \<Longrightarrow> cs_schema t < OBSERVED_CASE_CONTROL_SCHEMA \<Longrightarrow> \<not> case_observed c"
    and ns: "list_ok (lim_notes (cs_limits s)) note_ok n_id (cs_notes t)"
      "\<And>n. n \<in> set (cs_notes t) \<Longrightarrow> (\<exists>m \<in> set (cs_notes s). n_subject n = n_subject m
           \<and> n_work_refs n = n_work_refs m \<and> n_text n = n_text m) \<or> note_authority_ok t n"
      "\<And>n. n \<in> set (cs_notes t) \<Longrightarrow> cs_schema t < OBSERVED_CASE_CONTROL_SCHEMA \<Longrightarrow> n_readers n = None"
  shows "control_ok sha t"
proof (rule control_ok_ordinary [OF fitsD(1,2) [OF fit] ids])
  have ok: "control_ok sha s" by (rule fitsD(1) [OF fit])
  have st: "ordinary_step s t r" by (rule fitsD(2) [OF fit])
  have old: "version_features_ok s" by (rule control_okD(2) [OF ok])
  show "works_evolve s t" by (rule works_evolve_same [OF works])
  show "control_records_ok sha t"
    by (rule records_ordinary [OF fit _ cases(1) ns(1)])
       (use control_okD(1) [OF ok] in \<open>simp add: works control_records_ok_def\<close>)
  show "version_features_ok t"
  proof (rule version_ordinary [OF fit])
    show "cs_schema t = cs_schema s \<or> SOURCE_GRANT_CONTROL_SCHEMA \<le> cs_schema t"
      using schema by (auto simp: schema_defs)
  qed (use old schema act obs cases(3) ns(3) in \<open>auto simp: works version_features_ok_def schema_defs\<close>)
  show "enrollment_ok sha t"
    by (rule enrollment_same [OF control_okD(3) [OF ok] works enrollments_ordinary [OF st act]])
  show "work_authority_ok (cs_revision t) w" if "w \<in> set (cs_works t)" for w
    using that work_authority_mono [OF control_okD(5) [OF ok], of w "cs_revision t"] fitsD(5) [OF fit] by (simp add: works)
qed (fact live item ent cases(2) ns(2))+

lemma live_unique_cases:
  assumes "live_unique s" and "cs_works t = cs_works s" and "cs_cases t = map g (cs_cases s)" and "cs_notes t = cs_notes s"
    and g: "\<And>c. c_id (g c) = c_id c \<and> c_target (g c) = c_target c \<and> (c_state (g c) = Active \<longrightarrow> c_state c = Active)"
  shows "live_unique t"
proof -
  have ids: "map c_id (cs_cases t) = map c_id (cs_cases s)" using assms(3) g by simp
  have "unique_by c_target (filter (\<lambda>c. c_state c = Active) (map g cs))"
    if "unique_by c_target (filter (\<lambda>c. c_state c = Active) cs)" for cs
    using that
  proof (induction cs)
    case (Cons a cs)
    then show ?case using g by (auto simp: unique_by_def split: if_splits)
  qed simp
  moreover have "all_ids t = all_ids s" unfolding all_ids_def ids assms(2,4) by simp
  ultimately show ?thesis using assms(1-3) by (simp add: live_unique_def)
qed

lemma upd_members:
  assumes "unique_by key xs" and "x \<in> set xs" and "key x = i"
    and here: "z \<in> set (map (\<lambda>y. if key y = i then f y else y) xs)"
  shows "z \<in> set xs \<or> z = f x"
proof -
  obtain y where y: "y \<in> set xs" "z = (if key y = i then f y else y)"
    using here unfolding set_map by (elim imageE)
  show ?thesis
  proof (cases "key y = i")
    case True
    then have "y = x" using unique_by_inj [OF assms(1) y(1) assms(2)] assms(3) by simp
    then show ?thesis using y(2) True by simp
  next
    case False
    then show ?thesis using y by simp
  qed
qed

lemma list_ok_upd:
  assumes "list_ok m p key xs" and "x \<in> set xs" "key x = i" and "\<And>y. key (f y) = key y" and "p (f x)"
  shows "list_ok m p key (map (\<lambda>y. if key y = i then f y else y) xs)"
proof -
  have u: "unique_by key xs" using assms(1) by (simp add: list_ok_def)
  have "unique_by key (map (\<lambda>y. if key y = i then f y else y) xs)"
    using u unique_by_map_upd [of key f "\<lambda>y. key y = i" xs, OF assms(4)] by blast
  moreover have "p z" if "z \<in> set (map (\<lambda>y. if key y = i then f y else y) xs)" for z
    using upd_members [OF u assms(2,3) that] assms(1,5) by (auto simp: list_ok_def)
  ultimately show ?thesis using assms(1) unfolding list_ok_def length_map by blast
qed

lemma upd_ids:
  assumes "\<And>y. key (f y) = key y"
  shows "key ` set (map (\<lambda>y. if key y = i then f y else y) xs) = key ` set xs"
proof -
  have "map key (map (\<lambda>y. if key y = i then f y else y) xs) = map key xs"
    using assms by simp
  then show ?thesis by (metis list.set_map)
qed

lemma control_ok_change_case:
  assumes fit: "fits sha s t r" and schema: "cs_schema t = cs_schema s"
    and act: "rc_action r \<noteq> A_register_task_work"
    and obs: "cs_schema t < OBSERVED_CASE_CONTROL_SCHEMA \<Longrightarrow> rc_action r \<noteq> A_extend_observed_case \<and> rc_action r \<noteq> A_observe_case_delivery"
    and ent: "rc_entity r = case_subject i" "rc_item_id r = i" and c: "find_case s i = Some c"
    and rest: "cs_works t = cs_works s" "cs_notes t = cs_notes s"
    and cases: "cs_cases t = map (\<lambda>c. if c_id c = i then f c else c) (cs_cases s)"
    and f: "\<And>c. c_id (f c) = c_id c \<and> c_target (f c) = c_target c \<and> (c_state (f c) = Active \<longrightarrow> c_state c = Active)"
    and fc: "case_ok (f c)" "case_authority_ok t (f c)"
      "cs_schema t < OBSERVED_CASE_CONTROL_SCHEMA \<Longrightarrow> \<not> case_observed c \<Longrightarrow> \<not> case_observed (f c)"
  shows "control_ok sha t"
proof (rule control_ok_same_works [OF fit act _ obs rest(1)])
  have ok: "control_ok sha s" by (rule fitsD(1) [OF fit])
  have old: "version_features_ok s" by (rule control_okD(2) [OF ok])
  have ci: "c \<in> set (cs_cases s)" "c_id c = i" using c find_case_iff [OF ok] by auto
  have idf: "c_id (f c) = c_id c" for c using f by blast
  show grow: "ids_grow s t" unfolding ids_grow_def rest cases upd_ids [of c_id f, OF idf] by simp
  show "live_unique t"
    by (rule live_unique_cases [OF control_okD(4) [OF ok] rest(1) cases rest(2)]) (use f in auto)
  show "list_ok (lim_cases (cs_limits s)) case_ok c_id (cs_cases t)" unfolding cases
    by (rule list_ok_upd [where key = c_id and f = f and p = case_ok, OF _ ci idf fc(1)]) (use control_okD(1) [OF ok] in \<open>simp add: control_records_ok_def\<close>)
  have mem: "x \<in> set (cs_cases s) \<or> x = f c" if "x \<in> set (cs_cases t)" for x
    using upd_members [OF control_unique(2) [OF ok] ci, of x f] that unfolding cases .
  show "x \<in> set (cs_cases s) \<or> case_authority_ok t x" if "x \<in> set (cs_cases t)" for x
    using mem [OF that] fc(2) by auto
  show "\<not> case_observed x" if "x \<in> set (cs_cases t)" "cs_schema t < OBSERVED_CASE_CONTROL_SCHEMA" for x
    using mem [OF that(1)] that(2) old ci(1) fc(3) schema by (auto simp: version_features_ok_def)
  show "list_ok (lim_notes (cs_limits s)) note_ok n_id (cs_notes t)"
    using control_okD(1) [OF ok] by (simp add: rest control_records_ok_def)
  show "n_readers n = None" if "n \<in> set (cs_notes t)" "cs_schema t < OBSERVED_CASE_CONTROL_SCHEMA" for n
    using that old schema by (auto simp: rest version_features_ok_def)
  show "rc_item_id r \<in> set (all_ids t)" "subject_exists t (rc_entity r)"
    using ids_grow_all [OF grow, of i] ids_grow_subject [OF grow, of "case_subject i"] ci ent
    by (auto simp: all_ids_def subject_exists_def)
qed (auto simp: rest schema)

lemma control_ok_add_case:
  assumes fit: "fits sha s t r" and schema: "cs_schema t = cs_schema s \<or> cs_schema t = OBSERVED_CASE_CONTROL_SCHEMA"
    and act: "rc_action r \<notin> {A_register_task_work, A_extend_observed_case, A_observe_case_delivery}"
    and ent: "rc_entity r = case_subject (c_id c)" "rc_item_id r = c_id c"
    and rest: "cs_works t = cs_works s" "cs_notes t = cs_notes s" and cases: "cs_cases t = cs_cases s @ [c]"
    and fresh: "c_id c \<notin> set (all_ids s)" and cap: "length (cs_cases t) \<le> lim_cases (cs_limits s)"
    and held: "\<not> (\<exists>x \<in> set (cs_cases s). c_target x = c_target c \<and> c_state x = Active)"
    and c: "case_ok c" "case_authority_ok t c" "case_observed c \<Longrightarrow> cs_schema t = OBSERVED_CASE_CONTROL_SCHEMA"
  shows "control_ok sha t"
proof (rule control_ok_same_works [OF fit _ schema _ rest(1)])
  have ok: "control_ok sha s" by (rule fitsD(1) [OF fit])
  have old: "version_features_ok s" by (rule control_okD(2) [OF ok])
  have le: "cs_schema s \<le> cs_schema t" using fitsD(2) [OF fit] by (simp add: ordinary_step_def)
  show "ids_grow s t" by (auto simp: ids_grow_def rest cases)
  show "live_unique t"
    using control_okD(4) [OF ok] fresh held by (auto simp: live_unique_def all_ids_def rest cases unique_by_def)
  show "list_ok (lim_cases (cs_limits s)) case_ok c_id (cs_cases t)"
    using control_okD(1) [OF ok] cap c(1) fresh
    by (auto simp: control_records_ok_def list_ok_def cases unique_by_append1 all_ids_def)
  show "\<not> case_observed x" if "x \<in> set (cs_cases t)" "cs_schema t < OBSERVED_CASE_CONTROL_SCHEMA" for x
    using that old c(3) le by (auto simp: cases version_features_ok_def)
  show "list_ok (lim_notes (cs_limits s)) note_ok n_id (cs_notes t)"
    using control_okD(1) [OF ok] by (simp add: rest control_records_ok_def)
  show "n_readers n = None" if "n \<in> set (cs_notes t)" "cs_schema t < OBSERVED_CASE_CONTROL_SCHEMA" for n
    using that old le by (auto simp: rest version_features_ok_def)
qed (use act c(2) ent in \<open>auto simp: rest cases all_ids_def subject_exists_def\<close>)

lemma control_ok_change_note:
  assumes fit: "fits sha s t r" and schema: "cs_schema t = cs_schema s"
    and act: "rc_action r \<notin> {A_register_task_work, A_extend_observed_case, A_observe_case_delivery}"
    and n: "find_note s i = Some n" and ent: "rc_entity r = n_subject n" "rc_item_id r = i"
    and rest: "cs_works t = cs_works s" "cs_cases t = cs_cases s"
    and ns: "cs_notes t = map (\<lambda>n. if n_id n = i then f n else n) (cs_notes s)"
    and f: "\<And>n. n_id (f n) = n_id n \<and> n_subject (f n) = n_subject n \<and> n_work_refs (f n) = n_work_refs n
      \<and> n_text (f n) = n_text n \<and> n_readers (f n) = n_readers n" and fn: "note_ok (f n)"
  shows "control_ok sha t"
proof (rule control_ok_same_works [OF fit _ _ _ rest(1)])
  have ok: "control_ok sha s" by (rule fitsD(1) [OF fit])
  have old: "version_features_ok s" by (rule control_okD(2) [OF ok])
  have ni: "n \<in> set (cs_notes s)" "n_id n = i" using n find_note_iff [OF ok] by auto
  have idf: "n_id (f n) = n_id n" for n using f by blast
  have nids: "map n_id (cs_notes t) = map n_id (cs_notes s)" unfolding ns using f by simp
  show grow: "ids_grow s t" unfolding ids_grow_def rest ns upd_ids [of n_id f, OF idf] by simp
  have "all_ids t = all_ids s" unfolding all_ids_def rest nids by simp
  then show "live_unique t" using control_okD(4) [OF ok] by (simp add: live_unique_def rest)
  show "list_ok (lim_notes (cs_limits s)) note_ok n_id (cs_notes t)" unfolding ns
    by (rule list_ok_upd [where key = n_id and f = f and p = note_ok, OF _ ni idf fn]) (use control_okD(1) [OF ok] in \<open>simp add: control_records_ok_def\<close>)
  have mem: "x \<in> set (cs_notes s) \<or> x = f n" if "x \<in> set (cs_notes t)" for x
    using upd_members [OF control_unique(3) [OF ok] ni, of x f] that unfolding ns .
  show "(\<exists>m \<in> set (cs_notes s). n_subject x = n_subject m \<and> n_work_refs x = n_work_refs m \<and> n_text x = n_text m)
      \<or> note_authority_ok t x" if "x \<in> set (cs_notes t)" for x
    using mem [OF that] ni(1) f by blast
  show "n_readers x = None" if "x \<in> set (cs_notes t)" "cs_schema t < OBSERVED_CASE_CONTROL_SCHEMA" for x
    using mem [OF that(1)] that(2) old ni(1) f schema by (auto simp: version_features_ok_def)
  show "\<not> case_observed x" if "x \<in> set (cs_cases t)" "cs_schema t < OBSERVED_CASE_CONTROL_SCHEMA" for x
    using that old schema by (auto simp: rest version_features_ok_def)
  show "list_ok (lim_cases (cs_limits s)) case_ok c_id (cs_cases t)"
    using control_okD(1) [OF ok] by (simp add: rest control_records_ok_def)
  show "rc_item_id r \<in> set (all_ids t)"
    using ids_grow_all [OF grow, of i] ni ent by (auto simp: all_ids_def)
  have "subject_exists s (n_subject n)" using control_okD(7) [OF ok ni(1)] by (simp add: note_authority_ok_def)
  then show "subject_exists t (rc_entity r)" using ids_grow_subject [OF grow] ent by simp
qed (use act in \<open>auto simp: rest schema\<close>)

lemma control_ok_add_note:
  assumes fit: "fits sha s t r" and schema: "cs_schema t = cs_schema s \<or> cs_schema t = OBSERVED_CASE_CONTROL_SCHEMA"
    and act: "rc_action r \<notin> {A_register_task_work, A_extend_observed_case, A_observe_case_delivery}"
    and ent: "rc_entity r = n_subject n" "rc_item_id r = n_id n"
    and rest: "cs_works t = cs_works s" "cs_cases t = cs_cases s" and ns: "cs_notes t = cs_notes s @ [n]"
    and fresh: "n_id n \<notin> set (all_ids s)" and cap: "length (cs_notes t) \<le> lim_notes (cs_limits s)"
    and n: "note_ok n" "note_authority_ok t n" "n_readers n \<noteq> None \<Longrightarrow> cs_schema t = OBSERVED_CASE_CONTROL_SCHEMA"
  shows "control_ok sha t"
proof (rule control_ok_same_works [OF fit _ schema _ rest(1)])
  have ok: "control_ok sha s" by (rule fitsD(1) [OF fit])
  have old: "version_features_ok s" by (rule control_okD(2) [OF ok])
  have le: "cs_schema s \<le> cs_schema t" using fitsD(2) [OF fit] by (simp add: ordinary_step_def)
  show "ids_grow s t" by (auto simp: ids_grow_def rest ns)
  show "live_unique t"
    using control_okD(4) [OF ok] fresh by (auto simp: live_unique_def all_ids_def rest ns unique_by_def)
  show "list_ok (lim_notes (cs_limits s)) note_ok n_id (cs_notes t)"
    using control_okD(1) [OF ok] cap n(1) fresh
    by (auto simp: control_records_ok_def list_ok_def ns unique_by_append1 all_ids_def)
  show "n_readers x = None" if "x \<in> set (cs_notes t)" "cs_schema t < OBSERVED_CASE_CONTROL_SCHEMA" for x
    using that old n(3) le by (cases "n_readers n") (auto simp: ns version_features_ok_def)
  show "list_ok (lim_cases (cs_limits s)) case_ok c_id (cs_cases t)"
    using control_okD(1) [OF ok] by (simp add: rest control_records_ok_def)
  show "\<not> case_observed x" if "x \<in> set (cs_cases t)" "cs_schema t < OBSERVED_CASE_CONTROL_SCHEMA" for x
    using that old le by (auto simp: rest version_features_ok_def)
  show "(\<exists>m \<in> set (cs_notes s). n_subject x = n_subject m \<and> n_work_refs x = n_work_refs m \<and> n_text x = n_text m)
      \<or> note_authority_ok t x" if "x \<in> set (cs_notes t)" for x
    using that n(2) by (auto simp: ns)
  show "subject_exists t (rc_entity r)" using n(2) ent by (simp add: note_authority_ok_def)
qed (use act ent in \<open>auto simp: rest ns all_ids_def\<close>)

end
