(* ===== verification/Control_Publish.thy ===== *)
theory Control_Publish
  imports Control_Accept
begin

text \<open>
  An ordinary command that applies within capacity yields a record that the store
  accepts: the reader accepts it. The conditions that the code leaves to the reader
  (participant bounds, object formats, consistent delivery bookkeeping) are the predicate
  \<open>publishable\<close>.
\<close>

section \<open>Assumptions on the environment\<close>

text \<open>SHA-256 in hexadecimal, and a fresh random identity.\<close>

definition sha_hex :: "(string \<Rightarrow> string) \<Rightarrow> bool" where
  "sha_hex sha = (\<forall>x. parent_ok (sha x))"

definition fresh_id :: "control_state \<Rightarrow> string \<Rightarrow> bool" where
  "fresh_id s i = (entity_ok i \<and> i \<notin> set (all_ids s))"

definition selection_consistent :: "control_state \<Rightarrow> case_rec \<Rightarrow> selection list \<Rightarrow> string \<Rightarrow> bool \<Rightarrow> bool" where
  "selection_consistent s c ins oid observed =
     ((\<forall>i \<in> set ins. input_format_ok s (select_change oid ins observed c) i)
    \<and> (observed \<or> c_observed_origin c = Some Selected_origin \<longrightarrow> ins \<noteq> [])
    \<and> set (pending_ids c) \<union> od_work_id ` set (observed_of_case c) \<union> vd_work_id ` set (case_deltas c) \<subseteq> sel_work_id ` set ins)"

definition publishable :: "control_state \<Rightarrow> string \<Rightarrow> command \<Rightarrow> bool \<Rightarrow> bool" where
  "publishable s p cmd observed =
     (case cmd of
        Register_task_work _ _ _ _ _ _ m \<Rightarrow> m_task_id m \<notin> set (all_ids s)
      | Claim_target _ _ ms \<Rightarrow> length (uniq (p # ms)) \<le> MAX_PARTIES
      | Post_note _ x _ _ _ \<Rightarrow> (case note_readers s x of None \<Rightarrow> True | Some rs \<Rightarrow> length rs \<le> MAX_PARTIES)
      | Select_inputs _ i _ _ oid ins \<Rightarrow>
          (case find_case s i of None \<Rightarrow> True | Some c \<Rightarrow> selection_consistent s c ins oid observed)
      | _ \<Rightarrow> True)"

section \<open>The shape of a commit\<close>

lemma upgrade_fields [simp]:
  "cs_works (upgrade cmd observed s) = cs_works s" "cs_cases (upgrade cmd observed s) = cs_cases s"
  "cs_notes (upgrade cmd observed s) = cs_notes s" "cs_receipts (upgrade cmd observed s) = cs_receipts s"
  "cs_recoveries (upgrade cmd observed s) = cs_recoveries s" "cs_announcements (upgrade cmd observed s) = cs_announcements s"
  "cs_bindings (upgrade cmd observed s) = cs_bindings s" "cs_events (upgrade cmd observed s) = cs_events s"
  "cs_limits (upgrade cmd observed s) = cs_limits s" "cs_revision (upgrade cmd observed s) = cs_revision s"
  "cs_epoch (upgrade cmd observed s) = cs_epoch s" "cs_repository_id (upgrade cmd observed s) = cs_repository_id s"
  by (cases cmd; simp)+

lemma upgrade_schema:
  assumes "cs_schema s \<le> OBSERVED_CASE_CONTROL_SCHEMA"
  shows "cs_schema s \<le> cs_schema (upgrade cmd observed s) \<and> cs_schema (upgrade cmd observed s) \<le> OBSERVED_CASE_CONTROL_SCHEMA"
  using assms by (cases cmd) (auto simp: schema_defs)

lemma find_upgrade [simp]:
  "find_work (upgrade cmd observed s) = find_work s" "find_case (upgrade cmd observed s) = find_case s"
  "find_note (upgrade cmd observed s) = find_note s"
  by (simp_all add: find_work_def find_case_def find_note_def fun_eq_iff)

definition same_rest :: "control_state \<Rightarrow> control_state \<Rightarrow> bool" where
  "same_rest s t = (cs_schema t = cs_schema s \<and> cs_repository_id t = cs_repository_id s \<and> cs_epoch t = cs_epoch s
     \<and> cs_revision t = cs_revision s \<and> cs_limits t = cs_limits s \<and> cs_receipts t = cs_receipts s
     \<and> cs_recoveries t = cs_recoveries s \<and> cs_announcements t = cs_announcements s \<and> cs_bindings t = cs_bindings s
     \<and> cs_events t = cs_events s)"

lemma same_rest_changes [simp]:
  "same_rest s (add_work w s)" "same_rest s (add_case c s)" "same_rest s (add_note n s)"
  "same_rest s (change_work i f s)" "same_rest s (change_case i g s)" "same_rest s (change_note i h s)"
  by (simp_all add: same_rest_def add_work_def add_case_def add_note_def change_work_def change_case_def change_note_def)

lemma apply_same_rest:
  assumes "apply_command sha s p cmd observed fresh = Inr (n, e, i)"
  shows "same_rest s n"
  using assms
  by (cases cmd)
     (auto simp: andThen_Inr_iff guard_fail_Inr changed_work_def changed_case_def acknowledge_def withdraw_def
       split: if_splits option.splits)

lemma commit_InrD:
  assumes "commit sha s p cmd observed fresh = Inr (t, r)"
  obtains n e i where "apply_command sha (upgrade cmd observed s) p cmd observed fresh = Inr (n, e, i)"
    and "t = n\<lparr>cs_revision := cs_revision s + 1, cs_receipts := cs_receipts s @ [r]\<rparr>"
    and "r = \<lparr>rc_owner = p, rc_key = operation_key cmd, rc_request_hash = request_hash sha p cmd,
           rc_revision = cs_revision s + 1, rc_action = command_action cmd, rc_entity = e, rc_item_id = i\<rparr>"
    and "checkCapacity t = Inr ()" and "same_rest (upgrade cmd observed s) n"
proof -
  obtain x where x: "apply_command sha (upgrade cmd observed s) p cmd observed fresh = Inr x"
    using assms by (auto simp: commit_def andThen_Inr_iff)
  obtain n e i where nei: "x = (n, e, i)" by (cases x) auto
  with x have a: "apply_command sha (upgrade cmd observed s) p cmd observed fresh = Inr (n, e, i)" by simp
  have same: "same_rest (upgrade cmd observed s) n" by (rule apply_same_rest [OF a])
  then have "cs_revision n = cs_revision s" "cs_receipts n = cs_receipts s" by (simp_all add: same_rest_def)
  with assms a same show thesis
    by (intro that [of n e i]) (auto simp: commit_def retain_def Let_def andThen_Inr_iff)
qed

lemma commit_applies:
  "commit sha s p cmd observed fresh = Inr (t, r)
     \<Longrightarrow> \<exists>x. apply_command sha (upgrade cmd observed s) p cmd observed fresh = Inr x"
  by (auto simp: commit_def andThen_Inr_iff)

text \<open>The conditions of an ordinary publication hold for every committed command.\<close>

lemma request_hash_ok: "sha_hex sha \<Longrightarrow> parent_ok (request_hash sha p cmd)"
  by (simp add: sha_hex_def request_hash_def canonical_hash_def)

lemma checkCapacityD:
  assumes "checkCapacity t = Inr ()"
  shows "length (cs_works t) \<le> lim_works (cs_limits t)" "length (cs_cases t) \<le> lim_cases (cs_limits t)"
    "length (cs_notes t) \<le> lim_notes (cs_limits t)"
    "controlReceiptCount t + releaseSlotsRequired t \<le> lim_receipts (cs_limits t)"
    "n \<in> set (cs_notes t) \<Longrightarrow> length (n_text n) \<le> lim_note_bytes (cs_limits t)"
    "length (control_text t) + releaseSlotsRequired t * CONTROL_RELEASE_BYTES \<le> CONTROL_MAX_BYTES"
  using assms by (auto simp: checkCapacity_def Let_def guard_fail_Inr)

lemma commit_fits:
  assumes ok: "control_ok sha s" and env: "sha_hex sha" "parent_ok p" "key_ok (operation_key cmd)"
    and new: "key_unused s p (operation_key cmd)" and max: "int (cs_revision s + 1) \<le> MAX_SAFE_INTEGER"
    and t: "t = n\<lparr>cs_revision := cs_revision s + 1, cs_receipts := cs_receipts s @ [r]\<rparr>"
    and r: "r = \<lparr>rc_owner = p, rc_key = operation_key cmd, rc_request_hash = request_hash sha p cmd,
           rc_revision = cs_revision s + 1, rc_action = command_action cmd, rc_entity = e, rc_item_id = i\<rparr>"
    and same: "same_rest (upgrade cmd observed s) n" and cap: "checkCapacity t = Inr ()"
    and ids: "subject_ok e" "entity_ok i"
  shows "fits sha s t r"
proof -
  have sv: "cs_schema s \<le> OBSERVED_CASE_CONTROL_SCHEMA"
    using control_okD(1) [OF ok] by (simp add: control_records_ok_def)
  have "ordinary_step s t r"
    using same upgrade_schema [OF sv, of cmd observed]
    by (simp add: t r ordinary_step_def same_identity_def same_rest_def)
  moreover have "receipt_ok r"
    using env ids max by (simp add: r receipt_ok_def counter_ok_def request_hash_ok)
  moreover have "controlReceiptCount t \<le> lim_receipts (cs_limits t)"
    using checkCapacityD(4) [OF cap] by simp
  moreover have "cs_schema t \<le> OBSERVED_CASE_CONTROL_SCHEMA"
    using same upgrade_schema [OF sv, of cmd observed] by (simp add: t same_rest_def)
  ultimately show ?thesis using ok new max by (simp add: fits_def r t)
qed

lemma list_ok_map:
  assumes "list_ok m p key xs" and "\<And>x. x \<in> set xs \<Longrightarrow> p x \<Longrightarrow> q (f x)" and "\<And>x. key' (f x) = key x"
  shows "list_ok m q key' (map f xs)"
proof -
  have eq: "map key' (map f xs) = map key xs" using assms(3) by simp
  show ?thesis using assms(1,2) unfolding list_ok_def unique_by_def eq by auto
qed

section \<open>Changes to an owned work\<close>

lemma ownWork_InrD:
  assumes "ownWork sha s p i rv = Inr w"
  shows "find_work s i = Some w \<and> w_owner w = p \<and> w_revision w = rv"
  using assms by (auto simp: ownWork_def visibleWork_def andThen_Inr_iff guard_fail_Inr split: option.splits if_splits)

lemma revoked_ok: "work_ok w \<Longrightarrow> work_ok (revoked w)"
  by (cases "w_source_grants w"; cases "w_source_watches w")
     (simp_all add: work_ok_def revoked_def work_watches_def grants_ok_def watches_ok_def list_ok_def
      assertWatchInventory_def region_total_def all_overrides_def)

lemma revoked_lists [simp]: "work_grants (revoked w) = []" "work_watches (revoked w) = []"
  by (simp_all add: work_grants_def work_watches_def revoked_def split: option.splits)

lemma counter_Suc: "counter_ok n \<Longrightarrow> n \<le> m \<Longrightarrow> int (m + 1) \<le> MAX_SAFE_INTEGER \<Longrightarrow> counter_ok (n + 1)"
  by (simp add: counter_ok_def)

lemma work_ok_bump:
  assumes "work_ok w" and "counter_ok (w_revision w + 1)"
  shows "work_ok (bump_work w)"
  using assms by (simp add: work_ok_def bump_work_def work_watches_def)

lemma share_change_ok:
  assumes "work_ok w" and "counter_ok (w_revision w + 1)" and "parents_ok readers"
  shows "work_ok (share_change readers w)"
proof -
  have "work_ok (revoked w)" by (rule revoked_ok [OF assms(1)])
  then have "work_ok ((revoked w)\<lparr>w_readers := readers\<rparr>)"
    using assms(3) by (simp add: work_ok_def work_watches_def)
  then show ?thesis
    unfolding share_change_def by (rule work_ok_bump) (use assms(2) in \<open>simp add: revoked_def\<close>)
qed

lemma close_change_ok:
  assumes "work_ok w" and "counter_ok (w_revision w + 1)"
  shows "work_ok (close_change w)"
proof -
  have "work_ok (revoked w)" by (rule revoked_ok [OF assms(1)])
  then have "work_ok ((revoked w)\<lparr>w_state := Closed\<rparr>)" by (simp add: work_ok_def work_watches_def)
  then show ?thesis
    unfolding close_change_def by (rule work_ok_bump) (use assms(2) in \<open>simp add: revoked_def\<close>)
qed

lemma grant_change_ok:
  assumes "work_ok w" and c: "counter_ok (w_revision w + 1)" and rs: "recipients_ok rs"
  shows "work_ok (grant_change rs w)"
proof -
  let ?gs = "map (\<lambda>(r, sc). \<lparr>g_recipient = r, g_scope = sc, g_work_revision = w_revision w + 1\<rparr>) rs"
  have "grants_ok ?gs"
    unfolding grants_ok_def by (rule list_ok_map [OF rs [unfolded recipients_ok_def]]) (use c in \<open>auto simp: grant_ok_def\<close>)
  then have "work_ok (w\<lparr>w_source_grants := Some ?gs, w_source_watches := map_option (\<lambda>_. []) (w_source_watches w)\<rparr>)"
    using assms(1)
    by (cases "w_source_watches w")
       (simp_all add: work_ok_def work_watches_def watches_ok_def list_ok_def assertWatchInventory_def
        region_total_def all_overrides_def)
  then show ?thesis unfolding grant_change_def by (rule work_ok_bump) (use c in simp)
qed

lemma watcher_extend [simp]:
  "wa_recipient (watcher.extend x e) = wa_recipient x" "wa_regions (watcher.extend x e) = wa_regions x"
  "wa_overrides (watcher.extend x e) = wa_overrides x"
  "sw_work_revision (watcher.extend x \<lparr>sw_work_revision = n\<rparr>) = n"
  by (simp_all add: watcher.extend_def)

lemma watcher_ok_extend: "watcher_ok (watcher.extend x e) = watcher_ok x"
  by (simp add: watcher_ok_def)

definition watches_at :: "nat \<Rightarrow> watcher list \<Rightarrow> source_watch list" where
  "watches_at n ws = map (\<lambda>x. watcher.extend x \<lparr>sw_work_revision = n\<rparr>) ws"

lemma watches_at_inventory: "assertWatchInventory (watches_at n ws) = assertWatchInventory ws"
  by (simp add: assertWatchInventory_def region_total_def all_overrides_def watches_at_def o_def)

lemma watches_at_ok:
  assumes "watcher_list_ok ws" and "counter_ok n"
  shows "watches_ok (watches_at n ws)"
proof -
  have "list_ok MAX_PARTIES watcher_ok wa_recipient ws" using assms(1) by (simp add: watcher_list_ok_def)
  then show ?thesis
    unfolding watches_ok_def watches_at_def
    by (rule list_ok_map) (simp_all add: source_watch_ok_def watcher_ok_extend assms(2))
qed

lemma regrant_ok:
  assumes "opt_ok grants_ok g" and "counter_ok n"
  shows "opt_ok grants_ok (map_option (map (\<lambda>g. g\<lparr>g_work_revision := n\<rparr>)) g)"
proof (cases g)
  case (Some gs)
  then have "list_ok MAX_PARTIES grant_ok g_recipient gs" using assms(1) by (simp add: grants_ok_def)
  then have "grants_ok (map (\<lambda>g. g\<lparr>g_work_revision := n\<rparr>) gs)"
    unfolding grants_ok_def by (rule list_ok_map) (simp_all add: grant_ok_def assms(2))
  with Some show ?thesis by simp
qed simp

lemma watch_change_ok:
  assumes "work_ok w" and c: "counter_ok (w_revision w + 1)" and ws: "watcher_list_ok ws"
  shows "work_ok (watch_change ws w)"
proof -
  let ?x = "w\<lparr>w_source_watches := Some (watches_at (w_revision w + 1) ws),
      w_source_grants := map_option (map (\<lambda>g. g\<lparr>g_work_revision := w_revision w + 1\<rparr>)) (w_source_grants w)\<rparr>"
  have "assertWatchInventory (watches_at (w_revision w + 1) ws) = Inr ()"
    using ws watches_at_inventory by (simp add: watcher_list_ok_def)
  then have "work_ok ?x"
    using assms(1) watches_at_ok [OF ws c] regrant_ok [OF _ c, of "w_source_grants w"]
    by (simp add: work_ok_def work_watches_def)
  then have "work_ok (bump_work ?x)" by (rule work_ok_bump) (use c in simp)
  then show ?thesis by (simp add: watch_change_def watches_at_def)
qed

text \<open>Each change keeps the identity of the work.\<close>

lemma same_work_changes:
  "same_work w (share_change readers w)" "same_work w (grant_change rs w)" "same_work w (watch_change ws w)"
  "same_work w (close_change w)"
  by (simp_all add: same_work_def evolves_def share_change_def grant_change_def watch_change_def close_change_def
      bump_work_def revoked_def)

lemma share_change_authority:
  "w_owner w \<notin> set readers \<Longrightarrow> w_revision w \<le> n \<Longrightarrow> work_authority_ok (n + 1) (share_change readers w)"
  by (auto simp: work_authority_ok_def share_change_def bump_work_def work_grants_def work_watches_def revoked_def split: option.splits)

lemma close_change_authority:
  "work_authority_ok n w \<Longrightarrow> work_authority_ok (n + 1) (close_change w)"
  by (auto simp: work_authority_ok_def close_change_def bump_work_def work_grants_def work_watches_def revoked_def split: option.splits)

lemma grant_change_authority:
  assumes "work_authority_ok n w" and "w_owner w \<notin> fst ` set rs" and "w_state w = Active"
  shows "work_authority_ok (n + 1) (grant_change rs w)"
  using assms
  by (force simp: work_authority_ok_def grant_change_def bump_work_def work_grants_def work_watches_def split: option.splits)

lemma watch_change_authority:
  assumes w: "work_authority_ok n w" and active: "w_state w = Active"
    and granted: "\<And>x. x \<in> set ws \<Longrightarrow> wa_recipient x = w_owner w
      \<or> (\<exists>g \<in> set (work_grants w). g_recipient g = wa_recipient x \<and> g_work_revision g = w_revision w)"
    and total: "sum_list (map (\<lambda>x. length (wa_regions x)) ws) \<le> MAX_REGIONS"
  shows "work_authority_ok (n + 1) (watch_change ws w)"
proof -
  let ?n = "w_revision w + 1"
  have g: "work_grants (watch_change ws w) = map (\<lambda>g. g\<lparr>g_work_revision := ?n\<rparr>) (work_grants w)"
    by (simp add: work_grants_def watch_change_def bump_work_def split: option.split)
  have x: "work_watches (watch_change ws w) = watches_at ?n ws"
    by (simp add: work_watches_def watch_change_def bump_work_def watches_at_def)
  have fields: "w_owner (watch_change ws w) = w_owner w" "w_readers (watch_change ws w) = w_readers w"
    "w_revision (watch_change ws w) = ?n" "w_state (watch_change ws w) = Active"
    using active by (simp_all add: watch_change_def bump_work_def)
  have "\<exists>g \<in> set (work_grants (watch_change ws w)). g_recipient g = wa_recipient y"
    if "y \<in> set ws" "wa_recipient y \<noteq> w_owner w" for y
    using granted [OF that(1)] that(2) unfolding g by force
  then show ?thesis
    unfolding work_authority_ok_def fields x
    using w total by (auto simp: work_authority_ok_def g watches_at_def o_def)
qed

section \<open>Acceptance\<close>

text \<open>A commit of a decoded command by an authenticated owner in an accepted record.\<close>

definition committing :: "(string \<Rightarrow> string) \<Rightarrow> control_state \<Rightarrow> string \<Rightarrow> command \<Rightarrow> bool \<Rightarrow> string \<Rightarrow> bool" where
  "committing sha s p cmd observed fresh =
     (control_ok sha s \<and> sha_hex sha \<and> parent_ok p \<and> command_ok cmd \<and> key_unused s p (operation_key cmd)
    \<and> fresh_id s fresh \<and> int (cs_revision s + 1) \<le> MAX_SAFE_INTEGER \<and> publishable s p cmd observed)"

lemma committingD:
  assumes "committing sha s p cmd observed fresh"
  shows "control_ok sha s" "sha_hex sha" "parent_ok p" "command_args_ok cmd" "key_ok (operation_key cmd)"
    "key_unused s p (operation_key cmd)" "entity_ok fresh" "fresh \<notin> set (all_ids s)"
    "int (cs_revision s + 1) \<le> MAX_SAFE_INTEGER" "publishable s p cmd observed"
  using assms by (simp_all add: committing_def command_ok_def fresh_id_def)

lemma work_members:
  assumes "control_ok sha s" and "find_work s i = Some w"
  shows "work_ok w" "work_authority_ok (cs_revision s) w" "entity_ok i" "w_revision w \<le> cs_revision s"
    "w \<in> set (cs_works s)" "w_id w = i"
proof -
  have w: "w \<in> set (cs_works s)" "w_id w = i" using find_work_iff [OF assms(1)] assms(2) by auto
  then show "work_ok w" "work_authority_ok (cs_revision s) w" "w \<in> set (cs_works s)" "w_id w = i"
    using control_members(1) control_okD(5) assms(1) by blast+
  then show "entity_ok i" "w_revision w \<le> cs_revision s" by (auto simp: work_ok_def work_authority_ok_def)
qed

lemma work_changed_commit:
  assumes com: "committing sha s p cmd observed fresh" and res: "commit sha s p cmd observed fresh = Inr (t, r)"
    and ap: "apply_command sha (upgrade cmd observed s) p cmd observed fresh = changed_work (upgrade cmd observed s) i f"
    and w: "find_work s i = Some w"
    and act: "command_action cmd \<notin> {A_register_task_work, A_extend_observed_case, A_observe_case_delivery}"
    and schema: "cs_schema (upgrade cmd observed s) = cs_schema s \<or> SOURCE_GRANT_CONTROL_SCHEMA \<le> cs_schema (upgrade cmd observed s)"
    and f: "\<And>w. same_work w (f w)" "work_ok (f w)" "work_authority_ok (cs_revision s + 1) (f w)"
    and grants: "cs_schema (upgrade cmd observed s) < SOURCE_GRANT_CONTROL_SCHEMA \<Longrightarrow> w_source_grants (f w) = None"
    and watches: "cs_schema (upgrade cmd observed s) < SOURCE_WATCH_CONTROL_SCHEMA \<Longrightarrow> w_source_watches (f w) = None"
  shows "control_ok sha t"
proof -
  note com' = committingD [OF com]
  obtain n e j where n: "apply_command sha (upgrade cmd observed s) p cmd observed fresh = Inr (n, e, j)"
    and t: "t = n\<lparr>cs_revision := cs_revision s + 1, cs_receipts := cs_receipts s @ [r]\<rparr>"
    and r: "r = \<lparr>rc_owner = p, rc_key = operation_key cmd, rc_request_hash = request_hash sha p cmd,
           rc_revision = cs_revision s + 1, rc_action = command_action cmd, rc_entity = e, rc_item_id = j\<rparr>"
    and cap: "checkCapacity t = Inr ()" and same: "same_rest (upgrade cmd observed s) n"
    by (rule commit_InrD [OF res])
  have nf: "n = change_work i f (upgrade cmd observed s)" "e = work_subject i" "j = i"
    using n ap by (auto simp: changed_work_def)
  have works: "cs_works t = map (\<lambda>w. if w_id w = i then f w else w) (cs_works s)"
    using control_unique(1) [OF com'(1)]
    by (simp add: t nf change_work_def update_first_map_key unique_by_def)
  have "fits sha s t r"
    by (rule commit_fits [OF com'(1,2,3,5,6,9) t r same cap])
       (simp_all add: nf subject_ok_def work_members(3) [OF com'(1) w])
  then show ?thesis
  proof (rule control_ok_change_work [OF _ _ _ _ _ w works])
    show "cs_schema t = cs_schema s \<or> SOURCE_GRANT_CONTROL_SCHEMA \<le> cs_schema t"
      using schema by (simp add: t nf change_work_def)
    show "work_authority_ok (cs_revision t) (f w)" using f(3) by (simp add: t)
  qed (use act f grants watches in \<open>auto simp: r t nf change_work_def\<close>)
qed

lemma source_fields [simp]:
  "w_source_grants (share_change readers w) = map_option (\<lambda>_. []) (w_source_grants w)"
  "w_source_watches (share_change readers w) = map_option (\<lambda>_. []) (w_source_watches w)"
  "w_source_grants (close_change w) = map_option (\<lambda>_. []) (w_source_grants w)"
  "w_source_watches (close_change w) = map_option (\<lambda>_. []) (w_source_watches w)"
  "w_source_watches (grant_change rs w) = map_option (\<lambda>_. []) (w_source_watches w)"
  by (simp_all add: share_change_def close_change_def grant_change_def bump_work_def revoked_def)

lemma version_sources:
  assumes "control_ok sha s" and "w \<in> set (cs_works s)"
  shows "cs_schema s < SOURCE_GRANT_CONTROL_SCHEMA \<Longrightarrow> w_source_grants w = None"
    "cs_schema s < SOURCE_WATCH_CONTROL_SCHEMA \<Longrightarrow> w_source_watches w = None"
  using control_okD(2) [OF assms(1)] assms(2) by (simp_all add: version_features_ok_def)

lemma next_counter:
  assumes "control_ok sha s" and "find_work s i = Some w" and "int (cs_revision s + 1) \<le> MAX_SAFE_INTEGER"
  shows "counter_ok (w_revision w + 1)"
  using counter_Suc [OF _ work_members(4) [OF assms(1,2)] assms(3)] work_members(1) [OF assms(1,2)] by (simp add: work_ok_def)

lemma share_work_accepted:
  assumes com: "committing sha s p (Share_work k i rv readers) observed fresh"
    and res: "commit sha s p (Share_work k i rv readers) observed fresh = Inr (t, r)"
  shows "control_ok sha t"
proof -
  note com' = committingD [OF com]
  obtain x where "apply_command sha s p (Share_work k i rv readers) observed fresh = Inr x"
    using commit_applies [OF res] by auto
  then obtain w where own: "ownWork sha s p i rv = Inr w" and p: "p \<notin> set readers"
    and ap: "apply_command sha s p (Share_work k i rv readers) observed fresh = changed_work s i (share_change readers)"
    by (auto simp: andThen_Inr_iff guard_fail_Inr)
  note w = ownWork_InrD [OF own, THEN conjunct1]
  note wm = work_members [OF com'(1) w] and old = version_sources [OF com'(1) work_members(5) [OF com'(1) w]]
  show ?thesis
  proof (rule work_changed_commit [OF com res _ w])
    show "apply_command sha (upgrade (Share_work k i rv readers) observed s) p (Share_work k i rv readers) observed fresh
      = changed_work (upgrade (Share_work k i rv readers) observed s) i (share_change readers)"
      using ap by simp
    show "work_ok (share_change readers w)"
      using share_change_ok [OF wm(1) next_counter [OF com'(1) w com'(9)]] com'(4) by simp
    show "work_authority_ok (cs_revision s + 1) (share_change readers w)"
      by (rule share_change_authority) (use ownWork_InrD [OF own] p wm(4) in auto)
  qed (simp_all add: old same_work_changes)
qed

lemma close_work_accepted:
  assumes com: "committing sha s p (Close_work k i rv) observed fresh"
    and res: "commit sha s p (Close_work k i rv) observed fresh = Inr (t, r)"
  shows "control_ok sha t"
proof -
  note com' = committingD [OF com]
  obtain x where "apply_command sha s p (Close_work k i rv) observed fresh = Inr x"
    using commit_applies [OF res] by auto
  then obtain w where own: "ownWork sha s p i rv = Inr w"
    and ap: "apply_command sha s p (Close_work k i rv) observed fresh = changed_work s i close_change"
    by (auto simp: andThen_Inr_iff guard_fail_Inr)
  note w = ownWork_InrD [OF own, THEN conjunct1]
  note wm = work_members [OF com'(1) w] and old = version_sources [OF com'(1) work_members(5) [OF com'(1) w]]
  show ?thesis
  proof (rule work_changed_commit [OF com res _ w])
    show "apply_command sha (upgrade (Close_work k i rv) observed s) p (Close_work k i rv) observed fresh
      = changed_work (upgrade (Close_work k i rv) observed s) i close_change"
      using ap by simp
    show "work_ok (close_change w)" by (rule close_change_ok [OF wm(1) next_counter [OF com'(1) w com'(9)]])
    show "work_authority_ok (cs_revision s + 1) (close_change w)" by (rule close_change_authority [OF wm(2)])
  qed (simp_all add: old same_work_changes)
qed

lemma grant_source_accepted:
  assumes com: "committing sha s p (Grant_source k i rv rs) observed fresh"
    and res: "commit sha s p (Grant_source k i rv rs) observed fresh = Inr (t, r)"
  shows "control_ok sha t"
proof -
  let ?cmd = "Grant_source k i rv rs" let ?u = "upgrade ?cmd observed s"
  note com' = committingD [OF com]
  obtain x where "apply_command sha ?u p ?cmd observed fresh = Inr x" using commit_applies [OF res] by blast
  then obtain w where own: "ownWork sha ?u p i rv = Inr w" and act: "w_state w = Active" and p: "p \<notin> fst ` set rs"
    and ap: "apply_command sha ?u p ?cmd observed fresh = changed_work ?u i (grant_change rs)"
    by (auto simp: andThen_Inr_iff guard_fail_Inr simp del: upgrade.simps find_upgrade)
  have w: "find_work s i = Some w" and owner: "w_owner w = p" using ownWork_InrD [OF own] by (simp_all del: upgrade.simps)
  note wm = work_members [OF com'(1) w] and old = version_sources [OF com'(1) work_members(5) [OF com'(1) w]]
  have sv: "SOURCE_GRANT_CONTROL_SCHEMA \<le> cs_schema ?u" "cs_schema s \<le> cs_schema ?u" by (auto simp: schema_defs)
  show ?thesis
  proof (rule work_changed_commit [OF com res ap w])
    show "work_ok (grant_change rs w)"
      using grant_change_ok [OF wm(1) next_counter [OF com'(1) w com'(9)]] com'(4) by simp
    show "work_authority_ok (cs_revision s + 1) (grant_change rs w)"
      by (rule grant_change_authority [OF wm(2)]) (use owner p act in auto)
  qed (use sv old same_work_changes in auto)
qed

lemma watch_source_accepted:
  assumes com: "committing sha s p (Watch_source k i rv ws) observed fresh"
    and res: "commit sha s p (Watch_source k i rv ws) observed fresh = Inr (t, r)"
  shows "control_ok sha t"
proof -
  let ?cmd = "Watch_source k i rv ws" let ?u = "upgrade ?cmd observed s"
  note com' = committingD [OF com]
  obtain x where x: "apply_command sha ?u p ?cmd observed fresh = Inr x" using commit_applies [OF res] by blast
  from x obtain w where own: "ownWork sha ?u p i rv = Inr w" and act: "w_state w = Active"
    and granted: "\<not> (\<exists>x \<in> set ws. wa_recipient x \<noteq> p
         \<and> \<not> (\<exists>g \<in> set (work_grants w). g_recipient g = wa_recipient x \<and> g_work_revision g = w_revision w))"
    and total: "\<not> MAX_REGIONS < sum_list (map (\<lambda>x. length (wa_regions x)) ws)"
    and ch: "changed_work ?u i (watch_change ws) = Inr x"
    by (simp only: apply_command.simps apply_work.simps andThen_Inr_iff guard_fail_Inr) blast
  with x have ap: "apply_command sha ?u p ?cmd observed fresh = changed_work ?u i (watch_change ws)" by (simp only:)
  have w: "find_work s i = Some w" and owner: "w_owner w = p" using ownWork_InrD [OF own] by (simp_all del: upgrade.simps)
  note wm = work_members [OF com'(1) w] and old = version_sources [OF com'(1) work_members(5) [OF com'(1) w]]
  have sv: "SOURCE_WATCH_CONTROL_SCHEMA \<le> cs_schema ?u" by (auto simp: schema_defs)
  show ?thesis
  proof (rule work_changed_commit [OF com res ap w])
    show "work_ok (watch_change ws w)"
      using watch_change_ok [OF wm(1) next_counter [OF com'(1) w com'(9)]] com'(4) by simp
    show "work_authority_ok (cs_revision s + 1) (watch_change ws w)"
      by (rule watch_change_authority [OF wm(2) act]) (use owner granted total in auto)
  qed (use sv same_work_changes in \<open>auto simp: schema_defs\<close>)
qed

end
