(* ===== verification/Control_Publish_Cases.thy ===== *)
theory Control_Publish_Cases
  imports Control_Publish
begin

text \<open>
  Acceptance of the commands that register works, post and change notes and change
  cases, and with them the theorem that every committed command yields a record the
  reader accepts.
\<close>

section \<open>Cases\<close>

lemma case_authority_cong:
  assumes "cs_works t = cs_works s" and "cs_revision t = cs_revision s"
  shows "case_authority_ok t c = case_authority_ok s c"
proof -
  have "find_work t = find_work s" by (simp add: find_work_def fun_eq_iff assms)
  then have "delta_authority_ok t = delta_authority_ok s" "input_format_ok t = input_format_ok s"
    by (simp_all add: delta_authority_ok_def input_format_ok_def fun_eq_iff)
  then show ?thesis by (simp add: case_authority_ok_def assms split: option.split)
qed

text \<open>A case whose inputs and bookkeeping stay.\<close>

definition same_inputs :: "case_rec \<Rightarrow> case_rec \<Rightarrow> bool" where
  "same_inputs c d = (c_inputs d = c_inputs c \<and> c_target_oid d = c_target_oid c \<and> c_observed_origin d = c_observed_origin c
     \<and> c_delivery_pending d = c_delivery_pending c \<and> c_delivery_observed d = c_delivery_observed c
     \<and> c_visibility_delta d = c_visibility_delta c \<and> set (c_members c) \<subseteq> set (c_members d))"

lemma same_inputs_authority:
  assumes "case_authority_ok s c" and eq: "same_inputs c d" and works: "cs_works t = cs_works s"
    and "c_revision d \<le> cs_revision t" and "c_generation d \<le> cs_revision t" and "c_lead d \<in> set (c_members d)"
    and "\<not> (c_state d = Closed \<and> c_external_effect d \<noteq> Not_started)"
  shows "case_authority_ok t d"
proof -
  have find: "find_work t = find_work s" by (simp add: find_work_def fun_eq_iff works)
  have ids: "input_ids d = input_ids c" "pending_ids d = pending_ids c"
    using eq by (simp_all add: same_inputs_def input_ids_def pending_ids_def)
  have "delta_authority_ok s c x \<Longrightarrow> delta_authority_ok t d x" for x
    using eq by (auto simp: delta_authority_ok_def find ids same_inputs_def split: option.splits)
  moreover have "input_format_ok t d = input_format_ok s c"
    using eq by (simp add: input_format_ok_def find same_inputs_def fun_eq_iff split: option.split)
  ultimately show ?thesis
    using assms eq by (auto simp: case_authority_ok_def ids same_inputs_def split: option.splits)
qed

lemma case_members:
  assumes "control_ok sha s" and "find_case s i = Some c"
  shows "case_ok c" "case_authority_ok s c" "entity_ok i" "c_revision c \<le> cs_revision s" "c_generation c \<le> cs_revision s"
    "c \<in> set (cs_cases s)" "c_id c = i" "c_lead c \<in> set (c_members c)"
proof -
  have c: "c \<in> set (cs_cases s)" "c_id c = i" using find_case_iff [OF assms(1)] assms(2) by auto
  then show "case_ok c" "case_authority_ok s c" "c \<in> set (cs_cases s)" "c_id c = i"
    using control_members(2) control_okD(6) assms(1) by blast+
  then show "entity_ok i" "c_revision c \<le> cs_revision s" "c_generation c \<le> cs_revision s" "c_lead c \<in> set (c_members c)"
    by (auto simp: case_ok_def case_authority_ok_def)
qed

lemma ownCase_InrD:
  assumes "ownCase s p i rv g = Inr c"
  shows "find_case s i = Some c \<and> p \<in> set (c_members c) \<and> c_lead c = p \<and> c_revision c = rv \<and> c_generation c = g \<and> c_state c = Active"
  using assms by (auto simp: ownCase_def andThen_Inr_iff guard_fail_Inr split: option.splits if_splits)

lemma idle_Inr: "idle c = Inr u \<longleftrightarrow> c_external_effect c = Not_started"
  by (simp add: idle_def guard_fail_Inr)

lemma bump_case_fields [simp]:
  "c_id (bump_case c) = c_id c" "c_target (bump_case c) = c_target c" "c_state (bump_case c) = c_state c"
  "c_observed_origin (bump_case c) = c_observed_origin c" "c_inputs (bump_case c) = c_inputs c"
  "c_revision (bump_case c) = c_revision c + 1" "c_generation (bump_case c) = c_generation c"
  "c_lead (bump_case c) = c_lead c" "c_members (bump_case c) = c_members c" "c_target_oid (bump_case c) = c_target_oid c"
  "c_external_effect (bump_case c) = c_external_effect c" "c_delivery_pending (bump_case c) = c_delivery_pending c"
  "c_delivery_observed (bump_case c) = c_delivery_observed c" "c_visibility_delta (bump_case c) = c_visibility_delta c"
  by (simp_all add: bump_case_def)

lemma case_changed_commit:
  assumes com: "committing sha s p cmd observed fresh" and res: "commit sha s p cmd observed fresh = Inr (t, r)"
    and up: "upgrade cmd observed s = s" and ap: "apply_command sha s p cmd observed fresh = changed_case s i f"
    and c: "find_case s i = Some c"
    and act: "command_action cmd \<notin> {A_register_task_work, A_extend_observed_case, A_observe_case_delivery}"
    and f: "\<And>c. c_id (f c) = c_id c \<and> c_target (f c) = c_target c \<and> (c_state (f c) = Active \<longrightarrow> c_state c = Active)"
    and rv: "c_revision (f c) = c_revision c"
    and fc: "case_ok (f c)" "\<And>t. cs_works t = cs_works s \<Longrightarrow> cs_revision t = cs_revision s + 1 \<Longrightarrow> case_authority_ok t (bump_case (f c))"
      "\<not> case_observed c \<Longrightarrow> \<not> case_observed (f c)"
  shows "control_ok sha t"
proof -
  note com' = committingD [OF com]
  obtain n e j where n: "apply_command sha (upgrade cmd observed s) p cmd observed fresh = Inr (n, e, j)"
    and t: "t = n\<lparr>cs_revision := cs_revision s + 1, cs_receipts := cs_receipts s @ [r]\<rparr>"
    and r: "r = \<lparr>rc_owner = p, rc_key = operation_key cmd, rc_request_hash = request_hash sha p cmd,
           rc_revision = cs_revision s + 1, rc_action = command_action cmd, rc_entity = e, rc_item_id = j\<rparr>"
    and cap: "checkCapacity t = Inr ()" and same: "same_rest (upgrade cmd observed s) n"
    by (rule commit_InrD [OF res])
  have nf: "n = change_case i (\<lambda>c. bump_case (f c)) s" "e = case_subject i" "j = i"
    using n ap by (auto simp: changed_case_def up)
  have cases: "cs_cases t = map (\<lambda>c. if c_id c = i then bump_case (f c) else c) (cs_cases s)"
    by (simp add: t nf change_case_eq [OF com'(1)])
  note cm = case_members [OF com'(1) c]
  have "fits sha s t r"
    by (rule commit_fits [OF com'(1,2,3,5,6,9) t r same cap]) (simp_all add: nf subject_ok_def cm(3))
  then show ?thesis
  proof (rule control_ok_change_case [OF _ _ _ _ _ _ c _ _ cases])
    have "counter_ok (c_revision c + 1)"
      using counter_Suc [OF _ cm(4) com'(9)] cm(1) by (simp add: case_ok_def)
    then show "case_ok (bump_case (f c))" using fc(1) rv by (simp add: case_ok_def)
    show "case_authority_ok t (bump_case (f c))" by (rule fc(2)) (simp_all add: t nf change_case_def)
    show "\<not> case_observed c \<Longrightarrow> \<not> case_observed (bump_case (f c))" using fc(3) by (simp add: case_observed_def)
  qed (use act f in \<open>auto simp: r t nf change_case_def\<close>)
qed

lemma transfer_case_accepted:
  assumes com: "committing sha s p (Transfer_case k i rv g q) observed fresh"
    and res: "commit sha s p (Transfer_case k i rv g q) observed fresh = Inr (t, r)"
  shows "control_ok sha t"
proof -
  note com' = committingD [OF com]
  obtain x where x: "apply_command sha s p (Transfer_case k i rv g q) observed fresh = Inr x"
    using commit_applies [OF res] by auto
  then obtain c where own: "ownCase s p i rv g = Inr c" and q: "q \<in> set (c_members c)"
    and ch: "changed_case s i (transfer_change q) = Inr x" and idle: "c_external_effect c = Not_started"
    by (auto simp: andThen_Inr_iff guard_fail_Inr idle_Inr)
  have ap: "apply_command sha s p (Transfer_case k i rv g q) observed fresh = changed_case s i (transfer_change q)" by (simp only: x ch)
  note c = ownCase_InrD [OF own, THEN conjunct1]
  note cm = case_members [OF com'(1) c]
  have "c_generation c + 1 \<le> cs_revision s + 1" using cm(5) by simp
  moreover have "counter_ok (c_generation c + 1)"
    using counter_Suc [OF _ cm(5) com'(9)] cm(1) by (simp add: case_ok_def)
  ultimately show ?thesis
    using cm ownCase_InrD [OF own] q com'(4) idle
    by (intro case_changed_commit [OF com res _ ap c])
       (auto simp: transfer_change_def case_ok_def case_observed_def same_inputs_def
         intro!: same_inputs_authority [OF cm(2)])
qed

lemma begin_integration_accepted:
  assumes com: "committing sha s p (Begin_external_integration k i rv g) observed fresh"
    and res: "commit sha s p (Begin_external_integration k i rv g) observed fresh = Inr (t, r)"
  shows "control_ok sha t"
proof -
  note com' = committingD [OF com]
  obtain x where x: "apply_command sha s p (Begin_external_integration k i rv g) observed fresh = Inr x"
    using commit_applies [OF res] by auto
  then obtain c where own: "ownCase s p i rv g = Inr c"
    and ch: "changed_case s i (\<lambda>c. c\<lparr>c_external_effect := Possible\<rparr>) = Inr x"
    by (auto simp: andThen_Inr_iff guard_fail_Inr idle_Inr)
  have ap: "apply_command sha s p (Begin_external_integration k i rv g) observed fresh = changed_case s i (\<lambda>c. c\<lparr>c_external_effect := Possible\<rparr>)" by (simp only: x ch)
  note c = ownCase_InrD [OF own, THEN conjunct1]
  note cm = case_members [OF com'(1) c]
  show ?thesis
    using cm ownCase_InrD [OF own]
    by (intro case_changed_commit [OF com res _ ap c])
       (auto simp: case_ok_def case_observed_def same_inputs_def intro!: same_inputs_authority [OF cm(2)])
qed

lemma record_settlement_accepted:
  assumes com: "committing sha s p (Record_external_settlement k i rv g) observed fresh"
    and res: "commit sha s p (Record_external_settlement k i rv g) observed fresh = Inr (t, r)"
  shows "control_ok sha t"
proof -
  note com' = committingD [OF com]
  obtain x where x: "apply_command sha s p (Record_external_settlement k i rv g) observed fresh = Inr x"
    using commit_applies [OF res] by auto
  then obtain c where own: "ownCase s p i rv g = Inr c"
    and ch: "changed_case s i (\<lambda>c. c\<lparr>c_external_effect := Not_started\<rparr>) = Inr x"
    by (auto simp: andThen_Inr_iff guard_fail_Inr)
  have ap: "apply_command sha s p (Record_external_settlement k i rv g) observed fresh = changed_case s i (\<lambda>c. c\<lparr>c_external_effect := Not_started\<rparr>)" by (simp only: x ch)
  note c = ownCase_InrD [OF own, THEN conjunct1]
  note cm = case_members [OF com'(1) c]
  show ?thesis
    using cm
    by (intro case_changed_commit [OF com res _ ap c])
       (auto simp: case_ok_def case_observed_def same_inputs_def intro!: same_inputs_authority [OF cm(2)])
qed

lemma release_case_accepted:
  assumes com: "committing sha s p (Release_case k i rv g) observed fresh"
    and res: "commit sha s p (Release_case k i rv g) observed fresh = Inr (t, r)"
  shows "control_ok sha t"
proof -
  note com' = committingD [OF com]
  obtain x where x: "apply_command sha s p (Release_case k i rv g) observed fresh = Inr x"
    using commit_applies [OF res] by auto
  then obtain c where own: "ownCase s p i rv g = Inr c" and idle: "c_external_effect c = Not_started"
    and ch: "changed_case s i (\<lambda>c. c\<lparr>c_state := Closed\<rparr>) = Inr x"
    by (auto simp: andThen_Inr_iff guard_fail_Inr idle_Inr)
  have ap: "apply_command sha s p (Release_case k i rv g) observed fresh = changed_case s i (\<lambda>c. c\<lparr>c_state := Closed\<rparr>)" by (simp only: x ch)
  note c = ownCase_InrD [OF own, THEN conjunct1]
  note cm = case_members [OF com'(1) c]
  show ?thesis
    using cm idle
    by (intro case_changed_commit [OF com res _ ap c])
       (auto simp: case_ok_def case_observed_def same_inputs_def intro!: same_inputs_authority [OF cm(2)])
qed

lemma select_authority:
  assumes c: "case_authority_ok s c" and sel: "selection_consistent s c ins oid observed"
    and orig: "\<not> (c_observed_origin c = Some Pending_origin \<and> \<not> observed \<or> observed \<and> c_observed_origin c \<noteq> Some Pending_origin)"
    and idle: "c_external_effect c = Not_started" and t: "cs_works t = cs_works s" "cs_revision t = cs_revision s + 1"
  shows "case_authority_ok t (bump_case (select_change oid ins observed c))"
proof -
  let ?d = "select_change oid ins observed c"
  have find: "find_work t = find_work s" by (simp add: find_work_def fun_eq_iff t)
  have fmt: "input_format_ok t (bump_case ?d) i = input_format_ok s ?d i" for i
    by (simp add: input_format_ok_def find split: option.split)
  have ids: "input_ids (bump_case ?d) = sel_work_id ` set ins" "pending_ids (bump_case ?d) = pending_ids c"
    by (simp_all add: input_ids_def pending_ids_def select_change_def)
  have vd: "vd_work_id x \<in> sel_work_id ` set ins" if "x \<in> set (case_deltas c)" for x
    using that sel by (auto simp: selection_consistent_def)
  have mem: "c_members (bump_case ?d) = c_members c" by (simp add: select_change_def)
  have delta: "delta_authority_ok t (bump_case ?d) x" if "delta_authority_ok s c x" "x \<in> set (case_deltas c)" for x
    using that(1) vd [OF that(2)] unfolding delta_authority_ok_def find ids mem by (simp split: option.splits)
  have inner: "i \<in> set ins \<Longrightarrow> input_format_ok s ?d i" for i using sel by (simp add: selection_consistent_def)
  have origin: "c_observed_origin (select_change oid ins b c) = (if b then Some Selected_origin else c_observed_origin c)" for b
    by (simp add: select_change_def)
  have sub: "set (pending_ids c) \<subseteq> sel_work_id ` set ins" "od_work_id ` set (observed_of_case c) \<subseteq> sel_work_id ` set ins"
    and nonempty: "observed \<or> c_observed_origin c = Some Selected_origin \<Longrightarrow> ins \<noteq> []"
    using sel by (auto simp: selection_consistent_def)
  have fields: "c_delivery_pending (bump_case ?d) = c_delivery_pending c" "c_delivery_observed (bump_case ?d) = c_delivery_observed c"
    "c_visibility_delta (bump_case ?d) = c_visibility_delta c" "c_inputs (bump_case ?d) = ins"
    "c_target_oid (bump_case ?d) = Some oid" "c_external_effect (bump_case ?d) = Not_started"
    using idle by (simp_all add: select_change_def)
  have pend: "c_observed_origin ?d = Some Selected_origin \<and> set l \<subseteq> sel_work_id ` set ins"
    if "c_delivery_pending c = Some l" for l
    using c that sub(1) orig by (auto simp: case_authority_ok_def pending_ids_def origin)
  have obs: "c_observed_origin ?d = Some Selected_origin
      \<and> (\<forall>d \<in> set l. od_work_id d \<in> sel_work_id ` set ins \<and> od_work_id d \<notin> set (pending_ids c))"
    if "c_delivery_observed c = Some l" for l
    using c that sub(2) orig by (auto simp: case_authority_ok_def observed_of_case_def origin)
  have dl: "\<forall>x \<in> set l. delta_authority_ok t (bump_case ?d) x" if "c_visibility_delta c = Some l" for l
    using c that delta by (simp add: case_authority_ok_def case_deltas_def)
  have old: "c_revision c \<le> cs_revision s" "c_generation c \<le> cs_revision s" "c_lead c \<in> set (c_members c)"
    using c by (simp_all add: case_authority_ok_def)
  have basic: "c_revision (bump_case ?d) \<le> cs_revision t" "c_generation (bump_case ?d) \<le> cs_revision t"
    "c_lead (bump_case ?d) \<in> set (c_members (bump_case ?d))"
    using old t(2) by (simp_all add: select_change_def)
  show ?thesis
    unfolding case_authority_ok_def fields ids
    using basic pend obs dl fmt inner nonempty orig
    by (auto simp: origin split: option.split)
qed

lemma select_inputs_accepted:
  assumes com: "committing sha s p (Select_inputs k i rv g oid ins) observed fresh"
    and res: "commit sha s p (Select_inputs k i rv g oid ins) observed fresh = Inr (t, r)"
  shows "control_ok sha t"
proof -
  note com' = committingD [OF com]
  obtain x where x: "apply_command sha s p (Select_inputs k i rv g oid ins) observed fresh = Inr x"
    using commit_applies [OF res] by auto
  then obtain c where own: "ownCase s p i rv g = Inr c" and idle: "c_external_effect c = Not_started"
    and orig: "\<not> (c_observed_origin c = Some Pending_origin \<and> \<not> observed \<or> observed \<and> c_observed_origin c \<noteq> Some Pending_origin)"
    and ch: "changed_case s i (select_change oid ins observed) = Inr x"
    unfolding apply_command.simps apply_case.simps andThen_Inr_iff guard_fail_Inr idle_Inr by (elim exE conjE) blast
  have ap: "apply_command sha s p (Select_inputs k i rv g oid ins) observed fresh = changed_case s i (select_change oid ins observed)"
    by (simp only: x ch)
  note c = ownCase_InrD [OF own, THEN conjunct1]
  note cm = case_members [OF com'(1) c]
  have sel: "selection_consistent s c ins oid observed" using com'(10) c by (simp add: publishable_def)
  show ?thesis
  proof (rule case_changed_commit [OF com res _ ap c])
    show "case_ok (select_change oid ins observed c)"
      using cm(1) com'(4) by (simp add: case_ok_def select_change_def)
    show "case_authority_ok u (bump_case (select_change oid ins observed c))"
      if "cs_works u = cs_works s" "cs_revision u = cs_revision s + 1" for u
      by (rule select_authority [OF cm(2) sel orig idle that])
    show "\<not> case_observed c \<Longrightarrow> \<not> case_observed (select_change oid ins observed c)"
      using orig by (simp add: case_observed_def select_change_def)
  qed (simp_all add: select_change_def)
qed

lemma foldr_max_le: "(\<And>x. x \<in> set xs \<Longrightarrow> x \<le> b) \<Longrightarrow> foldr max xs 0 \<le> (b::nat)"
  by (induction xs) auto

lemma next_generation_le:
  assumes "control_ok sha s"
  shows "next_generation s t \<le> cs_revision s + 1"
proof -
  have "c_generation c \<le> cs_revision s" if "c \<in> set (cs_cases s)" for c
    using control_okD(6) [OF assms that] by (simp add: case_authority_ok_def)
  then show ?thesis by (auto simp: next_generation_def intro!: foldr_max_le)
qed

lemma parents_ok_uniq: "(\<And>x. x \<in> set xs \<Longrightarrow> parent_ok x) \<Longrightarrow> length (uniq xs) \<le> MAX_PARTIES \<Longrightarrow> parents_ok (uniq xs)"
  by (simp add: parents_ok_def list_ok_def unique_by_def)

lemma claim_target_accepted:
  assumes com: "committing sha s p (Claim_target k tg ms) observed fresh"
    and res: "commit sha s p (Claim_target k tg ms) observed fresh = Inr (t, r)"
  shows "control_ok sha t"
proof -
  let ?cmd = "Claim_target k tg ms" let ?u = "upgrade ?cmd observed s"
  note com' = committingD [OF com]
  obtain n e j where n: "apply_command sha ?u p ?cmd observed fresh = Inr (n, e, j)"
    and t: "t = n\<lparr>cs_revision := cs_revision s + 1, cs_receipts := cs_receipts s @ [r]\<rparr>"
    and r: "r = \<lparr>rc_owner = p, rc_key = operation_key ?cmd, rc_request_hash = request_hash sha p ?cmd,
           rc_revision = cs_revision s + 1, rc_action = command_action ?cmd, rc_entity = e, rc_item_id = j\<rparr>"
    and cap: "checkCapacity t = Inr ()" and same: "same_rest ?u n"
    by (rule commit_InrD [OF res])
  let ?c = "new_case ?u fresh p tg ms observed"
  have nf: "n = add_case ?c ?u" "e = case_subject fresh" "j = fresh"
    and held: "\<not> (\<exists>c \<in> set (cs_cases s). c_target c = tg \<and> c_state c = Active)"
    using n by (auto simp del: upgrade.simps split: if_splits)
  have gen: "next_generation ?u tg \<le> cs_revision s + 1" "1 \<le> next_generation ?u tg"
    using next_generation_le [OF com'(1)] by (simp_all add: next_generation_def del: upgrade.simps)
  have ms: "parent_ok x" if "x \<in> set (p # ms)" for x
    using that com'(3,4) by (auto simp: parents_ok_def list_ok_def)
  have len: "length (uniq (p # ms)) \<le> MAX_PARTIES" using com'(10) by (simp add: publishable_def del: uniq.simps)
  have schema: "cs_schema t = cs_schema s \<or> cs_schema t = OBSERVED_CASE_CONTROL_SCHEMA"
    by (simp add: t nf add_case_def)
  have fit: "fits sha s t r"
    by (rule commit_fits [OF com'(1,2,3,5,6,9) t r same cap]) (simp_all add: nf subject_ok_def com'(7))
  show ?thesis
  proof (rule control_ok_add_case [OF fit schema, where c = ?c])
    show "length (cs_cases t) \<le> lim_cases (cs_limits s)"
      using checkCapacityD(2) [OF cap] by (simp add: t nf add_case_def del: upgrade.simps)
    show "case_ok ?c"
      using com' gen parents_ok_uniq [OF ms len]
      by (simp add: case_ok_def new_case_def counter_ok_def selections_ok_def list_ok_def unique_by_def del: upgrade.simps uniq.simps)
    show "case_authority_ok t ?c"
      using gen by (simp add: case_authority_ok_def new_case_def t del: upgrade.simps)
    show "case_observed ?c \<Longrightarrow> cs_schema t = OBSERVED_CASE_CONTROL_SCHEMA"
      by (auto simp: case_observed_def new_case_def t nf add_case_def split: if_splits)
  qed (use com' held in \<open>auto simp: r t nf add_case_def new_case_def simp del: upgrade.simps\<close>)
qed

section \<open>Notes\<close>

lemma parents_ok_within:
  assumes "parents_ok ps" and "distinct qs" and "set qs \<subseteq> set ps"
  shows "parents_ok qs"
proof -
  have "length qs = card (set qs)" using assms(2) by (simp add: distinct_card)
  also have "\<dots> \<le> card (set ps)" using assms(3) by (simp add: card_mono)
  also have "\<dots> \<le> length ps" by (rule card_length)
  finally show ?thesis using assms by (auto simp: parents_ok_def list_ok_def unique_by_def)
qed

lemma find_ids:
  assumes "control_ok sha s"
  shows "find_work s i = Some w \<Longrightarrow> i \<in> w_id ` set (cs_works s)" "find_case s i = Some c \<Longrightarrow> i \<in> c_id ` set (cs_cases s)"
  using find_work_iff [OF assms, of i w] imageI [of w "set (cs_works s)" w_id]
    find_case_iff [OF assms, of i c] imageI [of c "set (cs_cases s)" c_id] by simp_all

lemma note_refs_ok:
  assumes ok: "control_ok sha s" and x: "subject_ok x" and "subject_exists s x"
  shows "entities_ok MAX_REGIONS (note_refs s x) \<and> set (note_refs s x) \<subseteq> w_id ` set (cs_works s)"
proof (cases "s_kind x")
  case SWork
  then show ?thesis using assms
    by (simp add: note_refs_def entities_ok_def list_ok_def unique_by_def subject_ok_def subject_exists_def MAX_REGIONS_def)
next
  case SCase
  show ?thesis
  proof (cases "find_case s (s_id x)")
    case None
    then show ?thesis using SCase by (simp add: note_refs_def entities_ok_def list_ok_def unique_by_def)
  next
    case (Some c)
    note cm = case_members [OF ok Some]
    have "list_ok MAX_REGIONS selection_ok sel_work_id (c_inputs c)" using cm(1) by (simp add: case_ok_def selections_ok_def)
    then have "entities_ok MAX_REGIONS (map sel_work_id (c_inputs c))"
      by (auto simp: entities_ok_def list_ok_def unique_by_def selection_ok_def)
    moreover have "sel_work_id i \<in> w_id ` set (cs_works s)" if "i \<in> set (c_inputs c)" for i
    proof -
      have "input_format_ok s c i" using cm(2) that by (simp add: case_authority_ok_def)
      then obtain w where "find_work s (sel_work_id i) = Some w" by (auto simp: input_format_ok_def split: option.splits)
      then show ?thesis using find_work_iff [OF ok] by force
    qed
    ultimately show ?thesis using SCase Some by (auto simp: note_refs_def)
  qed
qed

lemma note_readers_ok:
  assumes ok: "control_ok sha s" and len: "case note_readers s x of None \<Rightarrow> True | Some rs \<Rightarrow> length rs \<le> MAX_PARTIES"
  shows "opt_ok parents_ok (note_readers s x)"
proof (cases "s_kind x")
  case SWork
  show ?thesis
  proof (cases "find_work s (s_id x)")
    case (Some w)
    have "work_ok w" by (rule work_members(1) [OF ok Some])
    then have "parent_ok q" if "q \<in> set (w_owner w # w_readers w)" for q
      using that by (auto simp: work_ok_def parents_ok_def list_ok_def)
    then show ?thesis using len parents_ok_uniq [of "w_owner w # w_readers w"]
      by (simp add: note_readers_def SWork Some del: uniq.simps)
  qed (simp add: note_readers_def SWork)
next
  case SCase
  then show ?thesis using case_members(1) [OF ok, of "s_id x"]
    by (auto simp: note_readers_def case_ok_def split: option.split)
qed

lemma post_note_accepted:
  assumes com: "committing sha s p (Post_note k x nk txt ps) observed fresh"
    and res: "commit sha s p (Post_note k x nk txt ps) observed fresh = Inr (t, r)"
  shows "control_ok sha t"
proof -
  let ?cmd = "Post_note k x nk txt ps" let ?u = "upgrade ?cmd observed s"
  note com' = committingD [OF com]
  obtain n e j where n: "apply_command sha ?u p ?cmd observed fresh = Inr (n, e, j)"
    and t: "t = n\<lparr>cs_revision := cs_revision s + 1, cs_receipts := cs_receipts s @ [r]\<rparr>"
    and r: "r = \<lparr>rc_owner = p, rc_key = operation_key ?cmd, rc_request_hash = request_hash sha p ?cmd,
           rc_revision = cs_revision s + 1, rc_action = command_action ?cmd, rc_entity = e, rc_item_id = j\<rparr>"
    and cap: "checkCapacity t = Inr ()" and same: "same_rest ?u n"
    by (rule commit_InrD [OF res])
  let ?n = "new_note ?u fresh p x nk txt ps"
  have nf: "n = add_note ?n ?u" "e = x" "j = fresh" and sub: "requireSubject sha ?u p x = Inr ()"
    using n by (auto simp: andThen_Inr_iff simp del: upgrade.simps)
  have schema: "cs_schema t = cs_schema s \<or> cs_schema t = OBSERVED_CASE_CONTROL_SCHEMA"
    by (simp add: t nf add_note_def)
  have fit: "fits sha s t r"
    by (rule commit_fits [OF com'(1,2,3,5,6,9) t r same cap]) (use com'(4,7) in \<open>simp_all add: nf\<close>)
  have refs: "note_refs ?u x = note_refs s x" and readers: "note_readers ?u x = note_readers s x"
    by (simp_all add: note_refs_def note_readers_def del: upgrade.simps split: subject_kind.split)
  have subject: "subject_exists s x"
    using sub find_ids [OF com'(1)]
    by (auto simp: requireSubject_def visibleWork_def visibleCase_def subject_exists_def simp del: upgrade.simps
        split: subject_kind.splits option.splits if_splits)
  have ref_ok: "entities_ok MAX_REGIONS (note_refs s x) \<and> set (note_refs s x) \<subseteq> w_id ` set (cs_works s)"
    by (rule note_refs_ok [OF com'(1)]) (use com'(4) subject in simp_all)
  have readers_ok: "opt_ok parents_ok (note_readers s x)"
    by (rule note_readers_ok [OF com'(1)]) (use com'(10) in \<open>simp add: publishable_def\<close>)
  have readers_schema: "cs_schema t = OBSERVED_CASE_CONTROL_SCHEMA" if some: "note_readers s x \<noteq> None"
  proof (cases "s_kind x")
    case SWork
    then show ?thesis using control_okD(1) [OF com'(1)] by (auto simp: t nf add_note_def control_records_ok_def)
  next
    case SCase
    then obtain c where "find_case s (s_id x) = Some c" "c_observed_origin c \<noteq> None"
      using some by (auto simp: note_readers_def split: option.splits if_splits)
    then have "\<not> cs_schema s < OBSERVED_CASE_CONTROL_SCHEMA"
      using control_okD(2) [OF com'(1)] find_case_iff [OF com'(1)] by (auto simp: version_features_ok_def case_observed_def)
    then show ?thesis using schema control_okD(1) [OF com'(1)] by (auto simp: control_records_ok_def)
  qed
  show ?thesis
  proof (rule control_ok_add_note [OF fit schema, where n = ?n])
    show "length (cs_notes t) \<le> lim_notes (cs_limits s)"
      using checkCapacityD(3) [OF cap] by (simp add: t nf add_note_def del: upgrade.simps)
    show "note_ok ?n"
      using com' ref_ok readers_ok
      by (simp add: note_ok_def new_note_def refs readers parents_ok_def list_ok_def unique_by_def del: upgrade.simps)
    have "length txt \<le> lim_note_bytes (cs_limits t)"
      using checkCapacityD(5) [OF cap, of ?n] by (simp add: t nf add_note_def new_note_def del: upgrade.simps)
    then show "note_authority_ok t ?n"
      using ref_ok subject
      by (auto simp: note_authority_ok_def new_note_def t nf add_note_def refs subject_exists_def note_refs_def
          simp del: upgrade.simps split: subject_kind.splits)
    show "n_readers ?n \<noteq> None \<Longrightarrow> cs_schema t = OBSERVED_CASE_CONTROL_SCHEMA"
      using readers_schema by (simp add: new_note_def readers del: upgrade.simps)
  qed (use com' in \<open>auto simp: r t nf add_note_def new_note_def simp del: upgrade.simps\<close>)
qed

lemma note_changed_commit:
  assumes com: "committing sha s p cmd observed fresh" and res: "commit sha s p cmd observed fresh = Inr (t, r)"
    and up: "upgrade cmd observed s = s" and n: "find_note s i = Some n"
    and ap: "apply_command sha s p cmd observed fresh = Inr (change_note (n_id n) f s, n_subject n, n_id n)"
    and act: "command_action cmd \<notin> {A_register_task_work, A_extend_observed_case, A_observe_case_delivery}"
    and f: "\<And>n. n_id (f n) = n_id n \<and> n_subject (f n) = n_subject n \<and> n_work_refs (f n) = n_work_refs n
      \<and> n_text (f n) = n_text n \<and> n_readers (f n) = n_readers n" and fn: "note_ok (f n)"
  shows "control_ok sha t"
proof -
  note com' = committingD [OF com]
  obtain m e j where m: "apply_command sha (upgrade cmd observed s) p cmd observed fresh = Inr (m, e, j)"
    and t: "t = m\<lparr>cs_revision := cs_revision s + 1, cs_receipts := cs_receipts s @ [r]\<rparr>"
    and r: "r = \<lparr>rc_owner = p, rc_key = operation_key cmd, rc_request_hash = request_hash sha p cmd,
           rc_revision = cs_revision s + 1, rc_action = command_action cmd, rc_entity = e, rc_item_id = j\<rparr>"
    and cap: "checkCapacity t = Inr ()" and same: "same_rest (upgrade cmd observed s) m"
    by (rule commit_InrD [OF res])
  have ni: "n \<in> set (cs_notes s)" "n_id n = i" using n find_note_iff [OF com'(1)] by auto
  have mf: "m = change_note i f s" "e = n_subject n" "j = i" using m ap ni by (auto simp: up)
  have nok: "note_ok n" by (rule control_members(3) [OF com'(1) ni(1)])
  have ns: "cs_notes t = map (\<lambda>n. if n_id n = i then f n else n) (cs_notes s)"
    by (simp add: t mf change_note_eq [OF com'(1)])
  have fit: "fits sha s t r"
    by (rule commit_fits [OF com'(1,2,3,5,6,9) t r same cap]) (use nok ni(2) in \<open>auto simp: mf note_ok_def\<close>)
  show ?thesis
    by (rule control_ok_change_note [OF fit _ _ n _ _ _ _ ns f fn])
       (use act in \<open>simp_all add: r t mf change_note_def\<close>)
qed

lemma ack_note_accepted:
  assumes com: "committing sha s p (Ack_note k i) observed fresh"
    and res: "commit sha s p (Ack_note k i) observed fresh = Inr (t, r)"
  shows "control_ok sha t"
proof -
  note com' = committingD [OF com]
  obtain x where x: "apply_command sha s p (Ack_note k i) observed fresh = Inr x"
    using commit_applies [OF res] by auto
  then obtain n where n: "find_note s i = Some n" and ack: "acknowledge sha s p n = Inr x"
    by (auto split: option.splits)
  from ack have x': "x = (change_note (n_id n) (ack_change p) s, n_subject n, n_id n)"
    and p: "p \<in> set (n_parties n)" "p \<notin> set (n_acknowledged n)"
    by (auto simp: acknowledge_def andThen_Inr_iff guard_fail_Inr)
  have nok: "note_ok n" using control_members(3) [OF com'(1)] n find_note_iff [OF com'(1)] by auto
  have "parents_ok (n_acknowledged n @ [p])"
    by (rule parents_ok_within [of "n_parties n"])
       (use nok p in \<open>auto simp: note_ok_def parents_ok_def list_ok_def unique_by_def\<close>)
  then have "note_ok (ack_change p n)" using nok p by (simp add: note_ok_def ack_change_def)
  then show ?thesis
    using note_changed_commit [OF com res _ n, of "ack_change p"] x x' by (simp add: ack_change_def)
qed

lemma withdraw_note_accepted:
  assumes com: "committing sha s p (Withdraw_note k i) observed fresh"
    and res: "commit sha s p (Withdraw_note k i) observed fresh = Inr (t, r)"
  shows "control_ok sha t"
proof -
  note com' = committingD [OF com]
  obtain x where x: "apply_command sha s p (Withdraw_note k i) observed fresh = Inr x"
    using commit_applies [OF res] by auto
  then obtain n where n: "find_note s i = Some n" and wd: "withdraw sha s p n = Inr x"
    by (auto split: option.splits)
  from wd have x': "x = (change_note (n_id n) withdraw_change s, n_subject n, n_id n)"
    by (auto simp: withdraw_def andThen_Inr_iff guard_fail_Inr split: if_splits)
  have "note_ok n" using control_members(3) [OF com'(1)] n find_note_iff [OF com'(1)] by auto
  then have "note_ok (withdraw_change n)" by (simp add: note_ok_def withdraw_change_def)
  then show ?thesis
    using note_changed_commit [OF com res _ n, of withdraw_change] x x' by (simp add: withdraw_change_def)
qed

section \<open>Registration\<close>

lemma workspace_held_upgrade [simp]: "workspace_held (upgrade cmd observed s) ws = workspace_held s ws"
  by (simp add: workspace_held_def)

lemma new_work_ok:
  assumes "entity_ok i" "parent_ok p" "workspace_ok ws oid fmt" "regions_ok areas" "text_ok 4096 True intent" "parents_ok rs"
    and "opt_ok managed_ok m"
  shows "work_ok (new_work i p ws oid fmt intent areas rs m)"
  using assms
  by (simp add: work_ok_def new_work_def workspace_ok_def work_watches_def counter_ok_def MAX_SAFE_INTEGER_def
      assertWatchInventory_def region_total_def all_overrides_def)

lemma new_work_fields [simp]:
  "w_id (new_work i p ws oid fmt intent areas rs m) = i" "w_owner (new_work i p ws oid fmt intent areas rs m) = p"
  "w_workspace_id (new_work i p ws oid fmt intent areas rs m) = ws" "w_readers (new_work i p ws oid fmt intent areas rs m) = rs"
  "w_managed (new_work i p ws oid fmt intent areas rs m) = m" "w_revision (new_work i p ws oid fmt intent areas rs m) = 1"
  "w_source_grants (new_work i p ws oid fmt intent areas rs m) = None"
  "w_source_watches (new_work i p ws oid fmt intent areas rs m) = None"
  by (simp_all add: new_work_def)

lemma register_work_accepted:
  assumes com: "committing sha s p (Register_work k ws oid fmt intent areas rs) observed fresh"
    and res: "commit sha s p (Register_work k ws oid fmt intent areas rs) observed fresh = Inr (t, r)"
  shows "control_ok sha t"
proof -
  let ?cmd = "Register_work k ws oid fmt intent areas rs"
  note com' = committingD [OF com]
  obtain n e j where n: "apply_command sha (upgrade ?cmd observed s) p ?cmd observed fresh = Inr (n, e, j)"
    and t: "t = n\<lparr>cs_revision := cs_revision s + 1, cs_receipts := cs_receipts s @ [r]\<rparr>"
    and r: "r = \<lparr>rc_owner = p, rc_key = operation_key ?cmd, rc_request_hash = request_hash sha p ?cmd,
           rc_revision = cs_revision s + 1, rc_action = command_action ?cmd, rc_entity = e, rc_item_id = j\<rparr>"
    and cap: "checkCapacity t = Inr ()" and same: "same_rest (upgrade ?cmd observed s) n"
    by (rule commit_InrD [OF res])
  let ?w = "new_work fresh p ws oid fmt intent areas rs None"
  have nf: "n = add_work ?w s" "e = work_subject fresh" "j = fresh" and held: "\<not> workspace_held s ws" and p: "p \<notin> set rs"
    using n by (auto split: if_splits)
  have fit: "fits sha s t r"
    by (rule commit_fits [OF com'(1,2,3,5,6,9) t r same cap]) (simp_all add: nf subject_ok_def com'(7))
  have works: "cs_works t = cs_works s @ [?w]" by (simp add: t nf add_work_def)
  have enr: "enrollments t = enrollments s"
    by (rule enrollments_ordinary [OF fitsD(2) [OF fit]]) (simp add: r)
  show ?thesis
  proof (rule control_ok_add_work [OF fit _ _ _ _ works])
    show "length (cs_works t) \<le> lim_works (cs_limits s)"
      using checkCapacityD(1) [OF cap] by (simp add: t nf add_work_def)
    show "work_ok ?w" by (rule new_work_ok) (use com' in simp_all)
    show "enrollment_ok sha t"
      by (rule enrollment_add_unmanaged [OF control_okD(3) [OF com'(1)] works _ _ enr])
         (use com'(8) in \<open>auto simp: all_ids_def\<close>)
  qed (use com' held p in \<open>simp_all add: r t nf add_work_def\<close>)
qed

lemma register_task_work_accepted:
  assumes com: "committing sha s p (Register_task_work k ws oid fmt intent areas m) observed fresh"
    and res: "commit sha s p (Register_task_work k ws oid fmt intent areas m) observed fresh = Inr (t, r)"
  shows "control_ok sha t"
proof -
  let ?cmd = "Register_task_work k ws oid fmt intent areas m"
  note com' = committingD [OF com]
  obtain n e j where n: "apply_command sha (upgrade ?cmd observed s) p ?cmd observed fresh = Inr (n, e, j)"
    and t: "t = n\<lparr>cs_revision := cs_revision s + 1, cs_receipts := cs_receipts s @ [r]\<rparr>"
    and r: "r = \<lparr>rc_owner = p, rc_key = operation_key ?cmd, rc_request_hash = request_hash sha p ?cmd,
           rc_revision = cs_revision s + 1, rc_action = command_action ?cmd, rc_entity = e, rc_item_id = j\<rparr>"
    and cap: "checkCapacity t = Inr ()" and same: "same_rest (upgrade ?cmd observed s) n"
    by (rule commit_InrD [OF res])
  let ?i = "m_task_id m" let ?w = "new_work ?i p ws oid fmt intent areas [] (Some m)"
  have nf: "n = add_work ?w (upgrade ?cmd observed s)" "e = work_subject ?i" "j = ?i" and held: "\<not> workspace_held s ws"
    using n by (auto simp del: upgrade.simps split: if_splits)
  have new: "?i \<notin> set (all_ids s)" using com'(10) by (simp add: publishable_def)
  have args: "workspace_ok ws oid fmt" "managed_ok m" "regions_ok areas" "text_ok 4096 True intent"
    "\<not> (m_areas_source m = Not_declared \<and> areas \<noteq> [])" "entity_ok ?i"
    using com'(4) by (auto simp: managed_ok_def)
  have fit: "fits sha s t r"
    by (rule commit_fits [OF com'(1,2,3,5,6,9) t r same cap]) (simp_all add: nf subject_ok_def args)
  have works: "cs_works t = cs_works s @ [?w]" by (simp add: t nf add_work_def del: upgrade.simps)
  have managed: "MANAGED_CONTROL_SCHEMA \<le> cs_schema t" by (auto simp: t nf add_work_def schema_defs)
  have enr: "enrollments t = enrollments s @ [r]" by (simp add: t enrollments_def r)
  show ?thesis
  proof (rule control_ok_add_work [OF fit _ _ _ _ works])
    show "length (cs_works t) \<le> lim_works (cs_limits s)"
      using checkCapacityD(1) [OF cap] by (simp add: t nf add_work_def del: upgrade.simps)
    show "work_ok ?w"
      by (rule new_work_ok) (use com'(3) args in \<open>simp_all add: parents_ok_def list_ok_def unique_by_def\<close>)
    show "enrollment_ok sha t"
      by (rule enrollment_add_managed [OF control_okD(3) [OF com'(1)] works _ _ enr])
         (use new args in \<open>auto simp: all_ids_def r nf new_work_def\<close>)
  qed (use new held managed in \<open>simp_all add: r t nf add_work_def del: upgrade.simps\<close>)
qed

section \<open>Every command\<close>

theorem commit_keeps_control_ok:
  assumes "committing sha s p cmd observed fresh" and "commit sha s p cmd observed fresh = Inr (t, r)"
  shows "control_ok sha t"
  using assms
  by (cases cmd)
     (simp_all only: register_task_work_accepted register_work_accepted share_work_accepted grant_source_accepted
       watch_source_accepted close_work_accepted post_note_accepted ack_note_accepted withdraw_note_accepted
       claim_target_accepted select_inputs_accepted transfer_case_accepted release_case_accepted
       begin_integration_accepted record_settlement_accepted)

end
