(* ===== verification/Control_Follow.thy ===== *)
theory Control_Follow
  imports Control_Publish_Cases
begin

text \<open>
  The record after a committed command is one that may follow its predecessor:
  \<open>assertControlTransition\<close> of the store accepts it. One lemma per kind of change, over
  what the commands preserve.
\<close>

section \<open>Ordinary publications\<close>

lemma each_res_okI: "(\<And>x. x \<in> set xs \<Longrightarrow> f x = Inr ()) \<Longrightarrow> each_res f xs = Inr ()"
  by (induction xs) auto

lemma ordinary_transition:
  assumes st: "ordinary_step s t r" and "schema_step_ok s t" and "enrollment_transition_ok s t" and "source_transition_ok s t"
    and "\<And>w. w \<in> set (cs_works s) \<Longrightarrow> work_transition_ok sha s t None w"
    and "\<And>c. c \<in> set (cs_cases s) \<Longrightarrow> case_transition sha s t None c = Inr ()"
    and "\<And>n. n \<in> set (cs_notes s) \<Longrightarrow> note_transition_ok t n"
  shows "assertControlTransition sha s t = Inr ()"
proof -
  have "each_res (\<lambda>w. guard_fail (\<not> work_transition_ok sha s t None w) INVALID) (cs_works s) = Inr ()"
    by (rule each_res_okI) (simp add: assms(5))
  moreover have "each_res (case_transition sha s t None) (cs_cases s) = Inr ()"
    by (rule each_res_okI) (rule assms(6))
  moreover have "each_res (\<lambda>n. guard_fail (\<not> note_transition_ok t n) INVALID) (cs_notes s) = Inr ()"
    by (rule each_res_okI) (simp add: assms(7))
  ultimately show ?thesis
    using assms(1-4) by (simp add: assertControlTransition_def Let_def ordinary_step_def same_identity_def)
qed

lemma appended_action_ordinary:
  "ordinary_step s t r \<Longrightarrow> appended_action s t a = (if rc_action r = a then Some r else None)"
  by (simp add: appended_action_def appended_receipt_def ordinary_step_def)

lemma work_identity_refl: "work_identity_ok w w"
  by (simp add: work_identity_ok_def)

lemma work_transition_same:
  assumes "ordinary_step s t r" and "find_work t (w_id w) = Some w"
    and "rc_action r \<in> {A_grant_source, A_watch_source} \<Longrightarrow> rc_item_id r \<noteq> w_id w"
  shows "work_transition_ok sha s t None w"
  using assms
  by (auto simp: work_transition_ok_def appended_action_ordinary work_identity_refl split: option.split)

lemma case_transition_same:
  assumes "ordinary_step s t r" and "find_case t (c_id c) = Some c"
    and "rc_action r \<notin> {A_extend_observed_case, A_observe_case_delivery}"
  shows "case_transition sha s t None c = Inr ()"
  using assms
  by (auto simp: case_transition_def appended_action_ordinary case_identity_ok_def)

lemma note_transition_same: "List.find (\<lambda>m. n_id m = n_id n) (cs_notes t) = Some n \<Longrightarrow> note_transition_ok t n"
  by (cases n) (simp add: note_transition_ok_def)

lemma same_cases_transition:
  assumes "control_ok sha s" and "ordinary_step s t r" and "cs_cases t = cs_cases s @ cs" and "c \<in> set (cs_cases s)"
    and "rc_action r \<notin> {A_extend_observed_case, A_observe_case_delivery}"
  shows "case_transition sha s t None c = Inr ()"
proof (rule case_transition_same [OF assms(2)])
  have "find_case s (c_id c) = Some c" using find_case_iff [OF assms(1)] assms(4) by simp
  then show "find_case t (c_id c) = Some c" by (simp add: find_case_def assms(3) find_append)
qed (rule assms(5))

lemma same_notes_transition:
  assumes "control_ok sha s" and "cs_notes t = cs_notes s @ ns" and "n \<in> set (cs_notes s)"
  shows "note_transition_ok t n"
proof (rule note_transition_same)
  have "find_note s (n_id n) = Some n" using find_note_iff [OF assms(1)] assms(3) by simp
  then show "List.find (\<lambda>m. n_id m = n_id n) (cs_notes t) = Some n"
    by (simp add: find_note_def assms(2) find_append)
qed

lemma same_works_transition:
  assumes "control_ok sha s" and "ordinary_step s t r" and "cs_works t = cs_works s @ ws" and "w \<in> set (cs_works s)"
    and "rc_action r \<notin> {A_grant_source, A_watch_source}"
  shows "work_transition_ok sha s t None w"
proof (rule work_transition_same [OF assms(2)])
  have "find_work s (w_id w) = Some w" using find_work_iff [OF assms(1)] assms(4) by simp
  then show "find_work t (w_id w) = Some w" by (simp add: find_work_def assms(3) find_append)
qed (use assms(5) in auto)

lemma enrollment_transition_other:
  "ordinary_step s t r \<Longrightarrow> rc_action r \<noteq> A_register_task_work \<Longrightarrow> enrollment_transition_ok s t"
  by (simp add: enrollment_transition_ok_def appended_action_ordinary)

lemma source_transition_other:
  "ordinary_step s t r \<Longrightarrow> rc_action r \<notin> {A_grant_source, A_watch_source} \<Longrightarrow> source_transition_ok s t"
  by (simp add: source_transition_ok_def appended_action_ordinary)

lemma schema_step_ordinary:
  assumes "ordinary_step s t r"
    and "cs_schema t = cs_schema s
      \<or> cs_schema t = MANAGED_CONTROL_SCHEMA \<and> rc_action r = A_register_task_work
      \<or> cs_schema t = SOURCE_GRANT_CONTROL_SCHEMA \<and> rc_action r = A_grant_source
      \<or> cs_schema t = SOURCE_WATCH_CONTROL_SCHEMA \<and> rc_action r = A_watch_source
      \<or> cs_schema t = OBSERVED_CASE_CONTROL_SCHEMA \<and> (rc_action r = A_claim_target \<or> rc_action r = A_post_note)"
  shows "schema_step_ok s t"
  using assms by (auto simp: schema_step_ok_def ordinary_step_def)

section \<open>One lemma per kind of change\<close>

text \<open>What each command does to one work.\<close>

definition work_step_ok :: "(string \<Rightarrow> string) \<Rightarrow> receipt \<Rightarrow> work \<Rightarrow> work \<Rightarrow> bool" where
  "work_step_ok sha r w x =
     (work_identity_ok w x
    \<and> (if rc_action r = A_grant_source then grant_transition_ok sha r w x
       else if rc_action r = A_watch_source then watch_transition_ok sha r w x
       else w_revision x = w_revision w + 1 \<and> work_grants x = [] \<and> work_watches x = []))"

lemma changed_work_transition:
  assumes ok: "control_ok sha s" and st: "ordinary_step s t r"
    and works: "cs_works t = map (\<lambda>w. if w_id w = i then f w else w) (cs_works s)"
    and rest: "cs_cases t = cs_cases s" "cs_notes t = cs_notes s"
    and w: "find_work s i = Some w" and item: "rc_item_id r = i" and idf: "\<And>w. w_id (f w) = w_id w"
    and f: "work_step_ok sha r w (f w)"
    and act: "rc_action r \<notin> {A_register_task_work, A_extend_observed_case, A_observe_case_delivery}"
    and schema: "schema_step_ok s t"
      "rc_action r \<in> {A_grant_source, A_watch_source} \<Longrightarrow> SOURCE_GRANT_CONTROL_SCHEMA \<le> cs_schema t"
      "rc_action r = A_watch_source \<Longrightarrow> SOURCE_WATCH_CONTROL_SCHEMA \<le> cs_schema t"
  shows "assertControlTransition sha s t = Inr ()"
proof (rule ordinary_transition [OF st schema(1)])
  show "enrollment_transition_ok s t" by (rule enrollment_transition_other [OF st]) (use act in simp)
  show "source_transition_ok s t"
    using schema(2,3) find_ids(1) [OF ok w] item rest
    by (auto simp: source_transition_ok_def appended_action_ordinary [OF st] works split: if_splits)
  show "case_transition sha s t None c = Inr ()" if "c \<in> set (cs_cases s)" for c
    by (rule same_cases_transition [OF ok st _ that, of "[]"]) (use act rest in simp_all)
  show "note_transition_ok t n" if "n \<in> set (cs_notes s)" for n
    by (rule same_notes_transition [OF ok _ that, of t "[]"]) (use rest in simp)
  fix x assume x: "x \<in> set (cs_works s)"
  have find: "find_work t j = map_option (\<lambda>w. if w_id w = i then f w else w) (find_work s j)" for j
    unfolding find_work_def works by (rule find_map_upd) (simp add: idf)
  have xs: "find_work s (w_id x) = Some x" using find_work_iff [OF ok] x by simp
  show "work_transition_ok sha s t None x"
  proof (cases "w_id x = i")
    case True
    then have "x = w" using xs w by simp
    then show ?thesis
      using f find [of i] w True item
      by (auto simp: work_transition_ok_def appended_action_ordinary [OF st] work_step_ok_def split: if_splits)
  next
    case False
    then show ?thesis by (intro work_transition_same [OF st]) (simp_all add: find xs item)
  qed
qed

lemma added_work_transition:
  assumes ok: "control_ok sha s" and st: "ordinary_step s t r" and works: "cs_works t = cs_works s @ [w]"
    and rest: "cs_cases t = cs_cases s" "cs_notes t = cs_notes s" and schema: "schema_step_ok s t"
    and act: "rc_action r \<notin> {A_grant_source, A_watch_source, A_extend_observed_case, A_observe_case_delivery}"
    and enrolled: "rc_action r = A_register_task_work \<Longrightarrow> MANAGED_CONTROL_SCHEMA \<le> cs_schema t \<and> w_managed w \<noteq> None
       \<and> w_owner w = rc_owner r \<and> w_revision w = 1 \<and> w_state w = Active \<and> w_readers w = [] \<and> rc_item_id r = w_id w"
  shows "assertControlTransition sha s t = Inr ()"
proof (rule ordinary_transition [OF st schema])
  show "enrollment_transition_ok s t"
    using enrolled rest st by (auto simp: enrollment_transition_ok_def appended_action_ordinary [OF st] works ordinary_step_def)
  show "source_transition_ok s t" by (rule source_transition_other [OF st]) (use act in simp)
  show "case_transition sha s t None c = Inr ()" if "c \<in> set (cs_cases s)" for c
    by (rule same_cases_transition [OF ok st _ that, of "[]"]) (use act rest in simp_all)
  show "note_transition_ok t n" if "n \<in> set (cs_notes s)" for n
    by (rule same_notes_transition [OF ok _ that, of t "[]"]) (use rest in simp)
  show "work_transition_ok sha s t None x" if "x \<in> set (cs_works s)" for x
    by (rule same_works_transition [OF ok st works that]) (use act in simp)
qed

lemma same_works_publication:
  assumes ok: "control_ok sha s" and st: "ordinary_step s t r" and works: "cs_works t = cs_works s" and schema: "schema_step_ok s t"
    and act: "rc_action r \<notin> {A_register_task_work, A_grant_source, A_watch_source}"
    and "\<And>c. c \<in> set (cs_cases s) \<Longrightarrow> case_transition sha s t None c = Inr ()"
    and "\<And>n. n \<in> set (cs_notes s) \<Longrightarrow> note_transition_ok t n"
  shows "assertControlTransition sha s t = Inr ()"
proof (rule ordinary_transition [OF st schema _ _ _ assms(6,7)])
  show "enrollment_transition_ok s t" by (rule enrollment_transition_other [OF st]) (use act in simp)
  show "source_transition_ok s t" by (rule source_transition_other [OF st]) (use act in simp)
  show "work_transition_ok sha s t None x" if "x \<in> set (cs_works s)" for x
    by (rule same_works_transition [OF ok st _ that, of "[]"]) (use act works in simp_all)
qed

lemma changed_case_transition:
  assumes ok: "control_ok sha s" and st: "ordinary_step s t r"
    and cases: "cs_cases t = map (\<lambda>c. if c_id c = i then f c else c) (cs_cases s)"
    and rest: "cs_works t = cs_works s" "cs_notes t = cs_notes s" and c: "find_case s i = Some c"
    and idf: "\<And>c. c_id (f c) = c_id c" and f: "case_identity_ok False False c (f c)"
    and act: "rc_action r \<notin> {A_register_task_work, A_grant_source, A_watch_source, A_extend_observed_case, A_observe_case_delivery}"
    and schema: "schema_step_ok s t"
  shows "assertControlTransition sha s t = Inr ()"
proof (rule same_works_publication [OF ok st rest(1) schema])
  show "note_transition_ok t n" if "n \<in> set (cs_notes s)" for n
    by (rule same_notes_transition [OF ok _ that, of t "[]"]) (use rest in simp)
  fix x assume x: "x \<in> set (cs_cases s)"
  have find: "find_case t j = map_option (\<lambda>c. if c_id c = i then f c else c) (find_case s j)" for j
    unfolding find_case_def cases by (rule find_map_upd) (simp add: idf)
  have xs: "find_case s (c_id x) = Some x" using find_case_iff [OF ok] x by simp
  show "case_transition sha s t None x = Inr ()"
  proof (cases "c_id x = i")
    case True
    then have "x = c" using xs c by simp
    then show ?thesis
      using f find [of i] c True act by (simp add: case_transition_def appended_action_ordinary [OF st])
  next
    case False
    then show ?thesis using act by (intro case_transition_same [OF st]) (simp_all add: find xs)
  qed
qed (use act in simp)

lemma changed_note_transition:
  assumes ok: "control_ok sha s" and st: "ordinary_step s t r"
    and ns: "cs_notes t = map (\<lambda>n. if n_id n = i then f n else n) (cs_notes s)"
    and rest: "cs_works t = cs_works s" "cs_cases t = cs_cases s" and n: "find_note s i = Some n"
    and f: "\<And>n. f n = n\<lparr>n_acknowledged := n_acknowledged (f n), n_withdrawn := n_withdrawn (f n)\<rparr>"
      "n_withdrawn n \<longrightarrow> n_withdrawn (f n)" "prefix (n_acknowledged n) (n_acknowledged (f n))"
    and act: "rc_action r \<notin> {A_register_task_work, A_grant_source, A_watch_source, A_extend_observed_case, A_observe_case_delivery}"
    and schema: "schema_step_ok s t"
  shows "assertControlTransition sha s t = Inr ()"
proof (rule same_works_publication [OF ok st rest(1) schema])
  show "case_transition sha s t None c = Inr ()" if "c \<in> set (cs_cases s)" for c
    by (rule same_cases_transition [OF ok st _ that, of "[]"]) (use act rest in simp_all)
  fix x assume x: "x \<in> set (cs_notes s)"
  have idf: "n_id (f m) = n_id m" for m using arg_cong [OF f(1) [of m], of n_id] by simp
  have find: "List.find (\<lambda>m. n_id m = j) (cs_notes t) = map_option (\<lambda>n. if n_id n = i then f n else n) (find_note s j)" for j
    unfolding find_note_def ns by (rule find_map_upd) (simp add: idf)
  have xs: "find_note s (n_id x) = Some x" using find_note_iff [OF ok] x by simp
  show "note_transition_ok t x"
  proof (cases "n_id x = i")
    case True
    then have "x = n" using xs n by simp
    then show ?thesis using f(1) [of n, symmetric] f(2,3) find [of i] n True by (simp add: note_transition_ok_def)
  next
    case False
    then show ?thesis by (intro note_transition_same) (simp add: find xs)
  qed
qed (use act in simp)

section \<open>Every command\<close>

lemma commit_shape:
  assumes com: "committing sha s p cmd observed fresh" and res: "commit sha s p cmd observed fresh = Inr (t, r)"
  obtains n e j where "apply_command sha (upgrade cmd observed s) p cmd observed fresh = Inr (n, e, j)"
    and "cs_works t = cs_works n" "cs_cases t = cs_cases n" "cs_notes t = cs_notes n" "cs_schema t = cs_schema (upgrade cmd observed s)"
    and "ordinary_step s t r" "rc_action r = command_action cmd" "rc_owner r = p" "rc_key r = operation_key cmd"
      "rc_request_hash r = request_hash sha p cmd" "rc_entity r = e" "rc_item_id r = j"
proof -
  note com' = committingD [OF com]
  obtain n e j where n: "apply_command sha (upgrade cmd observed s) p cmd observed fresh = Inr (n, e, j)"
    and t: "t = n\<lparr>cs_revision := cs_revision s + 1, cs_receipts := cs_receipts s @ [r]\<rparr>"
    and r: "r = \<lparr>rc_owner = p, rc_key = operation_key cmd, rc_request_hash = request_hash sha p cmd,
           rc_revision = cs_revision s + 1, rc_action = command_action cmd, rc_entity = e, rc_item_id = j\<rparr>"
    and cap: "checkCapacity t = Inr ()" and same: "same_rest (upgrade cmd observed s) n"
    by (rule commit_InrD [OF res])
  have "cs_schema s \<le> cs_schema (upgrade cmd observed s)"
    using upgrade_schema control_okD(1) [OF com'(1)] by (simp add: control_records_ok_def)
  then have "ordinary_step s t r"
    using same by (simp add: t r ordinary_step_def same_identity_def same_rest_def)
  with n same show thesis by (intro that [of n e j]) (simp_all add: t r same_rest_def)
qed

lemma commit_schema_step:
  assumes com: "committing sha s p cmd observed fresh" and res: "commit sha s p cmd observed fresh = Inr (t, r)"
  shows "schema_step_ok s t"
proof -
  obtain n e j where st: "ordinary_step s t r" and act: "rc_action r = command_action cmd"
    and schema: "cs_schema t = cs_schema (upgrade cmd observed s)"
    by (rule commit_shape [OF com res])
  show ?thesis
    by (rule schema_step_ordinary [OF st]) (unfold schema act, cases cmd, auto)
qed

lemma work_command_follows:
  assumes com: "committing sha s p cmd observed fresh" and res: "commit sha s p cmd observed fresh = Inr (t, r)"
    and ap: "apply_command sha (upgrade cmd observed s) p cmd observed fresh = changed_work (upgrade cmd observed s) i f"
    and w: "find_work s i = Some w" and idf: "\<And>w. w_id (f w) = w_id w"
    and f: "\<And>r. rc_action r = command_action cmd \<Longrightarrow> rc_owner r = p \<Longrightarrow> rc_key r = operation_key cmd
      \<Longrightarrow> rc_request_hash r = request_hash sha p cmd \<Longrightarrow> work_step_ok sha r w (f w)"
    and act: "command_action cmd \<notin> {A_register_task_work, A_extend_observed_case, A_observe_case_delivery}"
    and schema: "command_action cmd \<in> {A_grant_source, A_watch_source} \<Longrightarrow> SOURCE_GRANT_CONTROL_SCHEMA \<le> cs_schema (upgrade cmd observed s)"
      "command_action cmd = A_watch_source \<Longrightarrow> SOURCE_WATCH_CONTROL_SCHEMA \<le> cs_schema (upgrade cmd observed s)"
  shows "assertControlTransition sha s t = Inr ()"
proof -
  note com' = committingD [OF com]
  obtain n e j where n: "apply_command sha (upgrade cmd observed s) p cmd observed fresh = Inr (n, e, j)"
    and t: "cs_works t = cs_works n" "cs_cases t = cs_cases n" "cs_notes t = cs_notes n" "cs_schema t = cs_schema (upgrade cmd observed s)"
    and st: "ordinary_step s t r" and r: "rc_action r = command_action cmd" "rc_owner r = p" "rc_key r = operation_key cmd"
      "rc_request_hash r = request_hash sha p cmd" "rc_item_id r = j"
    by (rule commit_shape [OF com res])
  have nf: "n = change_work i f (upgrade cmd observed s)" "j = i" using n ap by (auto simp: changed_work_def)
  have works: "cs_works t = map (\<lambda>w. if w_id w = i then f w else w) (cs_works s)"
    using control_unique(1) [OF com'(1)] by (simp add: t nf change_work_def update_first_map_key unique_by_def)
  show ?thesis
    by (rule changed_work_transition [OF com'(1) st works _ _ w _ idf f [OF r(1-4)] _ commit_schema_step [OF com res]])
       (use act schema in \<open>simp_all add: r t nf change_work_def\<close>)
qed

lemma case_command_follows:
  assumes com: "committing sha s p cmd observed fresh" and res: "commit sha s p cmd observed fresh = Inr (t, r)"
    and up: "upgrade cmd observed s = s" and ap: "apply_command sha s p cmd observed fresh = changed_case s i f"
    and c: "find_case s i = Some c" and idf: "\<And>c. c_id (f c) = c_id c"
    and f: "case_identity_ok False False c (bump_case (f c))"
    and act: "command_action cmd \<notin> {A_register_task_work, A_grant_source, A_watch_source, A_extend_observed_case, A_observe_case_delivery}"
  shows "assertControlTransition sha s t = Inr ()"
proof -
  note com' = committingD [OF com]
  obtain n e j where n: "apply_command sha (upgrade cmd observed s) p cmd observed fresh = Inr (n, e, j)"
    and t: "cs_works t = cs_works n" "cs_cases t = cs_cases n" "cs_notes t = cs_notes n"
    and st: "ordinary_step s t r" and r: "rc_action r = command_action cmd"
    by (rule commit_shape [OF com res])
  have nf: "n = change_case i (\<lambda>c. bump_case (f c)) s" using n ap by (auto simp: up changed_case_def)
  have cases: "cs_cases t = map (\<lambda>c. if c_id c = i then bump_case (f c) else c) (cs_cases s)"
    by (simp add: t nf change_case_eq [OF com'(1)])
  show ?thesis
    by (rule changed_case_transition [OF com'(1) st cases _ _ c _ f _ commit_schema_step [OF com res]])
       (use act idf in \<open>simp_all add: r t nf change_case_def\<close>)
qed

lemma note_command_follows:
  assumes com: "committing sha s p cmd observed fresh" and res: "commit sha s p cmd observed fresh = Inr (t, r)"
    and up: "upgrade cmd observed s = s" and n: "find_note s i = Some n"
    and ap: "apply_command sha s p cmd observed fresh = Inr (change_note (n_id n) f s, n_subject n, n_id n)"
    and f: "\<And>n. f n = n\<lparr>n_acknowledged := n_acknowledged (f n), n_withdrawn := n_withdrawn (f n)\<rparr>"
      "n_withdrawn n \<longrightarrow> n_withdrawn (f n)" "prefix (n_acknowledged n) (n_acknowledged (f n))"
    and act: "command_action cmd \<notin> {A_register_task_work, A_grant_source, A_watch_source, A_extend_observed_case, A_observe_case_delivery}"
  shows "assertControlTransition sha s t = Inr ()"
proof -
  note com' = committingD [OF com]
  obtain m e j where m: "apply_command sha (upgrade cmd observed s) p cmd observed fresh = Inr (m, e, j)"
    and t: "cs_works t = cs_works m" "cs_cases t = cs_cases m" "cs_notes t = cs_notes m"
    and st: "ordinary_step s t r" and r: "rc_action r = command_action cmd"
    by (rule commit_shape [OF com res])
  have ni: "n_id n = i" using n find_note_iff [OF com'(1)] by auto
  have mf: "m = change_note i f s" using m ap ni by (auto simp: up)
  have ns: "cs_notes t = map (\<lambda>n. if n_id n = i then f n else n) (cs_notes s)"
    by (simp add: t mf change_note_eq [OF com'(1)])
  show ?thesis
    by (rule changed_note_transition [OF com'(1) st ns _ _ n f _ commit_schema_step [OF com res]])
       (use act in \<open>simp_all add: r t mf change_note_def\<close>)
qed

text \<open>Commands on an owned work.\<close>

lemma work_command_inv:
  assumes "apply_command sha u p cmd observed fresh = Inr x"
  shows "cmd = Share_work k i rv readers \<Longrightarrow> \<exists>w. ownWork sha u p i rv = Inr w \<and> Inr x = changed_work u i (share_change readers)"
    and "cmd = Close_work k i rv \<Longrightarrow> \<exists>w. ownWork sha u p i rv = Inr w \<and> w_state w = Active \<and> Inr x = changed_work u i close_change"
    and "cmd = Grant_source k i rv rs \<Longrightarrow> \<exists>w. ownWork sha u p i rv = Inr w \<and> w_state w = Active \<and> p \<notin> fst ` set rs
       \<and> Inr x = changed_work u i (grant_change rs)"
    and "cmd = Watch_source k i rv ws \<Longrightarrow> \<exists>w. ownWork sha u p i rv = Inr w \<and> w_state w = Active \<and> Inr x = changed_work u i (watch_change ws)"
proof -
  have closed: "w_state w \<noteq> Closed \<Longrightarrow> w_state w = Active" for w by (cases "w_state w") simp_all
  show "cmd = Share_work k i rv readers \<Longrightarrow> \<exists>w. ownWork sha u p i rv = Inr w \<and> Inr x = changed_work u i (share_change readers)"
    using assms by (auto simp: andThen_Inr_iff guard_fail_Inr)
  show "cmd = Close_work k i rv \<Longrightarrow> \<exists>w. ownWork sha u p i rv = Inr w \<and> w_state w = Active \<and> Inr x = changed_work u i close_change"
    using assms closed by (auto simp: andThen_Inr_iff guard_fail_Inr)
  show "cmd = Grant_source k i rv rs \<Longrightarrow> \<exists>w. ownWork sha u p i rv = Inr w \<and> w_state w = Active \<and> p \<notin> fst ` set rs
       \<and> Inr x = changed_work u i (grant_change rs)"
    using assms by (auto simp: andThen_Inr_iff guard_fail_Inr)
  show "cmd = Watch_source k i rv ws \<Longrightarrow> \<exists>w. ownWork sha u p i rv = Inr w \<and> w_state w = Active \<and> Inr x = changed_work u i (watch_change ws)"
    using assms by (auto simp: andThen_Inr_iff guard_fail_Inr)
qed

lemma grants_watches_changed:
  "work_grants (share_change readers w) = []" "work_watches (share_change readers w) = []"
  "work_grants (close_change w) = []" "work_watches (close_change w) = []" "work_watches (grant_change rs w) = []"
  by (simp_all add: share_change_def close_change_def grant_change_def bump_work_def revoked_def work_grants_def
      work_watches_def split: option.split)

lemma granted_recipients: "map (\<lambda>g. (g_recipient g, g_scope g)) (work_grants (grant_change rs w)) = rs"
  by (auto simp: grant_change_def bump_work_def work_grants_def intro!: map_idI)

lemma truncate_watches: "map watcher.truncate (work_watches (watch_change ws w)) = ws"
  by (auto simp: watch_change_def bump_work_def work_watches_def watcher.truncate_def watcher.extend_def intro!: map_idI)

lemma changed_fields:
  "w_revision (share_change readers w) = w_revision w + 1" "w_revision (close_change w) = w_revision w + 1"
  "w_state (close_change w) = Closed" "w_state (share_change readers w) = w_state w"
  "w_id (share_change readers w) = w_id w" "w_id (close_change w) = w_id w" "w_id (grant_change rs w) = w_id w"
  "w_id (watch_change ws w) = w_id w"
  by (simp_all add: share_change_def close_change_def grant_change_def watch_change_def bump_work_def revoked_def)

lemma same_work_identity:
  "same_work w x \<Longrightarrow> w_revision x = w_revision w + 1 \<Longrightarrow> work_identity_ok w x"
  by (cases "w_state x") (auto simp: same_work_def evolves_def work_identity_ok_def)

lemma work_step_share: "rc_action r = A_share_work \<Longrightarrow> work_step_ok sha r w (share_change readers w)"
  by (simp add: work_step_ok_def grants_watches_changed same_work_identity same_work_changes changed_fields)

lemma work_step_close: "rc_action r = A_close_work \<Longrightarrow> work_step_ok sha r w (close_change w)"
  by (simp add: work_step_ok_def grants_watches_changed same_work_identity same_work_changes changed_fields)

lemma work_step_grant:
  assumes "rc_action r = A_grant_source" "rc_owner r = p" "rc_request_hash r = request_hash sha p (Grant_source (rc_key r) (w_id w) (w_revision w) rs)"
    and "w_owner w = p" "w_state w = Active" "p \<notin> fst ` set rs"
  shows "work_step_ok sha r w (grant_change rs w)"
  using assms
  by (auto simp: work_step_ok_def grant_transition_ok_def grants_watches_changed granted_recipients work_identity_ok_def)
     (auto simp: grant_change_def bump_work_def work_grants_def image_iff)

lemma work_step_watch:
  assumes "rc_action r = A_watch_source" "rc_owner r = p" "rc_request_hash r = request_hash sha p (Watch_source (rc_key r) (w_id w) (w_revision w) ws)"
    and "w_owner w = p" "w_state w = Active"
  shows "work_step_ok sha r w (watch_change ws w)"
  using assms
  by (auto simp: work_step_ok_def watch_transition_ok_def truncate_watches work_identity_ok_def)
     (auto simp: watch_change_def bump_work_def)

lemma work_commands_follow:
  assumes com: "committing sha s p cmd observed fresh" and res: "commit sha s p cmd observed fresh = Inr (t, r)"
    and cmd: "cmd = Share_work k i rv readers \<or> cmd = Close_work k i rv \<or> cmd = Grant_source k i rv rs \<or> cmd = Watch_source k i rv ws"
  shows "assertControlTransition sha s t = Inr ()"
proof -
  note com' = committingD [OF com]
  let ?u = "upgrade cmd observed s"
  obtain x where x: "apply_command sha ?u p cmd observed fresh = Inr x" using commit_applies [OF res] by blast
  obtain w f where own: "ownWork sha ?u p i rv = Inr w" and f: "Inr x = changed_work ?u i f"
    and step: "\<And>r. find_work s i = Some w \<Longrightarrow> w_id w = i \<Longrightarrow> w_owner w = p \<Longrightarrow> w_revision w = rv \<Longrightarrow> rc_action r = command_action cmd
      \<Longrightarrow> rc_owner r = p \<Longrightarrow> rc_key r = operation_key cmd \<Longrightarrow> rc_request_hash r = request_hash sha p cmd \<Longrightarrow> work_step_ok sha r w (f w)"
    and idf: "\<And>w. w_id (f w) = w_id w"
    using cmd
  proof (elim disjE)
    assume c: "cmd = Share_work k i rv readers"
    obtain w where w: "ownWork sha ?u p i rv = Inr w" "Inr x = changed_work ?u i (share_change readers)"
      using work_command_inv(1) [OF x c] by blast
    show thesis
      by (rule that [OF w]) (use c in \<open>auto intro!: work_step_share simp: changed_fields\<close>)
  next
    assume c: "cmd = Close_work k i rv"
    obtain w where w: "ownWork sha ?u p i rv = Inr w" "Inr x = changed_work ?u i close_change"
      using work_command_inv(2) [OF x c] by blast
    show thesis
      by (rule that [OF w]) (use c in \<open>auto intro!: work_step_close simp: changed_fields\<close>)
  next
    assume c: "cmd = Grant_source k i rv rs"
    obtain w where w: "ownWork sha ?u p i rv = Inr w" "w_state w = Active" "p \<notin> fst ` set rs" "Inr x = changed_work ?u i (grant_change rs)"
      using work_command_inv(3) [OF x c] by blast
    show thesis
      by (rule that [OF w(1,4)]) (use w(2,3) c in \<open>auto intro!: work_step_grant simp: changed_fields\<close>)
  next
    assume c: "cmd = Watch_source k i rv ws"
    obtain w where w: "ownWork sha ?u p i rv = Inr w" "w_state w = Active" "Inr x = changed_work ?u i (watch_change ws)"
      using work_command_inv(4) [OF x c] by blast
    show thesis
      by (rule that [OF w(1,3)]) (use w(2) c in \<open>auto intro!: work_step_watch simp: changed_fields\<close>)
  qed
  have w: "find_work s i = Some w" "w_owner w = p" "w_revision w = rv"
    using ownWork_InrD [OF own] by (simp_all del: upgrade.simps)
  have id: "w_id w = i" using work_members(6) [OF com'(1) w(1)] .
  show ?thesis
    by (rule work_command_follows [OF com res _ w(1) idf step [OF w(1) id w(2,3)]])
       (use x f cmd in \<open>auto simp: schema_defs\<close>)
qed

lemma register_commands_follow:
  assumes com: "committing sha s p cmd observed fresh" and res: "commit sha s p cmd observed fresh = Inr (t, r)"
    and cmd: "cmd = Register_work k ws oid fmt intent areas rs \<or> cmd = Register_task_work k ws oid fmt intent areas m"
  shows "assertControlTransition sha s t = Inr ()"
proof -
  note com' = committingD [OF com]
  let ?u = "upgrade cmd observed s"
  obtain n e j where n: "apply_command sha ?u p cmd observed fresh = Inr (n, e, j)"
    and t: "cs_works t = cs_works n" "cs_cases t = cs_cases n" "cs_notes t = cs_notes n" "cs_schema t = cs_schema ?u"
    and st: "ordinary_step s t r" and r: "rc_action r = command_action cmd" "rc_owner r = p" "rc_item_id r = j"
    by (rule commit_shape [OF com res])
  obtain w where w: "n = add_work w ?u"
    and enrolled: "command_action cmd = A_register_task_work \<Longrightarrow> w_managed w \<noteq> None
       \<and> w_owner w = p \<and> w_revision w = 1 \<and> w_state w = Active \<and> w_readers w = [] \<and> j = w_id w"
    using cmd
  proof (elim disjE)
    assume "cmd = Register_work k ws oid fmt intent areas rs"
    then show thesis using n that by (auto split: if_splits)
  next
    assume c: "cmd = Register_task_work k ws oid fmt intent areas m"
    show thesis
      by (rule that [of "new_work (m_task_id m) p ws oid fmt intent areas [] (Some m)"])
         (use n c in \<open>auto simp: new_work_def simp del: upgrade.simps split: if_splits\<close>)
  qed
  have "MANAGED_CONTROL_SCHEMA \<le> cs_schema ?u" if "command_action cmd = A_register_task_work"
    using that cmd by (auto simp: schema_defs)
  then show ?thesis
    by (intro added_work_transition [OF com'(1) st, of w] commit_schema_step [OF com res])
       (use cmd enrolled in \<open>auto simp: t w add_work_def r\<close>)
qed

text \<open>Commands on cases.\<close>

lemma case_change_identity:
  assumes "c_state c = Active" and "c_target (f c) = c_target c" and "c_members (f c) = c_members c" and "c_revision (f c) = c_revision c"
    and "c_generation (f c) = c_generation c \<and> c_lead (f c) = c_lead c \<or> c_generation (f c) = c_generation c + 1"
  shows "case_identity_ok False False c (bump_case (f c))"
  using assms by (auto simp: case_identity_ok_def)

definition keeps_case :: "(case_rec \<Rightarrow> case_rec) \<Rightarrow> bool" where
  "keeps_case f = (\<forall>c. c_id (f c) = c_id c \<and> c_target (f c) = c_target c \<and> c_members (f c) = c_members c
     \<and> c_revision (f c) = c_revision c
     \<and> (c_generation (f c) = c_generation c \<and> c_lead (f c) = c_lead c \<or> c_generation (f c) = c_generation c + 1))"

lemma case_command_inv:
  assumes "apply_command sha s p cmd observed fresh = Inr x"
    and cmd: "cmd = Transfer_case k i rv g q \<or> cmd = Release_case k i rv g \<or> cmd = Begin_external_integration k i rv g
       \<or> cmd = Record_external_settlement k i rv g \<or> cmd = Select_inputs k i rv g oid ins"
  obtains c f where "ownCase s p i rv g = Inr c" "Inr x = changed_case s i f" "keeps_case f"
  using cmd
proof (elim disjE)
  assume "cmd = Transfer_case k i rv g q"
  with assms(1) obtain c where "ownCase s p i rv g = Inr c" "Inr x = changed_case s i (transfer_change q)"
    by (auto simp: andThen_Inr_iff guard_fail_Inr idle_Inr)
  then show thesis by (rule that) (simp add: keeps_case_def transfer_change_def)
next
  assume "cmd = Release_case k i rv g"
  with assms(1) obtain c where "ownCase s p i rv g = Inr c" "Inr x = changed_case s i (\<lambda>c. c\<lparr>c_state := Closed\<rparr>)"
    by (auto simp: andThen_Inr_iff guard_fail_Inr idle_Inr)
  then show thesis by (rule that) (simp add: keeps_case_def)
next
  assume "cmd = Begin_external_integration k i rv g"
  with assms(1) obtain c where "ownCase s p i rv g = Inr c" "Inr x = changed_case s i (\<lambda>c. c\<lparr>c_external_effect := Possible\<rparr>)"
    by (auto simp: andThen_Inr_iff guard_fail_Inr idle_Inr)
  then show thesis by (rule that) (simp add: keeps_case_def)
next
  assume "cmd = Record_external_settlement k i rv g"
  with assms(1) obtain c where "ownCase s p i rv g = Inr c" "Inr x = changed_case s i (\<lambda>c. c\<lparr>c_external_effect := Not_started\<rparr>)"
    by (auto simp: andThen_Inr_iff guard_fail_Inr idle_Inr)
  then show thesis by (rule that) (simp add: keeps_case_def)
next
  assume "cmd = Select_inputs k i rv g oid ins"
  with assms(1) obtain c where "ownCase s p i rv g = Inr c" "Inr x = changed_case s i (select_change oid ins observed)"
    by (simp only: apply_command.simps apply_case.simps andThen_Inr_iff guard_fail_Inr idle_Inr) auto
  then show thesis by (rule that) (simp add: keeps_case_def select_change_def)
qed

lemma case_commands_follow:
  assumes com: "committing sha s p cmd observed fresh" and res: "commit sha s p cmd observed fresh = Inr (t, r)"
    and cmd: "cmd = Transfer_case k i rv g q \<or> cmd = Release_case k i rv g \<or> cmd = Begin_external_integration k i rv g
       \<or> cmd = Record_external_settlement k i rv g \<or> cmd = Select_inputs k i rv g oid ins"
  shows "assertControlTransition sha s t = Inr ()"
proof -
  have up: "upgrade cmd observed s = s" using cmd by auto
  obtain x where x: "apply_command sha s p cmd observed fresh = Inr x" using commit_applies [OF res] up by auto
  obtain c f where own: "ownCase s p i rv g = Inr c" and f: "Inr x = changed_case s i f" "keeps_case f"
    by (rule case_command_inv [OF x cmd])
  note c = ownCase_InrD [OF own] and kc = f(2) [unfolded keeps_case_def, rule_format]
  show ?thesis
  proof (rule case_command_follows [OF com res up _ conjunct1 [OF c]])
    show "apply_command sha s p cmd observed fresh = changed_case s i f" by (simp only: x f(1))
    show "case_identity_ok False False c (bump_case (f c))"
      by (rule case_change_identity) (use c kc in blast)+
  qed (use cmd kc in auto)
qed

lemma claim_target_follows:
  assumes com: "committing sha s p (Claim_target k tg ms) observed fresh"
    and res: "commit sha s p (Claim_target k tg ms) observed fresh = Inr (t, r)"
  shows "assertControlTransition sha s t = Inr ()"
proof -
  let ?cmd = "Claim_target k tg ms" let ?u = "upgrade ?cmd observed s"
  note com' = committingD [OF com]
  obtain n e j where n: "apply_command sha ?u p ?cmd observed fresh = Inr (n, e, j)"
    and t: "cs_works t = cs_works n" "cs_cases t = cs_cases n" "cs_notes t = cs_notes n" "cs_schema t = cs_schema ?u"
    and st: "ordinary_step s t r" and r: "rc_action r = command_action ?cmd"
    by (rule commit_shape [OF com res])
  have nf: "n = add_case (new_case ?u fresh p tg ms observed) ?u" using n by (auto simp del: upgrade.simps split: if_splits)
  show ?thesis
  proof (rule same_works_publication [OF com'(1) st _ commit_schema_step [OF com res]])
    show "case_transition sha s t None c = Inr ()" if "c \<in> set (cs_cases s)" for c
      by (rule same_cases_transition [OF com'(1) st _ that, of "[new_case ?u fresh p tg ms observed]"])
         (simp_all add: t nf add_case_def r del: upgrade.simps)
    show "note_transition_ok t n" if "n \<in> set (cs_notes s)" for n
      by (rule same_notes_transition [OF com'(1) _ that, of t "[]"]) (simp add: t nf add_case_def del: upgrade.simps)
  qed (simp_all add: t nf add_case_def r del: upgrade.simps)
qed

text \<open>Commands on notes.\<close>

lemma post_note_follows:
  assumes com: "committing sha s p (Post_note k x nk txt ps) observed fresh"
    and res: "commit sha s p (Post_note k x nk txt ps) observed fresh = Inr (t, r)"
  shows "assertControlTransition sha s t = Inr ()"
proof -
  let ?cmd = "Post_note k x nk txt ps" let ?u = "upgrade ?cmd observed s"
  note com' = committingD [OF com]
  obtain n e j where n: "apply_command sha ?u p ?cmd observed fresh = Inr (n, e, j)"
    and t: "cs_works t = cs_works n" "cs_cases t = cs_cases n" "cs_notes t = cs_notes n" "cs_schema t = cs_schema ?u"
    and st: "ordinary_step s t r" and r: "rc_action r = command_action ?cmd"
    by (rule commit_shape [OF com res])
  let ?n = "new_note ?u fresh p x nk txt ps"
  have nf: "n = add_note ?n ?u" using n by (auto simp: andThen_Inr_iff simp del: upgrade.simps)
  show ?thesis
  proof (rule same_works_publication [OF com'(1) st _ commit_schema_step [OF com res]])
    show "case_transition sha s t None c = Inr ()" if "c \<in> set (cs_cases s)" for c
      by (rule same_cases_transition [OF com'(1) st _ that, of "[]"])
         (simp_all add: t nf add_note_def r del: upgrade.simps)
    show "note_transition_ok t m" if "m \<in> set (cs_notes s)" for m
      by (rule same_notes_transition [OF com'(1) _ that, of t "[?n]"]) (simp add: t nf add_note_def del: upgrade.simps)
  qed (simp_all add: t nf add_note_def r del: upgrade.simps)
qed

lemma ack_note_follows:
  assumes com: "committing sha s p (Ack_note k i) observed fresh"
    and res: "commit sha s p (Ack_note k i) observed fresh = Inr (t, r)"
  shows "assertControlTransition sha s t = Inr ()"
proof -
  obtain x where x: "apply_command sha s p (Ack_note k i) observed fresh = Inr x"
    using commit_applies [OF res] by auto
  then obtain n where n: "find_note s i = Some n" and ack: "acknowledge sha s p n = Inr x"
    by (auto split: option.splits)
  from ack have "x = (change_note (n_id n) (ack_change p) s, n_subject n, n_id n)"
    by (auto simp: acknowledge_def andThen_Inr_iff guard_fail_Inr)
  with x show ?thesis
    using note_command_follows [OF com res _ n, of "ack_change p"] by (simp add: ack_change_def)
qed

lemma withdraw_note_follows:
  assumes com: "committing sha s p (Withdraw_note k i) observed fresh"
    and res: "commit sha s p (Withdraw_note k i) observed fresh = Inr (t, r)"
  shows "assertControlTransition sha s t = Inr ()"
proof -
  obtain x where x: "apply_command sha s p (Withdraw_note k i) observed fresh = Inr x"
    using commit_applies [OF res] by auto
  then obtain n where n: "find_note s i = Some n" and wd: "withdraw sha s p n = Inr x"
    by (auto split: option.splits)
  from wd have "x = (change_note (n_id n) withdraw_change s, n_subject n, n_id n)"
    by (auto simp: withdraw_def andThen_Inr_iff guard_fail_Inr split: if_splits)
  with x show ?thesis
    using note_command_follows [OF com res _ n, of withdraw_change] by (simp add: withdraw_change_def)
qed

lemma commit_may_follow:
  assumes com: "committing sha s p cmd observed fresh" and res: "commit sha s p cmd observed fresh = Inr (t, r)"
  shows "assertControlTransition sha s t = Inr ()"
proof (cases cmd)
  case (Claim_target k tg ms) with com res show ?thesis by (simp only: claim_target_follows)
next
  case (Post_note k x nk msg ps) with com res show ?thesis by (simp only: post_note_follows)
next
  case (Ack_note k i) with com res show ?thesis by (simp only: ack_note_follows)
next
  case (Withdraw_note k i) with com res show ?thesis by (simp only: withdraw_note_follows)
next
  case (Register_task_work k ws oid fmt intent areas m) then show ?thesis using register_commands_follow [OF com res] by metis
next
  case (Register_work k ws oid fmt intent areas rs) then show ?thesis using register_commands_follow [OF com res] by metis
next
  case (Share_work k i rv rs) then show ?thesis using work_commands_follow [OF com res] by metis
next
  case (Grant_source k i rv rs) then show ?thesis using work_commands_follow [OF com res] by metis
next
  case (Watch_source k i rv ws) then show ?thesis using work_commands_follow [OF com res] by metis
next
  case (Close_work k i rv) then show ?thesis using work_commands_follow [OF com res] by metis
next
  case (Select_inputs k i rv g oid ins) then show ?thesis using case_commands_follow [OF com res] by metis
next
  case (Transfer_case k i rv g q) then show ?thesis using case_commands_follow [OF com res] by metis
next
  case (Release_case k i rv g) then show ?thesis using case_commands_follow [OF com res] by metis
next
  case (Begin_external_integration k i rv g) then show ?thesis using case_commands_follow [OF com res] by metis
next
  case (Record_external_settlement k i rv g) then show ?thesis using case_commands_follow [OF com res] by metis
qed

end
