(* ===== verification/Json_Roundtrip.thy ===== *)
theory Json_Roundtrip
  imports Json
begin

text \<open>
  What \<open>JSON.parse\<close> reads back from what \<open>JSON.stringify\<close> wrote, in its compact and in
  its two-space form: the value itself, for every value made of null, booleans, integers,
  well-formed strings, arrays and records with distinct keys.
\<close>

section \<open>String literals\<close>

lemma hex_control:
  assumes "n < 32"
  shows "hex4 (CHR ''0'') (CHR ''0'') (hex_char (n div 16)) (hex_char (n mod 16)) = Some n"
proof -
  have "\<forall>n \<in> set [0..<32]. hex4 (CHR ''0'') (CHR ''0'') (hex_char (n div 16)) (hex_char (n mod 16)) = Some n"
    by (simp add: upt_rec hex4_def hex_val_def hex_char_def)
  then show ?thesis using assms by simp
qed

lemma escaped_chars:
  "char_of (34::nat) = CHR 0x22" "char_of (92::nat) = CHR 0x5C" "char_of (8::nat) = CHR 0x08" "char_of (9::nat) = CHR 0x09"
  "char_of (10::nat) = CHR 0x0A" "char_of (12::nat) = CHR 0x0C" "char_of (13::nat) = CHR 0x0D"
  by code_simp+

lemma parse_esc_char: "parse_chars (esc_char c @ xs) = chars_cons [c] False (parse_chars xs)"
proof -
  define n where "n = (of_char c :: nat)"
  have c: "c = char_of n" by (simp add: n_def)
  have nc: "of_char c = n" by (simp add: n_def)
  have esc: "simple_escape e = Some c \<Longrightarrow> e \<noteq> CHR ''u'' \<Longrightarrow> esc_char c = [CHR 0x5C, e] \<Longrightarrow> ?thesis" for e
    by simp
  have hex: "n < 32 \<Longrightarrow> esc_char c = [CHR 0x5C, CHR ''u'', CHR ''0'', CHR ''0'', hex_char (n div 16), hex_char (n mod 16)] \<Longrightarrow> ?thesis"
    using hex_control [of n] by (simp add: utf8_of_def c)
  have raw: "c \<noteq> CHR 0x22 \<Longrightarrow> c \<noteq> CHR 0x5C \<Longrightarrow> \<not> n < 32 \<Longrightarrow> esc_char c = [c] \<Longrightarrow> ?thesis"
    by (simp add: nc)
  have "n = 34 \<or> n = 92 \<or> n = 8 \<or> n = 9 \<or> n = 10 \<or> n = 12 \<or> n = 13
      \<or> (n \<notin> {34, 92, 8, 9, 10, 12, 13} \<and> n < 32) \<or> (n \<notin> {34, 92} \<and> \<not> n < 32)"
    by auto
  then show ?thesis
  proof (elim disjE)
    assume "n = 34" then show ?thesis by (intro esc [of "CHR 0x22"]) (simp_all add: c esc_char_def simple_escape_def escaped_chars)
  next
    assume "n = 92" then show ?thesis by (intro esc [of "CHR 0x5C"]) (simp_all add: c esc_char_def simple_escape_def escaped_chars)
  next
    assume "n = 8" then show ?thesis by (intro esc [of "CHR ''b''"]) (simp_all add: c esc_char_def simple_escape_def escaped_chars)
  next
    assume "n = 9" then show ?thesis by (intro esc [of "CHR ''t''"]) (simp_all add: c esc_char_def simple_escape_def escaped_chars)
  next
    assume "n = 10" then show ?thesis by (intro esc [of "CHR ''n''"]) (simp_all add: c esc_char_def simple_escape_def escaped_chars)
  next
    assume "n = 12" then show ?thesis by (intro esc [of "CHR ''f''"]) (simp_all add: c esc_char_def simple_escape_def escaped_chars)
  next
    assume "n = 13" then show ?thesis by (intro esc [of "CHR ''r''"]) (simp_all add: c esc_char_def simple_escape_def escaped_chars)
  next
    assume "n \<notin> {34, 92, 8, 9, 10, 12, 13} \<and> n < 32"
    then show ?thesis by (intro hex) (simp_all add: esc_char_def nc)
  next
    assume *: "n \<notin> {34, 92} \<and> \<not> n < 32"
    then have "c \<noteq> CHR 0x22" "c \<noteq> CHR 0x5C" by (auto simp: n_def)
    with * show ?thesis by (intro raw) (simp_all add: esc_char_def nc)
  qed
qed

lemma parse_quoted: "parse_chars (concat (map esc_char s) @ CHR 0x22 # rest) = Some (s, False, rest)"
  by (induction s) (simp_all add: parse_esc_char chars_cons_def)

section \<open>Integer literals\<close>

lemma digit_char_digit: "d < 10 \<Longrightarrow> is_digit (digit_char d) \<and> of_char (digit_char d) = 48 + d"
  by (simp add: is_digit_def digit_char_def)

lemma digits_all: "list_all is_digit (digits_of n)"
  by (induction n rule: digits_of.induct) (subst digits_of.simps, simp add: digit_char_digit)

lemma digits_val_snoc: "digits_val (ds @ [c]) = digits_val ds * 10 + (of_char c - 48)"
  by (simp add: digits_val_def)

lemma digits_val_of: "digits_val (digits_of n) = n"
proof (induction n rule: digits_of.induct)
  case (1 n)
  show ?case
  proof (cases "n < 10")
    case True
    then show ?thesis by (subst digits_of.simps) (simp add: digits_val_def digit_char_digit)
  next
    case False
    then show ?thesis using 1 by (subst digits_of.simps) (simp add: digits_val_snoc digit_char_digit)
  qed
qed

lemma digits_ne: "digits_of n \<noteq> []"
  by (subst digits_of.simps) simp

lemma digits_head: "0 < n \<Longrightarrow> hd (digits_of n) \<noteq> CHR ''0''"
proof (induction n rule: digits_of.induct)
  case (1 n)
  show ?case
  proof (cases "n < 10")
    case True
    have "digit_char n = CHR ''0'' \<Longrightarrow> of_char (digit_char n) = (48::nat)" by simp
    then show ?thesis using True 1(2) digit_char_digit [OF True] by (subst digits_of.simps) auto
  next
    case False
    then show ?thesis using 1 digits_ne by (subst digits_of.simps) simp
  qed
qed

text \<open>What may follow a value in a rendered text.\<close>

definition delim :: "string \<Rightarrow> bool" where
  "delim rest = (rest = [] \<or> \<not> is_digit (hd rest) \<and> hd rest \<noteq> CHR ''.'' \<and> hd rest \<noteq> CHR ''e'' \<and> hd rest \<noteq> CHR ''E'')"

lemma take_digits:
  assumes "delim rest"
  shows "takeWhile is_digit (digits_of n @ rest) = digits_of n" "dropWhile is_digit (digits_of n @ rest) = rest"
proof -
  have *: "\<And>x. x \<in> set (digits_of n) \<Longrightarrow> is_digit x" using digits_all by (simp add: list_all_iff)
  have "takeWhile is_digit rest = []" "dropWhile is_digit rest = rest"
    using assms by (cases rest; simp add: delim_def)+
  with * show "takeWhile is_digit (digits_of n @ rest) = digits_of n" "dropWhile is_digit (digits_of n @ rest) = rest"
    by (simp_all add: takeWhile_append dropWhile_append)
qed

lemma digits_canonical: "\<not> (hd (digits_of n) = CHR ''0'' \<and> 1 < length (digits_of n))"
proof (cases "n = 0")
  case True
  then show ?thesis by (subst digits_of.simps, subst (2) digits_of.simps) simp
qed (use digits_head in auto)

lemma hd_digits: "is_digit (hd (digits_of n))"
  using digits_all [of n] digits_ne [of n] by (simp add: list_all_iff)

lemma parse_int:
  assumes "delim rest"
  shows "parse_number (int_text i @ rest) = Some (JNum i, rest)"
proof -
  define neg where "neg = (i < 0)"
  define n where "n = nat (if neg then - i else i)"
  have shape: "int_text i = (if neg then [CHR ''-''] else []) @ digits_of n" by (simp add: int_text_def neg_def n_def)
  have signed: "(if neg then - 1 else 1) * int n = i" by (simp add: neg_def n_def)
  have first: "hd (digits_of n @ rest) \<noteq> CHR ''-''" "digits_of n @ rest \<noteq> []"
    using hd_digits [of n] digits_ne [of n] by (auto simp: is_digit_def)
  have sgn: "(int_text i @ rest \<noteq> [] \<and> hd (int_text i @ rest) = CHR ''-'') = neg" using first by (simp add: shape)
  have body: "(if neg then tl (int_text i @ rest) else int_text i @ rest) = digits_of n @ rest" by (simp add: shape)
  have ends: "(rest \<noteq> [] \<and> hd rest = CHR ''.'') = False" "(rest \<noteq> [] \<and> (hd rest = CHR ''e'' \<or> hd rest = CHR ''E'')) = False"
    using assms by (auto simp: delim_def)
  have canon: "(digits_of n = [] \<or> hd (digits_of n) = CHR ''0'' \<and> 1 < length (digits_of n)) = False"
    using digits_ne [of n] digits_canonical [of n] by simp
  show ?thesis
    unfolding parse_number_def Let_def sgn body take_digits [OF assms] ends canon
    by (simp add: ends digits_val_of signed)
qed

section \<open>Rendered values\<close>

fun render :: "(nat \<Rightarrow> string) \<Rightarrow> string \<Rightarrow> nat \<Rightarrow> jval \<Rightarrow> string" where
  "render nl sp n (JArr vs) =
     (if vs = [] then ''[]''
      else ''['' @ nl (Suc n) @ joined ('','' @ nl (Suc n)) (map (render nl sp (Suc n)) vs) @ nl n @ '']'')"
| "render nl sp n (JObj kvs) =
     (let shown = concat (map (\<lambda>(k, v). if v = JUndef then [] else [quote k @ '':'' @ sp @ render nl sp (Suc n) v]) kvs)
      in if shown = [] then ''{}''
         else ''{'' @ nl (Suc n) @ joined ('','' @ nl (Suc n)) shown @ nl n @ ''}'')"
| "render nl sp n v = stringify v"

lemma pretty_render: "pretty n v = render newline_indent '' '' n v"
proof (induction n v rule: pretty.induct)
  case (2 n kvs)
  have "concat (map (\<lambda>(k, v). if v = JUndef then [] else [quote k @ '': '' @ pretty (Suc n) v]) kvs)
      = concat (map (\<lambda>(k, v). if v = JUndef then [] else [quote k @ '':'' @ '' '' @ render newline_indent '' '' (Suc n) v]) kvs)"
    by (rule arg_cong [where f = concat], rule map_cong [OF refl]) (use 2 in auto)
  then show ?case by (simp only: pretty.simps render.simps)
qed (simp_all cong: map_cong)

lemma stringify_render: "stringify v = render (\<lambda>_. []) [] n v"
proof (induction v arbitrary: n rule: stringify.induct)
  case (8 vs)
  then have "map stringify vs = map (render (\<lambda>_. []) [] (Suc n)) vs" by simp
  then show ?case by (simp only: stringify.simps render.simps) simp
next
  case (9 kvs)
  have eq: "concat (map (\<lambda>(k, v). if v = JUndef then [] else [quote k @ '':'' @ stringify v]) kvs)
      = concat (map (\<lambda>(k, v). if v = JUndef then [] else [quote k @ '':'' @ [] @ render (\<lambda>_. []) [] (Suc n) v]) kvs)"
    by (rule arg_cong [where f = concat], rule map_cong [OF refl]) (use 9 in auto)
  have braces: "''{'' @ joined '','' sh @ ''}'' = (if sh = [] then ''{}'' else ''{'' @ [] @ joined ('','' @ []) sh @ [] @ ''}'')" for sh
    by simp
  show ?case unfolding stringify.simps render.simps eq Let_def by (rule braces)
qed simp_all

text \<open>The values whose text reads back.\<close>

fun plain :: "jval \<Rightarrow> bool" where
  "plain (JArr vs) = (\<forall>v \<in> set vs. plain v)"
| "plain (JObj kvs) = (distinct (map fst kvs) \<and> (\<forall>p \<in> set kvs. plain (snd p)))"
| "plain JNull = True"
| "plain (JBool b) = True"
| "plain (JNum i) = True"
| "plain (JStr s) = True"
| "plain v = False"

text \<open>Enough fuel for the reader.\<close>

fun need :: "jval \<Rightarrow> nat" where
  "need (JArr vs) = Suc (foldr (\<lambda>v n. Suc (max (need v) n)) vs 0)"
| "need (JObj kvs) = Suc (foldr (\<lambda>p n. Suc (max (need (snd p)) n)) kvs 0)"
| "need v = 1"

abbreviation needs :: "jval list \<Rightarrow> nat" where
  "needs vs \<equiv> foldr (\<lambda>v n. Suc (max (need v) n)) vs 0"

lemma needs_members: "foldr (\<lambda>p n. Suc (max (need (snd p)) n)) kvs 0 = needs (map snd kvs)"
  by (induction kvs) auto

lemma plain_not_undef: "plain v \<Longrightarrow> v \<noteq> JUndef"
  by (cases v) auto

lemma need_pos: "1 \<le> need v"
  by (cases v) auto

section \<open>Reading a rendered value\<close>

lemma skip_append: "list_all is_ws w \<Longrightarrow> skip_ws (w @ xs) = skip_ws xs"
  by (induction w) auto

lemma ws_not: "is_ws c \<Longrightarrow> \<not> is_digit c \<and> c \<noteq> CHR ''.'' \<and> c \<noteq> CHR ''e'' \<and> c \<noteq> CHR ''E''"
  by (auto simp: is_ws_def is_digit_def)

lemma delim_after: "list_all is_ws w \<Longrightarrow> delim (c # cs) \<Longrightarrow> delim (w @ c # cs)"
  by (cases w) (auto simp: delim_def dest: ws_not)

lemma delim_closers [simp]: "delim (CHR '']'' # cs)" "delim (CHR ''}'' # cs)" "delim (CHR '','' # cs)" "delim (CHR 0x0A # cs)" "delim []"
  by (simp_all add: delim_def is_digit_def)

lemma joined_Cons: "joined sep (x # xs) = x @ (if xs = [] then [] else sep @ joined sep xs)"
  by (cases xs) auto

lemma digit_not_ws: "is_digit c \<Longrightarrow> \<not> is_ws c \<and> c \<noteq> CHR ''['' \<and> c \<noteq> CHR ''{'' \<and> c \<noteq> CHR 0x22 \<and> c \<noteq> CHR ''n'' \<and> c \<noteq> CHR ''t''
   \<and> c \<noteq> CHR ''f'' \<and> c \<noteq> CHR '']'' \<and> c \<noteq> CHR ''}''"
  by (auto simp: is_ws_def is_digit_def)

lemma int_head: "\<exists>c cs. int_text i = c # cs \<and> (is_digit c \<or> c = CHR ''-'')"
  using hd_digits digits_ne by (auto simp: int_text_def neq_Nil_conv split: if_splits) (metis hd_digits list.sel(1))+

lemma int_text_ne: "int_text i \<noteq> []"
  using int_head [of i] by auto

lemma update_fresh: "k \<notin> fst ` set acc \<Longrightarrow> AList.update k v acc = acc @ [(k, v)]"
  by (induction acc) auto

text \<open>Where the printer puts white space: line breaks by depth, and after a colon.\<close>

locale layout =
  fixes nl :: "nat \<Rightarrow> string" and sp :: string
  assumes nl_ws: "list_all is_ws (nl n)" and sp_ws: "list_all is_ws sp"
begin

lemma head: "plain v \<Longrightarrow> \<exists>c cs. render nl sp n v = c # cs \<and> \<not> is_ws c \<and> c \<noteq> CHR '']'' \<and> c \<noteq> CHR ''}''"
proof (cases v)
  case (JNum i)
  then show ?thesis using int_head [of i] by (auto simp: is_ws_def dest: digit_not_ws)
qed (auto simp: is_ws_def quote_def Let_def)

lemma skip_value:
  assumes "plain v" and "list_all is_ws w"
  shows "skip_ws (w @ render nl sp n v @ rest) = render nl sp n v @ rest"
  using head [OF assms(1), of n] skip_append [OF assms(2)] by auto

lemma scalar_value:
  assumes "plain v" and "\<And>vs. v \<noteq> JArr vs" and "\<And>kvs. v \<noteq> JObj kvs" and "delim rest" and "list_all is_ws w"
  shows "parse_value (Suc f) (w @ render nl sp n v @ rest) = Some (v, rest)"
proof (cases v)
  case (JNum i)
  obtain c cs where c: "int_text i = c # cs" "is_digit c \<or> c = CHR ''-''" using int_head [of i] by blast
  have "skip_ws (w @ int_text i @ rest) = int_text i @ rest"
    using skip_value [OF assms(1,5), of n rest] JNum by simp
  then show ?thesis
    using JNum c parse_int [OF assms(4), of i] by (auto dest: digit_not_ws)
next
  case (JStr t)
  have "skip_ws (w @ quote t @ rest) = quote t @ rest"
    using skip_value [OF assms(1,5), of n rest] JStr by simp
  then show ?thesis using JStr parse_quoted [of t rest] by (simp add: quote_def)
next
  case (JBool b)
  have "skip_ws (w @ stringify v @ rest) = stringify v @ rest"
    using skip_value [OF assms(1,5), of n rest] JBool by simp
  then show ?thesis using JBool by (cases b) (simp_all add: drop_prefix_def)
next
  case JNull
  have "skip_ws (w @ ''null'' @ rest) = ''null'' @ rest"
    using skip_value [OF assms(1,5), of n rest] JNull by simp
  then show ?thesis using JNull by (simp add: drop_prefix_def)
qed (use assms in auto)

lemma elems_step:
  assumes val: "\<And>v w rest. plain v \<Longrightarrow> need v \<le> f \<Longrightarrow> delim rest \<Longrightarrow> list_all is_ws w
       \<Longrightarrow> parse_value f (w @ render nl sp n v @ rest) = Some (v, rest)"
    and elems: "\<And>vs w. vs \<noteq> [] \<Longrightarrow> \<forall>v \<in> set vs. plain v \<Longrightarrow> needs vs \<le> f \<Longrightarrow> list_all is_ws w
       \<Longrightarrow> parse_elems f (w @ joined ('','' @ nl n) (map (render nl sp n) vs) @ nl m @ '']'' @ rest) = Some (vs, rest)"
    and vs: "vs \<noteq> []" "\<forall>v \<in> set vs. plain v" "needs vs \<le> Suc f" "list_all is_ws w"
  shows "parse_elems (Suc f) (w @ joined ('','' @ nl n) (map (render nl sp n) vs) @ nl m @ '']'' @ rest) = Some (vs, rest)"
proof -
  obtain v us where v: "vs = v # us" using vs(1) by (cases vs) auto
  have nd: "need v \<le> f" "needs us \<le> f" using vs(3) v by auto
  show ?thesis
  proof (cases "us = []")
    case True
    have "parse_value f (w @ render nl sp n v @ nl m @ '']'' @ rest) = Some (v, nl m @ '']'' @ rest)"
      by (rule val) (use vs v nd in \<open>auto intro: delim_after nl_ws\<close>)
    then show ?thesis using True v by (simp add: skip_append [OF nl_ws] is_ws_def)
  next
    case False
    let ?r = "nl n @ joined ('','' @ nl n) (map (render nl sp n) us) @ nl m @ '']'' @ rest"
    have "parse_value f (w @ render nl sp n v @ '','' @ ?r) = Some (v, '','' @ ?r)"
      by (rule val) (use vs v nd in auto)
    moreover have "parse_elems f ?r = Some (us, rest)"
      by (rule elems) (use False vs v nd nl_ws in auto)
    ultimately show ?thesis using False v by (simp add: joined_Cons is_ws_def)
  qed
qed

abbreviation member :: "nat \<Rightarrow> string \<times> jval \<Rightarrow> string" where
  "member n p \<equiv> quote (fst p) @ '':'' @ sp @ render nl sp n (snd p)"

lemma members_step:
  assumes val: "\<And>v w rest. plain v \<Longrightarrow> need v \<le> f \<Longrightarrow> delim rest \<Longrightarrow> list_all is_ws w
       \<Longrightarrow> parse_value f (w @ render nl sp n v @ rest) = Some (v, rest)"
    and members: "\<And>kvs acc w. kvs \<noteq> [] \<Longrightarrow> \<forall>p \<in> set kvs. plain (snd p) \<Longrightarrow> needs (map snd kvs) \<le> f \<Longrightarrow> list_all is_ws w
       \<Longrightarrow> distinct (map fst (acc @ kvs))
       \<Longrightarrow> parse_members f acc (w @ joined ('','' @ nl n) (map (member n) kvs) @ nl m @ ''}'' @ rest) = Some (acc @ kvs, rest)"
    and kvs: "kvs \<noteq> []" "\<forall>p \<in> set kvs. plain (snd p)" "needs (map snd kvs) \<le> Suc f" "list_all is_ws w" "distinct (map fst (acc @ kvs))"
  shows "parse_members (Suc f) acc (w @ joined ('','' @ nl n) (map (member n) kvs) @ nl m @ ''}'' @ rest) = Some (acc @ kvs, rest)"
proof -
  obtain k v us where v: "kvs = (k, v) # us" using kvs(1) by (cases kvs) auto
  have nd: "need v \<le> f" "needs (map snd us) \<le> f" using kvs(3) v by auto
  have upd: "AList.update k v acc = acc @ [(k, v)]" by (rule update_fresh) (use kvs(5) v in auto)
  have key: "skip_ws (w @ quote k @ xs) = quote k @ xs" for xs using skip_append [OF kvs(4)] by (simp add: quote_def is_ws_def)
  show ?thesis
  proof (cases "us = []")
    case True
    have "parse_value f (sp @ render nl sp n v @ nl m @ ''}'' @ rest) = Some (v, nl m @ ''}'' @ rest)"
      by (rule val) (use kvs v nd sp_ws in \<open>auto intro: delim_after nl_ws\<close>)
    then show ?thesis
      using True v key [of "'':'' @ sp @ render nl sp n v @ nl m @ ''}'' @ rest"] parse_quoted [of k]
      by (simp add: skip_append [OF nl_ws] is_ws_def quote_def upd)
  next
    case False
    let ?r = "nl n @ joined ('','' @ nl n) (map (member n) us) @ nl m @ ''}'' @ rest"
    have "parse_value f (sp @ render nl sp n v @ '','' @ ?r) = Some (v, '','' @ ?r)"
      by (rule val) (use kvs v nd sp_ws in auto)
    moreover have "parse_members f (acc @ [(k, v)]) ?r = Some ((acc @ [(k, v)]) @ us, rest)"
      by (rule members) (use False kvs v nd nl_ws in auto)
    ultimately show ?thesis
      using False v key [of "'':'' @ sp @ render nl sp n v @ '','' @ ?r"] parse_quoted [of k]
      by (simp add: joined_Cons is_ws_def quote_def upd)
  qed
qed

lemma shown_plain:
  assumes "\<forall>p \<in> set kvs. plain (snd p)"
  shows "concat (map (\<lambda>(k, v). if v = JUndef then [] else [quote k @ '':'' @ sp @ render nl sp n v]) kvs) = map (member n) kvs"
  using assms by (induction kvs) (auto dest: plain_not_undef)

lemma array_step:
  assumes elems: "\<And>vs w. vs \<noteq> [] \<Longrightarrow> \<forall>v \<in> set vs. plain v \<Longrightarrow> needs vs \<le> f \<Longrightarrow> list_all is_ws w
       \<Longrightarrow> parse_elems f (w @ joined ('','' @ nl (Suc n)) (map (render nl sp (Suc n)) vs) @ nl n @ '']'' @ rest) = Some (vs, rest)"
    and v: "\<forall>v \<in> set vs. plain v" "need (JArr vs) \<le> Suc f" "list_all is_ws w"
  shows "parse_value (Suc f) (w @ render nl sp n (JArr vs) @ rest) = Some (JArr vs, rest)"
proof (cases "vs = []")
  case True
  then show ?thesis by (simp add: skip_append [OF v(3)] is_ws_def)
next
  case False
  let ?r = "joined ('','' @ nl (Suc n)) (map (render nl sp (Suc n)) vs) @ nl n @ '']'' @ rest"
  obtain x xs where x: "vs = x # xs" using False by (cases vs) auto
  obtain c cs where c: "?r = c # cs" "\<not> is_ws c" "c \<noteq> CHR '']''"
    using head [of x "Suc n"] v(1) x by (auto simp: joined_Cons)
  have "parse_elems f ?r = Some (vs, rest)" using elems [of vs "[]"] False v(1,2) by simp
  then show ?thesis
    using c False by (simp add: skip_append [OF v(3)] skip_append [OF nl_ws] is_ws_def)
qed

lemma object_step:
  assumes members: "\<And>kvs w. kvs \<noteq> [] \<Longrightarrow> \<forall>p \<in> set kvs. plain (snd p) \<Longrightarrow> needs (map snd kvs) \<le> f \<Longrightarrow> list_all is_ws w
       \<Longrightarrow> distinct (map fst kvs)
       \<Longrightarrow> parse_members f [] (w @ joined ('','' @ nl (Suc n)) (map (member (Suc n)) kvs) @ nl n @ ''}'' @ rest) = Some (kvs, rest)"
    and v: "plain (JObj kvs)" "need (JObj kvs) \<le> Suc f" "list_all is_ws w"
  shows "parse_value (Suc f) (w @ render nl sp n (JObj kvs) @ rest) = Some (JObj kvs, rest)"
proof (cases "kvs = []")
  case True
  then show ?thesis by (simp add: skip_append [OF v(3)] is_ws_def)
next
  case False
  let ?r = "joined ('','' @ nl (Suc n)) (map (member (Suc n)) kvs) @ nl n @ ''}'' @ rest"
  have shown: "concat (map (\<lambda>(k, v). if v = JUndef then [] else [quote k @ '':'' @ sp @ render nl sp (Suc n) v]) kvs) = map (member (Suc n)) kvs"
    by (rule shown_plain) (use v(1) in simp)
  obtain cs where c: "?r = CHR 0x22 # cs" using False by (cases kvs) (auto simp: joined_Cons quote_def)
  have "parse_members f [] ?r = Some (kvs, rest)"
    using members [of kvs "[]"] False v(1,2) by (simp add: needs_members)
  moreover have "render nl sp n (JObj kvs) = ''{'' @ nl (Suc n) @ joined ('','' @ nl (Suc n)) (map (member (Suc n)) kvs) @ nl n @ ''}''"
    unfolding render.simps shown Let_def using False by simp
  ultimately show ?thesis
    using c by (simp add: skip_append [OF v(3)] skip_append [OF nl_ws] is_ws_def)
qed

lemma parse_rendered:
  "plain v \<Longrightarrow> need v \<le> f \<Longrightarrow> delim rest \<Longrightarrow> list_all is_ws w
     \<Longrightarrow> parse_value f (w @ render nl sp n v @ rest) = Some (v, rest)"
  "vs \<noteq> [] \<Longrightarrow> \<forall>v \<in> set vs. plain v \<Longrightarrow> needs vs \<le> f \<Longrightarrow> list_all is_ws w
     \<Longrightarrow> parse_elems f (w @ joined ('','' @ nl n) (map (render nl sp n) vs) @ nl m @ '']'' @ rest) = Some (vs, rest)"
  "kvs \<noteq> [] \<Longrightarrow> \<forall>p \<in> set kvs. plain (snd p) \<Longrightarrow> needs (map snd kvs) \<le> f \<Longrightarrow> list_all is_ws w \<Longrightarrow> distinct (map fst (acc @ kvs))
     \<Longrightarrow> parse_members f acc (w @ joined ('','' @ nl n) (map (member n) kvs) @ nl m @ ''}'' @ rest) = Some (acc @ kvs, rest)"
proof (induction f arbitrary: v vs kvs acc w n m rest)
  case 0
  { case 1 then show ?case using need_pos [of v] by simp
  next case 2 then show ?case by (cases vs) auto
  next case 3 then show ?case by (cases kvs) auto }
next
  case (Suc f)
  { case 1
    show ?case
    proof (cases v)
      case (JArr us)
      then show ?thesis using 1 array_step [of f n rest us w] Suc.IH(2) by simp
    next
      case (JObj kvs)
      then show ?thesis using 1 object_step [of f n rest kvs w] Suc.IH(3) [where acc = "[]"] by simp
    qed (rule scalar_value; use 1 in simp)+
  next
    case 2 then show ?case by (intro elems_step Suc.IH) auto
  next
    case 3 then show ?case by (intro members_step Suc.IH) auto }
qed

lemma needs_joined:
  "\<forall>v \<in> set vs. need v \<le> length (f v) \<Longrightarrow> needs vs \<le> length (joined ('','' @ sep) (map f vs)) + 1"
  by (induction vs) (auto simp: joined_Cons)

lemma needs_joined_members:
  "\<forall>p \<in> set kvs. need (snd p) \<le> length (f p) \<Longrightarrow> needs (map snd kvs) \<le> length (joined ('','' @ sep) (map f kvs)) + 1"
  by (induction kvs) (auto simp: joined_Cons)

lemma need_length: "plain v \<Longrightarrow> need v \<le> length (render nl sp n v)"
proof (induction v arbitrary: n rule: need.induct)
  case (1 vs)
  have "needs vs \<le> length (joined ('','' @ nl (Suc n)) (map (render nl sp (Suc n)) vs)) + 1"
    by (rule needs_joined) (use 1 in auto)
  then show ?case by (cases vs) (auto simp: joined_Cons)
next
  case (2 kvs)
  have shown: "concat (map (\<lambda>(k, v). if v = JUndef then [] else [quote k @ '':'' @ sp @ render nl sp (Suc n) v]) kvs) = map (member (Suc n)) kvs"
    by (rule shown_plain) (use 2(2) in simp)
  have "\<forall>p \<in> set kvs. need (snd p) \<le> length (member (Suc n) p)"
  proof
    fix p assume p: "p \<in> set kvs"
    then have "need (snd p) \<le> length (render nl sp (Suc n) (snd p))" by (rule 2(1)) (use 2(2) p in simp)
    then show "need (snd p) \<le> length (member (Suc n) p)" by simp
  qed
  then have "needs (map snd kvs) \<le> length (joined ('','' @ nl (Suc n)) (map (member (Suc n)) kvs)) + 1"
    by (rule needs_joined_members)
  then show ?case unfolding render.simps shown Let_def by (cases kvs) (auto simp: needs_members joined_Cons)
qed (auto simp: quote_def Suc_le_eq int_text_ne)

lemma parse_text:
  assumes "plain v" and "list_all is_ws w" and "delim w"
  shows "json_parse (render nl sp n v @ w) = Some v"
proof -
  have "parse_value (Suc (2 * length (render nl sp n v @ w))) ([] @ render nl sp n v @ w) = Some (v, w)"
    by (rule parse_rendered(1)) (use assms need_length [OF assms(1), of n] in auto)
  then show ?thesis using skip_append [OF assms(2), of "[]"] by (simp add: json_parse_def)
qed

end

interpretation indented: layout newline_indent "'' ''"
  by unfold_locales (simp_all add: newline_indent_def is_ws_def list_all_iff)

interpretation compact: layout "\<lambda>_. []" "[]"
  by unfold_locales simp_all

text \<open>Both forms of the text read back as the value.\<close>

lemma json_parse_stringify: "plain v \<Longrightarrow> json_parse (stringify v) = Some v"
  using compact.parse_text [of v "[]" 0] by (simp add: stringify_render [of v 0])

lemma json_parse_pretty: "plain v \<Longrightarrow> json_parse (pretty n v @ [CHR 0x0A]) = Some v"
  using indented.parse_text [of v "[CHR 0x0A]" n] by (simp add: pretty_render is_ws_def)

end
