(* ===== verification/Control_Text.thy ===== *)
theory Control_Text
  imports Control_Follow Json_Roundtrip
begin

text \<open>
  The stored text of a coordination record: every value the store writes has distinct
  property names and no \<open>undefined\<close>, so the text it is printed as reads back as that value,
  and the reader returns the record that was printed.
\<close>

section \<open>Every stored value is plain\<close>

named_theorems plain_intros \<open>JSON values that print and parse back\<close>

lemma plain_jnat [plain_intros, simp]: "plain (jnat n)"
  by (simp add: jnat_def)

lemma plain_jstrs [plain_intros, simp]: "plain (jstrs xs)"
  by (auto simp: jstrs_def)

lemma plain_jlist [plain_intros]: "(\<And>x. x \<in> set xs \<Longrightarrow> plain (f x)) \<Longrightarrow> plain (jlist f xs)"
  by (auto simp: jlist_def)

lemma plain_literal:
  assumes "x \<in> snd ` set table"
  shows "plain (literal table x)"
proof -
  from assms obtain y where y: "y \<in> set table" "snd y = x" by auto
  obtain e where "List.find (\<lambda>e. snd e = x) table = Some e"
    using find_not_None [OF y(1), of "\<lambda>e. snd e = x"] y(2) by blast
  then show ?thesis by (simp add: literal_def)
qed

lemma plain_literals [simp]:
  "plain (literal region_kinds k1)" "plain (literal subject_kinds k2)" "plain (literal areas_sources k3)"
  "plain (literal grant_scopes k4)" "plain (literal dialects k5)" "plain (literal lives k6)"
  "plain (literal object_formats k7)" "plain (literal effects k8)" "plain (literal origins k9)"
  "plain (literal noteKinds k10)" "plain (literal receipt_actions k11)"
  "plain (literal announcement_states k12)" "plain (literal binding_states k13)"
  "plain (literal outcomes k14)" "plain (literal event_kinds k15)"
  subgoal by (cases k1) (simp_all add: plain_literal table_defs)
  subgoal by (cases k2) (simp_all add: plain_literal table_defs)
  subgoal by (cases k3) (simp_all add: plain_literal table_defs)
  subgoal by (cases k4) (simp_all add: plain_literal table_defs)
  subgoal by (cases k5) (simp_all add: plain_literal table_defs)
  subgoal by (cases k6) (simp_all add: plain_literal table_defs)
  subgoal by (cases k7) (simp_all add: plain_literal table_defs)
  subgoal by (cases k8) (simp_all add: plain_literal table_defs)
  subgoal by (cases k9) (simp_all add: plain_literal table_defs)
  subgoal by (cases k10) (simp_all add: plain_literal table_defs)
  subgoal by (cases k11) (simp_all add: plain_literal table_defs)
  subgoal by (cases k12) (simp_all add: plain_literal table_defs)
  subgoal by (cases k13) (simp_all add: plain_literal table_defs)
  subgoal by (cases k14) (simp_all add: plain_literal table_defs)
  subgoal by (cases k15) (simp_all add: plain_literal table_defs)
  done

lemma fields_opt [simp]:
  "map fst (opt_field k f x) = (if x = None then [] else [k])"
  "(\<forall>p \<in> set (opt_field k f x). plain (snd p)) = (\<forall>y. x = Some y \<longrightarrow> plain (f y))"
  by (auto simp: opt_field_def split: option.split)

lemma plain_parts [simp]:
  "plain (region_json r)" "plain (subject_json s)" "plain (selection_json e)" "plain (limits_json l)"
  "plain (managed_json m)" "plain (grant_json g)" "plain (override_json d)" "plain (observed_json v)"
  "plain (ann_ref_json a)" "plain (terminal_json t)" "plain (event_json w)" "plain (receipt_json c)"
  by (simp_all add: region_json_def subject_json_def selection_json_def limits_json_def managed_json_def
    grant_json_def override_json_def observed_json_def ann_ref_json_def terminal_json_def event_json_def receipt_json_def)

lemma plain_delta [simp]: "plain (delta_json d)"
  by (simp add: delta_json_def plain_jlist)

lemma plain_source_watch [simp]: "plain (source_watch_json w)"
  by (simp add: source_watch_json_def watcher_fields_def ball_Un plain_jlist)

lemma plain_oid [simp]: "plain (oid_json x)"
  by (cases x) (simp_all add: oid_json_def)

lemma plain_work [simp]: "plain (work_json w)"
  by (simp add: work_json_def ball_Un plain_jlist)

lemma plain_case [simp]: "plain (case_json c)"
  by (simp add: case_json_def ball_Un plain_jlist)

lemma plain_note [simp]: "plain (note_json n)"
  by (simp add: note_json_def ball_Un)

lemma plain_announcement [simp]: "plain (announcement_json a)"
  by (simp add: announcement_json_def ball_Un plain_jlist)

lemma plain_binding [simp]: "plain (binding_json b)"
  by (simp add: binding_json_def ball_Un plain_jlist)

lemma plain_recovery [simp]: "plain (recovery_json r)"
  by (cases "rv_action r") (simp_all add: recovery_json_def recovery_base_fields_def)

lemma plain_recovery_receipt [simp]: "plain (recovery_receipt_json r)"
  by (simp add: recovery_receipt_json_def)

lemma plain_control: "plain (control_json s)"
  by (cases "cs_schema s = 1"; cases "has_submissions s")
     (simp_all add: control_json_def plain_jlist plain_parts)

section \<open>Printing and reading a record\<close>

lemma parse_control_text: "json_parse (control_text s) = Some (control_json s)"
  unfolding control_text_def by (rule json_parse_pretty [OF plain_control])

text \<open>\<open>decodeControl(JSON.parse(bytes))\<close>, as every load of the record does it.\<close>

definition load_control :: "(string \<Rightarrow> string) \<Rightarrow> string \<Rightarrow> string \<Rightarrow> control_state res" where
  "load_control sha content repo =
     (case json_parse content of None \<Rightarrow> fail ''COORDINATION_RECORD_CORRUPT'' | Some v \<Rightarrow> decodeControl sha v repo)"

lemma load_control_text:
  "control_ok sha s \<Longrightarrow> load_control sha (control_text s) (cs_repository_id s) = Inr s"
  by (simp add: load_control_def parse_control_text decodeControl_json)

lemma load_control_sound: "load_control sha content repo = Inr s \<Longrightarrow> control_ok sha s \<and> cs_repository_id s = repo"
  by (auto simp: load_control_def dest: decodeControl_sound split: option.splits)

end
