(* ===== verification/Control_History.thy ===== *)
theory Control_History
  imports Control_Text
begin

text \<open>
  What the transition check promises about every chain of publications, whoever wrote the
  records: one retained operation per revision, histories that only grow, subjects that
  never disappear and notes that are never rewritten. A publication is a step of the
  relation \<open>publication\<close>; its facts are lifted to chains by rule induction.
\<close>

section \<open>One operation per revision\<close>

lemma length_operation_revisions: "length (operation_revisions s) = controlReceiptCount s"
  by (simp add: operation_revisions_def controlReceiptCount_def)

lemma events_bounded:
  assumes "control_ok sha s" and "e \<in> set (cs_events s)"
  shows "1 \<le> ev_revision e \<and> ev_revision e \<le> cs_revision s"
proof -
  from assms have "has_submissions s" "event_ok e" by (auto simp: control_ok_def control_records_ok_def)
  moreover from this assms have "event_history_ok s e"
    by (simp add: control_ok_def control_relations_ok_def submissions_ok_def)
  ultimately show ?thesis by (simp add: event_history_ok_def event_ok_def counter_ok_def)
qed

lemma receipts_bounded:
  assumes "control_ok sha s" and "r \<in> set (cs_receipts s)"
  shows "1 \<le> rc_revision r \<and> rc_revision r \<le> cs_revision s"
  using assms
  by (auto simp: control_ok_def control_records_ok_def list_ok_def receipt_ok_def counter_ok_def
      control_relations_ok_def history_ok_def receipt_history_ok_def)

lemma recoveries_bounded:
  assumes "control_ok sha s" and "r \<in> set (cs_recoveries s)"
  shows "1 \<le> rr_revision r \<and> rr_revision r \<le> cs_revision s"
  using assms
  by (auto simp: control_ok_def control_records_ok_def recovery_receipt_ok_def counter_ok_def
      control_relations_ok_def history_ok_def recovery_history_ok_def)

text \<open>The revisions of the retained operations are \<open>1, ..., revision\<close>, each once.\<close>

lemma revisions_cover:
  assumes "control_ok sha s"
  shows "set (operation_revisions s) = {1..cs_revision s}"
proof (rule card_subset_eq)
  show "set (operation_revisions s) \<subseteq> {1..cs_revision s}"
    using events_bounded [OF assms] receipts_bounded [OF assms] recoveries_bounded [OF assms]
    by (auto simp: operation_revisions_def)
  have "distinct (operation_revisions s)" "controlReceiptCount s = cs_revision s"
    using assms by (simp_all add: control_ok_def control_relations_ok_def history_ok_def unique_by_def)
  then show "card (set (operation_revisions s)) = card {1..cs_revision s}"
    by (simp add: distinct_card length_operation_revisions)
qed simp

section \<open>One publication\<close>

inductive publication :: "(string \<Rightarrow> string) \<Rightarrow> control_state \<Rightarrow> control_state \<Rightarrow> bool" for sha where
  publish: "control_ok sha s \<Longrightarrow> control_ok sha t \<Longrightarrow> assertControlTransition sha s t = Inr () \<Longrightarrow> publication sha s t"

inductive_cases publicationE: "publication sha s t"

text \<open>A sequence of checks succeeds when each of them does.\<close>

lemma andThen_checks: "(andThen r (\<lambda>_ :: unit. k) = Inr y) = (r = Inr () \<and> k = Inr y)"
  by (cases r) simp_all

lemma find_key_in: "List.find (\<lambda>x. f x = i) xs = Some y \<Longrightarrow> i \<in> f ` set xs"
  by (auto dest: find_SomeD)

lemma transition_frame:
  assumes "assertControlTransition sha s t = Inr ()"
  shows "cs_epoch s = cs_epoch t" "cs_repository_id s = cs_repository_id t" "cs_limits s = cs_limits t"
    "cs_revision t = cs_revision s + 1" "cs_schema s \<le> cs_schema t" "prefix (cs_recoveries s) (cs_recoveries t)"
    "prefix (cs_events s) (cs_events t)" "prefix (cs_receipts s) (cs_receipts t)"
  using assms unfolding assertControlTransition_def Let_def andThen_Inr_iff guard_fail_Inr by blast+

lemma transition_members:
  assumes "assertControlTransition sha s t = Inr ()"
  shows "w \<in> set (cs_works s) \<Longrightarrow> \<exists>x. find_work t (w_id w) = Some x"
    "c \<in> set (cs_cases s) \<Longrightarrow> \<exists>x. find_case t (c_id c) = Some x"
    "n \<in> set (cs_notes s) \<Longrightarrow> note_transition_ok t n"
proof -
  let ?r = "appended (cs_recoveries s) (cs_recoveries t)"
  from assms have "each_res (\<lambda>w. guard_fail (\<not> work_transition_ok sha s t ?r w) INVALID) (cs_works s) = Inr ()"
    by (simp only: assertControlTransition_def Let_def andThen_checks)
  then have w: "\<forall>w \<in> set (cs_works s). work_transition_ok sha s t ?r w" by (simp add: each_res_Inr guard_fail_Inr)
  from assms have "each_res (case_transition sha s t ?r) (cs_cases s) = Inr ()"
    by (simp only: assertControlTransition_def Let_def andThen_checks)
  then have c: "\<forall>c \<in> set (cs_cases s). case_transition sha s t ?r c = Inr ()" by (rule each_res_Inr [THEN iffD1])
  from assms have "each_res (\<lambda>n. guard_fail (\<not> note_transition_ok t n) INVALID) (cs_notes s) = Inr ()"
    by (simp only: assertControlTransition_def Let_def andThen_checks)
  then have n: "\<forall>n \<in> set (cs_notes s). note_transition_ok t n" by (simp add: each_res_Inr guard_fail_Inr)
  show "w \<in> set (cs_works s) \<Longrightarrow> \<exists>x. find_work t (w_id w) = Some x"
    using w by (fastforce simp: work_transition_ok_def Let_def split: option.splits)
  show "c \<in> set (cs_cases s) \<Longrightarrow> \<exists>x. find_case t (c_id c) = Some x"
    using c by (fastforce simp: case_transition_def Let_def split: option.splits)
  show "n \<in> set (cs_notes s) \<Longrightarrow> note_transition_ok t n" using n by blast
qed

definition next_operation :: "control_state \<Rightarrow> control_state \<Rightarrow> bool" where
  "next_operation s t =
     ((\<exists>r. cs_receipts t = cs_receipts s @ [r] \<and> rc_revision r = cs_revision t
          \<and> cs_recoveries t = cs_recoveries s \<and> cs_events t = cs_events s)
    \<or> (\<exists>r. cs_recoveries t = cs_recoveries s @ [r] \<and> rr_revision r = cs_revision t
          \<and> cs_receipts t = cs_receipts s \<and> cs_events t = cs_events s)
    \<or> (\<exists>e. cs_events t = cs_events s @ [e] \<and> ev_revision e = cs_revision t
          \<and> cs_receipts t = cs_receipts s \<and> cs_recoveries t = cs_recoveries s))"

lemma publication_appends:
  assumes "publication sha s t"
  shows "next_operation s t"
proof -
  from assms have ok: "control_ok sha s" "control_ok sha t" and tr: "assertControlTransition sha s t = Inr ()"
    by (auto elim: publicationE)
  note frame = transition_frame [OF tr]
  obtain rs where rs: "cs_receipts t = cs_receipts s @ rs" using frame(8) by (auto simp: prefix_def)
  obtain vs where vs: "cs_recoveries t = cs_recoveries s @ vs" using frame(6) by (auto simp: prefix_def)
  obtain es where es: "cs_events t = cs_events s @ es" using frame(7) by (auto simp: prefix_def)
  have count: "controlReceiptCount s = cs_revision s" "controlReceiptCount t = cs_revision t"
    using ok by (simp_all add: control_ok_def control_relations_ok_def history_ok_def)
  have one: "length rs + length vs + length es = 1"
    using count frame(4) by (simp add: controlReceiptCount_def rs vs es)
  have top: "cs_revision t \<in> set (operation_revisions t)" "cs_revision t \<notin> set (operation_revisions s)"
    using revisions_cover [OF ok(1)] revisions_cover [OF ok(2)] frame(4) by auto
  have new: "set (operation_revisions t) = set (operation_revisions s)
      \<union> (rc_revision ` set rs \<union> rr_revision ` set vs \<union> ev_revision ` set es)"
    by (auto simp: operation_revisions_def rs vs es)
  have hit: "cs_revision t \<in> rc_revision ` set rs \<union> rr_revision ` set vs \<union> ev_revision ` set es"
    using top new by blast
  from one consider r where "rs = [r]" "vs = []" "es = []" | r where "rs = []" "vs = [r]" "es = []"
    | e where "rs = []" "vs = []" "es = [e]"
    by (cases rs; cases vs; cases es) auto
  then show ?thesis
    using hit by cases (simp_all add: next_operation_def rs vs es)
qed

section \<open>Chains of publications\<close>

abbreviation publications :: "(string \<Rightarrow> string) \<Rightarrow> control_state \<Rightarrow> control_state \<Rightarrow> bool" where
  "publications sha \<equiv> (publication sha)\<^sup>*\<^sup>*"

lemma publications_history:
  assumes "publications sha s t"
  shows "prefix (cs_receipts s) (cs_receipts t) \<and> prefix (cs_recoveries s) (cs_recoveries t)
    \<and> prefix (cs_events s) (cs_events t) \<and> cs_revision s \<le> cs_revision t \<and> cs_schema s \<le> cs_schema t
    \<and> cs_epoch t = cs_epoch s \<and> cs_repository_id t = cs_repository_id s \<and> cs_limits t = cs_limits s"
  using assms
proof (induction rule: rtranclp_induct)
  case (step t u)
  then have "assertControlTransition sha t u = Inr ()" by (auto elim: publicationE)
  note frame = transition_frame [OF this]
  from step.IH frame show ?case by (auto intro: prefix_order.trans)
qed simp

lemma publications_ok: "publications sha s t \<Longrightarrow> control_ok sha s \<Longrightarrow> control_ok sha t"
  by (induction rule: rtranclp_induct) (auto elim: publicationE)

lemma publication_ids:
  assumes "publication sha s t"
  shows "w_id ` set (cs_works s) \<subseteq> w_id ` set (cs_works t)" "c_id ` set (cs_cases s) \<subseteq> c_id ` set (cs_cases t)"
    "n_id ` set (cs_notes s) \<subseteq> n_id ` set (cs_notes t)"
proof -
  from assms have tr: "assertControlTransition sha s t = Inr ()" by (auto elim: publicationE)
  show "w_id ` set (cs_works s) \<subseteq> w_id ` set (cs_works t)"
    using transition_members(1) [OF tr] find_key_in unfolding find_work_def by fast
  show "c_id ` set (cs_cases s) \<subseteq> c_id ` set (cs_cases t)"
    using transition_members(2) [OF tr] find_key_in unfolding find_case_def by fast
  show "n_id ` set (cs_notes s) \<subseteq> n_id ` set (cs_notes t)"
  proof
    fix i assume "i \<in> n_id ` set (cs_notes s)"
    then obtain n where n: "n \<in> set (cs_notes s)" "i = n_id n" by auto
    from transition_members(3) [OF tr n(1)] obtain x where "List.find (\<lambda>x. n_id x = n_id n) (cs_notes t) = Some x"
      by (auto simp: note_transition_ok_def split: option.splits)
    then show "i \<in> n_id ` set (cs_notes t)" using n(2) find_key_in by fastforce
  qed
qed

lemma publications_ids:
  assumes "publications sha s t"
  shows "w_id ` set (cs_works s) \<subseteq> w_id ` set (cs_works t) \<and> c_id ` set (cs_cases s) \<subseteq> c_id ` set (cs_cases t)
    \<and> n_id ` set (cs_notes s) \<subseteq> n_id ` set (cs_notes t)"
  using assms
proof (induction rule: rtranclp_induct)
  case (step t u)
  then show ?case using publication_ids [OF step.hyps(2)] by (meson order_trans)
qed simp

text \<open>What a note says and who it was for never changes; acknowledgments accumulate.\<close>

definition note_grows :: "note_rec \<Rightarrow> note_rec \<Rightarrow> bool" where
  "note_grows n m = (n\<lparr>n_acknowledged := n_acknowledged m, n_withdrawn := n_withdrawn m\<rparr> = m
     \<and> (n_withdrawn n \<longrightarrow> n_withdrawn m) \<and> prefix (n_acknowledged n) (n_acknowledged m))"

lemma note_grows_refl: "note_grows n n"
  by (simp add: note_grows_def)

lemma note_grows_trans:
  assumes "note_grows a b" "note_grows b c" shows "note_grows a c"
proof -
  from assms have b: "a\<lparr>n_acknowledged := n_acknowledged b, n_withdrawn := n_withdrawn b\<rparr> = b"
    and c: "b\<lparr>n_acknowledged := n_acknowledged c, n_withdrawn := n_withdrawn c\<rparr> = c"
    by (simp_all add: note_grows_def)
  have "a\<lparr>n_acknowledged := n_acknowledged c, n_withdrawn := n_withdrawn c\<rparr> = c"
    using b c by (cases a, cases b, cases c) simp
  with assms show ?thesis by (auto simp: note_grows_def intro: prefix_order.trans)
qed

lemma publication_note:
  assumes "publication sha s t" and "find_note s i = Some n"
  shows "\<exists>m. find_note t i = Some m \<and> note_grows n m"
proof -
  from assms have tr: "assertControlTransition sha s t = Inr ()" by (auto elim: publicationE)
  from assms have "n \<in> set (cs_notes s)" "n_id n = i" by (auto simp: find_note_def dest: find_SomeD)
  with transition_members(3) [OF tr this(1)] show ?thesis
    by (auto simp: note_transition_ok_def note_grows_def find_note_def split: option.splits)
qed

lemma publications_note:
  assumes "publications sha s t" and "find_note s i = Some n"
  shows "\<exists>m. find_note t i = Some m \<and> note_grows n m"
  using assms
proof (induction rule: rtranclp_induct)
  case base then show ?case using note_grows_refl by auto
next
  case (step t u)
  then show ?case using publication_note [OF step.hyps(2)] note_grows_trans by meson
qed

end
