(* ===== verification/Examples.thy ===== *)
theory Examples
  imports Control_History "HOL-Library.Code_Target_Nat"
begin

text \<open>
  Concrete values for the witnesses: a hash with hexadecimal output, an empty record with
  small limits, and principals, commands and identities that decode.
\<close>

definition demo_sha :: "string \<Rightarrow> string" where
  "demo_sha x = replicate 64 (if even (length x) then CHR ''a'' else CHR ''b'')"

definition demo_alice :: string where "demo_alice = replicate 64 (CHR ''1'')"
definition demo_bob :: string where "demo_bob = replicate 64 (CHR ''2'')"

text \<open>Random identities, in the form of a version 4 UUID.\<close>

definition demo_id :: "char \<Rightarrow> string" where
  "demo_id c = replicate 8 c @ ''-'' @ replicate 4 c @ ''-4'' @ replicate 3 c @ ''-8'' @ replicate 3 c @ ''-'' @ replicate 12 c"

definition demo_oid :: string where "demo_oid = replicate 40 (CHR ''c'')"

definition demo_limits :: limits where
  "demo_limits = \<lparr>lim_works = 4, lim_cases = 4, lim_notes = 4, lim_receipts = 16, lim_note_bytes = 1024\<rparr>"

definition demo_empty :: control_state where
  "demo_empty = \<lparr>cs_schema = 1, cs_repository_id = ''repo'', cs_epoch = demo_id (CHR ''e''), cs_revision = 0,
     cs_limits = demo_limits, cs_works = [], cs_cases = [], cs_notes = [], cs_receipts = [], cs_recoveries = [],
     cs_announcements = [], cs_bindings = [], cs_events = []\<rparr>"

definition demo_register :: command where
  "demo_register = Register_work ''k1'' ''ws'' demo_oid Sha1 ''intent'' [\<lparr>r_kind = RFile, r_path = ''a''\<rparr>] [demo_bob]"

definition demo_claim :: command where
  "demo_claim = Claim_target ''k2'' ''refs/heads/main'' [demo_bob]"

section \<open>What the commands make of the empty record\<close>

lemma demo_sha_hex: "sha_hex demo_sha"
proof -
  have "parent_ok (replicate 64 (CHR ''a'')) \<and> parent_ok (replicate 64 (CHR ''b''))" by code_simp
  then show ?thesis by (simp add: sha_hex_def demo_sha_def)
qed

lemma demo_empty_ok: "control_ok demo_sha demo_empty"
  by code_simp

definition demo_work_id :: string where "demo_work_id = demo_id (CHR ''1'')"
definition demo_case_id :: string where "demo_case_id = demo_id (CHR ''2'')"

definition demo_work :: work where
  "demo_work = new_work demo_work_id demo_alice ''ws'' demo_oid Sha1 ''intent'' [\<lparr>r_kind = RFile, r_path = ''a''\<rparr>] [demo_bob] None"

definition demo_receipt :: "string \<Rightarrow> command \<Rightarrow> nat \<Rightarrow> subject \<Rightarrow> string \<Rightarrow> receipt" where
  "demo_receipt p cmd n x i = \<lparr>rc_owner = p, rc_key = operation_key cmd, rc_request_hash = request_hash demo_sha p cmd,
     rc_revision = n, rc_action = command_action cmd, rc_entity = x, rc_item_id = i\<rparr>"

definition demo_registered :: receipt where
  "demo_registered = demo_receipt demo_alice demo_register 1 (work_subject demo_work_id) demo_work_id"

definition demo_one :: control_state where
  "demo_one = demo_empty\<lparr>cs_revision := 1, cs_works := [demo_work], cs_receipts := [demo_registered]\<rparr>"

lemma demo_register_commits:
  "commit demo_sha demo_empty demo_alice demo_register False demo_work_id = Inr (demo_one, demo_registered)"
  by code_simp

lemma demo_register_committing: "committing demo_sha demo_empty demo_alice demo_register False demo_work_id"
proof -
  have "parent_ok demo_alice \<and> command_ok demo_register \<and> key_unused demo_empty demo_alice (operation_key demo_register)
      \<and> fresh_id demo_empty demo_work_id \<and> int (cs_revision demo_empty + 1) \<le> MAX_SAFE_INTEGER
      \<and> publishable demo_empty demo_alice demo_register False" by code_simp
  then show ?thesis using demo_sha_hex demo_empty_ok unfolding committing_def by blast
qed

lemma demo_one_ok: "control_ok demo_sha demo_one"
  by (rule commit_keeps_control_ok [OF demo_register_committing demo_register_commits])

lemma demo_one_follows: "assertControlTransition demo_sha demo_empty demo_one = Inr ()"
  by (rule commit_may_follow [OF demo_register_committing demo_register_commits])

lemma demo_one_repository: "cs_repository_id demo_one = ''repo''"
  using transition_frame(2) [OF demo_one_follows] by (simp add: demo_empty_def)

lemma demo_publication: "publication demo_sha demo_empty demo_one"
  by (rule publication.publish [OF demo_empty_ok demo_one_ok demo_one_follows])

text \<open>A note posted to the work, and withdrawn.\<close>

definition demo_note_id :: string where "demo_note_id = demo_id (CHR ''3'')"
definition demo_post :: command where
  "demo_post = Post_note ''k3'' (work_subject demo_work_id) Statement_note ''hello'' []"
definition demo_withdraw :: command where "demo_withdraw = Withdraw_note ''k4'' demo_note_id"

lemma commits_step:
  assumes "control_ok demo_sha s"
    and "parent_ok p \<and> command_ok cmd \<and> key_unused s p (operation_key cmd) \<and> fresh_id s fresh
      \<and> int (cs_revision s + 1) \<le> MAX_SAFE_INTEGER \<and> publishable s p cmd observed"
    and "commit demo_sha s p cmd observed fresh = Inr (t, r)"
  shows "publication demo_sha s t"
proof -
  have com: "committing demo_sha s p cmd observed fresh"
    using assms(1,2) demo_sha_hex unfolding committing_def by blast
  show ?thesis
    by (rule publication.publish [OF assms(1) commit_keeps_control_ok [OF com assms(3)] commit_may_follow [OF com assms(3)]])
qed

lemma publication_ok: "publication sha s t \<Longrightarrow> control_ok sha t"
  by (auto elim: publicationE)

definition demo_note :: note_rec where
  "demo_note = \<lparr>n_id = demo_note_id, n_subject = work_subject demo_work_id, n_author = demo_alice, n_kind = Statement_note,
     n_text = ''hello'', n_work_refs = [demo_work_id], n_parties = [], n_acknowledged = [], n_withdrawn = False,
     n_readers = Some [demo_alice, demo_bob]\<rparr>"

definition demo_posted :: receipt where
  "demo_posted = demo_receipt demo_alice demo_post 2 (work_subject demo_work_id) demo_note_id"
definition demo_withdrawn :: receipt where
  "demo_withdrawn = demo_receipt demo_alice demo_withdraw 3 (work_subject demo_work_id) demo_note_id"

definition demo_two :: control_state where
  "demo_two = demo_one\<lparr>cs_schema := 7, cs_revision := 2, cs_notes := [demo_note], cs_receipts := [demo_registered, demo_posted]\<rparr>"
definition demo_three :: control_state where
  "demo_three = demo_two\<lparr>cs_revision := 3, cs_notes := [demo_note\<lparr>n_withdrawn := True\<rparr>],
     cs_receipts := [demo_registered, demo_posted, demo_withdrawn]\<rparr>"

lemma demo_two_commits: "commit demo_sha demo_one demo_alice demo_post False demo_note_id = Inr (demo_two, demo_posted)"
  by code_simp

lemma demo_three_commits:
  "commit demo_sha demo_two demo_alice demo_withdraw False demo_case_id = Inr (demo_three, demo_withdrawn)"
  by code_simp

lemma demo_two_published: "publication demo_sha demo_one demo_two"
  by (rule commits_step [OF demo_one_ok _ demo_two_commits]) code_simp

lemma demo_three_published: "publication demo_sha demo_two demo_three"
  by (rule commits_step [OF publication_ok [OF demo_two_published] _ demo_three_commits]) code_simp

end
