(* ===== verification/Submission_Inputs.thy ===== *)
theory Submission_Inputs
  imports Control_Check
begin

text \<open>
  The inputs of the submission operations and of the repository boundary
  (src/src/contracts/coordination-control.ts, lines 757 to 847): operation keys and the
  prefix reserved for the service's own bookkeeping, announcements, preflight, binding,
  disposition and terminal evidence, and the commands a repository accepts, whose physical
  workspace is never taken from the caller.
\<close>

section \<open>Operation keys\<close>

definition INTERNAL_OPERATION_KEY_PREFIX :: string where
  "INTERNAL_OPERATION_KEY_PREFIX = ''passeur-internal:''"

definition internalCoordinationOperationKey :: "jval \<Rightarrow> string res" where
  "internalCoordinationOperationKey v =
     andThen (coordinationOperationKey v) (\<lambda>k.
     andThen (guard_fail (\<not> starts_with k INTERNAL_OPERATION_KEY_PREFIX) INVALID) (\<lambda>_. Inr k))"

definition publicCoordinationOperationKey :: "jval \<Rightarrow> string res" where
  "publicCoordinationOperationKey v =
     andThen (coordinationOperationKey v) (\<lambda>k.
     andThen (guard_fail (starts_with k INTERNAL_OPERATION_KEY_PREFIX) ''COORDINATION_OPERATION_KEY_RESERVED'') (\<lambda>_. Inr k))"

definition boundary_key :: "bool \<Rightarrow> jval \<Rightarrow> string res" where
  "boundary_key internal v = (if internal then internalCoordinationOperationKey v else publicCoordinationOperationKey v)"

section \<open>Commands at the repository boundary\<close>

datatype repository_command =
    Ordinary command
  | Register_external string string string "region list" "string list"
  | Register_managed string string

definition decodeRepositoryCommandCore :: "jval \<Rightarrow> bool \<Rightarrow> repository_command res" where
  "decodeRepositoryCommandCore value internal =
     andThen (as_object value) (\<lambda>v.
     (let kind = prop_of v ''kind'' in
      if kind = JStr ''register_work'' \<or> kind = JStr ''register_task_work'' then fail ''COORDINATION_OPERATION_UNSUPPORTED''
      else if kind = JStr ''register_managed_work'' then
        andThen (Control_Decode.fields v [''kind'', ''operation_key'', ''task_id'']) (\<lambda>_.
        andThen (boundary_key internal (prop_of v ''operation_key'')) (\<lambda>k.
        andThen (entityId (prop_of v ''task_id'')) (\<lambda>t. Inr (Register_managed k t))))
      else if kind \<noteq> JStr ''register_external_work'' then
        andThen (decodeCommand value) (\<lambda>cmd.
        andThen (guard_fail (command_action cmd \<in> {A_register_work, A_register_task_work}) INVALID) (\<lambda>_.
        andThen (boundary_key internal (JStr (operation_key cmd))) (\<lambda>_. Inr (Ordinary cmd))))
      else
        andThen (Control_Decode.fields v [''kind'', ''operation_key'', ''input_oid'', ''intent'', ''areas'', ''readers'']) (\<lambda>_.
        andThen (boundary_key internal (prop_of v ''operation_key'')) (\<lambda>k.
        andThen (coordinationOid (prop_of v ''input_oid'')) (\<lambda>oid.
        andThen (text_of (prop_of v ''intent'') 4096 True) (\<lambda>intent.
        andThen (regions (prop_of v ''areas'')) (\<lambda>areas.
        andThen (parents (prop_of v ''readers'')) (\<lambda>readers. Inr (Register_external k oid intent areas readers))))))))) "

definition decodeRepositoryCommand :: "jval \<Rightarrow> repository_command res" where
  "decodeRepositoryCommand v = decodeRepositoryCommandCore v False"

definition decodeInternalRepositoryCommand :: "jval \<Rightarrow> repository_command res" where
  "decodeInternalRepositoryCommand v = decodeRepositoryCommandCore v True"

section \<open>Announcements\<close>

record announcement_input =
  ai_key :: string
  ai_id :: string
  ai_payload_digest :: string
  ai_source_view :: string
  ai_assignment_hash :: string
  ai_areas :: "region list"
  ai_readers :: "string list"

definition decodeAnnouncementInput :: "jval \<Rightarrow> announcement_input res" where
  "decodeAnnouncementInput value =
     andThen (as_object value) (\<lambda>v.
     andThen (Control_Decode.fields v [''operation_key'', ''id'', ''payload_digest'', ''source_view'', ''assignment_hash'', ''areas'', ''readers'']) (\<lambda>_.
     andThen (publicCoordinationOperationKey (prop_of v ''operation_key'')) (\<lambda>k.
     andThen (entityId (prop_of v ''id'')) (\<lambda>i. andThen (digest_of (prop_of v ''payload_digest'')) (\<lambda>pd.
     andThen (sourceView (prop_of v ''source_view'')) (\<lambda>sv. andThen (digest_of (prop_of v ''assignment_hash'')) (\<lambda>ah.
     andThen (regions (prop_of v ''areas'')) (\<lambda>areas. andThen (parents (prop_of v ''readers'')) (\<lambda>readers.
     Inr \<lparr>ai_key = k, ai_id = i, ai_payload_digest = pd, ai_source_view = sv, ai_assignment_hash = ah,
       ai_areas = areas, ai_readers = readers\<rparr>)))))))))"

definition announcement_input_json :: "announcement_input \<Rightarrow> jval" where
  "announcement_input_json i = JObj [(''operation_key'', JStr (ai_key i)), (''id'', JStr (ai_id i)),
     (''payload_digest'', JStr (ai_payload_digest i)), (''source_view'', JStr (ai_source_view i)),
     (''assignment_hash'', JStr (ai_assignment_hash i)), (''areas'', jlist region_json (ai_areas i)),
     (''readers'', jstrs (ai_readers i))]"

record withdrawal_input =
  wi_key :: string
  wi_id :: string
  wi_expected_revision :: nat

definition decodeAnnouncementWithdrawalInput :: "jval \<Rightarrow> withdrawal_input res" where
  "decodeAnnouncementWithdrawalInput value =
     andThen (as_object value) (\<lambda>v.
     andThen (Control_Decode.fields v [''operation_key'', ''id'', ''expected_revision'']) (\<lambda>_.
     andThen (publicCoordinationOperationKey (prop_of v ''operation_key'')) (\<lambda>k.
     andThen (entityId (prop_of v ''id'')) (\<lambda>i. andThen (counter_of (prop_of v ''expected_revision'')) (\<lambda>r.
     Inr \<lparr>wi_key = k, wi_id = i, wi_expected_revision = r\<rparr>)))))"

definition withdrawal_input_json :: "withdrawal_input \<Rightarrow> jval" where
  "withdrawal_input_json i = JObj [(''operation_key'', JStr (wi_key i)), (''id'', JStr (wi_id i)),
     (''expected_revision'', jnat (wi_expected_revision i))]"

section \<open>Submissions\<close>

record preflight_input =
  pf_source_view :: string
  pf_input_oid :: string
  pf_intent_hash :: string
  pf_areas :: "region list"
  pf_announcement :: "ann_ref option"

record bind_input = preflight_input +
  bi_key :: string
  bi_task_id :: string
  bi_request_key :: string
  bi_expected_decision :: "string option"
  bi_payload_digest :: "string option"
  bi_assignment_hash :: "string option"

definition preflight_of :: "(string \<times> jval) list \<Rightarrow> preflight_input res" where
  "preflight_of v =
     andThen (sourceView (prop_of v ''source_view'')) (\<lambda>sv. andThen (coordinationOid (prop_of v ''input_oid'')) (\<lambda>oid.
     andThen (digest_of (prop_of v ''intent_hash'')) (\<lambda>ih. andThen (regions (prop_of v ''areas'')) (\<lambda>areas.
     andThen (opt_of v ''announcement'' announcementReference) (\<lambda>ann.
     Inr \<lparr>pf_source_view = sv, pf_input_oid = oid, pf_intent_hash = ih, pf_areas = areas, pf_announcement = ann\<rparr>)))))"

definition decodeSubmissionPreflightInput :: "jval \<Rightarrow> preflight_input res" where
  "decodeSubmissionPreflightInput value =
     andThen (as_object value) (\<lambda>v.
     andThen (Control_Decode.fields v ([''source_view'', ''input_oid'', ''intent_hash'', ''areas''] @ opt_name v ''announcement'')) (\<lambda>_.
     preflight_of v))"

definition decodeSubmissionBindInput :: "jval \<Rightarrow> bind_input res" where
  "decodeSubmissionBindInput value =
     andThen (as_object value) (\<lambda>v.
     andThen (Control_Decode.fields v ([''operation_key'', ''task_id'', ''request_key'', ''source_view'', ''input_oid'', ''intent_hash'', ''areas'']
       @ opt_name v ''announcement'' @ opt_name v ''expected_decision_identity'' @ opt_name v ''payload_digest''
       @ opt_name v ''assignment_hash'')) (\<lambda>_.
     andThen (preflight_of v) (\<lambda>src.
     andThen (guard_fail ((prop_of v ''payload_digest'' \<noteq> JUndef) \<noteq> (pf_announcement src \<noteq> None)
        \<or> (prop_of v ''assignment_hash'' \<noteq> JUndef) \<noteq> (pf_announcement src \<noteq> None)) INVALID) (\<lambda>_.
     andThen (internalCoordinationOperationKey (prop_of v ''operation_key'')) (\<lambda>k.
     andThen (entityId (prop_of v ''task_id'')) (\<lambda>t. andThen (coordinationOperationKey (prop_of v ''request_key'')) (\<lambda>rk.
     andThen (opt_of v ''expected_decision_identity'' digest_of) (\<lambda>ed.
     andThen (opt_of v ''payload_digest'' digest_of) (\<lambda>pd. andThen (opt_of v ''assignment_hash'' digest_of) (\<lambda>ah.
     Inr (preflight_input.extend src \<lparr>bi_key = k, bi_task_id = t, bi_request_key = rk, bi_expected_decision = ed,
       bi_payload_digest = pd, bi_assignment_hash = ah\<rparr>)))))))))))"

definition preflight_fields :: "'a preflight_input_scheme \<Rightarrow> (string \<times> jval) list" where
  "preflight_fields i = [(''source_view'', JStr (pf_source_view i)), (''input_oid'', JStr (pf_input_oid i)),
     (''intent_hash'', JStr (pf_intent_hash i)), (''areas'', jlist region_json (pf_areas i))]
     @ opt_field ''announcement'' ann_ref_json (pf_announcement i)"

definition bind_input_json :: "bind_input \<Rightarrow> jval" where
  "bind_input_json i = JObj (preflight_fields i @ [(''operation_key'', JStr (bi_key i)), (''task_id'', JStr (bi_task_id i)),
     (''request_key'', JStr (bi_request_key i))]
     @ opt_field ''expected_decision_identity'' JStr (bi_expected_decision i)
     @ opt_field ''payload_digest'' JStr (bi_payload_digest i)
     @ opt_field ''assignment_hash'' JStr (bi_assignment_hash i))"

record disposition_input =
  di_key :: string
  di_task_id :: string
  di_request_key :: string
  di_link_hash :: string

record terminal_input = disposition_input +
  ti_terminal :: terminal_evidence

definition disposition_of :: "(string \<times> jval) list \<Rightarrow> disposition_input res" where
  "disposition_of v =
     andThen (internalCoordinationOperationKey (prop_of v ''operation_key'')) (\<lambda>k.
     andThen (entityId (prop_of v ''task_id'')) (\<lambda>t. andThen (coordinationOperationKey (prop_of v ''request_key'')) (\<lambda>rk.
     andThen (digest_of (prop_of v ''link_hash'')) (\<lambda>lh.
     Inr \<lparr>di_key = k, di_task_id = t, di_request_key = rk, di_link_hash = lh\<rparr>))))"

definition decodeSubmissionDispositionInput :: "jval \<Rightarrow> disposition_input res" where
  "decodeSubmissionDispositionInput value =
     andThen (as_object value) (\<lambda>v.
     andThen (Control_Decode.fields v [''operation_key'', ''task_id'', ''request_key'', ''link_hash'']) (\<lambda>_. disposition_of v))"

definition decodeSubmissionTerminalInput :: "jval \<Rightarrow> terminal_input res" where
  "decodeSubmissionTerminalInput value =
     andThen (as_object value) (\<lambda>v.
     andThen (Control_Decode.fields v [''operation_key'', ''task_id'', ''request_key'', ''link_hash'', ''terminal'']) (\<lambda>_.
     andThen (disposition_of v) (\<lambda>d. andThen (terminalEvidence (prop_of v ''terminal'')) (\<lambda>t.
     Inr (disposition_input.extend d \<lparr>ti_terminal = t\<rparr>)))))"

definition disposition_fields :: "'a disposition_input_scheme \<Rightarrow> (string \<times> jval) list" where
  "disposition_fields i = [(''operation_key'', JStr (di_key i)), (''task_id'', JStr (di_task_id i)),
     (''request_key'', JStr (di_request_key i)), (''link_hash'', JStr (di_link_hash i))]"

definition disposition_input_json :: "disposition_input \<Rightarrow> jval" where
  "disposition_input_json i = JObj (disposition_fields i)"

definition terminal_input_json :: "terminal_input \<Rightarrow> jval" where
  "terminal_input_json i = JObj (disposition_fields i @ [(''terminal'', terminal_json (ti_terminal i))])"

section \<open>What the decoders accept\<close>

definition internal_key_ok :: "string \<Rightarrow> bool" where
  "internal_key_ok k = (key_ok k \<and> starts_with k INTERNAL_OPERATION_KEY_PREFIX)"

definition public_key_ok :: "string \<Rightarrow> bool" where
  "public_key_ok k = (key_ok k \<and> \<not> starts_with k INTERNAL_OPERATION_KEY_PREFIX)"

lemma boundary_keys [res_simps]:
  "(internalCoordinationOperationKey v = Inr k) = (v = JStr k \<and> internal_key_ok k)"
  "(publicCoordinationOperationKey v = Inr k) = (v = JStr k \<and> public_key_ok k)"
  by (auto simp: internalCoordinationOperationKey_def publicCoordinationOperationKey_def internal_key_ok_def
      public_key_ok_def key_ok_def identity_Inr andThen_Inr_iff guard_fail_Inr)

definition announcement_input_ok :: "announcement_input \<Rightarrow> bool" where
  "announcement_input_ok i = (public_key_ok (ai_key i) \<and> entity_ok (ai_id i) \<and> parent_ok (ai_payload_digest i)
     \<and> view_ok (ai_source_view i) \<and> parent_ok (ai_assignment_hash i) \<and> regions_ok (ai_areas i) \<and> parents_ok (ai_readers i))"

lemma decodeAnnouncementInput_sound: "decodeAnnouncementInput v = Inr i \<Longrightarrow> announcement_input_ok i"
  by (auto simp: decodeAnnouncementInput_def res_simps announcement_input_ok_def dest!: regions_sound parents_sound)

definition preflight_ok :: "'a preflight_input_scheme \<Rightarrow> bool" where
  "preflight_ok i = (view_ok (pf_source_view i) \<and> oid_ok (pf_input_oid i) \<and> parent_ok (pf_intent_hash i)
     \<and> regions_ok (pf_areas i) \<and> opt_ok ann_ref_ok (pf_announcement i))"

lemma preflight_of_sound: "preflight_of v = Inr i \<Longrightarrow> preflight_ok i"
  by (auto simp: preflight_of_def res_simps preflight_ok_def dest!: regions_sound announcementReference_sound split: if_splits)

definition bind_input_ok :: "bind_input \<Rightarrow> bool" where
  "bind_input_ok i = (preflight_ok i \<and> internal_key_ok (bi_key i) \<and> entity_ok (bi_task_id i) \<and> key_ok (bi_request_key i))"

definition disposition_ok :: "'a disposition_input_scheme \<Rightarrow> bool" where
  "disposition_ok i = (internal_key_ok (di_key i) \<and> entity_ok (di_task_id i) \<and> key_ok (di_request_key i) \<and> parent_ok (di_link_hash i))"

lemma decodeSubmissionPreflightInput_sound: "decodeSubmissionPreflightInput v = Inr i \<Longrightarrow> preflight_ok i"
  by (auto simp: decodeSubmissionPreflightInput_def andThen_Inr_iff dest: preflight_of_sound)

lemma decodeSubmissionBindInput_sound: "decodeSubmissionBindInput v = Inr i \<Longrightarrow> bind_input_ok i"
  unfolding decodeSubmissionBindInput_def andThen_Inr_iff
  by (elim exE conjE, drule preflight_of_sound)
     (clarsimp simp: boundary_keys identity_Inr bind_input_ok_def preflight_ok_def preflight_input.defs)

lemma disposition_of_sound: "disposition_of v = Inr i \<Longrightarrow> disposition_ok i"
  by (auto simp: disposition_of_def res_simps disposition_ok_def)

lemma decodeSubmissionDispositionInput_sound: "decodeSubmissionDispositionInput v = Inr i \<Longrightarrow> disposition_ok i"
  by (auto simp: decodeSubmissionDispositionInput_def andThen_Inr_iff dest: disposition_of_sound)

lemma decodeSubmissionTerminalInput_sound:
  "decodeSubmissionTerminalInput v = Inr i \<Longrightarrow> disposition_ok i \<and> terminal_ok (ti_terminal i)"
  unfolding decodeSubmissionTerminalInput_def andThen_Inr_iff
  by (elim exE conjE, drule disposition_of_sound, drule terminalEvidence_sound)
     (clarsimp simp: disposition_ok_def disposition_input.defs)

end
