(* ===== verification/Submission.thy ===== *)
theory Submission
  imports Submission_Inputs Control_Apply
begin

text \<open>
  Announcements and submission bindings (src/src/coordination/control.ts, lines 60 to 243
  and 1552 to 1604). An operation reads the current record and either answers from the
  retained event of its key or yields the next record to publish; \<open>structuredClone\<close> makes the
  next record a value of its own.
\<close>

section \<open>Outcomes\<close>

datatype 'a outcome_of = Retained 'a | Publication control_state 'a

definition answer :: "'a outcome_of \<Rightarrow> 'a" where
  "answer x = (case x of Retained a \<Rightarrow> a | Publication _ a \<Rightarrow> a)"

definition next_state :: "control_state \<Rightarrow> 'a outcome_of \<Rightarrow> control_state" where
  "next_state s x = (case x of Retained _ \<Rightarrow> s | Publication t _ \<Rightarrow> t)"

section \<open>The submission record\<close>

definition find_announcement :: "control_state \<Rightarrow> string \<Rightarrow> announcement option" where
  "find_announcement s i = List.find (\<lambda>a. an_id a = i) (cs_announcements s)"

definition find_binding :: "control_state \<Rightarrow> string \<Rightarrow> binding option" where
  "find_binding s t = List.find (\<lambda>b. b_task_id b = t) (cs_bindings s)"

definition change_announcement :: "string \<Rightarrow> (announcement \<Rightarrow> announcement) \<Rightarrow> control_state \<Rightarrow> control_state" where
  "change_announcement i f s = s\<lparr>cs_announcements := update_first (\<lambda>a. an_id a = i) f (cs_announcements s)\<rparr>"

definition change_binding :: "string \<Rightarrow> (binding \<Rightarrow> binding) \<Rightarrow> control_state \<Rightarrow> control_state" where
  "change_binding t f s = s\<lparr>cs_bindings := update_first (\<lambda>b. b_task_id b = t) f (cs_bindings s)\<rparr>"

definition submissionState :: "control_state \<Rightarrow> control_state" where
  "submissionState s = (if has_submissions s then s else s\<lparr>cs_schema := SUBMISSION_CONTROL_SCHEMA\<rparr>)"

definition sameSubmissionKey :: "control_state \<Rightarrow> string \<Rightarrow> string \<Rightarrow> string \<Rightarrow> event option res" where
  "sameSubmissionKey s owner key hash =
     (if starts_with key WORKER_PEER_KEY_PREFIX then fail ''COORDINATION_FORBIDDEN''
      else if (\<exists>r \<in> set (cs_receipts s). rc_owner r = owner \<and> rc_key r = key)
           \<or> (\<exists>r \<in> set (cs_recoveries s). rr_operator r = owner \<and> rv_operation_key (rr_command r) = key)
        then fail ''COORDINATION_KEY_CONFLICT''
      else case List.find (\<lambda>e. ev_owner e = owner \<and> ev_key e = key) (cs_events s) of
        None \<Rightarrow> Inr None
      | Some e \<Rightarrow> if ev_request_hash e \<noteq> hash then fail ''COORDINATION_KEY_CONFLICT'' else Inr (Some e))"

definition appendSubmissionEvent :: "control_state \<Rightarrow> event_kind \<Rightarrow> string \<Rightarrow> string \<Rightarrow> string \<Rightarrow> string \<Rightarrow> control_state" where
  "appendSubmissionEvent s kind owner key item hash =
     s\<lparr>cs_revision := cs_revision s + 1,
       cs_events := cs_events s @ [\<lparr>ev_kind = kind, ev_owner = owner, ev_key = key, ev_item_id = item,
         ev_request_hash = hash, ev_revision = cs_revision s + 1\<rparr>]\<rparr>"

definition submission_hash :: "(string \<Rightarrow> string) \<Rightarrow> string \<Rightarrow> string \<Rightarrow> jval \<Rightarrow> string" where
  "submission_hash sha owner kind input =
     canonical_hash sha (JObj [(''owner'', JStr owner), (''kind'', JStr kind), (''input'', input)])"

text \<open>The replay of a key: its retained item, if the event is of the kind asked for.\<close>

definition replayed :: "event_kind \<Rightarrow> event \<Rightarrow> 'a option \<Rightarrow> 'a outcome_of res" where
  "replayed kind e item =
     (case item of None \<Rightarrow> fail ''COORDINATION_KEY_CONFLICT''
      | Some x \<Rightarrow> if ev_kind e \<noteq> kind then fail ''COORDINATION_KEY_CONFLICT'' else Inr (Retained x))"

definition checked_publication :: "control_state \<Rightarrow> 'a \<Rightarrow> 'a outcome_of res" where
  "checked_publication s x = andThen (checkCapacity s) (\<lambda>_. Inr (Publication s x))"

section \<open>Overlap evidence\<close>

record overlap_entry =
  ov_kind :: string
  ov_id :: string
  ov_revision :: nat
  ov_areas :: "region list"

definition shared_areas :: "region list \<Rightarrow> region list \<Rightarrow> region list" where
  "shared_areas xs ys = filter (\<lambda>a. \<exists>b \<in> set ys. overlap a b) xs"

definition work_overlaps :: "(string \<Rightarrow> string) \<Rightarrow> control_state \<Rightarrow> string \<Rightarrow> region list \<Rightarrow> overlap_entry list" where
  "work_overlaps sha s owner areas =
     map (\<lambda>w. \<lparr>ov_kind = ''work'', ov_id = w_id w, ov_revision = w_revision w, ov_areas = shared_areas (w_areas w) areas\<rparr>)
       (filter (\<lambda>w. w_state w = Active \<and> canReadSelectedWork sha s owner w) (cs_works s))"

definition announcement_overlaps :: "control_state \<Rightarrow> string \<Rightarrow> ann_ref option \<Rightarrow> region list \<Rightarrow> overlap_entry list" where
  "announcement_overlaps s owner own areas =
     map (\<lambda>a. \<lparr>ov_kind = ''announcement'', ov_id = an_id a, ov_revision = an_revision a, ov_areas = shared_areas (an_areas a) areas\<rparr>)
       (filter (\<lambda>a. an_state a = Unresolved \<and> Some (an_id a) \<noteq> map_option ar_id own
          \<and> (an_owner a = owner \<or> owner \<in> set (an_readers a))) (cs_announcements s))"

definition binding_disclosed :: "(string \<Rightarrow> string) \<Rightarrow> control_state \<Rightarrow> string \<Rightarrow> binding \<Rightarrow> bool" where
  "binding_disclosed sha s owner b =
     ((b_state b = Bound \<or> b_state b = Settled)
    \<and> (b_owner b = owner
       \<or> (case b_announcement b of None \<Rightarrow> False
          | Some r \<Rightarrow> \<exists>a \<in> set (cs_announcements s). an_id a = ar_id r \<and> owner \<in> set (an_readers a)))
    \<and> \<not> (\<exists>w \<in> set (cs_works s). map_option m_task_id (w_managed w) = Some (b_task_id b) \<and> canReadSelectedWork sha s owner w))"

definition binding_overlaps :: "(string \<Rightarrow> string) \<Rightarrow> control_state \<Rightarrow> string \<Rightarrow> region list \<Rightarrow> overlap_entry list" where
  "binding_overlaps sha s owner areas =
     map (\<lambda>b. \<lparr>ov_kind = ''binding'', ov_id = b_task_id b,
         ov_revision = (case b_announcement b of None \<Rightarrow> 0 | Some r \<Rightarrow> ar_revision r), ov_areas = shared_areas (b_areas b) areas\<rparr>)
       (filter (binding_disclosed sha s owner) (cs_bindings s))"

text \<open>
  Sorted by kind, then identity: a stable sort by identity followed by one by kind. Both
  are lower-case text, on which the locale order is the order of code units.
\<close>

definition sorted_overlaps :: "overlap_entry list \<Rightarrow> overlap_entry list" where
  "sorted_overlaps xs = sort_key (\<lambda>x. utf16 (ov_kind x)) (sort_key (\<lambda>x. utf16 (ov_id x)) xs)"

definition overlap_json :: "overlap_entry \<Rightarrow> jval" where
  "overlap_json x = JObj [(''kind'', JStr (ov_kind x)), (''id'', JStr (ov_id x)), (''revision'', jnat (ov_revision x)),
     (''areas'', jlist region_json (ov_areas x))]"

definition announcement_changed :: "(string \<Rightarrow> string) \<Rightarrow> announcement \<Rightarrow> ann_ref \<Rightarrow> string \<Rightarrow> region list \<Rightarrow> bool" where
  "announcement_changed sha a r view areas =
     (an_revision a \<noteq> ar_revision r \<or> an_state a \<noteq> Unresolved \<or> an_source_view a \<noteq> view
    \<or> canonical_hash sha (jlist region_json (an_areas a)) \<noteq> canonical_hash sha (jlist region_json areas))"

definition named_announcement_current :: "(string \<Rightarrow> string) \<Rightarrow> control_state \<Rightarrow> string \<Rightarrow> 'a preflight_input_scheme \<Rightarrow> unit res" where
  "named_announcement_current sha s owner i =
     (case pf_announcement i of None \<Rightarrow> Inr ()
      | Some r \<Rightarrow> (case find_announcement s (ar_id r) of
          None \<Rightarrow> unavailable
        | Some a \<Rightarrow> if an_owner a \<noteq> owner then unavailable
            else guard_fail (announcement_changed sha a r (pf_source_view i) (pf_areas i)) ''COORDINATION_CHANGED''))"

definition decision_overlaps :: "(string \<Rightarrow> string) \<Rightarrow> control_state \<Rightarrow> string \<Rightarrow> 'a preflight_input_scheme \<Rightarrow> overlap_entry list" where
  "decision_overlaps sha s owner i =
     sorted_overlaps (filter (\<lambda>x. ov_areas x \<noteq> [])
       (work_overlaps sha s owner (pf_areas i) @ announcement_overlaps s owner (pf_announcement i) (pf_areas i)
        @ binding_overlaps sha s owner (pf_areas i)))"

definition submissionDecision :: "(string \<Rightarrow> string) \<Rightarrow> control_state \<Rightarrow> string \<Rightarrow> 'a preflight_input_scheme
    \<Rightarrow> (string \<times> overlap_entry list) res" where
  "submissionDecision sha s owner i =
     andThen (named_announcement_current sha s owner i) (\<lambda>_.
     (let ov = decision_overlaps sha s owner i in
      Inr (canonical_hash sha (JObj [(''owner'', JStr owner), (''source_view'', JStr (pf_source_view i)),
          (''input_oid'', JStr (pf_input_oid i)), (''intent_hash'', JStr (pf_intent_hash i)),
          (''areas'', jlist region_json (pf_areas i)),
          (''announcement'', case pf_announcement i of None \<Rightarrow> JNull | Some r \<Rightarrow> ann_ref_json r),
          (''overlaps'', jlist overlap_json ov)]), ov)))"

section \<open>Operations\<close>

definition new_announcement :: "string \<Rightarrow> announcement_input \<Rightarrow> announcement" where
  "new_announcement owner i =
     \<lparr>an_id = ai_id i, an_owner = owner, an_revision = 1, an_state = Unresolved, an_payload_ref = ai_id i,
      an_payload_digest = ai_payload_digest i, an_source_view = ai_source_view i, an_assignment_hash = ai_assignment_hash i,
      an_areas = ai_areas i, an_readers = ai_readers i, an_task_id = None\<rparr>"

definition announce :: "(string \<Rightarrow> string) \<Rightarrow> control_state \<Rightarrow> string \<Rightarrow> announcement_input \<Rightarrow> announcement outcome_of res" where
  "announce sha s owner i =
     (let hash = submission_hash sha owner ''announce'' (announcement_input_json i) in
      andThen (sameSubmissionKey s owner (ai_key i) hash) (\<lambda>prior.
      case prior of
        Some e \<Rightarrow> replayed Ev_announce e (find_announcement s (ev_item_id e))
      | None \<Rightarrow>
          if find_announcement s (ai_id i) \<noteq> None \<or> find_binding s (ai_id i) \<noteq> None then fail ''COORDINATION_ANNOUNCEMENT_EXISTS''
          else let item = new_announcement owner i; n = submissionState s in
            checked_publication (appendSubmissionEvent (n\<lparr>cs_announcements := cs_announcements n @ [item]\<rparr>)
              Ev_announce owner (ai_key i) (ai_id i) hash) item))"

definition withdrawn_announcement :: "announcement \<Rightarrow> announcement" where
  "withdrawn_announcement a = a\<lparr>an_state := Withdrawn_ann, an_revision := an_revision a + 1\<rparr>"

definition withdrawAnnouncement :: "(string \<Rightarrow> string) \<Rightarrow> control_state \<Rightarrow> string \<Rightarrow> withdrawal_input \<Rightarrow> announcement outcome_of res" where
  "withdrawAnnouncement sha s owner i =
     (let hash = submission_hash sha owner ''withdraw'' (withdrawal_input_json i) in
      andThen (sameSubmissionKey s owner (wi_key i) hash) (\<lambda>prior.
      case prior of
        Some e \<Rightarrow> replayed Ev_withdraw e (find_announcement s (ev_item_id e))
      | None \<Rightarrow>
          (case find_announcement s (wi_id i) of
             None \<Rightarrow> unavailable
           | Some a \<Rightarrow>
               if an_owner a \<noteq> owner then unavailable
               else if an_revision a \<noteq> wi_expected_revision i then fail ''COORDINATION_STALE_REVISION''
               else if an_state a \<noteq> Unresolved then fail ''COORDINATION_ANNOUNCEMENT_HELD''
               else checked_publication (appendSubmissionEvent
                      (change_announcement (an_id a) withdrawn_announcement (submissionState s))
                      Ev_withdraw owner (wi_key i) (an_id a) hash) (withdrawn_announcement a))))"

definition bound_announcement :: "string \<Rightarrow> announcement \<Rightarrow> announcement" where
  "bound_announcement t a = a\<lparr>an_state := Bound_ann, an_task_id := Some t, an_revision := an_revision a + 1\<rparr>"

definition announced_assignment_ok :: "(string \<Rightarrow> string) \<Rightarrow> announcement \<Rightarrow> bind_input \<Rightarrow> bool" where
  "announced_assignment_ok sha a i =
     (Some (an_payload_digest a) = bi_payload_digest i \<and> an_source_view a = pf_source_view i
    \<and> Some (an_assignment_hash a) = bi_assignment_hash i
    \<and> canonical_hash sha (jlist region_json (an_areas a)) = canonical_hash sha (jlist region_json (pf_areas i)))"

definition bound_to_announcement :: "(string \<Rightarrow> string) \<Rightarrow> control_state \<Rightarrow> string \<Rightarrow> bind_input \<Rightarrow> announcement option res" where
  "bound_to_announcement sha s owner i =
     (case pf_announcement i of None \<Rightarrow> Inr None
      | Some r \<Rightarrow> (case find_announcement s (ar_id r) of
          None \<Rightarrow> unavailable
        | Some a \<Rightarrow>
            if an_owner a \<noteq> owner then unavailable
            else if an_revision a \<noteq> ar_revision r \<or> an_state a \<noteq> Unresolved then fail ''COORDINATION_CHANGED''
            else if \<not> announced_assignment_ok sha a i then fail ''COORDINATION_BINDING_CONFLICT''
            else Inr (Some a)))"

definition new_binding :: "(string \<Rightarrow> string) \<Rightarrow> string \<Rightarrow> bind_input \<Rightarrow> string \<Rightarrow> binding" where
  "new_binding sha owner i decision =
     \<lparr>b_task_id = bi_task_id i, b_request_key = bi_request_key i, b_owner = owner, b_intent_hash = pf_intent_hash i,
      b_decision_identity = decision,
      b_link_hash = canonical_hash sha (link_json (bi_task_id i) (bi_request_key i) owner (pf_intent_hash i) decision (pf_announcement i)),
      b_source_view = pf_source_view i, b_input_oid = pf_input_oid i, b_areas = pf_areas i,
      b_announcement = pf_announcement i, b_state = Bound, b_terminal = None\<rparr>"

definition bind_announcement :: "string \<Rightarrow> announcement option \<Rightarrow> control_state \<Rightarrow> control_state" where
  "bind_announcement t x s = (case x of None \<Rightarrow> s | Some a \<Rightarrow> change_announcement (an_id a) (bound_announcement t) s)"

definition bindSubmission :: "(string \<Rightarrow> string) \<Rightarrow> control_state \<Rightarrow> string \<Rightarrow> bind_input \<Rightarrow> binding outcome_of res" where
  "bindSubmission sha s owner i =
     (let hash = submission_hash sha owner ''bind'' (bind_input_json i) in
      andThen (sameSubmissionKey s owner (bi_key i) hash) (\<lambda>prior.
      case prior of
        Some e \<Rightarrow> replayed Ev_bind e (find_binding s (ev_item_id e))
      | None \<Rightarrow>
          andThen (guard_fail (\<exists>b \<in> set (cs_bindings s). b_task_id b = bi_task_id i
              \<or> b_owner b = owner \<and> b_request_key b = bi_request_key i \<and> b_state b \<noteq> Released) ''COORDINATION_BINDING_CONFLICT'') (\<lambda>_.
          andThen (submissionDecision sha s owner i) (\<lambda>(decision, ov).
          andThen (guard_fail (bi_expected_decision i \<noteq> None \<and> bi_expected_decision i \<noteq> Some decision) ''COORDINATION_CHANGED'') (\<lambda>_.
          andThen (bound_to_announcement sha s owner i) (\<lambda>ann.
          (let item = new_binding sha owner i decision; n = submissionState s in
           checked_publication (appendSubmissionEvent
               (bind_announcement (bi_task_id i) ann (n\<lparr>cs_bindings := cs_bindings n @ [item]\<rparr>))
               Ev_bind owner (bi_key i) (bi_task_id i) hash) item)))))))"

definition disposed_announcement :: "bool \<Rightarrow> announcement \<Rightarrow> announcement" where
  "disposed_announcement settle a =
     (if settle then a\<lparr>an_revision := an_revision a + 1, an_state := Linked\<rparr>
      else a\<lparr>an_revision := an_revision a + 1, an_state := Unresolved, an_task_id := None\<rparr>)"

text \<open>The announcement that a disposition also moves, if the binding names one.\<close>

definition disposition_announcement :: "control_state \<Rightarrow> string \<Rightarrow> binding \<Rightarrow> announcement option res" where
  "disposition_announcement s owner b =
     (case b_announcement b of None \<Rightarrow> Inr None
      | Some r \<Rightarrow> (case find_announcement s (ar_id r) of
          None \<Rightarrow> fail ''COORDINATION_BINDING_CONFLICT''
        | Some a \<Rightarrow>
            if an_owner a \<noteq> owner \<or> an_task_id a \<noteq> Some (b_task_id b) \<or> an_state a \<noteq> Bound_ann
            then fail ''COORDINATION_BINDING_CONFLICT'' else Inr (Some a)))"

definition dispose_announcement :: "bool \<Rightarrow> announcement option \<Rightarrow> control_state \<Rightarrow> control_state" where
  "dispose_announcement settle x s =
     (case x of None \<Rightarrow> s | Some a \<Rightarrow> change_announcement (an_id a) (disposed_announcement settle) s)"

definition disposed :: "bool \<Rightarrow> binding \<Rightarrow> binding" where
  "disposed settle b = b\<lparr>b_state := (if settle then Settled else Released)\<rparr>"

definition named_binding :: "control_state \<Rightarrow> string \<Rightarrow> 'a disposition_input_scheme \<Rightarrow> binding res" where
  "named_binding s owner i =
     (case find_binding s (di_task_id i) of
        None \<Rightarrow> unavailable
      | Some b \<Rightarrow> if b_owner b \<noteq> owner then unavailable
          else if b_request_key b \<noteq> di_request_key i \<or> b_link_hash b \<noteq> di_link_hash i then fail ''COORDINATION_BINDING_CONFLICT''
          else Inr b)"

definition disposeSubmission :: "(string \<Rightarrow> string) \<Rightarrow> control_state \<Rightarrow> string \<Rightarrow> disposition_input \<Rightarrow> bool \<Rightarrow> binding outcome_of res" where
  "disposeSubmission sha s owner i settle =
     (let kind = (if settle then Ev_settle else Ev_release);
          hash = submission_hash sha owner (if settle then ''settle'' else ''release'') (disposition_input_json i) in
      andThen (sameSubmissionKey s owner (di_key i) hash) (\<lambda>prior.
      case prior of
        Some e \<Rightarrow> replayed kind e (find_binding s (ev_item_id e))
      | None \<Rightarrow>
          andThen (named_binding s owner i) (\<lambda>b.
          andThen (guard_fail (b_state b \<noteq> Bound) ''COORDINATION_BINDING_SETTLED'') (\<lambda>_.
          andThen (disposition_announcement s owner b) (\<lambda>ann.
          checked_publication (appendSubmissionEvent
              (dispose_announcement settle ann (change_binding (b_task_id b) (disposed settle) (submissionState s)))
              kind owner (di_key i) (b_task_id b) hash) (disposed settle b))))))"

definition settleSubmission :: "(string \<Rightarrow> string) \<Rightarrow> control_state \<Rightarrow> string \<Rightarrow> disposition_input \<Rightarrow> binding outcome_of res" where
  "settleSubmission sha s owner i = disposeSubmission sha s owner i True"

definition releaseUnadmittedBinding :: "(string \<Rightarrow> string) \<Rightarrow> control_state \<Rightarrow> string \<Rightarrow> disposition_input \<Rightarrow> binding outcome_of res" where
  "releaseUnadmittedBinding sha s owner i = disposeSubmission sha s owner i False"

definition ended :: "terminal_evidence \<Rightarrow> binding \<Rightarrow> binding" where
  "ended t b = b\<lparr>b_state := Terminal, b_terminal := Some t\<rparr>"

definition terminalSubmissionBinding :: "(string \<Rightarrow> string) \<Rightarrow> control_state \<Rightarrow> string \<Rightarrow> terminal_input \<Rightarrow> binding outcome_of res" where
  "terminalSubmissionBinding sha s owner i =
     (let hash = submission_hash sha owner ''terminal'' (terminal_input_json i) in
      andThen (sameSubmissionKey s owner (di_key i) hash) (\<lambda>prior.
      case prior of
        Some e \<Rightarrow> replayed Ev_terminal e (find_binding s (ev_item_id e))
      | None \<Rightarrow>
          andThen (named_binding s owner i) (\<lambda>b.
          andThen (guard_fail (b_state b \<noteq> Settled) ''COORDINATION_BINDING_SETTLED'') (\<lambda>_.
          checked_publication (appendSubmissionEvent (change_binding (b_task_id b) (ended (ti_terminal i)) (submissionState s))
              Ev_terminal owner (di_key i) (b_task_id b) hash) (ended (ti_terminal i) b)))))"

section \<open>Lookups\<close>

definition announcement_for :: "control_state \<Rightarrow> string \<Rightarrow> string \<Rightarrow> announcement res" where
  "announcement_for s owner i =
     (case find_announcement s i of None \<Rightarrow> unavailable
      | Some a \<Rightarrow> if an_owner a \<noteq> owner \<and> owner \<notin> set (an_readers a) then unavailable else Inr a)"

definition submission_binding_for :: "control_state \<Rightarrow> string \<Rightarrow> string \<Rightarrow> binding res" where
  "submission_binding_for s owner t =
     (case find_binding s t of None \<Rightarrow> unavailable | Some b \<Rightarrow> if b_owner b \<noteq> owner then unavailable else Inr b)"

definition submissionBindingByRequestKey :: "control_state \<Rightarrow> string \<Rightarrow> string \<Rightarrow> binding option" where
  "submissionBindingByRequestKey s owner key =
     (let matches = filter (\<lambda>b. b_owner b = owner \<and> b_request_key b = key) (cs_bindings s) in
      case List.find (\<lambda>b. b_state b \<noteq> Released) matches of Some b \<Rightarrow> Some b | None \<Rightarrow> last_opt matches)"

definition receipt_for :: "control_state \<Rightarrow> string \<Rightarrow> string \<Rightarrow> receipt option" where
  "receipt_for s owner key = List.find (\<lambda>r. rc_owner r = owner \<and> rc_key r = key) (cs_receipts s)"

end
