(* ===== verification/Submission_Accept.thy ===== *)
theory Submission_Accept
  imports Submission Control_History
begin

text \<open>
  What a submission publication keeps: the record stays one the reader accepts and one
  that may follow its predecessor. The reader's checks do not tie an event to its subject
  closely enough to be inductive, so the invariant adds that an event of a binding names a
  binding and an event of an announcement names an announcement, which every operation keeps.
\<close>

section \<open>Events and their subjects\<close>

definition binding_event :: "event \<Rightarrow> bool" where
  "binding_event e = (ev_kind e = Ev_bind \<or> ev_kind e = Ev_settle \<or> ev_kind e = Ev_release \<or> ev_kind e = Ev_terminal)"

definition event_subject_ok :: "control_state \<Rightarrow> event \<Rightarrow> bool" where
  "event_subject_ok s e = (if binding_event e then ev_item_id e \<in> b_task_id ` set (cs_bindings s)
     else ev_item_id e \<in> an_id ` set (cs_announcements s))"

definition event_subjects_ok :: "control_state \<Rightarrow> bool" where
  "event_subjects_ok s = (\<forall>e \<in> set (cs_events s). event_subject_ok s e)"

definition event_step :: "control_state \<Rightarrow> control_state \<Rightarrow> event \<Rightarrow> bool" where
  "event_step s t e = (same_identity s t \<and> cs_works t = cs_works s \<and> cs_cases t = cs_cases s \<and> cs_notes t = cs_notes s
     \<and> cs_receipts t = cs_receipts s \<and> cs_recoveries t = cs_recoveries s \<and> cs_events t = cs_events s @ [e]
     \<and> ev_revision e = cs_revision s + 1 \<and> cs_schema t = max SUBMISSION_CONTROL_SCHEMA (cs_schema s))"

lemma submissions_always:
  assumes "control_ok sha s" shows "submissions_ok s"
proof (cases "has_submissions s")
  case False
  with control_okD(1) [OF assms] show ?thesis by (intro submissions_empty) (auto simp: control_records_ok_def)
qed (use control_okD(9) [OF assms] in simp)

section \<open>Acceptance of an event\<close>

lemma history_event:
  assumes ok: "control_ok sha s" and st: "event_step s t e"
  shows "history_ok t"
proof -
  have "ev_revision e \<notin> set (operation_revisions s)"
    using revisions_bounded [OF ok, of "ev_revision e"] st by (auto simp: event_step_def)
  then have "unique_by (\<lambda>x. x) (operation_revisions t)"
    using control_okD(8) [OF ok] st by (auto simp: history_ok_def operation_revisions_def event_step_def unique_by_def)
  moreover have "subject_exists t = subject_exists s" "all_ids t = all_ids s"
    using st by (simp_all add: subject_exists_def fun_eq_iff all_ids_def event_step_def split: subject_kind.split)
  moreover have "controlReceiptCount t = cs_revision t"
    using control_okD(8) [OF ok] st by (auto simp: history_ok_def event_step_def controlReceiptCount_def same_identity_def)
  ultimately show ?thesis
    using control_okD(8) [OF ok] st
    by (auto simp: history_ok_def event_step_def receipt_history_ok_def recovery_history_ok_def same_identity_def)
qed

lemma version_event:
  assumes ok: "control_ok sha s" and st: "event_step s t e" and e: "event_ok e"
    and new: "key_unused s (ev_owner e) (ev_key e)" and fit: "controlReceiptCount t \<le> lim_receipts (cs_limits t)"
  shows "version_features_ok t"
proof -
  have old: "version_features_ok s" by (rule control_okD(2) [OF ok])
  have "owner_key (ev_owner e) (ev_key e) \<notin> set (operation_names s)"
    using key_unused_name [OF ok _ new] e by (simp add: event_ok_def)
  then have "unique_by (\<lambda>x. x) (operation_names t)"
    using old st by (auto simp: version_features_ok_def operation_names_def event_step_def unique_by_def)
  moreover have lists: "cs_works t = cs_works s" "cs_cases t = cs_cases s" "cs_notes t = cs_notes s"
    "cs_receipts t = cs_receipts s" "cs_recoveries t = cs_recoveries s"
    using st by (simp_all add: event_step_def)
  moreover have "cs_schema t = max 4 (cs_schema s)" using st by (simp add: event_step_def schema_defs)
  then consider "cs_schema t = cs_schema s" | "cs_schema s < 4" "cs_schema t = 4" by linarith
  then show ?thesis
  proof cases
    case 1 then show ?thesis using old fit calculation by (simp add: version_features_ok_def lists)
  next
    case 2 then show ?thesis using old fit calculation by (simp add: version_features_ok_def lists schema_defs)
  qed
qed

lemma control_ok_event:
  assumes ok: "control_ok sha s" and st: "event_step s t e" and e: "event_ok e"
    and new: "key_unused s (ev_owner e) (ev_key e)" and fit: "controlReceiptCount t \<le> lim_receipts (cs_limits t)"
    and max: "int (cs_revision s + 1) \<le> MAX_SAFE_INTEGER"
    and anns: "list_ok (lim_works (cs_limits s)) announcement_ok an_id (cs_announcements t)"
    and binds: "list_ok (lim_receipts (cs_limits s)) (binding_ok sha) b_task_id (cs_bindings t)"
    and sub: "submissions_ok t"
  shows "control_ok sha t"
proof -
  note rec = control_okD(1) [OF ok]
  have rest: "cs_works t = cs_works s" "cs_cases t = cs_cases s" "cs_notes t = cs_notes s" "cs_receipts t = cs_receipts s"
    "cs_recoveries t = cs_recoveries s" "cs_limits t = cs_limits s" "cs_revision t = cs_revision s + 1"
    "cs_epoch t = cs_epoch s" "cs_repository_id t = cs_repository_id s" "cs_events t = cs_events s @ [e]"
    "cs_schema t = max SUBMISSION_CONTROL_SCHEMA (cs_schema s)"
    using st by (simp_all add: event_step_def same_identity_def)
  have "control_records_ok sha t"
    using rec e fit anns binds max
    by (auto simp: control_records_ok_def rest has_submissions_def schema_defs controlReceiptCount_def)
  moreover have "enrollment_ok sha t"
    using control_okD(3) [OF ok]
    by (simp add: enrollment_ok_def enrollments_def find_work_def enrolled_ok_def rest cong: option.case_cong)
  moreover have "live_unique t" using control_okD(4) [OF ok] by (simp add: live_unique_def all_ids_def rest)
  moreover have "work_authority_ok (cs_revision t) w" if "w \<in> set (cs_works t)" for w
    using that control_okD(5) [OF ok, of w] by (auto simp: rest work_authority_ok_def)
  moreover have "case_authority_ok t c" if "c \<in> set (cs_cases t)" for c
    using that control_okD(6) [OF ok, of c] case_authority_mono [OF works_evolve_same [OF rest(1)]] by (simp add: rest)
  moreover have "note_authority_ok t n" if "n \<in> set (cs_notes t)" for n
    by (rule note_authority_mono [of s t n]) (use that control_okD(7) [OF ok, of n] in \<open>simp_all add: ids_grow_def rest\<close>)
  ultimately show ?thesis
    using sub history_event [OF ok st] version_event [OF ok st e new fit]
    by (simp add: control_ok_def control_relations_ok_def)
qed

section \<open>The retained history of announcements and bindings\<close>

definition same_link :: "binding \<Rightarrow> binding \<Rightarrow> bool" where
  "same_link b x = (b_task_id x = b_task_id b \<and> b_announcement x = b_announcement b \<and> b_owner x = b_owner b)"

text \<open>The bindings keep their links; a new one has a new task.\<close>

definition links_kept :: "control_state \<Rightarrow> control_state \<Rightarrow> bool" where
  "links_kept s t =
     ((\<forall>b \<in> set (cs_bindings s). \<exists>x \<in> set (cs_bindings t). same_link b x)
    \<and> (\<forall>x \<in> set (cs_bindings t). (\<exists>b \<in> set (cs_bindings s). same_link b x) \<or> b_task_id x \<notin> b_task_id ` set (cs_bindings s)))"

definition concerns :: "control_state \<Rightarrow> string \<Rightarrow> event \<Rightarrow> bool" where
  "concerns s i e = (ev_item_id e = i \<and> (ev_kind e = Ev_announce \<or> ev_kind e = Ev_withdraw)
     \<or> (ev_kind e = Ev_bind \<or> ev_kind e = Ev_settle \<or> ev_kind e = Ev_release)
       \<and> (\<exists>b \<in> set (cs_bindings s). b_task_id b = ev_item_id e \<and> map_option ar_id (b_announcement b) = Some i))"

lemma announcement_changes_filter: "announcement_changes s i = filter (concerns s i) (cs_events s)"
  unfolding announcement_changes_def concerns_def ..

lemma concerns_kept:
  assumes "links_kept s t" and "event_subject_ok s e"
  shows "concerns t i e = concerns s i e"
proof (cases "ev_kind e = Ev_bind \<or> ev_kind e = Ev_settle \<or> ev_kind e = Ev_release")
  case True
  then have "ev_item_id e \<in> b_task_id ` set (cs_bindings s)"
    using assms(2) by (auto simp: event_subject_ok_def binding_event_def split: if_splits)
  then have "(\<exists>b \<in> set (cs_bindings t). b_task_id b = ev_item_id e \<and> map_option ar_id (b_announcement b) = Some i)
      = (\<exists>b \<in> set (cs_bindings s). b_task_id b = ev_item_id e \<and> map_option ar_id (b_announcement b) = Some i)"
    using assms(1) unfolding links_kept_def same_link_def by metis
  then show ?thesis by (auto simp: concerns_def)
qed (auto simp: concerns_def)

lemma changes_event:
  assumes "links_kept s t" and "event_subjects_ok s" and "cs_events t = cs_events s @ [e]"
  shows "announcement_changes t i = announcement_changes s i @ (if concerns t i e then [e] else [])"
proof -
  have "filter (concerns t i) (cs_events s) = filter (concerns s i) (cs_events s)"
    using concerns_kept [OF assms(1)] assms(2) by (intro filter_cong) (auto simp: event_subjects_ok_def)
  then show ?thesis by (simp add: announcement_changes_filter assms(3))
qed

lemma binding_history_filter: "binding_history s x = filter (\<lambda>e. ev_item_id e = x \<and> binding_event e) (cs_events s)"
  by (simp add: binding_history_def binding_event_def)

lemma history_event_append:
  assumes "cs_events t = cs_events s @ [e]"
  shows "binding_history t x = binding_history s x @ (if ev_item_id e = x \<and> binding_event e then [e] else [])"
  by (simp add: binding_history_filter assms)

lemma no_history:
  assumes "event_subjects_ok s" and "x \<notin> b_task_id ` set (cs_bindings s)"
  shows "binding_history s x = []"
  using assms by (auto simp: binding_history_filter filter_empty_conv event_subjects_ok_def event_subject_ok_def split: if_splits)

lemma no_changes:
  assumes "control_ok sha s" and "event_subjects_ok s" and "i \<notin> an_id ` set (cs_announcements s)"
  shows "announcement_changes s i = []"
proof -
  have "\<not> concerns s i e" if e: "e \<in> set (cs_events s)" for e
  proof
    assume c: "concerns s i e"
    have subject: "event_subject_ok s e" using assms(2) e by (simp add: event_subjects_ok_def)
    from c consider "ev_item_id e = i" "ev_kind e = Ev_announce \<or> ev_kind e = Ev_withdraw"
      | b where "b \<in> set (cs_bindings s)" "map_option ar_id (b_announcement b) = Some i"
      by (auto simp: concerns_def)
    then show False
    proof cases
      case 1 with subject assms(3) show ?thesis by (auto simp: event_subject_ok_def binding_event_def)
    next
      case 2
      with submissions_always [OF assms(1)] have "binding_history_ok s b" by (simp add: submissions_ok_def)
      with 2 have "i \<in> an_id ` set (cs_announcements s)" by (force simp: binding_history_ok_def)
      with assms(3) show ?thesis by blast
    qed
  qed
  then show ?thesis by (simp add: announcement_changes_filter filter_empty_conv)
qed

end
