(* ===== verification/Submission_Keeps.thy ===== *)
theory Submission_Keeps
  imports Submission_Accept Control_Publish
begin

text \<open>
  Every submission operation in one normal form, the record with its announcements and
  bindings replaced and one event appended, and the acceptance of each by the reader.
\<close>

section \<open>The normal form\<close>

definition submitted :: "control_state \<Rightarrow> event_kind \<Rightarrow> string \<Rightarrow> string \<Rightarrow> string \<Rightarrow> string \<Rightarrow> announcement list \<Rightarrow> binding list
    \<Rightarrow> control_state" where
  "submitted s kind p key item h as bs =
     s\<lparr>cs_schema := max SUBMISSION_CONTROL_SCHEMA (cs_schema s), cs_revision := cs_revision s + 1,
       cs_announcements := as, cs_bindings := bs,
       cs_events := cs_events s @ [\<lparr>ev_kind = kind, ev_owner = p, ev_key = key, ev_item_id = item, ev_request_hash = h,
         ev_revision = cs_revision s + 1\<rparr>]\<rparr>"

lemma submitted_fields [simp]:
  "cs_announcements (submitted s kind p key item h as bs) = as" "cs_bindings (submitted s kind p key item h as bs) = bs"
  "cs_revision (submitted s kind p key item h as bs) = cs_revision s + 1"
  "cs_limits (submitted s kind p key item h as bs) = cs_limits s"
  "cs_works (submitted s kind p key item h as bs) = cs_works s" "cs_cases (submitted s kind p key item h as bs) = cs_cases s"
  "cs_notes (submitted s kind p key item h as bs) = cs_notes s"
  "cs_receipts (submitted s kind p key item h as bs) = cs_receipts s"
  by (simp_all add: submitted_def)

definition submitted_event :: "control_state \<Rightarrow> event_kind \<Rightarrow> string \<Rightarrow> string \<Rightarrow> string \<Rightarrow> string \<Rightarrow> event" where
  "submitted_event s kind p key item h = \<lparr>ev_kind = kind, ev_owner = p, ev_key = key, ev_item_id = item,
     ev_request_hash = h, ev_revision = cs_revision s + 1\<rparr>"

lemma submitted_event_fields [simp]:
  "ev_kind (submitted_event s kind p key item h) = kind" "ev_item_id (submitted_event s kind p key item h) = item"
  "ev_owner (submitted_event s kind p key item h) = p" "ev_key (submitted_event s kind p key item h) = key"
  "ev_request_hash (submitted_event s kind p key item h) = h"
  "ev_revision (submitted_event s kind p key item h) = cs_revision s + 1"
  by (simp_all add: submitted_event_def)

lemma submitted_step: "event_step s (submitted s kind p key item h as bs) (submitted_event s kind p key item h)"
  by (simp add: event_step_def submitted_def submitted_event_def same_identity_def)

lemma submitted_events:
  "cs_events (submitted s kind p key item h as bs) = cs_events s @ [submitted_event s kind p key item h]"
  by (simp add: submitted_def submitted_event_def)

lemma sameSubmissionKey_None: "sameSubmissionKey s p k h = Inr None \<Longrightarrow> key_unused s p k"
  by (auto simp: sameSubmissionKey_def key_unused_def find_None_iff_all split: if_splits option.splits)

lemma checked_publication_Inr: "(checked_publication n x = Inr (Publication t y)) = (checkCapacity n = Inr () \<and> t = n \<and> y = x)"
  by (auto simp: checked_publication_def andThen_Inr_iff)

lemma replayed_Retained: "replayed k e x \<noteq> Inr (Publication t y)"
  by (auto simp: replayed_def split: option.splits)

lemma submissionState_max: "submissionState s = s\<lparr>cs_schema := max SUBMISSION_CONTROL_SCHEMA (cs_schema s)\<rparr>"
  by (simp add: submissionState_def has_submissions_def max_def)

section \<open>Conditions shared by the operations\<close>

definition submitting :: "(string \<Rightarrow> string) \<Rightarrow> control_state \<Rightarrow> string \<Rightarrow> bool" where
  "submitting sha s p = (control_ok sha s \<and> event_subjects_ok s \<and> sha_hex sha \<and> parent_ok p
     \<and> int (cs_revision s + 1) \<le> MAX_SAFE_INTEGER)"

lemma submitted_accepted:
  fixes s kind p key item h as bs
  defines "t \<equiv> submitted s kind p key item h as bs"
  assumes sub: "submitting sha s p" and new: "key_unused s p key" and cap: "checkCapacity t = Inr ()"
    and ids: "key_ok key" "entity_ok item" "parent_ok h"
    and anns: "list_ok (lim_works (cs_limits s)) announcement_ok an_id as"
    and binds: "list_ok (lim_receipts (cs_limits s)) (binding_ok sha) b_task_id bs"
    and kept: "an_id ` set (cs_announcements s) \<subseteq> an_id ` set as" "b_task_id ` set (cs_bindings s) \<subseteq> b_task_id ` set bs"
    and subject: "event_subject_ok t (submitted_event s kind p key item h)"
    and keys: "unique_by (\<lambda>b. owner_key (b_owner b) (b_request_key b)) (filter (\<lambda>b. b_state b \<noteq> Released) bs)"
    and ha: "\<And>a. a \<in> set as \<Longrightarrow> announcement_history_ok t a" and hb: "\<And>b. b \<in> set bs \<Longrightarrow> binding_history_ok t b"
  shows "control_ok sha t \<and> event_subjects_ok t"
proof -
  let ?e = "submitted_event s kind p key item h"
  from sub have ok: "control_ok sha s" and subj: "event_subjects_ok s" and p: "parent_ok p"
    and max: "int (cs_revision s + 1) \<le> MAX_SAFE_INTEGER" by (simp_all add: submitting_def)
  have e: "event_ok ?e" using ids p max by (simp add: event_ok_def counter_ok_def)
  have subjects: "event_subjects_ok t"
    using subj subject kept by (auto simp: event_subjects_ok_def event_subject_ok_def t_def submitted_events split: if_splits)
  have "event_history_ok t x" if x: "x \<in> set (cs_events t)" for x
  proof -
    have "event_subject_ok t x" using subjects x by (simp add: event_subjects_ok_def)
    moreover have "ev_revision x \<le> cs_revision t"
      using x events_bounded [OF ok] by (auto simp: t_def submitted_events intro: le_SucI)
    ultimately show ?thesis by (auto simp: event_history_ok_def event_subject_ok_def split: if_splits)
  qed
  then have "submissions_ok t" using keys ha hb by (simp add: submissions_ok_def t_def)
  moreover have "controlReceiptCount t \<le> lim_receipts (cs_limits t)" using checkCapacityD(4) [OF cap] by simp
  ultimately have "control_ok sha t"
    using control_ok_event [OF ok submitted_step e _ _ max, of as bs] new anns binds by (simp add: t_def)
  with subjects show ?thesis by blast
qed

text \<open>Announcements that an operation does not concern keep their history.\<close>

lemma other_announcement:
  assumes "control_ok sha s" and "event_subjects_ok s" and "links_kept s (submitted s kind p key item h as bs)"
    and "a \<in> set (cs_announcements s)" and "\<not> concerns (submitted s kind p key item h as bs) (an_id a) (submitted_event s kind p key item h)"
    and "announcement_link_ok (submitted s kind p key item h as bs) a"
  shows "announcement_history_ok (submitted s kind p key item h as bs) a"
proof -
  have "announcement_history_ok s a" using submissions_always [OF assms(1)] assms(4) by (simp add: submissions_ok_def)
  with assms(5,6) changes_event [OF assms(3,2) submitted_events] show ?thesis by (simp add: announcement_history_ok_def)
qed

lemma moved_announcement:
  assumes "control_ok sha s" and "event_subjects_ok s" and "links_kept s (submitted s kind p key item h as bs)"
    and "a \<in> set (cs_announcements s)" and "concerns (submitted s kind p key item h as bs) (an_id a) (submitted_event s kind p key item h)"
    and "announcement_link_ok (submitted s kind p key item h as bs) x"
    and "an_id x = an_id a" "an_payload_ref x = an_payload_ref a" "an_revision x = an_revision a + 1"
  shows "announcement_history_ok (submitted s kind p key item h as bs) x"
proof -
  have "announcement_history_ok s a" using submissions_always [OF assms(1)] assms(4) by (simp add: submissions_ok_def)
  with assms(5-9) changes_event [OF assms(3,2) submitted_events] show ?thesis by (auto simp: announcement_history_ok_def)
qed

lemma other_binding:
  assumes "control_ok sha s" and "b \<in> set (cs_bindings s)" and "item \<noteq> b_task_id b \<or> \<not> binding_event (submitted_event s kind p key item h)"
    and "\<And>a. a \<in> set (cs_announcements s) \<Longrightarrow> \<exists>x \<in> set as. an_id x = an_id a \<and> an_owner x = an_owner a \<and> an_payload_ref x = an_payload_ref a"
  shows "binding_history_ok (submitted s kind p key item h as bs) b"
proof -
  have "binding_history_ok s b" using submissions_always [OF assms(1)] assms(2) by (simp add: submissions_ok_def)
  moreover have "binding_history (submitted s kind p key item h as bs) (b_task_id b) = binding_history s (b_task_id b)"
    using assms(3) history_event_append [OF submitted_events] by auto
  ultimately show ?thesis using assms(4) unfolding binding_history_ok_def by (auto split: option.splits) metis
qed

lemma moved_binding:
  assumes "control_ok sha s" and "b \<in> set (cs_bindings s)" and "binding_event (submitted_event s kind (b_owner b) key (b_task_id b) h)"
    and "\<And>a. a \<in> set (cs_announcements s) \<Longrightarrow> \<exists>x \<in> set as. an_id x = an_id a \<and> an_owner x = an_owner a \<and> an_payload_ref x = an_payload_ref a"
    and "same_link b y" and "binding_kinds (b_state y) = binding_kinds (b_state b) @ [kind]"
  shows "binding_history_ok (submitted s kind (b_owner b) key (b_task_id b) h as bs) y"
proof -
  have "binding_history_ok s b" using submissions_always [OF assms(1)] assms(2) by (simp add: submissions_ok_def)
  moreover have "binding_history (submitted s kind (b_owner b) key (b_task_id b) h as bs) (b_task_id b)
      = binding_history s (b_task_id b) @ [submitted_event s kind (b_owner b) key (b_task_id b) h]"
    using assms(3) history_event_append [OF submitted_events] by auto
  ultimately show ?thesis
    using assms(4-6) unfolding binding_history_ok_def same_link_def by (auto split: option.splits) metis
qed

lemma links_same: "bs = cs_bindings s \<Longrightarrow> links_kept s (submitted s kind p key item h as bs)"
  by (auto simp: links_kept_def same_link_def)

end
