(* ===== verification/Submission_Ops.thy ===== *)
theory Submission_Ops
  imports Submission_Keeps
begin

text \<open>
  The acceptance of announcing, withdrawing, binding, settling, releasing and ending a
  submission: the next record of each is one the reader accepts.
\<close>

section \<open>Announcements\<close>

lemma find_announcement_iff:
  assumes "control_ok sha s"
  shows "find_announcement s i = Some a \<longleftrightarrow> a \<in> set (cs_announcements s) \<and> an_id a = i"
  using control_unique(4) [OF assms] unfolding find_announcement_def unique_by_def by (rule find_Some_iff_key)

lemma find_binding_iff:
  assumes "control_ok sha s"
  shows "find_binding s t = Some b \<longleftrightarrow> b \<in> set (cs_bindings s) \<and> b_task_id b = t"
  using control_unique(5) [OF assms] unfolding find_binding_def unique_by_def by (rule find_Some_iff_key)

lemma find_none_key: "List.find (\<lambda>x. f x = i) xs = None \<longleftrightarrow> i \<notin> f ` set xs"
  by (auto simp: find_None_iff_all)

lemma old_keys:
  assumes "control_ok sha s"
  shows "unique_by (\<lambda>b. owner_key (b_owner b) (b_request_key b)) (filter (\<lambda>b. b_state b \<noteq> Released) (cs_bindings s))"
  using submissions_always [OF assms] by (simp add: submissions_ok_def)

lemma old_lists:
  assumes "control_ok sha s"
  shows "list_ok (lim_works (cs_limits s)) announcement_ok an_id (cs_announcements s)"
    "list_ok (lim_receipts (cs_limits s)) (binding_ok sha) b_task_id (cs_bindings s)"
  using control_okD(1) [OF assms] by (simp_all add: control_records_ok_def)

lemma old_link:
  assumes "control_ok sha s" and "a \<in> set (cs_announcements s)"
  shows "announcement_link_ok s a"
  using submissions_always [OF assms(1)] assms(2) by (simp add: submissions_ok_def announcement_history_ok_def)

lemma link_same_bindings:
  assumes "control_ok sha s" and "a \<in> set (cs_announcements s)"
  shows "announcement_link_ok (submitted s kind p key item h as (cs_bindings s)) a"
  using old_link [OF assms] by (simp add: announcement_link_ok_def)

lemma submission_hash_ok: "sha_hex sha \<Longrightarrow> parent_ok (submission_hash sha p kind input)"
  by (simp add: sha_hex_def submission_hash_def canonical_hash_def)

lemma announce_Inr:
  assumes "announce sha s p i = Inr (Publication t x)"
  shows "t = submitted s Ev_announce p (ai_key i) (ai_id i) (submission_hash sha p ''announce'' (announcement_input_json i))
      (cs_announcements s @ [new_announcement p i]) (cs_bindings s)"
    and "key_unused s p (ai_key i)" "find_announcement s (ai_id i) = None" "find_binding s (ai_id i) = None"
      "checkCapacity t = Inr ()" "x = new_announcement p i"
  using assms
  by (auto simp: announce_def Let_def andThen_Inr_iff replayed_Retained checked_publication_Inr submissionState_max
      appendSubmissionEvent_def submitted_def dest: sameSubmissionKey_None split: option.splits if_splits)

theorem announce_accepted:
  assumes sub: "submitting sha s p" and input: "announcement_input_ok i" "p \<notin> set (ai_readers i)"
    and room: "length (cs_announcements s) < lim_works (cs_limits s)"
    and res: "announce sha s p i = Inr (Publication t x)"
  shows "control_ok sha t \<and> event_subjects_ok t"
proof -
  from sub have ok: "control_ok sha s" and subj: "event_subjects_ok s" and p: "parent_ok p" and hex: "sha_hex sha"
    by (simp_all add: submitting_def)
  note facts = announce_Inr [OF res]
  let ?a = "new_announcement p i" let ?h = "submission_hash sha p ''announce'' (announcement_input_json i)"
  have new: "ai_id i \<notin> an_id ` set (cs_announcements s)"
    using facts(3) by (simp add: find_announcement_def find_none_key)
  have in_ok: "key_ok (ai_key i)" "entity_ok (ai_id i)"
    using input(1) by (simp_all add: announcement_input_ok_def public_key_ok_def)
  have a_ok: "announcement_ok ?a"
    using input p by (simp add: announcement_ok_def new_announcement_def announcement_input_ok_def counter_ok_def MAX_SAFE_INTEGER_def)
  let ?e = "submitted_event s Ev_announce p (ai_key i) (ai_id i) ?h"
  have links: "links_kept s t" unfolding facts(1) by (rule links_same) simp
  have unconcerned: "\<not> concerns t (an_id a) ?e" if "a \<in> set (cs_announcements s)" for a
    using that new by (auto simp: concerns_def)
  have mine: "announcement_changes t (ai_id i) = [?e]"
    using changes_event [OF links subj] no_changes [OF ok subj new] unfolding facts(1)
    by (simp add: submitted_events concerns_def)
  show ?thesis
    unfolding facts(1)
  proof (rule submitted_accepted [OF sub facts(2) _ in_ok submission_hash_ok [OF hex] _ old_lists(2) [OF ok] _ _ _ old_keys [OF ok]])
    show "list_ok (lim_works (cs_limits s)) announcement_ok an_id (cs_announcements s @ [?a])"
      using old_lists(1) [OF ok] a_ok room new by (auto simp: list_ok_def unique_by_append1 new_announcement_def)
    show "event_subject_ok (submitted s Ev_announce p (ai_key i) (ai_id i) ?h (cs_announcements s @ [?a]) (cs_bindings s)) ?e"
      by (simp add: event_subject_ok_def binding_event_def new_announcement_def)
  next
    fix a assume a: "a \<in> set (cs_announcements s @ [?a])"
    show "announcement_history_ok (submitted s Ev_announce p (ai_key i) (ai_id i) ?h (cs_announcements s @ [?a]) (cs_bindings s)) a"
    proof (cases "a \<in> set (cs_announcements s)")
      case True
      show ?thesis
      proof (rule other_announcement [OF ok subj links [unfolded facts(1)] True])
        show "\<not> concerns (submitted s Ev_announce p (ai_key i) (ai_id i) ?h (cs_announcements s @ [?a]) (cs_bindings s)) (an_id a) ?e"
          using unconcerned [OF True] unfolding facts(1) .
      qed (rule link_same_bindings [OF ok True])
    next
      case False
      with a have "a = ?a" by simp
      then show ?thesis
        using mine unfolding facts(1) by (simp add: announcement_history_ok_def announcement_link_ok_def new_announcement_def)
    qed
  next
    fix b assume "b \<in> set (cs_bindings s)"
    then show "binding_history_ok (submitted s Ev_announce p (ai_key i) (ai_id i) ?h (cs_announcements s @ [?a]) (cs_bindings s)) b"
      by (rule other_binding [OF ok]) (auto simp: binding_event_def)
  qed (use facts(1,5) ok in auto)
qed

lemma withdraw_Inr:
  assumes "withdrawAnnouncement sha s p i = Inr (Publication t x)" and "control_ok sha s"
  obtains a where "a \<in> set (cs_announcements s)" "an_id a = wi_id i" "an_owner a = p" "an_revision a = wi_expected_revision i"
    "an_state a = Unresolved" "x = withdrawn_announcement a" "key_unused s p (wi_key i)" "checkCapacity t = Inr ()"
    "t = submitted s Ev_withdraw p (wi_key i) (an_id a) (submission_hash sha p ''withdraw'' (withdrawal_input_json i))
       (map (\<lambda>y. if an_id y = an_id a then withdrawn_announcement y else y) (cs_announcements s)) (cs_bindings s)"
proof -
  from assms(1) obtain a where a: "find_announcement s (wi_id i) = Some a" "an_owner a = p" "an_revision a = wi_expected_revision i"
    "an_state a = Unresolved" "x = withdrawn_announcement a" "key_unused s p (wi_key i)" "checkCapacity t = Inr ()"
    "t = appendSubmissionEvent (change_announcement (an_id a) withdrawn_announcement (submissionState s))
       Ev_withdraw p (wi_key i) (an_id a) (submission_hash sha p ''withdraw'' (withdrawal_input_json i))"
    by (auto simp: withdrawAnnouncement_def Let_def andThen_Inr_iff replayed_Retained checked_publication_Inr
        dest: sameSubmissionKey_None split: option.splits if_splits)
  then have "t = submitted s Ev_withdraw p (wi_key i) (an_id a) (submission_hash sha p ''withdraw'' (withdrawal_input_json i))
       (map (\<lambda>y. if an_id y = an_id a then withdrawn_announcement y else y) (cs_announcements s)) (cs_bindings s)"
    using update_first_map_key [OF unique_byD [OF control_unique(4) [OF assms(2)]]]
    by (simp add: appendSubmissionEvent_def change_announcement_def submissionState_max submitted_def)
  with a find_announcement_iff [OF assms(2)] that show thesis by auto
qed

text \<open>Announcements changed in place keep their identity, owner, payload and well-formedness.\<close>

definition keeps_announcement :: "(announcement \<Rightarrow> announcement) \<Rightarrow> announcement \<Rightarrow> bool" where
  "keeps_announcement f a = (an_id (f a) = an_id a \<and> an_owner (f a) = an_owner a \<and> an_payload_ref (f a) = an_payload_ref a)"

lemma changed_announcements_members:
  assumes "\<And>a. a \<in> set as \<Longrightarrow> keeps_announcement f a" and "a \<in> set as"
  shows "\<exists>x \<in> set (map (\<lambda>y. if an_id y = i then f y else y) as).
    an_id x = an_id a \<and> an_owner x = an_owner a \<and> an_payload_ref x = an_payload_ref a"
  using assms by (intro bexI [of _ "if an_id a = i then f a else a"]) (auto simp: keeps_announcement_def)

lemma changed_announcements_ids:
  assumes "\<And>a. keeps_announcement f a"
  shows "an_id ` set (map (\<lambda>y. if an_id y = i then f y else y) as) = an_id ` set as"
proof -
  have "map an_id (map (\<lambda>y. if an_id y = i then f y else y) as) = map an_id as"
    using assms by (intro map_key_upd) (simp add: keeps_announcement_def)
  then show ?thesis by (metis set_map)
qed

lemma changed_announcements_ok:
  assumes "list_ok n announcement_ok an_id as" and "\<And>a. keeps_announcement f a"
    and "\<And>a. a \<in> set as \<Longrightarrow> an_id a = i \<Longrightarrow> announcement_ok (f a)"
  shows "list_ok n announcement_ok an_id (map (\<lambda>y. if an_id y = i then f y else y) as)"
  using assms unique_by_map_upd [of an_id f "\<lambda>y. an_id y = i" as]
  by (auto simp: list_ok_def keeps_announcement_def)

lemma announcement_counter:
  assumes "control_ok sha s" and "a \<in> set (cs_announcements s)" and "int (cs_revision s + 1) \<le> MAX_SAFE_INTEGER"
  shows "counter_ok (an_revision a + 1)"
proof -
  have "an_revision a \<le> cs_revision s"
    using submissions_always [OF assms(1)] assms(2) unfolding submissions_ok_def announcement_history_ok_def by blast
  with assms(3) show ?thesis by (simp add: counter_ok_def)
qed

lemma keeps_withdrawn: "keeps_announcement withdrawn_announcement a"
  by (simp add: keeps_announcement_def withdrawn_announcement_def)

theorem withdraw_accepted:
  assumes sub: "submitting sha s p" and input: "public_key_ok (wi_key i)" "entity_ok (wi_id i)"
    and res: "withdrawAnnouncement sha s p i = Inr (Publication t x)"
  shows "control_ok sha t \<and> event_subjects_ok t"
proof -
  from sub have ok: "control_ok sha s" and subj: "event_subjects_ok s" and hex: "sha_hex sha"
    and max: "int (cs_revision s + 1) \<le> MAX_SAFE_INTEGER" by (simp_all add: submitting_def)
  obtain a where a: "a \<in> set (cs_announcements s)" "an_id a = wi_id i" "an_owner a = p" "an_state a = Unresolved"
    and new: "key_unused s p (wi_key i)" and cap: "checkCapacity t = Inr ()"
    and t: "t = submitted s Ev_withdraw p (wi_key i) (an_id a) (submission_hash sha p ''withdraw'' (withdrawal_input_json i))
       (map (\<lambda>y. if an_id y = an_id a then withdrawn_announcement y else y) (cs_announcements s)) (cs_bindings s)"
    by (rule withdraw_Inr [OF res ok])
  let ?as = "map (\<lambda>y. if an_id y = an_id a then withdrawn_announcement y else y) (cs_announcements s)"
  have links: "links_kept s t" unfolding t by (rule links_same) simp
  have w_ok: "announcement_ok (withdrawn_announcement y)" if "y \<in> set (cs_announcements s)" "an_id y = an_id a" for y
  proof -
    have "y = a" by (rule unique_by_inj [OF control_unique(4) [OF ok] that(1) a(1) that(2)])
    with control_members(7) [OF ok a(1)] a(4) announcement_counter [OF ok a(1) max] show ?thesis
      by (simp add: announcement_ok_def withdrawn_announcement_def)
  qed
  show ?thesis
    unfolding t
  proof (rule submitted_accepted [OF sub new _ _ _ submission_hash_ok [OF hex] _ old_lists(2) [OF ok] _ _ _ old_keys [OF ok]])
    show "list_ok (lim_works (cs_limits s)) announcement_ok an_id ?as"
      by (rule changed_announcements_ok [OF old_lists(1) [OF ok] keeps_withdrawn w_ok])
    fix y assume "y \<in> set ?as"
    then obtain z where z: "z \<in> set (cs_announcements s)" "y = (if an_id z = an_id a then withdrawn_announcement z else z)" by auto
    show "announcement_history_ok (submitted s Ev_withdraw p (wi_key i) (an_id a)
        (submission_hash sha p ''withdraw'' (withdrawal_input_json i)) ?as (cs_bindings s)) y"
    proof (cases "an_id z = an_id a")
      case True
      show ?thesis
        by (rule moved_announcement [OF ok subj links [unfolded t] z(1)])
           (use True z(2) in \<open>simp_all add: concerns_def announcement_link_ok_def withdrawn_announcement_def\<close>)
    next
      case False
      then have y: "y = z" using z(2) by simp
      show ?thesis unfolding y
        by (rule other_announcement [OF ok subj links [unfolded t] z(1) _ link_same_bindings [OF ok z(1)]])
           (use False in \<open>simp add: concerns_def\<close>)
    qed
  next
    fix b assume "b \<in> set (cs_bindings s)"
    then show "binding_history_ok (submitted s Ev_withdraw p (wi_key i) (an_id a)
        (submission_hash sha p ''withdraw'' (withdrawal_input_json i)) ?as (cs_bindings s)) b"
      by (rule other_binding [OF ok _ _ changed_announcements_members [OF keeps_withdrawn]]) (simp_all add: binding_event_def)
  next
    show "an_id ` set (cs_announcements s) \<subseteq> an_id ` set ?as"
      using changed_announcements_ids [of withdrawn_announcement, OF keeps_withdrawn] by blast
    then show "event_subject_ok (submitted s Ev_withdraw p (wi_key i) (an_id a)
        (submission_hash sha p ''withdraw'' (withdrawal_input_json i)) ?as (cs_bindings s))
        (submitted_event s Ev_withdraw p (wi_key i) (an_id a) (submission_hash sha p ''withdraw'' (withdrawal_input_json i)))"
      using a(1) by (simp add: event_subject_ok_def binding_event_def del: set_map) blast
  qed (use input cap t a(2) in \<open>simp_all add: public_key_ok_def\<close>)
qed

section \<open>Binding\<close>

lemma bound_to_announcement_Inr:
  assumes "bound_to_announcement sha s p i = Inr x"
  shows "(pf_announcement i = None \<and> x = None)
    \<or> (\<exists>r a. pf_announcement i = Some r \<and> x = Some a \<and> find_announcement s (ar_id r) = Some a \<and> an_owner a = p
        \<and> an_revision a = ar_revision r \<and> an_state a = Unresolved)"
  using assms by (auto simp: bound_to_announcement_def split: option.splits if_splits)

definition bound_announcements :: "string \<Rightarrow> announcement option \<Rightarrow> announcement list \<Rightarrow> announcement list" where
  "bound_announcements t x as = (case x of None \<Rightarrow> as
     | Some a \<Rightarrow> map (\<lambda>y. if an_id y = an_id a then bound_announcement t y else y) as)"

lemma bind_Inr:
  assumes "bindSubmission sha s p i = Inr (Publication t x)" and ok: "control_ok sha s"
  obtains decision ov ann where "submissionDecision sha s p i = Inr (decision, ov)" "bound_to_announcement sha s p i = Inr ann"
    "key_unused s p (bi_key i)" "checkCapacity t = Inr ()" "x = new_binding sha p i decision"
    "bi_task_id i \<notin> b_task_id ` set (cs_bindings s)"
    "\<forall>b \<in> set (cs_bindings s). b_owner b = p \<and> b_request_key b = bi_request_key i \<longrightarrow> b_state b = Released"
    "t = submitted s Ev_bind p (bi_key i) (bi_task_id i) (submission_hash sha p ''bind'' (bind_input_json i))
       (bound_announcements (bi_task_id i) ann (cs_announcements s)) (cs_bindings s @ [new_binding sha p i decision])"
proof -
  from assms(1) obtain decision ov ann where f: "submissionDecision sha s p i = Inr (decision, ov)"
    "bound_to_announcement sha s p i = Inr ann" "key_unused s p (bi_key i)" "checkCapacity t = Inr ()"
    "x = new_binding sha p i decision"
    and fresh: "\<not> (\<exists>b \<in> set (cs_bindings s). b_task_id b = bi_task_id i
              \<or> b_owner b = p \<and> b_request_key b = bi_request_key i \<and> b_state b \<noteq> Released)"
    and t: "t = appendSubmissionEvent (bind_announcement (bi_task_id i) ann
         ((submissionState s)\<lparr>cs_bindings := cs_bindings (submissionState s) @ [new_binding sha p i decision]\<rparr>))
         Ev_bind p (bi_key i) (bi_task_id i) (submission_hash sha p ''bind'' (bind_input_json i))"
    by (auto simp: bindSubmission_def Let_def andThen_Inr_iff replayed_Retained checked_publication_Inr guard_fail_Inr
        dest: sameSubmissionKey_None split: option.splits prod.splits)
  have "t = submitted s Ev_bind p (bi_key i) (bi_task_id i) (submission_hash sha p ''bind'' (bind_input_json i))
       (bound_announcements (bi_task_id i) ann (cs_announcements s)) (cs_bindings s @ [new_binding sha p i decision])"
    using t update_first_map_key [OF unique_byD [OF control_unique(4) [OF ok]]]
    by (cases ann) (simp_all add: bind_announcement_def bound_announcements_def appendSubmissionEvent_def
        change_announcement_def submissionState_max submitted_def)
  moreover have "bi_task_id i \<notin> b_task_id ` set (cs_bindings s)" using fresh by auto
  moreover have "\<forall>b \<in> set (cs_bindings s). b_owner b = p \<and> b_request_key b = bi_request_key i \<longrightarrow> b_state b = Released"
    using fresh by auto
  ultimately show thesis using f by (intro that [of decision ov ann])
qed

lemma links_added:
  assumes "bs = cs_bindings s @ [x]" and "b_task_id x \<notin> b_task_id ` set (cs_bindings s)"
  shows "links_kept s (submitted s kind p key item h as bs)"
  using assms by (auto simp: links_kept_def same_link_def)

lemma link_added:
  assumes "announcement_link_ok s a" shows "announcement_link_ok (submitted s kind p key item h as (cs_bindings s @ [x])) a"
  using assms by (auto simp: announcement_link_ok_def find_append split: option.splits)

lemma keeps_bound: "keeps_announcement (bound_announcement t) a"
  by (simp add: keeps_announcement_def bound_announcement_def)

lemma bound_announcements_simps:
  "an_id ` set (bound_announcements t x as) = an_id ` set as"
  "a \<in> set as \<Longrightarrow> \<exists>y \<in> set (bound_announcements t x as). an_id y = an_id a \<and> an_owner y = an_owner a \<and> an_payload_ref y = an_payload_ref a"
  using changed_announcements_ids [of "bound_announcement t", OF keeps_bound]
    changed_announcements_members [of as "bound_announcement t" a, OF keeps_bound]
  by (auto simp: bound_announcements_def split: option.split)

text \<open>Every binding has an event of its own, so the bindings fit where the events do.\<close>

lemma bindings_within_events:
  assumes "control_ok sha s"
  shows "length (cs_bindings s) \<le> length (cs_events s)"
proof -
  have "b_task_id ` set (cs_bindings s) \<subseteq> ev_item_id ` set (cs_events s)"
  proof
    fix t assume "t \<in> b_task_id ` set (cs_bindings s)"
    then obtain b where b: "b \<in> set (cs_bindings s)" "t = b_task_id b" by auto
    have "binding_history_ok s b" using submissions_always [OF assms] b(1) by (simp add: submissions_ok_def)
    then have "binding_history s t \<noteq> []" using b by (cases "b_state b") (auto simp: binding_history_ok_def binding_kinds_def)
    then obtain e where "e \<in> set (binding_history s t)" by (meson list.set_sel(1))
    then show "t \<in> ev_item_id ` set (cs_events s)" by (auto simp: binding_history_def)
  qed
  then have "card (b_task_id ` set (cs_bindings s)) \<le> card (ev_item_id ` set (cs_events s))" by (simp add: card_mono)
  also have "\<dots> \<le> card (set (cs_events s))" by (simp add: card_image_le)
  also have "\<dots> \<le> length (cs_events s)" by (rule card_length)
  finally show ?thesis
    using unique_byD [OF control_unique(5) [OF assms]] by (metis distinct_card length_map set_map)
qed

lemma capacity_events:
  assumes "checkCapacity (submitted s kind p key item h as bs) = Inr ()"
  shows "length (cs_events s) < lim_receipts (cs_limits s)"
  using checkCapacityD(4) [OF assms] by (simp add: controlReceiptCount_def submitted_def)

lemma decision_hash:
  assumes "sha_hex sha" and "submissionDecision sha s p i = Inr (d, ov)"
  shows "parent_ok d"
  using assms by (auto simp: submissionDecision_def andThen_Inr_iff Let_def sha_hex_def canonical_hash_def)

lemma new_binding_ok:
  assumes "sha_hex sha" and "parent_ok p" and "bind_input_ok i" and "parent_ok d"
  shows "binding_ok sha (new_binding sha p i d)"
  using assms
  by (simp add: binding_ok_def new_binding_def bind_input_ok_def preflight_ok_def binding_link_def sha_hex_def
      canonical_hash_def)

lemma concerns_new_binding:
  assumes "b_task_id x \<notin> b_task_id ` set (cs_bindings s)" and "item = b_task_id x" and "kind = Ev_bind"
  shows "concerns (submitted s kind p key item h as (cs_bindings s @ [x])) j (submitted_event s kind p key item h)
    = (map_option ar_id (b_announcement x) = Some j)"
proof -
  have "\<forall>b \<in> set (cs_bindings s). b_task_id b \<noteq> b_task_id x" using assms(1) by (metis imageI)
  with assms(2,3) show ?thesis by (auto simp: concerns_def)
qed

lemma find_fresh:
  assumes "t \<notin> f ` set xs" and "f x = t"
  shows "List.find (\<lambda>y. Some t = Some (f y)) (xs @ [x]) = Some x"
proof -
  have "List.find (\<lambda>y. Some t = Some (f y)) xs = None" using assms(1) by (auto simp: find_None_iff_all)
  with assms(2) show ?thesis by (simp add: find_append)
qed

lemma bind_announcements_history:
  assumes ok: "control_ok sha s" and subj: "event_subjects_ok s"
    and fresh: "bi_task_id i \<notin> b_task_id ` set (cs_bindings s)"
    and ann: "bound_to_announcement sha s p i = Inr ann"
    and y: "y \<in> set (bound_announcements (bi_task_id i) ann (cs_announcements s))"
  shows "announcement_history_ok (submitted s Ev_bind p key (bi_task_id i) h
      (bound_announcements (bi_task_id i) ann (cs_announcements s)) (cs_bindings s @ [new_binding sha p i d])) y"
proof -
  let ?x = "new_binding sha p i d" let ?as = "bound_announcements (bi_task_id i) ann (cs_announcements s)"
  let ?t = "\<lambda>as. submitted s Ev_bind p key (bi_task_id i) h as (cs_bindings s @ [?x])"
  have tid: "b_task_id ?x = bi_task_id i" "b_announcement ?x = pf_announcement i" by (simp_all add: new_binding_def)
  have fresh': "b_task_id ?x \<notin> b_task_id ` set (cs_bindings s)" using fresh tid(1) by metis
  have links: "links_kept s (?t as)" for as by (rule links_added [OF refl fresh'])
  have concerns: "concerns (?t as) j (submitted_event s Ev_bind p key (bi_task_id i) h)
      = (map_option ar_id (pf_announcement i) = Some j)" for as j
    using concerns_new_binding [of ?x s] fresh by (simp add: tid)
  have other: "announcement_history_ok (?t as) z"
    if z: "z \<in> set (cs_announcements s)" and "map_option ar_id (pf_announcement i) \<noteq> Some (an_id z)" for as z
    by (rule other_announcement [OF ok subj links z _ link_added [OF old_link [OF ok z]]]) (use that(2) concerns in simp)
  consider "ann = None" "pf_announcement i = None"
    | r a where "ann = Some a" "pf_announcement i = Some r" "a \<in> set (cs_announcements s)" "an_id a = ar_id r" "an_owner a = p"
        "an_revision a = ar_revision r"
    using bound_to_announcement_Inr [OF ann] find_announcement_iff [OF ok] by auto
  then show ?thesis
  proof cases
    case 1
    with y other show ?thesis by (simp add: bound_announcements_def)
  next
    case 2
    with y obtain z where z: "z \<in> set (cs_announcements s)" "y = (if an_id z = an_id a then bound_announcement (bi_task_id i) z else z)"
      by (auto simp: bound_announcements_def)
    show ?thesis
    proof (cases "an_id z = an_id a")
      case True
      have "z = a" by (rule unique_by_inj [OF control_unique(4) [OF ok] z(1) 2(3) True])
      then have yb: "y = bound_announcement (bi_task_id i) a" using z(2) by simp
      have link: "announcement_link_ok (?t ?as) y"
        using find_fresh [of "bi_task_id i" b_task_id "cs_bindings s" ?x, OF fresh tid(1)] 2
        by (simp add: announcement_link_ok_def yb bound_announcement_def new_binding_def)
      show ?thesis
        by (rule moved_announcement [OF ok subj links 2(3) _ link])
           (use concerns 2 in \<open>simp_all add: yb bound_announcement_def\<close>)
    next
      case False
      with z 2 other [OF z(1)] show ?thesis by simp
    qed
  qed
qed

theorem bind_accepted:
  assumes sub: "submitting sha s p" and input: "bind_input_ok i"
    and res: "bindSubmission sha s p i = Inr (Publication t x)"
  shows "control_ok sha t \<and> event_subjects_ok t"
proof -
  from sub have ok: "control_ok sha s" and subj: "event_subjects_ok s" and hex: "sha_hex sha" and p: "parent_ok p"
    and max: "int (cs_revision s + 1) \<le> MAX_SAFE_INTEGER" by (simp_all add: submitting_def)
  obtain d ov ann where d: "submissionDecision sha s p i = Inr (d, ov)" and ann: "bound_to_announcement sha s p i = Inr ann"
    and new: "key_unused s p (bi_key i)" and cap: "checkCapacity t = Inr ()"
    and fresh: "bi_task_id i \<notin> b_task_id ` set (cs_bindings s)"
    and released: "\<forall>b \<in> set (cs_bindings s). b_owner b = p \<and> b_request_key b = bi_request_key i \<longrightarrow> b_state b = Released"
    and t: "t = submitted s Ev_bind p (bi_key i) (bi_task_id i) (submission_hash sha p ''bind'' (bind_input_json i))
       (bound_announcements (bi_task_id i) ann (cs_announcements s)) (cs_bindings s @ [new_binding sha p i d])"
    by (rule bind_Inr [OF res ok])
  let ?x = "new_binding sha p i d" let ?as = "bound_announcements (bi_task_id i) ann (cs_announcements s)"
  let ?h = "submission_hash sha p ''bind'' (bind_input_json i)" let ?bs = "cs_bindings s @ [?x]"
  have x_ok: "binding_ok sha ?x" by (rule new_binding_ok [OF hex p input decision_hash [OF hex d]])
  have tid: "b_task_id ?x = bi_task_id i" by (simp add: new_binding_def)
  have i: "key_ok (bi_key i)" "entity_ok (bi_task_id i)"
    using input by (simp_all add: bind_input_ok_def internal_key_ok_def)
  show ?thesis
    unfolding t
  proof (rule submitted_accepted [OF sub new cap [unfolded t] i submission_hash_ok [OF hex]])
    show "list_ok (lim_receipts (cs_limits s)) (binding_ok sha) b_task_id ?bs"
      using old_lists(2) [OF ok] x_ok fresh capacity_events [OF cap [unfolded t]] bindings_within_events [OF ok]
      by (auto simp: list_ok_def unique_by_append1 tid)
    show "list_ok (lim_works (cs_limits s)) announcement_ok an_id ?as"
    proof (cases ann)
      case (Some a)
      have "announcement_ok (bound_announcement (bi_task_id i) z)" if "z \<in> set (cs_announcements s)" for z
        using control_members(7) [OF ok that] announcement_counter [OF ok that max] i(2)
        by (simp add: announcement_ok_def bound_announcement_def)
      then show ?thesis
        using changed_announcements_ok [OF old_lists(1) [OF ok] keeps_bound] by (simp add: bound_announcements_def Some)
    qed (use old_lists(1) [OF ok] in \<open>simp add: bound_announcements_def\<close>)
    show "an_id ` set (cs_announcements s) \<subseteq> an_id ` set ?as" by (simp add: bound_announcements_simps)
    show "unique_by (\<lambda>b. owner_key (b_owner b) (b_request_key b)) (filter (\<lambda>b. b_state b \<noteq> Released) ?bs)"
    proof -
      have "owner_key p (bi_request_key i) \<noteq> owner_key (b_owner b) (b_request_key b)"
        if "b \<in> set (cs_bindings s)" "b_state b \<noteq> Released" for b
      proof
        assume eq: "owner_key p (bi_request_key i) = owner_key (b_owner b) (b_request_key b)"
        have "p = b_owner b \<and> bi_request_key i = b_request_key b"
          by (rule owner_key_inj [OF eq p]) (use control_members(8) [OF ok that(1)] in \<open>simp add: binding_ok_def\<close>)
        with released that show False by auto
      qed
      then show ?thesis using old_keys [OF ok] by (auto simp: unique_by_append1 new_binding_def)
    qed
    show "event_subject_ok (submitted s Ev_bind p (bi_key i) (bi_task_id i) ?h ?as ?bs)
        (submitted_event s Ev_bind p (bi_key i) (bi_task_id i) ?h)"
      by (simp add: event_subject_ok_def binding_event_def tid)
  next
    fix y assume "y \<in> set ?as"
    then show "announcement_history_ok (submitted s Ev_bind p (bi_key i) (bi_task_id i) ?h ?as ?bs) y"
      by (rule bind_announcements_history [OF ok subj fresh ann])
  next
    fix b assume b: "b \<in> set ?bs"
    show "binding_history_ok (submitted s Ev_bind p (bi_key i) (bi_task_id i) ?h ?as ?bs) b"
    proof (cases "b \<in> set (cs_bindings s)")
      case True
      then have "b_task_id b \<noteq> bi_task_id i" using fresh by (metis imageI)
      then show ?thesis by (intro other_binding [OF ok True _ bound_announcements_simps(2)]) auto
    next
      case False
      with b have bx: "b = ?x" by simp
      have "binding_history (submitted s Ev_bind p (bi_key i) (bi_task_id i) ?h ?as ?bs) (bi_task_id i)
          = [submitted_event s Ev_bind p (bi_key i) (bi_task_id i) ?h]"
        using no_history [OF subj fresh] history_event_append [OF submitted_events] by (simp add: binding_event_def)
      moreover have "\<exists>y \<in> set ?as. an_id y = ar_id r \<and> an_owner y = p \<and> an_payload_ref y = ar_id r"
        if r: "pf_announcement i = Some r" for r
      proof -
        obtain a where a: "a \<in> set (cs_announcements s)" "an_id a = ar_id r" "an_owner a = p"
          using bound_to_announcement_Inr [OF ann] find_announcement_iff [OF ok] r by auto
        moreover have "an_payload_ref a = an_id a"
          using submissions_always [OF ok] a(1) unfolding submissions_ok_def announcement_history_ok_def by blast
        ultimately show ?thesis using bound_announcements_simps(2) [OF a(1)] by metis
      qed
      ultimately show ?thesis
        unfolding bx binding_history_ok_def tid by (auto simp: new_binding_def binding_kinds_def split: option.split)
    qed
  qed auto
qed

end
