(* ===== verification/Submission_Ends.thy ===== *)
theory Submission_Ends
  imports Submission_Ops
begin

text \<open>
  Settling, releasing and ending a bound submission: a binding changed in place, with the
  announcement it names.
\<close>

section \<open>Bindings changed in place\<close>

abbreviation rebound :: "string \<Rightarrow> (binding \<Rightarrow> binding) \<Rightarrow> binding list \<Rightarrow> binding list" where
  "rebound t f bs \<equiv> map (\<lambda>b. if b_task_id b = t then f b else b) bs"

definition keeps_binding :: "(binding \<Rightarrow> binding) \<Rightarrow> bool" where
  "keeps_binding f = (\<forall>b. same_link b (f b) \<and> b_request_key (f b) = b_request_key b)"

lemma keeps_bindingD:
  assumes "keeps_binding f"
  shows "b_task_id (f b) = b_task_id b" "b_announcement (f b) = b_announcement b" "b_owner (f b) = b_owner b"
    "b_request_key (f b) = b_request_key b" "same_link b (f b)"
  using assms by (simp_all add: keeps_binding_def same_link_def)

lemma links_changed:
  assumes "keeps_binding f"
  shows "links_kept s (submitted s kind p key item h as (rebound t f (cs_bindings s)))"
proof -
  have "\<exists>x \<in> set (rebound t f (cs_bindings s)). same_link b x" if "b \<in> set (cs_bindings s)" for b
    using that keeps_bindingD(5) [OF assms] by (intro bexI [of _ "if b_task_id b = t then f b else b"]) (auto simp: same_link_def)
  moreover have "\<exists>b \<in> set (cs_bindings s). same_link b x" if "x \<in> set (rebound t f (cs_bindings s))" for x
  proof -
    from that obtain b where "b \<in> set (cs_bindings s)" "x = (if b_task_id b = t then f b else b)" by auto
    then show ?thesis using keeps_bindingD(5) [OF assms] by (intro bexI [of _ b]) (auto simp: same_link_def)
  qed
  ultimately show ?thesis by (simp add: links_kept_def)
qed

lemma rebound_ids:
  assumes "keeps_binding f" shows "b_task_id ` set (rebound t f bs) = b_task_id ` set bs"
proof -
  have "map b_task_id (rebound t f bs) = map b_task_id bs" by (rule map_key_upd) (rule keeps_bindingD(1) [OF assms])
  then show ?thesis by (metis set_map)
qed

lemma rebound_keys:
  assumes "keeps_binding f" and "\<And>b. b \<in> set bs \<Longrightarrow> b_task_id b = t \<Longrightarrow> b_state b \<noteq> Released"
    and "unique_by (\<lambda>b. owner_key (b_owner b) (b_request_key b)) (filter (\<lambda>b. b_state b \<noteq> Released) bs)"
  shows "unique_by (\<lambda>b. owner_key (b_owner b) (b_request_key b)) (filter (\<lambda>b. b_state b \<noteq> Released) (rebound t f bs))"
  using assms(2,3)
proof (induction bs)
  case (Cons b bs)
  let ?k = "\<lambda>b. owner_key (b_owner b) (b_request_key b)" let ?u = "filter (\<lambda>b. b_state b \<noteq> Released)"
  have live: "b_state z \<noteq> Released" if "z \<in> set bs" "b_task_id z = t" for z using Cons.prems(1) that by simp
  have key: "?k (if b_task_id z = t then f z else z) = ?k z" for z using keeps_bindingD [OF assms(1)] by simp
  have sub: "?k ` set (?u (rebound t f bs)) \<subseteq> ?k ` set (?u bs)"
  proof
    fix k assume "k \<in> ?k ` set (?u (rebound t f bs))"
    then obtain z where z: "z \<in> set bs" "k = ?k (if b_task_id z = t then f z else z)"
      "b_state (if b_task_id z = t then f z else z) \<noteq> Released" by auto
    then have "b_state z \<noteq> Released" using live by (simp split: if_splits)
    with z(1) key [of z] z(2) show "k \<in> ?k ` set (?u bs)" by (auto intro: image_eqI [of _ _ z])
  qed
  have "unique_by ?k (?u bs)" using Cons.prems(2) by (simp add: unique_by_def split: if_splits)
  then have IH: "unique_by ?k (?u (rebound t f bs))" using Cons.IH live by simp
  show ?case
  proof (cases "b_state b = Released")
    case True
    with Cons.prems(1) IH show ?thesis by auto
  next
    case False
    then have "?k b \<notin> ?k ` set (?u bs)" using Cons.prems(2) by (simp add: unique_by_def)
    then have "?k b \<notin> ?k ` set (?u (rebound t f bs))" using sub by blast
    with IH keeps_bindingD [OF assms(1)] show ?thesis by (auto simp: unique_by_def)
  qed
qed simp

lemma find_rebound:
  assumes "keeps_binding f" and "cs_bindings t = rebound i f (cs_bindings s)"
  shows "find_binding t j = map_option (\<lambda>b. if b_task_id b = i then f b else b) (find_binding s j)"
  unfolding find_binding_def assms(2) by (rule find_map_upd) (simp add: keeps_bindingD(1) [OF assms(1)])

lemma link_by_task:
  "List.find (\<lambda>b. an_task_id a = Some (b_task_id b)) (cs_bindings s) = Option.bind (an_task_id a) (find_binding s)"
proof (cases "an_task_id a")
  case (Some t)
  then show ?thesis by (simp add: find_binding_def eq_commute)
qed (simp add: find_None_iff_all)

lemma link_rebound:
  assumes "keeps_binding f" and "announcement_link_ok s a"
    and "an_state a = Bound_ann \<or> an_state a = Linked \<Longrightarrow> an_task_id a \<noteq> Some i"
  shows "announcement_link_ok (submitted s kind p key item h as (rebound i f (cs_bindings s))) a"
    (is "announcement_link_ok ?t a")
proof -
  have found: "find_binding ?t j = map_option (\<lambda>b. if b_task_id b = i then f b else b) (find_binding s j)" for j
    by (rule find_rebound [OF assms(1)]) simp
  have "b_task_id b = j" if "find_binding s j = Some b" for j b
    using that by (auto simp: find_binding_def dest: find_SomeD)
  then show ?thesis
    using assms(2,3) found unfolding announcement_link_ok_def link_by_task
    by (cases "an_task_id a") (auto split: option.splits)
qed

lemma concerns_rebound:
  assumes "control_ok sha s" and "keeps_binding f" and "b \<in> set (cs_bindings s)" and "kind = Ev_settle \<or> kind = Ev_release"
  shows "concerns (submitted s kind p key (b_task_id b) h as (rebound (b_task_id b) f (cs_bindings s))) j
      (submitted_event s kind p key (b_task_id b) h) = (map_option ar_id (b_announcement b) = Some j)"
proof -
  let ?P = "\<lambda>z. b_task_id z = b_task_id b \<and> map_option ar_id (b_announcement z) = Some j"
  have "(\<exists>z \<in> set (rebound (b_task_id b) f (cs_bindings s)). ?P z) = ?P b"
  proof
    assume "?P b"
    then have "?P (f b)" using keeps_bindingD(1,2) [OF assms(2)] by simp
    moreover have "f b \<in> set (rebound (b_task_id b) f (cs_bindings s))" using assms(3) by force
    ultimately show "\<exists>z \<in> set (rebound (b_task_id b) f (cs_bindings s)). ?P z" by blast
  next
    assume "\<exists>z \<in> set (rebound (b_task_id b) f (cs_bindings s)). ?P z"
    then obtain z where z: "z \<in> set (cs_bindings s)" "?P (if b_task_id z = b_task_id b then f z else z)" by auto
    then have "?P z" using keeps_bindingD(1,2) [OF assms(2)] by (simp split: if_splits)
    moreover from this have "z = b" using unique_by_inj [OF control_unique(5) [OF assms(1)] z(1) assms(3)] by blast
    ultimately show "?P b" by simp
  qed
  then show ?thesis using assms(4) unfolding concerns_def submitted_event_fields submitted_fields by auto
qed

lemma rebound_ok:
  assumes "list_ok n q b_task_id bs" and "keeps_binding f" and "\<And>b. b \<in> set bs \<Longrightarrow> b_task_id b = i \<Longrightarrow> q (f b)"
  shows "list_ok n q b_task_id (rebound i f bs)"
  using assms(1,3) unique_by_map_upd [of b_task_id f "\<lambda>b. b_task_id b = i" bs] keeps_bindingD(1) [OF assms(2)]
  by (auto simp: list_ok_def)

lemma rebound_history:
  assumes ok: "control_ok sha s" and f: "keeps_binding f" and b: "b \<in> set (cs_bindings s)"
    and kind: "binding_event (submitted_event s kind (b_owner b) key (b_task_id b) h)"
      "binding_kinds (b_state (f b)) = binding_kinds (b_state b) @ [kind]"
    and anns: "\<And>a. a \<in> set (cs_announcements s)
      \<Longrightarrow> \<exists>x \<in> set as. an_id x = an_id a \<and> an_owner x = an_owner a \<and> an_payload_ref x = an_payload_ref a"
    and y: "y \<in> set (rebound (b_task_id b) f (cs_bindings s))"
  shows "binding_history_ok (submitted s kind (b_owner b) key (b_task_id b) h as (rebound (b_task_id b) f (cs_bindings s))) y"
proof -
  from y obtain z where z: "z \<in> set (cs_bindings s)" "y = (if b_task_id z = b_task_id b then f z else z)" by auto
  show ?thesis
  proof (cases "b_task_id z = b_task_id b")
    case True
    have "z = b" by (rule unique_by_inj [OF control_unique(5) [OF ok] z(1) b True])
    with z have y: "y = f b" by simp
    show ?thesis unfolding y by (rule moved_binding [OF ok b kind(1) anns keeps_bindingD(5) [OF f] kind(2)])
  next
    case False
    with z have y: "y = z" by simp
    show ?thesis unfolding y by (rule other_binding [OF ok z(1) _ anns]) (use False in auto)
  qed
qed

lemma named_binding_Inr:
  assumes "control_ok sha s"
    and "named_binding s p i = Inr b"
  shows "b \<in> set (cs_bindings s) \<and> b_task_id b = di_task_id i \<and> b_owner b = p
    \<and> b_request_key b = di_request_key i \<and> b_link_hash b = di_link_hash i"
  using find_binding_iff [OF assms(1)] assms(2) by (auto simp: named_binding_def split: option.splits if_splits)

section \<open>Settling and releasing\<close>

definition disposed_announcements :: "bool \<Rightarrow> announcement option \<Rightarrow> announcement list \<Rightarrow> announcement list" where
  "disposed_announcements settle x as = (case x of None \<Rightarrow> as
     | Some a \<Rightarrow> map (\<lambda>y. if an_id y = an_id a then disposed_announcement settle y else y) as)"

lemma keeps_disposed: "keeps_binding (disposed settle)" "keeps_announcement (disposed_announcement settle) a"
  by (simp_all add: keeps_binding_def disposed_def same_link_def keeps_announcement_def disposed_announcement_def)

lemma disposed_announcements_simps:
  "an_id ` set (disposed_announcements settle x as) = an_id ` set as"
  "a \<in> set as \<Longrightarrow> \<exists>y \<in> set (disposed_announcements settle x as).
     an_id y = an_id a \<and> an_owner y = an_owner a \<and> an_payload_ref y = an_payload_ref a"
  using changed_announcements_ids [of "disposed_announcement settle", OF keeps_disposed(2)]
    changed_announcements_members [of as "disposed_announcement settle" a, OF keeps_disposed(2)]
  by (auto simp: disposed_announcements_def split: option.split)

definition disposal_kind :: "bool \<Rightarrow> event_kind" where
  "disposal_kind settle = (if settle then Ev_settle else Ev_release)"

definition disposal_hash :: "(string \<Rightarrow> string) \<Rightarrow> string \<Rightarrow> disposition_input \<Rightarrow> bool \<Rightarrow> string" where
  "disposal_hash sha p i settle =
     submission_hash sha p (if settle then ''settle'' else ''release'') (disposition_input_json i)"

lemma dispose_Inr:
  assumes "disposeSubmission sha s p i settle = Inr (Publication t x)" and ok: "control_ok sha s"
  obtains b ann where "b \<in> set (cs_bindings s)" "b_task_id b = di_task_id i" "b_owner b = p" "b_state b = Bound"
    "b_request_key b = di_request_key i" "b_link_hash b = di_link_hash i" "x = disposed settle b"
    "disposition_announcement s p b = Inr ann" "key_unused s p (di_key i)" "checkCapacity t = Inr ()"
    "t = submitted s (disposal_kind settle) p (di_key i) (b_task_id b) (disposal_hash sha p i settle)
       (disposed_announcements settle ann (cs_announcements s)) (rebound (b_task_id b) (disposed settle) (cs_bindings s))"
proof -
  from assms(1) obtain b ann where b: "named_binding s p i = Inr b" "b_state b = Bound" "x = disposed settle b"
    "disposition_announcement s p b = Inr ann" "key_unused s p (di_key i)" "checkCapacity t = Inr ()"
    and t: "t = appendSubmissionEvent (dispose_announcement settle ann (change_binding (b_task_id b) (disposed settle)
        (submissionState s))) (disposal_kind settle) p (di_key i) (b_task_id b) (disposal_hash sha p i settle)"
    by (auto simp: disposeSubmission_def Let_def andThen_Inr_iff replayed_Retained checked_publication_Inr guard_fail_Inr
        disposal_kind_def disposal_hash_def dest: sameSubmissionKey_None split: option.splits)
  have "t = submitted s (disposal_kind settle) p (di_key i) (b_task_id b) (disposal_hash sha p i settle)
       (disposed_announcements settle ann (cs_announcements s)) (rebound (b_task_id b) (disposed settle) (cs_bindings s))"
    unfolding t
    using update_first_map_key [OF unique_byD [OF control_unique(4) [OF ok]]]
      update_first_map_key [OF unique_byD [OF control_unique(5) [OF ok]]]
    by (cases ann) (simp_all add: dispose_announcement_def disposed_announcements_def appendSubmissionEvent_def
        change_announcement_def change_binding_def submissionState_max submitted_def)
  with b named_binding_Inr [OF ok b(1)] show thesis by (intro that [of b ann]) auto
qed

lemma disposition_announcement_Inr:
  assumes "control_ok sha s" and "disposition_announcement s p b = Inr ann"
  shows "(b_announcement b = None \<and> ann = None)
    \<or> (\<exists>r a. b_announcement b = Some r \<and> ann = Some a \<and> a \<in> set (cs_announcements s) \<and> an_id a = ar_id r \<and> an_owner a = p
        \<and> an_task_id a = Some (b_task_id b) \<and> an_state a = Bound_ann)"
  using assms(2) find_announcement_iff [OF assms(1)] by (auto simp: disposition_announcement_def split: option.splits if_splits)

text \<open>An announcement linked to a binding's task is the one the binding names.\<close>

lemma linked_announcement:
  assumes "control_ok sha s" and "z \<in> set (cs_announcements s)" and "an_state z = Bound_ann \<or> an_state z = Linked"
    and "an_task_id z = Some (b_task_id b)" and "b \<in> set (cs_bindings s)"
  shows "\<exists>r. b_announcement b = Some r \<and> ar_id r = an_id z \<and> ar_revision r \<le> an_revision z \<and> b_owner b = an_owner z
    \<and> (an_state z = Bound_ann \<longrightarrow> b_state b = Bound)"
proof -
  have "find_binding s (b_task_id b) = Some b" using find_binding_iff [OF assms(1)] assms(5) by simp
  with old_link [OF assms(1,2)] assms(3,4) show ?thesis
    unfolding announcement_link_ok_def link_by_task by (auto split: option.splits)
qed

lemma dispose_announcements_history:
  fixes settle s
  defines "kind \<equiv> disposal_kind settle" and "f \<equiv> disposed settle"
  assumes ok: "control_ok sha s" and subj: "event_subjects_ok s" and b: "b \<in> set (cs_bindings s)"
    and ann: "disposition_announcement s p b = Inr ann"
    and y: "y \<in> set (disposed_announcements settle ann (cs_announcements s))"
  shows "announcement_history_ok (submitted s kind p key (b_task_id b) h
      (disposed_announcements settle ann (cs_announcements s)) (rebound (b_task_id b) f (cs_bindings s))) y"
proof -
  let ?as = "disposed_announcements settle ann (cs_announcements s)"
  let ?t = "submitted s kind p key (b_task_id b) h ?as (rebound (b_task_id b) f (cs_bindings s))"
  have kept: "keeps_binding f" unfolding f_def by (rule keeps_disposed(1))
  have kind: "kind = Ev_settle \<or> kind = Ev_release" by (simp add: kind_def disposal_kind_def)
  have links: "links_kept s ?t" by (rule links_changed [OF kept])
  note concerns = concerns_rebound [OF ok kept b kind, where p = p and key = key and h = h and as = ?as]
  note ann_cases = disposition_announcement_Inr [OF ok ann]
  have other: "announcement_history_ok ?t z"
    if z: "z \<in> set (cs_announcements s)" and ne: "map_option ar_id (b_announcement b) \<noteq> Some (an_id z)" for z
  proof (rule other_announcement [OF ok subj links z])
    show "\<not> concerns ?t (an_id z) (submitted_event s kind p key (b_task_id b) h)" using concerns ne by simp
    show "announcement_link_ok ?t z"
      by (rule link_rebound [OF kept old_link [OF ok z]]) (use linked_announcement [OF ok z _ _ b] ne in auto)
  qed
  from ann_cases consider "ann = None" "b_announcement b = None"
    | r a where "ann = Some a" "b_announcement b = Some r" "a \<in> set (cs_announcements s)" "an_id a = ar_id r"
        "an_task_id a = Some (b_task_id b)" "an_state a = Bound_ann" by (elim disjE exE conjE) blast+
  then show ?thesis
  proof cases
    case 1
    with y other show ?thesis by (simp add: disposed_announcements_def)
  next
    case 2
    with y obtain z where z: "z \<in> set (cs_announcements s)" "y = (if an_id z = an_id a then disposed_announcement settle z else z)"
      by (auto simp: disposed_announcements_def)
    show ?thesis
    proof (cases "an_id z = an_id a")
      case True
      have "z = a" by (rule unique_by_inj [OF control_unique(4) [OF ok] z(1) 2(3) True])
      then have ya: "y = disposed_announcement settle a" using z(2) by simp
      have "find_binding ?t (b_task_id b) = Some (f b)"
      proof -
        have "find_binding s (b_task_id b) = Some b" using find_binding_iff [OF ok] b by simp
        then show ?thesis using find_rebound [OF kept, of ?t "b_task_id b" s "b_task_id b"] by simp
      qed
      then have link: "announcement_link_ok ?t y"
        using linked_announcement [OF ok 2(3) _ 2(5) b] 2 unfolding announcement_link_ok_def link_by_task
        by (auto simp: ya disposed_announcement_def f_def disposed_def)
      show ?thesis
        by (rule moved_announcement [OF ok subj links 2(3) _ link])
           (use concerns 2 in \<open>simp_all add: ya disposed_announcement_def\<close>)
    next
      case False
      with z 2 other [OF z(1)] show ?thesis by simp
    qed
  qed
qed

theorem dispose_accepted:
  assumes sub: "submitting sha s p" and input: "disposition_ok i"
    and res: "disposeSubmission sha s p i settle = Inr (Publication t x)"
  shows "control_ok sha t \<and> event_subjects_ok t"
proof -
  from sub have ok: "control_ok sha s" and subj: "event_subjects_ok s" and hex: "sha_hex sha"
    and max: "int (cs_revision s + 1) \<le> MAX_SAFE_INTEGER" by (simp_all add: submitting_def)
  obtain b ann where b: "b \<in> set (cs_bindings s)" "b_task_id b = di_task_id i" "b_owner b = p" "b_state b = Bound"
    and ann: "disposition_announcement s p b = Inr ann" and new: "key_unused s p (di_key i)" and cap: "checkCapacity t = Inr ()"
    and t: "t = submitted s (disposal_kind settle) p (di_key i) (b_task_id b) (disposal_hash sha p i settle)
       (disposed_announcements settle ann (cs_announcements s)) (rebound (b_task_id b) (disposed settle) (cs_bindings s))"
    by (rule dispose_Inr [OF res ok])
  let ?as = "disposed_announcements settle ann (cs_announcements s)"
  let ?bs = "rebound (b_task_id b) (disposed settle) (cs_bindings s)"
  let ?t = "submitted s (disposal_kind settle) p (di_key i) (b_task_id b) (disposal_hash sha p i settle) ?as ?bs"
  have i: "key_ok (di_key i)" "entity_ok (b_task_id b)"
    using input b(2) by (simp_all add: disposition_ok_def internal_key_ok_def)
  have hash: "parent_ok (disposal_hash sha p i settle)" unfolding disposal_hash_def by (rule submission_hash_ok [OF hex])
  have binding: "binding_event (submitted_event s (disposal_kind settle) q k j h)" for q k j h
    by (simp add: binding_event_def disposal_kind_def)
  show ?thesis
    unfolding t
  proof (rule submitted_accepted [OF sub new cap [unfolded t] i hash])
    show "list_ok (lim_works (cs_limits s)) announcement_ok an_id ?as"
    proof (cases ann)
      case (Some a)
      have "announcement_ok (disposed_announcement settle z)" if z: "z \<in> set (cs_announcements s)" "an_id z = an_id a" for z
      proof -
        have "an_task_id a = Some (b_task_id b) \<and> a \<in> set (cs_announcements s)"
          using disposition_announcement_Inr [OF ok ann] Some by auto
        moreover from this have "z = a" using unique_by_inj [OF control_unique(4) [OF ok] z(1) _ z(2)] by blast
        ultimately show ?thesis
          using control_members(7) [OF ok z(1)] announcement_counter [OF ok z(1) max]
          by (simp add: announcement_ok_def disposed_announcement_def)
      qed
      then show ?thesis
        using changed_announcements_ok [OF old_lists(1) [OF ok] keeps_disposed(2)] by (simp add: disposed_announcements_def Some)
    qed (use old_lists(1) [OF ok] in \<open>simp add: disposed_announcements_def\<close>)
    have "binding_ok sha (disposed settle z)" if z: "z \<in> set (cs_bindings s)" "b_task_id z = b_task_id b" for z
    proof -
      have "z = b" by (rule unique_by_inj [OF control_unique(5) [OF ok] z(1) b(1) z(2)])
      with control_members(8) [OF ok b(1)] b(4) show ?thesis by (simp add: binding_ok_def disposed_def binding_link_def)
    qed
    then show "list_ok (lim_receipts (cs_limits s)) (binding_ok sha) b_task_id ?bs"
      by (rule rebound_ok [OF old_lists(2) [OF ok] keeps_disposed(1)])
    show "an_id ` set (cs_announcements s) \<subseteq> an_id ` set ?as" by (simp add: disposed_announcements_simps)
    show ids: "b_task_id ` set (cs_bindings s) \<subseteq> b_task_id ` set ?bs" by (simp only: rebound_ids [OF keeps_disposed(1)] order_refl)
    show "event_subject_ok ?t (submitted_event s (disposal_kind settle) p (di_key i) (b_task_id b) (disposal_hash sha p i settle))"
      using ids b(1) binding unfolding event_subject_ok_def by (simp only: submitted_fields submitted_event_fields if_True) blast
    show "unique_by (\<lambda>b. owner_key (b_owner b) (b_request_key b)) (filter (\<lambda>b. b_state b \<noteq> Released) ?bs)"
    proof (rule rebound_keys [OF keeps_disposed(1) _ old_keys [OF ok]])
      fix z assume z: "z \<in> set (cs_bindings s)" "b_task_id z = b_task_id b"
      show "b_state z \<noteq> Released" using unique_by_inj [OF control_unique(5) [OF ok] z(1) b(1) z(2)] b(4) by simp
    qed
  next
    fix y assume "y \<in> set ?as"
    then show "announcement_history_ok ?t y" by (rule dispose_announcements_history [OF ok subj b(1) ann])
  next
    fix y assume y: "y \<in> set ?bs"
    have "binding_kinds (b_state (disposed settle b)) = binding_kinds (b_state b) @ [disposal_kind settle]"
      by (simp add: b(4) disposed_def disposal_kind_def binding_kinds_def)
    then show "binding_history_ok ?t y"
      using rebound_history [OF ok keeps_disposed(1) b(1) binding _ disposed_announcements_simps(2) y] by (simp only: b(3))
  qed
qed

section \<open>Terminal evidence\<close>

lemma keeps_ended: "keeps_binding (ended e)"
  by (simp add: keeps_binding_def ended_def same_link_def)

definition terminal_hash :: "(string \<Rightarrow> string) \<Rightarrow> string \<Rightarrow> terminal_input \<Rightarrow> string" where
  "terminal_hash sha p i = submission_hash sha p ''terminal'' (terminal_input_json i)"

lemma named_binding_base:
  assumes "control_ok sha s" and "named_binding s p i = Inr b"
  shows "b \<in> set (cs_bindings s)" "b_task_id b = di_task_id i" "b_owner b = p"
    "b_request_key b = di_request_key i" "b_link_hash b = di_link_hash i"
  using find_binding_iff [OF assms(1)] assms(2) by (auto simp: named_binding_def split: option.splits if_splits)

lemma terminal_Inr:
  assumes "terminalSubmissionBinding sha s p i = Inr (Publication t x)" and ok: "control_ok sha s"
  obtains b where "b \<in> set (cs_bindings s)" "b_task_id b = di_task_id i" "b_owner b = p" "b_state b = Settled"
    "x = ended (ti_terminal i) b" "key_unused s p (di_key i)" "checkCapacity t = Inr ()"
    "t = submitted s Ev_terminal p (di_key i) (b_task_id b) (terminal_hash sha p i)
       (cs_announcements s) (rebound (b_task_id b) (ended (ti_terminal i)) (cs_bindings s))"
proof -
  from assms(1) obtain b where b: "named_binding s p i = Inr b" "b_state b = Settled" "x = ended (ti_terminal i) b"
    "key_unused s p (di_key i)" "checkCapacity t = Inr ()"
    and t: "t = appendSubmissionEvent (change_binding (b_task_id b) (ended (ti_terminal i)) (submissionState s))
        Ev_terminal p (di_key i) (b_task_id b) (terminal_hash sha p i)"
    by (auto simp: terminalSubmissionBinding_def Let_def andThen_Inr_iff replayed_Retained checked_publication_Inr guard_fail_Inr
        terminal_hash_def dest: sameSubmissionKey_None split: option.splits)
  have "t = submitted s Ev_terminal p (di_key i) (b_task_id b) (terminal_hash sha p i)
       (cs_announcements s) (rebound (b_task_id b) (ended (ti_terminal i)) (cs_bindings s))"
    unfolding t using update_first_map_key [OF unique_byD [OF control_unique(5) [OF ok]]]
    by (simp add: appendSubmissionEvent_def change_binding_def submissionState_max submitted_def)
  with b named_binding_base [OF ok b(1)] show thesis by (intro that [of b]) auto
qed

lemma link_ended:
  assumes ok: "control_ok sha s" and b: "b \<in> set (cs_bindings s)" "b_state b = Settled" and a: "a \<in> set (cs_announcements s)"
  shows "announcement_link_ok (submitted s kind p key item h as (rebound (b_task_id b) (ended e) (cs_bindings s))) a"
    (is "announcement_link_ok ?t a")
proof (cases "(an_state a = Bound_ann \<or> an_state a = Linked) \<and> an_task_id a = Some (b_task_id b)")
  case True
  then obtain r where r: "b_announcement b = Some r" "ar_id r = an_id a" "ar_revision r \<le> an_revision a"
    "b_owner b = an_owner a" "an_state a = Bound_ann \<longrightarrow> b_state b = Bound"
    using linked_announcement [OF ok a _ _ b(1)] by blast
  have "find_binding s (b_task_id b) = Some b" using find_binding_iff [OF ok] b by simp
  then have "find_binding ?t (b_task_id b) = Some (ended e b)"
    using find_rebound [OF keeps_ended [of e], of ?t "b_task_id b" s "b_task_id b"] by simp
  with True r b(2) show ?thesis unfolding announcement_link_ok_def link_by_task by (auto simp: ended_def)
next
  case False
  then show ?thesis by (intro link_rebound [OF keeps_ended old_link [OF ok a]]) blast
qed

theorem terminal_accepted:
  assumes sub: "submitting sha s p" and input: "disposition_ok i" "terminal_ok (ti_terminal i)"
    and res: "terminalSubmissionBinding sha s p i = Inr (Publication t x)"
  shows "control_ok sha t \<and> event_subjects_ok t"
proof -
  from sub have ok: "control_ok sha s" and subj: "event_subjects_ok s" and hex: "sha_hex sha"
    and max: "int (cs_revision s + 1) \<le> MAX_SAFE_INTEGER" by (simp_all add: submitting_def)
  obtain b where b: "b \<in> set (cs_bindings s)" "b_task_id b = di_task_id i" "b_owner b = p" "b_state b = Settled"
    and new: "key_unused s p (di_key i)" and cap: "checkCapacity t = Inr ()"
    and t: "t = submitted s Ev_terminal p (di_key i) (b_task_id b) (terminal_hash sha p i)
       (cs_announcements s) (rebound (b_task_id b) (ended (ti_terminal i)) (cs_bindings s))"
    by (rule terminal_Inr [OF res ok])
  let ?f = "ended (ti_terminal i)"
  let ?bs = "rebound (b_task_id b) ?f (cs_bindings s)"
  let ?t = "submitted s Ev_terminal p (di_key i) (b_task_id b) (terminal_hash sha p i) (cs_announcements s) ?bs"
  have i: "key_ok (di_key i)" "entity_ok (b_task_id b)"
    using input b(2) by (simp_all add: disposition_ok_def internal_key_ok_def)
  have hash: "parent_ok (terminal_hash sha p i)" unfolding terminal_hash_def by (rule submission_hash_ok [OF hex])
  have same: "z = b" if "z \<in> set (cs_bindings s)" "b_task_id z = b_task_id b" for z
    by (rule unique_by_inj [OF control_unique(5) [OF ok] that(1) b(1) that(2)])
  have binding: "binding_event (submitted_event s Ev_terminal q k j h)" for q k j h by (simp add: binding_event_def)
  show ?thesis
    unfolding t
  proof (rule submitted_accepted [OF sub new cap [unfolded t] i hash old_lists(1) [OF ok]])
    show "list_ok (lim_receipts (cs_limits s)) (binding_ok sha) b_task_id ?bs"
    proof (rule rebound_ok [OF old_lists(2) [OF ok] keeps_ended])
      fix z assume "z \<in> set (cs_bindings s)" "b_task_id z = b_task_id b"
      then have "z = b" by (rule same)
      with control_members(8) [OF ok b(1)] input(2) show "binding_ok sha (?f z)"
        by (simp add: binding_ok_def ended_def binding_link_def)
    qed
    show "an_id ` set (cs_announcements s) \<subseteq> an_id ` set (cs_announcements s)" by simp
    show ids: "b_task_id ` set (cs_bindings s) \<subseteq> b_task_id ` set ?bs" by (simp only: rebound_ids [OF keeps_ended] order_refl)
    show "event_subject_ok ?t (submitted_event s Ev_terminal p (di_key i) (b_task_id b) (terminal_hash sha p i))"
      using ids b(1) binding unfolding event_subject_ok_def by (simp only: submitted_fields submitted_event_fields if_True) blast
    show "unique_by (\<lambda>b. owner_key (b_owner b) (b_request_key b)) (filter (\<lambda>b. b_state b \<noteq> Released) ?bs)"
      by (rule rebound_keys [OF keeps_ended _ old_keys [OF ok]]) (drule (1) same, simp add: b(4))
  next
    fix y assume y: "y \<in> set (cs_announcements s)"
    show "announcement_history_ok ?t y"
      by (rule other_announcement [OF ok subj links_changed [OF keeps_ended] y _ link_ended [OF ok b(1,4) y]])
         (simp add: concerns_def)
  next
    fix y assume y: "y \<in> set ?bs"
    have "binding_kinds (b_state (?f b)) = binding_kinds (b_state b) @ [Ev_terminal]"
      by (simp add: b(4) ended_def binding_kinds_def)
    then show "binding_history_ok ?t y"
      using rebound_history [OF ok keeps_ended b(1) binding _ _ y] by (simp only: b(3)) blast
  qed
qed

end
