(* ===== verification/Submission_Follow.thy ===== *)
theory Submission_Follow
  imports Submission_Ends Control_Follow
begin

text \<open>
  Every submission operation yields a record that may follow its predecessor
  (\<open>assertControlTransition\<close>), and answers a repeated key from its retained event.
\<close>

section \<open>The frame of a submission publication\<close>

lemma submitted_follows:
  assumes ok: "control_ok sha s"
    and step: "assertSubmissionTransition sha s (submitted s kind p key item h as bs) (submitted_event s kind p key item h)"
  shows "assertControlTransition sha s (submitted s kind p key item h as bs) = Inr ()"
proof -
  let ?t = "submitted s kind p key item h as bs"
  have none: "appended_action s ?t a = None" for a by (simp add: appended_action_def appended_receipt_def)
  have [simp]: "cs_epoch ?t = cs_epoch s" "cs_repository_id ?t = cs_repository_id s" "cs_recoveries ?t = cs_recoveries s"
    "cs_schema ?t = max SUBMISSION_CONTROL_SCHEMA (cs_schema s)"
    by (simp_all add: submitted_def)
  have works: "work_transition_ok sha s ?t None w" if w: "w \<in> set (cs_works s)" for w
    using find_work_iff [OF ok, of "w_id w" w] w none work_identity_refl [of w]
    by (simp add: work_transition_ok_def find_work_def)
  have cases: "case_transition sha s ?t None c = Inr ()" if c: "c \<in> set (cs_cases s)" for c
    using find_case_iff [OF ok, of "c_id c" c] c none
    by (simp add: case_transition_def find_case_def case_identity_ok_def)
  have kept: "note_transition_ok ?t n" if n: "n \<in> set (cs_notes s)" for n
    using find_note_iff [OF ok] n by (intro note_transition_same) (simp add: find_note_def)
  show ?thesis
    unfolding assertControlTransition_def Let_def
    using step works cases kept
    by (simp add: submitted_events none enrollment_transition_ok_def source_transition_ok_def
        guard_fail_Inr andThen_Inr_iff each_res_okI)
qed

section \<open>The operations\<close>

lemma announce_follows:
  assumes ok: "control_ok sha s" and res: "announce sha s p i = Inr (Publication t x)"
  shows "assertControlTransition sha s t = Inr ()"
  unfolding announce_Inr(1) [OF res]
  by (rule submitted_follows [OF ok])
     (simp add: assertSubmissionTransition_def Let_def has_submissions_def submitted_def new_announcement_def)

lemma withdraw_follows:
  assumes ok: "control_ok sha s" and res: "withdrawAnnouncement sha s p i = Inr (Publication t x)"
  shows "assertControlTransition sha s t = Inr ()"
proof -
  obtain a where a: "a \<in> set (cs_announcements s)" "an_owner a = p" "an_state a = Unresolved"
    and t: "t = submitted s Ev_withdraw p (wi_key i) (an_id a) (submission_hash sha p ''withdraw'' (withdrawal_input_json i))
       (map (\<lambda>y. if an_id y = an_id a then withdrawn_announcement y else y) (cs_announcements s)) (cs_bindings s)"
    by (rule withdraw_Inr [OF res ok])
  have "List.find (\<lambda>y. an_id y = an_id a) (cs_announcements s) = Some a"
    using find_announcement_iff [OF ok] a(1) by (simp add: find_announcement_def)
  moreover have "withdrawn_announcement y = y\<lparr>an_revision := an_revision y + 1, an_state := Withdrawn_ann\<rparr>" for y
    by (simp add: withdrawn_announcement_def)
  ultimately show ?thesis
    unfolding t
    by (intro submitted_follows [OF ok])
       (simp add: assertSubmissionTransition_def Let_def has_submissions_def submitted_def a cong: if_cong)
qed

lemma bind_follows:
  assumes ok: "control_ok sha s" and res: "bindSubmission sha s p i = Inr (Publication t x)"
  shows "assertControlTransition sha s t = Inr ()"
proof -
  obtain d ov ann where ann: "bound_to_announcement sha s p i = Inr ann"
    and t: "t = submitted s Ev_bind p (bi_key i) (bi_task_id i) (submission_hash sha p ''bind'' (bind_input_json i))
       (bound_announcements (bi_task_id i) ann (cs_announcements s)) (cs_bindings s @ [new_binding sha p i d])"
    by (rule bind_Inr [OF res ok])
  let ?t = "bi_task_id i"
  have upd: "bound_announcement ?t y = y\<lparr>an_revision := an_revision y + 1, an_state := Bound_ann, an_task_id := Some ?t\<rparr>" for y
    by (simp add: bound_announcement_def)
  from bound_to_announcement_Inr [OF ann] have step:
    "bound_announcements ?t ann (cs_announcements s)
      = map (\<lambda>a. if Some (an_id a) = map_option ar_id (pf_announcement i)
          then a\<lparr>an_revision := an_revision a + 1, an_state := Bound_ann, an_task_id := Some ?t\<rparr> else a) (cs_announcements s)
     \<and> (case pf_announcement i of None \<Rightarrow> True | Some r \<Rightarrow>
          \<exists>a \<in> set (cs_announcements s). an_id a = ar_id r \<and> an_owner a = p \<and> an_state a = Unresolved \<and> an_revision a = ar_revision r)"
    using find_announcement_iff [OF ok] by (auto simp: bound_announcements_def upd)
  show ?thesis
    unfolding t
    by (rule submitted_follows [OF ok])
       (use step in \<open>simp add: assertSubmissionTransition_def Let_def has_submissions_def submitted_def new_binding_def
          cong: if_cong option.case_cong\<close>)
qed

lemma dispose_follows:
  assumes ok: "control_ok sha s" and res: "disposeSubmission sha s p i settle = Inr (Publication t x)"
  shows "assertControlTransition sha s t = Inr ()"
proof -
  obtain b ann where b: "b \<in> set (cs_bindings s)" "b_owner b = p" "b_state b = Bound"
    and ann: "disposition_announcement s p b = Inr ann"
    and t: "t = submitted s (disposal_kind settle) p (di_key i) (b_task_id b) (disposal_hash sha p i settle)
       (disposed_announcements settle ann (cs_announcements s)) (rebound (b_task_id b) (disposed settle) (cs_bindings s))"
    by (rule dispose_Inr [OF res ok])
  have find: "List.find (\<lambda>z. b_task_id z = b_task_id b) (cs_bindings s) = Some b"
    using find_binding_iff [OF ok] b(1) by (simp add: find_binding_def)
  have change: "disposed_announcement settle a = (if settle then a\<lparr>an_revision := an_revision a + 1, an_state := Linked\<rparr>
      else a\<lparr>an_revision := an_revision a + 1, an_state := Unresolved, an_task_id := None\<rparr>)" for a
    by (simp add: disposed_announcement_def)
  have anns: "disposed_announcements settle ann (cs_announcements s)
      = map (\<lambda>a. if Some (an_id a) = map_option ar_id (b_announcement b)
          then (if settle then a\<lparr>an_revision := an_revision a + 1, an_state := Linked\<rparr>
                else a\<lparr>an_revision := an_revision a + 1, an_state := Unresolved, an_task_id := None\<rparr>) else a) (cs_announcements s)"
    using disposition_announcement_Inr [OF ok ann] by (auto simp: disposed_announcements_def change)
  show ?thesis
    unfolding t
    by (rule submitted_follows [OF ok], unfold anns, cases settle)
       (use find b(2,3) in \<open>simp_all add: assertSubmissionTransition_def Let_def has_submissions_def submitted_def
          disposal_kind_def disposed_def cong: if_cong\<close>)
qed

lemma terminal_follows:
  assumes ok: "control_ok sha s" and res: "terminalSubmissionBinding sha s p i = Inr (Publication t x)"
  shows "assertControlTransition sha s t = Inr ()"
proof -
  obtain b where b: "b \<in> set (cs_bindings s)" "b_owner b = p" "b_state b = Settled"
    and t: "t = submitted s Ev_terminal p (di_key i) (b_task_id b) (terminal_hash sha p i)
       (cs_announcements s) (rebound (b_task_id b) (ended (ti_terminal i)) (cs_bindings s))"
    by (rule terminal_Inr [OF res ok])
  have find: "find_binding s (b_task_id b) = Some b" using find_binding_iff [OF ok] b(1) by simp
  then have found: "List.find (\<lambda>z. b_task_id z = b_task_id b) (rebound (b_task_id b) (ended (ti_terminal i)) (cs_bindings s))
      = Some (ended (ti_terminal i) b)"
    using find_map_upd_same [of b_task_id "ended (ti_terminal i)" "b_task_id b" "cs_bindings s"]
    by (simp add: find_binding_def ended_def)
  show ?thesis
    unfolding t
    by (rule submitted_follows [OF ok])
       (use find found b(2,3) in \<open>simp add: assertSubmissionTransition_def Let_def has_submissions_def submitted_def find_binding_def ended_def
          cong: if_cong\<close>)
qed

end
