(* ===== verification/Submission_Service.thy ===== *)
theory Submission_Service
  imports Submission_Follow
begin

text \<open>
  The submission operations as they are requested (src/src/coordination/control.ts, lines 60
  to 219): the actor and the raw input are decoded, the operation runs on the stored record,
  and a repeated request is answered from its retained event.
\<close>

section \<open>Requests\<close>

datatype submission_request =
    Announce_request jval
  | Withdraw_request jval
  | Bind_request jval
  | Settle_request jval
  | Release_request jval
  | Terminal_request jval

datatype submission_item = Announcement_item announcement | Binding_item binding

definition item_identity :: "submission_item \<Rightarrow> string" where
  "item_identity x = (case x of Announcement_item a \<Rightarrow> an_id a | Binding_item b \<Rightarrow> b_task_id b)"

definition requested :: "('a \<Rightarrow> submission_item) \<Rightarrow> 'a outcome_of res \<Rightarrow> submission_item outcome_of res" where
  "requested f x = andThen x (\<lambda>y. Inr (map_outcome_of f y))"

definition announce_request :: "(string \<Rightarrow> string) \<Rightarrow> control_state \<Rightarrow> string \<Rightarrow> jval \<Rightarrow> announcement outcome_of res" where
  "announce_request sha s owner raw =
     andThen (decodeAnnouncementInput raw) (\<lambda>i.
     andThen (guard_fail (owner \<in> set (ai_readers i)) INVALID) (\<lambda>_. announce sha s owner i))"

definition submission_operation :: "(string \<Rightarrow> string) \<Rightarrow> control_state \<Rightarrow> jval \<Rightarrow> submission_request \<Rightarrow> submission_item outcome_of res" where
  "submission_operation sha s actor req =
     andThen (parentId actor) (\<lambda>owner.
     case req of
       Announce_request v \<Rightarrow> requested Announcement_item (announce_request sha s owner v)
     | Withdraw_request v \<Rightarrow> requested Announcement_item
         (andThen (decodeAnnouncementWithdrawalInput v) (withdrawAnnouncement sha s owner))
     | Bind_request v \<Rightarrow> requested Binding_item (andThen (decodeSubmissionBindInput v) (bindSubmission sha s owner))
     | Settle_request v \<Rightarrow> requested Binding_item (andThen (decodeSubmissionDispositionInput v) (settleSubmission sha s owner))
     | Release_request v \<Rightarrow> requested Binding_item (andThen (decodeSubmissionDispositionInput v) (releaseUnadmittedBinding sha s owner))
     | Terminal_request v \<Rightarrow> requested Binding_item (andThen (decodeSubmissionTerminalInput v) (terminalSubmissionBinding sha s owner)))"

definition preflight :: "(string \<Rightarrow> string) \<Rightarrow> control_state \<Rightarrow> jval \<Rightarrow> jval \<Rightarrow> (string \<times> overlap_entry list) res" where
  "preflight sha s actor raw =
     andThen (parentId actor) (\<lambda>owner. andThen (decodeSubmissionPreflightInput raw) (submissionDecision sha s owner))"

lemma requested_Inr:
  "(requested f x = Inr (Publication t y)) = (\<exists>z. x = Inr (Publication t z) \<and> y = f z)"
  "(requested f x = Inr (Retained y)) = (\<exists>z. x = Inr (Retained z) \<and> y = f z)"
  by (auto simp: requested_def andThen_Inr_iff elim!: outcome_of.set_cases split: outcome_of.splits)
     (metis outcome_of.exhaust outcome_of.map outcome_of.distinct outcome_of.inject)+

section \<open>Publications\<close>

lemma decodeAnnouncementWithdrawalInput_sound:
  "decodeAnnouncementWithdrawalInput v = Inr i \<Longrightarrow> public_key_ok (wi_key i) \<and> entity_ok (wi_id i)"
  by (auto simp: decodeAnnouncementWithdrawalInput_def res_simps)

text \<open>What a request must find: the room that \<open>checkCapacity\<close> does not measure.\<close>

definition announcement_room :: "control_state \<Rightarrow> submission_request \<Rightarrow> bool" where
  "announcement_room s req =
     (case req of Announce_request _ \<Rightarrow> length (cs_announcements s) < lim_works (cs_limits s) | _ \<Rightarrow> True)"

lemma operation_accepted:
  assumes ok: "control_ok sha s" "event_subjects_ok s" "sha_hex sha" "int (cs_revision s + 1) \<le> MAX_SAFE_INTEGER"
    and room: "announcement_room s req"
    and res: "submission_operation sha s actor req = Inr (Publication t x)"
  shows "control_ok sha t \<and> event_subjects_ok t"
proof -
  from res obtain p where p: "parentId actor = Inr p" by (auto simp: submission_operation_def andThen_Inr_iff)
  then have sub: "submitting sha s p" using ok by (simp add: submitting_def identity_Inr)
  note facts = submission_operation_def p andThen_Inr_iff requested_Inr
  show ?thesis
  proof (cases req)
    case (Announce_request v)
    with res obtain i z where "decodeAnnouncementInput v = Inr i" "p \<notin> set (ai_readers i)"
      "announce sha s p i = Inr (Publication t z)"
      by (auto simp: facts announce_request_def guard_fail_Inr)
    then show ?thesis
      using announce_accepted [OF sub decodeAnnouncementInput_sound] room by (simp add: announcement_room_def Announce_request)
  next
    case (Withdraw_request v)
    with res obtain i z where "decodeAnnouncementWithdrawalInput v = Inr i" "withdrawAnnouncement sha s p i = Inr (Publication t z)"
      by (auto simp: facts)
    then show ?thesis using withdraw_accepted [OF sub _ _] decodeAnnouncementWithdrawalInput_sound by blast
  next
    case (Bind_request v)
    with res obtain i z where "decodeSubmissionBindInput v = Inr i" "bindSubmission sha s p i = Inr (Publication t z)"
      by (auto simp: facts)
    then show ?thesis using bind_accepted [OF sub] decodeSubmissionBindInput_sound by blast
  next
    case (Settle_request v)
    with res obtain i z where "decodeSubmissionDispositionInput v = Inr i" "disposeSubmission sha s p i True = Inr (Publication t z)"
      by (auto simp: facts settleSubmission_def)
    then show ?thesis using dispose_accepted [OF sub] decodeSubmissionDispositionInput_sound by blast
  next
    case (Release_request v)
    with res obtain i z where "decodeSubmissionDispositionInput v = Inr i" "disposeSubmission sha s p i False = Inr (Publication t z)"
      by (auto simp: facts releaseUnadmittedBinding_def)
    then show ?thesis using dispose_accepted [OF sub] decodeSubmissionDispositionInput_sound by blast
  next
    case (Terminal_request v)
    with res obtain i z where "decodeSubmissionTerminalInput v = Inr i" "terminalSubmissionBinding sha s p i = Inr (Publication t z)"
      by (auto simp: facts)
    then show ?thesis using terminal_accepted [OF sub] decodeSubmissionTerminalInput_sound by blast
  qed
qed

lemma operation_follows:
  assumes ok: "control_ok sha s" and res: "submission_operation sha s actor req = Inr (Publication t x)"
  shows "assertControlTransition sha s t = Inr ()"
proof -
  from res obtain p where p: "parentId actor = Inr p" by (auto simp: submission_operation_def andThen_Inr_iff)
  with res show ?thesis
    by (cases req)
       (auto simp: submission_operation_def andThen_Inr_iff requested_Inr announce_request_def settleSubmission_def
          releaseUnadmittedBinding_def
        intro: announce_follows [OF ok] withdraw_follows [OF ok] bind_follows [OF ok] dispose_follows [OF ok] terminal_follows [OF ok])
qed

section \<open>Replays\<close>

lemma retained_key:
  assumes ok: "control_ok sha u" and e: "e \<in> set (cs_events u)" "ev_owner e = p" "ev_key e = k" "ev_request_hash e = h"
    and key: "\<not> starts_with k WORKER_PEER_KEY_PREFIX"
  shows "sameSubmissionKey u p k h = Inr (Some e)"
proof -
  let ?n = "\<lambda>e. owner_key (ev_owner e) (ev_key e)"
  have names: "unique_by (\<lambda>x. x) (operation_names u)" using control_okD(2) [OF ok] by (simp add: version_features_ok_def)
  then have events: "unique_by ?n (cs_events u)" by (simp add: operation_names_def unique_by_def)
  have mem: "owner_key p k \<in> ?n ` set (cs_events u)" using e by force
  from names mem have other: "owner_key p k \<notin> (\<lambda>r. owner_key (rc_owner r) (rc_key r)) ` set (cs_receipts u)"
    "owner_key p k \<notin> (\<lambda>r. owner_key (rr_operator r) (rv_operation_key (rr_command r))) ` set (cs_recoveries u)"
    by (auto simp: operation_names_def unique_by_def)
  obtain x where x: "List.find (\<lambda>e. ev_owner e = p \<and> ev_key e = k) (cs_events u) = Some x"
    using find_not_None [OF e(1), of "\<lambda>e. ev_owner e = p \<and> ev_key e = k"] e(2,3) by blast
  then have "x \<in> set (cs_events u)" "?n x = ?n e" using e(2,3) by (auto dest!: find_SomeD)
  then have "x = e" using unique_by_inj [OF events _ e(1)] by blast
  with x other key e(4) show ?thesis by (auto simp: sameSubmissionKey_def)
qed

lemma retained_after:
  assumes ok: "control_ok sha u" and subj: "event_subjects_ok u"
    and pre: "prefix (cs_events (submitted s kind p key item h as bs)) (cs_events u)"
    and key: "\<not> starts_with key WORKER_PEER_KEY_PREFIX"
  shows "sameSubmissionKey u p key h = Inr (Some (submitted_event s kind p key item h))"
    "event_subject_ok u (submitted_event s kind p key item h)"
proof -
  have e: "submitted_event s kind p key item h \<in> set (cs_events u)"
    using pre by (auto simp: submitted_events dest: set_mono_prefix)
  show "sameSubmissionKey u p key h = Inr (Some (submitted_event s kind p key item h))"
    by (rule retained_key [OF ok e _ _ _ key]) simp_all
  show "event_subject_ok u (submitted_event s kind p key item h)" using subj e by (simp add: event_subjects_ok_def)
qed

lemma retained_announcement:
  assumes "event_subject_ok u (submitted_event s kind p key item h)" and "kind = Ev_announce \<or> kind = Ev_withdraw"
  shows "\<exists>a. find_announcement u item = Some a \<and> an_id a = item"
proof -
  from assms obtain a where "a \<in> set (cs_announcements u)" "an_id a = item"
    by (auto simp: event_subject_ok_def binding_event_def)
  then show ?thesis using find_not_None [of a "cs_announcements u" "\<lambda>a. an_id a = item"] by (auto simp: find_announcement_def dest: find_SomeD)
qed

lemma retained_binding:
  assumes "event_subject_ok u (submitted_event s kind p key item h)"
    and "kind = Ev_bind \<or> kind = Ev_settle \<or> kind = Ev_release \<or> kind = Ev_terminal"
  shows "\<exists>b. find_binding u item = Some b \<and> b_task_id b = item"
proof -
  from assms obtain b where "b \<in> set (cs_bindings u)" "b_task_id b = item"
    by (auto simp: event_subject_ok_def binding_event_def)
  then show ?thesis using find_not_None [of b "cs_bindings u" "\<lambda>b. b_task_id b = item"] by (auto simp: find_binding_def dest: find_SomeD)
qed

lemma not_reserved:
  "announce sha s p ai = Inr y1 \<Longrightarrow> \<not> starts_with (ai_key ai) WORKER_PEER_KEY_PREFIX"
  "withdrawAnnouncement sha s p wi = Inr y1 \<Longrightarrow> \<not> starts_with (wi_key wi) WORKER_PEER_KEY_PREFIX"
  "bindSubmission sha s p bi = Inr y2 \<Longrightarrow> \<not> starts_with (bi_key bi) WORKER_PEER_KEY_PREFIX"
  "disposeSubmission sha s p di settle = Inr y2 \<Longrightarrow> \<not> starts_with (di_key di) WORKER_PEER_KEY_PREFIX"
  "terminalSubmissionBinding sha s p ti = Inr y2 \<Longrightarrow> \<not> starts_with (di_key ti) WORKER_PEER_KEY_PREFIX"
  by (auto simp: announce_def withdrawAnnouncement_def bindSubmission_def disposeSubmission_def terminalSubmissionBinding_def
      Let_def andThen_Inr_iff sameSubmissionKey_def)

lemma announce_replays:
  assumes "control_ok sha u" and "event_subjects_ok u" and res: "announce sha s p i = Inr (Publication t x)"
    and pre: "prefix (cs_events t) (cs_events u)"
  shows "\<exists>y. announce sha u p i = Inr (Retained y) \<and> an_id y = an_id x"
proof -
  note after = retained_after [OF assms(1,2) pre [unfolded announce_Inr(1) [OF res]] not_reserved(1) [OF res]]
  from retained_announcement [OF after(2)] obtain a where "find_announcement u (ai_id i) = Some a" "an_id a = ai_id i" by blast
  with after(1) announce_Inr(6) [OF res] show ?thesis
    by (simp add: announce_def Let_def replayed_def new_announcement_def)
qed

lemma withdraw_replays:
  assumes "control_ok sha u" and "event_subjects_ok u" and ok: "control_ok sha s"
    and res: "withdrawAnnouncement sha s p i = Inr (Publication t x)" and pre: "prefix (cs_events t) (cs_events u)"
  shows "\<exists>y. withdrawAnnouncement sha u p i = Inr (Retained y) \<and> an_id y = an_id x"
proof -
  obtain a where a: "x = withdrawn_announcement a"
    and t: "t = submitted s Ev_withdraw p (wi_key i) (an_id a) (submission_hash sha p ''withdraw'' (withdrawal_input_json i))
       (map (\<lambda>y. if an_id y = an_id a then withdrawn_announcement y else y) (cs_announcements s)) (cs_bindings s)"
    by (rule withdraw_Inr [OF res ok])
  note after = retained_after [OF assms(1,2) pre [unfolded t] not_reserved(2) [OF res]]
  from retained_announcement [OF after(2)] obtain b where "find_announcement u (an_id a) = Some b" "an_id b = an_id a" by blast
  with after(1) a show ?thesis by (simp add: withdrawAnnouncement_def Let_def replayed_def withdrawn_announcement_def)
qed

lemma bind_replays:
  assumes "control_ok sha u" and "event_subjects_ok u" and ok: "control_ok sha s"
    and res: "bindSubmission sha s p i = Inr (Publication t x)" and pre: "prefix (cs_events t) (cs_events u)"
  shows "\<exists>y. bindSubmission sha u p i = Inr (Retained y) \<and> b_task_id y = b_task_id x"
proof -
  obtain d ov ann where x: "x = new_binding sha p i d"
    and t: "t = submitted s Ev_bind p (bi_key i) (bi_task_id i) (submission_hash sha p ''bind'' (bind_input_json i))
       (bound_announcements (bi_task_id i) ann (cs_announcements s)) (cs_bindings s @ [new_binding sha p i d])"
    by (rule bind_Inr [OF res ok])
  note after = retained_after [OF assms(1,2) pre [unfolded t] not_reserved(3) [OF res]]
  from retained_binding [OF after(2)] obtain b where "find_binding u (bi_task_id i) = Some b" "b_task_id b = bi_task_id i" by blast
  with after(1) x show ?thesis by (simp add: bindSubmission_def Let_def replayed_def new_binding_def)
qed

lemma dispose_replays:
  assumes "control_ok sha u" and "event_subjects_ok u" and ok: "control_ok sha s"
    and res: "disposeSubmission sha s p i settle = Inr (Publication t x)" and pre: "prefix (cs_events t) (cs_events u)"
  shows "\<exists>y. disposeSubmission sha u p i settle = Inr (Retained y) \<and> b_task_id y = b_task_id x"
proof -
  obtain b ann where x: "x = disposed settle b"
    and t: "t = submitted s (disposal_kind settle) p (di_key i) (b_task_id b) (disposal_hash sha p i settle)
       (disposed_announcements settle ann (cs_announcements s)) (rebound (b_task_id b) (disposed settle) (cs_bindings s))"
    by (rule dispose_Inr [OF res ok])
  note after = retained_after [OF assms(1,2) pre [unfolded t] not_reserved(4) [OF res]]
  from retained_binding [OF after(2)] obtain y where "find_binding u (b_task_id b) = Some y" "b_task_id y = b_task_id b"
    by (cases settle) (auto simp: disposal_kind_def)
  with after(1) x show ?thesis
    by (simp add: disposeSubmission_def Let_def replayed_def disposed_def disposal_hash_def disposal_kind_def)
qed

lemma terminal_replays:
  assumes "control_ok sha u" and "event_subjects_ok u" and ok: "control_ok sha s"
    and res: "terminalSubmissionBinding sha s p i = Inr (Publication t x)" and pre: "prefix (cs_events t) (cs_events u)"
  shows "\<exists>y. terminalSubmissionBinding sha u p i = Inr (Retained y) \<and> b_task_id y = b_task_id x"
proof -
  obtain b where x: "x = ended (ti_terminal i) b"
    and t: "t = submitted s Ev_terminal p (di_key i) (b_task_id b) (terminal_hash sha p i)
       (cs_announcements s) (rebound (b_task_id b) (ended (ti_terminal i)) (cs_bindings s))"
    by (rule terminal_Inr [OF res ok])
  note after = retained_after [OF assms(1,2) pre [unfolded t] not_reserved(5) [OF res]]
  from retained_binding [OF after(2)] obtain y where "find_binding u (b_task_id b) = Some y" "b_task_id y = b_task_id b" by blast
  with after(1) x show ?thesis by (simp add: terminalSubmissionBinding_def Let_def replayed_def ended_def terminal_hash_def)
qed

lemma operation_replays:
  assumes u: "control_ok sha u" "event_subjects_ok u" and ok: "control_ok sha s"
    and res: "submission_operation sha s actor req = Inr (Publication t x)" and pre: "prefix (cs_events t) (cs_events u)"
  shows "\<exists>y. submission_operation sha u actor req = Inr (Retained y) \<and> item_identity y = item_identity x"
proof -
  from res obtain p where p: "parentId actor = Inr p" by (auto simp: submission_operation_def andThen_Inr_iff)
  note facts = submission_operation_def p andThen_Inr_iff requested_Inr item_identity_def
  note replays = announce_replays [OF u _ pre] withdraw_replays [OF u ok _ pre] bind_replays [OF u ok _ pre]
    dispose_replays [OF u ok _ pre] terminal_replays [OF u ok _ pre]
  show ?thesis
    using res
    by (cases req)
       (fastforce simp: facts announce_request_def settleSubmission_def releaseUnadmittedBinding_def guard_fail_Inr
         dest: replays)+
qed

end
