(* ===== verification/Service_Memory.thy ===== *)
theory Service_Memory
  imports Submission
begin

text \<open>
  What the coordination service keeps beside the stored record
  (src/src/coordination/control.ts, lines 13 to 59, 1023 to 1110, 1322 to 1363): the tasks and
  cases whose authority is changing, the cases reserved for an application, the tasks being
  retired with their versions, and the workers waiting for a change. Every definition is the
  body of one section under the service's mutex, so it runs on the memory and the record as
  one atomic step.
\<close>

section \<open>The state\<close>

record worker_actor =
  wk_owner :: string
  wk_task :: string
  wk_run :: string
  wk_generation :: nat
  wk_workspace :: string
  wk_view :: string
  wk_case :: string

datatype evidence_status = Ev_current | Ev_historical | Ev_unavailable

text \<open>The captured identity of a wait is missing, \<open>null\<close> or a digest.\<close>

record waiter =
  wt_actor :: worker_actor
  wt_after_revision :: nat
  wt_after_generation :: nat
  wt_after_cursor :: "string option"
  wt_fingerprint :: string
  wt_evidence :: "string option option"
  wt_status :: evidence_status
  wt_capture_version :: nat
  wt_checked_version :: int

record service_memory =
  sm_closing :: bool
  sm_versions :: "string \<rightharpoonup> nat"
  sm_retirements :: "string set"
  sm_waiters :: "waiter list"
  sm_observations :: "string \<rightharpoonup> nat"
  sm_refresh :: bool
  sm_transition_tasks :: "string set"
  sm_transition_cases :: "string set"
  sm_application_cases :: "string set"
  sm_epoch :: nat
  sm_external :: "string set"

definition MAX_PEER_WAITERS :: nat where "MAX_PEER_WAITERS = 128"

definition map_value :: "(string \<rightharpoonup> nat) \<Rightarrow> string \<Rightarrow> nat" where
  "map_value m k = (case m k of None \<Rightarrow> 0 | Some n \<Rightarrow> n)"

definition schedulePeerRefresh :: "service_memory \<Rightarrow> service_memory" where
  "schedulePeerRefresh m = (if sm_closing m \<or> sm_waiters m = [] then m else m\<lparr>sm_refresh := True\<rparr>)"

section \<open>Authority in change\<close>

definition managed_task :: "control_state \<Rightarrow> string \<Rightarrow> string option" where
  "managed_task s i = Option.bind (find_work s i) (\<lambda>w. map_option m_task_id (w_managed w))"

definition task_changing :: "service_memory \<Rightarrow> string \<Rightarrow> bool" where
  "task_changing m t = (t \<in> sm_transition_tasks m \<or> t \<in> sm_external m)"

definition assertCaseTransition :: "service_memory \<Rightarrow> control_state \<Rightarrow> case_rec \<Rightarrow> unit res" where
  "assertCaseTransition m s c =
     (if c_id c \<in> sm_application_cases m then fail ''PEER_OPERATION_STALE''
      else guard_fail (c_id c \<in> sm_transition_cases m
          \<or> (\<exists>i \<in> set (c_inputs c). case managed_task s (sel_work_id i) of None \<Rightarrow> False | Some t \<Rightarrow> task_changing m t))
        ''PEER_OPERATION_STALE'')"

definition assertWorkerTransition :: "service_memory \<Rightarrow> worker_actor \<Rightarrow> case_rec \<Rightarrow> control_state \<Rightarrow> unit res" where
  "assertWorkerTransition m a c s =
     andThen (guard_fail (task_changing m (wk_task a)) ''PEER_OPERATION_STALE'') (\<lambda>_. assertCaseTransition m s c)"

text \<open>The active cases that select a work of the task.\<close>

definition affected_cases :: "control_state \<Rightarrow> string \<Rightarrow> string set" where
  "affected_cases s t =
     set (map c_id (filter (\<lambda>c. c_state c = Active \<and> (\<exists>i \<in> set (c_inputs c). managed_task s (sel_work_id i) = Some t)) (cs_cases s)))"

definition waits_for :: "string \<Rightarrow> string set \<Rightarrow> waiter \<Rightarrow> bool" where
  "waits_for t cases w = (wk_task (wt_actor w) = t \<or> wk_case (wt_actor w) \<in> cases)"

text \<open>The two sections of \<open>withWorkerTaskTransition\<close>; the first also returns the waits it rejects.\<close>

definition begin_transition :: "service_memory \<Rightarrow> control_state \<Rightarrow> string \<Rightarrow> (service_memory \<times> string set \<times> waiter list) res" where
  "begin_transition m s t =
     (let cases = affected_cases s t in
      if t \<in> sm_transition_tasks m \<or> (\<exists>i \<in> cases. i \<in> sm_transition_cases m \<or> i \<in> sm_application_cases m)
      then fail ''PEER_OPERATION_STALE''
      else Inr (m\<lparr>sm_transition_tasks := insert t (sm_transition_tasks m),
                 sm_transition_cases := sm_transition_cases m \<union> cases, sm_epoch := sm_epoch m + 1,
                 sm_waiters := filter (\<lambda>w. \<not> waits_for t cases w) (sm_waiters m)\<rparr>,
               cases, filter (waits_for t cases) (sm_waiters m)))"

definition end_transition :: "service_memory \<Rightarrow> string \<Rightarrow> string set \<Rightarrow> service_memory" where
  "end_transition m t cases =
     m\<lparr>sm_transition_tasks := sm_transition_tasks m - {t}, sm_transition_cases := sm_transition_cases m - cases,
       sm_epoch := sm_epoch m + 1\<rparr>"

definition invalidateCancelledTask :: "service_memory \<Rightarrow> control_state \<Rightarrow> string \<Rightarrow> service_memory \<times> waiter list" where
  "invalidateCancelledTask m s t =
     (let cases = affected_cases s t in
      (m\<lparr>sm_epoch := sm_epoch m + 1, sm_waiters := filter (\<lambda>w. \<not> waits_for t cases w) (sm_waiters m)\<rparr>,
       filter (waits_for t cases) (sm_waiters m)))"

text \<open>A new capture of a path of a work wakes the waits of the cases that select it.\<close>

definition selecting_cases :: "control_state \<Rightarrow> string \<Rightarrow> string list" where
  "selecting_cases s w = map c_id (filter (\<lambda>c. c_state c = Active \<and> w \<in> set (map sel_work_id (c_inputs c))) (cs_cases s))"

definition notifyWorkerPeerCaptureChanged :: "service_memory \<Rightarrow> control_state \<Rightarrow> string \<Rightarrow> string \<Rightarrow> service_memory" where
  "notifyWorkerPeerCaptureChanged m s w path =
     (if w = [] \<or> path = [] \<or> sm_closing m then m
      else let cases = selecting_cases s w;
               seen = foldl (\<lambda>f c. f(c \<mapsto> map_value f c + 1)) (sm_observations m) cases;
               woken = (\<lambda>x. wk_case (wt_actor x) \<in> set cases);
               n = m\<lparr>sm_observations := seen,
                     sm_waiters := map (\<lambda>x. if woken x then x\<lparr>wt_capture_version := wt_capture_version x + 1\<rparr> else x) (sm_waiters m)\<rparr>
           in if \<exists>x \<in> set (sm_waiters m). woken x then schedulePeerRefresh n else n)"

section \<open>Reservations of a case\<close>

text \<open>The reservation taken by a case publication or an application, and its release.\<close>

definition reserve_case :: "service_memory \<Rightarrow> string \<Rightarrow> service_memory" where
  "reserve_case m i = m\<lparr>sm_application_cases := insert i (sm_application_cases m)\<rparr>"

definition release_case :: "service_memory \<Rightarrow> string \<Rightarrow> service_memory" where
  "release_case m i = m\<lparr>sm_application_cases := sm_application_cases m - {i}\<rparr>"

section \<open>Retirement of a task\<close>

definition retired_works :: "control_state \<Rightarrow> string \<Rightarrow> string list" where
  "retired_works s t = map w_id (filter (\<lambda>w. map_option m_task_id (w_managed w) = Some t) (cs_works s))"

definition reserveRetirement :: "service_memory \<Rightarrow> control_state \<Rightarrow> jval \<Rightarrow> (service_memory \<times> string) res" where
  "reserveRetirement m s raw =
     andThen (entityId raw) (\<lambda>t.
     andThen (guard_fail (sm_closing m) ''COORDINATION_CLOSED'') (\<lambda>_.
     andThen (guard_fail (\<exists>c \<in> set (cs_cases s). c_state c = Active
         \<and> (\<exists>i \<in> set (c_inputs c). sel_work_id i \<in> set (retired_works s t))) ''COORDINATION_RESULT_SELECTED'') (\<lambda>_.
     andThen (guard_fail (t \<in> sm_retirements m) ''COORDINATION_RETIREMENT_ACTIVE'') (\<lambda>_.
     Inr (m\<lparr>sm_versions := (if retired_works s t = [] then sm_versions m
               else (sm_versions m)(t \<mapsto> map_value (sm_versions m) t + 1)),
            sm_retirements := insert t (sm_retirements m)\<rparr>, t)))))"

definition releaseRetirement :: "service_memory \<Rightarrow> string \<Rightarrow> service_memory" where
  "releaseRetirement m t =
     m\<lparr>sm_retirements := sm_retirements m - {t},
       sm_versions := (case sm_versions m t of None \<Rightarrow> sm_versions m | Some n \<Rightarrow> (sm_versions m)(t \<mapsto> n + 1))\<rparr>"

text \<open>Closing rejects every wait; the store itself closes when the retirements have ended.\<close>

definition close_service :: "service_memory \<Rightarrow> service_memory \<times> waiter list" where
  "close_service m = (m\<lparr>sm_closing := True, sm_waiters := []\<rparr>, sm_waiters m)"

definition store_may_close :: "service_memory \<Rightarrow> bool" where
  "store_may_close m = (sm_closing m \<and> sm_retirements m = {})"

definition initial_memory :: "string set \<Rightarrow> service_memory" where
  "initial_memory ext = \<lparr>sm_closing = False, sm_versions = Map.empty, sm_retirements = {}, sm_waiters = [],
     sm_observations = Map.empty, sm_refresh = False, sm_transition_tasks = {}, sm_transition_cases = {},
     sm_application_cases = {}, sm_epoch = 0, sm_external = ext\<rparr>"

section \<open>Reservations in progress\<close>

text \<open>
  The operations in progress: a task transition with the cases it holds, a case publication,
  a retirement. A step begins or ends one of them, or is another section; the record may be
  any record at each step.
\<close>

datatype activity = Transition string "string set" | Reservation string | Retirement string

inductive service_step :: "service_memory \<times> activity list \<Rightarrow> service_memory \<times> activity list \<Rightarrow> bool" where
  transition_begins: "begin_transition m s t = Inr (n, cases, rejected) \<Longrightarrow> service_step (m, as) (n, Transition t cases # as)"
| transition_ends: "service_step (m, as @ Transition t cases # bs) (end_transition m t cases, as @ bs)"
| reservation_begins: "assertCaseTransition m s c = Inr () \<Longrightarrow> service_step (m, as) (reserve_case m (c_id c), Reservation (c_id c) # as)"
| reservation_ends: "service_step (m, as @ Reservation i # bs) (release_case m i, as @ bs)"
| retirement_begins: "reserveRetirement m s raw = Inr (n, t) \<Longrightarrow> service_step (m, as) (n, Retirement t # as)"
| retirement_ends: "service_step (m, as @ Retirement t # bs) (releaseRetirement m t, as @ bs)"
| cancelled: "service_step (m, as) (fst (invalidateCancelledTask m s t), as)"
| notified: "service_step (m, as) (notifyWorkerPeerCaptureChanged m s w path, as)"
| closed: "service_step (m, as) (fst (close_service m), as)"

inductive_cases service_stepE: "service_step x y"

definition transition_tasks :: "activity list \<Rightarrow> string list" where
  "transition_tasks as = concat (map (\<lambda>a. case a of Transition t _ \<Rightarrow> [t] | _ \<Rightarrow> []) as)"

definition retiring_tasks :: "activity list \<Rightarrow> string list" where
  "retiring_tasks as = concat (map (\<lambda>a. case a of Retirement t \<Rightarrow> [t] | _ \<Rightarrow> []) as)"

definition held_cases :: "activity list \<Rightarrow> string set list" where
  "held_cases as = map (\<lambda>a. case a of Transition _ cases \<Rightarrow> cases | Reservation i \<Rightarrow> {i} | Retirement _ \<Rightarrow> {}) as"

definition transition_cases :: "activity list \<Rightarrow> string set" where
  "transition_cases as = \<Union> (set (map (\<lambda>a. case a of Transition _ cases \<Rightarrow> cases | _ \<Rightarrow> {}) as))"

definition reserved_cases :: "activity list \<Rightarrow> string set" where
  "reserved_cases as = \<Union> (set (map (\<lambda>a. case a of Reservation i \<Rightarrow> {i} | _ \<Rightarrow> {}) as))"

text \<open>The memory is the activities in progress, and no two of them hold one task or case.\<close>

fun exclusive :: "string set list \<Rightarrow> bool" where
  "exclusive [] = True"
| "exclusive (x # xs) = ((\<forall>y \<in> set xs. x \<inter> y = {}) \<and> exclusive xs)"

definition memory_ok :: "service_memory \<times> activity list \<Rightarrow> bool" where
  "memory_ok x = (case x of (m, as) \<Rightarrow>
     sm_transition_tasks m = set (transition_tasks as) \<and> distinct (transition_tasks as)
   \<and> sm_transition_cases m = transition_cases as
   \<and> sm_application_cases m = reserved_cases as
   \<and> sm_retirements m = set (retiring_tasks as) \<and> distinct (retiring_tasks as)
   \<and> exclusive (held_cases as))"

lemma activity_views [simp]:
  "transition_tasks [] = []" "retiring_tasks [] = []" "held_cases [] = []" "transition_cases [] = {}" "reserved_cases [] = {}"
  "transition_tasks (a # as) = (case a of Transition t _ \<Rightarrow> [t] | _ \<Rightarrow> []) @ transition_tasks as"
  "retiring_tasks (a # as) = (case a of Retirement t \<Rightarrow> [t] | _ \<Rightarrow> []) @ retiring_tasks as"
  "held_cases (a # as) = (case a of Transition _ cases \<Rightarrow> cases | Reservation i \<Rightarrow> {i} | Retirement _ \<Rightarrow> {}) # held_cases as"
  "transition_cases (a # as) = (case a of Transition _ cases \<Rightarrow> cases | _ \<Rightarrow> {}) \<union> transition_cases as"
  "reserved_cases (a # as) = (case a of Reservation i \<Rightarrow> {i} | _ \<Rightarrow> {}) \<union> reserved_cases as"
  "transition_tasks (as @ bs) = transition_tasks as @ transition_tasks bs"
  "retiring_tasks (as @ bs) = retiring_tasks as @ retiring_tasks bs"
  "held_cases (as @ bs) = held_cases as @ held_cases bs"
  "transition_cases (as @ bs) = transition_cases as \<union> transition_cases bs"
  "reserved_cases (as @ bs) = reserved_cases as \<union> reserved_cases bs"
  by (auto simp: transition_tasks_def retiring_tasks_def held_cases_def transition_cases_def reserved_cases_def)

lemma exclusive_append [simp]:
  "exclusive (xs @ ys) = (exclusive xs \<and> exclusive ys \<and> (\<forall>x \<in> set xs. \<forall>y \<in> set ys. x \<inter> y = {}))"
  by (induction xs) auto

lemma held_cases_Un: "\<Union> (set (held_cases as)) = transition_cases as \<union> reserved_cases as"
  by (induction as) (auto split: activity.split)

lemma disjoint_held:
  "(\<forall>y \<in> set (held_cases as). x \<inter> y = {}) = (x \<inter> (transition_cases as \<union> reserved_cases as) = {})"
  "(\<forall>y \<in> set (held_cases as). i \<notin> y) = (i \<notin> transition_cases as \<union> reserved_cases as)"
  "(\<forall>y \<in> set (held_cases as). y \<inter> x = {}) = (x \<inter> (transition_cases as \<union> reserved_cases as) = {})"
  unfolding held_cases_Un [symmetric] by blast+

lemma memory_okD:
  assumes "memory_ok (m, as)"
  shows "sm_transition_tasks m = set (transition_tasks as)" "distinct (transition_tasks as)"
    "sm_transition_cases m = transition_cases as" "sm_application_cases m = reserved_cases as"
    "sm_retirements m = set (retiring_tasks as)" "distinct (retiring_tasks as)" "exclusive (held_cases as)"
  using assms by (simp_all add: memory_ok_def)

lemma schedule_fields [simp]:
  "sm_transition_tasks (schedulePeerRefresh m) = sm_transition_tasks m"
  "sm_transition_cases (schedulePeerRefresh m) = sm_transition_cases m"
  "sm_application_cases (schedulePeerRefresh m) = sm_application_cases m"
  "sm_retirements (schedulePeerRefresh m) = sm_retirements m" "sm_versions (schedulePeerRefresh m) = sm_versions m"
  "sm_epoch (schedulePeerRefresh m) = sm_epoch m"
  by (simp_all add: schedulePeerRefresh_def)

lemma notify_fields [simp]:
  "sm_transition_tasks (notifyWorkerPeerCaptureChanged m s w p) = sm_transition_tasks m"
  "sm_transition_cases (notifyWorkerPeerCaptureChanged m s w p) = sm_transition_cases m"
  "sm_application_cases (notifyWorkerPeerCaptureChanged m s w p) = sm_application_cases m"
  "sm_retirements (notifyWorkerPeerCaptureChanged m s w p) = sm_retirements m"
  "sm_versions (notifyWorkerPeerCaptureChanged m s w p) = sm_versions m"
  "sm_epoch (notifyWorkerPeerCaptureChanged m s w p) = sm_epoch m"
  by (simp_all add: notifyWorkerPeerCaptureChanged_def Let_def)

lemma ended_transition:
  assumes "memory_ok (m, as @ Transition t cases # bs)"
  shows "memory_ok (end_transition m t cases, as @ bs)"
proof -
  note ok = memory_okD [OF assms]
  have "cases \<inter> (transition_cases (as @ bs) \<union> reserved_cases (as @ bs)) = {}"
    using ok(7) disjoint_held(3) [of as cases] disjoint_held(1) [of bs cases] by (simp add: Int_Un_distrib)
  with ok show ?thesis by (auto simp: memory_ok_def end_transition_def)
qed

lemma ended_reservation:
  assumes "memory_ok (m, as @ Reservation i # bs)"
  shows "memory_ok (release_case m i, as @ bs)"
proof -
  note ok = memory_okD [OF assms]
  have "i \<notin> transition_cases (as @ bs) \<union> reserved_cases (as @ bs)"
    using ok(7) disjoint_held(2) [of as i] disjoint_held(2) [of bs i] by simp
  with ok show ?thesis by (auto simp: memory_ok_def release_case_def)
qed

lemma service_step_ok:
  assumes "service_step x y" and "memory_ok x"
  shows "memory_ok y"
  using assms
proof (induction rule: service_step.induct)
  case (transition_begins m s t n cases rejected as)
  from transition_begins.hyps have n: "t \<notin> sm_transition_tasks m" "cases \<inter> (sm_transition_cases m \<union> sm_application_cases m) = {}"
    "n = m\<lparr>sm_transition_tasks := insert t (sm_transition_tasks m), sm_transition_cases := sm_transition_cases m \<union> cases,
       sm_epoch := sm_epoch m + 1, sm_waiters := filter (\<lambda>w. \<not> waits_for t cases w) (sm_waiters m)\<rparr>"
    by (auto simp: begin_transition_def Let_def split: if_splits)
  with memory_okD [OF transition_begins.prems] show ?case by (auto simp: memory_ok_def disjoint_held)
next
  case (transition_ends m as t cases bs)
  then show ?case by (intro ended_transition)
next
  case (reservation_begins m s c as)
  then have "c_id c \<notin> sm_application_cases m" "c_id c \<notin> sm_transition_cases m"
    by (auto simp: assertCaseTransition_def guard_fail_Inr split: if_splits)
  with memory_okD [OF reservation_begins.prems] show ?case by (simp add: memory_ok_def reserve_case_def disjoint_held)
next
  case (reservation_ends m as i bs)
  then show ?case by (intro ended_reservation)
next
  case (retirement_begins m s raw n t as)
  then have "t \<notin> sm_retirements m" "sm_retirements n = insert t (sm_retirements m)"
    "sm_transition_tasks n = sm_transition_tasks m" "sm_transition_cases n = sm_transition_cases m"
    "sm_application_cases n = sm_application_cases m"
    by (auto simp: reserveRetirement_def andThen_Inr_iff guard_fail_Inr)
  with memory_okD [OF retirement_begins.prems] show ?case by (auto simp: memory_ok_def)
next
  case (retirement_ends m as t bs)
  then show ?case by (auto simp: memory_ok_def releaseRetirement_def)
next
  case (cancelled m as s t)
  then show ?case by (simp add: memory_ok_def invalidateCancelledTask_def Let_def)
next
  case (notified m as s w path)
  then show ?case by (simp add: memory_ok_def)
next
  case (closed m as)
  then show ?case by (simp add: memory_ok_def close_service_def)
qed

theorem service_run_ok:
  assumes "service_step\<^sup>*\<^sup>* (initial_memory ext, []) x"
  shows "memory_ok x"
  using assms
proof (induction rule: rtranclp_induct)
  case base
  show ?case by (simp add: memory_ok_def initial_memory_def)
next
  case (step y z)
  then show ?case by (blast intro: service_step_ok)
qed

text \<open>A held case, or a case that selects a task in transition, admits no other operation.\<close>

lemma held_case_refused:
  assumes "memory_ok (m, as)" and "c_id c \<in> \<Union> (set (held_cases as))"
  shows "assertCaseTransition m s c = fail ''PEER_OPERATION_STALE''"
  using memory_okD [OF assms(1)] assms(2) by (auto simp: assertCaseTransition_def guard_fail_def held_cases_Un)

end
