(* ===== verification/Control_Service.thy ===== *)
theory Control_Service
  imports Service_Memory Control_Commit
begin

text \<open>
  The operations of the coordination service (src/src/coordination/control.ts, lines 240 to
  533 and 1169 to 1321). Each definition is the decision one mutex section takes on the record
  it read: the answer retained for a repeated key, or the next record to publish. What the
  section does around it, reading the store and publishing, is the same for all of them
  (theory \<open>Control_Ledger\<close>). \<open>randomUUID\<close> is the argument \<open>fresh\<close>; the callbacks of the worker
  authority, which the runtime supplies, are the fields of a record of functions.
\<close>

section \<open>The worker authority\<close>

record worker_authority =
  au_current :: "worker_actor \<Rightarrow> control_state \<Rightarrow> case_rec \<Rightarrow> bool \<Rightarrow> unit res"
  au_consent :: "control_state \<Rightarrow> case_rec \<Rightarrow> note_rec \<Rightarrow> unit res"
  au_evidence :: "(worker_actor \<Rightarrow> control_state \<Rightarrow> case_rec \<Rightarrow> string res) option"
  au_retained :: "(worker_actor \<Rightarrow> control_state \<Rightarrow> peer_source list \<Rightarrow> unit res) option"
  au_publication :: "unit res"

text \<open>\<open>#withWorkerPublication\<close>: the authority runs the publication, or refuses it.\<close>

definition withWorkerPublication :: "worker_authority option \<Rightarrow> 'a res \<Rightarrow> 'a res" where
  "withWorkerPublication auth x = (case auth of None \<Rightarrow> x | Some a \<Rightarrow> andThen (au_publication a) (\<lambda>_. x))"

section \<open>Retained keys\<close>

abbreviation key_conflict :: "'a res" where "key_conflict \<equiv> fail ''COORDINATION_KEY_CONFLICT''"

definition recovery_key :: "control_state \<Rightarrow> string \<Rightarrow> string \<Rightarrow> bool" where
  "recovery_key s p k = (\<exists>r \<in> set (cs_recoveries s). rr_operator r = p \<and> rv_operation_key (rr_command r) = k)"

definition event_key :: "control_state \<Rightarrow> string \<Rightarrow> string \<Rightarrow> bool" where
  "event_key s p k = (\<exists>e \<in> set (cs_events s). ev_owner e = p \<and> ev_key e = k)"

definition record_change :: "control_state \<Rightarrow> string \<Rightarrow> string \<Rightarrow> string \<Rightarrow> action \<Rightarrow> subject \<Rightarrow> string \<Rightarrow> receipt outcome_of res" where
  "record_change n p k h a e i = (let (next, r) = retain n p k h a e i in checked_publication next r)"

section \<open>Observed cases\<close>

record extend_input =
  xi_operation_key :: jval
  xi_case_id :: jval
  xi_expected_revision :: nat
  xi_generation :: nat
  xi_new_work_id :: jval
  xi_target_oid :: string

definition added_delta :: "string list \<Rightarrow> work \<Rightarrow> visibility_delta" where
  "added_delta members w =
     \<lparr>vd_work_id = w_id w, vd_work_revision = w_revision w,
      vd_control_generation = (case w_managed w of None \<Rightarrow> 0 | Some m \<Rightarrow> m_control_generation m),
      vd_areas = w_areas w, vd_added_readers = filter (\<lambda>p. \<not> canReadWork p w) members\<rparr>"

definition extended_case :: "string list \<Rightarrow> work list \<Rightarrow> work \<Rightarrow> case_rec \<Rightarrow> case_rec" where
  "extended_case members selected added c =
     c\<lparr>c_members := members, c_inputs := c_inputs c @ [\<lparr>sel_work_id = w_id added, sel_commit_oid = w_input_oid added\<rparr>],
       c_delivery_pending := Some (map sel_work_id (c_inputs c) @ [w_id added]), c_delivery_observed := Some [],
       c_visibility_delta := Some (map (added_delta members) (selected @ [added])), c_revision := c_revision c + 1\<rparr>"

text \<open>Case notes that retain an application record.\<close>

definition application_retained :: "(string \<Rightarrow> string) \<Rightarrow> control_state \<Rightarrow> string \<Rightarrow> bool" where
  "application_retained sha s i =
     (\<exists>n \<in> set (cs_notes s). n_subject n = case_subject i \<and> application_in (peer_of sha (n_text n)) \<noteq> None)"

definition extension_scope_ok :: "case_rec \<Rightarrow> work list \<Rightarrow> work \<Rightarrow> string \<Rightarrow> bool" where
  "extension_scope_ok c selected added oid =
     (w_managed added \<noteq> None \<and> w_state added = Active \<and> selected \<noteq> []
    \<and> (\<forall>w \<in> set selected. w_managed w \<noteq> None \<and> w_state w = Active \<and> w_input_oid w = w_input_oid added
         \<and> w_object_format w = w_object_format added)
    \<and> Some oid = c_target_oid c)"

definition task_unsettled :: "service_memory \<Rightarrow> work \<Rightarrow> bool" where
  "task_unsettled m w = (case w_managed w of None \<Rightarrow> False
     | Some k \<Rightarrow> task_changing m (m_task_id k) \<or> m_task_id k \<in> sm_retirements m)"

definition extend_case :: "(string \<Rightarrow> string) \<Rightarrow> service_memory \<Rightarrow> control_state \<Rightarrow> string \<Rightarrow> string \<Rightarrow> string \<Rightarrow> case_rec \<Rightarrow> string
    \<Rightarrow> string \<Rightarrow> receipt outcome_of res" where
  "extend_case sha m s p k hash c new oid =
     andThen (guard_fail (c_observed_origin c \<noteq> Some Selected_origin \<or> c_external_effect c \<noteq> Not_started)
       ''COORDINATION_OBSERVED_ORIGIN_UNAVAILABLE'') (\<lambda>_.
     andThen (guard_fail (c_id c \<in> sm_application_cases m \<or> c_id c \<in> sm_transition_cases m) ''PEER_OPERATION_STALE'') (\<lambda>_.
     andThen (guard_fail (application_retained sha s (c_id c)) ''COORDINATION_EXTERNAL_EFFECT_UNRESOLVED'') (\<lambda>_.
     andThen (map_res (\<lambda>i. visibleWork sha s p (sel_work_id i)) (c_inputs c)) (\<lambda>selected.
     case find_work s new of
       None \<Rightarrow> unavailable
     | Some added \<Rightarrow>
         andThen (guard_fail (\<exists>w \<in> set selected. w_id w = w_id added) ''COORDINATION_OBSERVED_DUPLICATE'') (\<lambda>_.
         andThen (guard_fail (\<not> extension_scope_ok c selected added oid) ''COORDINATION_OBSERVED_SCOPE_UNSUPPORTED'') (\<lambda>_.
         (let members = uniq (c_members c @ [w_owner added]) in
         andThen (guard_fail (MAX_PARTIES < length members) ''COORDINATION_CAPACITY'') (\<lambda>_.
         andThen (guard_fail (\<exists>w \<in> set (selected @ [added]). task_unsettled m w) ''PEER_OPERATION_STALE'') (\<lambda>_.
         record_change (change_case (c_id c) (extended_case members selected added) s) p k hash A_extend_observed_case
           (case_subject (c_id c)) (c_id c))))))))))"

definition extendObservedCase :: "(string \<Rightarrow> string) \<Rightarrow> service_memory \<Rightarrow> control_state \<Rightarrow> jval \<Rightarrow> extend_input \<Rightarrow> receipt outcome_of res" where
  "extendObservedCase sha m s actor i =
     andThen (parentId actor) (\<lambda>p. andThen (coordinationOperationKey (xi_operation_key i)) (\<lambda>k.
     andThen (entityId (xi_case_id i)) (\<lambda>ci. andThen (entityId (xi_new_work_id i)) (\<lambda>new.
     (let hash = owner_command_hash sha p (extend_observed_json k ci (xi_expected_revision i) (xi_generation i) new (Some (xi_target_oid i))) in
      case receipt_for s p k of
        Some r \<Rightarrow> if rc_request_hash r \<noteq> hash \<or> rc_action r \<noteq> A_extend_observed_case then key_conflict else Inr (Retained r)
      | None \<Rightarrow>
          andThen (guard_fail (recovery_key s p k \<or> event_key s p k) ''COORDINATION_KEY_CONFLICT'') (\<lambda>_.
          andThen (ownCase s p ci (xi_expected_revision i) (xi_generation i)) (\<lambda>c.
          extend_case sha m s p k hash c new (xi_target_oid i))))))))"

record delivery_input =
  yi_operation_key :: jval
  yi_case_id :: jval
  yi_case_revision :: nat
  yi_generation :: nat
  yi_recipient :: jval
  yi_digest :: string

definition delivered_case :: "string \<Rightarrow> string \<Rightarrow> case_rec \<Rightarrow> case_rec" where
  "delivered_case w d c =
     c\<lparr>c_delivery_pending := map_option (filter (\<lambda>i. i \<noteq> w)) (c_delivery_pending c),
       c_delivery_observed := Some (observed_of_case c @ [\<lparr>od_work_id = w, od_digest = d\<rparr>])\<rparr>"

definition delivery_expected :: "string \<Rightarrow> nat \<Rightarrow> nat \<Rightarrow> string \<Rightarrow> case_rec \<Rightarrow> bool" where
  "delivery_expected p rv g w c =
     (c_lead c = p \<and> c_revision c = rv \<and> c_generation c = g \<and> c_observed_origin c = Some Selected_origin
    \<and> w \<in> set (pending_ids c))"

definition observeCaseDelivery :: "(string \<Rightarrow> string) \<Rightarrow> control_state \<Rightarrow> jval \<Rightarrow> delivery_input \<Rightarrow> (string \<times> nat) option
    \<Rightarrow> receipt outcome_of res" where
  "observeCaseDelivery sha s actor i guard =
     andThen (parentId actor) (\<lambda>p. andThen (coordinationOperationKey (yi_operation_key i)) (\<lambda>k.
     andThen (entityId (yi_case_id i)) (\<lambda>ci. andThen (entityId (yi_recipient i)) (\<lambda>w.
     (let hash = owner_command_hash sha p (observe_delivery_json k ci (yi_case_revision i) (yi_generation i) w (yi_digest i)) in
      case receipt_for s p k of
        Some r \<Rightarrow> if rc_request_hash r \<noteq> hash \<or> rc_action r \<noteq> A_observe_case_delivery then key_conflict else Inr (Retained r)
      | None \<Rightarrow>
          andThen (guard_fail (guard \<noteq> Some (cs_epoch s, cs_revision s)) ''PEER_DELIVERY_STALE'') (\<lambda>_.
          case List.find (\<lambda>c. c_id c = ci \<and> c_state c = Active) (cs_cases s) of
            None \<Rightarrow> fail ''PEER_DELIVERY_STALE''
          | Some c \<Rightarrow>
              andThen (guard_fail (\<not> delivery_expected p (yi_case_revision i) (yi_generation i) w c) ''PEER_DELIVERY_STALE'') (\<lambda>_.
              record_change (change_case ci (delivered_case w (yi_digest i)) s) p k hash A_observe_case_delivery
                (case_subject ci) ci)))))))"

section \<open>Source facts of a command\<close>

datatype source_preparation = Recorded receipt | Inspect "case_rec option" "work list" "(string \<times> nat) list"

definition command_case :: "command \<Rightarrow> (string \<times> nat \<times> nat) option" where
  "command_case cmd = (case cmd of
       Select_inputs _ c rv g _ _ \<Rightarrow> Some (c, rv, g)
     | Release_case _ c rv g \<Rightarrow> Some (c, rv, g)
     | Begin_external_integration _ c rv g \<Rightarrow> Some (c, rv, g)
     | Record_external_settlement _ c rv g \<Rightarrow> Some (c, rv, g)
     | Transfer_case _ c rv g _ \<Rightarrow> Some (c, rv, g)
     | _ \<Rightarrow> None)"

definition command_work :: "command \<Rightarrow> string option" where
  "command_work cmd = (case cmd of
       Share_work _ w _ _ \<Rightarrow> Some w | Grant_source _ w _ _ \<Rightarrow> Some w | Watch_source _ w _ _ \<Rightarrow> Some w
     | Close_work _ w _ \<Rightarrow> Some w | _ \<Rightarrow> None)"

definition needs_preflight :: "command \<Rightarrow> bool" where
  "needs_preflight cmd = (command_action cmd = A_claim_target \<or> command_action cmd = A_select_inputs
     \<or> command_action cmd = A_begin_external_integration)"

definition preflight_inputs :: "command \<Rightarrow> case_rec \<Rightarrow> selection list" where
  "preflight_inputs cmd c = (case cmd of Select_inputs _ _ _ _ _ ins \<Rightarrow> ins | _ \<Rightarrow> c_inputs c)"

definition inspect_sources :: "(string \<Rightarrow> string) \<Rightarrow> service_memory \<Rightarrow> control_state \<Rightarrow> string \<Rightarrow> command \<Rightarrow> case_rec \<Rightarrow> source_preparation res" where
  "inspect_sources sha m s p cmd c =
     andThen (idle c) (\<lambda>_.
     andThen (map_res (\<lambda>i. visibleWork sha s p (sel_work_id i)) (preflight_inputs cmd c)) (\<lambda>works.
     andThen (each_res (\<lambda>w. each_res (\<lambda>q. map_sum id (\<lambda>_. ()) (visibleWork sha s q (w_id w))) (c_members c)) works) (\<lambda>_.
     (let tasks = List.map_filter (\<lambda>w. map_option m_task_id (w_managed w)) works in
      andThen (guard_fail (\<exists>t \<in> set tasks. t \<in> sm_retirements m) ''COORDINATION_RETIREMENT_ACTIVE'') (\<lambda>_.
      Inr (Inspect (Some c) works (map (\<lambda>t. (t, map_value (sm_versions m) t)) tasks)))))))"

definition prepareSourceCommand :: "(string \<Rightarrow> string) \<Rightarrow> service_memory \<Rightarrow> control_state \<Rightarrow> jval \<Rightarrow> jval \<Rightarrow> source_preparation res" where
  "prepareSourceCommand sha m s actor raw =
     andThen (parentId actor) (\<lambda>p. andThen (decodeCommand raw) (\<lambda>cmd.
     andThen (guard_fail (\<not> needs_preflight cmd) ''COORDINATION_OPERATION_UNSUPPORTED'') (\<lambda>_.
     andThen (guard_fail (recovery_key s p (operation_key cmd)) ''COORDINATION_KEY_CONFLICT'') (\<lambda>_.
     andThen (guard_fail (event_key s p (operation_key cmd)) ''COORDINATION_KEY_CONFLICT'') (\<lambda>_.
     case receipt_for s p (operation_key cmd) of
       Some r \<Rightarrow> if rc_request_hash r \<noteq> request_hash sha p cmd then key_conflict else Inr (Recorded r)
     | None \<Rightarrow>
         (case command_case cmd of
            None \<Rightarrow> Inr (Inspect None [] [])
          | Some (c, rv, g) \<Rightarrow> andThen (ownCase s p c rv g) (inspect_sources sha m s p cmd)))))))"

section \<open>Ordinary commands\<close>

text \<open>Receipts of worker applications on a case, and whether the outcome of one is settled.\<close>

definition PENDING_SUFFIX :: string where "PENDING_SUFFIX = '':pending''"
definition OUTCOME_SUFFIX :: string where "OUTCOME_SUFFIX = '':outcome''"

definition case_note :: "control_state \<Rightarrow> string \<Rightarrow> string \<Rightarrow> bool" where
  "case_note s i n = (\<exists>x \<in> set (cs_notes s). n_id x = n \<and> n_subject x = case_subject i)"

definition pending_applications :: "control_state \<Rightarrow> string \<Rightarrow> receipt list" where
  "pending_applications s i =
     filter (\<lambda>r. starts_with (rc_key r) WORKER_PEER_KEY_PREFIX \<and> ends_with (rc_key r) PENDING_SUFFIX \<and> case_note s i (rc_item_id r))
       (cs_receipts s)"

definition outcome_key :: "string \<Rightarrow> string" where
  "outcome_key k = take (length k - length PENDING_SUFFIX) k @ OUTCOME_SUFFIX"

definition application_outcome :: "(string \<Rightarrow> string) \<Rightarrow> control_state \<Rightarrow> receipt \<Rightarrow> peer_application option" where
  "application_outcome sha s r =
     Option.bind (receipt_for s (rc_owner r) (outcome_key (rc_key r))) (\<lambda>x.
     Option.bind (find_note s (rc_item_id x)) (\<lambda>n. application_in (peer_of sha (n_text n))))"

definition release_blocked :: "(string \<Rightarrow> string) \<Rightarrow> control_state \<Rightarrow> command \<Rightarrow> bool" where
  "release_blocked sha s cmd = (case cmd of
       Release_case _ c _ _ \<Rightarrow> (\<exists>r \<in> set (pending_applications s c).
         case application_outcome sha s r of None \<Rightarrow> True | Some a \<Rightarrow> pa_status a \<noteq> Applied \<and> pa_status a \<noteq> Rejected)
     | _ \<Rightarrow> False)"

definition case_reserved :: "service_memory \<Rightarrow> control_state \<Rightarrow> command \<Rightarrow> bool" where
  "case_reserved m s cmd = (case command_case cmd of None \<Rightarrow> False
     | Some (c, _) \<Rightarrow> find_case s c \<noteq> None \<and> c \<in> sm_application_cases m)"

definition source_reserved :: "service_memory \<Rightarrow> control_state \<Rightarrow> command \<Rightarrow> bool" where
  "source_reserved m s cmd = (case command_work cmd of None \<Rightarrow> False
     | Some w \<Rightarrow> \<exists>c \<in> set (cs_cases s). c_id c \<in> sm_application_cases m \<and> w \<in> set (map sel_work_id (c_inputs c)))"

definition worker_note :: "control_state \<Rightarrow> string \<Rightarrow> bool" where
  "worker_note s i = (\<exists>r \<in> set (cs_receipts s). rc_action r = A_post_note \<and> rc_item_id r = i
     \<and> starts_with (rc_key r) WORKER_PEER_KEY_PREFIX)"

definition note_command :: "command \<Rightarrow> string option" where
  "note_command cmd = (case cmd of Ack_note _ i \<Rightarrow> Some i | Withdraw_note _ i \<Rightarrow> Some i | _ \<Rightarrow> None)"

definition version_changed :: "service_memory \<Rightarrow> string \<times> nat \<Rightarrow> bool" where
  "version_changed m v = (fst v \<in> sm_retirements m \<or> map_value (sm_versions m) (fst v) \<noteq> snd v)"

definition selected_inputs :: "control_state \<Rightarrow> command \<Rightarrow> selection list" where
  "selected_inputs s cmd = (case cmd of
       Select_inputs _ _ _ _ _ ins \<Rightarrow> ins
     | Begin_external_integration _ c _ _ \<Rightarrow> (case find_case s c of None \<Rightarrow> [] | Some x \<Rightarrow> c_inputs x)
     | _ \<Rightarrow> [])"

definition retirement_active :: "service_memory \<Rightarrow> control_state \<Rightarrow> command \<Rightarrow> bool" where
  "retirement_active m s cmd =
     ((\<exists>i \<in> set (selected_inputs s cmd). case managed_task s (sel_work_id i) of None \<Rightarrow> False | Some t \<Rightarrow> t \<in> sm_retirements m)
    \<or> (case cmd of Register_task_work _ _ _ _ _ _ k \<Rightarrow> m_task_id k \<in> sm_retirements m | _ \<Rightarrow> False))"

text \<open>The checks on a note whose text is a peer record.\<close>

definition note_case_ready :: "(string \<Rightarrow> string) \<Rightarrow> service_memory \<Rightarrow> control_state \<Rightarrow> command \<Rightarrow> unit res" where
  "note_case_ready sha m s cmd =
     (case Option.bind (note_command cmd) (\<lambda>i. Option.bind (find_note s i) (\<lambda>n. peer_of sha (n_text n))) of
        None \<Rightarrow> Inr ()
      | Some r \<Rightarrow> (case find_case s (pb_case_id (peer_base_of r)) of None \<Rightarrow> Inr () | Some c \<Rightarrow> assertCaseTransition m s c))"

definition is_proposal :: "peer_record \<Rightarrow> bool" where
  "is_proposal r = (case r of Proposal _ \<Rightarrow> True | _ \<Rightarrow> False)"

definition record_post_ready :: "(string \<Rightarrow> string) \<Rightarrow> service_memory \<Rightarrow> control_state \<Rightarrow> string \<Rightarrow> (nat \<times> nat) option \<Rightarrow> subject
    \<Rightarrow> note_kind \<Rightarrow> string list \<Rightarrow> peer_record \<Rightarrow> unit res" where
  "record_post_ready sha m s p guard x nk parties r =
     (let c = find_case s (pb_case_id (peer_base_of r)) in
      andThen (case c of None \<Rightarrow> Inr () | Some c \<Rightarrow> assertCaseTransition m s c) (\<lambda>_.
      andThen (guard_fail (\<not> is_proposal r \<and> (case c of None \<Rightarrow> False | Some c \<Rightarrow> workerConsentNote sha s c r None \<noteq> None)
          \<and> guard = None) ''PEER_OPERATION_STALE'') (\<lambda>_.
      assertPeerResolutionPost sha s p x nk parties r False)))"

definition post_ready :: "(string \<Rightarrow> string) \<Rightarrow> service_memory \<Rightarrow> control_state \<Rightarrow> string \<Rightarrow> (nat \<times> nat) option \<Rightarrow> command \<Rightarrow> unit res" where
  "post_ready sha m s p guard cmd = (case cmd of
       Post_note _ x nk t parties \<Rightarrow>
         andThen (decodePeerResolutionText sha t) (\<lambda>r. case r of None \<Rightarrow> Inr ()
           | Some q \<Rightarrow> record_post_ready sha m s p guard x nk parties q)
     | _ \<Rightarrow> Inr ())"

definition executeCommand :: "(string \<Rightarrow> string) \<Rightarrow> service_memory \<Rightarrow> control_state \<Rightarrow> string \<Rightarrow> command \<Rightarrow> (string \<times> nat) list
    \<Rightarrow> (nat \<times> nat) option \<Rightarrow> bool \<Rightarrow> string \<Rightarrow> receipt outcome_of res" where
  "executeCommand sha m s p cmd versions guard observed fresh =
     andThen (guard_fail (case_reserved m s cmd) ''PEER_OPERATION_STALE'') (\<lambda>_.
     andThen (guard_fail (release_blocked sha s cmd) ''COORDINATION_EXTERNAL_EFFECT_UNRESOLVED'') (\<lambda>_.
     andThen (guard_fail (source_reserved m s cmd) ''PEER_OPERATION_STALE'') (\<lambda>_.
     andThen (guard_fail (guard \<noteq> None \<and> guard \<noteq> Some (cs_revision s, sm_epoch m)) ''PEER_OPERATION_STALE'') (\<lambda>_.
     andThen (guard_fail (recovery_key s p (operation_key cmd)) ''COORDINATION_KEY_CONFLICT'') (\<lambda>_.
     andThen (guard_fail (event_key s p (operation_key cmd)) ''COORDINATION_KEY_CONFLICT'') (\<lambda>_.
     case receipt_for s p (operation_key cmd) of
       Some r \<Rightarrow> if rc_request_hash r \<noteq> request_hash sha p cmd then key_conflict else Inr (Retained r)
     | None \<Rightarrow>
         andThen (guard_fail (case note_command cmd of None \<Rightarrow> False | Some i \<Rightarrow> worker_note s i) ''COORDINATION_FORBIDDEN'') (\<lambda>_.
         andThen (guard_fail (\<exists>v \<in> set versions. version_changed m v) ''COORDINATION_RESOURCE_CHANGED'') (\<lambda>_.
         andThen (guard_fail (retirement_active m s cmd) ''COORDINATION_RETIREMENT_ACTIVE'') (\<lambda>_.
         andThen (note_case_ready sha m s cmd) (\<lambda>_.
         andThen (post_ready sha m s p guard cmd) (\<lambda>_.
         andThen (commit sha s p cmd observed fresh) (\<lambda>(n, r). Inr (Publication n r)))))))))))))"

text \<open>What \<open>execute\<close> does before that section: the consent of a worker is checked on a first reading.\<close>

definition consent_guard :: "(string \<Rightarrow> string) \<Rightarrow> worker_authority option \<Rightarrow> service_memory \<Rightarrow> control_state \<Rightarrow> peer_record
    \<Rightarrow> (nat \<times> nat) option res" where
  "consent_guard sha auth m s r =
     (case find_case s (pb_case_id (peer_base_of r)) of
        None \<Rightarrow> Inr None
      | Some c \<Rightarrow>
          andThen (assertCaseTransition m s c) (\<lambda>_.
          case workerConsentNote sha s c r None of
            None \<Rightarrow> Inr None
          | Some n \<Rightarrow> (case auth of
              None \<Rightarrow> fail ''PEER_OPERATION_UNAVAILABLE''
            | Some a \<Rightarrow> andThen (au_consent a s c n) (\<lambda>_. Inr (Some (cs_revision s, sm_epoch m))))))"

definition execute_capture :: "(string \<Rightarrow> string) \<Rightarrow> worker_authority option \<Rightarrow> service_memory \<Rightarrow> control_state \<Rightarrow> command
    \<Rightarrow> (nat \<times> nat) option res" where
  "execute_capture sha auth m s cmd = (case cmd of
       Post_note _ _ _ t _ \<Rightarrow>
         andThen (decodePeerResolutionText sha t) (\<lambda>r. case r of None \<Rightarrow> Inr None
           | Some q \<Rightarrow> if is_proposal q then Inr None else consent_guard sha auth m s q)
     | _ \<Rightarrow> Inr None)"

text \<open>\<open>m0\<close> and \<open>s0\<close> are read by the first section, \<open>m\<close> and \<open>s\<close> by the one that publishes.\<close>

definition execute :: "(string \<Rightarrow> string) \<Rightarrow> worker_authority option \<Rightarrow> service_memory \<Rightarrow> control_state \<Rightarrow> service_memory \<Rightarrow> control_state
    \<Rightarrow> jval \<Rightarrow> jval \<Rightarrow> (string \<times> nat) list \<Rightarrow> bool \<Rightarrow> string \<Rightarrow> receipt outcome_of res" where
  "execute sha auth m0 s0 m s actor raw versions observed fresh =
     andThen (parentId actor) (\<lambda>p. andThen (decodeCommand raw) (\<lambda>cmd.
     andThen (guard_fail (sm_closing m0) ''COORDINATION_CLOSED'') (\<lambda>_.
     andThen (guard_fail (starts_with (operation_key cmd) WORKER_PEER_KEY_PREFIX) ''COORDINATION_FORBIDDEN'') (\<lambda>_.
     andThen (execute_capture sha auth m0 s0 cmd) (\<lambda>guard.
     (let run = executeCommand sha m s p cmd versions guard observed fresh in
      if guard = None then run else withWorkerPublication auth run))))))"

section \<open>Operator recovery\<close>

definition recovery_upgrade :: "control_state \<Rightarrow> control_state" where
  "recovery_upgrade s = (if has_submissions s then s
     else s\<lparr>cs_schema := (if cs_schema s = MANAGED_CONTROL_SCHEMA then MANAGED_CONTROL_SCHEMA else 2)\<rparr>)"

definition recovery_reserved :: "service_memory \<Rightarrow> control_state \<Rightarrow> recovery_action \<Rightarrow> bool" where
  "recovery_reserved m s a =
     ((case recovery_case_id a of None \<Rightarrow> False | Some c \<Rightarrow> c \<in> sm_application_cases m)
    \<or> (case recovery_work_id a of None \<Rightarrow> False
       | Some w \<Rightarrow> \<exists>c \<in> set (cs_cases s). c_id c \<in> sm_application_cases m \<and> w \<in> set (map sel_work_id (c_inputs c))))"

definition find_recovery :: "control_state \<Rightarrow> string \<Rightarrow> string \<Rightarrow> recovery_receipt option" where
  "find_recovery s p k = List.find (\<lambda>r. rr_operator r = p \<and> rv_operation_key (rr_command r) = k) (cs_recoveries s)"

definition recovered_record :: "(string \<Rightarrow> string) \<Rightarrow> control_state \<Rightarrow> string \<Rightarrow> recovery_command \<Rightarrow> recovery_receipt outcome_of res" where
  "recovered_record sha s p cmd =
     andThen (applyRecovery sha (recovery_upgrade s) cmd) (\<lambda>n.
     (let r = \<lparr>rr_operator = p, rr_request_hash = recovery_hash sha p cmd, rr_revision = cs_revision n + 1, rr_command = cmd\<rparr>
      in checked_publication (n\<lparr>cs_revision := cs_revision n + 1, cs_recoveries := cs_recoveries n @ [r]\<rparr>) r))"

definition recoverAuthorized :: "(string \<Rightarrow> string) \<Rightarrow> service_memory \<Rightarrow> control_state \<Rightarrow> jval \<Rightarrow> jval \<Rightarrow> recovery_receipt outcome_of res" where
  "recoverAuthorized sha m s actor raw =
     andThen (parentId actor) (\<lambda>p. andThen (decodeRecoveryCommand raw) (\<lambda>cmd.
     andThen (guard_fail (sm_closing m) ''COORDINATION_CLOSED'') (\<lambda>_.
     andThen (guard_fail (starts_with (rv_operation_key cmd) WORKER_PEER_KEY_PREFIX) ''COORDINATION_FORBIDDEN'') (\<lambda>_.
     andThen (guard_fail (recovery_reserved m s (rv_action cmd)) ''PEER_OPERATION_STALE'') (\<lambda>_.
     case find_recovery s p (rv_operation_key cmd) of
       Some r \<Rightarrow> if rr_request_hash r \<noteq> recovery_hash sha p cmd then key_conflict else Inr (Retained r)
     | None \<Rightarrow>
         andThen (guard_fail (receipt_for s p (rv_operation_key cmd) \<noteq> None) ''COORDINATION_KEY_CONFLICT'') (\<lambda>_.
         andThen (guard_fail (event_key s p (rv_operation_key cmd)) ''COORDINATION_KEY_CONFLICT'') (\<lambda>_.
         andThen (guard_fail (rv_epoch cmd \<noteq> cs_epoch s) ''COORDINATION_STALE_EPOCH'') (\<lambda>_.
         recovered_record sha s p cmd))))))))"

end
