(* ===== verification/Control_Reads.thy ===== *)
theory Control_Reads
  imports Control_Service
begin

text \<open>
  The read-only operations of the coordination service (src/src/coordination/control.ts,
  lines 1210 to 1321) and what they disclose: every record an actor reads is one it owns,
  was named a reader of, or shares through a case it is a member of.
\<close>

section \<open>Inspection by the operator\<close>

datatype recovery_selector = By_receipt jval | Inventory | By_work jval | By_case jval

datatype recovery_view =
    Receipt_view "recovery_receipt option"
  | Inventory_view string nat "work list" "case_rec list"
  | Work_view string nat work
  | Case_view string nat case_rec

text \<open>The inventory names the active works and cases; the code projects some of their fields.\<close>

definition inspectRecoveryAuthorized :: "control_state \<Rightarrow> jval \<Rightarrow> recovery_selector \<Rightarrow> recovery_view res" where
  "inspectRecoveryAuthorized s actor sel =
     andThen (parentId actor) (\<lambda>p.
     case sel of
       By_receipt v \<Rightarrow> andThen (coordinationOperationKey v) (\<lambda>k. Inr (Receipt_view (find_recovery s p k)))
     | Inventory \<Rightarrow> Inr (Inventory_view (cs_epoch s) (cs_revision s) (filter (\<lambda>w. w_state w = Active) (cs_works s))
         (filter (\<lambda>c. c_state c = Active) (cs_cases s)))
     | By_work v \<Rightarrow> andThen (entityId v) (\<lambda>i. case find_work s i of None \<Rightarrow> unavailable
         | Some w \<Rightarrow> Inr (Work_view (cs_epoch s) (cs_revision s) w))
     | By_case v \<Rightarrow> andThen (entityId v) (\<lambda>i. case find_case s i of None \<Rightarrow> unavailable
         | Some c \<Rightarrow> Inr (Case_view (cs_epoch s) (cs_revision s) c)))"

section \<open>Works and cases\<close>

definition work_for :: "(string \<Rightarrow> string) \<Rightarrow> control_state \<Rightarrow> jval \<Rightarrow> jval \<Rightarrow> work res" where
  "work_for sha s actor raw = andThen (parentId actor) (\<lambda>p. andThen (entityId raw) (visibleWork sha s p))"

definition source_allowed :: "string \<Rightarrow> bool \<Rightarrow> work \<Rightarrow> bool" where
  "source_allowed p detail w =
     (w_owner w = p
    \<or> (case List.find (\<lambda>g. g_recipient g = p \<and> g_work_revision g = w_revision w) (work_grants w) of
         None \<Rightarrow> False | Some g \<Rightarrow> \<not> (detail \<and> g_scope g \<noteq> Detail_scope)))"

definition sourceWork :: "control_state \<Rightarrow> jval \<Rightarrow> jval \<Rightarrow> bool \<Rightarrow> work res" where
  "sourceWork s actor raw detail =
     andThen (parentId actor) (\<lambda>p. andThen (entityId raw) (\<lambda>i.
     case find_work s i of
       None \<Rightarrow> fail ''STRUCTURAL_SOURCE_FORBIDDEN''
     | Some w \<Rightarrow> if w_state w \<noteq> Active \<or> \<not> source_allowed p detail w then fail ''STRUCTURAL_SOURCE_FORBIDDEN'' else Inr w))"

definition reconciliation :: "(string \<Rightarrow> string) \<Rightarrow> control_state \<Rightarrow> jval \<Rightarrow> jval \<Rightarrow> case_rec res" where
  "reconciliation sha s actor raw = andThen (parentId actor) (\<lambda>p. andThen (entityId raw) (visibleCase sha s p))"

definition selectedCases :: "(string \<Rightarrow> string) \<Rightarrow> control_state \<Rightarrow> jval \<Rightarrow> jval \<Rightarrow> (string \<times> string) list res" where
  "selectedCases sha s actor raw =
     andThen (parentId actor) (\<lambda>p. andThen (entityId raw) (\<lambda>i. andThen (visibleWork sha s p i) (\<lambda>_.
     Inr (concat (map (\<lambda>c. map (\<lambda>x. (c_id c, sel_commit_oid x)) (filter (\<lambda>x. sel_work_id x = i) (c_inputs c)))
       (filter (\<lambda>c. c_state c = Active \<and> canReadCase sha s p c) (cs_cases s)))))))"

definition disclosed_overlaps :: "(string \<Rightarrow> string) \<Rightarrow> control_state \<Rightarrow> string \<Rightarrow> string \<Rightarrow> region list \<Rightarrow> (string \<times> region list) list" where
  "disclosed_overlaps sha s p i target =
     filter (\<lambda>(_, areas). areas \<noteq> [])
       (map (\<lambda>w. (w_id w, shared_areas (w_areas w) target))
         (filter (\<lambda>w. w_id w \<noteq> i \<and> w_state w = Active \<and> canReadSelectedWork sha s p w) (cs_works s)))"

definition overlaps :: "(string \<Rightarrow> string) \<Rightarrow> control_state \<Rightarrow> jval \<Rightarrow> jval \<Rightarrow> (string \<times> region list) list res" where
  "overlaps sha s actor raw =
     andThen (parentId actor) (\<lambda>p. andThen (entityId raw) (\<lambda>i. andThen (visibleWork sha s p i) (\<lambda>target.
     Inr (disclosed_overlaps sha s p i (w_areas target)))))"

section \<open>Notes\<close>

datatype agreement_state = Not_applicable | Agreement_pending | Agreement_acknowledged | Agreement_withdrawn

record note_view =
  nv_note :: note_rec
  nv_agreement :: agreement_state
  nv_record :: "peer_record option"
  nv_current :: "bool option"

definition succeeds :: "'a res \<Rightarrow> bool" where "succeeds x = (case x of Inl _ \<Rightarrow> False | Inr _ \<Rightarrow> True)"

definition consent_current :: "worker_authority option \<Rightarrow> control_state \<Rightarrow> case_rec \<Rightarrow> note_rec option \<Rightarrow> bool" where
  "consent_current auth s c consent = (case consent of None \<Rightarrow> True
     | Some n \<Rightarrow> (case auth of None \<Rightarrow> False | Some a \<Rightarrow> succeeds (au_consent a s c n)))"

text \<open>A retained record reads as current if nothing about its case is changing and its consent holds.\<close>

definition record_current :: "(string \<Rightarrow> string) \<Rightarrow> worker_authority option \<Rightarrow> service_memory \<Rightarrow> control_state \<Rightarrow> note_rec
    \<Rightarrow> peer_record \<Rightarrow> bool" where
  "record_current sha auth m s n r =
     (peerRecordCurrent sha s n r None
    \<and> (case find_case s (pb_case_id (peer_base_of r)) of
         None \<Rightarrow> True
       | Some c \<Rightarrow> succeeds (assertCaseTransition m s c) \<and> consent_current auth s c (workerConsentNote sha s c r (Some n))))"

definition agreement_of :: "note_rec \<Rightarrow> bool option \<Rightarrow> agreement_state" where
  "agreement_of n current =
     (if n_kind n \<noteq> Agreement_proposal then Not_applicable else if n_withdrawn n then Agreement_withdrawn
      else if set (n_parties n) \<subseteq> set (n_acknowledged n) \<and> current \<noteq> Some False then Agreement_acknowledged
      else Agreement_pending)"

definition final_note_check :: "service_memory \<Rightarrow> control_state \<Rightarrow> service_memory \<Rightarrow> control_state \<Rightarrow> peer_record \<Rightarrow> bool \<Rightarrow> unit res" where
  "final_note_check m0 s0 m s r current =
     andThen (guard_fail (cs_revision s \<noteq> cs_revision s0 \<or> sm_epoch m \<noteq> sm_epoch m0) ''PEER_OPERATION_STALE'') (\<lambda>_.
     case find_case s (pb_case_id (peer_base_of r)) of
       None \<Rightarrow> Inr ()
     | Some c \<Rightarrow> if current then assertCaseTransition m s c else Inr ())"

definition note_consented :: "(string \<Rightarrow> string) \<Rightarrow> control_state \<Rightarrow> note_rec \<Rightarrow> peer_record \<Rightarrow> bool \<Rightarrow> bool" where
  "note_consented sha s n r current =
     (current \<and> (case find_case s (pb_case_id (peer_base_of r)) of None \<Rightarrow> False
        | Some c \<Rightarrow> workerConsentNote sha s c r (Some n) \<noteq> None))"

definition note_for :: "(string \<Rightarrow> string) \<Rightarrow> worker_authority option \<Rightarrow> service_memory \<Rightarrow> control_state \<Rightarrow> service_memory
    \<Rightarrow> control_state \<Rightarrow> jval \<Rightarrow> jval \<Rightarrow> note_view res" where
  "note_for sha auth m0 s0 m s actor raw =
     andThen (parentId actor) (\<lambda>p. andThen (entityId raw) (\<lambda>i.
     case find_note s0 i of
       None \<Rightarrow> unavailable
     | Some n \<Rightarrow>
         andThen (requireNoteAccess sha s0 p n) (\<lambda>_.
         case peer_of sha (n_text n) of
           None \<Rightarrow> Inr \<lparr>nv_note = n, nv_agreement = agreement_of n None, nv_record = None, nv_current = None\<rparr>
         | Some r \<Rightarrow>
             (let current = record_current sha auth m0 s0 n r;
                  check = final_note_check m0 s0 m s r current
              in andThen (if note_consented sha s0 n r current then withWorkerPublication auth check else check) (\<lambda>_.
                 Inr \<lparr>nv_note = n, nv_agreement = agreement_of n (Some current), nv_record = Some r, nv_current = Some current\<rparr>)))))"

section \<open>What is disclosed\<close>

lemma visibleWork_Inr:
  "visibleWork sha s p i = Inr w \<Longrightarrow> find_work s i = Some w \<and> canReadSelectedWork sha s p w"
  by (auto simp: visibleWork_def split: option.splits if_splits)

lemma selected_cases_readable:
  assumes "selectedCases sha s (JStr p) raw = Inr xs" and "(c, oid) \<in> set xs"
  shows "\<exists>k \<in> set (cs_cases s). c_id k = c \<and> c_state k = Active \<and> p \<in> set (c_members k)"
  using assms by (auto simp: selectedCases_def andThen_Inr_iff identity_Inr canReadCase_def)

lemma overlap_symmetric: "overlap a b = overlap b a"
  by (auto simp: overlap_def)

text \<open>Two regions overlap when some path lies in both.\<close>

definition covers :: "region \<Rightarrow> string \<Rightarrow> bool" where
  "covers r q = (q = r_path r \<or> r_kind r = RSubtree \<and> starts_with q (r_path r @ ''/''))"

lemma covers_join:
  assumes "starts_with q (a @ ''/'')" and "starts_with q (b @ ''/'')"
  shows "a = b \<or> starts_with b (a @ ''/'') \<or> starts_with a (b @ ''/'')"
proof -
  from assms have "prefix (a @ ''/'') (b @ ''/'') \<or> prefix (b @ ''/'') (a @ ''/'')"
    unfolding starts_with_def by (rule prefix_same_cases)
  then show ?thesis by (auto simp: starts_with_def prefix_snoc)
qed

lemma overlap_common_path: "overlap a b = (\<exists>q. covers a q \<and> covers b q)"
proof
  assume "overlap a b"
  then show "\<exists>q. covers a q \<and> covers b q" by (auto simp: overlap_def covers_def)
next
  assume "\<exists>q. covers a q \<and> covers b q"
  then obtain q where "covers a q" "covers b q" by blast
  then show "overlap a b" using covers_join [of q "r_path a" "r_path b"] by (auto simp: overlap_def covers_def)
qed

lemma source_needs_grant:
  assumes "sourceWork s (JStr p) raw detail = Inr w" and "w_owner w \<noteq> p"
  shows "w_state w = Active \<and> (\<exists>g \<in> set (work_grants w). g_recipient g = p \<and> g_work_revision g = w_revision w
    \<and> (detail \<longrightarrow> g_scope g = Detail_scope))"
proof -
  from assms(1) obtain i where i: "find_work s i = Some w" "w_state w = Active" "source_allowed p detail w"
    unfolding sourceWork_def andThen_Inr_iff identity_Inr
    by (elim exE conjE) (simp split: option.splits if_splits)
  with assms(2) show ?thesis by (auto simp: source_allowed_def split: option.splits dest: find_SomeD)
qed

end
