(* ===== verification/Control_Store.thy ===== *)
theory Control_Store
  imports Control_History
begin

text \<open>
  The durable store of the coordination record (src/src/store/coordination-store.ts) and
  the rename publication under it (src/src/store/atomic-json.ts). The file system is a
  parameter: what opening a path finds, at each attempt, and which of the steps of a
  write fail. The store's own state is its handle; the disk holds the text of the record.
  The write mutex makes publications a sequence.
\<close>

section \<open>What a path holds\<close>

datatype 'a found = Absent | Symbolic_link | Unreadable string | Found 'a

text \<open>\<open>d_private\<close>: a directory, not a link, of this user, without group or other access.\<close>

record directory_info =
  d_private :: bool
  d_dev :: nat
  d_ino :: nat

text \<open>
  \<open>f_private\<close>: a regular file of this user, without group or other access. \<open>f_read\<close> bytes
  were read; \<open>f_text\<close> is their text, \<open>None\<close> when they are not UTF-8.
\<close>

record file_info =
  f_private :: bool
  f_links :: nat
  f_size :: nat
  f_read :: nat
  f_text :: "string option"

definition directory :: "directory_info found \<Rightarrow> directory_info res" where
  "directory x = (case x of
     Found i \<Rightarrow> if d_private i then Inr i else fail ''COORDINATION_PATH_UNSAFE''
   | Symbolic_link \<Rightarrow> fail ''COORDINATION_PATH_UNSAFE''
   | Absent \<Rightarrow> fail ''ENOENT'' | Unreadable code \<Rightarrow> fail code)"

text \<open>An unlinked inode is opened again, at most four times in all.\<close>

definition read_file :: "file_info \<Rightarrow> jval res" where
  "read_file i =
     (if f_links i \<noteq> 1 then fail ''COORDINATION_PATH_UNSAFE''
      else if CONTROL_MAX_BYTES < f_size i then fail ''COORDINATION_RECORD_TOO_LARGE''
      else if f_read i \<noteq> f_size i then fail ''COORDINATION_RECORD_CHANGED''
      else case Option.bind (f_text i) json_parse of
             None \<Rightarrow> fail ''COORDINATION_RECORD_CORRUPT'' | Some v \<Rightarrow> Inr v)"

fun read_attempts :: "(nat \<Rightarrow> file_info found) \<Rightarrow> nat \<Rightarrow> nat \<Rightarrow> jval res" where
  "read_attempts open_at a 0 = fail ''COORDINATION_RECORD_CHANGED''"
| "read_attempts open_at a (Suc k) =
     (case open_at a of
        Absent \<Rightarrow> fail ''COORDINATION_STORE_INCOMPLETE''
      | Symbolic_link \<Rightarrow> fail ''COORDINATION_PATH_UNSAFE''
      | Unreadable code \<Rightarrow> fail code
      | Found i \<Rightarrow>
          if \<not> f_private i then fail ''COORDINATION_PATH_UNSAFE''
          else if f_links i = 0 then
            (if a < 3 then read_attempts open_at (Suc a) k else fail ''COORDINATION_RECORD_CHANGED'')
          else read_file i)"

definition readRecord :: "(nat \<Rightarrow> file_info found) \<Rightarrow> jval res" where
  "readRecord open_at = read_attempts open_at 0 4"

definition positive_safe :: "jval \<Rightarrow> bool" where
  "positive_safe v = (case v of JNum i \<Rightarrow> 1 \<le> i \<and> i \<le> MAX_SAFE_INTEGER | _ \<Rightarrow> False)"

definition decodeMarker :: "jval \<Rightarrow> string \<Rightarrow> string res" where
  "decodeMarker value repository =
     (case value of
        JObj kvs \<Rightarrow>
          andThen (guard_fail (\<not> positive_safe (prop_of kvs ''schema_version'')) ''COORDINATION_RECORD_CORRUPT'') (\<lambda>_.
          andThen (guard_fail (prop_of kvs ''schema_version'' \<noteq> JNum 1) ''COORDINATION_VERSION_UNSUPPORTED'') (\<lambda>_.
          andThen (guard_fail (joined '','' (js_sort (map fst kvs)) \<noteq> ''epoch,repository_id,schema_version''
             \<or> \<not> has_own kvs ''repository_id'' \<or> \<not> has_own kvs ''epoch'') ''COORDINATION_RECORD_CORRUPT'') (\<lambda>_.
          andThen (guard_fail (prop_of kvs ''repository_id'' \<noteq> JStr repository) ''COORDINATION_BINDING_CONFLICT'') (\<lambda>_.
          entityId (prop_of kvs ''epoch'')))))
      | _ \<Rightarrow> fail ''COORDINATION_RECORD_CORRUPT'')"

section \<open>The handle and the disk\<close>

record store =
  st_repository :: string
  st_epoch :: string
  st_dev :: nat
  st_ino :: nat
  st_closed :: bool
  st_uncertain :: bool

record disk =
  dk_root :: "directory_info found"
  dk_marker :: "nat \<Rightarrow> file_info found"
  dk_control :: "nat \<Rightarrow> file_info found"

definition check_directory :: "store \<Rightarrow> disk \<Rightarrow> unit res" where
  "check_directory st d =
     andThen (guard_fail (st_closed st) ''COORDINATION_CLOSED'') (\<lambda>_.
     andThen (if dk_root d = Absent then fail ''COORDINATION_STORE_INCOMPLETE'' else directory (dk_root d)) (\<lambda>i.
     andThen (guard_fail (d_dev i \<noteq> st_dev st \<or> d_ino i \<noteq> st_ino st) ''COORDINATION_STORE_REPLACED'') (\<lambda>_.
     andThen (readRecord (dk_marker d)) (\<lambda>v.
     andThen (decodeMarker v (st_repository st)) (\<lambda>epoch.
     guard_fail (epoch \<noteq> st_epoch st) ''COORDINATION_STORE_REPLACED'')))))"

definition snapshot :: "(string \<Rightarrow> string) \<Rightarrow> store \<Rightarrow> disk \<Rightarrow> control_state res" where
  "snapshot sha st d =
     andThen (check_directory st d) (\<lambda>_.
     andThen (readRecord (dk_control d)) (\<lambda>v.
     andThen (decodeControl sha v (st_repository st)) (\<lambda>s.
     andThen (guard_fail (cs_epoch s \<noteq> st_epoch st) ''COORDINATION_STORE_REPLACED'') (\<lambda>_. Inr s))))"

text \<open>The service authority is a callback that may refuse.\<close>

definition assertMutable :: "store \<Rightarrow> unit res \<Rightarrow> unit res" where
  "assertMutable st authority =
     andThen (guard_fail (st_closed st) ''COORDINATION_CLOSED'') (\<lambda>_.
     andThen (guard_fail (st_uncertain st) ''COORDINATION_REOPEN_REQUIRED'') (\<lambda>_. authority))"

definition open_store :: "(string \<Rightarrow> string) \<Rightarrow> bool \<Rightarrow> directory_info found \<Rightarrow> disk \<Rightarrow> string \<Rightarrow> store res" where
  "open_store sha linux parent d repository =
     andThen (guard_fail (\<not> linux) ''COORDINATION_PLATFORM_UNSUPPORTED'') (\<lambda>_.
     andThen (directory parent) (\<lambda>_.
     andThen (if dk_root d = Absent then fail ''COORDINATION_NOT_ENABLED'' else directory (dk_root d)) (\<lambda>i.
     andThen (readRecord (dk_marker d)) (\<lambda>v.
     andThen (decodeMarker v repository) (\<lambda>epoch.
     (let st = \<lparr>st_repository = repository, st_epoch = epoch, st_dev = d_dev i, st_ino = d_ino i,
        st_closed = False, st_uncertain = False\<rparr>
      in andThen (snapshot sha st d) (\<lambda>_. Inr st)))))))"

section \<open>Writing\<close>

text \<open>The steps of a write, each of which may fail.\<close>

datatype write_step =
    Authority nat | Make_parent | Open_temporary | Write_temporary | Sync_temporary | Close_temporary
  | Rename | Open_parent | Sync_parent | Close_parent

text \<open>\<open>try { body } finally { close }\<close>: a failing close replaces the outcome.\<close>

definition finally_res :: "'a res \<Rightarrow> unit res \<Rightarrow> 'a res" where
  "finally_res body close = (case close of Inl e \<Rightarrow> Inl e | Inr _ \<Rightarrow> body)"

definition before_rename :: "(write_step \<Rightarrow> unit res) \<Rightarrow> unit res" where
  "before_rename env =
     andThen (env (Authority 0)) (\<lambda>_. andThen (env Make_parent) (\<lambda>_. andThen (env (Authority 1)) (\<lambda>_.
     andThen (env Open_temporary) (\<lambda>_.
     andThen (finally_res (andThen (env (Authority 2)) (\<lambda>_. andThen (env Write_temporary) (\<lambda>_. env Sync_temporary)))
       (env Close_temporary)) (\<lambda>_.
     andThen (env (Authority 3)) (\<lambda>_. env Rename))))))"

text \<open>Whether the new content took the path, and the outcome that is reported.\<close>

definition atomicJson :: "(write_step \<Rightarrow> unit res) \<Rightarrow> bool \<times> unit res" where
  "atomicJson env =
     (case before_rename env of
        Inl e \<Rightarrow> (False, Inl e)
      | Inr _ \<Rightarrow> (True, andThen (env Open_parent) (\<lambda>_. finally_res (env Sync_parent) (env Close_parent))))"

definition written_file :: "string \<Rightarrow> nat \<Rightarrow> file_info found" where
  "written_file t = (\<lambda>_. Found \<lparr>f_private = True, f_links = 1, f_size = length t, f_read = length t, f_text = Some t\<rparr>)"

definition write_control :: "(write_step \<Rightarrow> unit res) \<Rightarrow> control_state \<Rightarrow> disk \<Rightarrow> disk \<times> unit res" where
  "write_control env s d =
     (let (renamed, outcome) = atomicJson env
      in (if renamed then d\<lparr>dk_control := written_file (control_text s)\<rparr> else d, outcome))"

text \<open>The part of \<open>publish\<close> that looks only at its arguments.\<close>

definition prepare_publication :: "(string \<Rightarrow> string) \<Rightarrow> string \<Rightarrow> jval \<Rightarrow> jval \<Rightarrow> (control_state \<times> control_state) res" where
  "prepare_publication sha repository expected candidate =
     andThen (decodeControl sha expected repository) (\<lambda>before.
     andThen (decodeControl sha candidate repository) (\<lambda>next.
     andThen (guard_fail (cs_epoch next \<noteq> cs_epoch before \<or> cs_revision next \<noteq> cs_revision before + 1
        \<or> canonical_hash sha (limits_json (cs_limits next)) \<noteq> canonical_hash sha (limits_json (cs_limits before)))
        ''COORDINATION_INVALID_TRANSITION'') (\<lambda>_.
     andThen (assertControlTransition sha before next) (\<lambda>_.
     andThen (guard_fail (CONTROL_MAX_BYTES < length (control_text next)) ''COORDINATION_CAPACITY'') (\<lambda>_.
     Inr (before, next))))))"

text \<open>The part under the write mutex.\<close>

definition publish_prepared ::
  "(string \<Rightarrow> string) \<Rightarrow> store \<Rightarrow> disk \<Rightarrow> unit res \<Rightarrow> (write_step \<Rightarrow> unit res) \<Rightarrow> control_state \<Rightarrow> control_state
    \<Rightarrow> (store \<times> disk) \<times> unit res" where
  "publish_prepared sha st d authority env before next =
     (case andThen (assertMutable st authority) (\<lambda>_.
           andThen (snapshot sha st d) (\<lambda>current.
           guard_fail (canonical_hash sha (control_json current) \<noteq> canonical_hash sha (control_json before))
             ''COORDINATION_STALE_RECORD'')) of
        Inl e \<Rightarrow> ((st, d), Inl e)
      | Inr _ \<Rightarrow>
          (case write_control env next d of
             (d', Inr _) \<Rightarrow> ((st, d'), Inr ())
           | (d', Inl _) \<Rightarrow> ((st\<lparr>st_uncertain := True\<rparr>, d'), fail ''COORDINATION_PUBLICATION_UNCERTAIN'')))"

definition publish ::
  "(string \<Rightarrow> string) \<Rightarrow> store \<Rightarrow> disk \<Rightarrow> unit res \<Rightarrow> (write_step \<Rightarrow> unit res) \<Rightarrow> jval \<Rightarrow> jval
    \<Rightarrow> (store \<times> disk) \<times> unit res" where
  "publish sha st d authority env expected candidate =
     (case prepare_publication sha (st_repository st) expected candidate of
        Inl e \<Rightarrow> ((st, d), Inl e)
      | Inr (before, next) \<Rightarrow> publish_prepared sha st d authority env before next)"

definition close_store :: "store \<Rightarrow> store" where
  "close_store st = st\<lparr>st_closed := True\<rparr>"

section \<open>Initialization\<close>

datatype init_step =
    Init_authority nat | Make_stage | Marker_write write_step | Control_write write_step | Sync_stage | Rename_stage
  | Sync_state_root

definition marker_json :: "string \<Rightarrow> string \<Rightarrow> jval" where
  "marker_json repository epoch =
     JObj [(''schema_version'', JNum 1), (''repository_id'', JStr repository), (''epoch'', JStr epoch)]"

text \<open>The stage under construction: nothing but the final rename makes it the store.\<close>

definition build_stage :: "(init_step \<Rightarrow> unit res) \<Rightarrow> bool \<Rightarrow> unit res" where
  "build_stage env root_appeared =
     andThen (snd (atomicJson (\<lambda>w. env (Marker_write w)))) (\<lambda>_.
     andThen (snd (atomicJson (\<lambda>w. env (Control_write w)))) (\<lambda>_.
     andThen (env Sync_stage) (\<lambda>_. andThen (env (Init_authority 2)) (\<lambda>_.
     andThen (guard_fail root_appeared ''COORDINATION_INIT_CONFLICT'') (\<lambda>_.
     env Rename_stage)))))"

definition staged_disk :: "directory_info \<Rightarrow> string \<Rightarrow> string \<Rightarrow> control_state \<Rightarrow> disk" where
  "staged_disk stage repository epoch s =
     \<lparr>dk_root = Found stage, dk_marker = written_file (pretty 0 (marker_json repository epoch) @ [CHR 0x0A]),
      dk_control = written_file (control_text s)\<rparr>"

definition initialize_store ::
  "(string \<Rightarrow> string) \<Rightarrow> bool \<Rightarrow> directory_info found \<Rightarrow> disk \<Rightarrow> string \<Rightarrow> jval \<Rightarrow> string \<Rightarrow> (init_step \<Rightarrow> unit res)
    \<Rightarrow> bool \<Rightarrow> directory_info \<Rightarrow> disk \<times> store res" where
  "initialize_store sha linux parent d repository raw_limits epoch env root_appeared stage =
     (case andThen (guard_fail (\<not> linux) ''COORDINATION_PLATFORM_UNSUPPORTED'') (\<lambda>_.
           andThen (decodeLimits raw_limits) (\<lambda>lims.
           andThen (emptyControl sha repository epoch (limits_json lims)) (\<lambda>s.
           andThen (directory parent) (\<lambda>_. andThen (env (Init_authority 0)) (\<lambda>_. Inr (lims, s)))))) of
        Inl e \<Rightarrow> (d, Inl e)
      | Inr (lims, s) \<Rightarrow>
          if dk_root d \<noteq> Absent then
            (d, andThen (open_store sha linux parent d repository) (\<lambda>st.
                andThen (snapshot sha st d) (\<lambda>current.
                andThen (guard_fail (canonical_hash sha (limits_json (cs_limits current)) \<noteq> canonical_hash sha (limits_json lims))
                  ''COORDINATION_CONFIG_CONFLICT'') (\<lambda>_. Inr st))))
          else case andThen (env (Init_authority 1)) (\<lambda>_. env Make_stage) of
            Inl e \<Rightarrow> (d, Inl e)
          | Inr _ \<Rightarrow>
              (case build_stage env root_appeared of
                 Inl _ \<Rightarrow> (d, fail ''COORDINATION_INITIALIZATION_UNCERTAIN'')
               | Inr _ \<Rightarrow>
                   (let d' = staged_disk stage repository epoch s
                    in (d', case env Sync_state_root of
                              Inl _ \<Rightarrow> fail ''COORDINATION_INITIALIZATION_UNCERTAIN''
                            | Inr _ \<Rightarrow> open_store sha linux parent d' repository))))"

section \<open>Reading back\<close>

lemma read_written:
  assumes "length t \<le> CONTROL_MAX_BYTES" and "json_parse t = Some v"
  shows "readRecord (written_file t) = Inr v"
  using assms by (simp add: readRecord_def written_file_def read_file_def eval_nat_numeral)

lemma written_control_reads:
  assumes "length (control_text s) \<le> CONTROL_MAX_BYTES"
  shows "readRecord (written_file (control_text s)) = Inr (control_json s)"
  by (rule read_written [OF assms parse_control_text])

lemma snapshot_sound:
  assumes "snapshot sha st d = Inr s"
  shows "control_ok sha s \<and> cs_repository_id s = st_repository st \<and> cs_epoch s = st_epoch st \<and> check_directory st d = Inr ()"
proof -
  from assms obtain v where v: "decodeControl sha v (st_repository st) = Inr s"
    and "cs_epoch s = st_epoch st" "check_directory st d = Inr ()"
    by (auto simp: snapshot_def andThen_Inr_iff guard_fail_Inr)
  then show ?thesis using decodeControl_sound [OF v] by simp
qed

lemma check_directory_control [simp]:
  "check_directory st (d\<lparr>dk_control := c\<rparr>) = check_directory st d"
  "check_directory (st\<lparr>st_uncertain := u\<rparr>) d = check_directory st d"
  by (simp_all add: check_directory_def)

lemma snapshot_uncertain [simp]: "snapshot sha (st\<lparr>st_uncertain := u\<rparr>) d = snapshot sha st d"
  by (simp add: snapshot_def)

lemma snapshot_written:
  assumes "check_directory st d = Inr ()" and "control_ok sha s" and "cs_repository_id s = st_repository st"
    and "cs_epoch s = st_epoch st" and "length (control_text s) \<le> CONTROL_MAX_BYTES"
  shows "snapshot sha st (d\<lparr>dk_control := written_file (control_text s)\<rparr>) = Inr s"
  using assms written_control_reads [OF assms(5)] decodeControl_json [OF assms(2)] by (simp add: snapshot_def)

section \<open>Publication\<close>

lemma prepare_Inr:
  assumes "prepare_publication sha repository expected candidate = Inr (before, after)"
  shows "control_ok sha before" "control_ok sha after" "cs_repository_id before = repository" "cs_repository_id after = repository"
    "publication sha before after" "length (control_text after) \<le> CONTROL_MAX_BYTES"
proof -
  from assms have b: "decodeControl sha expected repository = Inr before"
    and a: "decodeControl sha candidate repository = Inr after"
    and tr: "assertControlTransition sha before after = Inr ()" and size: "length (control_text after) \<le> CONTROL_MAX_BYTES"
    by (auto simp: prepare_publication_def andThen_Inr_iff guard_fail_Inr)
  note b' = decodeControl_sound [OF b] and a' = decodeControl_sound [OF a]
  show "control_ok sha before" "control_ok sha after" "cs_repository_id before = repository" "cs_repository_id after = repository"
    "length (control_text after) \<le> CONTROL_MAX_BYTES"
    using a' b' size by simp_all
  show "publication sha before after" using a' b' tr by (simp add: publication.publish)
qed

text \<open>The three ways a publication ends.\<close>

lemma publish_cases:
  assumes "publish sha st d authority env expected candidate = ((st', d'), r)"
  obtains (refused) e where "r = Inl e" "st' = st" "d' = d"
  | (uncertain) before after current where "prepare_publication sha (st_repository st) expected candidate = Inr (before, after)"
      "snapshot sha st d = Inr current" "canonical_hash sha (control_json current) = canonical_hash sha (control_json before)"
      "r = fail ''COORDINATION_PUBLICATION_UNCERTAIN''" "st' = st\<lparr>st_uncertain := True\<rparr>"
      "d' = d \<or> d' = d\<lparr>dk_control := written_file (control_text after)\<rparr>" "assertMutable st authority = Inr ()"
  | (published) before after current where "prepare_publication sha (st_repository st) expected candidate = Inr (before, after)"
      "snapshot sha st d = Inr current" "canonical_hash sha (control_json current) = canonical_hash sha (control_json before)"
      "r = Inr ()" "st' = st" "d' = d\<lparr>dk_control := written_file (control_text after)\<rparr>" "assertMutable st authority = Inr ()"
proof (cases "prepare_publication sha (st_repository st) expected candidate")
  case (Inl e)
  then have "publish sha st d authority env expected candidate = ((st, d), Inl e)" by (simp add: publish_def)
  with assms show thesis by (intro refused [of e]) simp_all
next
  case (Inr p)
  obtain before after where p: "p = (before, after)" by (cases p)
  let ?g = "andThen (assertMutable st authority) (\<lambda>_. andThen (snapshot sha st d) (\<lambda>current.
      guard_fail (canonical_hash sha (control_json current) \<noteq> canonical_hash sha (control_json before)) ''COORDINATION_STALE_RECORD''))"
  show thesis
  proof (cases ?g)
    case (Inl e)
    then have "publish sha st d authority env expected candidate = ((st, d), Inl e)"
      by (simp add: publish_def publish_prepared_def Inr p)
    with assms show thesis by (intro refused [of e]) simp_all
  next
    case g: (Inr u)
    then obtain current where cur: "snapshot sha st d = Inr current" "assertMutable st authority = Inr ()"
      "canonical_hash sha (control_json current) = canonical_hash sha (control_json before)"
      by (auto simp: andThen_Inr_iff guard_fail_Inr)
    obtain renamed outcome where w: "atomicJson env = (renamed, outcome)" by (cases "atomicJson env")
    have renamed: "outcome = Inr () \<Longrightarrow> renamed" using w by (auto simp: atomicJson_def split: sum.splits)
    show thesis
    proof (cases outcome)
      case (Inl e)
      then have "publish sha st d authority env expected candidate
          = ((st\<lparr>st_uncertain := True\<rparr>, fst (write_control env after d)), fail ''COORDINATION_PUBLICATION_UNCERTAIN'')"
        by (simp add: publish_def publish_prepared_def Inr p g w write_control_def)
      with assms Inr p cur w show thesis
        by (intro uncertain [of before after current]) (auto simp: write_control_def split: if_splits)
    next
      case o: (Inr u)
      then have "publish sha st d authority env expected candidate = ((st, d\<lparr>dk_control := written_file (control_text after)\<rparr>), Inr ())"
        using renamed by (simp add: publish_def publish_prepared_def Inr p g w write_control_def)
      with assms Inr p cur show thesis
        by (intro published [of before after current]) simp_all
    qed
  qed
qed

end
