(* ===== verification/Store_Chain.thy ===== *)
theory Store_Chain
  imports Control_Store
begin

text \<open>
  What the store guarantees over its life: whatever fails, the record on disk is always
  one a chain of checked publications leads to, an acknowledged publication is what the
  next snapshot returns, and a publication whose outcome is unknown stops the handle.
\<close>

section \<open>The record on disk\<close>

definition stored :: "(string \<Rightarrow> string) \<Rightarrow> string \<Rightarrow> disk \<Rightarrow> control_state res" where
  "stored sha repository d = andThen (readRecord (dk_control d)) (\<lambda>v. decodeControl sha v repository)"

lemma snapshot_stored: "snapshot sha st d = Inr s \<Longrightarrow> stored sha (st_repository st) d = Inr s"
  by (auto simp: snapshot_def stored_def andThen_Inr_iff guard_fail_Inr)

lemma stored_written:
  assumes "control_ok sha s" and "length (control_text s) \<le> CONTROL_MAX_BYTES"
  shows "stored sha (cs_repository_id s) (d\<lparr>dk_control := written_file (control_text s)\<rparr>) = Inr s"
  using written_control_reads [OF assms(2)] decodeControl_json [OF assms(1)] by (simp add: stored_def)

lemma stored_sound: "stored sha repository d = Inr s \<Longrightarrow> control_ok sha s \<and> cs_repository_id s = repository"
  by (auto simp: stored_def andThen_Inr_iff dest: decodeControl_sound)

text \<open>
  The comparison of the record on disk with the expected one is by hash: the hash does not
  take those two records for one another.
\<close>

definition no_collision :: "(string \<Rightarrow> string) \<Rightarrow> store \<Rightarrow> disk \<Rightarrow> jval \<Rightarrow> bool" where
  "no_collision sha st d expected =
     (case (snapshot sha st d, decodeControl sha expected (st_repository st)) of
        (Inr current, Inr before) \<Rightarrow>
          canonical_hash sha (control_json current) = canonical_hash sha (control_json before) \<longrightarrow> current = before
      | _ \<Rightarrow> True)"

lemma no_collisionD:
  assumes "no_collision sha st d expected" and "prepare_publication sha (st_repository st) expected candidate = Inr (before, after)"
    and "snapshot sha st d = Inr current" and "canonical_hash sha (control_json current) = canonical_hash sha (control_json before)"
  shows "current = before"
  using assms by (auto simp: no_collision_def prepare_publication_def andThen_Inr_iff)

section \<open>One publication\<close>

lemma prepared_candidate:
  "prepare_publication sha repository expected candidate = Inr (before, after)
     \<Longrightarrow> decodeControl sha candidate repository = Inr after \<and> cs_epoch after = cs_epoch before"
  by (auto simp: prepare_publication_def andThen_Inr_iff guard_fail_Inr)

lemma published_snapshot:
  assumes "publish sha st d authority env expected candidate = ((st', d'), Inr ())" and "no_collision sha st d expected"
  obtains before after where "snapshot sha st d = Inr before" "decodeControl sha candidate (st_repository st) = Inr after"
    "snapshot sha st' d' = Inr after" "publication sha before after"
  using assms(1)
proof (cases rule: publish_cases)
  case (published before after current)
  note prep = prepare_Inr [OF published(1)] and cand = prepared_candidate [OF published(1)]
  have "current = before" by (rule no_collisionD [OF assms(2) published(1,2,3)])
  with snapshot_sound [OF published(2)] have dir: "check_directory st d = Inr ()" and epoch: "cs_epoch before = st_epoch st"
    by simp_all
  have "snapshot sha st (d\<lparr>dk_control := written_file (control_text after)\<rparr>) = Inr after"
    by (rule snapshot_written [OF dir prep(2) prep(4) _ prep(6)]) (simp add: cand epoch)
  then show thesis
    using published cand prep(5) \<open>current = before\<close> by (intro that [of before after]) simp_all
qed auto

lemma refused_publication:
  assumes "publish sha st d authority env expected candidate = ((st', d'), Inl e)" and "d' \<noteq> d"
  shows "e = BridgeError ''COORDINATION_PUBLICATION_UNCERTAIN'' \<and> st_uncertain st'"
  using assms(1) by (cases rule: publish_cases) (use assms(2) in auto)

lemma uncertain_refuses:
  assumes "st_uncertain st" and "\<not> st_closed st" and "publish sha st d authority env expected candidate = (x, r)"
  shows "x = (st, d) \<and> r \<noteq> Inr ()"
proof -
  obtain st' d' where x: "x = (st', d')" by (cases x)
  have mutable: "assertMutable st authority = fail ''COORDINATION_REOPEN_REQUIRED''"
    using assms by (simp add: assertMutable_def)
  from assms(3) have "publish sha st d authority env expected candidate = ((st', d'), r)" by (simp add: x)
  then show ?thesis
    by (cases rule: publish_cases) (use mutable x in auto)
qed

section \<open>A write that succeeds\<close>

lemma write_succeeds:
  assumes "\<And>w. env w = Inr ()"
  shows "write_control env s d = (d\<lparr>dk_control := written_file (control_text s)\<rparr>, Inr ())"
  using assms by (simp add: write_control_def atomicJson_def before_rename_def andThen_def finally_res_def)

lemma prepare_checked:
  assumes snap: "snapshot sha st d = Inr s" and ok: "control_ok sha t" and may: "assertControlTransition sha s t = Inr ()"
    and size: "length (control_text t) \<le> CONTROL_MAX_BYTES"
  shows "prepare_publication sha (st_repository st) (control_json s) (control_json t) = Inr (s, t)"
proof -
  note s = snapshot_sound [OF snap] and same = transition_frame [OF may]
  have "decodeControl sha (control_json s) (st_repository st) = Inr s"
    using decodeControl_json [of sha s] s by simp
  moreover have "decodeControl sha (control_json t) (st_repository st) = Inr t"
    using decodeControl_json [OF ok] s same(2) by simp
  ultimately show ?thesis
    using same may size by (simp add: prepare_publication_def andThen_def guard_fail_def)
qed

text \<open>A checked publication whose steps all succeed is acknowledged, and is what the next snapshot reads.\<close>

lemma publish_succeeds:
  assumes snap: "snapshot sha st d = Inr s" and ok: "control_ok sha t" and may: "assertControlTransition sha s t = Inr ()"
    and size: "length (control_text t) \<le> CONTROL_MAX_BYTES" and mut: "assertMutable st authority = Inr ()"
    and env: "\<And>w. env w = Inr ()"
  shows "publish sha st d authority env (control_json s) (control_json t)
      = ((st, d\<lparr>dk_control := written_file (control_text t)\<rparr>), Inr ())
    \<and> snapshot sha st (d\<lparr>dk_control := written_file (control_text t)\<rparr>) = Inr t"
proof -
  note s = snapshot_sound [OF snap] and same = transition_frame [OF may]
  have "publish sha st d authority env (control_json s) (control_json t)
      = ((st, d\<lparr>dk_control := written_file (control_text t)\<rparr>), Inr ())"
    using snap mut write_succeeds [of env t d] prepare_checked [OF snap ok may size]
    by (simp add: publish_def publish_prepared_def andThen_def guard_fail_def env)
  moreover have "snapshot sha st (d\<lparr>dk_control := written_file (control_text t)\<rparr>) = Inr t"
    using s same ok size by (intro snapshot_written) simp_all
  ultimately show ?thesis by simp
qed

text \<open>A write that fails leaves a handle that refuses, on a disk with the old record or the new one.\<close>

lemma failed_publication:
  assumes "publish sha st d authority env expected candidate = ((st', d'), Inl e)"
  shows "(st', d') = (st, d) \<or> e = BridgeError ''COORDINATION_PUBLICATION_UNCERTAIN'' \<and> st_uncertain st'
    \<and> (\<forall>authority'. assertMutable st' authority' \<noteq> Inr ())"
  using assms
  by (cases rule: publish_cases) (auto simp: assertMutable_def andThen_Inr_iff guard_fail_Inr)

section \<open>The life of a store\<close>

inductive store_step :: "(string \<Rightarrow> string) \<Rightarrow> store \<times> disk \<Rightarrow> store \<times> disk \<Rightarrow> bool" for sha where
  publication: "publish sha st d authority env expected candidate = (x, r) \<Longrightarrow> no_collision sha st d expected
     \<Longrightarrow> store_step sha (st, d) x"
| closing: "store_step sha (st, d) (close_store st, d)"
| reopening: "open_store sha linux parent d (st_repository st) = Inr st' \<Longrightarrow> store_step sha (st, d) (st', d)"

inductive_cases store_stepE: "store_step sha x y"

definition reaches :: "(string \<Rightarrow> string) \<Rightarrow> control_state \<Rightarrow> store \<times> disk \<Rightarrow> bool" where
  "reaches sha s0 x = (\<exists>s. stored sha (st_repository (fst x)) (snd x) = Inr s \<and> publications sha s0 s)"

lemma publish_reaches:
  assumes "publish sha st d authority env expected candidate = (x, r)" and "no_collision sha st d expected"
    and "reaches sha s0 (st, d)"
  shows "reaches sha s0 x \<and> st_repository (fst x) = st_repository st"
proof -
  obtain st' d' where x: "x = (st', d')" by (cases x)
  from assms(3) obtain s where s: "stored sha (st_repository st) d = Inr s" "publications sha s0 s"
    by (auto simp: reaches_def)
  have next_record: "reaches sha s0 (st\<lparr>st_uncertain := u\<rparr>, d\<lparr>dk_control := written_file (control_text after)\<rparr>)"
    if prep: "prepare_publication sha (st_repository st) expected candidate = Inr (before, after)"
      and cur: "snapshot sha st d = Inr current"
        "canonical_hash sha (control_json current) = canonical_hash sha (control_json before)" for before after current u
  proof -
    have "current = before" by (rule no_collisionD [OF assms(2) prep cur])
    with snapshot_stored [OF cur(1)] s(1) have "s = before" by simp
    with s(2) prepare_Inr(5) [OF prep] have "publications sha s0 after" by (simp add: rtranclp.rtrancl_into_rtrancl)
    with stored_written [OF prepare_Inr(2) [OF prep] prepare_Inr(6) [OF prep], of d] prepare_Inr(4) [OF prep]
    show ?thesis by (auto simp: reaches_def)
  qed
  from assms(1) have "publish sha st d authority env expected candidate = ((st', d'), r)" by (simp add: x)
  then show ?thesis
  proof (cases rule: publish_cases)
    case refused with assms(3) x show ?thesis by simp
  next
    case (uncertain before after current)
    have "reaches sha s0 (st\<lparr>st_uncertain := True\<rparr>, d)" using s by (auto simp: reaches_def)
    with next_record [OF uncertain(1-3), of True] uncertain(5,6) x show ?thesis by auto
  next
    case (published before after current)
    with next_record [OF published(1-3), of "st_uncertain st"] x show ?thesis by simp
  qed
qed

lemma open_store_repository: "open_store sha linux parent d repository = Inr st \<Longrightarrow> st_repository st = repository"
  by (auto simp: open_store_def andThen_Inr_iff Let_def)

lemma store_step_reaches:
  assumes "store_step sha x y" and "reaches sha s0 x"
  shows "reaches sha s0 y"
  using assms(1)
proof (cases rule: store_step.cases)
  case (publication st d authority env expected candidate r)
  with publish_reaches [OF publication(2,3)] assms(2) show ?thesis by simp
next
  case (closing st d) with assms(2) show ?thesis by (simp add: reaches_def close_store_def)
next
  case (reopening linux parent d st st')
  with open_store_repository assms(2) show ?thesis by (auto simp: reaches_def)
qed

lemma store_run_reaches:
  assumes "(store_step sha)\<^sup>*\<^sup>* x y" and "reaches sha s0 x"
  shows "reaches sha s0 y"
  using assms by (induction rule: rtranclp_induct) (auto intro: store_step_reaches)

end
