(* ===== verification/Control_Ledger.thy ===== *)
theory Control_Ledger
  imports Store_Chain Control_Service
begin

text \<open>
  What the service relies on in its store, as the locale \<open>ledger\<close>, and the section that every
  operation runs: read the record, decide, publish, answer (src/src/coordination/control.ts,
  \<open>#ordering.run\<close> of each operation and \<open>#publish\<close>). The durable store of
  src/src/store/coordination-store.ts provides the interface.
\<close>

section \<open>A section\<close>

definition decided :: "('st \<Rightarrow> 'env \<Rightarrow> unit res) \<Rightarrow> ('st \<Rightarrow> control_state res) \<Rightarrow> 'st \<Rightarrow> 'env
    \<Rightarrow> (control_state \<Rightarrow> 'a outcome_of res) \<Rightarrow> (control_state \<times> 'a outcome_of) res" where
  "decided ready view st e d =
     andThen (ready st e) (\<lambda>_. andThen (view st) (\<lambda>s. andThen (d s) (\<lambda>x. Inr (s, x))))"

definition serve :: "('st \<Rightarrow> 'env \<Rightarrow> unit res) \<Rightarrow> ('st \<Rightarrow> control_state res)
    \<Rightarrow> ('st \<Rightarrow> 'env \<Rightarrow> control_state \<Rightarrow> control_state \<Rightarrow> 'st \<times> unit res) \<Rightarrow> 'st \<Rightarrow> 'env
    \<Rightarrow> (control_state \<Rightarrow> 'a outcome_of res) \<Rightarrow> 'st \<times> 'a res" where
  "serve ready view put st e d =
     (case decided ready view st e d of
        Inl x \<Rightarrow> (st, Inl x)
      | Inr (s, Retained a) \<Rightarrow> (st, Inr a)
      | Inr (s, Publication t a) \<Rightarrow>
          (case put st e s t of (st', Inl x) \<Rightarrow> (st', Inl x) | (st', Inr _) \<Rightarrow> (st', Inr a)))"

text \<open>The states of a sequence of sections.\<close>

fun served :: "('st \<Rightarrow> 'env \<Rightarrow> unit res) \<Rightarrow> ('st \<Rightarrow> control_state res)
    \<Rightarrow> ('st \<Rightarrow> 'env \<Rightarrow> control_state \<Rightarrow> control_state \<Rightarrow> 'st \<times> unit res) \<Rightarrow> 'st
    \<Rightarrow> ('env \<times> (control_state \<Rightarrow> 'a outcome_of res)) list \<Rightarrow> 'st" where
  "served ready view put st [] = st"
| "served ready view put st ((e, d) # ops) = served ready view put (fst (serve ready view put st e d)) ops"

lemma decided_Inr:
  "(decided ready view st e d = Inr (s, x)) = (ready st e = Inr () \<and> view st = Inr s \<and> d s = Inr x)"
  by (auto simp: decided_def andThen_Inr_iff)

section \<open>The interface\<close>

locale ledger =
  fixes sha :: "string \<Rightarrow> string"
    and ready :: "'st \<Rightarrow> 'env \<Rightarrow> unit res"
    and view :: "'st \<Rightarrow> control_state res"
    and put :: "'st \<Rightarrow> 'env \<Rightarrow> control_state \<Rightarrow> control_state \<Rightarrow> 'st \<times> unit res"
  assumes view_sound: "view st = Inr s \<Longrightarrow> control_ok sha s"
    and put_done: "view st = Inr s \<Longrightarrow> put st e s t = (st', Inr ())
      \<Longrightarrow> \<exists>u. view st' = Inr u \<and> publication sha s u \<and> (control_ok sha t \<longrightarrow> u = t)"
    and put_failed: "view st = Inr s \<Longrightarrow> put st e s t = (st', Inl x)
      \<Longrightarrow> view st' = Inr s \<or> (\<exists>u. view st' = Inr u \<and> publication sha s u) \<and> (\<forall>e. ready st' e \<noteq> Inr ())"
begin

text \<open>An answer is retained, or it is that of a record that is now stored.\<close>

lemma serve_answer:
  assumes "serve ready view put st e d = (st', Inr a)"
  shows "\<exists>s. view st = Inr s \<and> (d s = Inr (Retained a) \<and> st' = st
    \<or> (\<exists>t u. d s = Inr (Publication t a) \<and> view st' = Inr u \<and> publication sha s u \<and> (control_ok sha t \<longrightarrow> u = t)))"
proof -
  from assms obtain s x where d: "decided ready view st e d = Inr (s, x)"
    by (auto simp: serve_def split: sum.splits prod.splits)
  then have s: "view st = Inr s" "d s = Inr x" by (simp_all add: decided_Inr)
  show ?thesis
  proof (cases x)
    case (Retained b)
    with d s assms show ?thesis by (auto simp: serve_def)
  next
    case (Publication t b)
    from d Publication assms have "put st e s t = (st', Inr ())" "b = a"
      by (auto simp: serve_def split: sum.splits prod.splits)
    with put_done [OF s(1), of e t st'] s Publication show ?thesis by blast
  qed
qed

text \<open>Whatever is decided, the stored record moves along publications only.\<close>

lemma serve_chain:
  assumes "view st = Inr s" and "serve ready view put st e d = (st', r)"
  shows "\<exists>t. view st' = Inr t \<and> publications sha s t"
proof (cases "decided ready view st e d")
  case (Inl x)
  with assms show ?thesis by (auto simp: serve_def)
next
  case (Inr y)
  obtain u x where y: "y = (u, x)" by (cases y)
  with Inr assms(1) have u: "u = s" "d s = Inr x" by (simp_all add: decided_Inr)
  show ?thesis
  proof (cases x)
    case (Retained a)
    with Inr y assms show ?thesis by (auto simp: serve_def)
  next
    case (Publication t a)
    obtain st2 r2 where p: "put st e s t = (st2, r2)" by (cases "put st e s t")
    with Inr y u Publication assms(2) have st2: "st' = st2" by (auto simp: serve_def split: sum.splits)
    show ?thesis
    proof (cases r2)
      case (Inl x)
      then show ?thesis using put_failed [OF assms(1), of e t st2 x] p st2 by auto
    next
      case (Inr z)
      then show ?thesis using put_done [OF assms(1), of e t st2] p st2 by auto
    qed
  qed
qed

lemma served_chain:
  assumes "view st = Inr s"
  shows "\<exists>t. view (served ready view put st ops) = Inr t \<and> publications sha s t"
  using assms
proof (induction ops arbitrary: st s)
  case (Cons op ops)
  obtain e d where op: "op = (e, d)" by (cases op)
  obtain st' r where st': "serve ready view put st e d = (st', r)" by (cases "serve ready view put st e d")
  obtain t where t: "view st' = Inr t" "publications sha s t" using serve_chain [OF Cons.prems st'] by blast
  obtain u where "view (served ready view put st' ops) = Inr u" "publications sha t u" using Cons.IH [OF t(1)] by blast
  with t st' op show ?case by auto
qed auto

text \<open>An acknowledged publication stays: every later record comes after it.\<close>

lemma acknowledged_stays:
  assumes "serve ready view put st e d = (st', Inr a)" and "view st = Inr s"
    and "d s = Inr (Publication t b)" and "control_ok sha t"
  shows "\<exists>u. view (served ready view put st' ops) = Inr u \<and> publications sha t u"
proof -
  have "view st' = Inr t" using serve_answer [OF assms(1)] assms(2-4) by auto
  with served_chain [of st' t ops] show ?thesis by blast
qed

end

section \<open>The durable store\<close>

definition store_ready :: "store \<times> disk \<Rightarrow> unit res \<times> (write_step \<Rightarrow> unit res) \<Rightarrow> unit res" where
  "store_ready x e = assertMutable (fst x) (fst e)"

definition store_view :: "(string \<Rightarrow> string) \<Rightarrow> store \<times> disk \<Rightarrow> control_state res" where
  "store_view sha x = snapshot sha (fst x) (snd x)"

definition store_put :: "(string \<Rightarrow> string) \<Rightarrow> store \<times> disk \<Rightarrow> unit res \<times> (write_step \<Rightarrow> unit res) \<Rightarrow> control_state
    \<Rightarrow> control_state \<Rightarrow> (store \<times> disk) \<times> unit res" where
  "store_put sha x e s t = publish sha (fst x) (snd x) (fst e) (snd e) (control_json s) (control_json t)"

lemma control_repository:
  assumes "decodeControl sha (control_json t) r = Inr x"
  shows "cs_repository_id t = r"
proof -
  obtain kvs where kvs: "control_json t = JObj kvs" by (simp add: control_json_def)
  have "prop_of kvs ''repository_id'' = JStr (cs_repository_id t)"
    unfolding kvs [symmetric, unfolded control_json_def jval.inject] by simp
  moreover from assms have "text_of (prop_of kvs ''repository_id'') 256 False = Inr r"
    unfolding decodeControl_def kvs andThen_Inr_iff guard_fail_Inr by (elim exE conjE) (simp add: as_object_Inr)
  ultimately show ?thesis by (simp add: text_of_Inr)
qed

lemma put_prepared:
  assumes "snapshot sha st d = Inr s"
    and "prepare_publication sha (st_repository st) (control_json s) (control_json t) = Inr (before, after)"
  shows "before = s" "control_ok sha t \<Longrightarrow> after = t" "publication sha s after"
    "snapshot sha st (d\<lparr>dk_control := written_file (control_text after)\<rparr>) = Inr after"
proof -
  note s = snapshot_sound [OF assms(1)] and p = prepare_Inr [OF assms(2)]
  from assms(2) have b: "decodeControl sha (control_json s) (st_repository st) = Inr before"
    and a: "decodeControl sha (control_json t) (st_repository st) = Inr after" and ep: "cs_epoch after = cs_epoch before"
    by (auto simp: prepare_publication_def andThen_Inr_iff guard_fail_Inr)
  show bs: "before = s" using b s decodeControl_json [of sha s] by (metis sum.inject(2))
  show "control_ok sha t \<Longrightarrow> after = t"
    using a control_repository [OF a] decodeControl_json [of sha t] by (metis sum.inject(2))
  show "publication sha s after" using p(5) bs by simp
  show "snapshot sha st (d\<lparr>dk_control := written_file (control_text after)\<rparr>) = Inr after"
    using s p(2,4,6) ep bs by (intro snapshot_written) simp_all
qed

interpretation durable: ledger sha store_ready "store_view sha" "store_put sha"
proof unfold_locales
  fix x s
  assume "store_view sha x = Inr s"
  then show "control_ok sha s" using snapshot_sound by (auto simp: store_view_def)
next
  fix x s e t x'
  assume v: "store_view sha x = Inr s" and p: "store_put sha x e s t = (x', Inr ())"
  have snap: "snapshot sha (fst x) (snd x) = Inr s" using v by (simp add: store_view_def)
  obtain st' d' where x': "x' = (st', d')" by (cases x')
  from p x' have pub: "publish sha (fst x) (snd x) (fst e) (snd e) (control_json s) (control_json t) = ((st', d'), Inr ())"
    by (simp add: store_put_def)
  from pub show "\<exists>u. store_view sha x' = Inr u \<and> publication sha s u \<and> (control_ok sha t \<longrightarrow> u = t)"
  proof (cases rule: publish_cases)
    case (published before after current)
    with put_prepared [OF snap published(1)] show ?thesis by (auto simp: store_view_def x')
  qed simp_all
next
  fix x s e t x' err
  assume v: "store_view sha x = Inr s" and p: "store_put sha x e s t = (x', Inl err)"
  have snap: "snapshot sha (fst x) (snd x) = Inr s" using v by (simp add: store_view_def)
  obtain st' d' where x': "x' = (st', d')" by (cases x')
  from p x' have pub: "publish sha (fst x) (snd x) (fst e) (snd e) (control_json s) (control_json t) = ((st', d'), Inl err)"
    by (simp add: store_put_def)
  from pub show "store_view sha x' = Inr s
    \<or> (\<exists>u. store_view sha x' = Inr u \<and> publication sha s u) \<and> (\<forall>e. store_ready x' e \<noteq> Inr ())"
  proof (cases rule: publish_cases)
    case (uncertain before after current)
    note prep = put_prepared [OF snap uncertain(1)]
    have "store_ready x' e \<noteq> Inr ()" for e
      using uncertain(5) by (auto simp: x' store_ready_def assertMutable_def andThen_Inr_iff guard_fail_Inr)
    then show ?thesis using uncertain(5,6) prep snap by (auto simp: store_view_def x')
  qed (use snap in \<open>auto simp: store_view_def x'\<close>)
qed

end
