(* ===== verification/Service_Observed.thy ===== *)
theory Service_Observed
  imports Control_Service Control_Publish_Cases Control_Follow
begin

text \<open>
  The publications of an elected service on an observed case: an extension by one work and an
  observed delivery. Each yields a record the reader accepts and that may follow its
  predecessor.
\<close>

section \<open>A receipt of the service\<close>

lemma record_change_Inr:
  "(record_change n p k h a e i = Inr (Publication t r)) =
     (r = \<lparr>rc_owner = p, rc_key = k, rc_request_hash = h, rc_revision = cs_revision n + 1, rc_action = a, rc_entity = e, rc_item_id = i\<rparr>
    \<and> t = n\<lparr>cs_revision := cs_revision n + 1, cs_receipts := cs_receipts n @ [r]\<rparr> \<and> checkCapacity t = Inr ())"
  by (auto simp: record_change_def retain_def Let_def checked_publication_def andThen_Inr_iff)

text \<open>An authenticated operation with a new key in an accepted record.\<close>

definition operating :: "(string \<Rightarrow> string) \<Rightarrow> control_state \<Rightarrow> string \<Rightarrow> string \<Rightarrow> bool" where
  "operating sha s p k = (control_ok sha s \<and> sha_hex sha \<and> parent_ok p \<and> key_ok k \<and> key_unused s p k
     \<and> int (cs_revision s + 1) \<le> MAX_SAFE_INTEGER)"

lemma operatingD:
  assumes "operating sha s p k"
  shows "control_ok sha s" "sha_hex sha" "parent_ok p" "key_ok k" "key_unused s p k" "int (cs_revision s + 1) \<le> MAX_SAFE_INTEGER"
  using assms by (simp_all add: operating_def)

lemma record_change_fits:
  assumes op: "operating sha s p k" and res: "record_change n p k h a e i = Inr (Publication t r)"
    and same: "same_rest s n" and ids: "parent_ok h" "subject_ok e" "entity_ok i"
  shows "fits sha s t r"
proof -
  note op' = operatingD [OF op]
  from res same have t: "t = n\<lparr>cs_revision := cs_revision s + 1, cs_receipts := cs_receipts s @ [r]\<rparr>"
    and r: "r = \<lparr>rc_owner = p, rc_key = k, rc_request_hash = h, rc_revision = cs_revision s + 1, rc_action = a, rc_entity = e, rc_item_id = i\<rparr>"
    by (simp_all add: record_change_Inr same_rest_def)
  from res have cap: "checkCapacity t = Inr ()" unfolding record_change_Inr by blast
  have "cs_schema s \<le> OBSERVED_CASE_CONTROL_SCHEMA"
    using control_okD(1) [OF op'(1)] by (simp add: control_records_ok_def)
  moreover have "ordinary_step s t r" using same by (simp add: t r ordinary_step_def same_identity_def same_rest_def)
  moreover have "receipt_ok r" using op' ids by (simp add: r receipt_ok_def counter_ok_def)
  moreover have "controlReceiptCount t \<le> lim_receipts (cs_limits t)" using checkCapacityD(4) [OF cap] by simp
  ultimately show ?thesis using op' same by (simp add: fits_def r t same_rest_def)
qed

lemma owner_command_hash_ok: "sha_hex sha \<Longrightarrow> parent_ok (owner_command_hash sha p v)"
  by (simp add: owner_command_hash_def sha_hex_def canonical_hash_def)

lemma observed_schema:
  assumes "control_ok sha s" and "find_case s i = Some c" and "c_observed_origin c \<noteq> None"
  shows "cs_schema s = OBSERVED_CASE_CONTROL_SCHEMA"
proof -
  have "c \<in> set (cs_cases s)" using find_case_iff [OF assms(1)] assms(2) by simp
  moreover have "case_observed c" using assms(3) by (simp add: case_observed_def)
  ultimately have "\<not> cs_schema s < OBSERVED_CASE_CONTROL_SCHEMA"
    using control_okD(2) [OF assms(1)] by (auto simp: version_features_ok_def)
  then show ?thesis using control_okD(1) [OF assms(1)] by (simp add: control_records_ok_def)
qed

lemma observed_case_accepted:
  assumes op: "operating sha s p k" and res: "record_change (change_case i f s) p k h a (case_subject i) i = Inr (Publication t r)"
    and c: "find_case s i = Some c" and obs: "c_observed_origin c \<noteq> None" and hash: "parent_ok h" and act: "a \<noteq> A_register_task_work"
    and f: "\<And>c. c_id (f c) = c_id c \<and> c_target (f c) = c_target c \<and> c_state (f c) = c_state c"
    and fc: "case_ok (f c)" "\<And>t. cs_works t = cs_works s \<Longrightarrow> cs_revision t = cs_revision s + 1 \<Longrightarrow> case_authority_ok t (f c)"
  shows "control_ok sha t" "ordinary_step s t r" "cs_cases t = map (\<lambda>c. if c_id c = i then f c else c) (cs_cases s)"
    "cs_works t = cs_works s" "cs_notes t = cs_notes s" "cs_schema t = cs_schema s"
    "r = \<lparr>rc_owner = p, rc_key = k, rc_request_hash = h, rc_revision = cs_revision s + 1, rc_action = a,
       rc_entity = case_subject i, rc_item_id = i\<rparr>"
proof -
  note op' = operatingD [OF op] and cm = case_members [OF operatingD(1) [OF op] c]
  from res have t: "t = (change_case i f s)\<lparr>cs_revision := cs_revision s + 1, cs_receipts := cs_receipts s @ [r]\<rparr>"
    and r: "r = \<lparr>rc_owner = p, rc_key = k, rc_request_hash = h, rc_revision = cs_revision s + 1, rc_action = a,
      rc_entity = case_subject i, rc_item_id = i\<rparr>"
    by (simp_all add: record_change_Inr change_case_def)
  have fit: "fits sha s t r"
    by (rule record_change_fits [OF op res _ hash]) (simp_all add: subject_ok_def cm(3))
  show cases: "cs_cases t = map (\<lambda>c. if c_id c = i then f c else c) (cs_cases s)" by (simp add: t change_case_eq [OF op'(1)])
  show rest: "cs_works t = cs_works s" "cs_notes t = cs_notes s" "cs_schema t = cs_schema s" by (simp_all add: t change_case_def)
  show "ordinary_step s t r" by (rule fitsD(2) [OF fit])
  show "r = \<lparr>rc_owner = p, rc_key = k, rc_request_hash = h, rc_revision = cs_revision s + 1, rc_action = a,
       rc_entity = case_subject i, rc_item_id = i\<rparr>" by (rule r)
  have schema: "\<not> cs_schema t < OBSERVED_CASE_CONTROL_SCHEMA" using observed_schema [OF op'(1) c obs] rest(3) by simp
  show "control_ok sha t"
    by (rule control_ok_change_case [OF fit rest(3) _ _ _ _ c rest(1,2) cases _ fc(1) fc(2)])
       (use act schema f in \<open>simp_all add: r t change_case_def\<close>)
qed

lemma observed_case_follows:
  assumes ok: "control_ok sha s" and st: "ordinary_step s t r"
    and cases: "cs_cases t = map (\<lambda>c. if c_id c = i then f c else c) (cs_cases s)"
    and rest: "cs_works t = cs_works s" "cs_notes t = cs_notes s" "cs_schema t = cs_schema s"
    and c: "find_case s i = Some c" and item: "rc_item_id r = i" and idf: "\<And>c. c_id (f c) = c_id c"
    and act: "rc_action r = A_extend_observed_case \<or> rc_action r = A_observe_case_delivery"
    and step: "find_case t i = Some (f c) \<Longrightarrow> case_transition sha s t None c = Inr ()"
  shows "assertControlTransition sha s t = Inr ()"
proof (rule same_works_publication [OF ok st rest(1)])
  show "schema_step_ok s t" by (simp add: schema_step_ok_def rest(3))
  show "rc_action r \<notin> {A_register_task_work, A_grant_source, A_watch_source}" using act by auto
  show "note_transition_ok t n" if "n \<in> set (cs_notes s)" for n
    by (rule same_notes_transition [OF ok _ that, of t "[]"]) (use rest in simp)
  fix x assume x: "x \<in> set (cs_cases s)"
  have find: "find_case t j = map_option (\<lambda>c. if c_id c = i then f c else c) (find_case s j)" for j
    unfolding find_case_def cases by (rule find_map_upd) (simp add: idf)
  have xs: "find_case s (c_id x) = Some x" using find_case_iff [OF ok] x by simp
  have ci: "c_id c = i" using find_case_iff [OF ok] c by simp
  show "case_transition sha s t None x = Inr ()"
  proof (cases "c_id x = i")
    case True
    then have "x = c" using xs c by simp
    then show ?thesis using step find [of i] c ci by simp
  next
    case False
    then have "find_case t (c_id x) = Some x" by (simp add: find xs)
    with False item show ?thesis
      by (auto simp: case_transition_def appended_action_ordinary [OF st] case_identity_ok_def)
  qed
qed

section \<open>Extension by one work\<close>

lemma extend_Inr:
  assumes "extendObservedCase sha m s (JStr p) i = Inr (Publication t r)"
  obtains k ci new c selected added h where "parent_ok p" "key_ok k" "key_unused s p k" "xi_case_id i = JStr ci"
    "ownCase s p ci (xi_expected_revision i) (xi_generation i) = Inr c"
    "h = owner_command_hash sha p (extend_observed_json k ci (xi_expected_revision i) (xi_generation i) new (Some (xi_target_oid i)))"
    "c_observed_origin c = Some Selected_origin" "c_external_effect c = Not_started"
    "map_res (\<lambda>i. visibleWork sha s p (sel_work_id i)) (c_inputs c) = Inr selected" "find_work s new = Some added"
    "\<forall>w \<in> set selected. w_id w \<noteq> w_id added" "extension_scope_ok c selected added (xi_target_oid i)"
    "\<not> MAX_PARTIES < length (uniq (c_members c @ [w_owner added]))"
    "record_change (change_case (c_id c) (extended_case (uniq (c_members c @ [w_owner added])) selected added) s) p k h
       A_extend_observed_case (case_subject (c_id c)) (c_id c) = Inr (Publication t r)"
proof -
  from assms obtain k ci new c where k: "parent_ok p" "xi_case_id i = JStr ci" "key_ok k"
    "receipt_for s p k = None" "\<not> (recovery_key s p k \<or> event_key s p k)"
    and c: "ownCase s p ci (xi_expected_revision i) (xi_generation i) = Inr c"
    and e: "extend_case sha m s p k (owner_command_hash sha p (extend_observed_json k ci (xi_expected_revision i) (xi_generation i) new
        (Some (xi_target_oid i)))) c new (xi_target_oid i) = Inr (Publication t r)"
    unfolding extendObservedCase_def Let_def andThen_Inr_iff guard_fail_Inr identity_Inr
    by (elim exE conjE) (auto simp: andThen_Inr_iff guard_fail_Inr split: option.splits if_splits)
  from e obtain selected added where
    "c_observed_origin c = Some Selected_origin" "c_external_effect c = Not_started"
    "map_res (\<lambda>i. visibleWork sha s p (sel_work_id i)) (c_inputs c) = Inr selected" "find_work s new = Some added"
    "\<forall>w \<in> set selected. w_id w \<noteq> w_id added" "extension_scope_ok c selected added (xi_target_oid i)"
    "\<not> MAX_PARTIES < length (uniq (c_members c @ [w_owner added]))"
    "record_change (change_case (c_id c) (extended_case (uniq (c_members c @ [w_owner added])) selected added) s) p k
       (owner_command_hash sha p (extend_observed_json k ci (xi_expected_revision i) (xi_generation i) new (Some (xi_target_oid i))))
       A_extend_observed_case (case_subject (c_id c)) (c_id c) = Inr (Publication t r)"
    unfolding extend_case_def Let_def andThen_Inr_iff guard_fail_Inr
    by (elim exE conjE) (auto simp: andThen_Inr_iff guard_fail_Inr split: option.splits)
  moreover have "key_unused s p k"
    using k(4,5) by (auto simp: key_unused_def receipt_for_def recovery_key_def event_key_def find_None_iff_all)
  ultimately show thesis using k c by (intro that) simp_all
qed

lemma visible_works:
  assumes "control_ok sha s" and "map_res (\<lambda>i. visibleWork sha s p (sel_work_id i)) ins = Inr ws"
  shows "map w_id ws = map sel_work_id ins \<and> map Some ws = map (\<lambda>i. find_work s (sel_work_id i)) ins"
  using assms(2)
proof (induction ins arbitrary: ws)
  case (Cons i ins)
  then obtain w vs where w: "visibleWork sha s p (sel_work_id i) = Inr w" and vs: "ws = w # vs"
    "map_res (\<lambda>i. visibleWork sha s p (sel_work_id i)) ins = Inr vs"
    by (auto simp: andThen_Inr_iff)
  have "find_work s (sel_work_id i) = Some w" using w by (auto simp: visibleWork_def split: option.splits if_splits)
  moreover from this have "w_id w = sel_work_id i" using find_work_iff [OF assms(1)] by blast
  ultimately show ?case using Cons.IH [OF vs(2)] vs(1) by simp
qed simp

lemma visible_member:
  assumes "control_ok sha s" and "map_res (\<lambda>i. visibleWork sha s p (sel_work_id i)) (ins :: selection list) = Inr ws" and "w \<in> set ws"
  shows "w \<in> set (cs_works s)"
proof -
  obtain i :: selection where "visibleWork sha s p (sel_work_id i) = Inr w" using map_res_Inr_set [OF assms(2,3)] by auto
  then have "find_work s (sel_work_id i) = Some w" by (auto simp: visibleWork_def split: option.splits if_splits)
  then show ?thesis using find_work_iff [OF assms(1)] by blast
qed

text \<open>The bookkeeping of the case stays within the bounds of the reader.\<close>

definition extension_room :: "case_rec \<Rightarrow> bool" where
  "extension_room c = (length (c_inputs c) < MAX_PARTIES \<and> spread_in_order c)"

lemma added_delta_ok:
  assumes "work_ok w" and "w_managed w = Some k" and "parents_ok members"
  shows "delta_ok (added_delta members w)"
proof -
  have "parents_ok (filter (\<lambda>p. \<not> canReadWork p w) members)"
    using assms(3) by (auto simp: parents_ok_def list_ok_def unique_by_def distinct_map_filter intro: le_trans [OF length_filter_le])
  with assms(1,2) show ?thesis by (simp add: delta_ok_def added_delta_def work_ok_def managed_ok_def)
qed

lemma extended_case_ok:
  assumes ok: "control_ok sha s" and c: "find_case s ci = Some c" and room: "extension_room c"
    and sel: "map_res (\<lambda>i. visibleWork sha s p (sel_work_id i)) (c_inputs c) = Inr selected"
    and added: "find_work s new = Some added" "\<forall>w \<in> set selected. w_id w \<noteq> w_id added"
    and scope: "extension_scope_ok c selected added oid"
    and members: "ms = uniq (c_members c @ [w_owner added])" "\<not> MAX_PARTIES < length ms"
    and max: "int (cs_revision s + 1) \<le> MAX_SAFE_INTEGER"
  shows "case_ok (extended_case ms selected added c)"
proof -
  note cm = case_members [OF ok c] and vis = visible_works [OF ok sel]
  have aw: "added \<in> set (cs_works s)" using find_work_iff [OF ok] added(1) by blast
  note mem = visible_member [OF ok sel]
  have wok: "work_ok w \<and> (\<exists>k. w_managed w = Some k)" if "w \<in> set (selected @ [added])" for w
    using that mem aw control_members(1) [OF ok] scope by (auto simp: extension_scope_ok_def)
  have parents: "parents_ok ms"
    unfolding members(1)
  proof (rule parents_ok_uniq)
    show "parent_ok x" if "x \<in> set (c_members c @ [w_owner added])" for x
      using that cm(1) wok [of added] by (auto simp: case_ok_def parents_ok_def list_ok_def work_ok_def)
  qed (use members in simp)
  have ids: "map sel_work_id (c_inputs c) @ [w_id added] = map w_id (selected @ [added])" using vis by simp
  have dist: "distinct (map w_id (selected @ [added]))"
  proof -
    have "distinct (map w_id selected)" using cm(1) vis by (simp add: case_ok_def selections_ok_def list_ok_def unique_by_def)
    moreover have "w_id added \<notin> w_id ` set selected" using added(2) by force
    ultimately show ?thesis by simp
  qed
  have "deltas_ok (map (added_delta ms) (selected @ [added]))"
  proof -
    have "map vd_work_id (map (added_delta ms) (selected @ [added])) = map w_id (selected @ [added])" by (simp add: added_delta_def)
    moreover have "delta_ok (added_delta ms w)" if "w \<in> set (selected @ [added])" for w
      using wok [OF that] added_delta_ok [OF _ _ parents] by blast
    ultimately show ?thesis
      using dist room vis unfolding deltas_ok_def list_ok_def unique_by_def extension_room_def
      by (metis (no_types, lifting) imageE length_append_singleton length_map less_eq_Suc_le list.set_map)
  qed
  moreover have "entities_ok MAX_PARTIES (map sel_work_id (c_inputs c) @ [w_id added])"
  proof -
    have "entity_ok x" if "x \<in> set (map w_id (selected @ [added]))" for x using that wok by (auto simp: work_ok_def)
    moreover have "length (map sel_work_id (c_inputs c) @ [w_id added]) \<le> MAX_PARTIES"
      using room by (simp add: extension_room_def)
    ultimately show ?thesis using dist ids unfolding entities_ok_def list_ok_def unique_by_def by (metis list.map_ident)
  qed
  moreover have "selections_ok (c_inputs c @ [\<lparr>sel_work_id = w_id added, sel_commit_oid = w_input_oid added\<rparr>])"
    using cm(1) wok [of added] dist ids room
    by (auto simp: case_ok_def selections_ok_def list_ok_def unique_by_def selection_ok_def work_ok_def extension_room_def
        MAX_PARTIES_def MAX_REGIONS_def)
  moreover have "counter_ok (c_revision c + 1)" using counter_Suc [OF _ cm(4) max] cm(1) by (simp add: case_ok_def)
  ultimately show ?thesis
    using cm(1) parents by (simp add: case_ok_def extended_case_def observeds_ok_def list_ok_def)
qed

lemma extended_case_fields [simp]:
  "c_id (extended_case ms ws w c) = c_id c" "c_target (extended_case ms ws w c) = c_target c"
  "c_state (extended_case ms ws w c) = c_state c" "c_revision (extended_case ms ws w c) = c_revision c + 1"
  "c_generation (extended_case ms ws w c) = c_generation c" "c_lead (extended_case ms ws w c) = c_lead c"
  "c_target_oid (extended_case ms ws w c) = c_target_oid c"
  by (simp_all add: extended_case_def)

lemma extended_case_authority:
  assumes ok: "control_ok sha s" and c: "find_case s ci = Some c"
    and orig: "c_observed_origin c = Some Selected_origin" "c_external_effect c = Not_started"
    and sel: "map_res (\<lambda>i. visibleWork sha s p (sel_work_id i)) (c_inputs c) = Inr selected"
    and added: "find_work s new = Some added" and scope: "extension_scope_ok c selected added oid"
    and members: "ms = uniq (c_members c @ [w_owner added])"
    and t: "cs_works t = cs_works s" "cs_revision t = cs_revision s + 1"
  shows "case_authority_ok t (extended_case ms selected added c)"
proof -
  let ?d = "extended_case ms selected added c"
  note cm = case_members [OF ok c] and vis = visible_works [OF ok sel] and mem = visible_member [OF ok sel]
  have find: "find_work t = find_work s" by (simp add: find_work_def fun_eq_iff t)
  have aw: "added \<in> set (cs_works s)" using find_work_iff [OF ok] added by blast
  have found: "find_work s (w_id w) = Some w" if "w \<in> set (selected @ [added])" for w
    using that mem aw find_work_iff [OF ok] by auto
  have ids: "input_ids ?d = w_id ` set (selected @ [added])"
  proof -
    have "set (map sel_work_id (c_inputs c)) = set (map w_id selected)" using vis by simp
    then show ?thesis by (simp add: input_ids_def extended_case_def)
  qed
  have managed: "\<exists>k. w_managed w = Some k" if "w \<in> set (selected @ [added])" for w
    using that scope by (auto simp: extension_scope_ok_def)
  have delta: "delta_authority_ok t ?d (added_delta ms w)" if w: "w \<in> set (selected @ [added])" for w
  proof -
    obtain k where "w_managed w = Some k" using managed [OF w] by blast
    moreover have "c_members ?d = ms" by (simp add: extended_case_def)
    ultimately show ?thesis
      using w found [OF w] unfolding delta_authority_ok_def ids find
      by (auto simp: added_delta_def canReadWork_def)
  qed
  have old: "input_format_ok s c i" if "i \<in> set (c_inputs c)" for i
    using cm(2) that by (simp add: case_authority_ok_def)
  have aok: "length (w_input_oid added) = oid_length (w_object_format added)"
    using control_members(1) [OF ok aw] by (simp add: work_ok_def)
  obtain x where x: "x \<in> set selected" using scope by (cases selected) (auto simp: extension_scope_ok_def)
  then obtain i where i: "i \<in> set (c_inputs c)" "sel_work_id i = w_id x"
    using vis by (metis (mono_tags) imageE image_eqI list.set_map)
  have target: "length o' = oid_length (w_object_format added)" if "c_target_oid c = Some o'" for o'
    using old [OF i(1)] found [of x] x i(2) that scope by (auto simp: input_format_ok_def extension_scope_ok_def)
  have fmt: "input_format_ok t ?d j" if "j \<in> set (c_inputs ?d)" for j
  proof -
    from that consider "j \<in> set (c_inputs c)" | "j = \<lparr>sel_work_id = w_id added, sel_commit_oid = w_input_oid added\<rparr>"
      by (auto simp: extended_case_def)
    then show ?thesis
    proof cases
      case 1
      with old [OF 1] show ?thesis by (simp add: input_format_ok_def find cong: option.case_cong)
    next
      case 2
      then show ?thesis using found [of added] aok target
        by (auto simp: input_format_ok_def find split: option.split)
    qed
  qed
  have "c_target_oid c \<noteq> None" using scope by (metis extension_scope_ok_def option.distinct(1))
  moreover have "c_lead c \<in> set ms" using cm(8) members by simp
  moreover have "w_id ` set selected = sel_work_id ` set (c_inputs c)" using vis by (metis list.set_map)
  ultimately show ?thesis
    using cm(4,5) t(2) orig delta fmt ids
    unfolding case_authority_ok_def
    by (auto simp: extended_case_def)
qed

lemma extension_deltas:
  assumes ok: "control_ok sha s" and t: "cs_works t = cs_works s"
    and vis: "map Some ws = map (\<lambda>i. find_work s (sel_work_id i)) ins" and managed: "\<And>w. w \<in> set ws \<Longrightarrow> w_managed w \<noteq> None"
  shows "map_res (expected_delta t members) ins = Inr (map (\<lambda>w. Some (added_delta members w)) ws)"
  using vis managed
proof (induction ins arbitrary: ws)
  case (Cons i ins)
  then obtain w vs where ws: "ws = w # vs" "find_work s (sel_work_id i) = Some w"
    "map Some vs = map (\<lambda>i. find_work s (sel_work_id i)) ins" by (cases ws) auto
  obtain k where k: "w_managed w = Some k" using Cons.prems(2) [of w] ws(1) by auto
  have "filter (\<lambda>p. p \<noteq> w_owner w \<and> p \<notin> set (w_readers w)) members = filter (\<lambda>p. \<not> canReadWork p w) members"
    by (rule filter_cong) (auto simp: canReadWork_def)
  with ws(2) k have step: "expected_delta t members i = Inr (Some (added_delta members w))"
    by (simp add: expected_delta_def added_delta_def find_work_def t)
  have "map_res (expected_delta t members) ins = Inr (map (\<lambda>w. Some (added_delta members w)) vs)"
    using Cons.IH [OF ws(3)] Cons.prems(2) ws(1) by simp
  then show ?case by (simp add: ws(1) step)
qed simp

theorem extend_accepted:
  assumes ok: "control_ok sha s" and hex: "sha_hex sha" and max: "int (cs_revision s + 1) \<le> MAX_SAFE_INTEGER"
    and res: "extendObservedCase sha m s (JStr p) i = Inr (Publication t r)"
    and room: "\<And>ci c. xi_case_id i = JStr ci \<Longrightarrow> find_case s ci = Some c \<Longrightarrow> extension_room c"
  shows "control_ok sha t \<and> assertControlTransition sha s t = Inr ()"
proof -
  obtain k ci new c selected added h where k: "parent_ok p" "key_ok k" "key_unused s p k" and ci: "xi_case_id i = JStr ci"
    and own: "ownCase s p ci (xi_expected_revision i) (xi_generation i) = Inr c"
    and h: "h = owner_command_hash sha p (extend_observed_json k ci (xi_expected_revision i) (xi_generation i) new (Some (xi_target_oid i)))"
    and orig: "c_observed_origin c = Some Selected_origin" "c_external_effect c = Not_started"
    and sel: "map_res (\<lambda>i. visibleWork sha s p (sel_work_id i)) (c_inputs c) = Inr selected"
    and added: "find_work s new = Some added" "\<forall>w \<in> set selected. w_id w \<noteq> w_id added"
    and scope: "extension_scope_ok c selected added (xi_target_oid i)"
    and cap: "\<not> MAX_PARTIES < length (uniq (c_members c @ [w_owner added]))"
    and change: "record_change (change_case (c_id c) (extended_case (uniq (c_members c @ [w_owner added])) selected added) s) p k h
       A_extend_observed_case (case_subject (c_id c)) (c_id c) = Inr (Publication t r)"
    by (rule extend_Inr [OF res])
  let ?ms = "uniq (c_members c @ [w_owner added])" let ?f = "extended_case ?ms selected added"
  note own' = ownCase_InrD [OF own]
  have c: "find_case s ci = Some c" and cid: "c_id c = ci" using own' find_case_iff [OF ok] by auto
  have op: "operating sha s p k" using ok hex k max by (simp add: operating_def)
  have room': "extension_room c" by (rule room [OF ci c])
  have hash: "parent_ok h" unfolding h by (rule owner_command_hash_ok [OF hex])
  note change' = change [unfolded cid]
  note acc = observed_case_accepted [OF op change' c _ hash _ _ extended_case_ok [OF ok c room' sel added scope refl cap max]
      extended_case_authority [OF ok c orig sel added(1) scope refl]]
  have t: "control_ok sha t" "ordinary_step s t r" "cs_cases t = map (\<lambda>c. if c_id c = ci then ?f c else c) (cs_cases s)"
    "cs_works t = cs_works s" "cs_notes t = cs_notes s" "cs_schema t = cs_schema s"
    and r: "r = \<lparr>rc_owner = p, rc_key = k, rc_request_hash = h, rc_revision = cs_revision s + 1, rc_action = A_extend_observed_case,
       rc_entity = case_subject ci, rc_item_id = ci\<rparr>"
    by (rule acc; simp add: orig)+
  note vis = visible_works [OF ok sel]
  have managed: "w_managed w \<noteq> None" if "w \<in> set (selected @ [added])" for w
    using that scope by (auto simp: extension_scope_ok_def)
  have aw: "find_work s (w_id added) = Some added" "w_id added = new" using find_work_iff [OF ok] added(1) by auto
  let ?i = "\<lparr>sel_work_id = w_id added, sel_commit_oid = w_input_oid added\<rparr>"
  have deltas: "map_res (expected_delta t ?ms) (c_inputs c @ [?i]) = Inr (map (\<lambda>w. Some (added_delta ?ms w)) (selected @ [added]))"
    by (rule extension_deltas [OF ok t(4) _ managed]) (use vis aw in simp_all)
  have inputs: "c_inputs (?f c) = c_inputs c @ [?i]" by (simp add: extended_case_def)
  have nt: "find_work t (w_id added) = Some added" using aw by (simp add: find_work_def t(4))
  have fresh: "w_id added \<notin> input_ids c" using added(2) vis by (metis imageE input_ids_def list.set_map)
  have "extension_transition sha s t r c (?f c) = Inr ()"
    unfolding extension_transition_def inputs last_opt_snoc Let_def
    using deltas nt fresh own' orig room' managed [of added] scope h cid
    by (auto simp: guard_fail_Inr r extension_room_def extension_scope_ok_def extended_case_def t(4,5) aw(2))
  then have "case_transition sha s t None c = Inr ()" if "find_case t ci = Some (?f c)"
    using that own' by (simp add: case_transition_def appended_action_ordinary [OF t(2)] r cid case_identity_ok_def guard_fail_Inr)
  with t r show ?thesis
    by (intro conjI observed_case_follows [OF ok t(2,3,4,5,6) c]) simp_all
qed

section \<open>An observed delivery\<close>

definition delivery_room :: "case_rec \<Rightarrow> bool" where
  "delivery_room c = (length (observed_of_case c) < MAX_PARTIES \<and> spread_in_order c)"

lemma deliver_Inr:
  assumes "observeCaseDelivery sha s (JStr p) i guard = Inr (Publication t r)"
  obtains k ci w c h where "parent_ok p" "key_ok k" "receipt_for s p k = None" "yi_operation_key i = JStr k"
    "yi_case_id i = JStr ci" "entity_ok w"
    "h = owner_command_hash sha p (observe_delivery_json k ci (yi_case_revision i) (yi_generation i) w (yi_digest i))"
    "List.find (\<lambda>c. c_id c = ci \<and> c_state c = Active) (cs_cases s) = Some c"
    "delivery_expected p (yi_case_revision i) (yi_generation i) w c"
    "record_change (change_case ci (delivered_case w (yi_digest i)) s) p k h A_observe_case_delivery (case_subject ci) ci
       = Inr (Publication t r)"
  using assms
  unfolding observeCaseDelivery_def Let_def andThen_Inr_iff identity_Inr
  by (elim exE conjE) (auto simp: andThen_Inr_iff guard_fail_Inr split: option.splits if_splits)

text \<open>The key of a delivery must be new: only its own receipts are looked at.\<close>

definition delivery_key_new :: "control_state \<Rightarrow> string \<Rightarrow> delivery_input \<Rightarrow> bool" where
  "delivery_key_new s p i = (\<forall>k. yi_operation_key i = JStr k \<longrightarrow> \<not> recovery_key s p k \<and> \<not> event_key s p k)"

lemma delivered_case_fields [simp]:
  "c_id (delivered_case w d c) = c_id c" "c_target (delivered_case w d c) = c_target c"
  "c_state (delivered_case w d c) = c_state c" "c_revision (delivered_case w d c) = c_revision c"
  "c_generation (delivered_case w d c) = c_generation c" "c_lead (delivered_case w d c) = c_lead c"
  "c_members (delivered_case w d c) = c_members c" "c_inputs (delivered_case w d c) = c_inputs c"
  "c_target_oid (delivered_case w d c) = c_target_oid c" "c_observed_origin (delivered_case w d c) = c_observed_origin c"
  "c_visibility_delta (delivered_case w d c) = c_visibility_delta c"
  "c_external_effect (delivered_case w d c) = c_external_effect c"
  by (simp_all add: delivered_case_def)

lemma delivered_bookkeeping:
  assumes c: "case_ok c" "case_authority_ok s c" and room: "delivery_room c" and w: "w \<in> set (pending_ids c)" and d: "parent_ok d"
  shows "case_ok (delivered_case w d c)"
    "cs_works t = cs_works s \<Longrightarrow> cs_revision t = cs_revision s + 1 \<Longrightarrow> case_authority_ok t (delivered_case w d c)"
proof -
  obtain ids where ids: "c_delivery_pending c = Some ids" "w \<in> set ids" using w by (cases "c_delivery_pending c") (auto simp: pending_ids_def)
  have orig: "c_observed_origin c = Some Selected_origin" and sub: "set ids \<subseteq> input_ids c"
    using c(2) ids by (simp_all add: case_authority_ok_def)
  have obs: "\<forall>x \<in> set (observed_of_case c). od_work_id x \<in> input_ids c \<and> od_work_id x \<notin> set ids"
    using c(2) ids by (auto simp: case_authority_ok_def observed_of_case_def pending_ids_def split: option.splits)
  have new: "w \<notin> od_work_id ` set (observed_of_case c)" using obs ids(2) by blast
  have "entity_ok w" using c(1) ids by (auto simp: case_ok_def entities_ok_def list_ok_def)
  moreover have "observeds_ok (observed_of_case c)"
    using c(1) by (auto simp: case_ok_def observed_of_case_def observeds_ok_def list_ok_def unique_by_def split: option.split)
  ultimately have "observeds_ok (observed_of_case c @ [\<lparr>od_work_id = w, od_digest = d\<rparr>])"
    using new room d by (auto simp: observeds_ok_def list_ok_def unique_by_def observed_ok_def delivery_room_def)
  moreover have "entities_ok MAX_PARTIES (filter (\<lambda>i. i \<noteq> w) ids)"
    using c(1) ids by (auto simp: case_ok_def entities_ok_def list_ok_def unique_by_def intro: le_trans [OF length_filter_le])
  ultimately show "case_ok (delivered_case w d c)"
    using c(1) ids(1) by (simp add: case_ok_def delivered_case_def)
  assume t: "cs_works t = cs_works s" "cs_revision t = cs_revision s + 1"
  have find: "find_work t = find_work s" by (simp add: find_work_def fun_eq_iff t)
  have inputs: "input_ids (delivered_case w d c) = input_ids c" by (simp add: input_ids_def)
  have delta: "delta_authority_ok t (delivered_case w d c) x = delta_authority_ok s c x" for x
    by (simp add: delta_authority_ok_def find inputs cong: option.case_cong)
  have fmt: "input_format_ok t (delivered_case w d c) x = input_format_ok s c x" for x
    by (simp add: input_format_ok_def find cong: option.case_cong)
  have pend: "c_delivery_pending (delivered_case w d c) = Some (filter (\<lambda>i. i \<noteq> w) ids)"
    "c_delivery_observed (delivered_case w d c) = Some (observed_of_case c @ [\<lparr>od_work_id = w, od_digest = d\<rparr>])"
    "pending_ids (delivered_case w d c) = filter (\<lambda>i. i \<noteq> w) ids"
    by (simp_all add: delivered_case_def ids(1) pending_ids_def)
  have "c_revision c \<le> cs_revision t" "c_generation c \<le> cs_revision t" "c_lead c \<in> set (c_members c)"
    using c(2) t(2) by (simp_all add: case_authority_ok_def)
  then show "case_authority_ok t (delivered_case w d c)"
    using c(2) orig sub obs ids(2) unfolding case_authority_ok_def inputs delta fmt pend by auto
qed

theorem deliver_accepted:
  assumes ok: "control_ok sha s" and hex: "sha_hex sha" and max: "int (cs_revision s + 1) \<le> MAX_SAFE_INTEGER"
    and key: "delivery_key_new s p i" and digest: "parent_ok (yi_digest i)"
    and room: "\<And>ci c. yi_case_id i = JStr ci \<Longrightarrow> find_case s ci = Some c \<Longrightarrow> delivery_room c"
    and res: "observeCaseDelivery sha s (JStr p) i guard = Inr (Publication t r)"
  shows "control_ok sha t \<and> assertControlTransition sha s t = Inr ()"
proof -
  obtain k ci w c h where k: "parent_ok p" "key_ok k" "receipt_for s p k = None" "yi_operation_key i = JStr k"
    and ci: "yi_case_id i = JStr ci"
    and h: "h = owner_command_hash sha p (observe_delivery_json k ci (yi_case_revision i) (yi_generation i) w (yi_digest i))"
    and found: "List.find (\<lambda>c. c_id c = ci \<and> c_state c = Active) (cs_cases s) = Some c"
    and exp: "delivery_expected p (yi_case_revision i) (yi_generation i) w c"
    and change: "record_change (change_case ci (delivered_case w (yi_digest i)) s) p k h A_observe_case_delivery (case_subject ci) ci
       = Inr (Publication t r)"
    by (rule deliver_Inr [OF res])
  let ?f = "delivered_case w (yi_digest i)"
  have here: "c \<in> set (cs_cases s)" "c_id c = ci" "c_state c = Active" using find_SomeD [OF found] by auto
  have c: "find_case s ci = Some c" using find_case_iff [OF ok] here by blast
  note cm = case_members [OF ok c]
  have "key_unused s p k"
    using k(3,4) key by (auto simp: key_unused_def receipt_for_def recovery_key_def event_key_def find_None_iff_all delivery_key_new_def)
  then have op: "operating sha s p k" using ok hex k max by (simp add: operating_def)
  have room': "delivery_room c" by (rule room [OF ci c])
  have w: "w \<in> set (pending_ids c)" and obs: "c_observed_origin c = Some Selected_origin" using exp by (simp_all add: delivery_expected_def)
  have hash: "parent_ok h" unfolding h by (rule owner_command_hash_ok [OF hex])
  note keeps = delivered_bookkeeping [OF cm(1,2) room' w digest]
  note acc = observed_case_accepted [OF op change c _ hash _ _ keeps]
  have t: "control_ok sha t" "ordinary_step s t r" "cs_cases t = map (\<lambda>c. if c_id c = ci then ?f c else c) (cs_cases s)"
    "cs_works t = cs_works s" "cs_notes t = cs_notes s" "cs_schema t = cs_schema s"
    and r: "r = \<lparr>rc_owner = p, rc_key = k, rc_request_hash = h, rc_revision = cs_revision s + 1, rc_action = A_observe_case_delivery,
       rc_entity = case_subject ci, rc_item_id = ci\<rparr>"
    by (rule acc; simp add: obs)+
  have "observed_of_case (?f c) = observed_of_case c @ [\<lparr>od_work_id = w, od_digest = yi_digest i\<rparr>]"
    by (subst observed_of_case_def) (simp add: delivered_case_def)
  then have "observation_transition_ok sha s t r c (?f c)"
    using here exp w room' by (simp add: observation_transition_ok_def delivery_expected_def delivery_room_def delivered_case_def r h t(4,5))
  then have "case_transition sha s t None c = Inr ()" if "find_case t ci = Some (?f c)"
    using that here by (simp add: case_transition_def appended_action_ordinary [OF t(2)] r case_identity_ok_def guard_fail_Inr)
  with t r show ?thesis
    by (intro conjI observed_case_follows [OF ok t(2,3,4,5,6) c]) simp_all
qed

end
