(* ===== verification/Examples_Service.thy ===== *)
theory Examples_Service
  imports Examples Submission_Service Control_Reads Control_Ledger Service_Observed
begin

text \<open>
  Concrete values for the witnesses on the service and its store: a store that holds the
  small records of theory \<open>Examples\<close>, a submitted announcement, and a case observed on two
  managed tasks.
\<close>

section \<open>A store\<close>

definition demo_directory :: directory_info where "demo_directory = \<lparr>d_private = True, d_dev = 1, d_ino = 2\<rparr>"

definition demo_marker :: string where "demo_marker = stringify (marker_json ''repo'' (demo_id (CHR ''e'')))"

definition demo_disk :: "control_state \<Rightarrow> disk" where
  "demo_disk s = \<lparr>dk_root = Found demo_directory, dk_marker = written_file demo_marker, dk_control = written_file (control_text s)\<rparr>"

definition demo_store :: store where
  "demo_store = \<lparr>st_repository = ''repo'', st_epoch = demo_id (CHR ''e''), st_dev = 1, st_ino = 2,
     st_closed = False, st_uncertain = False\<rparr>"

definition all_well :: "unit res \<times> (write_step \<Rightarrow> unit res)" where "all_well = (Inr (), \<lambda>_. Inr ())"

lemma demo_checked: "check_directory demo_store (demo_disk s) = Inr ()"
proof -
  have "readRecord (written_file demo_marker) = Inr (marker_json ''repo'' (demo_id (CHR ''e'')))" by code_simp
  moreover have "decodeMarker (marker_json ''repo'' (demo_id (CHR ''e''))) ''repo'' = Inr (demo_id (CHR ''e''))" by code_simp
  ultimately show ?thesis
    by (simp add: check_directory_def demo_disk_def demo_store_def directory_def demo_directory_def andThen_def guard_fail_def)
qed

lemma demo_two_ok: "control_ok demo_sha demo_two"
  by (rule publication_ok [OF demo_two_published])

lemma demo_three_ok: "control_ok demo_sha demo_three"
  by (rule publication_ok [OF demo_three_published])

lemma commit_size:
  assumes "commit sha s p cmd observed fresh = Inr (t, r)"
  shows "length (control_text t) \<le> CONTROL_MAX_BYTES"
proof -
  have "checkCapacity t = Inr ()" by (rule commit_InrD [OF assms])
  then show ?thesis using checkCapacityD(6) [of t] by simp
qed

lemmas demo_sizes = commit_size [OF demo_register_commits] commit_size [OF demo_two_commits] commit_size [OF demo_three_commits]

lemma demo_fields:
  "cs_repository_id demo_one = ''repo''" "cs_repository_id demo_two = ''repo''" "cs_repository_id demo_three = ''repo''"
  "cs_epoch demo_one = demo_id (CHR ''e'')" "cs_epoch demo_two = demo_id (CHR ''e'')" "cs_epoch demo_three = demo_id (CHR ''e'')"
  by (simp_all add: demo_three_def demo_two_def demo_one_def demo_empty_def)

lemma demo_snapshots:
  "snapshot demo_sha demo_store (demo_disk demo_one) = Inr demo_one"
  "snapshot demo_sha demo_store (demo_disk demo_two) = Inr demo_two"
  using snapshot_written [OF demo_checked demo_one_ok] snapshot_written [OF demo_checked demo_two_ok] demo_sizes
  by (simp_all add: demo_disk_def demo_store_def demo_fields)

text \<open>One section: the post of a note to the work.\<close>

definition demo_section :: "control_state \<Rightarrow> receipt outcome_of res" where
  "demo_section s = executeCommand demo_sha (initial_memory {}) s demo_alice demo_post [] None False demo_note_id"

lemma demo_section_publishes: "demo_section demo_one = Inr (Publication demo_two demo_posted)"
proof -
  have facts: "\<not> recovery_key demo_one demo_alice (operation_key demo_post)" "\<not> event_key demo_one demo_alice (operation_key demo_post)"
    "receipt_for demo_one demo_alice (operation_key demo_post) = None" "command_case demo_post = None" "command_work demo_post = None"
    "note_command demo_post = None" "\<not> retirement_active (initial_memory {}) demo_one demo_post"
    "\<not> release_blocked demo_sha demo_one demo_post"
    by code_simp+
  have "post_ready demo_sha (initial_memory {}) demo_one demo_alice None demo_post = Inr ()" by code_simp
  with facts demo_two_commits show ?thesis
    by (simp add: demo_section_def executeCommand_def andThen_def guard_fail_def case_reserved_def source_reserved_def note_case_ready_def)
qed

lemma demo_published:
  "publish demo_sha demo_store (demo_disk demo_one) (Inr ()) (\<lambda>_. Inr ()) (control_json demo_one) (control_json demo_two)
     = ((demo_store, demo_disk demo_two), Inr ())"
proof -
  have "assertControlTransition demo_sha demo_one demo_two = Inr ()"
    using demo_two_published by (cases rule: publication.cases) simp
  moreover have "assertMutable demo_store (Inr ()) = Inr ()"
    by (simp add: assertMutable_def demo_store_def andThen_def guard_fail_def)
  ultimately show ?thesis
    using publish_succeeds [OF demo_snapshots(1) demo_two_ok _ demo_sizes(2)] by (simp add: demo_disk_def)
qed

lemma demo_served:
  "serve store_ready (store_view demo_sha) (store_put demo_sha) (demo_store, demo_disk demo_one) all_well demo_section
     = ((demo_store, demo_disk demo_two), Inr demo_posted)"
  using demo_published demo_snapshots(1) demo_section_publishes
  by (simp add: serve_def decided_def store_ready_def store_view_def store_put_def all_well_def assertMutable_def
      demo_store_def andThen_def guard_fail_def)

section \<open>A submission\<close>

definition demo_input :: announcement_input where
  "demo_input = \<lparr>ai_key = ''a1'', ai_id = demo_id (CHR ''4''), ai_payload_digest = demo_alice,
     ai_source_view = ''/view'', ai_assignment_hash = demo_bob, ai_areas = [\<lparr>r_kind = RSubtree, r_path = ''src''\<rparr>], ai_readers = [demo_bob]\<rparr>"

definition demo_announcement_raw :: jval where "demo_announcement_raw = announcement_input_json demo_input"

definition demo_announcement :: announcement where
  "demo_announcement = \<lparr>an_id = demo_id (CHR ''4''), an_owner = demo_alice, an_revision = 1, an_state = Unresolved,
     an_payload_ref = demo_id (CHR ''4''), an_payload_digest = demo_alice, an_source_view = ''/view'',
     an_assignment_hash = demo_bob, an_areas = [\<lparr>r_kind = RSubtree, r_path = ''src''\<rparr>], an_readers = [demo_bob], an_task_id = None\<rparr>"

definition demo_announced :: control_state where
  "demo_announced = demo_empty\<lparr>cs_schema := 4, cs_revision := 1, cs_announcements := [demo_announcement],
     cs_events := [\<lparr>ev_kind = Ev_announce, ev_owner = demo_alice, ev_key = ''a1'', ev_item_id = demo_id (CHR ''4''),
       ev_request_hash = submission_hash demo_sha demo_alice ''announce'' demo_announcement_raw, ev_revision = 1\<rparr>]\<rparr>"

lemma demo_announces:
  "submission_operation demo_sha demo_empty (JStr demo_alice) (Announce_request demo_announcement_raw)
     = Inr (Publication demo_announced (Announcement_item demo_announcement))"
proof -
  have "decodeAnnouncementInput demo_announcement_raw = Inr demo_input" by code_simp
  moreover have "announce demo_sha demo_empty demo_alice demo_input = Inr (Publication demo_announced demo_announcement)" by code_simp
  moreover have "parentId (JStr demo_alice) = Inr demo_alice" by code_simp
  moreover have "demo_alice \<notin> set (ai_readers demo_input)" by code_simp
  ultimately show ?thesis
    by (simp add: submission_operation_def announce_request_def requested_def andThen_def guard_fail_def)
qed

lemma demo_empty_subjects: "event_subjects_ok demo_empty"
  by (simp add: event_subjects_ok_def demo_empty_def)

section \<open>An observed case\<close>

definition demo_managed :: "char \<Rightarrow> managed_work" where
  "demo_managed c = \<lparr>m_task_id = demo_id c, m_control_generation = 1, m_intent_truncated = False, m_areas_source = Allowed_paths\<rparr>"

definition demo_task :: "string \<Rightarrow> char \<Rightarrow> work" where
  "demo_task p c = new_work (demo_id c) p [c] demo_oid Sha1 ''intent'' [\<lparr>r_kind = RFile, r_path = [c]\<rparr>] [] (Some (demo_managed c))"

text \<open>A retained receipt; the hash of its request is written out.\<close>

definition demo_retained :: "string \<Rightarrow> string \<Rightarrow> nat \<Rightarrow> action \<Rightarrow> subject \<Rightarrow> char \<Rightarrow> receipt" where
  "demo_retained p k n a x h = \<lparr>rc_owner = p, rc_key = k, rc_request_hash = replicate 64 h, rc_revision = n, rc_action = a,
     rc_entity = x, rc_item_id = s_id x\<rparr>"

definition demo_case :: case_rec where
  "demo_case = \<lparr>c_id = demo_id (CHR ''7''), c_target = ''refs/heads/main'', c_lead = demo_alice, c_members = [demo_alice],
     c_revision = 2, c_generation = 1, c_state = Active, c_external_effect = Not_started, c_target_oid = Some demo_oid,
     c_inputs = [\<lparr>sel_work_id = demo_id (CHR ''5''), sel_commit_oid = demo_oid\<rparr>], c_observed_origin = Some Selected_origin,
     c_delivery_pending = None, c_delivery_observed = None, c_visibility_delta = None\<rparr>"

definition demo_observed :: control_state where
  "demo_observed = demo_empty\<lparr>cs_schema := 7, cs_revision := 4,
     cs_works := [demo_task demo_alice (CHR ''5''), demo_task demo_bob (CHR ''6'')], cs_cases := [demo_case],
     cs_receipts := [
       demo_retained demo_alice ''k5'' 1 A_register_task_work (work_subject (demo_id (CHR ''5''))) (CHR ''b''),
       demo_retained demo_bob ''k6'' 2 A_register_task_work (work_subject (demo_id (CHR ''6''))) (CHR ''b''),
       demo_retained demo_alice ''k7'' 3 A_claim_target (case_subject (demo_id (CHR ''7''))) (CHR ''b''),
       demo_retained demo_alice ''k8'' 4 A_select_inputs (case_subject (demo_id (CHR ''7''))) (CHR ''a'')]\<rparr>"

lemma demo_observed_ok: "control_ok demo_sha demo_observed"
  by code_simp

definition demo_extension :: extend_input where
  "demo_extension = \<lparr>xi_operation_key = JStr ''k9'', xi_case_id = JStr (demo_id (CHR ''7'')), xi_expected_revision = 2,
     xi_generation = 1, xi_new_work_id = JStr (demo_id (CHR ''6'')), xi_target_oid = demo_oid\<rparr>"

definition demo_extended_case :: case_rec where
  "demo_extended_case = extended_case [demo_alice, demo_bob] [demo_task demo_alice (CHR ''5'')] (demo_task demo_bob (CHR ''6'')) demo_case"

definition demo_extension_hash :: string where
  "demo_extension_hash = owner_command_hash demo_sha demo_alice
     (extend_observed_json ''k9'' (demo_id (CHR ''7'')) 2 1 (demo_id (CHR ''6'')) (Some demo_oid))"

definition demo_extension_receipt :: receipt where
  "demo_extension_receipt =
     demo_retained demo_alice ''k9'' 5 A_extend_observed_case (case_subject (demo_id (CHR ''7''))) (CHR ''a'')"

lemma demo_extension_hash: "demo_extension_hash = replicate 64 (CHR ''a'')"
  by code_simp

definition demo_extended :: control_state where
  "demo_extended = demo_observed\<lparr>cs_revision := 5, cs_cases := [demo_extended_case],
     cs_receipts := cs_receipts demo_observed @ [demo_extension_receipt]\<rparr>"

lemma demo_extends:
  "extendObservedCase demo_sha (initial_memory {}) demo_observed (JStr demo_alice) demo_extension
     = Inr (Publication demo_extended demo_extension_receipt)"
proof -
  let ?m = "initial_memory {}" and ?five = "demo_task demo_alice (CHR ''5'')" and ?six = "demo_task demo_bob (CHR ''6'')"
  have facts: "parentId (JStr demo_alice) = Inr demo_alice" "coordinationOperationKey (JStr ''k9'') = Inr ''k9''"
    "entityId (JStr (demo_id (CHR ''7''))) = Inr (demo_id (CHR ''7''))" "entityId (JStr (demo_id (CHR ''6''))) = Inr (demo_id (CHR ''6''))"
    "receipt_for demo_observed demo_alice ''k9'' = None" "\<not> recovery_key demo_observed demo_alice ''k9''"
    "\<not> event_key demo_observed demo_alice ''k9''" "ownCase demo_observed demo_alice (demo_id (CHR ''7'')) 2 1 = Inr demo_case"
    "find_work demo_observed (demo_id (CHR ''6'')) = Some ?six" "w_id ?five \<noteq> w_id ?six"
    "extension_scope_ok demo_case [?five] ?six demo_oid" "uniq (c_members demo_case @ [w_owner ?six]) = [demo_alice, demo_bob]"
    "\<not> task_unsettled ?m ?five" "\<not> task_unsettled ?m ?six" "\<not> application_retained demo_sha demo_observed (c_id demo_case)"
    "c_observed_origin demo_case = Some Selected_origin" "c_external_effect demo_case = Not_started" "c_id demo_case = demo_id (CHR ''7'')"
    "sm_application_cases ?m = {}" "sm_transition_cases ?m = {}" "length [demo_alice, demo_bob] \<le> MAX_PARTIES"
    by code_simp+
  have selected: "map_res (\<lambda>i. visibleWork demo_sha demo_observed demo_alice (sel_work_id i)) (c_inputs demo_case) = Inr [?five]"
    by code_simp
  have change: "record_change (change_case (demo_id (CHR ''7'')) (extended_case [demo_alice, demo_bob] [?five] ?six) demo_observed)
      demo_alice ''k9'' (replicate 64 (CHR ''a'')) A_extend_observed_case (case_subject (demo_id (CHR ''7''))) (demo_id (CHR ''7''))
    = Inr (Publication demo_extended demo_extension_receipt)"
    by code_simp
  have "extend_case demo_sha ?m demo_observed demo_alice ''k9'' (replicate 64 (CHR ''a'')) demo_case (demo_id (CHR ''6'')) demo_oid
      = Inr (Publication demo_extended demo_extension_receipt)"
    using facts selected change  by (simp add: extend_case_def andThen_def guard_fail_def Let_def)
  with facts show ?thesis
     by (simp add: extendObservedCase_def demo_extension_def demo_extension_hash [unfolded demo_extension_hash_def] andThen_def guard_fail_def Let_def
        del: One_nat_def)
qed

section \<open>A delivery to the extended case\<close>

definition demo_delivery :: delivery_input where
  "demo_delivery = \<lparr>yi_operation_key = JStr ''k10'', yi_case_id = JStr (demo_id (CHR ''7'')), yi_case_revision = 3,
     yi_generation = 1, yi_recipient = JStr (demo_id (CHR ''5'')), yi_digest = demo_bob\<rparr>"

definition demo_delivered :: control_state where
  "demo_delivered = demo_extended\<lparr>cs_revision := 6, cs_cases := [delivered_case (demo_id (CHR ''5'')) demo_bob demo_extended_case],
     cs_receipts := cs_receipts demo_extended
       @ [demo_retained demo_alice ''k10'' 6 A_observe_case_delivery (case_subject (demo_id (CHR ''7''))) (CHR ''a'')]\<rparr>"

lemma demo_delivers:
  "observeCaseDelivery demo_sha demo_extended (JStr demo_alice) demo_delivery (Some (demo_id (CHR ''e''), 5))
     = Inr (Publication demo_delivered (demo_retained demo_alice ''k10'' 6 A_observe_case_delivery (case_subject (demo_id (CHR ''7''))) (CHR ''a'')))"
proof -
  have facts: "parentId (JStr demo_alice) = Inr demo_alice" "coordinationOperationKey (JStr ''k10'') = Inr ''k10''"
    "entityId (JStr (demo_id (CHR ''7''))) = Inr (demo_id (CHR ''7''))" "entityId (JStr (demo_id (CHR ''5''))) = Inr (demo_id (CHR ''5''))"
    "receipt_for demo_extended demo_alice ''k10'' = None" "cs_epoch demo_extended = demo_id (CHR ''e'')" "cs_revision demo_extended = 5"
    "delivery_expected demo_alice 3 1 (demo_id (CHR ''5'')) demo_extended_case"
    by code_simp+
  have found: "List.find (\<lambda>c. c_id c = demo_id (CHR ''7'') \<and> c_state c = Active) (cs_cases demo_extended) = Some demo_extended_case"
    by code_simp
  have hash: "owner_command_hash demo_sha demo_alice (observe_delivery_json ''k10'' (demo_id (CHR ''7'')) 3 1 (demo_id (CHR ''5'')) demo_bob)
      = replicate 64 (CHR ''a'')" by code_simp
  have change: "record_change (change_case (demo_id (CHR ''7'')) (delivered_case (demo_id (CHR ''5'')) demo_bob) demo_extended)
      demo_alice ''k10'' (replicate 64 (CHR ''a'')) A_observe_case_delivery (case_subject (demo_id (CHR ''7''))) (demo_id (CHR ''7''))
    = Inr (Publication demo_delivered (demo_retained demo_alice ''k10'' 6 A_observe_case_delivery (case_subject (demo_id (CHR ''7''))) (CHR ''a'')))"
    by code_simp
  show ?thesis
    using facts found change
    by (simp add: observeCaseDelivery_def demo_delivery_def hash andThen_def guard_fail_def Let_def del: One_nat_def)
qed

end
