(* ===== verification/Service_Commands.thy ===== *)
theory Service_Commands
  imports Service_Observed
begin

text \<open>
  What a command run by the service amounts to (src/src/coordination/control.ts, \<open>execute\<close> and
  \<open>#executeCommand\<close>): a publication is the commit of a command whose key was unused, under
  guards that hold; a key answers with one receipt for ever; and a retirement that began
  after the source facts were read refuses the command that relies on them.
\<close>

section \<open>The outcome of a command\<close>

lemma key_unused_iff:
  "key_unused s p k = (receipt_for s p k = None \<and> \<not> recovery_key s p k \<and> \<not> event_key s p k)"
  by (auto simp: key_unused_def receipt_for_def recovery_key_def event_key_def find_None_iff)

lemma executeCommand_Publication:
  assumes "executeCommand sha m s p cmd versions guard observed fresh = Inr (Publication t r)"
  shows "commit sha s p cmd observed fresh = Inr (t, r)" "key_unused s p (operation_key cmd)"
    "\<not> (\<exists>v \<in> set versions. version_changed m v)" "\<not> retirement_active m s cmd"
  using assms unfolding executeCommand_def andThen_Inr_iff guard_fail_Inr key_unused_iff
  by (auto simp: andThen_Inr_iff guard_fail_Inr split: option.splits if_splits prod.splits)

lemma executeCommand_Retained:
  assumes "executeCommand sha m s p cmd versions guard observed fresh = Inr (Retained r)"
  shows "receipt_for s p (operation_key cmd) = Some r" "rc_request_hash r = request_hash sha p cmd"
  using assms unfolding executeCommand_def andThen_Inr_iff guard_fail_Inr
  by (auto simp: andThen_Inr_iff guard_fail_Inr split: option.splits if_splits prod.splits)

lemma withWorkerPublication_Inr: "withWorkerPublication auth x = Inr y \<Longrightarrow> x = Inr y"
  by (auto simp: withWorkerPublication_def andThen_Inr_iff split: option.splits)

lemma execute_Inr:
  assumes "execute sha auth m0 s0 m s actor raw versions observed fresh = Inr x"
  obtains p cmd guard where "parentId actor = Inr p" "decodeCommand raw = Inr cmd"
    "executeCommand sha m s p cmd versions guard observed fresh = Inr x"
  using assms unfolding execute_def andThen_Inr_iff Let_def
  by (elim exE conjE) (auto split: if_splits dest: withWorkerPublication_Inr)

text \<open>A command published by the service yields a record that is accepted and may follow.\<close>

lemma execute_accepted:
  assumes "control_ok sha s" "sha_hex sha" "int (cs_revision s + 1) \<le> MAX_SAFE_INTEGER" "fresh_id s fresh"
    and room: "\<And>p cmd. parentId actor = Inr p \<Longrightarrow> decodeCommand raw = Inr cmd \<Longrightarrow> publishable s p cmd observed"
    and res: "execute sha auth m0 s0 m s actor raw versions observed fresh = Inr (Publication t r)"
  shows "control_ok sha t \<and> assertControlTransition sha s t = Inr ()"
proof -
  obtain p cmd guard where d: "parentId actor = Inr p" "decodeCommand raw = Inr cmd"
    and run: "executeCommand sha m s p cmd versions guard observed fresh = Inr (Publication t r)"
    by (rule execute_Inr [OF res])
  note out = executeCommand_Publication [OF run]
  have "committing sha s p cmd observed fresh"
    using assms(1-4) room [OF d] d out(2) decodeCommand_sound [OF d(2)] by (simp add: committing_def identity_Inr)
  then show ?thesis
    using commit_keeps_control_ok [OF _ out(1)] commit_may_follow [OF _ out(1)] by simp
qed

section \<open>One receipt for a key\<close>

lemma commit_receipt:
  assumes "commit sha s p cmd observed fresh = Inr (t, r)"
  shows "r \<in> set (cs_receipts t) \<and> rc_owner r = p \<and> rc_key r = operation_key cmd"
  using assms by (auto simp: commit_def andThen_Inr_iff retain_def Let_def split: prod.splits)

lemma receipt_for_member:
  assumes "control_ok sha u" and "r \<in> set (cs_receipts u)" and "receipt_for u (rc_owner r) (rc_key r) = Some q"
  shows "q = r"
proof -
  have inj: "inj_on (\<lambda>r. owner_key (rc_owner r) (rc_key r)) (set (cs_receipts u))"
    using assms(1) by (simp add: control_ok_def control_records_ok_def list_ok_def unique_by_def distinct_map)
  have q: "q \<in> set (cs_receipts u)" "rc_owner q = rc_owner r" "rc_key q = rc_key r"
    using find_SomeD [OF assms(3) [unfolded receipt_for_def]] by simp_all
  show ?thesis by (rule inj_onD [OF inj]) (simp_all add: q assms(2))
qed

lemma execute_replays:
  assumes first: "execute sha auth m0 s0 m s actor raw versions observed fresh = Inr (Publication t r)"
    and u: "control_ok sha u" "prefix (cs_receipts t) (cs_receipts u)"
    and again: "execute sha auth' m1 s1 m2 u actor raw versions' observed' fresh' = Inr x"
  shows "x = Retained r"
proof -
  obtain p cmd guard where d: "parentId actor = Inr p" "decodeCommand raw = Inr cmd"
    and run: "executeCommand sha m s p cmd versions guard observed fresh = Inr (Publication t r)"
    by (rule execute_Inr [OF first])
  obtain guard' where run': "executeCommand sha m2 u p cmd versions' guard' observed' fresh' = Inr x"
    using d by (rule_tac execute_Inr [OF again]) auto
  have r: "r \<in> set (cs_receipts u)" "rc_owner r = p" "rc_key r = operation_key cmd"
    using commit_receipt [OF executeCommand_Publication(1) [OF run]] u(2) by (auto dest: set_mono_prefix)
  show ?thesis
  proof (cases x)
    case (Retained q)
    then have "receipt_for u (rc_owner r) (rc_key r) = Some q" using executeCommand_Retained(1) run' r by simp
    with receipt_for_member [OF u(1) r(1)] Retained show ?thesis by simp
  next
    case (Publication v q)
    then have "key_unused u p (operation_key cmd)" using executeCommand_Publication(2) run' by blast
    with r show ?thesis by (auto simp: key_unused_def)
  qed
qed

section \<open>Retirement fences\<close>

text \<open>The version of a task only grows, and a retirement of an enrolled task moves it.\<close>

lemma service_step_versions:
  assumes "service_step x y"
  shows "map_value (sm_versions (fst x)) t \<le> map_value (sm_versions (fst y)) t"
  using assms
proof (cases rule: service_step.cases)
  case (retirement_begins m s raw n k as)
  then have "sm_versions n = (if retired_works s k = [] then sm_versions m
      else (sm_versions m)(k \<mapsto> map_value (sm_versions m) k + 1))"
    by (auto simp: reserveRetirement_def andThen_Inr_iff guard_fail_Inr)
  then show ?thesis using retirement_begins by (auto simp: map_value_def split: option.split)
next
  case (retirement_ends m as k bs)
  then show ?thesis by (auto simp: releaseRetirement_def map_value_def split: option.split)
qed (auto simp: begin_transition_def end_transition_def reserve_case_def release_case_def invalidateCancelledTask_def
    close_service_def Let_def split: if_splits)

lemma service_run_versions:
  assumes "service_step\<^sup>*\<^sup>* x y"
  shows "map_value (sm_versions (fst x)) t \<le> map_value (sm_versions (fst y)) t"
  using assms by (induction rule: rtranclp_induct) (auto intro: order_trans service_step_versions)

lemma retirement_moves_version:
  assumes "reserveRetirement m s raw = Inr (n, t)" and "retired_works s t \<noteq> []"
  shows "map_value (sm_versions m) t < map_value (sm_versions n) t"
  using assms by (auto simp: reserveRetirement_def andThen_Inr_iff guard_fail_Inr map_value_def)

lemma prepared_versions:
  assumes "prepareSourceCommand sha m s actor raw = Inr (Inspect c ws versions)" and "(t, v) \<in> set versions"
  shows "v = map_value (sm_versions m) t \<and> t \<notin> sm_retirements m"
  using assms unfolding prepareSourceCommand_def andThen_Inr_iff guard_fail_Inr
  by (elim exE conjE)
     (auto simp: andThen_Inr_iff guard_fail_Inr inspect_sources_def Let_def split: option.splits if_splits prod.splits)

lemma retirement_fences:
  assumes "prepareSourceCommand sha m s actor raw = Inr (Inspect c ws versions)" and "t \<in> fst ` set versions"
    and "service_step\<^sup>*\<^sup>* (m, as) (m1, as1)" and "reserveRetirement m1 s1 traw = Inr (m2, t)" and "retired_works s1 t \<noteq> []"
    and "service_step\<^sup>*\<^sup>* (m2, as2) (m3, as3)"
  shows "executeCommand sha m3 u p cmd versions guard observed fresh \<noteq> Inr (Publication x r)"
proof
  assume run: "executeCommand sha m3 u p cmd versions guard observed fresh = Inr (Publication x r)"
  from assms(2) obtain v where v: "(t, v) \<in> set versions" by auto
  have "map_value (sm_versions m) t < map_value (sm_versions m3) t"
    using service_run_versions [OF assms(3), of t] service_run_versions [OF assms(6), of t]
      retirement_moves_version [OF assms(4,5)] by simp
  with prepared_versions [OF assms(1) v] have "version_changed m3 (t, v)" by (simp add: version_changed_def)
  with v executeCommand_Publication(3) [OF run] show False by blast
qed

end
