(* ===== verification/Service_Recovery.thy ===== *)
theory Service_Recovery
  imports Service_Commands
begin

text \<open>
  Operator recovery (src/src/coordination/control.ts, \<open>recoverAuthorized\<close>): the record it
  publishes is one the reader accepts and one that may follow, whatever work or case the
  operator adopts, closes, releases or settles.
\<close>

section \<open>Acceptance of a recovery\<close>

definition recovery_step :: "control_state \<Rightarrow> control_state \<Rightarrow> recovery_receipt \<Rightarrow> bool" where
  "recovery_step s t r = (same_identity s t \<and> cs_notes t = cs_notes s \<and> cs_receipts t = cs_receipts s
     \<and> cs_recoveries t = cs_recoveries s @ [r] \<and> rr_revision r = cs_revision s + 1
     \<and> cs_announcements t = cs_announcements s \<and> cs_bindings t = cs_bindings s \<and> cs_events t = cs_events s
     \<and> cs_schema t = cs_schema (recovery_upgrade s))"

lemma recovery_schema: "cs_schema (recovery_upgrade s) = (if cs_schema s < 3 then 2 else cs_schema s)" if "1 \<le> cs_schema s"
  using that by (auto simp: recovery_upgrade_def has_submissions_def schema_defs)

text \<open>What a recovery does to the works and cases.\<close>

definition recovered_lists :: "control_state \<Rightarrow> control_state \<Rightarrow> (work \<Rightarrow> work) \<Rightarrow> (case_rec \<Rightarrow> case_rec) \<Rightarrow> bool" where
  "recovered_lists s t g h =
     (cs_works t = map g (cs_works s) \<and> cs_cases t = map h (cs_cases s)
    \<and> (\<forall>w. same_task w (g w)
         \<and> (w_source_grants w = None \<longrightarrow> w_source_grants (g w) = None)
         \<and> (w_source_watches w = None \<longrightarrow> w_source_watches (g w) = None))
    \<and> (\<forall>c. c_id (h c) = c_id c \<and> c_target (h c) = c_target c \<and> (c_state (h c) = Active \<longrightarrow> c_state c = Active)
         \<and> case_observed (h c) = case_observed c))"

lemma recovered_ids:
  assumes "recovered_lists s t g h" and "recovery_step s t r"
  shows "map w_id (cs_works t) = map w_id (cs_works s)" "map c_id (cs_cases t) = map c_id (cs_cases s)"
    "all_ids t = all_ids s" "subject_exists t = subject_exists s" "ids_grow s t"
proof -
  show w: "map w_id (cs_works t) = map w_id (cs_works s)" and c: "map c_id (cs_cases t) = map c_id (cs_cases s)"
    using assms(1) by (simp_all add: recovered_lists_def same_task_def)
  from w c have sets: "w_id ` set (cs_works t) = w_id ` set (cs_works s)" "c_id ` set (cs_cases t) = c_id ` set (cs_cases s)"
    by (metis list.set_map)+
  show "all_ids t = all_ids s" unfolding all_ids_def w c using assms(2) by (simp add: recovery_step_def)
  show "subject_exists t = subject_exists s" unfolding subject_exists_def sets by (simp add: fun_eq_iff)
  show "ids_grow s t" unfolding ids_grow_def sets using assms(2) by (simp add: recovery_step_def)
qed

lemma history_recovery:
  assumes ok: "control_ok sha s" and st: "recovery_step s t r" and lists: "recovered_lists s t g h"
    and r: "recovery_history_ok t r"
  shows "history_ok t"
proof -
  note same = recovered_ids [OF lists st]
  have "rr_revision r \<notin> set (operation_revisions s)"
    using revisions_bounded [OF ok, of "rr_revision r"] st by (auto simp: recovery_step_def)
  then have "unique_by (\<lambda>x. x) (operation_revisions t)"
    using control_okD(8) [OF ok] st by (auto simp: history_ok_def operation_revisions_def recovery_step_def unique_by_def)
  moreover have "controlReceiptCount t = cs_revision t"
    using control_okD(8) [OF ok] st by (auto simp: history_ok_def recovery_step_def controlReceiptCount_def same_identity_def)
  ultimately show ?thesis
    using control_okD(8) [OF ok] st r
    by (auto simp: history_ok_def recovery_step_def receipt_history_ok_def recovery_history_ok_def same_identity_def same)
qed

lemma version_recovery:
  assumes ok: "control_ok sha s" and st: "recovery_step s t r" and lists: "recovered_lists s t g h"
    and r: "recovery_receipt_ok sha r" and new: "key_unused s (rr_operator r) (rv_operation_key (rr_command r))"
    and fit: "controlReceiptCount t \<le> lim_receipts (cs_limits t)"
  shows "version_features_ok t"
proof -
  have old: "version_features_ok s" by (rule control_okD(2) [OF ok])
  have schema: "1 \<le> cs_schema s" using control_okD(1) [OF ok] by (simp add: control_records_ok_def)
  have "owner_key (rr_operator r) (rv_operation_key (rr_command r)) \<notin> set (operation_names s)"
    using key_unused_name [OF ok _ new] r by (simp add: recovery_receipt_ok_def)
  then have names: "unique_by (\<lambda>x. x) (operation_names t)"
    using old st by (auto simp: version_features_ok_def operation_names_def recovery_step_def unique_by_def)
  have step: "cs_schema t = (if cs_schema s < 3 then 2 else cs_schema s)" "cs_notes t = cs_notes s" "cs_receipts t = cs_receipts s"
    "cs_recoveries t \<noteq> []"
    using st recovery_schema [OF schema] by (simp_all add: recovery_step_def)
  have ws: "cs_works t = map g (cs_works s)" "cs_cases t = map h (cs_cases s)" and g: "w_managed (g w) = w_managed w"
    "w_source_grants w = None \<Longrightarrow> w_source_grants (g w) = None" "w_source_watches w = None \<Longrightarrow> w_source_watches (g w) = None"
    and h: "case_observed (h c) = case_observed c" for w c
    using lists by (simp_all add: recovered_lists_def same_task_def)
  have "cs_schema t < SOURCE_GRANT_CONTROL_SCHEMA \<Longrightarrow> cs_schema s < SOURCE_GRANT_CONTROL_SCHEMA"
    "cs_schema t < SOURCE_WATCH_CONTROL_SCHEMA \<Longrightarrow> cs_schema s < SOURCE_WATCH_CONTROL_SCHEMA"
    "cs_schema t < OBSERVED_CASE_CONTROL_SCHEMA \<Longrightarrow> cs_schema s < OBSERVED_CASE_CONTROL_SCHEMA"
    "cs_schema t = MANAGED_CONTROL_SCHEMA \<Longrightarrow> cs_schema s = MANAGED_CONTROL_SCHEMA"
    "cs_schema t < MANAGED_CONTROL_SCHEMA \<Longrightarrow> cs_schema s < MANAGED_CONTROL_SCHEMA"
    using step(1) by (auto simp: schema_defs split: if_splits)
  then show ?thesis
    using old fit names step(2-4)
    by (simp add: version_features_ok_def ws g h)
qed

lemma control_ok_recovery:
  assumes ok: "control_ok sha s" and st: "recovery_step s t r" and lists: "recovered_lists s t g h"
    and r: "recovery_receipt_ok sha r" "recovery_history_ok t r"
    and new: "key_unused s (rr_operator r) (rv_operation_key (rr_command r))"
    and fit: "controlReceiptCount t \<le> lim_receipts (cs_limits t)" and max: "int (cs_revision s + 1) \<le> MAX_SAFE_INTEGER"
    and works: "\<And>w. w \<in> set (cs_works t) \<Longrightarrow> work_ok w \<and> work_authority_ok (cs_revision t) w"
    and cases: "\<And>c. c \<in> set (cs_cases t) \<Longrightarrow> case_ok c \<and> case_authority_ok t c"
  shows "control_ok sha t"
proof -
  note rec = control_okD(1) [OF ok] and same = recovered_ids [OF lists st]
  have rest: "cs_notes t = cs_notes s" "cs_receipts t = cs_receipts s" "cs_recoveries t = cs_recoveries s @ [r]"
    "cs_announcements t = cs_announcements s" "cs_bindings t = cs_bindings s" "cs_events t = cs_events s"
    "cs_limits t = cs_limits s" "cs_revision t = cs_revision s + 1" "cs_epoch t = cs_epoch s" "cs_repository_id t = cs_repository_id s"
    using st by (simp_all add: recovery_step_def same_identity_def)
  have schema: "cs_schema t = (if cs_schema s < 3 then 2 else cs_schema s)"
    using st recovery_schema rec by (simp add: recovery_step_def control_records_ok_def)
  have len: "length (cs_works t) = length (cs_works s)" "length (cs_cases t) = length (cs_cases s)"
    using same(1,2) by (metis length_map)+
  have "list_ok (lim_works (cs_limits s)) work_ok w_id (cs_works t)" "list_ok (lim_cases (cs_limits s)) case_ok c_id (cs_cases t)"
    using rec works cases by (simp_all add: control_records_ok_def list_ok_def unique_by_def same len)
  then have "control_records_ok sha t"
    using rec r(1) fit max by (auto simp: control_records_ok_def rest schema has_submissions_def schema_defs controlReceiptCount_def)
  moreover have g: "cs_works t = map g (cs_works s)" "\<And>w. same_task w (g w)" and h: "cs_cases t = map h (cs_cases s)"
    "\<And>c. c_id (h c) = c_id c \<and> c_target (h c) = c_target c \<and> (c_state (h c) = Active \<longrightarrow> c_state c = Active)"
    using lists by (simp_all add: recovered_lists_def)
  have "enrollment_ok sha t"
    by (rule enrollment_works [OF control_okD(3) [OF ok] g]) (simp add: enrollments_def rest)
  moreover have "live_unique t"
  proof -
    have "live_unique (s\<lparr>cs_works := cs_works t\<rparr>)"
      by (rule live_unique_works [OF control_okD(4) [OF ok] _ g(2)]) (simp_all add: g(1))
    then show ?thesis by (rule live_unique_cases [OF _ _ _ _ h(2)]) (simp_all add: h(1) rest)
  qed
  moreover have "note_authority_ok t n" if "n \<in> set (cs_notes t)" for n
    by (rule note_authority_mono [OF same(5)]) (use that control_okD(7) [OF ok, of n] in \<open>simp_all add: rest\<close>)
  moreover have "submissions_ok t" if "has_submissions t"
  proof (cases "has_submissions s")
    case True
    show ?thesis by (rule submissions_mono [OF control_okD(9) [OF ok True]]) (simp_all add: rest)
  next
    case False
    with rec show ?thesis by (intro submissions_empty) (auto simp: control_records_ok_def rest)
  qed
  ultimately show ?thesis
    using works cases history_recovery [OF ok st lists r(2)] version_recovery [OF ok st lists r(1) new fit]
    by (simp add: control_ok_def control_relations_ok_def)
qed

section \<open>What an operator changes\<close>

definition work_recovery :: "recovery_action \<Rightarrow> work \<Rightarrow> work" where
  "work_recovery a w = bump_work (case a of
       Adopt_work _ p \<Rightarrow> (revoked w)\<lparr>w_owner := p, w_readers := filter (\<lambda>q. q \<noteq> p) (w_readers w)\<rparr>
     | _ \<Rightarrow> (revoked w)\<lparr>w_state := Closed\<rparr>)"

definition case_recovery :: "recovery_action \<Rightarrow> case_rec \<Rightarrow> case_rec" where
  "case_recovery a c = bump_case (case a of
       Settle_case _ _ \<Rightarrow> c\<lparr>c_external_effect := Not_started\<rparr>
     | Adopt_case _ _ p \<Rightarrow> c\<lparr>c_members := uniq (c_members c @ [p]), c_lead := p, c_generation := c_generation c + 1\<rparr>
     | _ \<Rightarrow> c\<lparr>c_state := Closed\<rparr>)"

lemma recover_work_Inr:
  assumes "recover_work cmd w = Inr x"
  shows "x = work_recovery (rv_action cmd) w" "w_revision w = rv_expected_revision cmd"
    "recovered_work cmd w = Some (work_recovery (rv_action cmd) w)"
  using assms
  by (auto simp: recover_work_def work_recovery_def recovered_work_def bump_work_def revoked_def Let_def
      split: if_splits recovery_action.splits)

lemma recover_case_Inr:
  assumes "recover_case sha s cmd g c = Inr x" and "recovery_generation (rv_action cmd) = Some g"
  shows "x = case_recovery (rv_action cmd) c" "c_revision c = rv_expected_revision cmd" "c_generation c = g" "c_state c = Active"
    "recovered_case cmd g c = Some (case_recovery (rv_action cmd) c)"
    "\<And>i g p. rv_action cmd = Adopt_case i g p \<Longrightarrow> length (uniq (c_members c @ [p])) \<le> MAX_PARTIES"
    "\<And>i g. rv_action cmd = Release_case_rec i g \<Longrightarrow> c_external_effect c = Not_started"
  using assms
  by (auto simp: recover_case_def case_recovery_def recovered_case_def bump_case_def idle_def Let_def andThen_Inr_iff
      guard_fail_Inr recovery_generation_def split: if_splits recovery_action.splits)

definition recovery_record :: "control_state \<Rightarrow> work list \<Rightarrow> case_rec list \<Rightarrow> recovery_receipt \<Rightarrow> control_state" where
  "recovery_record s ws cs r = (recovery_upgrade s)\<lparr>cs_revision := cs_revision s + 1, cs_works := ws, cs_cases := cs,
     cs_recoveries := cs_recoveries s @ [r]\<rparr>"

definition operator_receipt :: "(string \<Rightarrow> string) \<Rightarrow> control_state \<Rightarrow> string \<Rightarrow> recovery_command \<Rightarrow> recovery_receipt" where
  "operator_receipt sha s p cmd = \<lparr>rr_operator = p, rr_request_hash = recovery_hash sha p cmd,
     rr_revision = cs_revision s + 1, rr_command = cmd\<rparr>"

lemma recovery_upgrade_fields [simp]:
  "cs_works (recovery_upgrade s) = cs_works s" "cs_cases (recovery_upgrade s) = cs_cases s" "cs_notes (recovery_upgrade s) = cs_notes s"
  "cs_revision (recovery_upgrade s) = cs_revision s" "cs_recoveries (recovery_upgrade s) = cs_recoveries s"
  "cs_receipts (recovery_upgrade s) = cs_receipts s" "cs_limits (recovery_upgrade s) = cs_limits s"
  "cs_epoch (recovery_upgrade s) = cs_epoch s" "cs_repository_id (recovery_upgrade s) = cs_repository_id s"
  "cs_announcements (recovery_upgrade s) = cs_announcements s" "cs_bindings (recovery_upgrade s) = cs_bindings s"
  "cs_events (recovery_upgrade s) = cs_events s" "find_work (recovery_upgrade s) = find_work s" "find_case (recovery_upgrade s) = find_case s"
  by (simp_all add: recovery_upgrade_def find_work_def find_case_def fun_eq_iff)

lemma recovery_record_step: "recovery_step s (recovery_record s ws cs (operator_receipt sha s p cmd)) (operator_receipt sha s p cmd)"
  by (simp add: recovery_step_def recovery_record_def operator_receipt_def same_identity_def)

lemma recovery_record_eq:
  "(recovery_upgrade s)\<lparr>cs_works := ws, cs_revision := Suc (cs_revision s), cs_recoveries := cs_recoveries s @ [r]\<rparr>
     = recovery_record s ws (cs_cases s) r"
  "(recovery_upgrade s)\<lparr>cs_cases := cs, cs_revision := Suc (cs_revision s), cs_recoveries := cs_recoveries s @ [r]\<rparr>
     = recovery_record s (cs_works s) cs r"
  unfolding recovery_record_def by (rule control_state.equality; simp)+

lemma recovered_record_cases:
  assumes ok: "control_ok sha s" and res: "recovered_record sha s p cmd = Inr (Publication t r)"
  obtains (work) i w where "recovery_work_id (rv_action cmd) = Some i" "find_work s i = Some w" "recover_work cmd w = Inr (work_recovery (rv_action cmd) w)"
      "r = operator_receipt sha s p cmd" "checkCapacity t = Inr ()"
      "t = recovery_record s (map (\<lambda>x. if w_id x = i then work_recovery (rv_action cmd) x else x) (cs_works s)) (cs_cases s) r"
  | (item) i g c where "recovery_work_id (rv_action cmd) = None" "recovery_case_id (rv_action cmd) = Some i"
      "recovery_generation (rv_action cmd) = Some g" "find_case s i = Some c"
      "recover_case sha (recovery_upgrade s) cmd g c = Inr (case_recovery (rv_action cmd) c)"
      "r = operator_receipt sha s p cmd" "checkCapacity t = Inr ()"
      "t = recovery_record s (cs_works s) (map (\<lambda>x. if c_id x = i then case_recovery (rv_action cmd) x else x) (cs_cases s)) r"
proof (cases "recovery_work_id (rv_action cmd)")
  case (Some i)
  with res obtain w x where w: "find_work s i = Some w" "recover_work cmd w = Inr x"
    and t: "t = (change_work i (\<lambda>_. x) (recovery_upgrade s))\<lparr>cs_revision := cs_revision s + 1, cs_recoveries := cs_recoveries s @ [r]\<rparr>"
    and r: "r = operator_receipt sha s p cmd" and cap: "checkCapacity t = Inr ()"
    by (auto simp: recovered_record_def applyRecovery_def Let_def andThen_Inr_iff checked_publication_def change_work_def
        operator_receipt_def split: option.splits)
  have x: "x = work_recovery (rv_action cmd) w" by (rule recover_work_Inr [OF w(2)])
  have u: "distinct (map w_id (cs_works s))" using control_unique(1) [OF ok] by (simp add: unique_by_def)
  have "update_first (\<lambda>y. w_id y = i) (\<lambda>_. x) (cs_works s) = map (\<lambda>y. if w_id y = i then x else y) (cs_works s)"
    using u by (simp add: update_first_map_key)
  also have "\<dots> = map (\<lambda>y. if w_id y = i then work_recovery (rv_action cmd) y else y) (cs_works s)"
    using find_work_iff [OF ok, of i w] w(1) u by (auto simp: x distinct_map dest: inj_onD)
  finally show thesis
    using Some w x t r cap by (intro work) (simp_all add: recovery_record_eq change_work_def)
next
  case None
  with res obtain i g c x where c: "recovery_case_id (rv_action cmd) = Some i" "recovery_generation (rv_action cmd) = Some g"
      "find_case s i = Some c" "recover_case sha (recovery_upgrade s) cmd g c = Inr x"
    and t: "t = (change_case i (\<lambda>_. x) (recovery_upgrade s))\<lparr>cs_revision := cs_revision s + 1, cs_recoveries := cs_recoveries s @ [r]\<rparr>"
    and r: "r = operator_receipt sha s p cmd" and cap: "checkCapacity t = Inr ()"
    by (auto simp: recovered_record_def applyRecovery_def Let_def andThen_Inr_iff checked_publication_def change_case_def
        operator_receipt_def split: option.splits)
  have x: "x = case_recovery (rv_action cmd) c" by (rule recover_case_Inr(1) [OF c(4,2)])
  have u: "distinct (map c_id (cs_cases s))" using control_unique(2) [OF ok] by (simp add: unique_by_def)
  have "update_first (\<lambda>y. c_id y = i) (\<lambda>_. x) (cs_cases s) = map (\<lambda>y. if c_id y = i then x else y) (cs_cases s)"
    using u by (simp add: update_first_map_key)
  also have "\<dots> = map (\<lambda>y. if c_id y = i then case_recovery (rv_action cmd) y else y) (cs_cases s)"
    using find_case_iff [OF ok, of i c] c(3) u by (auto simp: x distinct_map dest: inj_onD)
  finally show thesis
    using None c x t r cap by (intro item) (simp_all add: recovery_record_eq change_case_def)
qed

section \<open>The record after a recovery\<close>

text \<open>The adopting owner of a work is not one of the readers that an observed case added to it.\<close>

definition adoption_undisclosed :: "control_state \<Rightarrow> recovery_action \<Rightarrow> bool" where
  "adoption_undisclosed s a = (case a of
       Adopt_work i p \<Rightarrow> \<forall>c \<in> set (cs_cases s). \<forall>d \<in> set (case_deltas c). vd_work_id d = i \<longrightarrow> p \<notin> set (vd_added_readers d)
     | _ \<Rightarrow> True)"

text \<open>What \<open>recoverAuthorized\<close> establishes before it applies the command.\<close>

definition recovering :: "(string \<Rightarrow> string) \<Rightarrow> control_state \<Rightarrow> string \<Rightarrow> recovery_command \<Rightarrow> bool" where
  "recovering sha s p cmd = (control_ok sha s \<and> sha_hex sha \<and> parent_ok p \<and> recovery_ok cmd \<and> key_unused s p (rv_operation_key cmd)
     \<and> rv_epoch cmd = cs_epoch s \<and> int (cs_revision s + 1) \<le> MAX_SAFE_INTEGER)"

lemma work_recovery_task:
  "same_task w (work_recovery a w)" "w_source_grants w = None \<Longrightarrow> w_source_grants (work_recovery a w) = None"
  "w_source_watches w = None \<Longrightarrow> w_source_watches (work_recovery a w) = None"
  "w_revision (work_recovery a w) = w_revision w + 1" "w_id (work_recovery a w) = w_id w"
  "w_managed (work_recovery a w) = w_managed w" "w_object_format (work_recovery a w) = w_object_format w"
  by (auto simp: work_recovery_def bump_work_def same_task_def revoked_def split: recovery_action.split)

lemma case_recovery_same:
  "c_id (case_recovery a c) = c_id c" "c_target (case_recovery a c) = c_target c"
  "c_state (case_recovery a c) = Active \<Longrightarrow> c_state c = Active" "case_observed (case_recovery a c) = case_observed c"
  "c_inputs (case_recovery a c) = c_inputs c" "c_revision (case_recovery a c) = c_revision c + 1"
  "c_generation (case_recovery a c) \<le> c_generation c + 1" "set (c_members c) \<subseteq> set (c_members (case_recovery a c))"
  "c_target_oid (case_recovery a c) = c_target_oid c" "c_observed_origin (case_recovery a c) = c_observed_origin c"
  "c_delivery_pending (case_recovery a c) = c_delivery_pending c" "c_delivery_observed (case_recovery a c) = c_delivery_observed c"
  "c_visibility_delta (case_recovery a c) = c_visibility_delta c"
  by (auto simp: case_recovery_def bump_case_def case_observed_def split: recovery_action.split recovery_action.split_asm)

lemma assertWatchInventory_Nil: "assertWatchInventory [] = Inr ()"
  by code_simp

lemma work_recovery_ok:
  assumes "work_ok w" and "work_authority_ok n w" and "int (n + 1) \<le> MAX_SAFE_INTEGER" and "recovery_action_ok a"
  shows "work_ok (work_recovery a w)" "work_authority_ok (n + 1) (work_recovery a w)"
  using assms assertWatchInventory_Nil
  by (auto simp: work_recovery_def bump_work_def revoked_def work_ok_def work_authority_ok_def recovery_action_ok_def counter_ok_def
      parents_ok_def list_ok_def unique_by_def distinct_map_filter opt_ok_def grants_ok_def watches_ok_def
      work_grants_def work_watches_def split: recovery_action.split option.splits intro: le_trans [OF length_filter_le])

lemma case_recovery_ok:
  assumes res: "recover_case sha u cmd g c = Inr x" and g: "recovery_generation (rv_action cmd) = Some g"
    and c: "case_ok c" "case_authority_ok s c" and max: "int (cs_revision s + 1) \<le> MAX_SAFE_INTEGER"
    and cmd: "recovery_action_ok (rv_action cmd)" and t: "cs_works t = cs_works s" "cs_revision t = cs_revision s + 1"
  shows "case_ok (case_recovery (rv_action cmd) c)" "case_authority_ok t (case_recovery (rv_action cmd) c)"
proof -
  let ?d = "case_recovery (rv_action cmd) c"
  note inr = recover_case_Inr [OF res g] and same = case_recovery_same
  have bound: "c_revision c \<le> cs_revision s" "c_generation c \<le> cs_revision s" using c(2) by (simp_all add: case_authority_ok_def)
  have members: "parents_ok (c_members ?d)" "parent_ok (c_lead ?d)" "c_lead ?d \<in> set (c_members ?d)"
    using c cmd inr(6)
    by (auto simp: case_recovery_def bump_case_def case_ok_def case_authority_ok_def recovery_action_ok_def parents_ok_def list_ok_def
        unique_by_def split: recovery_action.split)
  have counters: "counter_ok (c_revision ?d)" "counter_ok (c_generation ?d)"
    using bound max c(1)
    by (auto simp: case_ok_def counter_ok_def case_recovery_def bump_case_def split: recovery_action.split)
  show "case_ok ?d" using c(1) members counters by (simp add: case_ok_def same)
  have ids: "input_ids ?d = input_ids c" "pending_ids ?d = pending_ids c" by (simp_all add: input_ids_def pending_ids_def same)
  have works: "find_work t = find_work s" using t(1) by (simp add: find_work_def fun_eq_iff)
  have delta: "delta_authority_ok s c d \<Longrightarrow> delta_authority_ok t ?d d" for d
    using same(8) [of c "rv_action cmd"] by (auto simp: delta_authority_ok_def ids works split: option.splits)
  have input: "input_format_ok s c i \<Longrightarrow> input_format_ok t ?d i" for i
    by (simp add: input_format_ok_def works same cong: option.case_cong)
  have effect: "\<not> (c_state ?d = Closed \<and> c_external_effect ?d \<noteq> Not_started)"
    using c(2) inr(4,7) g by (auto simp: case_recovery_def bump_case_def recovery_generation_def split: recovery_action.splits)
  show "case_authority_ok t ?d"
    unfolding case_authority_ok_def
    using c(2) bound t(2) members(3) effect delta input same(7) [of "rv_action cmd" c]
    by (simp add: case_authority_ok_def same ids split: option.splits)
qed

theorem recovery_accepted:
  assumes rec: "recovering sha s p cmd" and res: "recovered_record sha s p cmd = Inr (Publication t r)"
    and free: "adoption_undisclosed s (rv_action cmd)"
  shows "control_ok sha t"
proof -
  have ok: "control_ok sha s" and hex: "sha_hex sha" and p: "parent_ok p" and cmd: "recovery_ok cmd"
    and new: "key_unused s p (rv_operation_key cmd)" and ep: "rv_epoch cmd = cs_epoch s"
    and max: "int (cs_revision s + 1) \<le> MAX_SAFE_INTEGER"
    using rec by (simp_all add: recovering_def)
  have act: "recovery_action_ok (rv_action cmd)" using cmd by (simp add: recovery_ok_def)
  have hash: "parent_ok (recovery_hash sha p cmd)"
    using hex by (simp add: recovery_hash_def canonical_hash_def sha_hex_def)
  have receipt: "recovery_receipt_ok sha (operator_receipt sha s p cmd)"
    if "rv_expected_revision cmd \<le> cs_revision s" "opt_ok (\<lambda>g. g \<le> cs_revision s) (recovery_generation (rv_action cmd))"
    using that p cmd hash max
    by (auto simp: recovery_receipt_ok_def operator_receipt_def counter_ok_def opt_ok_def split: option.splits)
  have history: "recovery_history_ok t (operator_receipt sha s p cmd)"
    if "rv_expected_revision cmd \<le> cs_revision s" "subject_exists t (recovery_subject (rv_action cmd))"
      "cs_revision t = cs_revision s + 1" "cs_epoch t = cs_epoch s"
    using that ep by (simp add: recovery_history_ok_def operator_receipt_def)
  from ok res show ?thesis
  proof (cases rule: recovered_record_cases)
    case (work i w)
    let ?g = "\<lambda>x. if w_id x = i then work_recovery (rv_action cmd) x else x"
    note t = work(6) and inr = recover_work_Inr [OF work(3)]
    have w: "w \<in> set (cs_works s)" "w_id w = i" using work(2) find_work_iff [OF ok] by auto
    have bound: "rv_expected_revision cmd \<le> cs_revision s"
      using control_okD(5) [OF ok w(1)] inr(2) by (simp add: work_authority_ok_def)
    have gen: "recovery_generation (rv_action cmd) = None"
      using work(1) by (simp add: recovery_work_id_def recovery_generation_def split: recovery_action.splits)
    have step: "recovery_step s t r" unfolding t work(4) by (rule recovery_record_step)
    have lists: "recovered_lists s t ?g (\<lambda>c. c)"
      using work_recovery_task by (simp add: recovered_lists_def t recovery_record_def same_task_def)
    have fields: "cs_revision t = cs_revision s + 1" "cs_limits t = cs_limits s" "cs_epoch t = cs_epoch s" "cs_cases t = cs_cases s"
      by (simp_all add: t recovery_record_def)
    have mem: "x \<in> set (cs_works s) \<or> x = work_recovery (rv_action cmd) w" if "x \<in> set (cs_works t)" for x
      using upd_members [OF control_unique(1) [OF ok] w] that by (simp add: t recovery_record_def)
    have find: "find_work t j = map_option ?g (find_work s j)" for j
      unfolding find_work_def t recovery_record_def
      by (simp add: find_map_key [of w_id ?g] work_recovery_task)
    show ?thesis
    proof (rule control_ok_recovery [OF ok step lists])
      show "recovery_receipt_ok sha r" unfolding work(4) by (rule receipt) (simp_all add: bound gen opt_ok_def)
      have "subject_exists s (recovery_subject (rv_action cmd))"
        using work(1) w by (auto simp: recovery_subject_def recovery_work_id_def subject_exists_def split: recovery_action.splits)
      then show "recovery_history_ok t r"
        unfolding work(4) using history bound fields(1,3) recovered_ids(4) [OF lists step] by simp
      show "key_unused s (rr_operator r) (rv_operation_key (rr_command r))" using new by (simp add: work(4) operator_receipt_def)
      show "controlReceiptCount t \<le> lim_receipts (cs_limits t)" using checkCapacityD(4) [OF work(5)] by simp
      fix x assume "x \<in> set (cs_works t)"
      from mem [OF this] show "work_ok x \<and> work_authority_ok (cs_revision t) x"
        using work_recovery_ok [OF control_members(1) [OF ok w(1)] control_okD(5) [OF ok w(1)] max act]
          control_members(1) [OF ok] work_authority_mono [OF control_okD(5) [OF ok]] fields(1) by auto
    next
      fix c assume c: "c \<in> set (cs_cases t)"
      then have old: "case_ok c" "case_authority_ok s c" and mem: "c \<in> set (cs_cases s)"
        using control_members(2) [OF ok] control_okD(6) [OF ok] fields(4) by auto
      have delta: "delta_authority_ok t c d" if d: "delta_authority_ok s c d" "d \<in> set (case_deltas c)" for d
      proof -
        from d obtain x m where x: "find_work s (vd_work_id d) = Some x" "w_managed x = Some m"
          by (auto simp: delta_authority_ok_def split: option.splits)
        have owner: "\<And>q. q \<in> set (vd_added_readers d) \<Longrightarrow> q \<noteq> w_owner (?g x)"
        proof -
          fix q assume q: "q \<in> set (vd_added_readers d)"
          show "q \<noteq> w_owner (?g x)"
          proof (cases "w_id x = i")
          case True
          then have "vd_work_id d = i" using x(1) find_work_iff [OF ok] by auto
          then show ?thesis
            using free mem d q x True work(1)
            by (auto simp: delta_authority_ok_def adoption_undisclosed_def work_recovery_def bump_work_def revoked_def
                recovery_work_id_def split: recovery_action.splits)
          qed (use d q x in \<open>auto simp: delta_authority_ok_def\<close>)
        qed
        have "w_managed (?g x) = Some m" "vd_work_revision d \<le> w_revision (?g x)" "find_work t (vd_work_id d) = Some (?g x)"
          using d(1) x by (simp_all add: delta_authority_ok_def find work_recovery_task)
        then show ?thesis
          using d(1) x owner by (simp add: delta_authority_ok_def)
      qed
      have input: "input_format_ok t c j" if "input_format_ok s c j" for j
        using that by (auto simp: input_format_ok_def find work_recovery_task split: option.splits)
      show "case_ok c \<and> case_authority_ok t c"
        using old delta input fields(1)
        by (auto simp: case_authority_ok_def case_deltas_def split: option.splits)
    qed (use max in simp_all)
  next
    case (item i g c)
    let ?h = "\<lambda>x. if c_id x = i then case_recovery (rv_action cmd) x else x"
    note t = item(8) and inr = recover_case_Inr [OF item(5,3)]
    have c: "c \<in> set (cs_cases s)" "c_id c = i" using item(4) find_case_iff [OF ok] by auto
    have bound: "rv_expected_revision cmd \<le> cs_revision s" "g \<le> cs_revision s"
      using control_okD(6) [OF ok c(1)] inr(2,3) by (auto simp: case_authority_ok_def)
    have step: "recovery_step s t r" unfolding t item(6) by (rule recovery_record_step)
    have lists: "recovered_lists s t (\<lambda>w. w) ?h"
      using case_recovery_same by (simp add: recovered_lists_def t recovery_record_def same_task_def)
    have fields: "cs_revision t = cs_revision s + 1" "cs_limits t = cs_limits s" "cs_epoch t = cs_epoch s" "cs_works t = cs_works s"
      by (simp_all add: t recovery_record_def)
    have mem: "x \<in> set (cs_cases s) \<or> x = case_recovery (rv_action cmd) c" if "x \<in> set (cs_cases t)" for x
      using upd_members [OF control_unique(2) [OF ok] c] that by (simp add: t recovery_record_def)
    show ?thesis
    proof (rule control_ok_recovery [OF ok step lists])
      show "recovery_receipt_ok sha r" unfolding item(6) by (rule receipt) (simp_all add: bound item(3) opt_ok_def)
      have "subject_exists s (recovery_subject (rv_action cmd))"
        using item(2) c by (auto simp: recovery_subject_def recovery_case_id_def subject_exists_def split: recovery_action.splits)
      then show "recovery_history_ok t r"
        unfolding item(6) using history bound fields(1,3) recovered_ids(4) [OF lists step] by simp
      show "key_unused s (rr_operator r) (rv_operation_key (rr_command r))" using new by (simp add: item(6) operator_receipt_def)
      show "controlReceiptCount t \<le> lim_receipts (cs_limits t)" using checkCapacityD(4) [OF item(7)] by simp
      fix w assume "w \<in> set (cs_works t)"
      then show "work_ok w \<and> work_authority_ok (cs_revision t) w"
        using control_members(1) [OF ok] work_authority_mono [OF control_okD(5) [OF ok]] fields(1,4) by auto
    next
      fix x assume "x \<in> set (cs_cases t)"
      from mem [OF this] show "case_ok x \<and> case_authority_ok t x"
        using case_recovery_ok [OF item(5,3) control_members(2) [OF ok c(1)] control_okD(6) [OF ok c(1)] max act fields(4,1)]
          control_members(2) [OF ok] case_authority_mono [OF works_evolve_same [OF fields(4)]] control_okD(6) [OF ok] fields(1) by auto
    qed (use max in simp_all)
  qed
qed

section \<open>The transition of a recovery\<close>

lemma find_update:
  "(\<And>x. key (f x) = key x) \<Longrightarrow> List.find (\<lambda>x. key x = j) (map (\<lambda>x. if key x = i then f x else x) xs)
     = map_option (\<lambda>x. if key x = i then f x else x) (List.find (\<lambda>x. key x = j) xs)"
  by (rule find_map_upd) simp

theorem recovery_follows:
  assumes rec: "recovering sha s p cmd" and res: "recovered_record sha s p cmd = Inr (Publication t r)"
  shows "assertControlTransition sha s t = Inr ()"
proof -
  have ok: "control_ok sha s" and ep: "rv_epoch cmd = cs_epoch s" using rec by (simp_all add: recovering_def)
  have schema: "1 \<le> cs_schema s" using control_okD(1) [OF ok] by (simp add: control_records_ok_def)
  have frame: "assertControlTransition sha s (recovery_record s ws cs (operator_receipt sha s p cmd)) = Inr ()"
    if "assertRecoveryTransition sha s (recovery_record s ws cs (operator_receipt sha s p cmd)) cmd"
      and works: "\<And>w. w \<in> set (cs_works s) \<Longrightarrow> recovery_work_id (rv_action cmd) \<noteq> Some (w_id w) \<Longrightarrow> List.find (\<lambda>x. w_id x = w_id w) ws = Some w"
      and named: "\<And>w. w \<in> set (cs_works s) \<Longrightarrow> List.find (\<lambda>x. w_id x = w_id w) ws \<noteq> None"
      and cases: "\<And>c. c \<in> set (cs_cases s) \<Longrightarrow> recovery_case_id (rv_action cmd) \<noteq> Some (c_id c) \<Longrightarrow> List.find (\<lambda>x. c_id x = c_id c) cs = Some c"
      and held: "\<And>c. c \<in> set (cs_cases s) \<Longrightarrow> List.find (\<lambda>x. c_id x = c_id c) cs \<noteq> None" for ws cs
  proof -
    let ?r = "operator_receipt sha s p cmd"
    let ?t = "recovery_record s ws cs ?r"
    have fields [simp]: "cs_works ?t = ws" "cs_cases ?t = cs" "cs_notes ?t = cs_notes s" "cs_receipts ?t = cs_receipts s"
      "cs_recoveries ?t = cs_recoveries s @ [?r]" "cs_events ?t = cs_events s" "cs_announcements ?t = cs_announcements s"
      "cs_bindings ?t = cs_bindings s" "cs_epoch ?t = cs_epoch s" "cs_repository_id ?t = cs_repository_id s"
      "cs_limits ?t = cs_limits s" "cs_revision ?t = cs_revision s + 1"
      "cs_schema ?t = (if cs_schema s < 3 then 2 else cs_schema s)" "rr_command ?r = cmd" "rr_revision ?r = cs_revision s + 1"
      using recovery_schema [OF schema] by (simp_all add: recovery_record_def operator_receipt_def)
    have none: "appended_action s ?t a = None" for a by (simp add: appended_action_def appended_receipt_def appended_def)
    have w: "work_transition_ok sha s ?t (Some ?r) w" if "w \<in> set (cs_works s)" for w
      using works [OF that] named [OF that] none work_identity_refl [of w]
      by (auto simp: work_transition_ok_def find_work_def split: option.split)
    have c: "case_transition sha s ?t (Some ?r) c = Inr ()" if "c \<in> set (cs_cases s)" for c
      using cases [OF that] held [OF that] none
      by (auto simp: case_transition_def find_case_def case_identity_ok_def split: option.split)
    have n: "note_transition_ok ?t n" if "n \<in> set (cs_notes s)" for n
      using find_note_iff [OF ok, of "n_id n" n] that by (intro note_transition_same) (simp add: find_note_def)
    have "appended (cs_recoveries s) (cs_recoveries ?t) = Some ?r" "appended (cs_events s) (cs_events ?t) = None"
      by (simp_all add: appended_def)
    with that(1) w c n show ?thesis
      unfolding assertControlTransition_def Let_def
      by (simp add: none enrollment_transition_ok_def source_transition_ok_def guard_fail_Inr andThen_Inr_iff each_res_okI schema_defs
          schema)
  qed
  from ok res show ?thesis
  proof (cases rule: recovered_record_cases)
    case (work i w)
    note inr = recover_work_Inr [OF work(3)]
    have w: "w \<in> set (cs_works s)" "w_id w = i" using work(2) find_work_iff [OF ok] by auto
    have one: "recovery_case_id (rv_action cmd) = None" using work(1)
      by (simp add: recovery_work_id_def recovery_case_id_def split: recovery_action.splits)
    have found: "List.find (\<lambda>x. c_id x = c_id c) (cs_cases s) = Some c" if "c \<in> set (cs_cases s)" for c
      using find_case_iff [OF ok, of "c_id c" c] that by (simp add: find_case_def)
    have update: "map (\<lambda>x. if w_id x = i then work_recovery (rv_action cmd) x else x) (cs_works s)
        = map (\<lambda>x. if w_id x = i then work_recovery (rv_action cmd) w else x) (cs_works s)"
      using unique_by_inj [OF control_unique(1) [OF ok] _ w(1)] w(2) by auto
    have known: "List.find (\<lambda>x. w_id x = w_id y) (cs_works s) = Some y" if "y \<in> set (cs_works s)" for y
      using find_work_iff [OF ok, of "w_id y" y] that by (simp add: find_work_def)
    show ?thesis unfolding work(6) work(4)
    proof (rule frame)
      show "assertRecoveryTransition sha s (recovery_record s (map (\<lambda>x. if w_id x = i then work_recovery (rv_action cmd) x else x) (cs_works s))
          (cs_cases s) (operator_receipt sha s p cmd)) cmd"
        unfolding update using work(1,2) inr(3) ep
        by (simp add: assertRecoveryTransition_def Let_def recovery_record_def)
    qed (use one found known work(1) in \<open>auto simp: find_update work_recovery_task\<close>)
  next
    case (item i g c)
    note inr = recover_case_Inr [OF item(5,3)]
    have c: "c \<in> set (cs_cases s)" "c_id c = i" using item(4) find_case_iff [OF ok] by auto
    have known: "List.find (\<lambda>x. w_id x = w_id y) (cs_works s) = Some y" if "y \<in> set (cs_works s)" for y
      using find_work_iff [OF ok, of "w_id y" y] that by (simp add: find_work_def)
    have update: "map (\<lambda>x. if c_id x = i then case_recovery (rv_action cmd) x else x) (cs_cases s)
        = map (\<lambda>x. if c_id x = i then case_recovery (rv_action cmd) c else x) (cs_cases s)"
      using unique_by_inj [OF control_unique(2) [OF ok] _ c(1)] c(2) by auto
    have found: "List.find (\<lambda>x. c_id x = c_id y) (cs_cases s) = Some y" if "y \<in> set (cs_cases s)" for y
      using find_case_iff [OF ok, of "c_id y" y] that by (simp add: find_case_def)
    show ?thesis unfolding item(8) item(6)
    proof (rule frame)
      show "assertRecoveryTransition sha s (recovery_record s (cs_works s)
          (map (\<lambda>x. if c_id x = i then case_recovery (rv_action cmd) x else x) (cs_cases s)) (operator_receipt sha s p cmd)) cmd"
        unfolding update using item(1-4) inr(5) ep
        by (simp add: assertRecoveryTransition_def Let_def recovery_record_def)
    qed (use item(1,2) found known in \<open>auto simp: find_update case_recovery_same\<close>)
  qed
qed

section \<open>The request\<close>

lemma recover_Inr:
  assumes "recoverAuthorized sha m s actor raw = Inr (Publication t r)"
    and "control_ok sha s" "sha_hex sha" "int (cs_revision s + 1) \<le> MAX_SAFE_INTEGER"
  obtains p cmd where "recovering sha s p cmd" "recovered_record sha s p cmd = Inr (Publication t r)" "rr_command r = cmd"
proof -
  from assms(1) obtain p cmd where d: "parentId actor = Inr p" "decodeRecoveryCommand raw = Inr cmd"
    and key: "find_recovery s p (rv_operation_key cmd) = None" "receipt_for s p (rv_operation_key cmd) = None"
      "\<not> event_key s p (rv_operation_key cmd)" and ep: "rv_epoch cmd = cs_epoch s"
    and res: "recovered_record sha s p cmd = Inr (Publication t r)"
    unfolding recoverAuthorized_def andThen_Inr_iff guard_fail_Inr
    by (elim exE conjE) (auto simp: andThen_Inr_iff guard_fail_Inr split: option.splits if_splits)
  have "\<not> recovery_key s p (rv_operation_key cmd)"
    using key(1) by (auto simp: find_recovery_def recovery_key_def find_None_iff)
  then have "recovering sha s p cmd"
    using assms(2-4) d key ep decodeRecoveryCommand_sound [OF d(2)] by (simp add: recovering_def key_unused_iff identity_Inr)
  moreover have "rr_command r = cmd"
    using assms(2) res by (cases rule: recovered_record_cases) (simp_all add: operator_receipt_def)
  ultimately show thesis using that res by blast
qed

text \<open>Adopting a work for a parent to whom an observed case disclosed it makes a record no reader accepts.\<close>

lemma disclosed_adoption_rejected:
  assumes ok: "control_ok sha s" and res: "recovered_record sha s p cmd = Inr (Publication t r)"
    and "\<not> adoption_undisclosed s (rv_action cmd)"
  shows "\<not> control_ok sha t"
proof
  assume t: "control_ok sha t"
  from assms(3) obtain i q c d where act: "rv_action cmd = Adopt_work i q" and c: "c \<in> set (cs_cases s)" "d \<in> set (case_deltas c)"
    and d: "vd_work_id d = i" "q \<in> set (vd_added_readers d)"
    by (auto simp: adoption_undisclosed_def split: recovery_action.splits)
  from ok res show False
  proof (cases rule: recovered_record_cases)
    case (work j w)
    have ji: "j = i" using work(1) act by (simp add: recovery_work_id_def)
    have "find_work t i = map_option (\<lambda>x. if w_id x = j then work_recovery (rv_action cmd) x else x) (find_work s i)"
      by (simp add: work(6) recovery_record_def find_work_def find_update work_recovery_task)
    then have owner: "find_work t i = Some (work_recovery (rv_action cmd) w)"
      using work(2) find_work_iff [OF ok] by (auto simp: ji)
    have "c \<in> set (cs_cases t)" using c(1) by (simp add: work(6) recovery_record_def)
    then have "delta_authority_ok t c d"
      using control_okD(6) [OF t, of c] c(2) by (cases "c_visibility_delta c") (simp_all add: case_authority_ok_def case_deltas_def)
    with owner d show False
      by (auto simp: delta_authority_ok_def act work_recovery_def bump_work_def split: option.splits)
  qed (simp add: act recovery_work_id_def)
qed

end
