(* ===== verification/Examples_Requests.thy ===== *)
theory Examples_Requests
  imports Examples_Service Service_Recovery
begin

text \<open>
  Concrete runs of the service: requests executed and repeated, a retirement, recoveries, and
  what is disclosed of the works of a small record.
\<close>

section \<open>A bound on the stored text\<close>

fun text_bound :: "nat \<Rightarrow> jval \<Rightarrow> nat" where
  "text_bound n (JStr s) = 6 * length s + 2"
| "text_bound n (JArr vs) = sum_list (map (\<lambda>v. text_bound (Suc n) v + (2 * n + 4)) vs) + (4 * n + 6)"
| "text_bound n (JObj kvs) =
     sum_list (map (\<lambda>(k, v). 6 * length k + text_bound (Suc n) v + (2 * n + 8)) kvs) + (4 * n + 6)"
| "text_bound n v = length (stringify v)"

lemma length_joined: "length sep = k \<Longrightarrow> length (joined sep xs) \<le> sum_list (map (\<lambda>x. length x + k) xs)"
  by (induction sep xs rule: joined.induct) auto

lemma length_newline_indent: "length (newline_indent n) = 2 * n + 1"
  by (simp add: newline_indent_def)

lemma length_separator: "length ('','' @ newline_indent (Suc n)) = 2 * n + 4"
  by (simp add: length_newline_indent)

lemma length_quote: "length (quote s) \<le> 6 * length s + 2"
proof -
  have "length (esc_char a) \<le> 6" for a by (simp add: esc_char_def Let_def)
  then have "length (concat (map esc_char s)) \<le> 6 * length s"
    by (induction s) (auto intro!: add_mono)
  then show ?thesis by (simp add: quote_def)
qed

lemma length_members:
  assumes "\<And>k v. (k, v) \<in> set kvs \<Longrightarrow> v \<noteq> JUndef \<Longrightarrow> length (f v) \<le> g v" and M: "M = m + 4"
  shows "sum_list (map (\<lambda>x. length x + m) (concat (map (\<lambda>(k, v). if v = JUndef then [] else [quote k @ '': '' @ f v]) kvs)))
    \<le> sum_list (map (\<lambda>(k, v). 6 * length k + g v + M) kvs)"
  using assms(1)
proof (induction kvs)
  case (Cons kv kvs)
  obtain k v where kv: "kv = (k, v)" by (cases kv)
  have rest: "sum_list (map (\<lambda>x. length x + m) (concat (map (\<lambda>(k, v). if v = JUndef then [] else [quote k @ '': '' @ f v]) kvs)))
    \<le> sum_list (map (\<lambda>(k, v). 6 * length k + g v + M) kvs)"
    by (rule Cons.IH) (meson Cons.prems list.set_intros(2))
  have "length (f v) \<le> g v" if "v \<noteq> JUndef" using Cons.prems [of k v] kv that by simp
  with rest length_quote [of k] show ?case by (cases "v = JUndef") (simp_all add: kv M)
qed simp

lemma length_pretty: "length (pretty n v) \<le> text_bound n v"
proof (induction n v rule: pretty.induct)
  case (1 n vs)
  have "sum_list (map (\<lambda>x. length x + (2 * n + 4)) (map (pretty (Suc n)) vs))
      \<le> sum_list (map (\<lambda>v. text_bound (Suc n) v + (2 * n + 4)) vs)"
    using 1 by (cases "vs = []") (auto simp: comp_def intro!: sum_list_mono)
  with length_joined [OF length_separator]
  have "length (joined ('','' @ newline_indent (Suc n)) (map (pretty (Suc n)) vs))
      \<le> sum_list (map (\<lambda>v. text_bound (Suc n) v + (2 * n + 4)) vs)" by (rule order_trans)
  then show ?case by (simp add: length_newline_indent)
next
  case (2 n kvs)
  let ?f = "\<lambda>(k, v). if v = JUndef then [] else [quote k @ '': '' @ pretty (Suc n) v]"
  have "sum_list (map (\<lambda>x. length x + (2 * n + 4)) (concat (map ?f kvs)))
      \<le> sum_list (map (\<lambda>(k, v). 6 * length k + text_bound (Suc n) v + (2 * n + 8)) kvs)"
    by (rule length_members) (use 2 in auto)
  with length_joined [OF length_separator]
  have "length (joined ('','' @ newline_indent (Suc n)) (concat (map ?f kvs)))
      \<le> sum_list (map (\<lambda>(k, v). 6 * length k + text_bound (Suc n) v + (2 * n + 8)) kvs)" by (rule order_trans)
  then show ?case by (simp add: length_newline_indent Let_def)
qed (use length_quote in simp_all)

lemma small_record:
  assumes "text_bound 0 (control_json s) + 1 + releaseSlotsRequired s * CONTROL_RELEASE_BYTES \<le> CONTROL_MAX_BYTES"
    and "length (cs_works s) \<le> lim_works (cs_limits s)" "length (cs_cases s) \<le> lim_cases (cs_limits s)" "cs_notes s = []"
    and "controlReceiptCount s + releaseSlotsRequired s \<le> lim_receipts (cs_limits s)"
  shows "checkCapacity s = Inr ()"
  using assms length_pretty [of 0 "control_json s"] by (simp add: checkCapacity_def guard_fail_def control_text_def Let_def)

section \<open>The store of the examples\<close>

lemma demo_two_follows: "assertControlTransition demo_sha demo_one demo_two = Inr ()"
  using demo_two_published by (cases rule: publication.cases) simp

lemma demo_mutable: "assertMutable demo_store (Inr ()) = Inr ()"
  by (simp add: assertMutable_def demo_store_def andThen_def guard_fail_def)

lemma demo_view: "store_view demo_sha (demo_store, demo_disk demo_one) = Inr demo_one"
  by (simp add: store_view_def demo_snapshots)

lemma demo_rename_fails:
  "publish demo_sha demo_store (demo_disk demo_one) (Inr ()) (\<lambda>w. if w = Rename then fail ''EIO'' else Inr ())
     (control_json demo_one) (control_json demo_two)
     = ((demo_store\<lparr>st_uncertain := True\<rparr>, demo_disk demo_one), fail ''COORDINATION_PUBLICATION_UNCERTAIN'')"
  using prepare_checked [OF demo_snapshots(1) demo_two_ok demo_two_follows demo_sizes(2)] demo_snapshots(1) demo_mutable
  by (simp add: publish_def publish_prepared_def write_control_def atomicJson_def before_rename_def finally_res_def
      andThen_def guard_fail_def)

lemma demo_reads: "stored demo_sha ''repo'' (demo_disk demo_one) = Inr demo_one"
  using snapshot_stored [OF demo_snapshots(1)] by (simp add: demo_store_def)

lemma demo_reaches: "reaches demo_sha demo_one (demo_store, demo_disk demo_one)"
  using demo_reads by (simp add: reaches_def demo_store_def)

lemma demo_store_run: "(store_step demo_sha)\<^sup>*\<^sup>* (demo_store, demo_disk demo_one) (demo_store, demo_disk demo_two)"
proof (rule r_into_rtranclp [of "store_step demo_sha"], rule store_step.publication [OF demo_published])
  have "decodeControl demo_sha (control_json demo_one) (st_repository demo_store) = Inr demo_one"
    using decodeControl_json [OF demo_one_ok] by (simp add: demo_store_def demo_fields)
  then show "no_collision demo_sha demo_store (demo_disk demo_one) (control_json demo_one)"
    by (simp add: no_collision_def demo_snapshots)
qed

section \<open>A command and its repetition\<close>

lemma demo_post_room:
  "int (cs_revision demo_one + 1) \<le> MAX_SAFE_INTEGER" "fresh_id demo_one demo_note_id"
  "publishable demo_one demo_alice demo_post False"
  by code_simp+

lemma demo_post_request:
  "parentId (JStr demo_alice) = Inr demo_alice" "decodeCommand (command_json demo_post) = Inr demo_post"
  "execute_capture demo_sha None (initial_memory {}) s demo_post = Inr None"
  "starts_with (operation_key demo_post) WORKER_PEER_KEY_PREFIX = False"
  by (code_simp, code_simp, simp add: execute_capture_def demo_post_def, code_simp?) code_simp

lemma demo_executes:
  "execute demo_sha None (initial_memory {}) demo_one (initial_memory {}) demo_one (JStr demo_alice) (command_json demo_post) [] False
     demo_note_id = Inr (Publication demo_two demo_posted)"
  using demo_post_request demo_section_publishes
  by (simp add: execute_def demo_section_def andThen_def guard_fail_def initial_memory_def Let_def)

lemma demo_three_receipts: "prefix (cs_receipts demo_two) (cs_receipts demo_three)"
  by (simp add: demo_three_def demo_two_def)

lemma demo_repeat_facts:
  "\<not> recovery_key demo_three demo_alice (operation_key demo_post)" "\<not> event_key demo_three demo_alice (operation_key demo_post)"
  "receipt_for demo_three demo_alice (operation_key demo_post) = Some demo_posted"
  by (simp_all add: recovery_key_def event_key_def receipt_for_def demo_three_def demo_two_def demo_one_def demo_empty_def
      demo_posted_def demo_registered_def demo_receipt_def demo_post_def demo_register_def)

lemma demo_post_free:
  "command_case demo_post = None" "command_work demo_post = None" "\<not> release_blocked demo_sha demo_three demo_post"
  by (simp_all add: demo_post_def release_blocked_def command_case_def command_work_def)

lemma demo_repeats:
  "execute demo_sha None (initial_memory {}) demo_three (initial_memory {}) demo_three (JStr demo_alice) (command_json demo_post) [] False
     demo_case_id = Inr (Retained demo_posted)"
proof -
  have "rc_request_hash demo_posted = request_hash demo_sha demo_alice demo_post"
    by (simp add: demo_posted_def demo_receipt_def)
  with demo_repeat_facts demo_post_free demo_post_request show ?thesis
    by (simp add: execute_def executeCommand_def andThen_def guard_fail_def case_reserved_def source_reserved_def initial_memory_def Let_def)
qed

section \<open>A retirement\<close>

definition demo_select :: command where
  "demo_select = Select_inputs ''k8'' (demo_id (CHR ''7'')) 1 1 demo_oid [\<lparr>sel_work_id = demo_id (CHR ''5''), sel_commit_oid = demo_oid\<rparr>]"

definition demo_claimed :: case_rec where
  "demo_claimed = demo_case\<lparr>c_revision := 1, c_target_oid := None, c_inputs := [], c_observed_origin := Some Pending_origin\<rparr>"

definition demo_tasks :: control_state where
  "demo_tasks = demo_observed\<lparr>cs_revision := 3, cs_cases := [demo_claimed], cs_receipts := take 3 (cs_receipts demo_observed)\<rparr>"

lemma demo_select_facts:
  "decodeCommand (command_json demo_select) = Inr demo_select" "needs_preflight demo_select"
  "command_case demo_select = Some (demo_id (CHR ''7''), 1, 1)"
  "preflight_inputs demo_select demo_claimed = [\<lparr>sel_work_id = demo_id (CHR ''5''), sel_commit_oid = demo_oid\<rparr>]"
  by code_simp+

lemma demo_unused_keys:
  "\<not> recovery_key demo_tasks demo_alice (operation_key demo_select)"
  "\<not> event_key demo_tasks demo_alice (operation_key demo_select)" "receipt_for demo_tasks demo_alice (operation_key demo_select) = None"
  by (simp_all add: recovery_key_def event_key_def receipt_for_def demo_tasks_def demo_observed_def demo_empty_def demo_retained_def
      demo_select_def eval_nat_numeral)

lemma demo_open_case:
  "ownCase demo_tasks demo_alice (demo_id (CHR ''7'')) 1 1 = Inr demo_claimed" "idle demo_claimed = Inr ()"
  "c_members demo_claimed = [demo_alice]"
  "visibleWork demo_sha demo_tasks demo_alice (demo_id (CHR ''5'')) = Inr (demo_task demo_alice (CHR ''5''))"
  by code_simp+

lemma demo_prepares:
  "prepareSourceCommand demo_sha (initial_memory {}) demo_tasks (JStr demo_alice) (command_json demo_select)
     = Inr (Inspect (Some demo_claimed) [demo_task demo_alice (CHR ''5'')] [(demo_id (CHR ''5''), 0)])"
proof -
  let ?m = "initial_memory {}" and ?five = "demo_task demo_alice (CHR ''5'')"
  have "w_id ?five = demo_id (CHR ''5'')" "List.map_filter (\<lambda>w. map_option m_task_id (w_managed w)) [?five] = [demo_id (CHR ''5'')]"
    by code_simp+
  with demo_select_facts demo_open_case have "inspect_sources demo_sha ?m demo_tasks demo_alice demo_select demo_claimed
      = Inr (Inspect (Some demo_claimed) [?five] [(demo_id (CHR ''5''), 0)])"
    by (simp add: inspect_sources_def andThen_def guard_fail_def Let_def map_value_def initial_memory_def)
  with demo_select_facts demo_unused_keys demo_open_case demo_post_request(1) show ?thesis
    by (simp add: prepareSourceCommand_def andThen_def guard_fail_def)
qed

definition demo_retired :: service_memory where
  "demo_retired = (initial_memory {})\<lparr>sm_versions := [demo_id (CHR ''5'') \<mapsto> 1], sm_retirements := {demo_id (CHR ''5'')}\<rparr>"

lemma demo_enrolled: "retired_works demo_tasks (demo_id (CHR ''5'')) \<noteq> []"
  by code_simp

lemma demo_retires: "reserveRetirement (initial_memory {}) demo_tasks (JStr (demo_id (CHR ''5''))) = Inr (demo_retired, demo_id (CHR ''5''))"
proof -
  have "entityId (JStr (demo_id (CHR ''5''))) = Inr (demo_id (CHR ''5''))" by code_simp
  moreover have "\<forall>c \<in> set (cs_cases demo_tasks). c_inputs c = []" by (simp add: demo_tasks_def demo_claimed_def)
  ultimately show ?thesis
    using demo_enrolled
    by (simp add: reserveRetirement_def andThen_def guard_fail_def initial_memory_def demo_retired_def map_value_def)
qed

section \<open>The observed case\<close>

lemma demo_extended_ok: "control_ok demo_sha demo_extended"
proof -
  have "int (cs_revision demo_observed + 1) \<le> MAX_SAFE_INTEGER" by code_simp
  moreover have facts: "find_case demo_observed (demo_id (CHR ''7'')) = Some demo_case" "extension_room demo_case" by code_simp+
  moreover have "extension_room c"
    if "xi_case_id demo_extension = JStr ci" "find_case demo_observed ci = Some c" for ci c
    using that facts by (simp add: demo_extension_def)
  ultimately show ?thesis using extend_accepted [OF demo_observed_ok demo_sha_hex _ demo_extends] by blast
qed

lemma demo_delivery_facts:
  "int (cs_revision demo_extended + 1) \<le> MAX_SAFE_INTEGER" "delivery_key_new demo_extended demo_alice demo_delivery"
  "parent_ok (yi_digest demo_delivery)" "yi_case_id demo_delivery = JStr (demo_id (CHR ''7''))"
  "find_case demo_extended (demo_id (CHR ''7'')) = Some demo_extended_case" "delivery_room demo_extended_case"
proof -
  show "delivery_key_new demo_extended demo_alice demo_delivery"
    by (simp add: delivery_key_new_def demo_delivery_def recovery_key_def event_key_def demo_extended_def demo_observed_def demo_empty_def demo_limits_def)
qed code_simp+

lemma demo_case_free: "assertCaseTransition (initial_memory {}) demo_observed demo_case = Inr ()"
  by (simp add: assertCaseTransition_def guard_fail_def initial_memory_def task_changing_def split: option.split)

lemma demo_reserved_ok:
  "memory_ok (reserve_case (initial_memory {}) (c_id demo_case), [Reservation (c_id demo_case)])"
  by (simp add: memory_ok_def reserve_case_def initial_memory_def)

section \<open>Recoveries\<close>

definition demo_adoption :: recovery_command where
  "demo_adoption = \<lparr>rv_operation_key = ''r1'', rv_epoch = demo_id (CHR ''e''), rv_expected_owner = demo_bob,
     rv_expected_revision = 1, rv_statement = ''lost'', rv_action = Adopt_work (demo_id (CHR ''6'')) demo_alice\<rparr>"

lemma demo_adoption_hash: "recovery_hash demo_sha demo_bob demo_adoption = replicate 64 (CHR ''b'')"
  by code_simp

definition demo_adopted_receipt :: "nat \<Rightarrow> recovery_receipt" where
  "demo_adopted_receipt n = \<lparr>rr_operator = demo_bob, rr_request_hash = replicate 64 (CHR ''b''),
     rr_revision = n, rr_command = demo_adoption\<rparr>"

definition demo_recovered :: control_state where
  "demo_recovered = demo_observed\<lparr>cs_revision := 5, cs_recoveries := [demo_adopted_receipt 5],
     cs_works := [demo_task demo_alice (CHR ''5''), (demo_task demo_bob (CHR ''6''))\<lparr>w_owner := demo_alice, w_revision := 2\<rparr>]\<rparr>"

definition demo_adopted :: control_state where
  "demo_adopted = demo_extended\<lparr>cs_revision := 6, cs_recoveries := [demo_adopted_receipt 6],
     cs_works := [demo_task demo_alice (CHR ''5''), (demo_task demo_bob (CHR ''6''))\<lparr>w_owner := demo_alice, w_revision := 2\<rparr>]\<rparr>"

definition demo_adopted_work :: work where
  "demo_adopted_work = (demo_task demo_bob (CHR ''6''))\<lparr>w_owner := demo_alice, w_revision := 2\<rparr>"

lemma demo_adoption_facts:
  "recovery_work_id (rv_action demo_adoption) = Some (demo_id (CHR ''6''))"
  "recover_work demo_adoption (demo_task demo_bob (CHR ''6'')) = Inr demo_adopted_work"
  "demo_id (CHR ''5'') \<noteq> demo_id (CHR ''6'')" "w_id (demo_task p x) = demo_id x"
  by (code_simp, code_simp, code_simp, simp add: demo_task_def)

lemma demo_recovered_works:
  "recovery_upgrade demo_observed = demo_observed" "recovery_upgrade demo_extended = demo_extended"
  "find_work demo_observed (demo_id (CHR ''6'')) = Some (demo_task demo_bob (CHR ''6''))"
  "find_work demo_extended (demo_id (CHR ''6'')) = Some (demo_task demo_bob (CHR ''6''))"
  "change_work (demo_id (CHR ''6'')) (\<lambda>_. demo_adopted_work) demo_observed = demo_recovered\<lparr>cs_revision := 4, cs_recoveries := []\<rparr>"
  "change_work (demo_id (CHR ''6'')) (\<lambda>_. demo_adopted_work) demo_extended = demo_adopted\<lparr>cs_revision := 5, cs_recoveries := []\<rparr>"
  using demo_adoption_facts
  by (simp_all add: recovery_upgrade_def has_submissions_def find_work_def change_work_def demo_observed_def demo_extended_def
      demo_recovered_def demo_adopted_def demo_adopted_work_def demo_empty_def
      MANAGED_CONTROL_SCHEMA_def SUBMISSION_CONTROL_SCHEMA_def)

lemma demo_applies_adoption:
  "applyRecovery demo_sha (recovery_upgrade demo_observed) demo_adoption
     = Inr (demo_recovered\<lparr>cs_revision := 4, cs_recoveries := []\<rparr>)"
  "applyRecovery demo_sha (recovery_upgrade demo_extended) demo_adoption
     = Inr (demo_adopted\<lparr>cs_revision := 5, cs_recoveries := []\<rparr>)"
  using demo_adoption_facts demo_recovered_works by (simp_all add: applyRecovery_def andThen_def)

lemma demo_recovery_capacity: "checkCapacity demo_recovered = Inr ()"
proof (rule small_record)
  show "text_bound 0 (control_json demo_recovered) + 1 + releaseSlotsRequired demo_recovered * CONTROL_RELEASE_BYTES \<le> CONTROL_MAX_BYTES"
    "controlReceiptCount demo_recovered + releaseSlotsRequired demo_recovered \<le> lim_receipts (cs_limits demo_recovered)"
    by code_simp+
qed (simp_all add: demo_recovered_def demo_adopted_def demo_extended_def demo_observed_def demo_empty_def demo_limits_def)

lemma demo_adoption_capacity: "checkCapacity demo_adopted = Inr ()"
proof (rule small_record)
  show "text_bound 0 (control_json demo_adopted) + 1 + releaseSlotsRequired demo_adopted * CONTROL_RELEASE_BYTES \<le> CONTROL_MAX_BYTES"
    "controlReceiptCount demo_adopted + releaseSlotsRequired demo_adopted \<le> lim_receipts (cs_limits demo_adopted)"
    by code_simp+
qed (simp_all add: demo_recovered_def demo_adopted_def demo_extended_def demo_observed_def demo_empty_def demo_limits_def)

lemma demo_recovery_fields:
  "demo_recovered\<lparr>cs_revision := 5, cs_recoveries := [demo_adopted_receipt 5]\<rparr> = demo_recovered"
  "demo_adopted\<lparr>cs_revision := 6, cs_recoveries := [demo_adopted_receipt 6]\<rparr> = demo_adopted"
  by (simp_all add: demo_recovered_def demo_adopted_def)

lemma demo_records_adoption:
  "recovered_record demo_sha demo_observed demo_bob demo_adoption = Inr (Publication demo_recovered (demo_adopted_receipt 5))"
  using demo_applies_adoption(1) demo_adoption_hash demo_recovery_capacity demo_recovery_fields(1)
  by (simp add: recovered_record_def checked_publication_def andThen_def Let_def demo_adopted_receipt_def del: replicate.simps)

lemma demo_adopts:
  "recovered_record demo_sha demo_extended demo_bob demo_adoption = Inr (Publication demo_adopted (demo_adopted_receipt 6))"
  using demo_applies_adoption(2) demo_adoption_hash demo_adoption_capacity demo_recovery_fields(2)
  by (simp add: recovered_record_def checked_publication_def andThen_def Let_def demo_adopted_receipt_def del: replicate.simps)

lemma demo_disclosed: "\<not> adoption_undisclosed demo_extended (rv_action demo_adoption)"
  by code_simp

lemma demo_recovery_facts:
  "int (cs_revision demo_observed + 1) \<le> MAX_SAFE_INTEGER"
  "adoption_undisclosed demo_observed (rv_action (rr_command (demo_adopted_receipt 5)))"
  by code_simp+

lemma demo_recovers:
  "recoverAuthorized demo_sha (initial_memory {}) demo_observed (JStr demo_bob) (recovery_json demo_adoption)
     = Inr (Publication demo_recovered (demo_adopted_receipt 5))"
proof -
  have facts: "parentId (JStr demo_bob) = Inr demo_bob" "decodeRecoveryCommand (recovery_json demo_adoption) = Inr demo_adoption"
    "\<not> starts_with (rv_operation_key demo_adoption) WORKER_PEER_KEY_PREFIX"
    "find_recovery demo_observed demo_bob (rv_operation_key demo_adoption) = None"
    "receipt_for demo_observed demo_bob (rv_operation_key demo_adoption) = None"
    "\<not> event_key demo_observed demo_bob (rv_operation_key demo_adoption)" "rv_epoch demo_adoption = cs_epoch demo_observed"
    by code_simp+
  moreover note demo_records_adoption
  moreover have "\<not> recovery_reserved (initial_memory {}) demo_observed (rv_action demo_adoption)"
    by (simp add: recovery_reserved_def initial_memory_def split: option.split)
  ultimately show ?thesis by (simp add: recoverAuthorized_def andThen_def guard_fail_def initial_memory_def)
qed

section \<open>Submissions and disclosure\<close>

lemma demo_announced_ok: "control_ok demo_sha demo_announced" and demo_announced_subjects: "event_subjects_ok demo_announced"
proof -
  have "int (cs_revision demo_empty + 1) \<le> MAX_SAFE_INTEGER" "announcement_room demo_empty (Announce_request demo_announcement_raw)"
    by code_simp+
  then show "control_ok demo_sha demo_announced" "event_subjects_ok demo_announced"
    using operation_accepted [OF demo_empty_ok demo_empty_subjects demo_sha_hex _ _ demo_announces] by blast+
qed

definition demo_second :: work where
  "demo_second = new_work (demo_id (CHR ''9'')) demo_bob ''ws2'' demo_oid Sha1 ''intent'' [\<lparr>r_kind = RFile, r_path = ''a''\<rparr>] [] None"

definition demo_shared :: control_state where "demo_shared = demo_one\<lparr>cs_works := [demo_work, demo_second]\<rparr>"

lemma demo_overlaps:
  "overlaps demo_sha demo_shared (JStr demo_bob) (JStr (demo_id (CHR ''9''))) = Inr [(demo_work_id, [\<lparr>r_kind = RFile, r_path = ''a''\<rparr>])]"
  by code_simp

definition demo_granted_work :: work where
  "demo_granted_work = demo_work\<lparr>w_source_grants := Some [\<lparr>g_recipient = demo_bob, g_scope = Detail_scope, g_work_revision = 1\<rparr>]\<rparr>"

lemma demo_opens: "sourceWork (demo_one\<lparr>cs_works := [demo_granted_work]\<rparr>) (JStr demo_bob) (JStr demo_work_id) True = Inr demo_granted_work"
  by code_simp

end
