(* ===== verification/Peer_Encoding.thy ===== *)
theory Peer_Encoding
  imports Control_Text
begin

text \<open>
  The canonical text of a peer-resolution record: the JSON value of a decoded record, and
  \<open>encodePeerResolutionRecord\<close> (src/src/coordination/peer-resolution.ts). The interface
  \<open>codec\<close> states what every decoder of this program promises of the values it returned.
\<close>

section \<open>Codecs\<close>

locale codec =
  fixes decode :: "jval \<Rightarrow> 'a res" and json :: "'a \<Rightarrow> jval"
  assumes again: "decode v = Inr x \<Longrightarrow> decode (json x) = Inr x"
begin

lemma map_again: "map_res decode vs = Inr xs \<Longrightarrow> map_res decode (map json xs) = Inr xs"
  by (induction vs arbitrary: xs) (auto simp: res_simps again)

lemma settled: "decode v = Inr x \<Longrightarrow> decode w = Inr y \<Longrightarrow> json x = json y \<Longrightarrow> x = y"
  using again by (metis sum.inject(2))

end

named_theorems again_intros \<open>decoders accept the value of what they returned\<close>

section \<open>The JSON value of a record\<close>

definition source_json :: "peer_source \<Rightarrow> jval" where
  "source_json x = JObj [(''work_id'', JStr (ps_work_id x)), (''work_revision'', jnat (ps_work_revision x)),
     (''input_oid'', JStr (ps_input_oid x)), (''selected_commit_oid'', JStr (ps_selected_oid x))]"

definition base_members :: "peer_base \<Rightarrow> (string \<times> jval) list" where
  "base_members b = [(''schema_version'', jnat (pb_schema b)), (''case_id'', JStr (pb_case_id b)),
     (''case_revision'', jnat (pb_case_revision b)), (''case_generation'', jnat (pb_case_generation b)),
     (''evidence_id'', JStr (pb_evidence_id b)), (''evidence_revision'', jnat (pb_evidence_revision b))]"

definition proposal_json :: "peer_proposal \<Rightarrow> jval" where
  "proposal_json p = JObj (base_members (peer_base.truncate p)
     @ [(''kind'', JStr ''peer_resolution_proposal''), (''proposal_revision'', jnat (pp_revision p)),
        (''participants'', jstrs (pp_participants p)), (''sources'', jlist source_json (pb_sources p)),
        (''scope'', jlist region_json (pb_scope p)), (''action'', literal peer_actions (pp_action p)),
        (''resolution_digest'', JStr (pp_digest p)), (''predecessor_digest'', oid_json (pp_predecessor p)),
        (''permitted_actions'', jstrs PEER_RESOLUTION_ACTIONS)]
     @ (case pp_extra p of None \<Rightarrow> []
        | Some (summary, changes) \<Rightarrow> [(''summary'', JStr summary), (''changes'', jlist change_json changes)]))"

definition application_json :: "peer_application \<Rightarrow> jval" where
  "application_json a = JObj (base_members (peer_base.truncate a)
     @ [(''kind'', JStr ''peer_resolution_application''), (''sources'', jlist source_json (pb_sources a)),
        (''scope'', jlist region_json (pb_scope a)), (''proposal_digest'', JStr (pa_proposal_digest a)),
        (''application_digest'', JStr (pa_digest a)), (''status'', literal application_statuses (pa_status a))])"

definition verification_json :: "peer_verification \<Rightarrow> jval" where
  "verification_json a = JObj (base_members (peer_base.truncate a)
     @ [(''kind'', JStr ''peer_resolution_verification''), (''sources'', jlist source_json (pb_sources a)),
        (''scope'', jlist region_json (pb_scope a)), (''application_digest'', JStr (pv_application_digest a)),
        (''status'', literal verification_statuses (pv_status a))])"

fun peer_record_json :: "peer_record \<Rightarrow> jval" where
  "peer_record_json (Proposal p) = proposal_json p"
| "peer_record_json (Application a) = application_json a"
| "peer_record_json (Verification v) = verification_json v"

definition encodePeerResolutionRecord :: "(string \<Rightarrow> string) \<Rightarrow> peer_record \<Rightarrow> string res" where
  "encodePeerResolutionRecord sha r =
     andThen (decodeRecord sha (peer_record_json r)) (\<lambda>d.
     (let t = PEER_RESOLUTION_PREFIX @ stringify (peer_record_json d) in
      andThen (peer_check (length t \<le> PEER_RESOLUTION_MAX_BYTES)) (\<lambda>_. Inr t)))"

section \<open>Decoding the value of a decoded record\<close>

lemma peer_check_Inr [res_simps]: "(peer_check b = Inr u) = b"
  by (simp add: peer_check_def guard_fail_def)

lemma peer_text_Inr: "(peer_text v m = Inr s) = (v = JStr s \<and> text_ok m False s \<and> CHR 0x0A \<notin> set s \<and> CHR 0x0D \<notin> set s)"
  by (auto simp: peer_text_def split: jval.splits if_splits)

lemma peer_checked_Inr: "(peer_checked v m p = Inr s) = (peer_text v m = Inr s \<and> p s)"
  by (auto simp: peer_checked_def andThen_Inr_iff split: if_splits)

lemma scalar_JStr:
  "peer_text v m = Inr s \<Longrightarrow> v = JStr s" "peer_checked v m p = Inr s \<Longrightarrow> v = JStr s"
  "peer_digest v = Inr s \<Longrightarrow> v = JStr s" "peer_uuid v = Inr s \<Longrightarrow> v = JStr s" "peer_parent v = Inr s \<Longrightarrow> v = JStr s"
  "peer_oid v = Inr s \<Longrightarrow> v = JStr s" "peer_path v = Inr s \<Longrightarrow> v = JStr s" "effectPath v = Inr s \<Longrightarrow> v = JStr s"
  by (auto simp: peer_checked_Inr peer_text_Inr peer_digest_def peer_uuid_def peer_parent_def peer_oid_def peer_path_def
      effectPath_def andThen_Inr_iff split: if_splits)

lemma scalar_again [again_intros]:
  "peer_text v m = Inr s \<Longrightarrow> peer_text (JStr s) m = Inr s"
  "peer_digest v = Inr s \<Longrightarrow> peer_digest (JStr s) = Inr s" "peer_uuid v = Inr s \<Longrightarrow> peer_uuid (JStr s) = Inr s"
  "peer_parent v = Inr s \<Longrightarrow> peer_parent (JStr s) = Inr s" "peer_oid v = Inr s \<Longrightarrow> peer_oid (JStr s) = Inr s"
  "peer_path v = Inr s \<Longrightarrow> peer_path (JStr s) = Inr s" "effectPath v = Inr s \<Longrightarrow> effectPath (JStr s) = Inr s"
  using scalar_JStr by metis+

lemma peer_integer_again [again_intros]: "peer_integer v lo hi = Inr n \<Longrightarrow> peer_integer (jnat n) lo hi = Inr n"
  by (auto simp: peer_integer_def jnat_def split: jval.splits if_splits)

lemma peer_counter_again [again_intros]: "peer_counter v = Inr n \<Longrightarrow> peer_counter (jnat n) = Inr n"
  unfolding peer_counter_def by (rule peer_integer_again)

lemma map_sum_Inr: "(map_sum id f r = Inr y) = (\<exists>x. r = Inr x \<and> y = f x)"
  by (cases r) auto

lemma peer_nullable_again [again_intros]:
  "peer_nullable_digest v = Inr d \<Longrightarrow> peer_nullable_digest (oid_json d) = Inr d"
  by (auto simp: peer_nullable_digest_def oid_json_def map_sum_Inr split: if_splits dest: scalar_again(2))

lemma peer_after_again [again_intros]: "peer_after v = Inr d \<Longrightarrow> peer_after (oid_json d) = Inr d"
  by (auto simp: peer_after_def oid_json_def split: jval.splits if_splits)

lemma peer_after_null: "peer_after v = Inr d \<Longrightarrow> (v = JNull) = (d = None)" and oid_json_null: "(oid_json d = JNull) = (d = None)"
  by (auto simp: peer_after_def oid_json_def split: jval.splits if_splits option.splits)

lemma map_of_literal:
  assumes "map_of table s = Some x" and "distinct (map snd table)" and "distinct (map fst table)"
  shows "literal table x = JStr s"
proof -
  from assms(1) have in_table: "(s, x) \<in> set table" by (rule map_of_SomeD)
  then obtain e where e: "List.find (\<lambda>e. snd e = x) table = Some e"
    using find_not_None [of "(s, x)" table "\<lambda>e. snd e = x"] by auto
  then have "e \<in> set table" "snd e = x" using find_SomeD [OF e] by auto
  then have "e = (s, x)" using in_table assms(2) by (metis distinct_map inj_onD snd_conv)
  with e show ?thesis by (simp add: literal_def)
qed

lemma peer_choice_again:
  assumes "peer_choice v table = Inr x" and "distinct (map snd table)" and "distinct (map fst table)"
  shows "peer_choice (literal table x) table = Inr x"
proof -
  from assms(1) obtain t where "map_of table t = Some x" by (auto simp: peer_choice_def split: jval.splits option.splits)
  then show ?thesis using map_of_literal [OF _ assms(2,3)] by (simp add: peer_choice_def)
qed

lemma choices_again [again_intros]:
  "peer_choice v region_kinds = Inr k \<Longrightarrow> peer_choice (literal region_kinds k) region_kinds = Inr k"
  "peer_choice v peer_actions = Inr a \<Longrightarrow> peer_choice (literal peer_actions a) peer_actions = Inr a"
  "peer_choice v application_statuses = Inr t \<Longrightarrow> peer_choice (literal application_statuses t) application_statuses = Inr t"
  "peer_choice v verification_statuses = Inr u \<Longrightarrow> peer_choice (literal verification_statuses u) verification_statuses = Inr u"
  by (erule peer_choice_again; simp add: region_kinds_def peer_actions_def application_statuses_def verification_statuses_def)+

lemma peer_exact_simp [simp]:
  "(peer_exact kvs names = Inr u) = (length kvs = length names \<and> (\<forall>k \<in> set names. has_own kvs k))"
  by (simp add: peer_exact_def res_simps)

lemma exact_Inr:
  "length kvs = length names \<Longrightarrow> \<forall>k \<in> set names. has_own kvs k \<Longrightarrow> peer_exact kvs names = Inr ()"
  by (simp add: peer_exact_def peer_check_def)

lemma items_again [again_intros]:
  "peer_region v = Inr r \<Longrightarrow> peer_region (region_json r) = Inr r"
  "peer_source_of v = Inr x \<Longrightarrow> peer_source_of (source_json x) = Inr x"
  "peer_change_of v = Inr c \<Longrightarrow> peer_change_of (change_json c) = Inr c"
proof -
  show "peer_region v = Inr r \<Longrightarrow> peer_region (region_json r) = Inr r"
    unfolding peer_region_def region_json_def andThen_Inr_iff by (auto simp: peer_object_def exact_Inr intro: again_intros)
  show "peer_source_of v = Inr x \<Longrightarrow> peer_source_of (source_json x) = Inr x"
    unfolding peer_source_of_def source_json_def andThen_Inr_iff by (auto simp: peer_object_def exact_Inr intro: again_intros)
  show "peer_change_of v = Inr c \<Longrightarrow> peer_change_of (change_json c) = Inr c"
    unfolding peer_change_of_def change_json_def andThen_Inr_iff
    by (auto simp: peer_object_def exact_Inr peer_check_Inr peer_after_null oid_json_null intro: again_intros)
qed

interpretation region_codec: codec peer_region region_json by unfold_locales (rule items_again)
interpretation source_codec: codec peer_source_of source_json by unfold_locales (rule items_again)
interpretation change_codec: codec peer_change_of change_json by unfold_locales (rule items_again)
interpretation parent_codec: codec peer_parent JStr by unfold_locales (rule scalar_again)

lemma peer_list_again:
  assumes "codec decode json" and "peer_list v lo hi decode key = Inr xs"
  shows "peer_list (jlist json xs) lo hi decode key = Inr xs"
proof -
  from assms(2) obtain vs where vs: "map_res decode vs = Inr xs" "\<not> length vs < lo" "\<not> hi < length vs" "unique_by key xs"
    by (auto simp: peer_list_def andThen_Inr_iff split: jval.splits if_splits)
  then show ?thesis
    using codec.map_again [OF assms(1) vs(1)] map_res_Inr_length [OF vs(1)] by (simp add: peer_list_def jlist_def)
qed

lemma lists_again [again_intros]:
  "peer_regions v = Inr rs \<Longrightarrow> peer_regions (jlist region_json rs) = Inr rs"
  "peer_sources v = Inr ss \<Longrightarrow> peer_sources (jlist source_json ss) = Inr ss"
  "peer_participants v = Inr ps \<Longrightarrow> peer_participants (jstrs ps) = Inr ps"
  unfolding peer_regions_def peer_sources_def peer_participants_def jstrs_def jlist_def [symmetric]
  by (erule peer_list_again [rotated], unfold_locales)+

lemma base_again:
  assumes "baseFields v = Inr b"
    and "prop_of kvs ''schema_version'' = jnat (pb_schema b)" "prop_of kvs ''case_id'' = JStr (pb_case_id b)"
    and "prop_of kvs ''case_revision'' = jnat (pb_case_revision b)" "prop_of kvs ''case_generation'' = jnat (pb_case_generation b)"
    and "prop_of kvs ''evidence_id'' = JStr (pb_evidence_id b)" "prop_of kvs ''evidence_revision'' = jnat (pb_evidence_revision b)"
    and "prop_of kvs ''sources'' = jlist source_json (pb_sources b)" "prop_of kvs ''scope'' = jlist region_json (pb_scope b)"
  shows "baseFields kvs = Inr b"
  using assms
  by (auto simp: baseFields_def andThen_Inr_iff jnat_def split: if_splits intro!: again_intros again_intros [unfolded jnat_def])

lemma base_schema: "baseFields v = Inr b \<Longrightarrow> prop_of v ''schema_version'' = jnat (pb_schema b) \<and> pb_schema b \<in> {1, 2}"
  by (auto simp: baseFields_def andThen_Inr_iff jnat_def split: if_splits)

lemma extra_again:
  assumes "peer_extra sha v = Inr (summary, changes)" and "peer_regions (prop_of v ''scope'') = Inr scope"
    and "prop_of kvs ''summary'' = JStr summary" "prop_of kvs ''changes'' = jlist change_json changes"
    and "prop_of kvs ''scope'' = jlist region_json scope" "prop_of kvs ''resolution_digest'' = prop_of v ''resolution_digest''"
  shows "peer_extra sha kvs = Inr (summary, changes)"
proof -
  from assms(1,2) have parts: "peer_text (prop_of v ''summary'') 1024 = Inr summary"
    "peer_list (prop_of v ''changes'') 1 32 peer_change_of pc_path = Inr changes" "sorted_changes changes"
    "\<forall>r \<in> set scope. map_sum id (\<lambda>_. ()) (effectPath (JStr (r_path r))) = Inr ()"
    "\<forall>c \<in> set changes. in_scope scope (pc_path c)"
    "prop_of v ''resolution_digest'' = JStr (peerResolutionDigest sha summary changes)"
    by (auto simp: peer_extra_def andThen_Inr_iff peer_check_Inr each_res_Inr)
  have "peer_text (JStr summary) 1024 = Inr summary" by (rule again_intros(1) [OF parts(1)])
  moreover have "peer_list (jlist change_json changes) 1 32 peer_change_of pc_path = Inr changes"
    by (rule peer_list_again [OF change_codec.codec_axioms parts(2)])
  moreover have "peer_regions (jlist region_json scope) = Inr scope" by (rule lists_again(1) [OF assms(2)])
  moreover have "each_res (\<lambda>r. map_sum id (\<lambda>_. ()) (effectPath (JStr (r_path r)))) scope = Inr ()"
    using parts(4) by (simp add: each_res_Inr)
  ultimately show ?thesis using parts assms(3-6) by (simp add: peer_extra_def peer_check_def)
qed

lemma truncate_extend [simp]: "peer_base.truncate (peer_base.extend b x) = b"
  by (simp add: peer_base.defs)

lemma extend_fields [simp]:
  "pb_sources (peer_base.extend b x) = pb_sources b" "pb_scope (peer_base.extend b x) = pb_scope b"
  by (simp_all add: peer_base.defs)

lemma base_lists: "baseFields v = Inr b \<Longrightarrow>
    peer_sources (prop_of v ''sources'') = Inr (pb_sources b) \<and> peer_regions (prop_of v ''scope'') = Inr (pb_scope b)"
  by (auto simp: baseFields_def andThen_Inr_iff split: if_splits)

lemma proposal_again:
  assumes "proposal_of sha v = Inr p"
  shows "proposal_of sha (case proposal_json p of JObj kvs \<Rightarrow> kvs) = Inr p"
proof -
  define v2 where "v2 = (prop_of v ''schema_version'' = JNum 2)"
  from assms obtain b a pre extra r ps d where
    parts: "baseFields v = Inr b" "peer_choice (prop_of v ''action'') peer_actions = Inr a"
      "peer_nullable_digest (prop_of v ''predecessor_digest'') = Inr pre" "(a = Counter_propose) = (pre \<noteq> None)"
      "(if v2 then map_sum id Some (peer_extra sha v) else Inr None) = Inr extra"
      "peer_integer (prop_of v ''proposal_revision'') 1 4096 = Inr r" "peer_participants (prop_of v ''participants'') = Inr ps"
      "peer_digest (prop_of v ''resolution_digest'') = Inr d"
    and p: "p = peer_base.extend b \<lparr>pp_revision = r, pp_participants = ps, pp_action = a, pp_digest = d,
       pp_predecessor = pre, pp_extra = extra\<rparr>"
    unfolding proposal_of_def Let_def andThen_Inr_iff peer_check_Inr v2_def by blast
  obtain kvs where kvs: "proposal_json p = JObj kvs" by (simp add: proposal_json_def)
  have schema: "prop_of kvs ''schema_version'' = jnat (pb_schema b)" "v2 = (pb_schema b = 2)"
    using kvs base_schema [OF parts(1)] by (auto simp: proposal_json_def base_members_def p v2_def jnat_def)
  have fresh: "prop_of kvs ''case_id'' = JStr (pb_case_id b)"
    "prop_of kvs ''case_revision'' = jnat (pb_case_revision b)" "prop_of kvs ''case_generation'' = jnat (pb_case_generation b)"
    "prop_of kvs ''evidence_id'' = JStr (pb_evidence_id b)" "prop_of kvs ''evidence_revision'' = jnat (pb_evidence_revision b)"
    "prop_of kvs ''sources'' = jlist source_json (pb_sources b)" "prop_of kvs ''scope'' = jlist region_json (pb_scope b)"
    "prop_of kvs ''action'' = literal peer_actions a" "prop_of kvs ''predecessor_digest'' = oid_json pre"
    "prop_of kvs ''proposal_revision'' = jnat r" "prop_of kvs ''participants'' = jstrs ps" "prop_of kvs ''resolution_digest'' = JStr d"
    "prop_of kvs ''permitted_actions'' = jstrs PEER_RESOLUTION_ACTIONS"
    using kvs by (auto simp: proposal_json_def base_members_def p peer_base.defs)
  have extra: "(if pb_schema b = 2 then map_sum id Some (peer_extra sha kvs) else Inr None) = Inr extra
    \<and> peer_exact kvs (proposal_fields @ (if pb_schema b = 2 then [''summary'', ''changes''] else [])) = Inr ()"
  proof (cases extra)
    case None
    then have "\<not> v2" using parts(5) by (auto simp: map_sum_Inr)
    then show ?thesis using None schema kvs
      by (auto simp: proposal_json_def base_members_def p peer_base.defs proposal_fields_def intro!: exact_Inr)
  next
    case (Some e)
    obtain summary changes where e: "e = (summary, changes)" by (cases e)
    have v2: "v2" "peer_extra sha v = Inr (summary, changes)" using parts(5) Some e by (auto simp: map_sum_Inr split: if_splits)
    have "peer_extra sha kvs = Inr (summary, changes)"
    proof (rule extra_again [OF v2(2)])
      show "peer_regions (prop_of v ''scope'') = Inr (pb_scope b)" using base_lists [OF parts(1)] by simp
    qed (use fresh kvs Some e scalar_JStr(3) [OF parts(8)] in \<open>auto simp: proposal_json_def base_members_def p peer_base.defs\<close>)
    then show ?thesis using Some e v2(1) schema kvs
      by (auto simp: proposal_json_def base_members_def p peer_base.defs proposal_fields_def intro!: exact_Inr)
  qed
  have "baseFields kvs = Inr b" by (rule base_again [OF parts(1) schema(1) fresh(1-7)])
  moreover have "peer_choice (literal peer_actions a) peer_actions = Inr a" by (rule choices_again(2) [OF parts(2)])
  moreover have "peer_nullable_digest (oid_json pre) = Inr pre" by (rule peer_nullable_again [OF parts(3)])
  moreover have "peer_integer (jnat r) 1 4096 = Inr r" by (rule peer_integer_again [OF parts(6)])
  moreover have "peer_participants (jstrs ps) = Inr ps" by (rule lists_again(3) [OF parts(7)])
  moreover have "peer_digest (JStr d) = Inr d" by (rule scalar_again(2) [OF parts(8)])
  moreover have "prop_of kvs ''schema_version'' = JNum 2 \<longleftrightarrow> pb_schema b = 2" using schema(1) by (simp add: jnat_def)
  moreover have "peer_permitted (jstrs PEER_RESOLUTION_ACTIONS) = Inr ()"
    by (simp add: peer_permitted_def peer_check_def jstrs_def)
  moreover have "peer_check ((a = Counter_propose) = (pre \<noteq> None)) = Inr ()" by (simp only: parts(4) peer_check_def) simp
  ultimately have "proposal_of sha kvs = Inr p"
    using extra fresh p by (simp add: proposal_of_def Let_def del: peer_exact_simp not_None_eq)
  with kvs show ?thesis by simp
qed

lemma application_again:
  assumes "application_of v = Inr a"
  shows "application_of (case application_json a of JObj kvs \<Rightarrow> kvs) = Inr a"
proof -
  from assms obtain b st p d where
    parts: "baseFields v = Inr b" "peer_choice (prop_of v ''status'') application_statuses = Inr st" "pb_schema b = 1"
      "peer_digest (prop_of v ''proposal_digest'') = Inr p" "peer_digest (prop_of v ''application_digest'') = Inr d"
    and a: "a = peer_base.extend b \<lparr>pa_proposal_digest = p, pa_digest = d, pa_status = st\<rparr>"
    unfolding application_of_def andThen_Inr_iff peer_check_Inr by blast
  obtain kvs where kvs: "application_json a = JObj kvs" by (simp add: application_json_def)
  have "baseFields kvs = Inr b"
    by (rule base_again [OF parts(1)]) (use kvs in \<open>auto simp: application_json_def base_members_def a peer_base.defs\<close>)
  moreover have "peer_exact kvs application_fields = Inr ()"
    by (rule exact_Inr) (use kvs in \<open>auto simp: application_json_def base_members_def application_fields_def\<close>)
  moreover have "peer_choice (prop_of kvs ''status'') application_statuses = Inr st"
    "peer_digest (prop_of kvs ''proposal_digest'') = Inr p" "peer_digest (prop_of kvs ''application_digest'') = Inr d"
    using kvs parts by (auto simp: application_json_def base_members_def a peer_base.defs intro: again_intros)
  ultimately have "application_of kvs = Inr a"
    using parts(3) a by (simp add: application_of_def peer_check_def del: peer_exact_simp)
  with kvs show ?thesis by simp
qed

lemma verification_again:
  assumes "verification_of v = Inr a"
  shows "verification_of (case verification_json a of JObj kvs \<Rightarrow> kvs) = Inr a"
proof -
  from assms obtain b st d where
    parts: "baseFields v = Inr b" "peer_choice (prop_of v ''status'') verification_statuses = Inr st" "pb_schema b = 1"
      "peer_digest (prop_of v ''application_digest'') = Inr d"
    and a: "a = peer_base.extend b \<lparr>pv_application_digest = d, pv_status = st\<rparr>"
    unfolding verification_of_def andThen_Inr_iff peer_check_Inr by blast
  obtain kvs where kvs: "verification_json a = JObj kvs" by (simp add: verification_json_def)
  have "baseFields kvs = Inr b"
    by (rule base_again [OF parts(1)]) (use kvs in \<open>auto simp: verification_json_def base_members_def a peer_base.defs\<close>)
  moreover have "peer_exact kvs verification_fields = Inr ()"
    by (rule exact_Inr) (use kvs in \<open>auto simp: verification_json_def base_members_def verification_fields_def\<close>)
  moreover have "peer_choice (prop_of kvs ''status'') verification_statuses = Inr st"
    "peer_digest (prop_of kvs ''application_digest'') = Inr d"
    using kvs parts by (auto simp: verification_json_def base_members_def a peer_base.defs intro: again_intros)
  ultimately have "verification_of kvs = Inr a"
    using parts(3) a by (simp add: verification_of_def peer_check_def del: peer_exact_simp)
  with kvs show ?thesis by simp
qed

lemma record_kind:
  "prop_of (case proposal_json p of JObj kvs \<Rightarrow> kvs) ''kind'' = JStr ''peer_resolution_proposal''"
  "prop_of (case application_json a of JObj kvs \<Rightarrow> kvs) ''kind'' = JStr ''peer_resolution_application''"
  "prop_of (case verification_json u of JObj kvs \<Rightarrow> kvs) ''kind'' = JStr ''peer_resolution_verification''"
  by (simp_all add: proposal_json_def application_json_def verification_json_def base_members_def)

lemma record_object:
  "peer_object (proposal_json p) = Inr (case proposal_json p of JObj kvs \<Rightarrow> kvs)"
  "peer_object (application_json a) = Inr (case application_json a of JObj kvs \<Rightarrow> kvs)"
  "peer_object (verification_json u) = Inr (case verification_json u of JObj kvs \<Rightarrow> kvs)"
  by (simp_all add: proposal_json_def application_json_def verification_json_def peer_object_def)

lemma record_again: "decodeRecord sha v = Inr r \<Longrightarrow> decodeRecord sha (peer_record_json r) = Inr r"
  by (auto simp: decodeRecord_def andThen_Inr_iff map_sum_Inr record_object record_kind
      proposal_again application_again verification_again split: if_splits)

interpretation record_codec: codec "decodeRecord sha" peer_record_json by unfold_locales (rule record_again)

section \<open>The text of a record\<close>

lemma plain_peer_tables [simp]:
  "plain (literal peer_actions a)" "plain (literal application_statuses b)" "plain (literal verification_statuses c)"
  subgoal by (cases a) (simp_all add: literal_def peer_actions_def)
  subgoal by (cases b) (simp_all add: literal_def application_statuses_def)
  subgoal by (cases c) (simp_all add: literal_def verification_statuses_def)
  done

lemma plain_peer_items [plain_intros]: "plain (source_json x)" "plain (change_json c)" "plain (region_json r)"
  by (simp_all add: source_json_def change_json_def region_json_def oid_json_def split: option.split)

lemma plain_peer_record: "plain (peer_record_json r)"
  by (cases r) (auto simp: proposal_json_def application_json_def verification_json_def base_members_def oid_json_def
      intro!: plain_intros split: option.split)

lemma encoded_reads_back:
  assumes "encodePeerResolutionRecord sha r = Inr t"
  shows "\<exists>d. decodeRecord sha (peer_record_json r) = Inr d \<and> decodePeerResolutionText sha t = Inr (Some d)"
proof -
  from assms obtain d where d: "decodeRecord sha (peer_record_json r) = Inr d"
    "t = PEER_RESOLUTION_PREFIX @ stringify (peer_record_json d)" "length t \<le> PEER_RESOLUTION_MAX_BYTES"
    by (auto simp: encodePeerResolutionRecord_def andThen_Inr_iff peer_check_Inr Let_def)
  have "json_parse (stringify (peer_record_json d)) = Some (peer_record_json d)"
    by (rule json_parse_stringify [OF plain_peer_record])
  then have "decodePeerResolutionText sha t = Inr (Some d)"
    using d record_again [OF d(1)] by (simp add: decodePeerResolutionText_def starts_with_def)
  with d(1) show ?thesis by blast
qed

lemma decoded_is_encoded:
  assumes "decodeRecord sha v = Inr r" and "length (PEER_RESOLUTION_PREFIX @ stringify (peer_record_json r)) \<le> PEER_RESOLUTION_MAX_BYTES"
  shows "\<exists>t. encodePeerResolutionRecord sha r = Inr t \<and> decodePeerResolutionText sha t = Inr (Some r)"
proof -
  have again: "decodeRecord sha (peer_record_json r) = Inr r" by (rule record_again [OF assms(1)])
  then obtain t where "encodePeerResolutionRecord sha r = Inr t"
    using assms(2) by (simp add: encodePeerResolutionRecord_def Let_def peer_check_def)
  with encoded_reads_back [OF this] again show ?thesis by auto
qed

end
