(* ===== verification/Peer_Operations.thy ===== *)
theory Peer_Operations
  imports Peer_Encoding Service_Memory
begin

text \<open>
  The operations a worker may ask of its peers and their results
  (src/src/contracts/peer-operations.ts): the decoders of both, with the bounds they put on
  what crosses that boundary. Absolute paths are those of a POSIX host.
\<close>

section \<open>Values\<close>

datatype detail_side = Input_side | Observed_side
datatype note_step = Acknowledge_step | Withdraw_step

record worker_request =
  wr_task_id :: string
  wr_run_id :: string
  wr_generation :: nat
  wr_workspace_id :: string
  wr_source_view :: string
  wr_case_id :: string

datatype worker_operation =
    Op_inspect
  | Op_source_detail string string detail_side nat nat
  | Op_apply string nat nat string
  | Op_propose peer_action peer_proposal
  | Op_note note_step string
  | Op_await nat nat "string option"

record first_proposal =
  fp_case_id :: string
  fp_case_revision :: nat
  fp_case_generation :: nat
  fp_evidence_id :: string
  fp_evidence_revision :: nat
  fp_participants :: "string list"
  fp_sources :: "peer_source list"

record work_context =
  wc_task_id :: string
  wc_work_id :: string
  wc_excerpt :: string
  wc_truncated :: bool
  wc_areas :: "region list"
  wc_omitted :: nat

datatype effect_status = Eff_applied | Eff_rejected | Eff_unknown

record outcome_record =
  oc_proposal_note :: string
  oc_application_note :: string
  oc_status :: effect_status
  oc_proposal_digest :: string
  oc_application_digest :: string

datatype looking = Look_inspect | Look_await

record current_view =
  cv_operation :: looking
  cv_case_revision :: nat
  cv_case_generation :: nat
  cv_status :: evidence_status
  cv_evidence_id :: "string option"
  cv_evidence_revision :: "nat option"
  cv_cursor :: string
  cv_participants :: "string list"
  cv_acknowledged :: "string list"
  cv_first :: "first_proposal option"
  cv_outcome :: "outcome_record option"
  cv_contexts :: "work_context list"
  cv_omitted :: nat
  cv_note_id :: "string option"
  cv_proposal :: "peer_proposal option"

datatype receipt_step = Propose_receipt peer_action | Note_receipt note_step

datatype operation_result =
    Res_current current_view
  | Res_detail string string detail_side nat nat string string
  | Res_application string effect_status "string option" "string list"
  | Res_receipt receipt_step nat string
  | Res_pending nat nat "string option"

type_synonym peer_operation = "worker_request \<times> string \<times> worker_operation"
type_synonym peer_result = "worker_request \<times> string \<times> operation_result"

section \<open>Fields\<close>

definition OP_INVALID :: string where "OP_INVALID = ''PEER_OPERATION_INVALID''"
definition OP_UNSUPPORTED :: string where "OP_UNSUPPORTED = ''PEER_OPERATION_UNSUPPORTED''"

abbreviation op_invalid :: "'a res" where "op_invalid \<equiv> fail OP_INVALID"

definition op_check :: "bool \<Rightarrow> unit res" where "op_check b = guard_fail (\<not> b) OP_INVALID"

definition op_object :: "jval \<Rightarrow> (string \<times> jval) list res" where
  "op_object v = (case v of JObj kvs \<Rightarrow> Inr kvs | _ \<Rightarrow> op_invalid)"

definition op_exact :: "(string \<times> jval) list \<Rightarrow> string list \<Rightarrow> unit res" where
  "op_exact kvs names = op_check (length kvs = length names \<and> (\<forall>k \<in> set names. has_own kvs k))"

definition op_text_ok :: "nat \<Rightarrow> string \<Rightarrow> bool" where
  "op_text_ok maximum s = (s \<noteq> [] \<and> length s \<le> maximum \<and> (\<forall>c \<in> set s. 32 \<le> (of_char c :: nat) \<and> (of_char c :: nat) \<noteq> 127))"

definition op_text :: "jval \<Rightarrow> nat \<Rightarrow> string res" where
  "op_text v maximum = (case v of JStr s \<Rightarrow> if op_text_ok maximum s then Inr s else op_invalid | _ \<Rightarrow> op_invalid)"

definition op_checked :: "jval \<Rightarrow> nat \<Rightarrow> (string \<Rightarrow> bool) \<Rightarrow> string res" where
  "op_checked v maximum p = andThen (op_text v maximum) (\<lambda>s. if p s then Inr s else op_invalid)"

definition op_uuid :: "jval \<Rightarrow> string res" where "op_uuid v = op_checked v 36 is_uuid"
definition op_digest :: "jval \<Rightarrow> string res" where "op_digest v = op_checked v 64 (hex_of 64)"

definition op_path_ok :: "string \<Rightarrow> bool" where
  "op_path_ok s = (\<not> starts_with s ''/'' \<and> CHR 0x5C \<notin> set s
     \<and> (\<forall>x \<in> set (split_on CHR ''/'' s). x \<noteq> [] \<and> x \<noteq> ''.'' \<and> x \<noteq> ''..'' \<and> map lower_ascii x \<noteq> ''.git''))"

definition op_path :: "jval \<Rightarrow> string res" where "op_path v = op_checked v 4096 op_path_ok"

definition op_number :: "jval \<Rightarrow> nat \<Rightarrow> int \<Rightarrow> nat res" where
  "op_number v minimum maximum =
     (case v of
        JNum i \<Rightarrow> if abs i > MAX_SAFE_INTEGER \<or> i < int minimum \<or> i > maximum then op_invalid else Inr (nat i)
      | _ \<Rightarrow> op_invalid)"

definition positive :: "jval \<Rightarrow> nat res" where "positive v = op_number v 1 MAX_SAFE_INTEGER"
definition byteOffset :: "jval \<Rightarrow> nat res" where "byteOffset v = op_number v 0 MAX_SAFE_INTEGER"
definition nonnegative :: "jval \<Rightarrow> nat \<Rightarrow> nat res" where "nonnegative v maximum = op_number v 0 (int maximum)"

definition op_choice :: "jval \<Rightarrow> (string \<times> 'a) list \<Rightarrow> 'a res" where
  "op_choice v options =
     (case v of JStr s \<Rightarrow> (case map_of options s of Some x \<Rightarrow> Inr x | None \<Rightarrow> op_invalid) | _ \<Rightarrow> op_invalid)"

definition op_nullable :: "(jval \<Rightarrow> 'a res) \<Rightarrow> jval \<Rightarrow> 'a option res" where
  "op_nullable decode v = (if v = JNull then Inr None else map_sum id Some (decode v))"

definition detail_sides :: "(string \<times> detail_side) list" where
  "detail_sides = [(''input'', Input_side), (''observed'', Observed_side)]"
definition effect_statuses :: "(string \<times> effect_status) list" where
  "effect_statuses = [(''applied'', Eff_applied), (''rejected'', Eff_rejected), (''effect_unknown'', Eff_unknown)]"
definition lookings :: "(string \<times> looking) list" where
  "lookings = [(''inspect'', Look_inspect), (''await_change'', Look_await)]"
definition evidence_statuses :: "(string \<times> evidence_status) list" where
  "evidence_statuses = [(''current'', Ev_current), (''historical'', Ev_historical), (''unavailable'', Ev_unavailable)]"
definition receipt_steps :: "(string \<times> receipt_step) list" where
  "receipt_steps = [(''propose'', Propose_receipt Propose), (''counter_propose'', Propose_receipt Counter_propose),
     (''acknowledge'', Note_receipt Acknowledge_step), (''withdraw'', Note_receipt Withdraw_step)]"

section \<open>The identity of the worker\<close>

definition identityFields :: "string list" where
  "identityFields = [''task_id'', ''run_id'', ''control_generation'', ''workspace_id'', ''source_view'', ''case_id'']"

definition operationFields :: "string list" where
  "operationFields = [''schema_version''] @ identityFields @ [''operation_key'', ''kind'']"

definition worker_identity :: "(string \<times> jval) list \<Rightarrow> worker_request res" where
  "worker_identity v =
     andThen (op_checked (prop_of v ''source_view'') 4096 (\<lambda>s. starts_with s ''/'')) (\<lambda>sv.
     andThen (op_uuid (prop_of v ''task_id'')) (\<lambda>t. andThen (op_uuid (prop_of v ''run_id'')) (\<lambda>r.
     andThen (positive (prop_of v ''control_generation'')) (\<lambda>g. andThen (op_text (prop_of v ''workspace_id'') 4096) (\<lambda>w.
     andThen (op_uuid (prop_of v ''case_id'')) (\<lambda>c.
     Inr \<lparr>wr_task_id = t, wr_run_id = r, wr_generation = g, wr_workspace_id = w, wr_source_view = sv, wr_case_id = c\<rparr>))))))"

definition decodePeerWorkerIdentity :: "jval \<Rightarrow> worker_request res" where
  "decodePeerWorkerIdentity value =
     andThen (op_object value) (\<lambda>v. andThen (op_exact v identityFields) (\<lambda>_. worker_identity v))"

definition op_base :: "(string \<times> jval) list \<Rightarrow> (worker_request \<times> string) res" where
  "op_base v =
     andThen (op_check (prop_of v ''schema_version'' = JNum 1)) (\<lambda>_.
     andThen (worker_identity v) (\<lambda>w. andThen (op_text (prop_of v ''operation_key'') 256) (\<lambda>k. Inr (w, k))))"

section \<open>Proposals inside an operation\<close>

text \<open>
  \<open>jsonData\<close>: the copy of a value and the number of values visited so far. A value here is a
  tree, so the cycle check never fires; a number that prints as \<open>null\<close> is not finite.
\<close>

fun jsonData :: "nat \<Rightarrow> nat \<Rightarrow> jval \<Rightarrow> (jval \<times> nat) res"
  and json_elements :: "nat \<Rightarrow> nat \<Rightarrow> jval list \<Rightarrow> (jval list \<times> nat) res"
  and json_members :: "nat \<Rightarrow> nat \<Rightarrow> (string \<times> jval) list \<Rightarrow> ((string \<times> jval) list \<times> nat) res" where
  "jsonData depth n (JArr vs) =
     andThen (op_check (n < 2048 \<and> depth \<le> 12)) (\<lambda>_. andThen (op_check (length vs \<le> 256)) (\<lambda>_.
     andThen (json_elements (Suc depth) (Suc n) vs) (\<lambda>(ws, m). Inr (JArr ws, m))))"
| "jsonData depth n (JObj kvs) =
     andThen (op_check (n < 2048 \<and> depth \<le> 12)) (\<lambda>_.
     andThen (json_members (Suc depth) (Suc n) kvs) (\<lambda>(ws, m). Inr (JObj ws, m)))"
| "jsonData depth n (JStr s) =
     andThen (op_check (n < 2048 \<and> depth \<le> 12)) (\<lambda>_.
     andThen (op_text (JStr s) PEER_RESOLUTION_MAX_BYTES) (\<lambda>t. Inr (JStr t, Suc n)))"
| "jsonData depth n (JFrac t) =
     andThen (op_check (n < 2048 \<and> depth \<le> 12)) (\<lambda>_. andThen (op_check (t \<noteq> ''null'')) (\<lambda>_. Inr (JFrac t, Suc n)))"
| "jsonData depth n v =
     andThen (op_check (n < 2048 \<and> depth \<le> 12)) (\<lambda>_.
     case v of JNull \<Rightarrow> Inr (v, Suc n) | JBool b \<Rightarrow> Inr (v, Suc n) | JNum i \<Rightarrow> Inr (v, Suc n) | _ \<Rightarrow> op_invalid)"
| "json_elements depth n [] = Inr ([], n)"
| "json_elements depth n (v # vs) =
     andThen (jsonData depth n v) (\<lambda>(w, m). andThen (json_elements depth m vs) (\<lambda>(ws, l). Inr (w # ws, l)))"
| "json_members depth n [] = Inr ([], n)"
| "json_members depth n ((k, v) # kvs) =
     andThen (jsonData depth n v) (\<lambda>(w, m). andThen (json_members depth m kvs) (\<lambda>(ws, l). Inr ((k, w) # ws, l)))"

definition op_proposal :: "(string \<Rightarrow> string) \<Rightarrow> jval \<Rightarrow> peer_action \<Rightarrow> string \<Rightarrow> peer_proposal res" where
  "op_proposal sha v action case_id =
     andThen (jsonData 0 0 v) (\<lambda>(safe, _).
     andThen (decodePeerResolutionText sha (PEER_RESOLUTION_PREFIX @ stringify safe)) (\<lambda>r.
     case r of
       Some (Proposal p) \<Rightarrow>
         andThen (op_check (pp_action p = action \<and> pb_case_id p = case_id)) (\<lambda>_.
         andThen (encodePeerResolutionRecord sha (Proposal p)) (\<lambda>_. Inr p))
     | _ \<Rightarrow> op_invalid))"

section \<open>Operations\<close>

definition detail_range :: "(string \<times> jval) list \<Rightarrow> (nat \<times> nat) res" where
  "detail_range v =
     andThen (byteOffset (prop_of v ''start_byte'')) (\<lambda>a. andThen (byteOffset (prop_of v ''end_byte'')) (\<lambda>b.
     andThen (op_check (a \<le> b \<and> b - a \<le> 8192)) (\<lambda>_. Inr (a, b))))"

definition source_detail_of :: "(string \<times> jval) list \<Rightarrow> worker_operation res" where
  "source_detail_of v =
     andThen (op_exact v (operationFields @ [''work_id'', ''report_id'', ''side'', ''start_byte'', ''end_byte''])) (\<lambda>_.
     andThen (detail_range v) (\<lambda>(a, b). andThen (op_choice (prop_of v ''side'') detail_sides) (\<lambda>side.
     andThen (op_uuid (prop_of v ''work_id'')) (\<lambda>w. andThen (op_digest (prop_of v ''report_id'')) (\<lambda>r.
     Inr (Op_source_detail w r side a b))))))"

definition apply_of :: "(string \<times> jval) list \<Rightarrow> worker_operation res" where
  "apply_of v =
     andThen (op_exact v (operationFields @ [''note_id'', ''expected_case_revision'', ''expected_case_generation'', ''proposal_digest'']))
       (\<lambda>_. andThen (op_uuid (prop_of v ''note_id'')) (\<lambda>n. andThen (positive (prop_of v ''expected_case_revision'')) (\<lambda>r.
     andThen (positive (prop_of v ''expected_case_generation'')) (\<lambda>g. andThen (op_digest (prop_of v ''proposal_digest'')) (\<lambda>d.
     Inr (Op_apply n r g d))))))"

definition propose_of :: "(string \<Rightarrow> string) \<Rightarrow> (string \<times> jval) list \<Rightarrow> string \<Rightarrow> peer_action \<Rightarrow> worker_operation res" where
  "propose_of sha v case_id a =
     andThen (op_exact v (operationFields @ [''proposal''])) (\<lambda>_.
     map_sum id (Op_propose a) (op_proposal sha (prop_of v ''proposal'') a case_id))"

definition note_of :: "(string \<times> jval) list \<Rightarrow> note_step \<Rightarrow> worker_operation res" where
  "note_of v st =
     andThen (op_exact v (operationFields @ [''note_id''])) (\<lambda>_. map_sum id (Op_note st) (op_uuid (prop_of v ''note_id'')))"

text \<open>The position of an \<open>await_change\<close> and of the pending result that continues it.\<close>

definition cursor_of :: "(string \<times> jval) list \<Rightarrow> (nat \<times> nat \<times> string option) res" where
  "cursor_of v =
     andThen (positive (prop_of v ''after_case_revision'')) (\<lambda>r. andThen (positive (prop_of v ''after_case_generation'')) (\<lambda>g.
     andThen (if has_own v ''after_negotiation_cursor'' then map_sum id Some (op_digest (prop_of v ''after_negotiation_cursor''))
              else Inr None) (\<lambda>c. Inr (r, g, c))))"

definition await_of :: "(string \<times> jval) list \<Rightarrow> worker_operation res" where
  "await_of v =
     andThen (op_exact v (operationFields @ [''after_case_revision'', ''after_case_generation''] @ opt_name v ''after_negotiation_cursor''))
       (\<lambda>_. map_sum id (\<lambda>(r, g, c). Op_await r g c) (cursor_of v))"

definition decodePeerWorkerOperation :: "(string \<Rightarrow> string) \<Rightarrow> jval \<Rightarrow> peer_operation res" where
  "decodePeerWorkerOperation sha value =
     andThen (op_object value) (\<lambda>v. andThen (op_base v) (\<lambda>(w, key). map_sum id (\<lambda>x. (w, key, x))
     (let kind = prop_of v ''kind'' in
      if kind = JStr ''inspect'' then map_sum id (\<lambda>_. Op_inspect) (op_exact v operationFields)
      else if kind = JStr ''source_detail'' then source_detail_of v
      else if kind = JStr ''apply'' then apply_of v
      else if kind = JStr ''propose'' then propose_of sha v (wr_case_id w) Propose
      else if kind = JStr ''counter_propose'' then propose_of sha v (wr_case_id w) Counter_propose
      else if kind = JStr ''acknowledge'' then note_of v Acknowledge_step
      else if kind = JStr ''withdraw'' then note_of v Withdraw_step
      else if kind = JStr ''await_change'' then await_of v
      else fail OP_UNSUPPORTED)))"

section \<open>Parts of a result\<close>

definition firstProposal :: "(string \<Rightarrow> string) \<Rightarrow> jval \<Rightarrow> string \<Rightarrow> first_proposal res" where
  "firstProposal sha value case_id =
     andThen (op_object value) (\<lambda>v.
     andThen (op_exact v [''schema_version'', ''kind'', ''case_id'', ''case_revision'', ''case_generation'', ''proposal_revision'',
       ''evidence_id'', ''evidence_revision'', ''participants'', ''sources'', ''action'', ''predecessor_digest'', ''permitted_actions'']) (\<lambda>_.
     andThen (op_check (prop_of v ''schema_version'' = JNum 2 \<and> prop_of v ''kind'' = JStr ''peer_resolution_proposal''
       \<and> prop_of v ''action'' = JStr ''propose'' \<and> prop_of v ''proposal_revision'' = JNum 1
       \<and> prop_of v ''predecessor_digest'' = JNull \<and> prop_of v ''case_id'' = JStr case_id)) (\<lambda>_.
     andThen (op_proposal sha (JObj (AList.update ''schema_version'' (JNum 1) v
       @ [(''scope'', JArr []), (''resolution_digest'', JStr (replicate 64 (CHR ''0'')))])) Propose case_id) (\<lambda>p.
     Inr \<lparr>fp_case_id = pb_case_id p, fp_case_revision = pb_case_revision p, fp_case_generation = pb_case_generation p,
       fp_evidence_id = pb_evidence_id p, fp_evidence_revision = pb_evidence_revision p,
       fp_participants = pp_participants p, fp_sources = pb_sources p\<rparr>))))"

definition short_text :: "jval \<Rightarrow> bool" where
  "short_text v = (case v of JStr s \<Rightarrow> length s \<le> 512 | _ \<Rightarrow> False)"

definition declared_area :: "jval \<Rightarrow> region res" where
  "declared_area value =
     andThen (op_object value) (\<lambda>v. andThen (op_exact v [''kind'', ''path'']) (\<lambda>_.
     andThen (op_choice (prop_of v ''kind'') region_kinds) (\<lambda>k.
     andThen (op_check (short_text (prop_of v ''path''))) (\<lambda>_.
     andThen (op_path (prop_of v ''path'')) (\<lambda>p. Inr \<lparr>r_kind = k, r_path = p\<rparr>)))))"

definition excerpt_of :: "jval \<Rightarrow> string res" where
  "excerpt_of v = (case v of JStr s \<Rightarrow> if length s \<le> 256 \<and> CHR 0x00 \<notin> set s then Inr s else op_invalid | _ \<Rightarrow> op_invalid)"

definition op_boolean :: "jval \<Rightarrow> bool res" where
  "op_boolean v = (case v of JBool b \<Rightarrow> Inr b | _ \<Rightarrow> op_invalid)"

definition op_list :: "jval \<Rightarrow> nat \<Rightarrow> (jval \<Rightarrow> 'a res) \<Rightarrow> 'a list res" where
  "op_list v maximum decode =
     (case v of JArr vs \<Rightarrow> if maximum < length vs then op_invalid else map_res decode vs | _ \<Rightarrow> op_invalid)"

definition work_context_of :: "jval \<Rightarrow> work_context res" where
  "work_context_of value =
     andThen (op_object value) (\<lambda>v.
     andThen (op_exact v [''task_id'', ''work_id'', ''intent_excerpt'', ''intent_truncated'', ''declared_areas'', ''areas_omitted'']) (\<lambda>_.
     andThen (excerpt_of (prop_of v ''intent_excerpt'')) (\<lambda>e. andThen (op_boolean (prop_of v ''intent_truncated'')) (\<lambda>tr.
     andThen (op_list (prop_of v ''declared_areas'') 4 declared_area) (\<lambda>areas.
     andThen (op_uuid (prop_of v ''task_id'')) (\<lambda>t. andThen (op_uuid (prop_of v ''work_id'')) (\<lambda>w.
     andThen (nonnegative (prop_of v ''areas_omitted'') 256) (\<lambda>n.
     Inr \<lparr>wc_task_id = t, wc_work_id = w, wc_excerpt = e, wc_truncated = tr, wc_areas = areas, wc_omitted = n\<rparr>))))))))"

definition selectedWorkContext :: "jval \<Rightarrow> work_context list res" where
  "selectedWorkContext v = op_list v 4 work_context_of"

definition applicationOutcome :: "jval \<Rightarrow> outcome_record res" where
  "applicationOutcome value =
     andThen (op_object value) (\<lambda>v.
     andThen (op_exact v [''proposal_note_id'', ''application_note_id'', ''status'', ''proposal_digest'', ''application_digest'']) (\<lambda>_.
     andThen (op_choice (prop_of v ''status'') effect_statuses) (\<lambda>st.
     andThen (op_uuid (prop_of v ''proposal_note_id'')) (\<lambda>p. andThen (op_uuid (prop_of v ''application_note_id'')) (\<lambda>a.
     andThen (op_digest (prop_of v ''proposal_digest'')) (\<lambda>pd. andThen (op_digest (prop_of v ''application_digest'')) (\<lambda>ad.
     Inr \<lparr>oc_proposal_note = p, oc_application_note = a, oc_status = st, oc_proposal_digest = pd, oc_application_digest = ad\<rparr>)))))))"

definition taskIds :: "jval \<Rightarrow> string list res" where
  "taskIds v = andThen (op_list v 64 op_uuid) (\<lambda>xs. if distinct xs then Inr xs else op_invalid)"

section \<open>Results\<close>

definition current_fields :: "(string \<times> jval) list \<Rightarrow> string list" where
  "current_fields v =
     operationFields @ [''operation'', ''case_revision'', ''case_generation'', ''evidence_id'', ''evidence_revision'',
       ''negotiation_cursor'', ''proposal_note_id'', ''proposal'', ''participant_task_ids'', ''acknowledged_task_ids'']
     @ opt_name v ''evidence_status'' @ opt_name v ''first_proposal'' @ opt_name v ''application_outcome''
     @ (if has_own v ''selected_work_context'' then [''selected_work_context'', ''selected_work_omitted''] else [])"

text \<open>No first proposal is offered: the field is present and \<open>null\<close>.\<close>

definition no_first :: "(string \<times> jval) list \<Rightarrow> bool" where
  "no_first v = (prop_of v ''first_proposal'' = JNull)"

definition no_proposal :: "(string \<times> jval) list \<Rightarrow> bool" where
  "no_proposal v = (prop_of v ''proposal'' = JNull \<and> prop_of v ''proposal_note_id'' = JNull)"

definition current_evidence :: "(string \<times> jval) list \<Rightarrow> (evidence_status \<times> string option \<times> nat option) res" where
  "current_evidence v =
     andThen (if has_own v ''evidence_status'' then op_choice (prop_of v ''evidence_status'') evidence_statuses
              else Inr Ev_current) (\<lambda>st.
     andThen (if st = Ev_unavailable \<and> prop_of v ''evidence_id'' = JNull then Inr None
              else map_sum id Some (op_digest (prop_of v ''evidence_id''))) (\<lambda>i.
     andThen (if st = Ev_unavailable \<and> prop_of v ''evidence_revision'' = JNull then Inr None
              else map_sum id Some (positive (prop_of v ''evidence_revision''))) (\<lambda>r.
     andThen (op_check ((st = Ev_unavailable) = (i = None \<and> r = None)
       \<and> (st = Ev_unavailable \<longrightarrow> no_proposal v \<and> no_first v))) (\<lambda>_. Inr (st, i, r)))))"

definition current_people :: "(string \<times> jval) list \<Rightarrow> (string list \<times> string list) res" where
  "current_people v =
     andThen (op_check ((prop_of v ''proposal_note_id'' = JNull) = (prop_of v ''proposal'' = JNull))) (\<lambda>_.
     andThen (taskIds (prop_of v ''participant_task_ids'')) (\<lambda>ps. andThen (taskIds (prop_of v ''acknowledged_task_ids'')) (\<lambda>as.
     andThen (op_check (set as \<subseteq> set ps \<and> (prop_of v ''proposal'' = JNull \<longrightarrow> as = []))) (\<lambda>_. Inr (ps, as)))))"

definition current_history :: "(string \<Rightarrow> string) \<Rightarrow> (string \<times> jval) list \<Rightarrow> string \<Rightarrow> evidence_status
    \<Rightarrow> (first_proposal option \<times> outcome_record option) res" where
  "current_history sha v case_id st =
     andThen (if \<not> has_own v ''first_proposal'' \<or> no_first v then Inr None
              else map_sum id Some (firstProposal sha (prop_of v ''first_proposal'') case_id)) (\<lambda>f.
     andThen (if \<not> has_own v ''application_outcome'' then Inr None
              else op_nullable applicationOutcome (prop_of v ''application_outcome'')) (\<lambda>oc.
     andThen (op_check (st = Ev_historical \<longrightarrow> no_proposal v \<and> no_first v
       \<and> (case oc of None \<Rightarrow> False | Some x \<Rightarrow> oc_status x \<noteq> Eff_rejected))) (\<lambda>_. Inr (f, oc))))"

definition current_contexts :: "(string \<times> jval) list \<Rightarrow> string list \<Rightarrow> (work_context list \<times> nat) res" where
  "current_contexts v participants =
     andThen (if has_own v ''selected_work_context'' then selectedWorkContext (prop_of v ''selected_work_context'') else Inr []) (\<lambda>ws.
     andThen (if has_own v ''selected_work_context'' then nonnegative (prop_of v ''selected_work_omitted'') 64
              else Inr (length participants)) (\<lambda>n.
     andThen (op_check (length ws + n = length participants
       \<and> map wc_task_id ws = take (length ws) participants)) (\<lambda>_. Inr (ws, n))))"

definition first_matches :: "(string \<times> jval) list \<Rightarrow> string option \<Rightarrow> nat option \<Rightarrow> first_proposal option \<Rightarrow> bool" where
  "first_matches v i r f =
     (case f of None \<Rightarrow> True
      | Some x \<Rightarrow> prop_of v ''proposal'' = JNull \<and> jnat (fp_case_revision x) = prop_of v ''case_revision''
          \<and> jnat (fp_case_generation x) = prop_of v ''case_generation'' \<and> Some (fp_evidence_id x) = i
          \<and> Some (fp_evidence_revision x) = r)"

definition current_proposal :: "(string \<Rightarrow> string) \<Rightarrow> (string \<times> jval) list \<Rightarrow> string \<Rightarrow> peer_proposal option res" where
  "current_proposal sha v case_id =
     (let raw = prop_of v ''proposal'' in
      if raw = JNull then Inr None
      else andThen (op_object raw) (\<lambda>p. map_sum id Some (op_proposal sha raw
        (if prop_of p ''action'' = JStr ''counter_propose'' then Counter_propose else Propose) case_id)))"

definition current_of :: "(string \<Rightarrow> string) \<Rightarrow> (string \<times> jval) list \<Rightarrow> string \<Rightarrow> operation_result res" where
  "current_of sha v case_id =
     andThen (op_exact v (current_fields v)) (\<lambda>_. andThen (op_choice (prop_of v ''operation'') lookings) (\<lambda>look.
     andThen (current_evidence v) (\<lambda>(st, i, r). andThen (current_people v) (\<lambda>(ps, as).
     andThen (current_history sha v case_id st) (\<lambda>(f, oc). andThen (current_contexts v ps) (\<lambda>(ws, n).
     andThen (op_check (first_matches v i r f)) (\<lambda>_.
     andThen (positive (prop_of v ''case_revision'')) (\<lambda>cr. andThen (positive (prop_of v ''case_generation'')) (\<lambda>cg.
     andThen (op_digest (prop_of v ''negotiation_cursor'')) (\<lambda>cur.
     andThen (op_nullable op_uuid (prop_of v ''proposal_note_id'')) (\<lambda>note.
     andThen (current_proposal sha v case_id) (\<lambda>p.
     Inr (Res_current \<lparr>cv_operation = look, cv_case_revision = cr, cv_case_generation = cg, cv_status = st, cv_evidence_id = i,
       cv_evidence_revision = r, cv_cursor = cur, cv_participants = ps, cv_acknowledged = as, cv_first = f, cv_outcome = oc,
       cv_contexts = ws, cv_omitted = n, cv_note_id = note, cv_proposal = p\<rparr>)))))))))))))"

definition detail_text :: "jval \<Rightarrow> nat \<Rightarrow> string res" where
  "detail_text v n = (case v of JStr s \<Rightarrow> if length s = n \<and> CHR 0x00 \<notin> set s then Inr s else op_invalid | _ \<Rightarrow> op_invalid)"

definition detail_of :: "(string \<times> jval) list \<Rightarrow> operation_result res" where
  "detail_of v =
     andThen (op_exact v (operationFields @ [''operation'', ''work_id'', ''report_id'', ''side'', ''start_byte'', ''end_byte'',
       ''content_sha256'', ''text''])) (\<lambda>_.
     andThen (op_check (prop_of v ''operation'' = JStr ''source_detail'')) (\<lambda>_.
     andThen (op_choice (prop_of v ''side'') detail_sides) (\<lambda>side. andThen (detail_range v) (\<lambda>(a, b).
     andThen (detail_text (prop_of v ''text'') (b - a)) (\<lambda>t. andThen (op_uuid (prop_of v ''work_id'')) (\<lambda>w.
     andThen (op_digest (prop_of v ''report_id'')) (\<lambda>r. andThen (op_digest (prop_of v ''content_sha256'')) (\<lambda>h.
     Inr (Res_detail w r side a b h t)))))))))"

fun js_ascending :: "string list \<Rightarrow> bool" where
  "js_ascending (x # y # zs) = (js_less x y \<and> js_ascending (y # zs))"
| "js_ascending _ = True"

definition application_result_of :: "(string \<times> jval) list \<Rightarrow> operation_result res" where
  "application_result_of v =
     andThen (op_exact v (operationFields @ [''operation'', ''note_id'', ''status'', ''application_digest'', ''paths''])) (\<lambda>_.
     andThen (op_check (prop_of v ''operation'' = JStr ''apply'')) (\<lambda>_.
     andThen (op_choice (prop_of v ''status'') effect_statuses) (\<lambda>st. andThen (op_list (prop_of v ''paths'') 32 op_path) (\<lambda>ps.
     andThen (op_check (js_ascending ps)) (\<lambda>_. andThen (op_nullable op_digest (prop_of v ''application_digest'')) (\<lambda>d.
     andThen (op_check ((st = Eff_applied) = (d \<noteq> None))) (\<lambda>_. andThen (op_uuid (prop_of v ''note_id'')) (\<lambda>n.
     Inr (Res_application n st d ps)))))))))"

definition receipt_of :: "(string \<times> jval) list \<Rightarrow> operation_result res" where
  "receipt_of v =
     andThen (op_exact v (operationFields @ [''operation'', ''receipt_revision'', ''note_id''])) (\<lambda>_.
     andThen (op_choice (prop_of v ''operation'') receipt_steps) (\<lambda>st. andThen (positive (prop_of v ''receipt_revision'')) (\<lambda>r.
     andThen (op_uuid (prop_of v ''note_id'')) (\<lambda>n. Inr (Res_receipt st r n)))))"

definition pending_of :: "(string \<times> jval) list \<Rightarrow> operation_result res" where
  "pending_of v =
     andThen (op_exact v (operationFields @ [''operation'', ''after_case_revision'', ''after_case_generation'']
       @ opt_name v ''after_negotiation_cursor'')) (\<lambda>_.
     andThen (op_check (prop_of v ''operation'' = JStr ''await_change'')) (\<lambda>_.
     map_sum id (\<lambda>(r, g, c). Res_pending r g c) (cursor_of v)))"

definition decodePeerWorkerOperationResult :: "(string \<Rightarrow> string) \<Rightarrow> jval \<Rightarrow> peer_result res" where
  "decodePeerWorkerOperationResult sha value =
     andThen (op_object value) (\<lambda>v. andThen (op_base v) (\<lambda>(w, key). map_sum id (\<lambda>x. (w, key, x))
     (let kind = prop_of v ''kind'' in
      if kind = JStr ''current'' then current_of sha v (wr_case_id w)
      else if kind = JStr ''detail'' then detail_of v
      else if kind = JStr ''application'' then application_result_of v
      else if kind = JStr ''receipt'' then receipt_of v
      else if kind = JStr ''pending'' then pending_of v
      else fail OP_UNSUPPORTED)))"

section \<open>The failures of the decoders\<close>

definition fails_among :: "string set \<Rightarrow> 'a res \<Rightarrow> bool" where
  "fails_among codes r = (case r of Inl e \<Rightarrow> e \<in> BridgeError ` codes | Inr _ \<Rightarrow> True)"

named_theorems among_intro \<open>a step fails with one of some codes only\<close>

lemma among_Inr [simp, among_intro]: "fails_among codes (Inr x)"
  by (simp add: fails_among_def)

lemma among_andThen [among_intro]:
  "fails_among codes r \<Longrightarrow> (\<And>x. fails_among codes (f x)) \<Longrightarrow> fails_among codes (andThen r f)"
  by (cases r) (simp_all add: fails_among_def)

lemma among_if [among_intro]:
  "(b \<Longrightarrow> fails_among codes r) \<Longrightarrow> (\<not> b \<Longrightarrow> fails_among codes s) \<Longrightarrow> fails_among codes (if b then r else s)"
  by simp

lemma among_map_sum [among_intro]: "fails_among codes r \<Longrightarrow> fails_among codes (map_sum id f r)"
  by (cases r) (simp_all add: fails_among_def)

lemma among_map_res [among_intro]: "(\<And>x. fails_among codes (f x)) \<Longrightarrow> fails_among codes (map_res f xs)"
  by (induction xs) (auto intro!: among_intro)

lemma among_pair [among_intro]: "(\<And>a b. fails_among codes (f a b)) \<Longrightarrow> fails_among codes (case x of (a, b) \<Rightarrow> f a b)"
  by (cases x) simp

lemma among_of_with: "fails_with code r \<Longrightarrow> code \<in> codes \<Longrightarrow> fails_among codes r"
  by (auto simp: fails_with_def fails_among_def split: sum.splits)

abbreviation op_codes :: "string set" where "op_codes \<equiv> {OP_INVALID, OP_UNSUPPORTED, PEER_INVALID}"

lemma among_fail [among_intro]: "code \<in> codes \<Longrightarrow> fails_among codes (fail code)"
  by (simp add: fails_among_def)

lemma op_fields_fail [among_intro]:
  "fails_among op_codes (op_check b)" "fails_among op_codes (op_object v)" "fails_among op_codes (op_text v m)"
  "fails_among op_codes (op_number v lo hi)" "fails_among op_codes (op_choice v table)" "fails_among op_codes (excerpt_of v)"
  "fails_among op_codes (op_boolean v)" "fails_among op_codes (detail_text v m)"
  by (auto simp: fails_among_def op_check_def guard_fail_def op_object_def op_text_def op_number_def op_choice_def excerpt_of_def
      op_boolean_def detail_text_def split: jval.splits option.splits)

lemma op_scalars_fail [among_intro]:
  "fails_among op_codes (op_checked v m p)" "fails_among op_codes (op_exact kvs names)"
  unfolding op_checked_def op_exact_def by (intro among_intro; simp)+

lemma op_identities_fail [among_intro]:
  "fails_among op_codes (op_uuid v)" "fails_among op_codes (op_digest v)" "fails_among op_codes (op_path v)"
  "fails_among op_codes (positive v)" "fails_among op_codes (byteOffset v)" "fails_among op_codes (nonnegative v n)"
  unfolding op_uuid_def op_digest_def op_path_def positive_def byteOffset_def nonnegative_def by (intro among_intro)+

lemma op_nullable_fails [among_intro]: "(\<And>v. fails_among op_codes (d v)) \<Longrightarrow> fails_among op_codes (op_nullable d v)"
  unfolding op_nullable_def by (intro among_intro)

lemma op_list_fails [among_intro]:
  assumes "\<And>v. fails_among op_codes (d v)"
  shows "fails_among op_codes (op_list v n d)"
  unfolding op_list_def by (cases v) (auto intro!: among_intro assms)

lemma json_data_fails [among_intro]:
  "fails_among op_codes (jsonData depth n v)" "fails_among op_codes (json_elements depth n vs)"
  "fails_among op_codes (json_members depth n kvs)"
  by (induction depth n v and depth n vs and depth n kvs rule: jsonData_json_elements_json_members.induct)
    (auto intro!: among_intro)

lemma encode_fails: "fails_with PEER_INVALID (encodePeerResolutionRecord sha r)"
  unfolding encodePeerResolutionRecord_def Let_def by (intro fails_intro)

lemma op_proposal_fails [among_intro]: "fails_among op_codes (op_proposal sha v a c)"
  unfolding op_proposal_def
  by (intro among_intro) (auto intro!: among_intro among_of_with [OF decodePeerResolutionText_fails] among_of_with [OF encode_fails]
      split: option.split peer_record.split)

lemma op_parts_fail [among_intro]:
  "fails_among op_codes (worker_identity v)" "fails_among op_codes (detail_range v)" "fails_among op_codes (cursor_of v)"
  "fails_among op_codes (taskIds u)" "fails_among op_codes (declared_area u)" "fails_among op_codes (applicationOutcome u)"
  "fails_among op_codes (firstProposal sha u c)"
  unfolding worker_identity_def detail_range_def cursor_of_def taskIds_def declared_area_def applicationOutcome_def firstProposal_def
  by (intro among_intro; simp)+

lemma op_base_fails [among_intro]: "fails_among op_codes (op_base v)"
  unfolding op_base_def by (intro among_intro)

lemma operation_failures: "fails_among op_codes (decodePeerWorkerOperation sha v)"
  unfolding decodePeerWorkerOperation_def source_detail_of_def apply_of_def propose_of_def note_of_def await_of_def Let_def
  by (intro among_intro; simp)

lemma context_fails [among_intro]: "fails_among op_codes (work_context_of u)" "fails_among op_codes (selectedWorkContext w)"
  unfolding selectedWorkContext_def work_context_of_def by (intro among_intro)+

lemma current_parts_fail [among_intro]:
  "fails_among op_codes (current_evidence v)" "fails_among op_codes (current_people v)" "fails_among op_codes (current_history sha v c st)"
  "fails_among op_codes (current_contexts v ps)" "fails_among op_codes (current_proposal sha v c)"
  unfolding current_evidence_def current_people_def current_history_def current_contexts_def current_proposal_def Let_def
  by (intro among_intro)+

lemma result_failures: "fails_among op_codes (decodePeerWorkerOperationResult sha v)"
  unfolding decodePeerWorkerOperationResult_def current_of_def detail_of_def application_result_of_def receipt_of_def pending_of_def Let_def
  by (intro among_intro; simp)

section \<open>What is accepted\<close>

definition request_ok :: "worker_request \<Rightarrow> bool" where
  "request_ok w = (is_uuid (wr_task_id w) \<and> is_uuid (wr_run_id w) \<and> is_uuid (wr_case_id w) \<and> 1 \<le> wr_generation w
     \<and> int (wr_generation w) \<le> MAX_SAFE_INTEGER \<and> op_text_ok 4096 (wr_workspace_id w)
     \<and> op_text_ok 4096 (wr_source_view w) \<and> starts_with (wr_source_view w) ''/'')"

definition count_ok :: "nat \<Rightarrow> bool" where "count_ok n = (1 \<le> n \<and> int n \<le> MAX_SAFE_INTEGER)"
definition range_ok :: "nat \<Rightarrow> nat \<Rightarrow> bool" where "range_ok a b = (a \<le> b \<and> b - a \<le> 8192 \<and> int b \<le> MAX_SAFE_INTEGER)"
definition sha_ok :: "string \<Rightarrow> bool" where "sha_ok s = hex_of 64 s"

definition proposal_fits :: "(string \<Rightarrow> string) \<Rightarrow> string \<Rightarrow> peer_proposal \<Rightarrow> bool" where
  "proposal_fits sha case_id p = (pb_case_id p = case_id \<and> decodeRecord sha (proposal_json p) = Inr (Proposal p)
     \<and> length (PEER_RESOLUTION_PREFIX @ stringify (proposal_json p)) \<le> PEER_RESOLUTION_MAX_BYTES)"

fun operation_ok :: "(string \<Rightarrow> string) \<Rightarrow> string \<Rightarrow> worker_operation \<Rightarrow> bool" where
  "operation_ok sha c Op_inspect = True"
| "operation_ok sha c (Op_source_detail w r side a b) = (is_uuid w \<and> sha_ok r \<and> range_ok a b)"
| "operation_ok sha c (Op_apply n r g d) = (is_uuid n \<and> count_ok r \<and> count_ok g \<and> sha_ok d)"
| "operation_ok sha c (Op_propose a p) = (pp_action p = a \<and> proposal_fits sha c p)"
| "operation_ok sha c (Op_note st n) = is_uuid n"
| "operation_ok sha c (Op_await r g cur) = (count_ok r \<and> count_ok g \<and> (\<forall>d. cur = Some d \<longrightarrow> sha_ok d))"

definition context_ok :: "work_context \<Rightarrow> bool" where
  "context_ok x = (is_uuid (wc_task_id x) \<and> is_uuid (wc_work_id x) \<and> length (wc_excerpt x) \<le> 256 \<and> CHR 0x00 \<notin> set (wc_excerpt x)
     \<and> length (wc_areas x) \<le> 4 \<and> (\<forall>r \<in> set (wc_areas x). op_path_ok (r_path r) \<and> length (r_path r) \<le> 512) \<and> wc_omitted x \<le> 256)"

definition current_ok :: "(string \<Rightarrow> string) \<Rightarrow> string \<Rightarrow> current_view \<Rightarrow> bool" where
  "current_ok sha c x = (count_ok (cv_case_revision x) \<and> count_ok (cv_case_generation x) \<and> sha_ok (cv_cursor x)
     \<and> (cv_status x = Ev_unavailable) = (cv_evidence_id x = None \<and> cv_evidence_revision x = None)
     \<and> (cv_status x \<noteq> Ev_current \<longrightarrow> cv_proposal x = None \<and> cv_first x = None)
     \<and> (cv_status x = Ev_historical \<longrightarrow> (\<exists>oc. cv_outcome x = Some oc \<and> oc_status oc \<noteq> Eff_rejected))
     \<and> (cv_note_id x = None) = (cv_proposal x = None) \<and> (cv_first x \<noteq> None \<longrightarrow> cv_proposal x = None)
     \<and> distinct (cv_participants x) \<and> length (cv_participants x) \<le> 64 \<and> set (cv_acknowledged x) \<subseteq> set (cv_participants x)
     \<and> (cv_proposal x = None \<longrightarrow> cv_acknowledged x = []) \<and> (\<forall>p. cv_proposal x = Some p \<longrightarrow> proposal_fits sha c p)
     \<and> length (cv_contexts x) \<le> 4 \<and> length (cv_contexts x) + cv_omitted x = length (cv_participants x)
     \<and> map wc_task_id (cv_contexts x) = take (length (cv_contexts x)) (cv_participants x) \<and> list_all context_ok (cv_contexts x))"

fun result_ok :: "(string \<Rightarrow> string) \<Rightarrow> string \<Rightarrow> operation_result \<Rightarrow> bool" where
  "result_ok sha c (Res_current x) = current_ok sha c x"
| "result_ok sha c (Res_detail w r side a b h t) =
     (is_uuid w \<and> sha_ok r \<and> sha_ok h \<and> range_ok a b \<and> length t = b - a \<and> CHR 0x00 \<notin> set t)"
| "result_ok sha c (Res_application n st d ps) =
     (is_uuid n \<and> (st = Eff_applied) = (d \<noteq> None) \<and> (\<forall>h. d = Some h \<longrightarrow> sha_ok h) \<and> length ps \<le> 32 \<and> js_ascending ps
      \<and> list_all op_path_ok ps)"
| "result_ok sha c (Res_receipt st r n) = (count_ok r \<and> is_uuid n)"
| "result_ok sha c (Res_pending r g cur) = (count_ok r \<and> count_ok g \<and> (\<forall>d. cur = Some d \<longrightarrow> sha_ok d))"

lemma op_check_Inr [res_simps]: "(op_check b = Inr u) = b"
  by (simp add: op_check_def guard_fail_def)

lemma op_text_Inr: "(op_text v m = Inr s) = (v = JStr s \<and> op_text_ok m s)"
  by (auto simp: op_text_def split: jval.splits if_splits)

lemma op_checked_Inr: "(op_checked v m p = Inr s) = (v = JStr s \<and> op_text_ok m s \<and> p s)"
  by (auto simp: op_checked_def op_text_Inr andThen_Inr_iff split: if_splits)

lemma op_number_Inr: "(op_number v lo hi = Inr n) = (v = jnat n \<and> int n \<le> MAX_SAFE_INTEGER \<and> lo \<le> n \<and> int n \<le> hi)"
  by (auto simp: op_number_def jnat_def split: jval.splits if_splits)

lemma op_scalar_ok:
  "op_uuid v = Inr s \<Longrightarrow> is_uuid s" "op_digest v = Inr s \<Longrightarrow> sha_ok s" "op_path v = Inr s \<Longrightarrow> op_path_ok s"
  "positive v = Inr n \<Longrightarrow> count_ok n" "nonnegative v m = Inr n \<Longrightarrow> n \<le> m"
  by (auto simp: op_uuid_def op_digest_def op_path_def positive_def nonnegative_def op_checked_Inr op_number_Inr sha_ok_def count_ok_def)

lemma op_list_Inr: "op_list v n d = Inr xs \<Longrightarrow> length xs \<le> n \<and> (\<forall>x \<in> set xs. \<exists>u. d u = Inr x)"
  by (auto simp: op_list_def dest: map_res_Inr_set map_res_Inr_length split: jval.splits if_splits)

lemma op_nullable_Inr: "op_nullable d v = Inr x \<Longrightarrow> (x = None) = (v = JNull) \<and> (\<forall>y. x = Some y \<longrightarrow> d v = Inr y)"
  by (auto simp: op_nullable_def map_sum_Inr split: if_splits)

lemma request_accepted: "worker_identity v = Inr w \<Longrightarrow> request_ok w"
  by (auto simp: worker_identity_def andThen_Inr_iff op_checked_Inr op_text_Inr op_uuid_def positive_def op_number_Inr request_ok_def)

lemma base_accepted: "op_base v = Inr (w, k) \<Longrightarrow> request_ok w \<and> op_text_ok 256 k"
  by (auto simp: op_base_def andThen_Inr_iff op_text_Inr dest: request_accepted)

text \<open>The copy is the value, and the visited values are counted.\<close>

lemma copied:
  "jsonData depth n v = Inr (w, m) \<Longrightarrow> w = v \<and> n < m \<and> m \<le> 2048"
  "json_elements depth n vs = Inr (ws, m) \<Longrightarrow> ws = vs \<and> n + length vs \<le> m \<and> (vs \<noteq> [] \<longrightarrow> m \<le> 2048)"
  "json_members depth n kvs = Inr (ls, m) \<Longrightarrow> ls = kvs \<and> n + length kvs \<le> m \<and> (kvs \<noteq> [] \<longrightarrow> m \<le> 2048)"
proof (induction depth n v and depth n vs and depth n kvs arbitrary: w m and ws m and ls m
    rule: jsonData_json_elements_json_members.induct)
  case (1 depth n vs)
  then show ?case by (cases vs) (fastforce simp: andThen_Inr_iff op_check_Inr)+
next
  case (2 depth n kvs)
  then show ?case by (cases kvs) (fastforce simp: andThen_Inr_iff op_check_Inr)+
qed (fastforce simp: andThen_Inr_iff op_check_Inr op_text_Inr)+

lemma proposal_accepted:
  assumes "op_proposal sha v a c = Inr p"
  shows "pp_action p = a \<and> proposal_fits sha c p"
proof -
  from assms obtain u r where r: "decodePeerResolutionText sha u = Inr r" and
      "(case r of Some (Proposal q) \<Rightarrow> andThen (op_check (pp_action q = a \<and> pb_case_id q = c))
          (\<lambda>_. andThen (encodePeerResolutionRecord sha (Proposal q)) (\<lambda>_. Inr q)) | _ \<Rightarrow> op_invalid) = Inr p"
    unfolding op_proposal_def by (auto simp: andThen_Inr_iff split: prod.splits)
  then obtain t where t: "encodePeerResolutionRecord sha (Proposal p) = Inr t" "pp_action p = a" "pb_case_id p = c"
    and u: "decodePeerResolutionText sha u = Inr (Some (Proposal p))"
    by (auto simp: andThen_Inr_iff op_check_Inr split: option.split_asm peer_record.split_asm)
  from u obtain r where "decodeRecord sha r = Inr (Proposal p)"
    by (auto simp: decodePeerResolutionText_def map_sum_Inr split: if_splits option.splits)
  then have "decodeRecord sha (proposal_json p) = Inr (Proposal p)" using record_again by fastforce
  with t show ?thesis
    by (auto simp: proposal_fits_def encodePeerResolutionRecord_def andThen_Inr_iff peer_check_Inr Let_def)
qed

lemma range_accepted: "detail_range v = Inr (a, b) \<Longrightarrow> range_ok a b"
  by (auto simp: detail_range_def andThen_Inr_iff byteOffset_def op_number_Inr op_check_Inr range_ok_def)

lemma cursor_accepted: "cursor_of v = Inr (r, g, c) \<Longrightarrow> count_ok r \<and> count_ok g \<and> (\<forall>d. c = Some d \<longrightarrow> sha_ok d)"
  by (auto simp: cursor_of_def andThen_Inr_iff map_sum_Inr split: if_splits dest: op_scalar_ok)

lemma worker_operation_accepted:
  assumes "decodePeerWorkerOperation sha value = Inr (w, key, x)"
  shows "request_ok w \<and> op_text_ok 256 key \<and> operation_ok sha (wr_case_id w) x"
proof -
  from assms obtain v where base: "op_base v = Inr (w, key)" and
    "source_detail_of v = Inr x \<or> apply_of v = Inr x \<or> (\<exists>a. propose_of sha v (wr_case_id w) a = Inr x)
      \<or> (\<exists>st. note_of v st = Inr x) \<or> await_of v = Inr x \<or> x = Op_inspect"
    unfolding decodePeerWorkerOperation_def andThen_Inr_iff Let_def by (auto simp: map_sum_Inr split: if_splits)
  then have "operation_ok sha (wr_case_id w) x"
    by (auto simp: source_detail_of_def apply_of_def propose_of_def note_of_def await_of_def andThen_Inr_iff map_sum_Inr
        dest: range_accepted cursor_accepted proposal_accepted op_scalar_ok)
  with base_accepted [OF base] show ?thesis by simp
qed

lemma excerpt_Inr: "(excerpt_of v = Inr s) = (v = JStr s \<and> length s \<le> 256 \<and> CHR 0x00 \<notin> set s)"
  by (auto simp: excerpt_of_def split: jval.splits if_splits)

lemma detail_text_Inr: "(detail_text v n = Inr s) = (v = JStr s \<and> length s = n \<and> CHR 0x00 \<notin> set s)"
  by (auto simp: detail_text_def split: jval.splits if_splits)

lemma area_accepted: "declared_area v = Inr r \<Longrightarrow> op_path_ok (r_path r) \<and> length (r_path r) \<le> 512"
  by (auto simp: declared_area_def andThen_Inr_iff op_check_Inr op_path_def op_checked_Inr short_text_def)

lemma context_accepted: "work_context_of v = Inr x \<Longrightarrow> context_ok x"
  by (auto simp: work_context_of_def andThen_Inr_iff excerpt_Inr context_ok_def
      dest: op_scalar_ok op_list_Inr area_accepted) (meson area_accepted op_list_Inr)+

lemma paths_accepted: "op_list v n op_path = Inr ps \<Longrightarrow> length ps \<le> n \<and> list_all op_path_ok ps"
  by (auto simp: list_all_iff dest!: op_list_Inr dest: op_scalar_ok)

lemma evidence_accepted:
  "current_evidence v = Inr (st, i, r) \<Longrightarrow> (st = Ev_unavailable) = (i = None \<and> r = None) \<and> (st = Ev_unavailable \<longrightarrow> no_proposal v \<and> no_first v)"
  by (auto simp: current_evidence_def andThen_Inr_iff op_check_Inr)

lemma people_accepted:
  assumes "current_people v = Inr (ps, as)"
  shows "(prop_of v ''proposal_note_id'' = JNull) = (prop_of v ''proposal'' = JNull) \<and> distinct ps \<and> length ps \<le> 64
    \<and> set as \<subseteq> set ps \<and> (prop_of v ''proposal'' = JNull \<longrightarrow> as = [])"
  using assms
  by (auto simp: current_people_def taskIds_def andThen_Inr_iff op_check_Inr dest!: op_list_Inr split: if_splits)

lemma history_accepted:
  assumes "current_history sha v c st = Inr (f, oc)"
  shows "(no_first v \<longrightarrow> f = None) \<and> (st = Ev_historical \<longrightarrow> no_proposal v \<and> no_first v \<and> (\<exists>x. oc = Some x \<and> oc_status x \<noteq> Eff_rejected))"
  using assms
  by (auto simp: current_history_def andThen_Inr_iff op_check_Inr split: if_splits option.splits)

lemma contexts_accepted:
  assumes "current_contexts v ps = Inr (ws, n)"
  shows "length ws \<le> 4 \<and> length ws + n = length ps \<and> map wc_task_id ws = take (length ws) ps \<and> list_all context_ok ws"
  using assms
  by (auto simp: current_contexts_def selectedWorkContext_def andThen_Inr_iff op_check_Inr list_all_iff
      dest!: op_list_Inr dest: context_accepted split: if_splits)

lemma current_proposal_accepted:
  assumes "current_proposal sha v c = Inr x"
  shows "(x = None) = (prop_of v ''proposal'' = JNull) \<and> (\<forall>p. x = Some p \<longrightarrow> proposal_fits sha c p)"
  using assms
  by (auto simp: current_proposal_def Let_def andThen_Inr_iff map_sum_Inr dest: proposal_accepted split: if_splits)

lemma current_accepted:
  assumes "current_of sha v c = Inr x"
  shows "result_ok sha c x"
proof -
  from assms obtain look st i r ps as f oc ws n cr cg cur nt p where
    parts: "current_evidence v = Inr (st, i, r)" "current_people v = Inr (ps, as)" "current_history sha v c st = Inr (f, oc)"
      "current_contexts v ps = Inr (ws, n)" "first_matches v i r f" "positive (prop_of v ''case_revision'') = Inr cr"
      "positive (prop_of v ''case_generation'') = Inr cg" "op_digest (prop_of v ''negotiation_cursor'') = Inr cur"
      "op_nullable op_uuid (prop_of v ''proposal_note_id'') = Inr nt" "current_proposal sha v c = Inr p"
    and x: "x = Res_current \<lparr>cv_operation = look, cv_case_revision = cr, cv_case_generation = cg, cv_status = st, cv_evidence_id = i,
       cv_evidence_revision = r, cv_cursor = cur, cv_participants = ps, cv_acknowledged = as, cv_first = f, cv_outcome = oc,
       cv_contexts = ws, cv_omitted = n, cv_note_id = nt, cv_proposal = p\<rparr>"
    unfolding current_of_def by (auto simp: andThen_Inr_iff op_check_Inr)
  have first: "f \<noteq> None \<longrightarrow> prop_of v ''proposal'' = JNull" using parts(5) by (auto simp: first_matches_def)
  note facts = evidence_accepted [OF parts(1)] people_accepted [OF parts(2)] history_accepted [OF parts(3)]
    contexts_accepted [OF parts(4)] op_scalar_ok(4) [OF parts(6)] op_scalar_ok(4) [OF parts(7)] op_scalar_ok(2) [OF parts(8)]
    op_nullable_Inr [OF parts(9)] current_proposal_accepted [OF parts(10)] first
  show ?thesis unfolding x result_ok.simps current_ok_def using facts by (cases st) (auto simp: no_proposal_def)
qed

lemma worker_result_accepted:
  assumes "decodePeerWorkerOperationResult sha value = Inr (w, key, x)"
  shows "request_ok w \<and> op_text_ok 256 key \<and> result_ok sha (wr_case_id w) x"
proof -
  from assms obtain v where base: "op_base v = Inr (w, key)" and
    "current_of sha v (wr_case_id w) = Inr x \<or> detail_of v = Inr x \<or> application_result_of v = Inr x \<or> receipt_of v = Inr x
      \<or> pending_of v = Inr x"
    unfolding decodePeerWorkerOperationResult_def andThen_Inr_iff Let_def by (auto simp: map_sum_Inr split: if_splits)
  then have "result_ok sha (wr_case_id w) x"
  proof (elim disjE)
    assume "application_result_of v = Inr x"
    then show ?thesis
      unfolding application_result_of_def andThen_Inr_iff op_check_Inr
      by (elim exE conjE) (auto dest!: paths_accepted op_nullable_Inr dest: op_scalar_ok)
  qed (auto simp: detail_of_def receipt_of_def pending_of_def andThen_Inr_iff map_sum_Inr detail_text_Inr
        dest: current_accepted range_accepted cursor_accepted op_scalar_ok)
  with base_accepted [OF base] show ?thesis by simp
qed

end
