(* ===== verification/Publication_Limits.thy ===== *)
theory Publication_Limits
  imports Service_Recovery Submission_Service
begin

text \<open>
  Where the service publishes more than its reader accepts. For each kind of publication the
  conditions that the code leaves to the reader are not assumed: the record is accepted exactly
  when they hold, and otherwise the store refuses it as invalid. The records that the service
  reaches are those of the relation \<open>recorded\<close>.
\<close>

section \<open>Commands\<close>

text \<open>A decoded command of an authenticated owner, under a new key, on an accepted record: what the
  service has established when it commits. SHA-256 gives 64 hexadecimal digits, and the random
  identity is new.\<close>

definition requested :: "(string \<Rightarrow> string) \<Rightarrow> control_state \<Rightarrow> string \<Rightarrow> command \<Rightarrow> string \<Rightarrow> bool" where
  "requested sha s p cmd fresh =
     (control_ok sha s \<and> sha_hex sha \<and> parent_ok p \<and> command_ok cmd \<and> key_unused s p (operation_key cmd)
    \<and> fresh_id s fresh \<and> int (cs_revision s + 1) \<le> MAX_SAFE_INTEGER)"

lemma committing_iff: "committing sha s p cmd observed fresh = (requested sha s p cmd fresh \<and> publishable s p cmd observed)"
  by (simp add: committing_def requested_def)

lemma selection_needed:
  assumes c: "find_case s i = Some c" and works: "cs_works t = cs_works s"
    and auth: "case_authority_ok t (bump_case (select_change oid ins observed c))"
  shows "selection_consistent s c ins oid observed"
proof -
  let ?d = "bump_case (select_change oid ins observed c)"
  have find: "find_work t = find_work s" by (simp add: find_work_def fun_eq_iff works)
  have "input_format_ok s (select_change oid ins observed c) x = input_format_ok t ?d x" for x
    by (simp add: input_format_ok_def find select_change_def cong: option.case_cong)
  moreover have "\<forall>x \<in> set ins. input_format_ok t ?d x" using auth by (simp add: case_authority_ok_def select_change_def)
  moreover have raw: "\<not> (c_observed_origin ?d = Some Selected_origin \<and> c_inputs ?d = [])"
    "case c_delivery_pending ?d of None \<Rightarrow> True | Some ids \<Rightarrow> c_observed_origin ?d = Some Selected_origin \<and> set ids \<subseteq> input_ids ?d"
    "case c_delivery_observed ?d of None \<Rightarrow> True | Some obs \<Rightarrow> c_observed_origin ?d = Some Selected_origin
       \<and> (\<forall>d \<in> set obs. od_work_id d \<in> input_ids ?d \<and> od_work_id d \<notin> set (pending_ids ?d))"
    "case c_visibility_delta ?d of None \<Rightarrow> True | Some ds \<Rightarrow> \<forall>d \<in> set ds. delta_authority_ok t ?d d"
    using auth unfolding case_authority_ok_def by blast+
  moreover have parts: "c_inputs ?d = ins" "c_delivery_pending ?d = c_delivery_pending c"
    "c_delivery_observed ?d = c_delivery_observed c" "c_visibility_delta ?d = c_visibility_delta c"
    "c_observed_origin ?d = (if observed then Some Selected_origin else c_observed_origin c)"
    by (simp_all add: select_change_def)
  moreover have ids: "input_ids ?d = sel_work_id ` set ins" by (simp add: input_ids_def select_change_def)
  moreover have "set (pending_ids c) \<subseteq> sel_work_id ` set ins"
    using raw(2) unfolding parts(2) ids by (auto simp: pending_ids_def split: option.splits)
  moreover have "od_work_id ` set (observed_of_case c) \<subseteq> sel_work_id ` set ins"
    using raw(3) unfolding parts(3) ids by (auto simp: observed_of_case_def split: option.splits)
  moreover have "vd_work_id ` set (case_deltas c) \<subseteq> sel_work_id ` set ins"
    using raw(4) unfolding parts(4) delta_authority_ok_def ids by (auto simp: case_deltas_def split: option.splits)
  moreover have "observed \<or> c_observed_origin c = Some Selected_origin \<Longrightarrow> ins \<noteq> []"
    using raw(1) unfolding parts by (auto split: if_splits)
  ultimately show ?thesis unfolding selection_consistent_def by blast
qed

lemma publishable_needed:
  assumes req: "requested sha s p cmd fresh" and res: "commit sha s p cmd observed fresh = Inr (t, r)" and ok: "control_ok sha t"
  shows "publishable s p cmd observed"
proof -
  obtain n e i where n: "apply_command sha (upgrade cmd observed s) p cmd observed fresh = Inr (n, e, i)"
    and t: "t = n\<lparr>cs_revision := cs_revision s + 1, cs_receipts := cs_receipts s @ [r]\<rparr>"
    by (rule commit_InrD [OF res])
  show ?thesis
  proof (cases cmd)
    case (Register_task_work k ws oid fmt it areas m)
    then have "n = add_work (new_work (m_task_id m) p ws oid fmt it areas [] (Some m)) (upgrade cmd observed s)"
      using n by (auto simp del: upgrade.simps split: if_splits)
    then have "all_ids t = map w_id (cs_works s) @ [m_task_id m] @ map c_id (cs_cases s) @ map n_id (cs_notes s)"
      by (simp add: all_ids_def t add_work_def new_work_def del: upgrade.simps)
    moreover have "distinct (all_ids t)" using control_okD(4) [OF ok] by (simp add: live_unique_def unique_by_def)
    ultimately show ?thesis by (auto simp: publishable_def Register_task_work all_ids_def)
  next
    case (Claim_target k tg ms)
    then have "n = add_case (new_case (upgrade cmd observed s) fresh p tg ms observed) (upgrade cmd observed s)"
      using n by (auto simp del: upgrade.simps split: if_splits)
    then have "new_case (upgrade cmd observed s) fresh p tg ms observed \<in> set (cs_cases t)" by (simp add: t add_case_def)
    then have "case_ok (new_case (upgrade cmd observed s) fresh p tg ms observed)" using control_members(2) [OF ok] by blast
    then show ?thesis by (simp add: publishable_def Claim_target case_ok_def new_case_def parents_ok_def list_ok_def del: uniq.simps)
  next
    case (Post_note k x nk tx ps)
    let ?u = "upgrade cmd observed s"
    have "n = add_note (new_note ?u fresh p x nk tx ps) ?u"
      using n Post_note by (auto simp: andThen_Inr_iff simp del: upgrade.simps)
    then have "new_note ?u fresh p x nk tx ps \<in> set (cs_notes t)" by (simp add: t add_note_def)
    then have "note_ok (new_note ?u fresh p x nk tx ps)" using control_members(3) [OF ok] by blast
    moreover have "note_readers ?u x = note_readers s x" by (simp add: note_readers_def del: upgrade.simps split: subject_kind.split)
    ultimately show ?thesis
      by (auto simp: publishable_def Post_note note_ok_def new_note_def parents_ok_def list_ok_def simp del: upgrade.simps split: option.split)
  next
    case (Select_inputs k i' rv g oid ins)
    have s: "control_ok sha s" using req by (simp add: requested_def)
    have n': "apply_command sha s p (Select_inputs k i' rv g oid ins) observed fresh = Inr (n, e, i)"
      using n by (simp add: Select_inputs)
    then have ch: "changed_case s i' (select_change oid ins observed) = Inr (n, e, i)"
      unfolding apply_command.simps apply_case.simps andThen_Inr_iff guard_fail_Inr idle_Inr by (elim exE conjE)
    have "selection_consistent s c ins oid observed" if c: "find_case s i' = Some c" for c
    proof (rule selection_needed [OF c])
      have cases: "cs_cases t = map (\<lambda>c. if c_id c = i' then bump_case (select_change oid ins observed c) else c) (cs_cases s)"
        using ch by (auto simp: changed_case_def t change_case_eq [OF s])
      show "cs_works t = cs_works s" using ch by (auto simp: changed_case_def t change_case_def)
      have "bump_case (select_change oid ins observed c) \<in> set (cs_cases t)"
        using c find_case_iff [OF s] by (auto simp: cases)
      then show "case_authority_ok t (bump_case (select_change oid ins observed c))" by (rule control_okD(6) [OF ok])
    qed
    then show ?thesis by (simp add: publishable_def Select_inputs split: option.split)
  qed (simp_all add: publishable_def)
qed

lemma commit_accepted_iff:
  assumes "requested sha s p cmd fresh" and "commit sha s p cmd observed fresh = Inr (t, r)"
  shows "control_ok sha t = publishable s p cmd observed" "publishable s p cmd observed \<Longrightarrow> assertControlTransition sha s t = Inr ()"
  using publishable_needed [OF assms] commit_keeps_control_ok [OF _ assms(2)] commit_may_follow [OF _ assms(2)] assms(1)
  by (auto simp: committing_iff)

lemma execute_accepted_iff:
  assumes "control_ok sha s" "sha_hex sha" "int (cs_revision s + 1) \<le> MAX_SAFE_INTEGER" "fresh_id s fresh"
    and d: "parentId actor = Inr p" "decodeCommand raw = Inr cmd"
    and res: "execute sha auth m0 s0 m s actor raw versions observed fresh = Inr (Publication t r)"
  shows "control_ok sha t = publishable s p cmd observed" "publishable s p cmd observed \<Longrightarrow> assertControlTransition sha s t = Inr ()"
proof -
  obtain guard where run: "executeCommand sha m s p cmd versions guard observed fresh = Inr (Publication t r)"
    using execute_Inr [OF res] d by auto
  note out = executeCommand_Publication [OF run]
  have "requested sha s p cmd fresh"
    using assms(1-4) d out(2) decodeCommand_sound [OF d(2)] by (simp add: requested_def identity_Inr)
  from commit_accepted_iff [OF this out(1)]
  show "control_ok sha t = publishable s p cmd observed" "publishable s p cmd observed \<Longrightarrow> assertControlTransition sha s t = Inr ()" by blast+
qed

section \<open>Observed cases\<close>

lemma case_follows:
  assumes "assertControlTransition sha s t = Inr ()" and "c \<in> set (cs_cases s)" and "cs_recoveries t = cs_recoveries s"
  shows "case_transition sha s t None c = Inr ()"
proof -
  have "appended (cs_recoveries s) (cs_recoveries t) = None" by (simp add: assms(3) appended_def)
  moreover from assms(1) have "each_res (case_transition sha s t (appended (cs_recoveries s) (cs_recoveries t))) (cs_cases s) = Inr ()"
    by (simp only: assertControlTransition_def Let_def andThen_checks)
  ultimately show ?thesis using assms(2) by (simp add: each_res_Inr)
qed

text \<open>What a change of one observed case by the service leaves, before it is known to be accepted.\<close>

lemma changed_case_shape:
  assumes op: "operating sha s p k" and res: "record_change (change_case i f s) p k h a (case_subject i) i = Inr (Publication t r)"
    and hash: "parent_ok h" and c: "find_case s i = Some c" and f: "\<And>c. c_id (f c) = c_id c"
  shows "ordinary_step s t r" "find_case t i = Some (f c)" "cs_recoveries t = cs_recoveries s" "rc_action r = a" "rc_item_id r = i"
proof -
  note op' = operatingD [OF op] and cm = case_members [OF operatingD(1) [OF op] c]
  from res have t: "t = (change_case i f s)\<lparr>cs_revision := cs_revision s + 1, cs_receipts := cs_receipts s @ [r]\<rparr>"
    and r: "rc_action r = a" "rc_item_id r = i"
    by (simp_all add: record_change_Inr change_case_def)
  show "rc_action r = a" "rc_item_id r = i" by (fact r)+
  have fit: "fits sha s t r"
    by (rule record_change_fits [OF op res _ hash]) (simp_all add: subject_ok_def cm(3))
  show "ordinary_step s t r" by (rule fitsD(2) [OF fit])
  have "cs_cases t = map (\<lambda>c. if c_id c = i then f c else c) (cs_cases s)" by (simp add: t change_case_eq [OF op'(1)])
  then have "find_case t i = map_option (\<lambda>c. if c_id c = i then f c else c) (find_case s i)"
    unfolding find_case_def by (simp add: find_map_upd f)
  moreover have "c_id c = i" using find_case_iff [OF op'(1)] c by simp
  ultimately show "find_case t i = Some (f c)" using c by simp
  show "cs_recoveries t = cs_recoveries s" by (simp add: t change_case_def)
qed

lemma extended_case_id [simp]: "c_id (extended_case ms ws w c) = c_id c"
  by (simp add: extended_case_def)

lemma extension_accepted_iff:
  assumes ok: "control_ok sha s" and hex: "sha_hex sha" and max: "int (cs_revision s + 1) \<le> MAX_SAFE_INTEGER"
    and res: "extendObservedCase sha m s (JStr p) i = Inr (Publication t r)"
    and c: "xi_case_id i = JStr ci" "find_case s ci = Some c"
  shows "(control_ok sha t \<and> assertControlTransition sha s t = Inr ()) = extension_room c"
proof
  assume "extension_room c"
  then show "control_ok sha t \<and> assertControlTransition sha s t = Inr ()"
    by (intro extend_accepted [OF ok hex max res]) (use c in auto)
next
  assume t: "control_ok sha t \<and> assertControlTransition sha s t = Inr ()"
  obtain k ci' new c' selected added h where k: "parent_ok p" "key_ok k" "key_unused s p k" and ci': "xi_case_id i = JStr ci'"
    and own: "ownCase s p ci' (xi_expected_revision i) (xi_generation i) = Inr c'"
    and h: "h = owner_command_hash sha p (extend_observed_json k ci' (xi_expected_revision i) (xi_generation i) new (Some (xi_target_oid i)))"
    and change: "record_change (change_case (c_id c') (extended_case (uniq (c_members c' @ [w_owner added])) selected added) s) p k h
       A_extend_observed_case (case_subject (c_id c')) (c_id c') = Inr (Publication t r)"
    by (rule extend_Inr [OF res]) blast
  let ?f = "extended_case (uniq (c_members c' @ [w_owner added])) selected added"
  have same: "c' = c" "c_id c = ci" using ci' c ownCase_InrD [OF own] find_case_iff [OF ok] by auto
  have op: "operating sha s p k" using ok hex k max by (simp add: operating_def)
  have hash: "parent_ok h" unfolding h by (rule owner_command_hash_ok [OF hex])
  note shape = changed_case_shape [OF op change [unfolded same] hash c(2) extended_case_id]
  have mem: "c \<in> set (cs_cases s)" using find_case_iff [OF ok] c(2) by simp
  have "?f c \<in> set (cs_cases t)" using t shape(2) find_case_iff same by metis
  then have "case_ok (?f c)" using t control_members(2) by blast
  then have "length (c_inputs c) < MAX_PARTIES" by (simp add: case_ok_def extended_case_def entities_ok_def list_ok_def)
  moreover have "case_transition sha s t None c = Inr ()" using t case_follows mem shape(3) by blast
  then have "extension_transition sha s t r c (?f c) = Inr ()"
    using shape(2,4,5) same by (simp add: case_transition_def appended_action_ordinary [OF shape(1)] andThen_Inr_iff)
  then have "spread_in_order c"
    by (auto simp: extension_transition_def Let_def andThen_Inr_iff guard_fail_Inr split: option.splits)
  ultimately show "extension_room c" by (simp add: extension_room_def)
qed

definition delivery_clear :: "control_state \<Rightarrow> string \<Rightarrow> delivery_input \<Rightarrow> case_rec \<Rightarrow> bool" where
  "delivery_clear s p i c = (delivery_key_new s p i \<and> parent_ok (yi_digest i) \<and> delivery_room c)"

lemma delivery_accepted_iff:
  assumes ok: "control_ok sha s" and hex: "sha_hex sha" and max: "int (cs_revision s + 1) \<le> MAX_SAFE_INTEGER"
    and res: "observeCaseDelivery sha s (JStr p) i guard = Inr (Publication t r)"
    and c: "yi_case_id i = JStr ci" "find_case s ci = Some c"
  shows "(control_ok sha t \<and> assertControlTransition sha s t = Inr ()) = delivery_clear s p i c"
proof -
  obtain k ci' w c' h where k: "parent_ok p" "key_ok k" "receipt_for s p k = None" "yi_operation_key i = JStr k"
    and ci: "yi_case_id i = JStr ci'"
    and h: "h = owner_command_hash sha p (observe_delivery_json k ci' (yi_case_revision i) (yi_generation i) w (yi_digest i))"
    and found: "List.find (\<lambda>c. c_id c = ci' \<and> c_state c = Active) (cs_cases s) = Some c'"
    and exp: "delivery_expected p (yi_case_revision i) (yi_generation i) w c'"
    and change: "record_change (change_case ci' (delivered_case w (yi_digest i)) s) p k h A_observe_case_delivery (case_subject ci') ci'
       = Inr (Publication t r)"
    by (rule deliver_Inr [OF res])
  have same: "ci' = ci" "c_id c = ci" "c \<in> set (cs_cases s)" using ci c find_case_iff [OF ok] by auto
  have "find_case s ci = Some c'" unfolding find_case_iff [OF ok] using find_SomeD [OF found] same(1) by simp
  then have "c' = c" using c(2) by simp
  note cm = case_members [OF ok c(2)]
  show ?thesis
  proof
    assume "delivery_clear s p i c"
    then show "control_ok sha t \<and> assertControlTransition sha s t = Inr ()"
      by (intro deliver_accepted [OF ok hex max _ _ _ res]) (use c in \<open>auto simp: delivery_clear_def\<close>)
  next
    assume t: "control_ok sha t \<and> assertControlTransition sha s t = Inr ()"
    let ?f = "delivered_case w (yi_digest i)"
    have st: "cs_receipts t = cs_receipts s @ [r]" "cs_recoveries t = cs_recoveries s" "cs_events t = cs_events s"
      "rc_owner r = p" "rc_key r = k"
      using change same by (auto simp: record_change_Inr change_case_def)
    have "distinct (operation_names t)" using control_okD(2) t by (auto simp: version_features_ok_def unique_by_def)
    then have key: "\<not> recovery_key s p k" "\<not> event_key s p k"
      by (auto simp: operation_names_def st recovery_key_def event_key_def)
    then have new: "delivery_key_new s p i" using k(4) by (simp add: delivery_key_new_def)
    have "key_unused s p k" using k(3) key by (auto simp: key_unused_def receipt_for_def recovery_key_def event_key_def find_None_iff_all)
    then have op: "operating sha s p k" using ok hex k max by (simp add: operating_def)
    have hash: "parent_ok h" unfolding h by (rule owner_command_hash_ok [OF hex])
    note shape = changed_case_shape [OF op change [unfolded same(1)] hash c(2) delivered_case_fields(1)]
    have "?f c \<in> set (cs_cases t)" using t shape(2) find_case_iff by blast
    then have "case_ok (?f c)" using t control_members(2) by blast
    then have digest: "parent_ok (yi_digest i)" and "length (observed_of_case c) < MAX_PARTIES"
      by (simp_all add: case_ok_def delivered_case_def observeds_ok_def list_ok_def observed_ok_def)
    moreover have "case_transition sha s t None c = Inr ()" using t case_follows same(3) shape(3) by blast
    then have "observation_transition_ok sha s t r c (?f c)"
      using shape(2,4,5) same by (simp add: case_transition_def appended_action_ordinary [OF shape(1)] andThen_Inr_iff guard_fail_Inr)
    then have "spread_in_order c" by (simp add: observation_transition_ok_def split: option.splits)
    ultimately show "delivery_clear s p i c" using new digest by (simp add: delivery_clear_def delivery_room_def)
  qed
qed

section \<open>The records of the service\<close>

definition store_accepts :: "(string \<Rightarrow> string) \<Rightarrow> control_state \<Rightarrow> control_state \<Rightarrow> bool" where
  "store_accepts sha s t = (control_ok sha t \<and> assertControlTransition sha s t = Inr ())"

text \<open>From a record without submissions, what the operations of the service publish and the store
  accepts.\<close>

inductive recorded :: "(string \<Rightarrow> string) \<Rightarrow> control_state \<Rightarrow> bool" for sha where
  start: "control_ok sha s \<Longrightarrow> cs_events s = [] \<Longrightarrow> recorded sha s"
| command: "recorded sha s \<Longrightarrow> execute sha auth m0 s0 m s actor raw versions observed fresh = Inr (Publication t r)
    \<Longrightarrow> store_accepts sha s t \<Longrightarrow> recorded sha t"
| extension: "recorded sha s \<Longrightarrow> extendObservedCase sha m s (JStr p) i = Inr (Publication t r) \<Longrightarrow> store_accepts sha s t \<Longrightarrow> recorded sha t"
| delivery: "recorded sha s \<Longrightarrow> observeCaseDelivery sha s (JStr p) y guard = Inr (Publication t r) \<Longrightarrow> store_accepts sha s t \<Longrightarrow> recorded sha t"
| recovery: "recorded sha s \<Longrightarrow> recoverAuthorized sha m s actor raw = Inr (Publication t q) \<Longrightarrow> store_accepts sha s t \<Longrightarrow> recorded sha t"
| submission: "recorded sha s \<Longrightarrow> submission_operation sha s actor req = Inr (Publication t x) \<Longrightarrow> store_accepts sha s t \<Longrightarrow> recorded sha t"

definition submissions_kept :: "control_state \<Rightarrow> control_state \<Rightarrow> bool" where
  "submissions_kept s t = (cs_events t = cs_events s \<and> cs_announcements t = cs_announcements s \<and> cs_bindings t = cs_bindings s)"

lemma kept_subjects: "submissions_kept s t \<Longrightarrow> event_subjects_ok s \<Longrightarrow> event_subjects_ok t"
  by (simp add: submissions_kept_def event_subjects_ok_def event_subject_ok_def)

lemma execute_keeps_submissions:
  assumes "execute sha auth m0 s0 m s actor raw versions observed fresh = Inr (Publication t r)"
  shows "submissions_kept s t"
proof -
  obtain p cmd guard where "executeCommand sha m s p cmd versions guard observed fresh = Inr (Publication t r)"
    by (rule execute_Inr [OF assms])
  from executeCommand_Publication(1) [OF this] obtain n where "t = n\<lparr>cs_revision := cs_revision s + 1, cs_receipts := cs_receipts s @ [r]\<rparr>"
    "same_rest (upgrade cmd observed s) n" by (rule commit_InrD)
  then show ?thesis by (simp add: submissions_kept_def same_rest_def)
qed

lemma change_keeps_submissions: "record_change (change_case i f s) p k h a e j = Inr (Publication t r) \<Longrightarrow> submissions_kept s t"
  by (auto simp: record_change_Inr submissions_kept_def change_case_def)

lemma recovery_keeps_submissions:
  assumes "recoverAuthorized sha m s actor raw = Inr (Publication t q)"
  shows "submissions_kept s t"
proof -
  obtain p cmd n where "applyRecovery sha (recovery_upgrade s) cmd = Inr n"
    "checked_publication (n\<lparr>cs_revision := cs_revision n + 1, cs_recoveries := cs_recoveries n @ [q]\<rparr>) q = Inr (Publication t q)"
    using assms unfolding recoverAuthorized_def recovered_record_def andThen_Inr_iff guard_fail_Inr Let_def
    by (elim exE conjE) (auto simp: andThen_Inr_iff guard_fail_Inr checked_publication_def split: option.splits if_splits)
  then show ?thesis
    by (auto simp: applyRecovery_def checked_publication_def submissions_kept_def recovery_upgrade_def change_work_def change_case_def andThen_Inr_iff
        split: option.splits if_splits)
qed

lemma announce_needs_room:
  assumes "control_ok sha t" and res: "submission_operation sha s actor req = Inr (Publication t x)"
  shows "announcement_room s req"
proof (cases req)
  case (Announce_request v)
  with res obtain p i z where "announce sha s p i = Inr (Publication t z)"
    by (auto simp: submission_operation_def andThen_Inr_iff requested_Inr announce_request_def guard_fail_Inr)
  then have "cs_announcements t = cs_announcements s @ [new_announcement p i]" "cs_limits t = cs_limits s"
    by (auto simp: announce_def Let_def andThen_Inr_iff checked_publication_def appendSubmissionEvent_def submissionState_def guard_fail_Inr replayed_def
        split: option.splits if_splits)
  moreover have "length (cs_announcements t) \<le> lim_works (cs_limits t)"
    using control_okD(1) [OF assms(1)] by (simp add: control_records_ok_def list_ok_def)
  ultimately show ?thesis by (simp add: announcement_room_def Announce_request)
qed (simp_all add: announcement_room_def)

lemma accepted_revision: "store_accepts sha s t \<Longrightarrow> int (cs_revision s + 1) \<le> MAX_SAFE_INTEGER"
  using transition_frame [of sha s t] control_okD(1) [of sha t]
  by (auto simp: store_accepts_def control_records_ok_def)

lemma recorded_ok: "recorded sha s \<Longrightarrow> sha_hex sha \<Longrightarrow> control_ok sha s \<and> event_subjects_ok s"
proof (induction rule: recorded.induct)
  case (extension s m p i t r)
  then show ?case using kept_subjects [OF change_keeps_submissions] by (auto elim!: extend_Inr simp: store_accepts_def)
next
  case (delivery s p y guard t r)
  then show ?case using kept_subjects [OF change_keeps_submissions] by (auto elim!: deliver_Inr simp: store_accepts_def)
next
  case (submission s actor req t x)
  have "control_ok sha t" using submission.hyps(3) by (simp add: store_accepts_def)
  from announce_needs_room [OF this submission.hyps(2)] show ?case
    using operation_accepted [OF _ _ submission.prems accepted_revision [OF submission.hyps(3)] _ submission.hyps(2)] submission by blast
next
  case (command s auth m0 s0 m actor raw versions observed fresh t r)
  then show ?case using kept_subjects [OF execute_keeps_submissions [OF command.hyps(2)]] by (simp add: store_accepts_def)
next
  case (recovery s m actor raw t q)
  then show ?case using kept_subjects [OF recovery_keeps_submissions [OF recovery.hyps(2)]] by (simp add: store_accepts_def)
qed (simp add: event_subjects_ok_def)

lemma submission_accepted_iff:
  assumes "recorded sha s" "sha_hex sha" "int (cs_revision s + 1) \<le> MAX_SAFE_INTEGER"
    and res: "submission_operation sha s actor req = Inr (Publication t x)"
  shows "store_accepts sha s t = announcement_room s req"
proof -
  have ok: "control_ok sha s" "event_subjects_ok s" using recorded_ok [OF assms(1,2)] by auto
  show ?thesis
    using operation_accepted [OF ok assms(2,3) _ res] operation_follows [OF ok(1) res] announce_needs_room [OF _ res]
    by (auto simp: store_accepts_def)
qed

end
