(* ===== verification/Shown_Overlaps.thy ===== *)
theory Shown_Overlaps
  imports Control_Reads
begin

text \<open>
  The overlaps that an actor is shown (\<open>overlaps\<close> in src/src/coordination/control.ts): exactly the
  readable active works that share a path with the work asked about, each once, with the areas
  that share it.
\<close>

text \<open>What an actor is shown of a work: its areas that share a path with one of the work asked about.\<close>

definition areas_in_common :: "work \<Rightarrow> work \<Rightarrow> region list" where
  "areas_in_common w target = shared_areas (w_areas w) (w_areas target)"

lemma areas_in_common_paths:
  "areas_in_common w target = filter (\<lambda>a. \<exists>b \<in> set (w_areas target). \<exists>q. covers a q \<and> covers b q) (w_areas w)"
  by (simp add: areas_in_common_def shared_areas_def overlap_common_path)

lemma overlaps_Inr:
  assumes "overlaps sha s (JStr p) (JStr j) = Inr xs"
  obtains target where "find_work s j = Some target" "canReadSelectedWork sha s p target" "xs = disclosed_overlaps sha s p j (w_areas target)"
  using assms by (auto simp: overlaps_def visibleWork_def andThen_Inr_iff identity_Inr split: option.split_asm if_split_asm)

lemma disclosed_overlaps_iff:
  "(i, areas) \<in> set (disclosed_overlaps sha s p j (w_areas target)) \<longleftrightarrow>
    (\<exists>w \<in> set (cs_works s). w_id w = i \<and> i \<noteq> j \<and> w_state w = Active \<and> canReadSelectedWork sha s p w
      \<and> areas = areas_in_common w target \<and> areas \<noteq> [])"
  by (auto simp: disclosed_overlaps_def areas_in_common_def)

lemma disclosed_overlaps_once: "distinct (map w_id (cs_works s)) \<Longrightarrow> distinct (map fst (disclosed_overlaps sha s p j areas))"
proof -
  assume d: "distinct (map w_id (cs_works s))"
  let ?f = "\<lambda>w. (w_id w, shared_areas (w_areas w) areas)"
  let ?ys = "map ?f (filter (\<lambda>w. w_id w \<noteq> j \<and> w_state w = Active \<and> canReadSelectedWork sha s p w) (cs_works s))"
  have "distinct (map fst ?ys)" using d by (simp add: comp_def distinct_map_filter)
  then show ?thesis unfolding disclosed_overlaps_def by (rule distinct_map_filter)
qed

lemma readable_reason:
  assumes "canReadSelectedWork sha s p w"
  shows "w_owner w = p \<or> p \<in> set (w_readers w) \<or> (\<exists>c \<in> set (cs_cases s). c_state c = Active \<and> p \<in> set (c_members c)
    \<and> w_id w \<in> input_ids c \<and> (\<exists>d \<in> set (case_deltas c). vd_work_id d = w_id w \<and> vd_work_revision d = w_revision w \<and> p \<in> set (vd_added_readers d)))"
  using assms by (auto simp: canReadSelectedWork_def canReadWork_def delta_shares_def)

lemma overlaps_exact:
  assumes "distinct (map w_id (cs_works s))" and "overlaps sha s (JStr p) (JStr j) = Inr xs"
  shows "\<exists>target \<in> set (cs_works s). w_id target = j \<and> canReadSelectedWork sha s p target \<and> distinct (map fst xs)
    \<and> (\<forall>i areas. (i, areas) \<in> set xs \<longleftrightarrow> areas \<noteq> [] \<and> (\<exists>w \<in> set (cs_works s). w_id w = i \<and> i \<noteq> j \<and> w_state w = Active
        \<and> canReadSelectedWork sha s p w
        \<and> areas = filter (\<lambda>a. \<exists>b \<in> set (w_areas target). \<exists>q. covers a q \<and> covers b q) (w_areas w)))"
proof (rule overlaps_Inr [OF assms(2)])
  fix target
  assume t: "find_work s j = Some target" "canReadSelectedWork sha s p target" "xs = disclosed_overlaps sha s p j (w_areas target)"
  have target: "target \<in> set (cs_works s)" "w_id target = j" using find_SomeD [OF t(1) [unfolded find_work_def]] by simp_all
  have once: "distinct (map fst xs)" unfolding t(3) by (rule disclosed_overlaps_once [OF assms(1)])
  have "(i, areas) \<in> set xs \<longleftrightarrow> areas \<noteq> [] \<and> (\<exists>w \<in> set (cs_works s). w_id w = i \<and> i \<noteq> j \<and> w_state w = Active
      \<and> canReadSelectedWork sha s p w \<and> areas = areas_in_common w target)" for i areas
    unfolding t(3) disclosed_overlaps_iff by blast
  then show ?thesis unfolding areas_in_common_paths using target t(2) once by (intro bexI [OF _ target(1)] conjI allI) simp_all
qed

end
