(* ===== verification/Structural_Match.thy ===== *)
theory Structural_Match
  imports Control_Text "HOL-Library.Multiset"
begin

text \<open>
  Structural comparison of two captures of a source file (src/src/observation/model.ts and
  src/src/observation/match.ts): declarations of the same subject are paired when their
  correspondence is unique, and everything left over is reported as removed, added,
  ambiguous or unobserved. Declarations and captures come from the extraction helper.
\<close>

section \<open>Captured values\<close>

datatype source_identity =
    Git_source string object_format string string string
  | Working_source string object_format string nat string nat string string

fun source_repository :: "source_identity \<Rightarrow> string" where
  "source_repository (Git_source r f c t p) = r"
| "source_repository (Working_source r f w g c n h p) = r"

fun source_format :: "source_identity \<Rightarrow> object_format" where
  "source_format (Git_source r f c t p) = f"
| "source_format (Working_source r f w g c n h p) = f"

fun source_path :: "source_identity \<Rightarrow> string" where
  "source_path (Git_source r f c t p) = p"
| "source_path (Working_source r f w g c n h p) = p"

datatype source_status = Present | Absent_in_commit | Missing_during_capture | Non_source
datatype entry_kind = Symlink | Submodule | Directory_entry | Special
datatype consistency = Immutable_git_blob | Sampled_file

record source_reference =
  sr_source :: source_identity
  sr_status :: source_status
  sr_sha :: "string option"
  sr_bytes :: "int option"
  sr_consistency :: "consistency option"
  sr_mode :: "string option"
  sr_entry :: "entry_kind option"
  sr_object :: "string option"

datatype annotation = Declared string | Not_declared | Unavailable_annotation

record decl =
  d_key :: string
  d_kind :: string
  d_name :: "string option"
  d_enclosing :: "string list"
  d_start :: int
  d_end :: int
  d_signature :: string
  d_parameters :: "string list"
  d_result :: annotation
  d_header_complete :: bool
  d_body :: "string option"
  d_defaults :: "string list"

datatype extent = Complete_extent | Incomplete_extent | Unavailable_extent

record extraction =
  x_dialect :: string
  x_parser :: string
  x_extractor :: string
  x_source :: source_reference
  x_coverage :: extent
  x_declarations :: "decl list"
  x_remainder :: "string option"
  x_limitations :: "string list"

datatype change_kind = Modified | Added | Removed | Ambiguous_change | Unobserved
datatype correspondence = Unique_syntax | Unmatched | Ambiguous_match

record declaration_change =
  dc_kind :: change_kind
  dc_correspondence :: correspondence
  dc_input :: "decl option"
  dc_observed :: "decl option"
  dc_declaration :: bool
  dc_body :: bool
  dc_default :: bool

record structural_comparison =
  sc_input :: source_reference
  sc_observed :: source_reference
  sc_dialect :: string
  sc_parser :: string
  sc_extractor :: string
  sc_coverage :: extent
  sc_changes :: "declaration_change list"
  sc_region_changed :: bool
  sc_limitations :: "string list"

section \<open>Keys of a declaration\<close>

definition annotation_json :: "annotation \<Rightarrow> jval" where
  "annotation_json a = (case a of
     Declared s \<Rightarrow> JObj [(''state'', JStr ''declared''), (''syntax'', JStr s)]
   | Not_declared \<Rightarrow> JObj [(''state'', JStr ''not_declared'')]
   | Unavailable_annotation \<Rightarrow> JObj [(''state'', JStr ''unavailable'')])"

definition header :: "decl \<Rightarrow> string" where
  "header d = stringify (JArr [JStr (d_kind d), oid_json (d_name d), jstrs (d_enclosing d), JStr (d_signature d),
     jstrs (d_parameters d), annotation_json (d_result d)])"

definition subject_key :: "decl \<Rightarrow> string" where
  "subject_key d = stringify (JArr [JStr (d_kind d), oid_json (d_name d), jstrs (d_enclosing d)])"

definition sameDefaults :: "decl \<Rightarrow> decl \<Rightarrow> bool" where
  "sameDefaults a b = (stringify (jstrs (d_defaults a)) = stringify (jstrs (d_defaults b)))"

definition source_statuses :: "(string \<times> source_status) list" where
  "source_statuses = [(''present'', Present), (''absent_in_commit'', Absent_in_commit),
     (''missing_during_capture'', Missing_during_capture), (''non_source'', Non_source)]"
definition entry_kinds :: "(string \<times> entry_kind) list" where
  "entry_kinds = [(''symlink'', Symlink), (''submodule'', Submodule), (''directory'', Directory_entry), (''special'', Special)]"

text \<open>An \<open>undefined\<close> element of an array prints as \<open>null\<close>.\<close>

definition undefined_json :: "('a \<Rightarrow> jval) \<Rightarrow> 'a option \<Rightarrow> jval" where
  "undefined_json f x = (case x of None \<Rightarrow> JUndef | Some y \<Rightarrow> f y)"

definition sourceValue :: "source_reference \<Rightarrow> string" where
  "sourceValue s = stringify (JArr [literal source_statuses (sr_status s), undefined_json JStr (sr_sha s),
     undefined_json JStr (sr_mode s), undefined_json (literal entry_kinds) (sr_entry s), undefined_json JStr (sr_object s)])"

section \<open>Well-formed extractions\<close>

definition EXTRACTION_INVALID :: string where "EXTRACTION_INVALID = ''STRUCTURAL_EXTRACTION_INVALID''"
definition PAIR_INVALID :: string where "PAIR_INVALID = ''STRUCTURAL_PAIR_INVALID''"

definition safe_integer :: "int \<Rightarrow> bool" where "safe_integer i = (abs i \<le> MAX_SAFE_INTEGER)"

definition declaration_ok :: "int option \<Rightarrow> decl \<Rightarrow> bool" where
  "declaration_ok bytes d = (d_key d \<noteq> [] \<and> safe_integer (d_start d) \<and> safe_integer (d_end d) \<and> 0 \<le> d_start d
     \<and> d_start d \<le> d_end d \<and> (case bytes of None \<Rightarrow> False | Some n \<Rightarrow> d_end d \<le> n))"

fun inspect_declarations :: "int option \<Rightarrow> string list \<Rightarrow> decl list \<Rightarrow> unit res" where
  "inspect_declarations bytes seen [] = Inr ()"
| "inspect_declarations bytes seen (d # ds) =
     andThen (guard_fail (d_key d \<in> set seen \<or> \<not> declaration_ok bytes d) EXTRACTION_INVALID) (\<lambda>_.
     inspect_declarations bytes (d_key d # seen) ds)"

definition inspect_extraction :: "extraction \<Rightarrow> unit res" where
  "inspect_extraction x =
     andThen (inspect_declarations (sr_bytes (x_source x)) [] (x_declarations x)) (\<lambda>_.
     guard_fail (sr_status (x_source x) \<noteq> Present \<and> x_declarations x \<noteq> []) EXTRACTION_INVALID)"

definition complete_extraction :: "extraction \<Rightarrow> bool" where
  "complete_extraction x = (x_coverage x = Complete_extent
     \<and> (sr_status (x_source x) = Present \<or> sr_status (x_source x) = Absent_in_commit))"

section \<open>Pairing\<close>

text \<open>What a step reports: the changes it pushes and the limitations it adds, in order.\<close>

type_synonym outcome = "declaration_change list \<times> string list"

definition both :: "outcome \<Rightarrow> outcome \<Rightarrow> outcome" where
  "both x y = (fst x @ fst y, snd x @ snd y)"

fun all_outcomes :: "outcome list \<Rightarrow> outcome" where
  "all_outcomes [] = ([], [])"
| "all_outcomes (x # xs) = both x (all_outcomes xs)"

definition body_differs :: "decl \<Rightarrow> decl \<Rightarrow> bool" where
  "body_differs a b = (d_body a \<noteq> d_body b \<and> d_body a \<noteq> None \<and> d_body b \<noteq> None)"

definition pair_outcome :: "decl \<Rightarrow> decl \<Rightarrow> outcome" where
  "pair_outcome a b =
     (if \<not> d_header_complete a \<or> \<not> d_header_complete b
      then ([\<lparr>dc_kind = Unobserved, dc_correspondence = Unique_syntax, dc_input = Some a, dc_observed = Some b,
               dc_declaration = False, dc_body = False, dc_default = False\<rparr>], [''declaration_header_incomplete''])
      else
        (let declared = header a \<noteq> header b; body = body_differs a b; def = (\<not> sameDefaults a b) in
         (if declared \<or> body \<or> def
          then [\<lparr>dc_kind = Modified, dc_correspondence = Unique_syntax, dc_input = Some a, dc_observed = Some b,
                  dc_declaration = declared, dc_body = body, dc_default = def\<rparr>] else [],
          if d_body a = None \<or> d_body b = None then [''direct_body_coverage_unavailable''] else [])))"

text \<open>The items of a group whose header is complete and has the given shape (\<open>index\<close>).\<close>

definition shaped :: "decl list \<Rightarrow> string \<Rightarrow> decl list" where
  "shaped ds h = filter (\<lambda>d. d_header_complete d \<and> header d = h) ds"

definition shapes :: "decl list \<Rightarrow> string list" where
  "shapes ds = uniq (map header (filter d_header_complete ds))"

text \<open>Distinct unchanged overloads: shapes that occur exactly once on each side.\<close>

definition shape_pairs :: "decl list \<Rightarrow> decl list \<Rightarrow> (decl \<times> decl) list" where
  "shape_pairs a b = concat (map (\<lambda>h.
     case (shaped a h, shaped b h) of ([x], [y]) \<Rightarrow> [(x, y)] | _ \<Rightarrow> []) (shapes a))"

definition anonymous :: "decl list \<Rightarrow> bool" where
  "anonymous ds = (case ds of [] \<Rightarrow> False | d # _ \<Rightarrow> d_name d = None)"

text \<open>The pairs of one subject, and the declarations of both sides that remain.\<close>

definition paired :: "decl list \<Rightarrow> decl list
    \<Rightarrow> (decl \<times> decl) list \<times> decl list \<times> decl list" where
  "paired a b =
     (if anonymous a \<or> anonymous b then ([], a, b)
      else
        (let ps = shape_pairs a b;
             a1 = filter (\<lambda>d. d \<notin> fst ` set ps) a; b1 = filter (\<lambda>d. d \<notin> snd ` set ps) b in
         case (a1, b1) of ([x], [y]) \<Rightarrow> (ps @ [(x, y)], [], []) | _ \<Rightarrow> (ps, a1, b1)))"

definition left_over :: "bool \<Rightarrow> bool \<Rightarrow> decl \<Rightarrow> declaration_change" where
  "left_over ambiguous whole d =
     (let removed = (\<not> ambiguous \<and> d_header_complete d \<and> whole) in
      \<lparr>dc_kind = (if ambiguous then Ambiguous_change else if removed then Removed else Unobserved),
       dc_correspondence = (if ambiguous then Ambiguous_match else Unmatched), dc_input = Some d, dc_observed = None,
       dc_declaration = removed, dc_body = False, dc_default = False\<rparr>)"

definition right_over :: "bool \<Rightarrow> bool \<Rightarrow> decl \<Rightarrow> declaration_change" where
  "right_over ambiguous whole d =
     (let added = (\<not> ambiguous \<and> d_header_complete d \<and> whole) in
      \<lparr>dc_kind = (if ambiguous then Ambiguous_change else if added then Added else Unobserved),
       dc_correspondence = (if ambiguous then Ambiguous_match else Unmatched), dc_input = None, dc_observed = Some d,
       dc_declaration = added, dc_body = False, dc_default = False\<rparr>)"

definition subject_outcome :: "bool \<Rightarrow> decl list \<Rightarrow> decl list \<Rightarrow> outcome" where
  "subject_outcome whole a b =
     (case paired a b of (ps, a1, b1) \<Rightarrow>
        let ambiguous = (a1 \<noteq> [] \<and> b1 \<noteq> []) in
        both (all_outcomes (map (\<lambda>(x, y). pair_outcome x y) ps))
          (map (left_over ambiguous whole) a1 @ map (right_over ambiguous whole) b1,
           if ambiguous then [''declaration_correspondence_ambiguous''] else []))"

text \<open>The declarations of one subject (\<open>group\<close>).\<close>

definition group_of :: "decl list \<Rightarrow> string \<Rightarrow> decl list" where
  "group_of ds k = filter (\<lambda>d. subject_key d = k) ds"

definition subject_keys :: "decl list \<Rightarrow> decl list \<Rightarrow> string list" where
  "subject_keys a b = js_sort (uniq (map subject_key a @ map subject_key b))"

section \<open>Comparison\<close>

definition same_contract :: "extraction \<Rightarrow> extraction \<Rightarrow> bool" where
  "same_contract a b =
     (source_repository (sr_source (x_source a)) = source_repository (sr_source (x_source b))
    \<and> source_format (sr_source (x_source a)) = source_format (sr_source (x_source b))
    \<and> source_path (sr_source (x_source a)) = source_path (sr_source (x_source b))
    \<and> x_dialect a = x_dialect b \<and> x_parser a = x_parser b \<and> x_extractor a = x_extractor b)"

definition unknown_body :: "extraction \<Rightarrow> extraction \<Rightarrow> bool" where
  "unknown_body a b = (\<exists>d \<in> set (x_declarations a @ x_declarations b). d_body d = None)"

definition region_change :: "extraction \<Rightarrow> extraction \<Rightarrow> bool" where
  "region_change a b =
     (sourceValue (x_source a) \<noteq> sourceValue (x_source b)
    \<and> (x_remainder a = None \<or> x_remainder b = None \<or> x_remainder a \<noteq> x_remainder b \<or> unknown_body a b
      \<or> sr_mode (x_source a) \<noteq> sr_mode (x_source b)
      \<or> sr_status (x_source a) = Non_source \<or> sr_status (x_source b) = Non_source))"

definition comparison_limits :: "extraction \<Rightarrow> extraction \<Rightarrow> string list" where
  "comparison_limits a b =
     (if \<not> complete_extraction a \<or> \<not> complete_extraction b then [''comparison_coverage_incomplete''] else [])
   @ (if \<exists>d \<in> set (x_declarations a @ x_declarations b). \<not> d_header_complete d then [''declaration_header_incomplete''] else [])
   @ (if unknown_body a b then [''direct_body_coverage_unavailable''] else [])
   @ (if x_remainder a = None \<or> x_remainder b = None then [''outside_declaration_coverage_unavailable''] else [])"

definition subject_outcomes :: "extraction \<Rightarrow> extraction \<Rightarrow> outcome" where
  "subject_outcomes a b =
     (let whole = (complete_extraction a \<and> complete_extraction b) in
      all_outcomes (map (\<lambda>k. subject_outcome whole (group_of (x_declarations a) k) (group_of (x_declarations b) k))
        (subject_keys (x_declarations a) (x_declarations b))))"

definition comparison_coverage :: "extraction \<Rightarrow> extraction \<Rightarrow> string list \<Rightarrow> extent" where
  "comparison_coverage a b limits =
     (if x_coverage a = Unavailable_extent \<or> x_coverage b = Unavailable_extent
       \<or> sr_status (x_source a) = Missing_during_capture \<or> sr_status (x_source b) = Missing_during_capture
      then Unavailable_extent
      else if \<not> complete_extraction a \<or> \<not> complete_extraction b \<or> limits \<noteq> [] then Incomplete_extent else Complete_extent)"

definition compareExtractions :: "extraction \<Rightarrow> extraction \<Rightarrow> structural_comparison res" where
  "compareExtractions a b =
     andThen (inspect_extraction a) (\<lambda>_. andThen (inspect_extraction b) (\<lambda>_.
     andThen (guard_fail (\<not> same_contract a b) PAIR_INVALID) (\<lambda>_.
     (case subject_outcomes a b of (changes, found) \<Rightarrow>
        let limits = js_sort (uniq (x_limitations a @ x_limitations b @ found @ comparison_limits a b)) in
        Inr \<lparr>sc_input = x_source a, sc_observed = x_source b, sc_dialect = x_dialect a, sc_parser = x_parser a,
          sc_extractor = x_extractor a, sc_coverage = comparison_coverage a b limits, sc_changes = changes,
          sc_region_changed = region_change a b, sc_limitations = limits\<rparr>))))"

end
