(* ===== verification/Structural_Facts.thy ===== *)
theory Structural_Facts
  imports Structural_Match
begin

text \<open>
  What a structural comparison reports: every declaration is accounted for exactly once, a
  removal or an addition is claimed only where the captures are complete and the subject
  lost or gained a declaration, a capture compared with itself shows no edit, and the
  comparison of the swapped captures is the mirror image.
\<close>

section \<open>Keys determine what they are made of\<close>

lemma stringify_eq_iff: "plain v \<Longrightarrow> plain w \<Longrightarrow> (stringify v = stringify w) = (v = w)"
  by (metis json_parse_stringify option.inject)

lemma jstrs_eq [simp]: "(jstrs xs = jstrs ys) = (xs = ys)"
  by (simp add: jstrs_def inj_map_eq_map inj_def)

lemma oid_json_eq [simp]: "(oid_json a = oid_json b) = (a = b)"
  by (simp add: oid_json_def split: option.split)

lemma annotation_json_eq [simp]: "(annotation_json a = annotation_json b) = (a = b)"
  by (simp add: annotation_json_def split: annotation.split)

lemma plain_keys [simp]: "plain (annotation_json a)" "plain (oid_json x)"
  by (simp_all add: annotation_json_def oid_json_def split: annotation.split option.split)

lemma header_eq:
  "(header a = header b) = (d_kind a = d_kind b \<and> d_name a = d_name b \<and> d_enclosing a = d_enclosing b
    \<and> d_signature a = d_signature b \<and> d_parameters a = d_parameters b \<and> d_result a = d_result b)"
  by (simp add: header_def stringify_eq_iff del: stringify.simps)

lemma subject_key_eq:
  "(subject_key a = subject_key b) = (d_kind a = d_kind b \<and> d_name a = d_name b \<and> d_enclosing a = d_enclosing b)"
  by (simp add: subject_key_def stringify_eq_iff del: stringify.simps)

lemma sameDefaults_eq: "sameDefaults a b = (d_defaults a = d_defaults b)"
  by (simp add: sameDefaults_def stringify_eq_iff del: stringify.simps)

section \<open>Pairs of one subject\<close>

lemma shape_pairs_mem:
  "((x, y) \<in> set (shape_pairs a b)) = (\<exists>h. shaped a h = [x] \<and> shaped b h = [y])"
proof
  assume "(x, y) \<in> set (shape_pairs a b)"
  then show "\<exists>h. shaped a h = [x] \<and> shaped b h = [y]"
    by (auto simp: shape_pairs_def split: list.splits)
next
  assume "\<exists>h. shaped a h = [x] \<and> shaped b h = [y]"
  then obtain h where h: "shaped a h = [x]" "shaped b h = [y]" by blast
  then have "x \<in> set (shaped a h)" by simp
  then have "h \<in> set (shapes a)" by (auto simp: shaped_def shapes_def)
  with h show "(x, y) \<in> set (shape_pairs a b)" by (force simp: shape_pairs_def)
qed

lemma shaped_single: "shaped a h = [x] \<Longrightarrow> x \<in> set a \<and> header x = h \<and> d_header_complete x"
proof -
  assume "shaped a h = [x]"
  then have "x \<in> set (shaped a h)" by simp
  then show ?thesis by (simp add: shaped_def)
qed

lemma shape_pairs_member:
  assumes "(x, y) \<in> set (shape_pairs a b)"
  shows "x \<in> set a" "y \<in> set b" "header x = header y" "d_header_complete x" "d_header_complete y"
  using assms shaped_single by (metis shape_pairs_mem)+

lemma shape_pairs_fun:
  "(x, y) \<in> set (shape_pairs a b) \<Longrightarrow> (x, y') \<in> set (shape_pairs a b) \<Longrightarrow> y = y'"
  "(x, y) \<in> set (shape_pairs a b) \<Longrightarrow> (x', y) \<in> set (shape_pairs a b) \<Longrightarrow> x = x'"
  unfolding shape_pairs_mem using shaped_single by (metis list.inject)+

lemma distinct_concat_map:
  assumes "distinct hs" and "\<And>h. h \<in> set hs \<Longrightarrow> distinct (f h)"
    and "\<And>h k x. h \<in> set hs \<Longrightarrow> k \<in> set hs \<Longrightarrow> x \<in> set (f h) \<Longrightarrow> x \<in> set (f k) \<Longrightarrow> h = k"
  shows "distinct (concat (map f hs))"
  using assms
proof (induction hs)
  case (Cons h hs)
  have "set (f h) \<inter> set (concat (map f hs)) = {}"
    using Cons.prems(1,3) by fastforce
  moreover have "distinct (concat (map f hs))"
    by (rule Cons.IH) (use Cons.prems in auto)
  ultimately show ?case using Cons.prems(2) [of h] by simp
qed simp

lemma shape_pairs_distinct: "distinct (map fst (shape_pairs a b))" "distinct (map snd (shape_pairs a b))"
proof -
  let ?f = "\<lambda>h. case (shaped a h, shaped b h) of ([x], [y]) \<Rightarrow> [(x, y)] | _ \<Rightarrow> []"
  have pairs: "shape_pairs a b = concat (map ?f (shapes a))" by (simp add: shape_pairs_def)
  have member: "p \<in> set (?f h) \<Longrightarrow> header (fst p) = h \<and> header (snd p) = h" for p h
    by (auto split: list.splits dest: shaped_single [OF sym])
  have "distinct (concat (map ?f (shapes a)))"
  proof (rule distinct_concat_map)
    show "distinct (?f h)" for h by (simp split: list.split)
  qed (use member in \<open>simp add: shapes_def, blast\<close>)
  then have "distinct (shape_pairs a b)" by (simp add: pairs)
  then show "distinct (map fst (shape_pairs a b))" "distinct (map snd (shape_pairs a b))"
    unfolding distinct_map using shape_pairs_fun by (auto simp: inj_on_def)
qed

lemma mset_filter_split: "mset xs = mset (filter p xs) + mset (filter (\<lambda>x. \<not> p x) xs)"
  by (induction xs) auto

lemma split_by_list:
  assumes "distinct xs" and "distinct ys" and "set ys \<subseteq> set xs"
  shows "mset xs = mset ys + mset (filter (\<lambda>x. x \<notin> set ys) xs)"
proof -
  have ys: "mset (filter (\<lambda>x. x \<in> set ys) xs) = mset ys"
    using assms by (subst set_eq_iff_mset_eq_distinct [symmetric]) auto
  show ?thesis by (subst mset_filter_split [of xs "\<lambda>x. x \<in> set ys"]) (simp only: ys)
qed

lemma paired_accounts:
  assumes "paired a b = (ps, a1, b1)" and "distinct a" "distinct b"
  shows "mset a = mset (map fst ps) + mset a1 \<and> mset b = mset (map snd ps) + mset b1"
proof (cases "anonymous a \<or> anonymous b")
  case True
  with assms(1) show ?thesis by (auto simp: paired_def)
next
  case False
  define qs where "qs = shape_pairs a b"
  define a2 where "a2 = filter (\<lambda>d. d \<notin> fst ` set qs) a"
  define b2 where "b2 = filter (\<lambda>d. d \<notin> snd ` set qs) b"
  have accounts: "mset a = mset (map fst qs) + mset a2" "mset b = mset (map snd qs) + mset b2"
    using split_by_list [OF assms(2) shape_pairs_distinct(1) [of a b]] split_by_list [OF assms(3) shape_pairs_distinct(2) [of a b]]
      shape_pairs_member [of _ _ a b] by (force simp: qs_def a2_def b2_def)+
  have "paired a b = (case (a2, b2) of ([x], [y]) \<Rightarrow> (qs @ [(x, y)], [], []) | _ \<Rightarrow> (qs, a2, b2))"
    unfolding paired_def Let_def qs_def a2_def b2_def using False by simp
  with assms(1) accounts show ?thesis by (auto split: list.split_asm)
qed

lemma paired_members:
  assumes "paired a b = (ps, a1, b1)" and "(x, y) \<in> set ps" and "distinct a" "distinct b"
  shows "x \<in> set a \<and> y \<in> set b"
proof -
  have "set (map fst ps) \<subseteq> set a" "set (map snd ps) \<subseteq> set b"
    using paired_accounts [OF assms(1,3,4)] by (metis mset_subset_eq_add_left set_mset_mono set_mset_mset)+
  with assms(2) show ?thesis by force
qed

section \<open>The changes of one subject\<close>

text \<open>A pair that the comparison does not mention.\<close>

definition unchanged :: "decl \<Rightarrow> decl \<Rightarrow> bool" where
  "unchanged x y = (fst (pair_outcome x y) = [])"

lemma unchanged_iff:
  "unchanged x y = (d_header_complete x \<and> d_header_complete y \<and> header x = header y \<and> sameDefaults x y \<and> \<not> body_differs x y)"
  by (auto simp: unchanged_def pair_outcome_def Let_def)

abbreviation inputs_of :: "declaration_change list \<Rightarrow> decl list" where "inputs_of cs \<equiv> List.map_filter dc_input cs"
abbreviation observed_of :: "declaration_change list \<Rightarrow> decl list" where "observed_of cs \<equiv> List.map_filter dc_observed cs"

lemma map_filter_append [simp]: "List.map_filter f (xs @ ys) = List.map_filter f xs @ List.map_filter f ys"
  by (simp add: map_filter_def)

lemma fst_all_outcomes: "fst (all_outcomes xs) = concat (map fst xs)"
  and snd_all_outcomes: "snd (all_outcomes xs) = concat (map snd xs)"
  by (induction xs) (simp_all add: both_def)

lemma pair_change:
  "c \<in> set (fst (pair_outcome x y)) \<Longrightarrow> dc_input c = Some x \<and> dc_observed c = Some y \<and> dc_kind c \<in> {Modified, Unobserved}"
  by (auto simp: pair_outcome_def Let_def split: if_split_asm)

lemma pair_filter:
  "inputs_of (fst (pair_outcome x y)) = (if unchanged x y then [] else [x])"
  "observed_of (fst (pair_outcome x y)) = (if unchanged x y then [] else [y])"
  by (auto simp: unchanged_def pair_outcome_def Let_def map_filter_def)

lemma pair_changes:
  "mset (map fst ps) = mset (inputs_of (concat (map (\<lambda>(x, y). fst (pair_outcome x y)) ps))) + mset (map fst (filter (\<lambda>(x, y). unchanged x y) ps))"
  "mset (map snd ps) = mset (observed_of (concat (map (\<lambda>(x, y). fst (pair_outcome x y)) ps))) + mset (map snd (filter (\<lambda>(x, y). unchanged x y) ps))"
  by (induction ps) (auto simp: pair_filter map_filter_simps)

lemma over_inputs [simp]:
  "inputs_of (map (left_over am w) ds) = ds" "observed_of (map (left_over am w) ds) = []"
  "inputs_of (map (right_over am w) ds) = []" "observed_of (map (right_over am w) ds) = ds"
  by (induction ds) (simp_all add: map_filter_def left_over_def right_over_def Let_def comp_def)

lemma subject_changes:
  assumes "paired a b = (ps, a1, b1)"
  shows "fst (subject_outcome w a b) = concat (map (\<lambda>(x, y). fst (pair_outcome x y)) ps)
    @ map (left_over (a1 \<noteq> [] \<and> b1 \<noteq> []) w) a1 @ map (right_over (a1 \<noteq> [] \<and> b1 \<noteq> []) w) b1"
  using assms by (simp add: subject_outcome_def both_def Let_def fst_all_outcomes comp_def case_prod_unfold)

lemma subject_accounts:
  assumes "paired a b = (ps, a1, b1)" and "distinct a" "distinct b"
  shows "mset a = mset (inputs_of (fst (subject_outcome w a b))) + mset (map fst (filter (\<lambda>(x, y). unchanged x y) ps))"
    and "mset b = mset (observed_of (fst (subject_outcome w a b))) + mset (map snd (filter (\<lambda>(x, y). unchanged x y) ps))"
  using paired_accounts [OF assms] pair_changes [of ps] by (simp_all add: subject_changes [OF assms(1)])

section \<open>All subjects\<close>

lemma inspect_declarations_Inr:
  "(inspect_declarations bytes seen ds = Inr u) = (distinct (map d_key ds) \<and> d_key ` set ds \<inter> set seen = {}
    \<and> list_all (declaration_ok bytes) ds)"
  by (induction ds arbitrary: seen) (auto simp: andThen_Inr_iff guard_fail_Inr)

lemma inspected: "inspect_extraction x = Inr u \<Longrightarrow> distinct (map d_key (x_declarations x)) \<and> distinct (x_declarations x)
    \<and> list_all (declaration_ok (sr_bytes (x_source x))) (x_declarations x)"
  by (auto simp: inspect_extraction_def andThen_Inr_iff inspect_declarations_Inr distinct_map)

lemma concat_insert:
  "distinct ks \<Longrightarrow> mset (concat (map (\<lambda>k. if j = k then x # f k else f k) ks))
    = (if j \<in> set ks then {#x#} else {#}) + mset (concat (map f ks))"
  by (induction ks) auto

lemma groups_partition:
  assumes "distinct ks" and "subject_key ` set ds \<subseteq> set ks"
  shows "mset ds = mset (concat (map (group_of ds) ks))"
  using assms
proof (induction ds)
  case (Cons d ds)
  have "group_of (d # ds) = (\<lambda>k. if subject_key d = k then d # group_of ds k else group_of ds k)"
    by (simp add: group_of_def fun_eq_iff)
  then have "mset (concat (map (group_of (d # ds)) ks))
      = mset (concat (map (\<lambda>k. if subject_key d = k then d # group_of ds k else group_of ds k) ks))"
    by (simp only:)
  also have "\<dots> = add_mset d (mset (concat (map (group_of ds) ks)))"
    using Cons.prems by (simp add: concat_insert)
  finally show ?case using Cons by simp
qed (induction ks; simp add: group_of_def)

lemma subject_keys_facts [simp]:
  "distinct (subject_keys a b)" "set (subject_keys a b) = subject_key ` (set a \<union> set b)"
  by (simp_all add: subject_keys_def js_sort_def image_Un)

text \<open>The pairs of all subjects that the comparison does not mention.\<close>

definition silent_pairs :: "extraction \<Rightarrow> extraction \<Rightarrow> (decl \<times> decl) list" where
  "silent_pairs a b = concat (map (\<lambda>k. filter (\<lambda>(x, y). unchanged x y)
     (fst (paired (group_of (x_declarations a) k) (group_of (x_declarations b) k))))
     (subject_keys (x_declarations a) (x_declarations b)))"

lemma map_filter_concat: "List.map_filter f (concat xss) = concat (map (List.map_filter f) xss)"
  by (induction xss) (simp_all add: map_filter_simps)

lemma mset_concat_map_add:
  "(\<And>k. k \<in> set ks \<Longrightarrow> mset (f k) = mset (g k) + mset (h k)) \<Longrightarrow>
    mset (concat (map f ks)) = mset (concat (map g ks)) + mset (concat (map h ks))"
  by (induction ks) auto

lemma changes_of:
  assumes "compareExtractions a b = Inr c"
  shows "sc_changes c = concat (map (\<lambda>k. fst (subject_outcome (complete_extraction a \<and> complete_extraction b)
      (group_of (x_declarations a) k) (group_of (x_declarations b) k))) (subject_keys (x_declarations a) (x_declarations b)))"
    and "distinct (x_declarations a)" "distinct (x_declarations b)" "same_contract a b"
  using assms inspected
  by (auto simp: compareExtractions_def andThen_Inr_iff guard_fail_Inr subject_outcomes_def Let_def fst_all_outcomes comp_def
      split: prod.splits dest: arg_cong [where f = fst])

lemma declarations_accounted:
  assumes "compareExtractions a b = Inr c"
  shows "mset (x_declarations a) = mset (inputs_of (sc_changes c)) + mset (map fst (silent_pairs a b))"
    and "mset (x_declarations b) = mset (observed_of (sc_changes c)) + mset (map snd (silent_pairs a b))"
proof -
  let ?ks = "subject_keys (x_declarations a) (x_declarations b)"
  let ?w = "complete_extraction a \<and> complete_extraction b"
  let ?A = "group_of (x_declarations a)" and ?B = "group_of (x_declarations b)"
  have each: "mset (?A k) = mset (inputs_of (fst (subject_outcome ?w (?A k) (?B k))))
        + mset (map fst (filter (\<lambda>(x, y). unchanged x y) (fst (paired (?A k) (?B k)))))"
      "mset (?B k) = mset (observed_of (fst (subject_outcome ?w (?A k) (?B k))))
        + mset (map snd (filter (\<lambda>(x, y). unchanged x y) (fst (paired (?A k) (?B k)))))" for k
  proof -
    obtain ps a1 b1 where p: "paired (?A k) (?B k) = (ps, a1, b1)" by (cases "paired (?A k) (?B k)")
    have "distinct (?A k)" "distinct (?B k)" using changes_of(2,3) [OF assms] by (simp_all add: group_of_def)
    then show "mset (?A k) = mset (inputs_of (fst (subject_outcome ?w (?A k) (?B k))))
        + mset (map fst (filter (\<lambda>(x, y). unchanged x y) (fst (paired (?A k) (?B k)))))"
      "mset (?B k) = mset (observed_of (fst (subject_outcome ?w (?A k) (?B k))))
        + mset (map snd (filter (\<lambda>(x, y). unchanged x y) (fst (paired (?A k) (?B k)))))"
      using subject_accounts [OF p, of ?w] p by simp_all
  qed
  have "mset (x_declarations a) = mset (concat (map ?A ?ks))" by (rule groups_partition) auto
  also have "\<dots> = mset (concat (map (\<lambda>k. inputs_of (fst (subject_outcome ?w (?A k) (?B k)))) ?ks))
      + mset (concat (map (\<lambda>k. map fst (filter (\<lambda>(x, y). unchanged x y) (fst (paired (?A k) (?B k))))) ?ks))"
    by (rule mset_concat_map_add) (rule each)
  finally show "mset (x_declarations a) = mset (inputs_of (sc_changes c)) + mset (map fst (silent_pairs a b))"
    by (simp only: changes_of(1) [OF assms] silent_pairs_def map_filter_concat map_concat map_map comp_def)
  have "mset (x_declarations b) = mset (concat (map ?B ?ks))" by (rule groups_partition) auto
  also have "\<dots> = mset (concat (map (\<lambda>k. observed_of (fst (subject_outcome ?w (?A k) (?B k)))) ?ks))
      + mset (concat (map (\<lambda>k. map snd (filter (\<lambda>(x, y). unchanged x y) (fst (paired (?A k) (?B k))))) ?ks))"
    by (rule mset_concat_map_add) (rule each)
  finally show "mset (x_declarations b) = mset (observed_of (sc_changes c)) + mset (map snd (silent_pairs a b))"
    by (simp only: changes_of(1) [OF assms] silent_pairs_def map_filter_concat map_concat map_map comp_def)
qed

lemma silent_unchanged: "(x, y) \<in> set (silent_pairs a b) \<Longrightarrow> unchanged x y"
  by (auto simp: silent_pairs_def)

section \<open>Removals and additions\<close>

lemma change_sources:
  assumes "paired a b = (ps, a1, b1)" and "dc \<in> set (fst (subject_outcome w a b))"
  obtains (pair) x y where "(x, y) \<in> set ps" "dc \<in> set (fst (pair_outcome x y))"
    | (left) d where "d \<in> set a1" "dc = left_over (a1 \<noteq> [] \<and> b1 \<noteq> []) w d"
    | (right) d where "d \<in> set b1" "dc = right_over (a1 \<noteq> [] \<and> b1 \<noteq> []) w d"
  using assms(2) unfolding subject_changes [OF assms(1)] by auto

lemma removal_counts:
  assumes p: "paired a b = (ps, a1, b1)" and "distinct a" "distinct b"
    and dc: "dc \<in> set (fst (subject_outcome w a b))" "dc_kind dc = Removed"
  shows "w \<and> (\<exists>d \<in> set a. dc_input dc = Some d \<and> d_header_complete d) \<and> length b < length a"
  using p dc(1)
proof (cases rule: change_sources)
  case (pair x y)
  with pair_change [OF pair(2)] dc(2) show ?thesis by auto
next
  case (left d)
  then have none: "b1 = []" "d_header_complete d" "w" "dc_input dc = Some d"
    using dc(2) by (auto simp: left_over_def Let_def split: if_splits)
  have acc: "mset a = mset (map fst ps) + mset a1" "mset b = mset (map snd ps) + mset b1"
    using paired_accounts [OF assms(1-3)] by auto
  then have "length a = length ps + length a1" "length b = length ps + length b1"
    by (metis length_map mset_append size_mset length_append)+
  moreover have "d \<in> set a" using acc(1) left(1) by (metis mset_append set_mset_mset Un_iff set_append)
  moreover have "a1 \<noteq> []" using left(1) by auto
  ultimately show ?thesis using none by auto
next
  case (right d)
  with dc(2) show ?thesis by (auto simp: right_over_def Let_def split: if_splits)
qed

lemma addition_counts:
  assumes p: "paired a b = (ps, a1, b1)" and "distinct a" "distinct b"
    and dc: "dc \<in> set (fst (subject_outcome w a b))" "dc_kind dc = Added"
  shows "w \<and> (\<exists>d \<in> set b. dc_observed dc = Some d \<and> d_header_complete d) \<and> length a < length b"
  using p dc(1)
proof (cases rule: change_sources)
  case (pair x y)
  with pair_change [OF pair(2)] dc(2) show ?thesis by auto
next
  case (right d)
  then have none: "a1 = []" "d_header_complete d" "w" "dc_observed dc = Some d"
    using dc(2) by (auto simp: right_over_def Let_def split: if_splits)
  have acc: "mset a = mset (map fst ps) + mset a1" "mset b = mset (map snd ps) + mset b1"
    using paired_accounts [OF assms(1-3)] by auto
  then have "length a = length ps + length a1" "length b = length ps + length b1"
    by (metis length_map mset_append size_mset length_append)+
  moreover have "d \<in> set b" using acc(2) right(1) by (metis mset_append set_mset_mset Un_iff set_append)
  moreover have "b1 \<noteq> []" using right(1) by auto
  ultimately show ?thesis using none by auto
next
  case (left d)
  with dc(2) show ?thesis by (auto simp: left_over_def Let_def split: if_splits)
qed

lemma change_subject:
  assumes "compareExtractions a b = Inr c" and "dc \<in> set (sc_changes c)"
  obtains k where "dc \<in> set (fst (subject_outcome (complete_extraction a \<and> complete_extraction b)
      (group_of (x_declarations a) k) (group_of (x_declarations b) k)))"
    and "distinct (group_of (x_declarations a) k)" "distinct (group_of (x_declarations b) k)"
  using assms(2) changes_of(1-3) [OF assms(1)] by (auto simp: group_of_def)

lemma removals_are_sound:
  assumes "compareExtractions a b = Inr c" and "dc \<in> set (sc_changes c)" and "dc_kind dc = Removed"
  shows "\<exists>d \<in> set (x_declarations a). dc_input dc = Some d \<and> d_header_complete d \<and> complete_extraction a \<and> complete_extraction b
    \<and> length (group_of (x_declarations b) (subject_key d)) < length (group_of (x_declarations a) (subject_key d))"
proof -
  obtain k where k: "dc \<in> set (fst (subject_outcome (complete_extraction a \<and> complete_extraction b)
      (group_of (x_declarations a) k) (group_of (x_declarations b) k)))"
    "distinct (group_of (x_declarations a) k)" "distinct (group_of (x_declarations b) k)"
    by (rule change_subject [OF assms(1,2)])
  obtain ps a1 b1 where p: "paired (group_of (x_declarations a) k) (group_of (x_declarations b) k) = (ps, a1, b1)"
    by (rule prod_cases3)
  show ?thesis using removal_counts [OF p k(2,3,1) assms(3)] by (auto simp: group_of_def)
qed

lemma additions_are_sound:
  assumes "compareExtractions a b = Inr c" and "dc \<in> set (sc_changes c)" and "dc_kind dc = Added"
  shows "\<exists>d \<in> set (x_declarations b). dc_observed dc = Some d \<and> d_header_complete d \<and> complete_extraction a \<and> complete_extraction b
    \<and> length (group_of (x_declarations a) (subject_key d)) < length (group_of (x_declarations b) (subject_key d))"
proof -
  obtain k where k: "dc \<in> set (fst (subject_outcome (complete_extraction a \<and> complete_extraction b)
      (group_of (x_declarations a) k) (group_of (x_declarations b) k)))"
    "distinct (group_of (x_declarations a) k)" "distinct (group_of (x_declarations b) k)"
    by (rule change_subject [OF assms(1,2)])
  obtain ps a1 b1 where p: "paired (group_of (x_declarations a) k) (group_of (x_declarations b) k) = (ps, a1, b1)"
    by (rule prod_cases3)
  show ?thesis using addition_counts [OF p k(2,3,1) assms(3)] by (auto simp: group_of_def)
qed

section \<open>A capture compared with itself\<close>

lemma pair_self: "dc \<in> set (fst (pair_outcome x x)) \<Longrightarrow> dc_kind dc = Unobserved"
  by (auto simp: pair_outcome_def Let_def body_differs_def sameDefaults_def split: if_split_asm)

lemma paired_self:
  assumes "paired a a = (ps, a1, b1)"
  shows "a1 = b1 \<and> (\<forall>(x, y) \<in> set ps. x = y)"
proof (cases "anonymous a")
  case True
  with assms show ?thesis by (auto simp: paired_def)
next
  case False
  have same: "(x, y) \<in> set (shape_pairs a a) \<Longrightarrow> x = y" for x y unfolding shape_pairs_mem by auto
  then have "fst ` set (shape_pairs a a) = snd ` set (shape_pairs a a)" by force
  with same assms False show ?thesis by (auto simp: paired_def Let_def split: list.split_asm)
qed

lemma self_comparison:
  assumes "compareExtractions a a = Inr c"
  shows "(\<forall>dc \<in> set (sc_changes c). dc_kind dc \<in> {Ambiguous_change, Unobserved}) \<and> \<not> sc_region_changed c"
proof
  show "\<forall>dc \<in> set (sc_changes c). dc_kind dc \<in> {Ambiguous_change, Unobserved}"
  proof
    fix dc assume dc: "dc \<in> set (sc_changes c)"
    obtain k where k: "dc \<in> set (fst (subject_outcome (complete_extraction a \<and> complete_extraction a)
        (group_of (x_declarations a) k) (group_of (x_declarations a) k)))"
      by (rule change_subject [OF assms dc])
    obtain ps a1 b1 where p: "paired (group_of (x_declarations a) k) (group_of (x_declarations a) k) = (ps, a1, b1)"
      by (rule prod_cases3)
    have self: "a1 = b1" "\<forall>(x, y) \<in> set ps. x = y" using paired_self [OF p] by auto
    show "dc_kind dc \<in> {Ambiguous_change, Unobserved}"
      using p k
    proof (cases rule: change_sources)
      case (pair x y)
      with self show ?thesis using pair_self by auto
    next
      case (left d)
      with self show ?thesis by (auto simp: left_over_def Let_def)
    next
      case (right d)
      with self show ?thesis by (auto simp: right_over_def Let_def)
    qed
  qed
  show "\<not> sc_region_changed c"
    using assms
    by (auto simp: compareExtractions_def andThen_Inr_iff guard_fail_Inr Let_def region_change_def split: prod.splits)
qed

section \<open>The swapped comparison\<close>

fun mirrored_kind :: "change_kind \<Rightarrow> change_kind" where
  "mirrored_kind Added = Removed"
| "mirrored_kind Removed = Added"
| "mirrored_kind k = k"

definition mirrored :: "declaration_change \<Rightarrow> declaration_change" where
  "mirrored c = c\<lparr>dc_kind := mirrored_kind (dc_kind c), dc_input := dc_observed c, dc_observed := dc_input c\<rparr>"

lemma mirrored_pair:
  "fst (pair_outcome y x) = map mirrored (fst (pair_outcome x y))" "set (snd (pair_outcome y x)) = set (snd (pair_outcome x y))"
  by (auto simp: pair_outcome_def Let_def mirrored_def body_differs_def sameDefaults_def)

lemma mirrored_over: "mirrored (left_over am w d) = right_over am w d" "mirrored (right_over am w d) = left_over am w d"
  by (auto simp: left_over_def right_over_def mirrored_def Let_def)

lemma mirrored_mset: "mset (fst (pair_outcome y x)) = image_mset mirrored (mset (fst (pair_outcome x y)))"
  by (simp only: mirrored_pair(1) [of y x] mset_map)

lemma concat_sum: "mset (concat (map f xs)) = sum_mset (image_mset (\<lambda>x. mset (f x)) (mset xs))"
  by (induction xs) auto

lemma image_sum: "sum_mset (image_mset (\<lambda>x. image_mset m (F x)) M) = image_mset m (sum_mset (image_mset F M))"
  by (induction M) auto

lemma swapped_pairs: "set (shape_pairs b a) = prod.swap ` set (shape_pairs a b)"
proof (rule set_eqI)
  fix z
  show "(z \<in> set (shape_pairs b a)) = (z \<in> prod.swap ` set (shape_pairs a b))"
    by (cases z) (simp add: shape_pairs_mem, blast)
qed

lemma shape_pairs_swap: "mset (shape_pairs b a) = image_mset prod.swap (mset (shape_pairs a b))"
proof -
  have "distinct (shape_pairs b a)" "distinct (map prod.swap (shape_pairs a b))"
    using shape_pairs_distinct [unfolded distinct_map] by (auto simp: distinct_map)
  moreover have "set (shape_pairs b a) = set (map prod.swap (shape_pairs a b))" by (simp add: swapped_pairs [of b a])
  ultimately have "mset (shape_pairs b a) = mset (map prod.swap (shape_pairs a b))"
    by (simp only: set_eq_iff_mset_eq_distinct)
  then show ?thesis by simp
qed

lemma swapped_sides:
  "fst ` set (shape_pairs b a) = snd ` set (shape_pairs a b)" "snd ` set (shape_pairs b a) = fst ` set (shape_pairs a b)"
  by (simp_all add: swapped_pairs [of b a] image_image)

lemma paired_swap:
  assumes "paired a b = (ps, a1, b1)"
  shows "\<exists>qs. paired b a = (qs, b1, a1) \<and> mset qs = image_mset prod.swap (mset ps)"
proof (cases "anonymous a \<or> anonymous b")
  case True
  with assms show ?thesis by (auto simp: paired_def)
next
  case False
  define a2 where "a2 = filter (\<lambda>d. d \<notin> fst ` set (shape_pairs a b)) a"
  define b2 where "b2 = filter (\<lambda>d. d \<notin> snd ` set (shape_pairs a b)) b"
  have "paired a b = (case (a2, b2) of ([x], [y]) \<Rightarrow> (shape_pairs a b @ [(x, y)], [], []) | _ \<Rightarrow> (shape_pairs a b, a2, b2))"
    unfolding paired_def Let_def a2_def b2_def using False by simp
  moreover have "paired b a = (case (b2, a2) of ([x], [y]) \<Rightarrow> (shape_pairs b a @ [(x, y)], [], []) | _ \<Rightarrow> (shape_pairs b a, b2, a2))"
    unfolding paired_def Let_def a2_def b2_def swapped_sides [of b a] using False by simp
  ultimately show ?thesis using assms shape_pairs_swap [of b a] by (auto split: list.split_asm)
qed

lemma outcome_changes_swap:
  "mset (fst (subject_outcome w b a)) = image_mset mirrored (mset (fst (subject_outcome w a b)))"
proof -
  obtain ps a1 b1 where p: "paired a b = (ps, a1, b1)" by (rule prod_cases3)
  obtain qs where q: "paired b a = (qs, b1, a1)" "mset qs = image_mset prod.swap (mset ps)"
    using paired_swap [OF p] by blast
  let ?c = "\<lambda>(x, y). fst (pair_outcome x y)"
  have each: "mset (?c (prod.swap z)) = image_mset mirrored (mset (?c z))" for z
    by (cases z) (simp only: prod.swap_def prod.case fst_conv snd_conv, rule mirrored_mset)
  have "mset (concat (map ?c qs)) = sum_mset (image_mset (\<lambda>z. mset (?c z)) (image_mset prod.swap (mset ps)))"
    by (simp only: concat_sum q(2))
  also have "\<dots> = sum_mset (image_mset (\<lambda>z. image_mset mirrored (mset (?c z))) (mset ps))"
    by (simp only: multiset.map_comp comp_def each)
  also have "\<dots> = image_mset mirrored (mset (concat (map ?c ps)))" by (simp only: image_sum concat_sum)
  finally have pairs: "mset (concat (map ?c qs)) = image_mset mirrored (mset (concat (map ?c ps)))" .
  let ?am = "a1 \<noteq> [] \<and> b1 \<noteq> []"
  have overs: "map mirrored (map (left_over ?am w) a1) = map (right_over ?am w) a1"
    "map mirrored (map (right_over ?am w) b1) = map (left_over ?am w) b1" by (simp_all add: mirrored_over)
  have am: "(b1 \<noteq> [] \<and> a1 \<noteq> []) = ?am" by (rule conj_commute)
  show ?thesis
    unfolding subject_changes [OF p] subject_changes [OF q(1)] am mset_append image_mset_union pairs mset_map [symmetric] overs
    by simp
qed

lemma outcome_limits_swap: "set (snd (subject_outcome w b a)) = set (snd (subject_outcome w a b))"
proof -
  obtain ps a1 b1 where p: "paired a b = (ps, a1, b1)" by (rule prod_cases3)
  obtain qs where q: "paired b a = (qs, b1, a1)" "mset qs = image_mset prod.swap (mset ps)"
    using paired_swap [OF p] by blast
  let ?l = "\<lambda>(x, y). snd (pair_outcome x y)"
  have each: "set (?l (prod.swap z)) = set (?l z)" for z
    by (cases z) (simp only: prod.swap_def prod.case fst_conv snd_conv, rule mirrored_pair(2))
  have "set qs = prod.swap ` set ps" using q(2) by (metis set_image_mset set_mset_mset)
  then have "(\<Union>z \<in> set qs. set (?l z)) = (\<Union>z \<in> set ps. set (?l z))"
    by (simp only: image_image each)
  then have "set (concat (map ?l qs)) = set (concat (map ?l ps))" by (simp only: set_concat set_map image_image)
  moreover have "snd (subject_outcome w a b) = concat (map ?l ps) @ (if a1 \<noteq> [] \<and> b1 \<noteq> [] then [''declaration_correspondence_ambiguous''] else [])"
    "snd (subject_outcome w b a) = concat (map ?l qs) @ (if b1 \<noteq> [] \<and> a1 \<noteq> [] then [''declaration_correspondence_ambiguous''] else [])"
    using p q(1) by (simp_all add: subject_outcome_def both_def Let_def snd_all_outcomes comp_def case_prod_unfold)
  ultimately show ?thesis by (simp only: set_append conj_commute)
qed

lemma same_contract_sym: "same_contract b a = same_contract a b" and unknown_body_sym: "unknown_body b a = unknown_body a b"
  and region_change_sym: "region_change b a = region_change a b"
  by (auto simp: same_contract_def unknown_body_def region_change_def)

lemma comparison_limits_sym: "comparison_limits b a = comparison_limits a b"
proof -
  have "(\<not> complete_extraction b \<or> \<not> complete_extraction a) = (\<not> complete_extraction a \<or> \<not> complete_extraction b)"
    "(\<exists>d \<in> set (x_declarations b @ x_declarations a). \<not> d_header_complete d)
      = (\<exists>d \<in> set (x_declarations a @ x_declarations b). \<not> d_header_complete d)"
    "(x_remainder b = None \<or> x_remainder a = None) = (x_remainder a = None \<or> x_remainder b = None)" by auto
  then show ?thesis by (simp only: comparison_limits_def unknown_body_sym [of b a])
qed

definition found_limits :: "extraction \<Rightarrow> extraction \<Rightarrow> string list" where
  "found_limits a b = js_sort (uniq (x_limitations a @ x_limitations b @ snd (subject_outcomes a b) @ comparison_limits a b))"

definition comparison_of :: "extraction \<Rightarrow> extraction \<Rightarrow> structural_comparison" where
  "comparison_of a b = \<lparr>sc_input = x_source a, sc_observed = x_source b, sc_dialect = x_dialect a, sc_parser = x_parser a,
     sc_extractor = x_extractor a, sc_coverage = comparison_coverage a b (found_limits a b), sc_changes = fst (subject_outcomes a b),
     sc_region_changed = region_change a b, sc_limitations = found_limits a b\<rparr>"

lemma compare_Inr:
  "(compareExtractions a b = Inr c) = (inspect_extraction a = Inr () \<and> inspect_extraction b = Inr () \<and> same_contract a b
    \<and> c = comparison_of a b)"
  by (auto simp: compareExtractions_def andThen_Inr_iff guard_fail_Inr Let_def comparison_of_def found_limits_def case_prod_unfold)

lemma swapped_comparison:
  assumes "compareExtractions a b = Inr c"
  shows "\<exists>d. compareExtractions b a = Inr d \<and> mset (sc_changes d) = image_mset mirrored (mset (sc_changes c))
    \<and> sc_coverage d = sc_coverage c \<and> sc_region_changed d = sc_region_changed c
    \<and> set (sc_limitations d) = set (sc_limitations c)"
proof -
  let ?ks = "subject_keys (x_declarations a) (x_declarations b)" and ?kt = "subject_keys (x_declarations b) (x_declarations a)"
  let ?f = "\<lambda>k. subject_outcome (complete_extraction a \<and> complete_extraction b) (group_of (x_declarations a) k) (group_of (x_declarations b) k)"
  let ?g = "\<lambda>k. subject_outcome (complete_extraction b \<and> complete_extraction a) (group_of (x_declarations b) k) (group_of (x_declarations a) k)"
  have whole: "(complete_extraction b \<and> complete_extraction a) = (complete_extraction a \<and> complete_extraction b)" by (rule conj_commute)
  have g: "mset (fst (?g k)) = image_mset mirrored (mset (fst (?f k)))" "set (snd (?g k)) = set (snd (?f k))" for k
    unfolding whole by (rule outcome_changes_swap, rule outcome_limits_swap)
  have keys: "mset ?kt = mset ?ks" "set ?kt = set ?ks" by (subst set_eq_iff_mset_eq_distinct [symmetric]) auto
  have "mset (concat (map (\<lambda>k. fst (?g k)) ?kt)) = sum_mset (image_mset (\<lambda>k. image_mset mirrored (mset (fst (?f k)))) (mset ?ks))"
    by (simp only: concat_sum keys g)
  also have "\<dots> = image_mset mirrored (mset (concat (map (\<lambda>k. fst (?f k)) ?ks)))" by (simp only: image_sum concat_sum)
  finally have changes: "mset (fst (subject_outcomes b a)) = image_mset mirrored (mset (fst (subject_outcomes a b)))"
    by (simp only: subject_outcomes_def Let_def fst_all_outcomes map_map comp_def)
  have limits: "set (snd (subject_outcomes b a)) = set (snd (subject_outcomes a b))"
    by (simp only: subject_outcomes_def Let_def snd_all_outcomes map_map comp_def set_concat set_map image_image g(2) keys(2))
  have same: "set (found_limits b a) = set (found_limits a b)"
    using limits by (simp add: found_limits_def js_sort_def comparison_limits_sym [of b a] Un_ac)
  then have "(found_limits b a = []) = (found_limits a b = [])" by (metis set_empty)
  then have "comparison_coverage b a (found_limits b a) = comparison_coverage a b (found_limits a b)"
    by (auto simp: comparison_coverage_def)
  with assms changes same have "compareExtractions b a = Inr (comparison_of b a)" "c = comparison_of a b"
    "sc_coverage (comparison_of b a) = sc_coverage (comparison_of a b)"
    by (simp_all add: compare_Inr same_contract_sym comparison_of_def)
  with changes same show ?thesis by (simp add: comparison_of_def region_change_sym)
qed

end
