(* ===== verification/Correspondence.thy ===== *)
theory Correspondence
  imports Structural_Match "HOL-Library.Product_Lexorder"
begin

text \<open>
  The correspondence index (src/src/observation/correspondence.ts): which works changed the
  same declaration of the same committed source. The code keeps the reports, a reverse index
  from declaration to reports, and a running count; a \<open>Map\<close> is an association list in
  insertion order. The last sections state what the index promises in terms of the reports
  alone, and that every operation keeps it.
\<close>

section \<open>Candidates of one report\<close>

definition MAX_REPORTS :: nat where "MAX_REPORTS = 8192"
definition MAX_ANCHORS_PER_REPORT :: nat where "MAX_ANCHORS_PER_REPORT = 256"
definition MAX_ANCHORS :: nat where "MAX_ANCHORS = 8192"

definition CORRESPONDENCE_CAPACITY :: string where "CORRESPONDENCE_CAPACITY = ''STRUCTURAL_CORRESPONDENCE_CAPACITY''"

record correspondence_change =
  cc_kind :: change_kind
  cc_declaration :: bool
  cc_body :: bool
  cc_default :: bool
  cc_evidence_id :: string

record candidate =
  cd_work_id :: string
  cd_subject_id :: string
  cd_input :: source_identity
  cd_start :: int
  cd_end :: int
  cd_change :: correspondence_change

record correspondence_pair =
  cp_current_work :: string
  cp_other_work :: string
  cp_subject_id :: string
  cp_pair_id :: string
  cp_input :: source_identity
  cp_start :: int
  cp_end :: int
  cp_current_change :: correspondence_change
  cp_other_change :: correspondence_change

record resolution =
  rs_current_work :: string
  rs_other_work :: string
  rs_subject_id :: string
  rs_pair_id :: string

record attributed_comparison =
  ac_work_id :: string
  ac_parent_id :: string
  ac_comparison :: structural_comparison

definition digest_text :: "(string \<Rightarrow> string) \<Rightarrow> jval \<Rightarrow> string" where
  "digest_text sha v = sha (stringify v)"

definition pairId :: "(string \<Rightarrow> string) \<Rightarrow> string \<Rightarrow> string \<Rightarrow> string \<Rightarrow> string" where
  "pairId sha subject a b = digest_text sha (JArr (JStr subject # map JStr (js_sort [a, b])))"

definition correspondencePair :: "(string \<Rightarrow> string) \<Rightarrow> candidate \<Rightarrow> candidate \<Rightarrow> correspondence_pair" where
  "correspondencePair sha current other =
     \<lparr>cp_current_work = cd_work_id current, cp_other_work = cd_work_id other, cp_subject_id = cd_subject_id current,
      cp_pair_id = pairId sha (cd_subject_id current) (cd_work_id current) (cd_work_id other), cp_input = cd_input current,
      cp_start = cd_start current, cp_end = cd_end current, cp_current_change = cd_change current, cp_other_change = cd_change other\<rparr>"

definition direct :: "declaration_change \<Rightarrow> bool" where
  "direct c =
     ((case dc_input c of None \<Rightarrow> False | Some d \<Rightarrow> d_header_complete d)
    \<and> (dc_kind c = Modified \<and> dc_correspondence c = Unique_syntax \<or> dc_kind c = Removed \<and> dc_correspondence c = Unmatched)
    \<and> (dc_declaration c \<or> dc_body c \<or> dc_default c))"

definition object_format_text :: "object_format \<Rightarrow> string" where
  "object_format_text f = (case f of Sha1 \<Rightarrow> ''sha1'' | Sha256 \<Rightarrow> ''sha256'')"

definition change_kind_text :: "change_kind \<Rightarrow> string" where
  "change_kind_text k = (case k of Modified \<Rightarrow> ''modified'' | Added \<Rightarrow> ''added'' | Removed \<Rightarrow> ''removed''
     | Ambiguous_change \<Rightarrow> ''ambiguous'' | Unobserved \<Rightarrow> ''unobserved'')"

definition subject_digest :: "(string \<Rightarrow> string) \<Rightarrow> structural_comparison \<Rightarrow> source_identity \<Rightarrow> decl \<Rightarrow> string" where
  "subject_digest sha cmp source d = digest_text sha (JArr
     [JStr (source_repository source), JStr (object_format_text (source_format source)),
      (case source of Git_source r f c t p \<Rightarrow> JStr c | _ \<Rightarrow> JUndef), JStr (source_path source),
      JStr (sc_dialect cmp), JStr (sc_parser cmp), JStr (sc_extractor cmp), JStr (d_key d), JStr (d_kind d), oid_json (d_name d),
      jstrs (d_enclosing d), JNum (d_start d), JNum (d_end d)])"

definition evidence_digest :: "(string \<Rightarrow> string) \<Rightarrow> declaration_change \<Rightarrow> decl \<Rightarrow> string" where
  "evidence_digest sha c d = digest_text sha (JArr
     ([JStr (change_kind_text (dc_kind c)), JBool (dc_declaration c), JBool (dc_body c), JBool (dc_default c),
       JStr (d_signature d), undefined_json JStr (d_body d), jstrs (d_defaults d)]
    @ (case dc_observed c of
         None \<Rightarrow> replicate 6 JUndef
       | Some x \<Rightarrow> [JStr (d_kind x), oid_json (d_name x), jstrs (d_enclosing x), JStr (d_signature x),
           undefined_json JStr (d_body x), jstrs (d_defaults x)])))"

definition candidate_of :: "(string \<Rightarrow> string) \<Rightarrow> attributed_comparison \<Rightarrow> declaration_change \<Rightarrow> source_identity \<Rightarrow> decl \<Rightarrow> candidate" where
  "candidate_of sha r c source d =
     \<lparr>cd_work_id = ac_work_id r, cd_subject_id = subject_digest sha (ac_comparison r) source d, cd_input = source,
      cd_start = d_start d, cd_end = d_end d,
      cd_change = \<lparr>cc_kind = dc_kind c, cc_declaration = dc_declaration c, cc_body = dc_body c, cc_default = dc_default c,
        cc_evidence_id = evidence_digest sha c d\<rparr>\<rparr>"

text \<open>The loop over the changes: the candidates so far and the identities seen twice.\<close>

fun collect :: "(string \<Rightarrow> string) \<Rightarrow> attributed_comparison \<Rightarrow> source_identity \<Rightarrow> declaration_change list
    \<Rightarrow> (string \<times> candidate) list \<Rightarrow> string list \<Rightarrow> ((string \<times> candidate) list \<times> string list) res" where
  "collect sha r source [] found twice = Inr (found, twice)"
| "collect sha r source (c # cs) found twice =
     (if \<not> direct c then collect sha r source cs found twice
      else case dc_input c of
        None \<Rightarrow> Inl JsError
      | Some d \<Rightarrow>
          (let e = candidate_of sha r c source d; i = cd_subject_id e;
               twice' = (if i \<in> fst ` set found then List.insert i twice else twice);
               found' = (if i \<in> fst ` set found then found else found @ [(i, e)]) in
           andThen (guard_fail (MAX_ANCHORS_PER_REPORT < length found' + length twice') CORRESPONDENCE_CAPACITY) (\<lambda>_.
           collect sha r source cs found' twice')))"

definition is_commit :: "source_identity \<Rightarrow> bool" where
  "is_commit s = (case s of Git_source r f c t p \<Rightarrow> True | _ \<Rightarrow> False)"

definition candidates :: "(string \<Rightarrow> string) \<Rightarrow> attributed_comparison \<Rightarrow> (string \<times> candidate) list res" where
  "candidates sha r =
     (let c = ac_comparison r; input = sc_input c in
      if \<not> is_commit (sr_source input) \<or> sr_status input \<noteq> Present \<or> sc_coverage c = Unavailable_extent then Inr []
      else andThen (collect sha r (sr_source input) (sc_changes c) [] [])
        (\<lambda>(found, twice). Inr (filter (\<lambda>(i, e). i \<notin> set twice) found)))"

section \<open>The index\<close>

record indexed_report =
  ir_work_id :: string
  ir_path :: string
  ir_candidates :: "(string \<times> candidate) list"

record index_state =
  ix_reports :: "(string \<times> indexed_report) list"
  ix_anchors :: "(string \<times> (string \<times> candidate) list) list"
  ix_size :: int

definition empty_index :: index_state where
  "empty_index = \<lparr>ix_reports = [], ix_anchors = [], ix_size = 0\<rparr>"

definition report_key :: "string \<Rightarrow> string \<Rightarrow> string" where
  "report_key work path = stringify (JArr [JStr work, JStr path])"

text \<open>Taking one report out of the entry of a declaration; an entry left empty goes.\<close>

definition drop_anchor :: "string \<Rightarrow> string \<Rightarrow> (string \<times> (string \<times> candidate) list) list
    \<Rightarrow> (string \<times> (string \<times> candidate) list) list" where
  "drop_anchor key i anchors =
     (case map_of anchors i of
        None \<Rightarrow> anchors
      | Some matches \<Rightarrow>
          (let rest = AList.delete key matches in
           if rest = [] then AList.delete i anchors else AList.update i rest anchors))"

definition add_anchor :: "string \<Rightarrow> string \<times> candidate \<Rightarrow> (string \<times> (string \<times> candidate) list) list
    \<Rightarrow> (string \<times> (string \<times> candidate) list) list" where
  "add_anchor key ic anchors =
     AList.update (fst ic) (AList.update key (snd ic) (case map_of anchors (fst ic) of None \<Rightarrow> [] | Some m \<Rightarrow> m)) anchors"

definition matches_of :: "(string \<times> (string \<times> candidate) list) list \<Rightarrow> string \<Rightarrow> (string \<times> candidate) list" where
  "matches_of anchors i = (case map_of anchors i of None \<Rightarrow> [] | Some m \<Rightarrow> m)"

definition previous_of :: "index_state \<Rightarrow> string \<Rightarrow> (string \<times> candidate) list" where
  "previous_of s key = (case map_of (ix_reports s) key of None \<Rightarrow> [] | Some r \<Rightarrow> ir_candidates r)"

text \<open>The loop over the previous candidates that the new report no longer has.\<close>

fun resolve :: "(string \<Rightarrow> string) \<Rightarrow> string \<Rightarrow> string \<Rightarrow> (string \<times> candidate) list \<Rightarrow> (string \<times> candidate) list
    \<Rightarrow> (string \<times> (string \<times> candidate) list) list \<Rightarrow> resolution list \<times> (string \<times> (string \<times> candidate) list) list" where
  "resolve sha work key nxt [] anchors = ([], anchors)"
| "resolve sha work key nxt ((i, old) # olds) anchors =
     (if i \<in> fst ` set nxt then resolve sha work key nxt olds anchors
      else
        (let mine = map (\<lambda>(k, other). \<lparr>rs_current_work = work, rs_other_work = cd_work_id other, rs_subject_id = i,
               rs_pair_id = pairId sha i (cd_work_id old) (cd_work_id other)\<rparr>)
               (filter (\<lambda>(k, other). cd_work_id other \<noteq> work) (matches_of anchors i));
             (rest, out) = resolve sha work key nxt olds (drop_anchor key i anchors) in
         (mine @ rest, out)))"

definition pairs_at :: "(string \<Rightarrow> string) \<Rightarrow> string \<Rightarrow> string \<Rightarrow> (string \<times> (string \<times> candidate) list) list
    \<Rightarrow> string \<times> candidate \<Rightarrow> correspondence_pair list" where
  "pairs_at sha work key anchors ic =
     map (\<lambda>(k, other). correspondencePair sha (snd ic) other)
       (filter (\<lambda>(k, other). k \<noteq> key \<and> cd_work_id other \<noteq> work) (matches_of anchors (fst ic)))"

text \<open>\<open>localeCompare\<close> on identities in lowercase hexadecimal is the order of code units.\<close>

definition sort_pairs :: "correspondence_pair list \<Rightarrow> correspondence_pair list" where
  "sort_pairs ps = sort_key (\<lambda>p. (utf16 (cp_subject_id p), utf16 (cp_other_work p))) ps"

definition sort_resolved :: "resolution list \<Rightarrow> resolution list" where
  "sort_resolved rs = sort_key (\<lambda>r. (utf16 (rs_subject_id r), utf16 (rs_other_work r))) rs"

definition evidence_of :: "(string \<times> candidate) list \<Rightarrow> string \<Rightarrow> string option" where
  "evidence_of cs i = map_option (\<lambda>c. cc_evidence_id (cd_change c)) (map_of cs i)"

definition upsert :: "(string \<Rightarrow> string) \<Rightarrow> index_state \<Rightarrow> attributed_comparison
    \<Rightarrow> (index_state \<times> correspondence_pair list \<times> resolution list) res" where
  "upsert sha s report =
     (let work = ac_work_id report; path = source_path (sr_source (sc_input (ac_comparison report))); key = report_key work path in
      andThen (candidates sha report) (\<lambda>nxt.
      (let previous = previous_of s key in
       andThen (guard_fail (map_of (ix_reports s) key = None \<and> MAX_REPORTS \<le> length (ix_reports s)
           \<or> int MAX_ANCHORS < ix_size s - int (length previous) + int (length nxt)) CORRESPONDENCE_CAPACITY) (\<lambda>_.
       (case resolve sha work key nxt previous (ix_anchors s) of (resolved, cleared) \<Rightarrow>
          let anchors = fold (add_anchor key) nxt cleared;
              pairs = concat (map (pairs_at sha work key anchors)
                (filter (\<lambda>(i, c). evidence_of previous i \<noteq> Some (cc_evidence_id (cd_change c))) nxt)) in
          Inr (\<lparr>ix_reports = AList.update key \<lparr>ir_work_id = work, ir_path = path, ir_candidates = nxt\<rparr> (ix_reports s),
                ix_anchors = anchors, ix_size = ix_size s + int (length nxt) - int (length previous)\<rparr>,
               sort_pairs pairs, sort_resolved resolved))))))"

definition pairsFor :: "(string \<Rightarrow> string) \<Rightarrow> index_state \<Rightarrow> string \<Rightarrow> string \<Rightarrow> correspondence_pair list" where
  "pairsFor sha s work path =
     (case map_of (ix_reports s) (report_key work path) of
        None \<Rightarrow> []
      | Some r \<Rightarrow> sort_pairs (concat (map (pairs_at sha work (report_key work path) (ix_anchors s)) (ir_candidates r))))"

definition remove_report :: "index_state \<Rightarrow> string \<times> indexed_report \<Rightarrow> index_state" where
  "remove_report s kr =
     \<lparr>ix_reports = AList.delete (fst kr) (ix_reports s),
      ix_anchors = fold (drop_anchor (fst kr)) (map fst (ir_candidates (snd kr))) (ix_anchors s),
      ix_size = ix_size s - int (length (ir_candidates (snd kr)))\<rparr>"

definition remove_work :: "index_state \<Rightarrow> string \<Rightarrow> index_state" where
  "remove_work s work = fold (\<lambda>kr s. remove_report s kr) (filter (\<lambda>(k, r). ir_work_id r = work) (ix_reports s)) s"

end
