(* ===== verification/Correspondence_Facts.thy ===== *)
theory Correspondence_Facts
  imports Correspondence
begin

text \<open>
  What the correspondence index promises: its reverse index and its count are functions of
  the indexed reports, and the pairs and resolutions it returns are those that a search of
  all reports finds.
\<close>

section \<open>The reverse index as a function\<close>

type_synonym anchors = "(string \<times> (string \<times> candidate) list) list"

definition anchors_ok :: "anchors \<Rightarrow> bool" where
  "anchors_ok a = (distinct (map fst a) \<and> (\<forall>i. map_of a i \<noteq> Some []) \<and> (\<forall>i. distinct (map fst (matches_of a i))))"

named_theorems index_simps

lemma map_of_drop: "map_of (drop_anchor key i a) =
    (if map_of a i = None then map_of a
     else (map_of a)(i := (if AList.delete key (matches_of a i) = [] then None else Some (AList.delete key (matches_of a i)))))"
  by (auto simp: drop_anchor_def matches_of_def Let_def delete_conv' update_conv' split: option.split)

lemma matches_drop [index_simps]:
  "matches_of (drop_anchor key i a) j = (if j = i then AList.delete key (matches_of a i) else matches_of a j)"
  by (auto simp: matches_of_def map_of_drop split: option.splits)

lemma map_of_add: "map_of (add_anchor key (i, c) a) = (map_of a)(i \<mapsto> AList.update key c (matches_of a i))"
  by (simp add: add_anchor_def matches_of_def update_conv')

lemma matches_add [index_simps]:
  "matches_of (add_anchor key (i, c) a) j = (if j = i then AList.update key c (matches_of a i) else matches_of a j)"
  by (simp add: matches_of_def [of "add_anchor key (i, c) a"] map_of_add) (simp add: matches_of_def)

lemma anchors_ok_drop: "anchors_ok a \<Longrightarrow> anchors_ok (drop_anchor key i a)"
  unfolding anchors_ok_def
  by (auto simp: matches_drop map_of_drop distinct_delete)
    (auto simp: drop_anchor_def Let_def distinct_delete distinct_update split: option.split)

lemma anchors_ok_add: "anchors_ok a \<Longrightarrow> anchors_ok (add_anchor key (i, c) a)"
  unfolding anchors_ok_def
  by (auto simp: matches_add map_of_add distinct_update) (auto simp: add_anchor_def distinct_update)

lemma matches_fold_drop [index_simps]:
  "matches_of (fold (drop_anchor key) xs a) j = (if j \<in> set xs then AList.delete key (matches_of a j) else matches_of a j)"
  by (induction xs arbitrary: a) (auto simp: matches_drop AList.delete_eq filter_filter)

lemma matches_fold_add [index_simps]:
  "distinct (map fst cs) \<Longrightarrow> matches_of (fold (add_anchor key) cs a) j =
    (case map_of cs j of None \<Rightarrow> matches_of a j | Some c \<Rightarrow> AList.update key c (matches_of a j))"
  by (induction cs arbitrary: a) (auto simp: matches_add image_iff split: option.split dest: map_of_SomeD)

lemma anchors_ok_drops: "anchors_ok a \<Longrightarrow> anchors_ok (fold (drop_anchor key) xs a)"
  by (induction xs arbitrary: a) (simp_all add: anchors_ok_drop)

lemma anchors_ok_adds: "anchors_ok a \<Longrightarrow> anchors_ok (fold (add_anchor key) cs a)"
  by (induction cs arbitrary: a) (auto simp: anchors_ok_add)

section \<open>Candidates\<close>

definition candidates_ok :: "string \<Rightarrow> (string \<times> candidate) list \<Rightarrow> bool" where
  "candidates_ok work cs = (distinct (map fst cs) \<and> length cs \<le> MAX_ANCHORS_PER_REPORT
     \<and> (\<forall>(i, c) \<in> set cs. cd_subject_id c = i \<and> cd_work_id c = work))"

lemma candidates_ok_filter: "candidates_ok work cs \<Longrightarrow> candidates_ok work (filter p cs)"
  unfolding candidates_ok_def by (auto simp: distinct_map_filter intro: order_trans [OF length_filter_le])

lemma candidates_ok_add:
  "candidates_ok (ac_work_id r) cs \<Longrightarrow> i \<notin> fst ` set cs \<Longrightarrow> length cs < MAX_ANCHORS_PER_REPORT
    \<Longrightarrow> i = cd_subject_id (candidate_of sha r c source d) \<Longrightarrow> candidates_ok (ac_work_id r) (cs @ [(i, candidate_of sha r c source d)])"
  by (auto simp: candidates_ok_def candidate_of_def)

lemma collect_ok:
  "collect sha r source cs found twice = Inr (found', twice') \<Longrightarrow> candidates_ok (ac_work_id r) found
    \<Longrightarrow> candidates_ok (ac_work_id r) found'"
proof (induction cs arbitrary: found twice)
  case (Cons c cs)
  have step: "candidates_ok (ac_work_id r) (found @ [(cd_subject_id e, e)])"
    if "cd_subject_id e \<notin> fst ` set found" "\<not> MAX_ANCHORS_PER_REPORT < Suc (length found + n)" "e = candidate_of sha r c source d" for e d n
    using candidates_ok_add [OF Cons.prems(2) that(1)] that(2,3) by simp
  show ?case
    using Cons.prems(1) Cons.IH [OF _ Cons.prems(2)] Cons.IH [OF _ step]
    by (simp add: Let_def andThen_Inr_iff guard_fail_Inr split: if_splits option.split_asm) blast+
qed simp

lemma candidates_accepted: "candidates sha r = Inr cs \<Longrightarrow> candidates_ok (ac_work_id r) cs"
proof -
  assume cs: "candidates sha r = Inr cs"
  have "cs = [] \<or> (\<exists>found twice. collect sha r (sr_source (sc_input (ac_comparison r))) (sc_changes (ac_comparison r)) [] [] = Inr (found, twice)
      \<and> cs = filter (\<lambda>(i, e). i \<notin> set twice) found)"
    using cs unfolding candidates_def Let_def by (simp add: andThen_Inr_iff split: if_splits prod.split_asm) metis
  moreover have "candidates_ok (ac_work_id r) []" by (simp add: candidates_ok_def)
  ultimately show ?thesis using collect_ok candidates_ok_filter by blast
qed

section \<open>The index as a function of the reports\<close>

type_synonym reports = "(string \<times> indexed_report) list"

text \<open>The reports that hold a candidate of one declaration, found by searching them all.\<close>

definition holders :: "reports \<Rightarrow> string \<Rightarrow> (string \<times> candidate) list" where
  "holders reps i = List.map_filter (\<lambda>(k, r). map_option (Pair k) (map_of (ir_candidates r) i)) reps"

definition total :: "reports \<Rightarrow> int" where
  "total reps = sum_list (map (\<lambda>(k, r). int (length (ir_candidates r))) reps)"

definition reports_ok :: "reports \<Rightarrow> bool" where
  "reports_ok reps = (distinct (map fst reps) \<and> length reps \<le> MAX_REPORTS
     \<and> (\<forall>(k, r) \<in> set reps. k = report_key (ir_work_id r) (ir_path r) \<and> candidates_ok (ir_work_id r) (ir_candidates r)))"

definition index_ok :: "index_state \<Rightarrow> bool" where
  "index_ok s = (reports_ok (ix_reports s) \<and> anchors_ok (ix_anchors s)
     \<and> (\<forall>i. map_of (matches_of (ix_anchors s) i) = map_of (holders (ix_reports s) i))
     \<and> ix_size s = total (ix_reports s) \<and> ix_size s \<le> int MAX_ANCHORS)"

lemma mset_map_of:
  "distinct (map fst xs) \<Longrightarrow> distinct (map fst ys) \<Longrightarrow> map_of xs = map_of ys \<Longrightarrow> mset xs = mset ys"
  by (simp add: distinct_map map_of_inject_set flip: set_eq_iff_mset_eq_distinct)

lemma holders_keys: "fst ` set (holders reps i) \<subseteq> fst ` set reps"
  by (force simp: holders_def List.map_filter_def split: option.splits)

lemma holders_Cons: "holders ((k, r) # reps) i =
    (case map_of (ir_candidates r) i of None \<Rightarrow> holders reps i | Some c \<Rightarrow> (k, c) # holders reps i)"
  by (simp add: holders_def List.map_filter_simps split: option.split)

lemma holders_distinct: "distinct (map fst reps) \<Longrightarrow> distinct (map fst (holders reps i))"
proof (induction reps)
  case (Cons kr reps)
  then show ?case using holders_keys [of reps i] by (cases kr) (auto simp: holders_Cons split: option.split)
qed (simp add: holders_def List.map_filter_simps)

lemma map_of_holders:
  "distinct (map fst reps) \<Longrightarrow> map_of (holders reps i) k = Option.bind (map_of reps k) (\<lambda>r. map_of (ir_candidates r) i)"
proof (induction reps)
  case (Cons kr reps)
  obtain k' r where kr: "kr = (k', r)" by (cases kr)
  have "map_of (holders reps i) k' = None"
    using Cons.prems holders_keys [of reps i] by (auto simp: kr map_of_eq_None_iff)
  then show ?case using Cons by (auto simp: kr holders_Cons split: option.split)
qed (simp add: holders_def List.map_filter_simps)

lemma total_update: "total (AList.update k r reps) =
    total reps + int (length (ir_candidates r)) - (case map_of reps k of None \<Rightarrow> 0 | Some q \<Rightarrow> int (length (ir_candidates q)))"
  by (induction reps) (auto simp: total_def split: option.split)

lemma length_update: "length (AList.update k r reps) = length reps + (if map_of reps k = None then 1 else 0)"
  by (induction reps) auto

lemma set_update_in: "x \<in> set (AList.update k r reps) \<Longrightarrow> x = (k, r) \<or> x \<in> set reps"
  by (induction reps) (auto split: if_splits)

lemma matches_mset: "index_ok s \<Longrightarrow> mset (matches_of (ix_anchors s) i) = mset (holders (ix_reports s) i)"
  by (rule mset_map_of) (auto simp: index_ok_def anchors_ok_def reports_ok_def holders_distinct)

section \<open>The specification over the reports\<close>

definition pairs_found :: "(string \<Rightarrow> string) \<Rightarrow> string \<Rightarrow> string \<Rightarrow> reports \<Rightarrow> string \<times> candidate \<Rightarrow> correspondence_pair list" where
  "pairs_found sha work key reps ic = map (\<lambda>(k, other). correspondencePair sha (snd ic) other)
     (filter (\<lambda>(k, other). k \<noteq> key \<and> cd_work_id other \<noteq> work) (holders reps (fst ic)))"

definition pair_ends :: "(string \<Rightarrow> string) \<Rightarrow> string \<Rightarrow> string \<times> candidate \<Rightarrow> (string \<times> candidate) list \<Rightarrow> resolution list" where
  "pair_ends sha work io ms = map (\<lambda>(k, other). \<lparr>rs_current_work = work, rs_other_work = cd_work_id other, rs_subject_id = fst io,
       rs_pair_id = pairId sha (fst io) (cd_work_id (snd io)) (cd_work_id other)\<rparr>)
     (filter (\<lambda>(k, other). cd_work_id other \<noteq> work) ms)"

definition candidates_at :: "reports \<Rightarrow> string \<Rightarrow> (string \<times> candidate) list" where
  "candidates_at reps key = (case map_of reps key of None \<Rightarrow> [] | Some r \<Rightarrow> ir_candidates r)"

text \<open>The update of a report, over the reports alone: the new reports, the pairs that are
  new or whose evidence changed, and the pairs that ended.\<close>

definition spec_upsert :: "(string \<Rightarrow> string) \<Rightarrow> reports \<Rightarrow> attributed_comparison
    \<Rightarrow> (reports \<times> correspondence_pair multiset \<times> resolution multiset) res" where
  "spec_upsert sha reps report =
     (let work = ac_work_id report; path = source_path (sr_source (sc_input (ac_comparison report))); key = report_key work path in
      andThen (candidates sha report) (\<lambda>nxt.
      (let old = candidates_at reps key; new = AList.update key \<lparr>ir_work_id = work, ir_path = path, ir_candidates = nxt\<rparr> reps in
       andThen (guard_fail (MAX_REPORTS < length new \<or> int MAX_ANCHORS < total new) CORRESPONDENCE_CAPACITY) (\<lambda>_.
        Inr (new,
          mset (concat (map (pairs_found sha work key new) (filter (\<lambda>(i, c). evidence_of old i \<noteq> Some (cc_evidence_id (cd_change c))) nxt))),
          mset (concat (map (\<lambda>io. pair_ends sha work io (holders reps (fst io))) (filter (\<lambda>(i, c). i \<notin> fst ` set nxt) old))))))))"

definition spec_pairs :: "(string \<Rightarrow> string) \<Rightarrow> reports \<Rightarrow> string \<Rightarrow> string \<Rightarrow> correspondence_pair list" where
  "spec_pairs sha reps work path =
     concat (map (pairs_found sha work (report_key work path) reps) (candidates_at reps (report_key work path)))"

section \<open>The loops\<close>

lemma resolve_anchors: "snd (resolve sha work key nxt olds a) =
    fold (drop_anchor key) (filter (\<lambda>i. i \<notin> fst ` set nxt) (map fst olds)) a"
proof (induction olds arbitrary: a)
  case (Cons io olds)
  then show ?case by (cases io) (simp add: Let_def case_prod_unfold)
qed simp

lemma resolve_pairs: "distinct (map fst olds) \<Longrightarrow> fst (resolve sha work key nxt olds a) =
    concat (map (\<lambda>io. pair_ends sha work io (matches_of a (fst io))) (filter (\<lambda>(i, c). i \<notin> fst ` set nxt) olds))"
proof (induction olds arbitrary: a)
  case (Cons io olds)
  obtain i old where io: "io = (i, old)" by (cases io)
  have same: "concat (map (\<lambda>io. pair_ends sha work io (matches_of (drop_anchor key i a) (fst io))) (filter (\<lambda>(i, c). i \<notin> fst ` set nxt) olds))
      = concat (map (\<lambda>io. pair_ends sha work io (matches_of a (fst io))) (filter (\<lambda>(i, c). i \<notin> fst ` set nxt) olds))"
    using Cons.prems by (intro arg_cong [where f = concat] map_cong refl) (auto simp: io matches_drop image_iff)
  show ?case
    using Cons.prems Cons.IH [of a] Cons.IH [of "drop_anchor key i a"] same
    by (auto simp: io Let_def pair_ends_def case_prod_unfold)
qed simp

section \<open>Every operation is the specified one\<close>

lemma mset_concat_map: "(\<And>x. x \<in> set xs \<Longrightarrow> mset (f x) = mset (g x)) \<Longrightarrow> mset (concat (map f xs)) = mset (concat (map g xs))"
  by (induction xs) auto

lemma pairs_at_mset: "index_ok s \<Longrightarrow> mset (pairs_at sha work key (ix_anchors s) ic) = mset (pairs_found sha work key (ix_reports s) ic)"
  by (simp add: pairs_at_def pairs_found_def matches_mset)

lemma pair_ends_mset: "mset ms = mset ns \<Longrightarrow> mset (pair_ends sha work io ms) = mset (pair_ends sha work io ns)"
  by (simp add: pair_ends_def)

text \<open>The state that an accepted update leaves.\<close>

definition updated_index :: "index_state \<Rightarrow> string \<Rightarrow> indexed_report \<Rightarrow> index_state" where
  "updated_index s key r = \<lparr>ix_reports = AList.update key r (ix_reports s),
     ix_anchors = fold (add_anchor key) (ir_candidates r)
       (fold (drop_anchor key) (filter (\<lambda>i. i \<notin> fst ` set (ir_candidates r)) (map fst (candidates_at (ix_reports s) key))) (ix_anchors s)),
     ix_size = ix_size s + int (length (ir_candidates r)) - int (length (candidates_at (ix_reports s) key))\<rparr>"

lemma candidates_at_distinct: "reports_ok reps \<Longrightarrow> distinct (map fst (candidates_at reps key))"
  by (cases "map_of reps key") (auto simp: reports_ok_def candidates_at_def candidates_ok_def dest!: map_of_SomeD)

lemma updated_total: "total (AList.update key r reps) =
    total reps + int (length (ir_candidates r)) - int (length (candidates_at reps key))"
  by (simp add: total_update candidates_at_def split: option.split)

lemma updated_anchors:
  assumes ok: "index_ok s" and r: "candidates_ok work (ir_candidates r)"
  shows "map_of (matches_of (ix_anchors (updated_index s key r)) i) = map_of (holders (AList.update key r (ix_reports s)) i)"
proof
  fix k
  let ?old = "candidates_at (ix_reports s) key"
  have d: "distinct (map fst (ix_reports s))" "distinct (map fst (ir_candidates r))"
    using ok r by (auto simp: index_ok_def reports_ok_def candidates_ok_def)
  have before: "map_of (matches_of (ix_anchors s) i) k = Option.bind (map_of (ix_reports s) k) (\<lambda>q. map_of (ir_candidates q) i)"
    using ok d(1) by (simp add: index_ok_def map_of_holders)
  have old: "i \<notin> fst ` set ?old \<Longrightarrow> map_of (matches_of (ix_anchors s) i) key = None"
    using ok d(1) by (auto simp: index_ok_def map_of_holders candidates_at_def map_of_eq_None_iff split: option.splits bind_splits)
  have nxt: "(i \<in> fst ` set (ir_candidates r)) = (map_of (ir_candidates r) i \<noteq> None)" by (simp add: map_of_eq_None_iff)
  show "map_of (matches_of (ix_anchors (updated_index s key r)) i) k = map_of (holders (AList.update key r (ix_reports s)) i) k"
    using before old d
    by (cases "map_of (ir_candidates r) i"; cases "i \<in> fst ` set ?old"; cases "k = key")
      (simp_all add: updated_index_def index_simps map_of_holders distinct_update update_conv' delete_conv' nxt)
qed

lemma updated_ok:
  assumes ok: "index_ok s" and r: "candidates_ok (ir_work_id r) (ir_candidates r)" and key: "key = report_key (ir_work_id r) (ir_path r)"
    and fits: "length (AList.update key r (ix_reports s)) \<le> MAX_REPORTS" "total (AList.update key r (ix_reports s)) \<le> int MAX_ANCHORS"
  shows "index_ok (updated_index s key r)"
proof -
  have "reports_ok (AList.update key r (ix_reports s))"
    using ok r fits(1) key by (auto simp: index_ok_def reports_ok_def distinct_update dest!: set_update_in)
  moreover have "anchors_ok (ix_anchors (updated_index s key r))"
    using ok by (auto simp: index_ok_def updated_index_def intro!: anchors_ok_adds anchors_ok_drops)
  moreover have "ix_size (updated_index s key r) = total (AList.update key r (ix_reports s))"
    using ok by (simp add: updated_total index_ok_def updated_index_def)
  ultimately show ?thesis
    using updated_anchors [OF ok r] fits(2) by (simp add: index_ok_def) (simp add: updated_index_def)
qed

lemma upsert_result:
  assumes ok: "index_ok s" and nxt: "candidates sha report = Inr nxt"
    and key: "key = report_key (ac_work_id report) (source_path (sr_source (sc_input (ac_comparison report))))"
    and r: "r = \<lparr>ir_work_id = ac_work_id report, ir_path = source_path (sr_source (sc_input (ac_comparison report))), ir_candidates = nxt\<rparr>"
  shows "upsert sha s report =
    (if length (AList.update key r (ix_reports s)) \<le> MAX_REPORTS \<and> total (AList.update key r (ix_reports s)) \<le> int MAX_ANCHORS
     then Inr (updated_index s key r,
       sort_pairs (concat (map (pairs_at sha (ac_work_id report) key (ix_anchors (updated_index s key r)))
         (filter (\<lambda>(i, c). evidence_of (candidates_at (ix_reports s) key) i \<noteq> Some (cc_evidence_id (cd_change c))) nxt))),
       sort_resolved (concat (map (\<lambda>io. pair_ends sha (ac_work_id report) io (matches_of (ix_anchors s) (fst io)))
         (filter (\<lambda>(i, c). i \<notin> fst ` set nxt) (candidates_at (ix_reports s) key)))))
     else fail CORRESPONDENCE_CAPACITY)"
proof -
  let ?old = "candidates_at (ix_reports s) key" and ?work = "ac_work_id report"
  have old: "previous_of s key = ?old" by (simp add: previous_of_def candidates_at_def)
  have d: "distinct (map fst ?old)" using ok candidates_at_distinct by (simp add: index_ok_def)
  have bound: "(map_of (ix_reports s) key = None \<and> MAX_REPORTS \<le> length (ix_reports s)
      \<or> int MAX_ANCHORS < ix_size s - int (length ?old) + int (length nxt)) =
    (\<not> (length (AList.update key r (ix_reports s)) \<le> MAX_REPORTS \<and> total (AList.update key r (ix_reports s)) \<le> int MAX_ANCHORS))"
    using ok by (auto simp: index_ok_def reports_ok_def length_update updated_total r)
  show ?thesis
    using resolve_pairs [OF d, of sha ?work key nxt "ix_anchors s"] resolve_anchors [of sha ?work key nxt ?old "ix_anchors s"]
    unfolding upsert_def Let_def nxt andThen_simps key [symmetric] old bound guard_fail_def updated_index_def
    by (auto simp: r case_prod_unfold)
qed

lemma sorted_mset [simp]: "mset (sort_pairs ps) = mset ps" "mset (sort_resolved rs) = mset rs"
  by (simp_all add: sort_pairs_def sort_resolved_def)

text \<open>What a caller sees of an update: the reports, the pairs and the resolutions.\<close>

definition update_view :: "index_state \<times> correspondence_pair list \<times> resolution list
    \<Rightarrow> reports \<times> correspondence_pair multiset \<times> resolution multiset" where
  "update_view u = (case u of (t, pairs, resolved) \<Rightarrow> (ix_reports t, mset pairs, mset resolved))"

lemma upsert_refines:
  assumes ok: "index_ok s"
  shows "map_sum id update_view (upsert sha s report) = spec_upsert sha (ix_reports s) report"
    and "upsert sha s report = Inr (t, pairs, resolved) \<Longrightarrow> index_ok t"
proof -
  define work where "work = ac_work_id report"
  define path where "path = source_path (sr_source (sc_input (ac_comparison report)))"
  define key where "key = report_key work path"
  let ?old = "candidates_at (ix_reports s) key"
  have "map_sum id update_view (upsert sha s report) = spec_upsert sha (ix_reports s) report
      \<and> (\<forall>t pairs resolved. upsert sha s report = Inr (t, pairs, resolved) \<longrightarrow> index_ok t)"
  proof (cases "candidates sha report")
    case (Inl e)
    then show ?thesis by (simp add: upsert_def spec_upsert_def Let_def)
  next
    case (Inr nxt)
    define r where "r = \<lparr>ir_work_id = work, ir_path = path, ir_candidates = nxt\<rparr>"
    let ?new = "AList.update key r (ix_reports s)"
    note result = upsert_result [OF ok Inr, of key r, folded work_def path_def, OF key_def r_def]
    have cands: "candidates_ok (ir_work_id r) (ir_candidates r)" using candidates_accepted [OF Inr] by (simp add: r_def work_def)
    have ok': "index_ok (updated_index s key r)" if "length ?new \<le> MAX_REPORTS" "total ?new \<le> int MAX_ANCHORS"
      by (rule updated_ok [OF ok cands _ that]) (simp add: r_def key_def)
    have new: "ix_reports (updated_index s key r) = ?new" by (simp add: updated_index_def)
    have pairs: "mset (concat (map (pairs_at sha work key (ix_anchors (updated_index s key r))) xs)) = mset (concat (map (pairs_found sha work key ?new) xs))"
      if "length ?new \<le> MAX_REPORTS" "total ?new \<le> int MAX_ANCHORS" for xs
      using pairs_at_mset [OF ok' [OF that]] by (intro mset_concat_map) (simp add: new)
    have ends: "mset (concat (map (\<lambda>io. pair_ends sha work io (matches_of (ix_anchors s) (fst io))) xs))
        = mset (concat (map (\<lambda>io. pair_ends sha work io (holders (ix_reports s) (fst io))) xs))" for xs
      by (intro mset_concat_map pair_ends_mset matches_mset ok)
    show ?thesis
      using ok' pairs ends
      by (simp add: result spec_upsert_def Let_def Inr guard_fail_def update_view_def new not_le
          flip: work_def path_def key_def r_def)
  qed
  then show "map_sum id update_view (upsert sha s report) = spec_upsert sha (ix_reports s) report"
    and "upsert sha s report = Inr (t, pairs, resolved) \<Longrightarrow> index_ok t" by blast+
qed

lemma pairsFor_refines: "index_ok s \<Longrightarrow> mset (pairsFor sha s work path) = mset (spec_pairs sha (ix_reports s) work path)"
  by (auto simp: pairsFor_def spec_pairs_def candidates_at_def split: option.split intro!: mset_concat_map pairs_at_mset)

section \<open>Removing a work\<close>

lemma removed_total:
  "distinct (map fst reps) \<Longrightarrow> (k, r) \<in> set reps \<Longrightarrow> total (AList.delete k reps) = total reps - int (length (ir_candidates r))"
proof (induction reps)
  case (Cons kr reps)
  then show ?case
    by (cases kr) (auto simp: total_def AList.delete_eq image_iff filter_id_conv split_beta intro: arg_cong [where f = "\<lambda>xs. sum_list (map _ xs)"])
qed simp

lemma remove_report_anchors:
  assumes ok: "index_ok s" and r: "map_of (ix_reports s) k = Some r"
  shows "map_of (matches_of (ix_anchors (remove_report s (k, r))) i) = map_of (holders (AList.delete k (ix_reports s)) i)"
proof
  fix k'
  have d: "distinct (map fst (ix_reports s))" using ok by (simp add: index_ok_def reports_ok_def)
  have before: "map_of (matches_of (ix_anchors s) i) k' = Option.bind (map_of (ix_reports s) k') (\<lambda>q. map_of (ir_candidates q) i)"
    using ok d by (simp add: index_ok_def map_of_holders)
  have none: "i \<notin> fst ` set (ir_candidates r) \<Longrightarrow> map_of (ir_candidates r) i = None" by (simp add: map_of_eq_None_iff)
  show "map_of (matches_of (ix_anchors (remove_report s (k, r))) i) k' = map_of (holders (AList.delete k (ix_reports s)) i) k'"
    using before none d r
    by (cases "i \<in> fst ` set (ir_candidates r)"; cases "k' = k")
      (simp_all add: remove_report_def index_simps map_of_holders distinct_delete delete_conv')
qed

lemma remove_report_ok:
  assumes ok: "index_ok s" and r: "map_of (ix_reports s) k = Some r"
  shows "index_ok (remove_report s (k, r))"
proof -
  have d: "distinct (map fst (ix_reports s))" and mem: "(k, r) \<in> set (ix_reports s)"
    using ok r by (auto simp: index_ok_def reports_ok_def dest: map_of_SomeD)
  have size: "ix_size (remove_report s (k, r)) = total (AList.delete k (ix_reports s))"
    using ok by (simp add: removed_total [OF d mem] index_ok_def remove_report_def)
  have "length (AList.delete k (ix_reports s)) \<le> MAX_REPORTS" "set (AList.delete k (ix_reports s)) \<subseteq> set (ix_reports s)"
    using ok by (auto simp: AList.delete_eq index_ok_def reports_ok_def intro: le_trans [OF length_filter_le])
  then have "reports_ok (AList.delete k (ix_reports s))"
    using ok distinct_delete [OF d] by (auto simp: index_ok_def reports_ok_def)
  then show ?thesis
    using ok size remove_report_anchors [OF ok r] anchors_ok_drops [of "ix_anchors s" k "map fst (ir_candidates r)"]
    by (simp add: index_ok_def) (simp add: remove_report_def)
qed

lemma remove_report_reports: "ix_reports (remove_report s kr) = AList.delete (fst kr) (ix_reports s)"
  by (simp add: remove_report_def)

lemma remove_reports_ok:
  "index_ok s \<Longrightarrow> distinct (map fst krs) \<Longrightarrow> \<forall>(k, r) \<in> set krs. map_of (ix_reports s) k = Some r
    \<Longrightarrow> index_ok (fold (\<lambda>kr s. remove_report s kr) krs s)
      \<and> ix_reports (fold (\<lambda>kr s. remove_report s kr) krs s) = filter (\<lambda>(k, r). k \<notin> fst ` set krs) (ix_reports s)"
proof (induction krs arbitrary: s)
  case (Cons kr krs)
  obtain k r where kr: "kr = (k, r)" by (cases kr)
  have "index_ok (remove_report s (k, r))" using Cons.prems by (intro remove_report_ok) (auto simp: kr)
  moreover have "k \<notin> fst ` set krs" using Cons.prems(2) by (simp add: kr)
  then have "map_of (ix_reports (remove_report s (k, r))) k' = Some r'" if "(k', r') \<in> set krs" for k' r'
    using that bspec [OF Cons.prems(3), of "(k', r')"] by (auto simp: kr remove_report_reports delete_conv' image_iff)
  then have "\<forall>(k', r') \<in> set krs. map_of (ix_reports (remove_report s (k, r))) k' = Some r'" by blast
  ultimately show ?case
    using Cons.IH [of "remove_report s (k, r)"] Cons.prems(2)
    by (auto simp: kr remove_report_reports AList.delete_eq intro!: filter_cong)
qed simp

lemma remove_refines:
  assumes "index_ok s"
  shows "index_ok (remove_work s work)" "ix_reports (remove_work s work) = filter (\<lambda>(k, r). ir_work_id r \<noteq> work) (ix_reports s)"
proof -
  let ?krs = "filter (\<lambda>(k, r). ir_work_id r = work) (ix_reports s)"
  have d: "distinct (map fst (ix_reports s))" using assms by (simp add: index_ok_def reports_ok_def)
  have "index_ok (remove_work s work) \<and> ix_reports (remove_work s work) = filter (\<lambda>(k, r). k \<notin> fst ` set ?krs) (ix_reports s)"
    unfolding remove_work_def using assms d by (intro remove_reports_ok) (auto simp: distinct_map_filter)
  moreover have "filter (\<lambda>(k, r). k \<notin> fst ` set ?krs) (ix_reports s) = filter (\<lambda>(k, r). ir_work_id r \<noteq> work) (ix_reports s)"
    using d by (intro filter_cong) (auto simp: eq_key_imp_eq_value image_iff dest: eq_key_imp_eq_value)
  ultimately show "index_ok (remove_work s work)" "ix_reports (remove_work s work) = filter (\<lambda>(k, r). ir_work_id r \<noteq> work) (ix_reports s)"
    by auto
qed

section \<open>Reachable indexes and both sides of a pair\<close>

inductive index_reached :: "(string \<Rightarrow> string) \<Rightarrow> index_state \<Rightarrow> bool" for sha where
  start: "index_reached sha empty_index"
| upsert: "index_reached sha s \<Longrightarrow> upsert sha s report = Inr (t, pairs, resolved) \<Longrightarrow> index_reached sha t"
| remove: "index_reached sha s \<Longrightarrow> index_reached sha (remove_work s work)"

lemma empty_index_ok: "index_ok empty_index"
  by (simp add: index_ok_def empty_index_def reports_ok_def anchors_ok_def matches_of_def holders_def total_def List.map_filter_simps)

lemma reached_ok: "index_reached sha s \<Longrightarrow> index_ok s"
  by (induction rule: index_reached.induct) (auto intro: empty_index_ok remove_refines dest: upsert_refines(2))

definition is_ascii :: "string \<Rightarrow> bool" where
  "is_ascii s = list_all (\<lambda>c. (of_char c :: nat) < 128) s"

lemma utf16_ascii: "is_ascii s \<Longrightarrow> utf16 s = map of_char s"
  by (induction s) (simp_all add: is_ascii_def)

lemma utf16_inj: "is_ascii a \<Longrightarrow> is_ascii b \<Longrightarrow> utf16 a = utf16 b \<Longrightarrow> a = b"
  by (simp add: utf16_ascii) (metis inj_map_eq_map inj_of_char)

lemma pairId_sym: "is_ascii a \<Longrightarrow> is_ascii b \<Longrightarrow> pairId sha i a b = pairId sha i b a"
  using utf16_inj [of a b] by (auto simp: pairId_def js_sort_def)

lemma report_key_inj: "report_key w p = report_key w' p' \<Longrightarrow> w = w' \<and> p = p'"
  using json_parse_stringify [of "JArr [JStr w, JStr p]"] json_parse_stringify [of "JArr [JStr w', JStr p']"]
  by (simp add: report_key_def)

lemma member_pairs: "p \<in> set (spec_pairs sha reps work path) \<longleftrightarrow>
    (\<exists>i c k o'. (i, c) \<in> set (candidates_at reps (report_key work path)) \<and> (k, o') \<in> set (holders reps i)
      \<and> k \<noteq> report_key work path \<and> cd_work_id o' \<noteq> work \<and> p = correspondencePair sha c o')"
  by (force simp: spec_pairs_def pairs_found_def)

lemma holder_report:
  assumes ok: "reports_ok reps" and k: "(k, c) \<in> set (holders reps i)"
  shows "\<exists>r. map_of reps k = Some r \<and> map_of (ir_candidates r) i = Some c \<and> k = report_key (ir_work_id r) (ir_path r)
    \<and> cd_work_id c = ir_work_id r \<and> cd_subject_id c = i"
proof -
  have d: "distinct (map fst reps)" using ok by (simp add: reports_ok_def)
  have "map_of (holders reps i) k = Some c" using k by (simp add: holders_distinct [OF d])
  then obtain r where r: "map_of reps k = Some r" "map_of (ir_candidates r) i = Some c"
    by (auto simp: map_of_holders [OF d] split: bind_splits)
  then show ?thesis
    using ok by (auto simp: reports_ok_def candidates_ok_def dest!: map_of_SomeD)
qed

lemma candidate_report:
  assumes ok: "reports_ok reps" and c: "(i, c) \<in> set (candidates_at reps k)"
  shows "(k, c) \<in> set (holders reps i)"
proof -
  have d: "distinct (map fst reps)" using ok by (simp add: reports_ok_def)
  have "map_of (candidates_at reps k) i = Some c" using c candidates_at_distinct [OF ok] by simp
  then have "map_of (holders reps i) k = Some c"
    by (auto simp: map_of_holders [OF d] candidates_at_def split: option.splits)
  then show ?thesis by (rule map_of_SomeD)
qed

text \<open>A pair is shown on both of its sides.\<close>

lemma pair_mirrored:
  assumes ok: "reports_ok reps" and p: "p \<in> set (spec_pairs sha reps work path)"
  shows "\<exists>path' q. q \<in> set (spec_pairs sha reps (cp_other_work p) path') \<and> cp_current_work p = work \<and> cp_current_work q = cp_other_work p
    \<and> cp_other_work q = work \<and> cp_subject_id q = cp_subject_id p \<and> cp_current_change q = cp_other_change p
    \<and> cp_other_change q = cp_current_change p \<and> (is_ascii work \<and> is_ascii (cp_other_work p) \<longrightarrow> cp_pair_id q = cp_pair_id p)"
proof -
  obtain i c k d where c: "(i, c) \<in> set (candidates_at reps (report_key work path))" and d: "(k, d) \<in> set (holders reps i)"
    and ne: "k \<noteq> report_key work path" "cd_work_id d \<noteq> work" and p': "p = correspondencePair sha c d"
    using p unfolding member_pairs by blast
  note mine = candidate_report [OF ok c]
  obtain r where r: "map_of reps k = Some r" "map_of (ir_candidates r) i = Some d" "k = report_key (ir_work_id r) (ir_path r)"
    "cd_work_id d = ir_work_id r" "cd_subject_id d = i" using holder_report [OF ok d] by blast
  have work: "cd_work_id c = work" "cd_subject_id c = i" using holder_report [OF ok mine] report_key_inj by blast+
  have "(i, d) \<in> set (candidates_at reps k)" using r(1,2) by (simp add: candidates_at_def map_of_SomeD)
  then have "correspondencePair sha d c \<in> set (spec_pairs sha reps (ir_work_id r) (ir_path r))"
    unfolding member_pairs using mine ne r(3,4) work by metis
  moreover have "pairId sha i (ir_work_id r) work = pairId sha i work (ir_work_id r)" if "is_ascii work \<and> is_ascii (ir_work_id r)"
    using that by (simp add: pairId_sym)
  ultimately show ?thesis
    using p' r(4,5) work by (intro exI [of _ "ir_path r"] exI [of _ "correspondencePair sha d c"]) (simp add: correspondencePair_def)
qed

end
