(* ===== verification/Examples_Observation.thy ===== *)
theory Examples_Observation
  imports Structural_Facts Correspondence_Facts
begin

text \<open>
  Concrete captures for the witnesses: one declaration captured twice with another signature,
  the comparison of the captures, and an index to which two works report it.
\<close>

definition demo_declaration :: "string \<Rightarrow> decl" where
  "demo_declaration sig = \<lparr>d_key = ''k'', d_kind = ''function'', d_name = Some ''f'', d_enclosing = [], d_start = 0, d_end = 4,
     d_signature = sig, d_parameters = [], d_result = Not_declared, d_header_complete = True, d_body = Some ''b'', d_defaults = []\<rparr>"

definition demo_capture :: "decl list \<Rightarrow> extraction" where
  "demo_capture ds = \<lparr>x_dialect = ''ts'', x_parser = ''p'', x_extractor = ''e'',
     x_source = \<lparr>sr_source = Git_source ''repo'' Sha1 ''c'' ''t'' ''a.ts'', sr_status = Present, sr_sha = None, sr_bytes = Some 100,
       sr_consistency = None, sr_mode = None, sr_entry = None, sr_object = None\<rparr>,
     x_coverage = Complete_extent, x_declarations = ds, x_remainder = Some ''r'', x_limitations = []\<rparr>"

definition demo_before :: extraction where "demo_before = demo_capture [demo_declaration ''f()'']"
definition demo_after :: extraction where "demo_after = demo_capture [demo_declaration ''f(x)'']"
definition demo_gone :: extraction where "demo_gone = demo_capture []"

lemma compared: "compareExtractions a b = Inr (comparison_of a b)"
  if "inspect_extraction a = Inr ()" "inspect_extraction b = Inr ()" "same_contract a b"
  using that by (simp add: compare_Inr)

lemma demo_inspected:
  "inspect_extraction demo_before = Inr ()" "inspect_extraction demo_after = Inr ()" "inspect_extraction demo_gone = Inr ()"
  by code_simp+

lemma demo_contract: "same_contract demo_before demo_after" "same_contract demo_before demo_gone" "same_contract demo_before demo_before"
  by code_simp+

lemma demo_compared:
  "compareExtractions demo_before demo_after = Inr (comparison_of demo_before demo_after)"
  "compareExtractions demo_before demo_gone = Inr (comparison_of demo_before demo_gone)"
  "compareExtractions demo_before demo_before = Inr (comparison_of demo_before demo_before)"
  using demo_inspected demo_contract by (simp_all add: compared)

definition demo_removal :: declaration_change where
  "demo_removal = left_over False True (demo_declaration ''f()'')"

lemma demo_removed: "sc_changes (comparison_of demo_before demo_gone) = [demo_removal]"
  by code_simp

definition demo_report :: "string \<Rightarrow> attributed_comparison" where
  "demo_report w = \<lparr>ac_work_id = w, ac_parent_id = ''parent'', ac_comparison = comparison_of demo_before demo_after\<rparr>"

definition digest_d :: "string \<Rightarrow> string" where "digest_d s = ''d''"

definition demo_first :: index_state where
  "demo_first = (case upsert digest_d empty_index (demo_report ''w1'') of Inr (t, ps, rs) \<Rightarrow> t | Inl e \<Rightarrow> empty_index)"

definition demo_second :: index_state where
  "demo_second = (case upsert digest_d demo_first (demo_report ''w2'') of Inr (t, ps, rs) \<Rightarrow> t | Inl e \<Rightarrow> empty_index)"

lemma demo_updates:
  "\<not> isl (upsert digest_d empty_index (demo_report ''w1''))" "\<not> isl (upsert digest_d demo_first (demo_report ''w2''))"
  by code_simp+

lemma demo_reached: "index_reached digest_d demo_first" "index_reached digest_d demo_second"
proof -
  have step: "index_reached digest_d (case upsert digest_d s r of Inr (t, ps, rs) \<Rightarrow> t | Inl e \<Rightarrow> empty_index)"
    if "index_reached digest_d s" "\<not> isl (upsert digest_d s r)" for s r
    using that index_reached.upsert by (cases "upsert digest_d s r") auto
  show one: "index_reached digest_d demo_first"
    unfolding demo_first_def by (rule step [OF index_reached.start demo_updates(1)])
  show "index_reached digest_d demo_second"
    unfolding demo_second_def by (rule step [OF one demo_updates(2)])
qed

lemma demo_pairs: "length (pairsFor digest_d demo_second ''w1'' ''a.ts'') = 1"
  by code_simp

end
