(* ===== verification/Task_Types.thy ===== *)
theory Task_Types
  imports Control_Text
begin

text \<open>
  The durable control of one task (src/src/contracts/tasks.ts and
  src/src/contracts/peer-delivery.ts): its data, its JSON value, and what its schema accepts.
  Formats that the schema library decides (UUIDs, timestamps) are parameters of the check.
\<close>

section \<open>Data\<close>

datatype task_phase = Queued_phase | Starting_phase | Active_phase | Awaiting_phase | Attention_phase | Stopping_phase
  | Finalizing_phase | Terminal_phase

datatype native_state = Not_started_native | Live_native | Stopped_native | Unknown_native
datatype native_coverage = Unknown_coverage | Turn_scoped

record native_process =
  np_pid :: nat
  np_boot :: string
  np_started :: string

record obligation =
  ob_id :: string
  ob_kind :: string

record native_evidence =
  nv_run :: string
  nv_state :: native_state
  nv_turn :: "string option"
  nv_session :: "string option"
  nv_process :: "native_process option"
  nv_obligations :: "obligation list"
  nv_coverage :: native_coverage
  nv_observed_at :: "string option"
  nv_limitation :: "string option"

record approval_choice =
  ch_id :: string
  ch_label :: string
  ch_decision :: string
  ch_scope :: string

record approval =
  ap_id :: string
  ap_tool :: string
  ap_raw_args :: string
  ap_subject :: jval
  ap_task_id :: "string option"
  ap_workspace :: "string option"
  ap_choices :: "approval_choice list"

datatype input_data = Permission approval | Clarification string "string list option" bool

datatype input_state = Input_pending | Answer_intent | Input_settled | Input_withdrawn | Delivery_unknown

record input_claim =
  ic_id :: string
  ic_client :: string
  ic_generation :: nat

record pending_input =
  pi_id :: string
  pi_native_id :: string
  pi_run :: string
  pi_turn :: string
  pi_data :: input_data
  pi_digest :: string
  pi_revision :: nat
  pi_state :: input_state
  pi_claim :: "input_claim option"
  pi_answer :: "string option"
  pi_key :: "string option"

datatype receipt_kind = Cancel_receipt | Input_receipt | Attach_receipt
datatype receipt_outcome = Accepted_outcome | Already_terminal | Intent_outcome | Adopted_outcome

record control_receipt =
  cr_key :: string
  cr_hash :: string
  cr_kind :: receipt_kind
  cr_outcome :: receipt_outcome
  cr_at :: string
  cr_input :: "string option"
  cr_generation :: nat

record cancellation =
  cn_reason :: string
  cn_at :: string
  cn_key :: string

text \<open>The parts that name one directed delivery, shared by envelopes and slots.\<close>

record envelope =
  en_id :: string
  en_key :: string
  en_task :: string
  en_run :: string
  en_generation :: nat
  en_workspace :: string
  en_fingerprint :: string
  en_source :: string
  en_source_revision :: nat
  en_case :: string
  en_case_revision :: nat
  en_case_generation :: nat
  en_evidence :: string
  en_evidence_revision :: nat
  en_digest :: string
  en_content :: string

datatype delivery_state = Del_queued | Del_intent | Del_delivered | Del_observed | Del_stale | Del_revoked | Del_cancelled
  | Del_replaced | Del_unknown

record delivery =
  dl_envelope :: envelope
  dl_state :: delivery_state
  dl_queued_at :: string
  dl_intent_at :: "string option"
  dl_delivered_at :: "string option"
  dl_observed_at :: "string option"
  dl_turn :: "string option"
  dl_session :: "string option"
  dl_disposition_at :: "string option"

datatype slot_state = Reserved_slot | Consumed_slot | Released_slot

record slot_identity =
  sl_key :: string
  sl_digest :: string
  sl_case :: string
  sl_expected_revision :: nat
  sl_case_revision :: nat
  sl_case_generation :: nat
  sl_task :: string
  sl_run :: string
  sl_generation :: nat
  sl_workspace :: string
  sl_fingerprint :: string
  sl_source :: string
  sl_source_revision :: nat

record slot =
  sl_identity :: slot_identity
  sl_state :: slot_state
  sl_delivery :: "string option"

text \<open>\<open>tc_slots\<close> is the list of schema version 3 and absent in version 2.\<close>

record task_control =
  tc_task_id :: string
  tc_revision :: nat
  tc_owner :: string
  tc_generation :: nat
  tc_phase :: task_phase
  tc_outcome :: "outcome option"
  tc_updated_at :: string
  tc_native :: native_evidence
  tc_inputs :: "pending_input list"
  tc_receipts :: "control_receipt list"
  tc_deliveries :: "delivery list option"
  tc_cancel :: "cancellation option"
  tc_settled :: "outcome option"
  tc_attention :: "string option"
  tc_telemetry_omitted :: bool
  tc_slots :: "slot list option"

abbreviation deliveries_of :: "task_control \<Rightarrow> delivery list" where
  "deliveries_of s \<equiv> (case tc_deliveries s of None \<Rightarrow> [] | Some ds \<Rightarrow> ds)"

abbreviation slots_of :: "task_control \<Rightarrow> slot list" where
  "slots_of s \<equiv> (case tc_slots s of None \<Rightarrow> [] | Some xs \<Rightarrow> xs)"

section \<open>JSON values\<close>

definition phases :: "(string \<times> task_phase) list" where
  "phases = [(''queued'', Queued_phase), (''starting'', Starting_phase), (''active'', Active_phase), (''awaiting_input'', Awaiting_phase),
     (''needs_attention'', Attention_phase), (''stopping'', Stopping_phase), (''finalizing'', Finalizing_phase), (''terminal'', Terminal_phase)]"
definition native_states :: "(string \<times> native_state) list" where
  "native_states = [(''not_started'', Not_started_native), (''observed_live'', Live_native), (''stopped'', Stopped_native), (''unknown'', Unknown_native)]"
definition coverages :: "(string \<times> native_coverage) list" where
  "coverages = [(''unknown'', Unknown_coverage), (''turn_scoped'', Turn_scoped)]"
definition input_states :: "(string \<times> input_state) list" where
  "input_states = [(''pending'', Input_pending), (''answer_intent'', Answer_intent), (''settled'', Input_settled),
     (''withdrawn'', Input_withdrawn), (''delivery_unknown'', Delivery_unknown)]"
definition receipt_kinds :: "(string \<times> receipt_kind) list" where
  "receipt_kinds = [(''cancel'', Cancel_receipt), (''input'', Input_receipt), (''attach'', Attach_receipt)]"
definition receipt_outcomes :: "(string \<times> receipt_outcome) list" where
  "receipt_outcomes = [(''accepted'', Accepted_outcome), (''already_terminal'', Already_terminal),
     (''answer_intent'', Intent_outcome), (''adopted'', Adopted_outcome)]"
definition delivery_states :: "(string \<times> delivery_state) list" where
  "delivery_states = [(''queued'', Del_queued), (''dispatch_intent'', Del_intent), (''delivered'', Del_delivered), (''observed'', Del_observed),
     (''stale'', Del_stale), (''revoked'', Del_revoked), (''cancelled'', Del_cancelled), (''replaced'', Del_replaced), (''unknown'', Del_unknown)]"
definition slot_states :: "(string \<times> slot_state) list" where
  "slot_states = [(''reserved'', Reserved_slot), (''consumed'', Consumed_slot), (''released'', Released_slot)]"

definition process_json :: "native_process \<Rightarrow> jval" where
  "process_json p = JObj [(''pid'', jnat (np_pid p)), (''boot_id'', JStr (np_boot p)), (''started'', JStr (np_started p))]"

definition obligation_json :: "obligation \<Rightarrow> jval" where
  "obligation_json b = JObj [(''id'', JStr (ob_id b)), (''kind'', JStr (ob_kind b))]"

definition native_json :: "native_evidence \<Rightarrow> jval" where
  "native_json n = JObj ([(''run_id'', JStr (nv_run n)), (''state'', literal native_states (nv_state n))]
     @ opt_field ''turn_id'' JStr (nv_turn n) @ opt_field ''native_session_id'' JStr (nv_session n)
     @ opt_field ''process'' process_json (nv_process n)
     @ [(''obligations'', jlist obligation_json (nv_obligations n)), (''coverage'', literal coverages (nv_coverage n))]
     @ opt_field ''last_observed_at'' JStr (nv_observed_at n) @ opt_field ''limitation'' JStr (nv_limitation n))"

definition approval_choice_json :: "approval_choice \<Rightarrow> jval" where
  "approval_choice_json c = JObj [(''id'', JStr (ch_id c)), (''label'', JStr (ch_label c)),
     (''decision'', JStr (ch_decision c)), (''scope'', JStr (ch_scope c))]"

definition approval_json :: "approval \<Rightarrow> jval" where
  "approval_json a = JObj ([(''id'', JStr (ap_id a)), (''tool'', JStr (ap_tool a)), (''raw_args'', JStr (ap_raw_args a)), (''subject'', ap_subject a)]
     @ opt_field ''task_id'' JStr (ap_task_id a) @ opt_field ''workspace'' JStr (ap_workspace a)
     @ [(''choices'', jlist approval_choice_json (ap_choices a))])"

definition input_data_json :: "input_data \<Rightarrow> jval" where
  "input_data_json d = (case d of
     Permission a \<Rightarrow> JObj [(''kind'', JStr ''permission''), (''approval'', approval_json a)]
   | Clarification q cs attention \<Rightarrow> JObj ([(''kind'', JStr ''clarification''), (''question'', JStr q)]
       @ opt_field ''choices'' jstrs cs @ [(''attention'', JBool attention)]))"

definition claim_json :: "input_claim \<Rightarrow> jval" where
  "claim_json c = JObj [(''id'', JStr (ic_id c)), (''client_id'', JStr (ic_client c)), (''control_generation'', jnat (ic_generation c))]"

definition input_json :: "pending_input \<Rightarrow> jval" where
  "input_json i = JObj ([(''input_id'', JStr (pi_id i)), (''native_id'', JStr (pi_native_id i)), (''run_id'', JStr (pi_run i)),
      (''turn_id'', JStr (pi_turn i)), (''data'', input_data_json (pi_data i)), (''digest'', JStr (pi_digest i)),
      (''revision'', jnat (pi_revision i)), (''state'', literal input_states (pi_state i))]
     @ opt_field ''claim'' claim_json (pi_claim i) @ opt_field ''answer'' JStr (pi_answer i) @ opt_field ''operation_key'' JStr (pi_key i))"

definition control_receipt_json :: "control_receipt \<Rightarrow> jval" where
  "control_receipt_json r = JObj ([(''operation_key'', JStr (cr_key r)), (''hash'', JStr (cr_hash r)),
      (''kind'', literal receipt_kinds (cr_kind r)), (''outcome'', literal receipt_outcomes (cr_outcome r)), (''at'', JStr (cr_at r))]
     @ opt_field ''input_id'' JStr (cr_input r) @ [(''generation'', jnat (cr_generation r))])"

definition cancellation_json :: "cancellation \<Rightarrow> jval" where
  "cancellation_json c = JObj [(''reason'', JStr (cn_reason c)), (''at'', JStr (cn_at c)), (''operation_key'', JStr (cn_key c))]"

definition envelope_json :: "envelope \<Rightarrow> jval" where
  "envelope_json e = JObj [(''schema_version'', JNum 1), (''delivery_id'', JStr (en_id e)), (''idempotency_key'', JStr (en_key e)),
     (''recipient_task_id'', JStr (en_task e)), (''recipient_run_id'', JStr (en_run e)), (''recipient_control_generation'', jnat (en_generation e)),
     (''recipient_workspace'', JStr (en_workspace e)), (''recipient_workspace_fingerprint'', JStr (en_fingerprint e)),
     (''source_work_id'', JStr (en_source e)), (''source_work_revision'', jnat (en_source_revision e)), (''case_id'', JStr (en_case e)),
     (''case_revision'', jnat (en_case_revision e)), (''case_generation'', jnat (en_case_generation e)), (''evidence_id'', JStr (en_evidence e)),
     (''evidence_revision'', jnat (en_evidence_revision e)), (''evidence_digest'', JStr (en_digest e)), (''content'', JStr (en_content e))]"

definition delivery_json :: "delivery \<Rightarrow> jval" where
  "delivery_json d = JObj ([(''envelope'', envelope_json (dl_envelope d)), (''state'', literal delivery_states (dl_state d)), (''queued_at'', JStr (dl_queued_at d))]
     @ opt_field ''dispatch_intent_at'' JStr (dl_intent_at d) @ opt_field ''delivered_at'' JStr (dl_delivered_at d)
     @ opt_field ''observed_at'' JStr (dl_observed_at d) @ opt_field ''native_turn_id'' JStr (dl_turn d)
     @ opt_field ''native_session_id'' JStr (dl_session d) @ opt_field ''disposition_at'' JStr (dl_disposition_at d))"

definition slot_fields :: "slot_identity \<Rightarrow> (string \<times> jval) list" where
  "slot_fields i = [(''schema_version'', JNum 1), (''operation_key'', JStr (sl_key i)), (''request_digest'', JStr (sl_digest i)), (''case_id'', JStr (sl_case i)),
     (''expected_case_revision'', jnat (sl_expected_revision i)), (''case_revision'', jnat (sl_case_revision i)), (''case_generation'', jnat (sl_case_generation i)),
     (''recipient_task_id'', JStr (sl_task i)), (''recipient_run_id'', JStr (sl_run i)), (''recipient_control_generation'', jnat (sl_generation i)),
     (''recipient_workspace'', JStr (sl_workspace i)), (''recipient_workspace_fingerprint'', JStr (sl_fingerprint i)),
     (''source_work_id'', JStr (sl_source i)), (''source_work_revision'', jnat (sl_source_revision i))]"

definition slot_json :: "slot \<Rightarrow> jval" where
  "slot_json x = JObj (slot_fields (sl_identity x) @ [(''state'', literal slot_states (sl_state x))] @ opt_field ''delivery_id'' JStr (sl_delivery x))"

definition task_control_json :: "task_control \<Rightarrow> jval" where
  "task_control_json s = JObj ([(''schema_version'', JNum (case tc_slots s of None \<Rightarrow> 2 | Some _ \<Rightarrow> 3)), (''task_id'', JStr (tc_task_id s)),
      (''revision'', jnat (tc_revision s)), (''owner_id'', JStr (tc_owner s)), (''control_generation'', jnat (tc_generation s)),
      (''phase'', literal phases (tc_phase s))] @ opt_field ''outcome'' (literal outcomes) (tc_outcome s)
     @ [(''updated_at'', JStr (tc_updated_at s)), (''native'', native_json (tc_native s)), (''inputs'', jlist input_json (tc_inputs s)),
      (''receipts'', jlist control_receipt_json (tc_receipts s))] @ opt_field ''peer_deliveries'' (jlist delivery_json) (tc_deliveries s)
     @ opt_field ''cancel'' cancellation_json (tc_cancel s) @ opt_field ''settled_outcome'' (literal outcomes) (tc_settled s)
     @ opt_field ''attention'' JStr (tc_attention s) @ [(''telemetry_omitted'', JBool (tc_telemetry_omitted s))]
     @ opt_field ''peer_delivery_reservations'' (jlist slot_json) (tc_slots s))"

section \<open>What the schema accepts\<close>

text \<open>
  The formats the schema library decides. \<open>min\<close> and \<open>max\<close> of a string count UTF-16 units;
  \<open>Buffer.byteLength\<close> counts bytes.
\<close>

record formats =
  uuid_format :: "string \<Rightarrow> bool"
  instant_format :: "string \<Rightarrow> bool"

definition units_in :: "nat \<Rightarrow> nat \<Rightarrow> string \<Rightarrow> bool" where
  "units_in lo hi s = (lo \<le> length (utf16 s) \<and> length (utf16 s) \<le> hi)"

definition is_alnum :: "char \<Rightarrow> bool" where
  "is_alnum c = (let n = of_char c :: nat in (48 \<le> n \<and> n \<le> 57) \<or> (65 \<le> n \<and> n \<le> 90) \<or> (97 \<le> n \<and> n \<le> 122))"

definition key_format :: "string \<Rightarrow> bool" where
  "key_format s = (s \<noteq> [] \<and> length s \<le> 128 \<and> is_alnum (hd s) \<and> list_all (\<lambda>c. is_alnum c \<or> c \<in> set ''._:-'') (tl s))"

definition hash_format :: "string \<Rightarrow> bool" where "hash_format s = hex_of 64 s"

definition bounded_text :: "nat \<Rightarrow> string \<Rightarrow> bool" where
  "bounded_text n s = (units_in 1 n s \<and> length s \<le> n \<and> CHR 0x00 \<notin> set s)"

definition counted :: "nat \<Rightarrow> bool" where "counted n = (1 \<le> n \<and> int n \<le> MAX_SAFE_INTEGER)"

definition if_some :: "('a \<Rightarrow> bool) \<Rightarrow> 'a option \<Rightarrow> bool" where
  "if_some p x = (case x of None \<Rightarrow> True | Some y \<Rightarrow> p y)"

definition MAX_PEER_DELIVERIES :: nat where "MAX_PEER_DELIVERIES = 64"
definition MAX_PEER_DELIVERY_ENVELOPE_BYTES :: nat where "MAX_PEER_DELIVERY_ENVELOPE_BYTES = 20480"

definition approval_ok :: "approval \<Rightarrow> bool" where
  "approval_ok a = (units_in 1 256 (ap_id a) \<and> units_in 1 256 (ap_tool a) \<and> units_in 0 16384 (ap_raw_args a)
    \<and> (case ap_subject a of JObj kvs \<Rightarrow> length (stringify (JObj kvs)) \<le> 8192 | _ \<Rightarrow> False)
    \<and> 1 \<le> length (ap_choices a) \<and> length (ap_choices a) \<le> 16
    \<and> list_all (\<lambda>c. units_in 1 256 (ch_id c) \<and> units_in 0 512 (ch_label c) \<and> units_in 1 128 (ch_decision c)
        \<and> units_in 1 128 (ch_scope c)) (ap_choices a)
    \<and> unique_by ch_id (ap_choices a))"

definition input_data_ok :: "input_data \<Rightarrow> bool" where
  "input_data_ok d = (case d of
     Permission a \<Rightarrow> approval_ok a
   | Clarification q cs attention \<Rightarrow> units_in 1 8192 q
       \<and> if_some (\<lambda>xs. 1 \<le> length xs \<and> length xs \<le> 16 \<and> list_all (units_in 1 256) xs) cs)"

definition claim_ok :: "formats \<Rightarrow> input_claim \<Rightarrow> bool" where
  "claim_ok z c = (uuid_format z (ic_id c) \<and> uuid_format z (ic_client c) \<and> counted (ic_generation c))"

definition answered :: "input_state \<Rightarrow> bool" where
  "answered st = (st = Answer_intent \<or> st = Input_settled \<or> st = Delivery_unknown)"

definition input_ok :: "formats \<Rightarrow> pending_input \<Rightarrow> bool" where
  "input_ok z i = (uuid_format z (pi_id i) \<and> units_in 1 256 (pi_native_id i) \<and> uuid_format z (pi_run i) \<and> units_in 1 256 (pi_turn i)
    \<and> input_data_ok (pi_data i) \<and> hash_format (pi_digest i) \<and> counted (pi_revision i) \<and> if_some (claim_ok z) (pi_claim i)
    \<and> if_some (units_in 0 16384) (pi_answer i) \<and> if_some key_format (pi_key i)
    \<and> (answered (pi_state i) \<longrightarrow> pi_answer i \<noteq> None \<and> pi_key i \<noteq> None) \<and> (pi_claim i \<noteq> None \<longrightarrow> pi_state i = Input_pending))"

definition native_ok :: "formats \<Rightarrow> native_evidence \<Rightarrow> bool" where
  "native_ok z n = (uuid_format z (nv_run n) \<and> if_some (units_in 1 256) (nv_turn n) \<and> if_some (bounded_text 256) (nv_session n)
    \<and> if_some (\<lambda>p. counted (np_pid p) \<and> units_in 1 128 (np_boot p) \<and> units_in 1 128 (np_started p)) (nv_process n)
    \<and> length (nv_obligations n) \<le> 256 \<and> list_all (\<lambda>b. units_in 1 256 (ob_id b) \<and> units_in 1 128 (ob_kind b)) (nv_obligations n)
    \<and> if_some (instant_format z) (nv_observed_at n) \<and> if_some (units_in 0 1024) (nv_limitation n))"

definition control_receipt_ok :: "formats \<Rightarrow> control_receipt \<Rightarrow> bool" where
  "control_receipt_ok z r = (key_format (cr_key r) \<and> hash_format (cr_hash r) \<and> instant_format z (cr_at r)
    \<and> if_some (uuid_format z) (cr_input r) \<and> counted (cr_generation r))"

definition envelope_ok :: "formats \<Rightarrow> envelope \<Rightarrow> bool" where
  "envelope_ok z e = (uuid_format z (en_id e) \<and> bounded_text 128 (en_key e) \<and> uuid_format z (en_task e) \<and> uuid_format z (en_run e)
    \<and> counted (en_generation e) \<and> bounded_text 4096 (en_workspace e) \<and> hash_format (en_fingerprint e) \<and> uuid_format z (en_source e)
    \<and> counted (en_source_revision e) \<and> uuid_format z (en_case e) \<and> counted (en_case_revision e) \<and> counted (en_case_generation e)
    \<and> hash_format (en_evidence e) \<and> counted (en_evidence_revision e) \<and> hash_format (en_digest e) \<and> bounded_text 16384 (en_content e)
    \<and> length (stringify (envelope_json e)) \<le> MAX_PEER_DELIVERY_ENVELOPE_BYTES)"

text \<open>The evidence that each state of a delivery carries.\<close>

definition delivery_evidenced :: "delivery \<Rightarrow> bool" where
  "delivery_evidenced d = ((dl_session d \<noteq> None \<longrightarrow> dl_turn d \<noteq> None)
    \<and> (dl_state d \<in> {Del_intent, Del_delivered, Del_observed, Del_unknown} \<longrightarrow> dl_intent_at d \<noteq> None)
    \<and> (dl_state d \<in> {Del_delivered, Del_observed} \<longrightarrow> dl_delivered_at d \<noteq> None \<and> dl_turn d \<noteq> None \<and> dl_session d \<noteq> None)
    \<and> (dl_state d = Del_observed \<longrightarrow> dl_observed_at d \<noteq> None)
    \<and> (dl_state d \<in> {Del_stale, Del_revoked, Del_cancelled, Del_replaced, Del_unknown} \<longrightarrow> dl_disposition_at d \<noteq> None))"

definition delivery_ok :: "formats \<Rightarrow> delivery \<Rightarrow> bool" where
  "delivery_ok z d = (envelope_ok z (dl_envelope d) \<and> instant_format z (dl_queued_at d) \<and> if_some (instant_format z) (dl_intent_at d)
    \<and> if_some (instant_format z) (dl_delivered_at d) \<and> if_some (instant_format z) (dl_observed_at d) \<and> if_some (bounded_text 256) (dl_turn d)
    \<and> if_some (bounded_text 256) (dl_session d) \<and> if_some (instant_format z) (dl_disposition_at d) \<and> delivery_evidenced d)"

definition slot_ok :: "formats \<Rightarrow> slot \<Rightarrow> bool" where
  "slot_ok z x = (let i = sl_identity x in bounded_text 128 (sl_key i) \<and> hash_format (sl_digest i) \<and> uuid_format z (sl_case i)
    \<and> counted (sl_expected_revision i) \<and> counted (sl_case_revision i) \<and> counted (sl_case_generation i) \<and> uuid_format z (sl_task i)
    \<and> uuid_format z (sl_run i) \<and> counted (sl_generation i) \<and> bounded_text 4096 (sl_workspace i) \<and> hash_format (sl_fingerprint i)
    \<and> uuid_format z (sl_source i) \<and> counted (sl_source_revision i) \<and> if_some (uuid_format z) (sl_delivery x)
    \<and> (sl_state x = Consumed_slot) = (sl_delivery x \<noteq> None) \<and> sl_case_revision i = sl_expected_revision i + 1)"

definition open_input :: "input_state \<Rightarrow> bool" where
  "open_input st = (st = Input_pending \<or> st = Answer_intent \<or> st = Delivery_unknown)"

text \<open>\<open>validateTaskControl\<close>.\<close>

definition validateTaskControl :: "task_control \<Rightarrow> bool" where
  "validateTaskControl v = ((tc_phase v = Terminal_phase) = (tc_outcome v \<noteq> None)
    \<and> \<not> (tc_outcome v = Some Completed \<and> tc_cancel v \<noteq> None)
    \<and> unique_by pi_id (tc_inputs v) \<and> unique_by cr_key (tc_receipts v)
    \<and> list_all (\<lambda>i. pi_run i = nv_run (tc_native v) \<and> pi_revision i \<le> tc_revision v
        \<and> if_some (\<lambda>c. ic_generation c = tc_generation v) (pi_claim i)) (tc_inputs v)
    \<and> if_some (\<lambda>ds. unique_by (\<lambda>d. en_key (dl_envelope d)) ds \<and> list_all (\<lambda>d. en_task (dl_envelope d) = tc_task_id v) ds) (tc_deliveries v)
    \<and> \<not> (tc_phase v = Terminal_phase \<and> list_ex (\<lambda>i. open_input (pi_state i)) (tc_inputs v)))"

definition same_direction :: "envelope \<Rightarrow> slot_identity \<Rightarrow> bool" where
  "same_direction e i = (en_case e = sl_case i \<and> en_case_revision e = sl_case_revision i \<and> en_case_generation e = sl_case_generation i
    \<and> en_source e = sl_source i \<and> en_source_revision e = sl_source_revision i \<and> en_task e = sl_task i \<and> en_run e = sl_run i
    \<and> en_generation e = sl_generation i \<and> en_workspace e = sl_workspace i \<and> en_fingerprint e = sl_fingerprint i)"

definition delivered_for :: "delivery list \<Rightarrow> slot \<Rightarrow> bool" where
  "delivered_for ds x = list_ex (\<lambda>d. sl_delivery x = Some (en_id (dl_envelope d)) \<and> same_direction (dl_envelope d) (sl_identity x)) ds"

definition is_reserved :: "slot \<Rightarrow> bool" where "is_reserved x = (sl_state x = Reserved_slot)"

definition slots_consistent :: "task_control \<Rightarrow> slot list \<Rightarrow> bool" where
  "slots_consistent v xs = (length (deliveries_of v) + length (filter is_reserved xs) \<le> MAX_PEER_DELIVERIES
    \<and> unique_by (\<lambda>x. sl_key (sl_identity x) @ '':'' @ sl_source (sl_identity x)) xs
    \<and> list_all (\<lambda>x. sl_task (sl_identity x) = tc_task_id v \<and> (sl_state x = Consumed_slot \<longrightarrow> delivered_for (deliveries_of v) x)) xs
    \<and> list_all (\<lambda>x. list_all (\<lambda>y. sl_key (sl_identity x) = sl_key (sl_identity y) \<longrightarrow> sl_digest (sl_identity x) = sl_digest (sl_identity y)) xs) xs)"

definition task_control_ok :: "formats \<Rightarrow> task_control \<Rightarrow> bool" where
  "task_control_ok z v = (uuid_format z (tc_task_id v) \<and> counted (tc_revision v) \<and> hash_format (tc_owner v) \<and> counted (tc_generation v)
    \<and> instant_format z (tc_updated_at v) \<and> native_ok z (tc_native v)
    \<and> length (tc_inputs v) \<le> 4096 \<and> list_all (input_ok z) (tc_inputs v)
    \<and> length (tc_receipts v) \<le> 4096 \<and> list_all (control_receipt_ok z) (tc_receipts v)
    \<and> if_some (\<lambda>ds. length ds \<le> MAX_PEER_DELIVERIES \<and> list_all (delivery_ok z) ds) (tc_deliveries v)
    \<and> if_some (\<lambda>c. units_in 1 2048 (cn_reason c) \<and> instant_format z (cn_at c) \<and> key_format (cn_key c)) (tc_cancel v)
    \<and> if_some (units_in 0 2048) (tc_attention v)
    \<and> if_some (\<lambda>xs. length xs \<le> MAX_PEER_DELIVERIES \<and> list_all (slot_ok z) xs \<and> slots_consistent v xs) (tc_slots v)
    \<and> validateTaskControl v)"

text \<open>\<open>decodeState\<close> also recomputes the digest of each envelope's content.\<close>

definition STORE_CORRUPT :: string where "STORE_CORRUPT = ''STORE_CORRUPT''"

definition storable :: "(string \<Rightarrow> string) \<Rightarrow> formats \<Rightarrow> task_control \<Rightarrow> bool" where
  "storable sha z v = (task_control_ok z v \<and> list_all (\<lambda>d. en_digest (dl_envelope d) = sha (en_content (dl_envelope d))) (deliveries_of v))"

end
