(* ===== verification/Task_Control.thy ===== *)
theory Task_Control
  imports Task_Types "HOL-Library.AList"
begin

text \<open>
  The operations on one task's durable control (src/src/core/task-control.ts): ownership,
  receipts, cancellation, adoption, input requests, the completion fence, observation and
  waiting, and the fence that a peer publication holds over several tasks. An operation
  takes the stored state and returns the draft with its answer; \<open>change\<close> commits the draft.
\<close>

section \<open>Committing a change\<close>

text \<open>
  \<open>TaskControls.change\<close> under the task's lock: the draft is stored under the next revision
  when its canonical hash differs; the store refuses what it could not read back.
\<close>

definition commit_draft :: "(string \<Rightarrow> string) \<Rightarrow> formats \<Rightarrow> string \<Rightarrow> task_control \<Rightarrow> task_control \<Rightarrow> task_control res" where
  "commit_draft sha z now old draft =
     (if canonical_hash sha (task_control_json old) = canonical_hash sha (task_control_json draft) then Inr old
      else let next = draft\<lparr>tc_revision := tc_revision old + 1, tc_updated_at := now\<rparr> in
        if storable sha z next then Inr next else fail STORE_CORRUPT)"

definition change :: "(string \<Rightarrow> string) \<Rightarrow> formats \<Rightarrow> string \<Rightarrow> (task_control \<Rightarrow> (task_control \<times> 'a) res) \<Rightarrow> task_control
    \<Rightarrow> (task_control \<times> 'a) res" where
  "change sha z now f old =
     andThen (f old) (\<lambda>(draft, v). andThen (commit_draft sha z now old draft) (\<lambda>next. Inr (next, v)))"

section \<open>Ownership and receipts\<close>

definition initialControl :: "string \<Rightarrow> string \<Rightarrow> string \<Rightarrow> string \<Rightarrow> task_control" where
  "initialControl now run task owner =
     \<lparr>tc_task_id = task, tc_revision = 1, tc_owner = owner, tc_generation = 1, tc_phase = Queued_phase, tc_outcome = None,
      tc_updated_at = now,
      tc_native = \<lparr>nv_run = run, nv_state = Not_started_native, nv_turn = None, nv_session = None, nv_process = None,
        nv_obligations = [], nv_coverage = Unknown_coverage, nv_observed_at = None, nv_limitation = None\<rparr>,
      tc_inputs = [], tc_receipts = [], tc_deliveries = None, tc_cancel = None, tc_settled = None, tc_attention = None,
      tc_telemetry_omitted = False, tc_slots = None\<rparr>"

record client_actor =
  ca_owner :: string
  ca_client :: string

definition owns :: "task_control \<Rightarrow> string \<Rightarrow> nat option \<Rightarrow> unit res" where
  "owns s owner generation =
     andThen (guard_fail (tc_owner s \<noteq> owner) ''TASK_CONTROL_CONFLICT'') (\<lambda>_.
     guard_fail (\<not> if_some (\<lambda>g. g = tc_generation s) generation) ''STALE_CONTROL'')"

definition find_receipt :: "task_control \<Rightarrow> string \<Rightarrow> control_receipt option" where
  "find_receipt s k = List.find (\<lambda>r. cr_key r = k) (tc_receipts s)"

definition receipt_of :: "nat \<Rightarrow> task_control \<Rightarrow> string \<Rightarrow> receipt_kind \<Rightarrow> string \<Rightarrow> control_receipt option res" where
  "receipt_of maximum s k kind hash =
     (let existing = find_receipt s k in
      andThen (guard_fail (\<exists>r \<in> set_option existing. cr_kind r \<noteq> kind \<or> cr_hash r \<noteq> hash) ''OPERATION_KEY_CONFLICT'') (\<lambda>_.
      andThen (guard_fail (existing = None \<and> int maximum - (if kind = Cancel_receipt then 0 else 1) \<le> int (length (tc_receipts s)))
        ''CONTROL_CAPACITY_EXCEEDED'') (\<lambda>_.
      Inr existing)))"

section \<open>Cancellation\<close>

definition settled_task :: "task_control \<Rightarrow> bool" where
  "settled_task s = (tc_phase s = Terminal_phase \<or> tc_settled s \<noteq> None)"

definition cancel_hash :: "(string \<Rightarrow> string) \<Rightarrow> string \<Rightarrow> nat \<Rightarrow> string \<Rightarrow> string" where
  "cancel_hash sha i generation reason =
     canonical_hash sha (JObj [(''id'', JStr i), (''generation'', jnat generation), (''reason'', JStr reason)])"

definition cancelled_input :: "pending_input \<Rightarrow> pending_input" where
  "cancelled_input i = i\<lparr>pi_claim := None, pi_state := (if pi_state i = Input_pending then Input_withdrawn else pi_state i)\<rparr>"

definition cancelled_delivery :: "string \<Rightarrow> delivery \<Rightarrow> delivery" where
  "cancelled_delivery now d =
     (if dl_state d = Del_queued then d\<lparr>dl_state := Del_cancelled, dl_disposition_at := Some now\<rparr>
      else if dl_state d = Del_intent \<or> dl_state d = Del_delivered then d\<lparr>dl_state := Del_unknown, dl_disposition_at := Some now\<rparr>
      else d)"

text \<open>The answer to a cancellation that another key already recorded.\<close>

definition observed_cancellation :: "task_control \<Rightarrow> cancellation \<Rightarrow> control_receipt res" where
  "observed_cancellation s c =
     (case find_receipt s (cn_key c) of
        None \<Rightarrow> fail ''CONTROL_CORRUPT''
      | Some r \<Rightarrow> Inr (r\<lparr>cr_outcome := (if settled_task s then Already_terminal else Accepted_outcome)\<rparr>))"

definition record_cancellation :: "(string \<Rightarrow> string) \<Rightarrow> string \<Rightarrow> string \<Rightarrow> nat \<Rightarrow> string \<Rightarrow> string \<Rightarrow> task_control
    \<Rightarrow> task_control \<times> control_receipt" where
  "record_cancellation sha now i generation k reason s =
     (let r = \<lparr>cr_key = k, cr_hash = cancel_hash sha i generation reason, cr_kind = Cancel_receipt,
            cr_outcome = (if settled_task s then Already_terminal else Accepted_outcome), cr_at = now, cr_input = None,
            cr_generation = generation\<rparr>;
          s' = s\<lparr>tc_receipts := tc_receipts s @ [r]\<rparr> in
      (if settled_task s then s'
       else s'\<lparr>tc_cancel := Some \<lparr>cn_reason = reason, cn_at = now, cn_key = k\<rparr>, tc_phase := Stopping_phase,
          tc_inputs := map cancelled_input (tc_inputs s),
          tc_deliveries := map_option (map (cancelled_delivery now)) (tc_deliveries s)\<rparr>, r))"

definition cancel :: "(string \<Rightarrow> string) \<Rightarrow> nat \<Rightarrow> string \<Rightarrow> string \<Rightarrow> client_actor \<Rightarrow> nat \<Rightarrow> string \<Rightarrow> string \<Rightarrow> task_control
    \<Rightarrow> (task_control \<times> control_receipt) res" where
  "cancel sha maximum now i actor generation k reason s =
     andThen (owns s (ca_owner actor) None) (\<lambda>_.
     (case find_receipt s k of
        Some saved \<Rightarrow> andThen (receipt_of maximum s k Cancel_receipt (cancel_hash sha i generation reason)) (\<lambda>_. Inr (s, saved))
      | None \<Rightarrow>
          andThen (owns s (ca_owner actor) (Some generation)) (\<lambda>_.
          (case tc_cancel s of
             Some c \<Rightarrow> andThen (observed_cancellation s c) (\<lambda>r. Inr (s, r))
           | None \<Rightarrow>
               andThen (receipt_of maximum s k Cancel_receipt (cancel_hash sha i generation reason)) (\<lambda>_.
               Inr (record_cancellation sha now i generation k reason s))))))"

definition preflightCancel :: "(string \<Rightarrow> string) \<Rightarrow> nat \<Rightarrow> string \<Rightarrow> client_actor \<Rightarrow> nat \<Rightarrow> string \<Rightarrow> string \<Rightarrow> task_control
    \<Rightarrow> (bool \<times> control_receipt option) res" where
  "preflightCancel sha maximum i actor generation k reason s =
     andThen (owns s (ca_owner actor) (Some generation)) (\<lambda>_.
     (case find_receipt s k of
        Some saved \<Rightarrow> andThen (receipt_of maximum s k Cancel_receipt (cancel_hash sha i generation reason)) (\<lambda>_. Inr (False, Some saved))
      | None \<Rightarrow>
          (case tc_cancel s of
             Some c \<Rightarrow> andThen (observed_cancellation s c) (\<lambda>r. Inr (False, Some r))
           | None \<Rightarrow>
               andThen (receipt_of maximum s k Cancel_receipt (cancel_hash sha i generation reason)) (\<lambda>_.
               Inr (\<not> settled_task s, None)))))"

section \<open>Adoption and clients\<close>

definition no_claim :: "pending_input \<Rightarrow> pending_input" where "no_claim i = i\<lparr>pi_claim := None\<rparr>"

definition adopt_hash :: "(string \<Rightarrow> string) \<Rightarrow> string \<Rightarrow> string \<Rightarrow> string" where
  "adopt_hash sha i owner = canonical_hash sha (JObj [(''id'', JStr i), (''owner_id'', JStr owner)])"

definition adopt :: "(string \<Rightarrow> string) \<Rightarrow> nat \<Rightarrow> string \<Rightarrow> string \<Rightarrow> client_actor \<Rightarrow> string \<Rightarrow> task_control
    \<Rightarrow> (task_control \<times> control_receipt) res" where
  "adopt sha maximum now i actor k s =
     andThen (receipt_of maximum s k Attach_receipt (adopt_hash sha i (ca_owner actor))) (\<lambda>old.
     (case old of
        Some r \<Rightarrow> Inr (s, r)
      | None \<Rightarrow>
          (let r = \<lparr>cr_key = k, cr_hash = adopt_hash sha i (ca_owner actor), cr_kind = Attach_receipt, cr_outcome = Adopted_outcome,
                cr_at = now, cr_input = None, cr_generation = tc_generation s + 1\<rparr> in
           Inr (s\<lparr>tc_owner := ca_owner actor, tc_generation := tc_generation s + 1, tc_inputs := map no_claim (tc_inputs s),
                  tc_receipts := tc_receipts s @ [r]\<rparr>, r))))"

definition releaseClient :: "string \<Rightarrow> task_control \<Rightarrow> (task_control \<times> unit) res" where
  "releaseClient client s = Inr (s\<lparr>tc_inputs := map (\<lambda>i.
     if map_option ic_client (pi_claim i) = Some client then no_claim i else i) (tc_inputs s)\<rparr>, ())"

section \<open>Input requests\<close>

definition requestInput :: "(string \<Rightarrow> string) \<Rightarrow> input_data \<Rightarrow> string \<Rightarrow> string \<Rightarrow> task_control \<Rightarrow> (task_control \<times> pending_input) res" where
  "requestInput sha d native_id fresh s =
     andThen (guard_fail (tc_cancel s \<noteq> None \<or> tc_phase s = Terminal_phase \<or> tc_phase s = Finalizing_phase) ''STALE_INPUT'') (\<lambda>_.
     (let i = \<lparr>pi_id = fresh, pi_native_id = native_id, pi_run = nv_run (tc_native s),
            pi_turn = (case nv_turn (tc_native s) of None \<Rightarrow> nv_run (tc_native s) | Some t \<Rightarrow> t), pi_data = d,
            pi_digest = canonical_hash sha (input_data_json d), pi_revision = tc_revision s + 1, pi_state = Input_pending,
            pi_claim = None, pi_answer = None, pi_key = None\<rparr> in
      andThen (guard_fail (list_ex (\<lambda>j. pi_native_id j = native_id \<and> pi_turn j = pi_turn i \<and> pi_state j = Input_pending) (tc_inputs s))
        ''DUPLICATE_NATIVE_INPUT'') (\<lambda>_.
      Inr (s\<lparr>tc_inputs := tc_inputs s @ [i],
             tc_phase := (case d of Clarification q cs True \<Rightarrow> Attention_phase | _ \<Rightarrow> Awaiting_phase)\<rparr>, i))))"

section \<open>Peer obligations at completion\<close>

record completion_binding =
  bd_workspace :: string
  bd_fingerprint :: string

datatype peer_issue = Unsettled_delivery string | Foreign_delivery string | Slot_still_reserved string string
  | Slot_lost_receipt string string | Slot_unobserved string string

definition later_adoptions :: "task_control \<Rightarrow> delivery \<Rightarrow> bool" where
  "later_adoptions s d =
     (let from = en_generation (dl_envelope d); steps = tc_generation s - from in
      from < tc_generation s \<and> steps \<le> length (tc_receipts s)
      \<and> (case dl_observed_at d of None \<Rightarrow> False | Some t \<Rightarrow>
          list_all (\<lambda>k. list_ex (\<lambda>r. cr_kind r = Attach_receipt \<and> cr_outcome r = Adopted_outcome
              \<and> cr_generation r = from + k + 1 \<and> \<not> js_less (cr_at r) t) (tc_receipts s)) [0..<steps]))"

definition current_delivery :: "task_control \<Rightarrow> completion_binding option \<Rightarrow> string option \<Rightarrow> delivery \<Rightarrow> bool" where
  "current_delivery s binding completed d =
     (let e = dl_envelope d in
      en_task e = tc_task_id s \<and> en_run e = (case completed of None \<Rightarrow> nv_run (tc_native s) | Some run \<Rightarrow> run)
      \<and> (en_generation e = tc_generation s \<or> completed \<noteq> None \<and> later_adoptions s d)
      \<and> if_some (\<lambda>b. en_workspace e = bd_workspace b \<and> en_fingerprint e = bd_fingerprint b) binding)"

definition delivery_group :: "(string \<Rightarrow> string) \<Rightarrow> delivery \<Rightarrow> string" where
  "delivery_group sha d =
     (let e = dl_envelope d in canonical_hash sha (JObj [(''case_id'', JStr (en_case e)), (''case_revision'', jnat (en_case_revision e)),
        (''case_generation'', jnat (en_case_generation e)), (''source_work_id'', JStr (en_source e)), (''recipient_task_id'', JStr (en_task e)),
        (''recipient_run_id'', JStr (en_run e)), (''recipient_control_generation'', jnat (en_generation e)),
        (''recipient_workspace'', JStr (en_workspace e)), (''recipient_workspace_fingerprint'', JStr (en_fingerprint e))]))"

definition latest_deliveries :: "(string \<Rightarrow> string) \<Rightarrow> delivery list \<Rightarrow> (string \<times> delivery) list" where
  "latest_deliveries sha ds = fold (\<lambda>d m. AList.update (delivery_group sha d) d m) ds []"

definition unsettled_state :: "delivery_state \<Rightarrow> bool" where
  "unsettled_state st = (st = Del_queued \<or> st = Del_intent \<or> st = Del_delivered \<or> st = Del_unknown)"

text \<open>Only an undispatched entry is superseded by a newer observation.\<close>

definition superseded :: "delivery \<Rightarrow> delivery option \<Rightarrow> bool" where
  "superseded d newer =
     (dl_state d = Del_queued \<and> (case newer of None \<Rightarrow> False | Some n \<Rightarrow> dl_state n = Del_observed
        \<and> (en_source_revision (dl_envelope d) < en_source_revision (dl_envelope n)
          \<or> en_source_revision (dl_envelope n) = en_source_revision (dl_envelope d)
            \<and> en_evidence_revision (dl_envelope d) < en_evidence_revision (dl_envelope n))))"

definition slot_issue :: "(string \<Rightarrow> string) \<Rightarrow> task_control \<Rightarrow> completion_binding option \<Rightarrow> string option \<Rightarrow> slot \<Rightarrow> peer_issue option" where
  "slot_issue sha s binding completed x =
     (let i = sl_identity x; ds = deliveries_of s in
      if sl_state x = Released_slot then None
      else if sl_state x = Reserved_slot then Some (Slot_still_reserved (sl_key i) (sl_source i))
      else case List.find (\<lambda>d. Some (en_id (dl_envelope d)) = sl_delivery x) ds of
        None \<Rightarrow> Some (Slot_lost_receipt (sl_key i) (sl_source i))
      | Some d \<Rightarrow>
          if \<not> same_direction (dl_envelope d) i then Some (Slot_lost_receipt (sl_key i) (sl_source i))
          else case map_of (latest_deliveries sha ds) (delivery_group sha d) of
            None \<Rightarrow> Some (Slot_unobserved (sl_key i) (sl_source i))
          | Some n \<Rightarrow>
              if dl_state n \<noteq> Del_observed \<or> \<not> current_delivery s binding completed n
                \<or> en_source_revision (dl_envelope n) < sl_source_revision i
              then Some (Slot_unobserved (sl_key i) (sl_source i)) else None)"

fun first_issue :: "('a \<Rightarrow> peer_issue option) \<Rightarrow> 'a list \<Rightarrow> peer_issue option" where
  "first_issue f [] = None"
| "first_issue f (x # xs) = (case f x of None \<Rightarrow> first_issue f xs | Some i \<Rightarrow> Some i)"

definition unresolvedPeerCompletion :: "(string \<Rightarrow> string) \<Rightarrow> task_control \<Rightarrow> completion_binding option \<Rightarrow> string option \<Rightarrow> peer_issue option" where
  "unresolvedPeerCompletion sha s binding completed =
     (let ds = deliveries_of s; latest = latest_deliveries sha ds in
      case first_issue (\<lambda>d. if unsettled_state (dl_state d) \<and> \<not> superseded d (map_of latest (delivery_group sha d))
          then Some (Unsettled_delivery (en_id (dl_envelope d))) else None) ds of
        Some i \<Rightarrow> Some i
      | None \<Rightarrow>
          (case first_issue (\<lambda>(g, d). if dl_state d = Del_observed \<and> \<not> current_delivery s binding completed d
              then Some (Foreign_delivery (en_id (dl_envelope d))) else None) latest of
             Some i \<Rightarrow> Some i
           | None \<Rightarrow> first_issue (slot_issue sha s binding completed) (slots_of s)))"

section \<open>The completion fence\<close>

datatype completion_issue = No_peer_issue | Lacks_binding | Peer_unresolved peer_issue

record admission =
  ad_outcome :: outcome
  ad_peer :: completion_issue
  ad_native_issue :: bool
  ad_identity_changed :: bool

definition peer_completion_issue :: "(string \<Rightarrow> string) \<Rightarrow> task_control \<Rightarrow> outcome option \<Rightarrow> completion_binding option \<Rightarrow> completion_issue" where
  "peer_completion_issue sha s requested binding =
     (if requested = Some Completed \<and> binding = None
         \<and> (deliveries_of s \<noteq> [] \<or> list_ex (\<lambda>x. sl_state x \<noteq> Released_slot) (slots_of s)) then Lacks_binding
      else if requested = Some Completed then
        (case unresolvedPeerCompletion sha s binding None of None \<Rightarrow> No_peer_issue | Some i \<Rightarrow> Peer_unresolved i)
      else No_peer_issue)"

definition native_incomplete :: "task_control \<Rightarrow> outcome option \<Rightarrow> bool" where
  "native_incomplete s requested =
     (requested = Some Completed \<and> (nv_coverage (tc_native s) \<noteq> Turn_scoped \<or> nv_obligations (tc_native s) \<noteq> []
       \<or> list_ex (\<lambda>i. open_input (pi_state i)) (tc_inputs s)))"

definition admitCompletion :: "(string \<Rightarrow> string) \<Rightarrow> string \<Rightarrow> nat \<Rightarrow> outcome option \<Rightarrow> completion_binding option \<Rightarrow> task_control
    \<Rightarrow> (task_control \<times> admission) res" where
  "admitCompletion sha run generation requested binding s =
     (let changed = (nv_run (tc_native s) \<noteq> run \<or> tc_generation s \<noteq> generation) in
      case tc_settled s of
        Some done_outcome \<Rightarrow> Inr (s, \<lparr>ad_outcome = done_outcome, ad_peer = No_peer_issue, ad_native_issue = False, ad_identity_changed = changed\<rparr>)
      | None \<Rightarrow>
          (let peer = peer_completion_issue sha s requested binding; native = native_incomplete s requested;
               result = (if tc_cancel s \<noteq> None then Cancelled else if native then Failed
                 else if requested = Some Completed \<and> (changed \<or> peer \<noteq> No_peer_issue) then Interrupted
                 else (case requested of None \<Rightarrow> Interrupted | Some q \<Rightarrow> q)) in
           Inr (s\<lparr>tc_phase := Finalizing_phase, tc_settled := Some result\<rparr>,
             \<lparr>ad_outcome = result, ad_peer = peer, ad_native_issue = native, ad_identity_changed = changed\<rparr>)))"

section \<open>Observation and waiting\<close>

record durable_view =
  dv_task_id :: string
  dv_request_key :: string
  dv_agent_id :: string
  dv_source_view :: string

text \<open>A summary is cut by UTF-16 units, so it is kept as units.\<close>

record input_view =
  iv_id :: string
  iv_permission :: bool
  iv_state :: input_state
  iv_summary :: "nat list"

record observation_view =
  ov_task_id :: string
  ov_request_key :: string
  ov_agent_id :: string
  ov_source_view :: string
  ov_revision :: nat
  ov_generation :: nat
  ov_phase :: task_phase
  ov_outcome :: "outcome option"
  ov_native :: native_evidence
  ov_obligations_count :: nat
  ov_obligations_truncated :: bool
  ov_updated_at :: string
  ov_inputs :: "input_view list"
  ov_inputs_count :: nat
  ov_attention :: "string option"
  ov_telemetry_omitted :: bool

definition input_summary :: "pending_input \<Rightarrow> input_view" where
  "input_summary i = \<lparr>iv_id = pi_id i, iv_permission = (case pi_data i of Permission a \<Rightarrow> True | _ \<Rightarrow> False), iv_state = pi_state i,
     iv_summary = take 512 (utf16 (case pi_data i of Clarification q cs t \<Rightarrow> q | Permission a \<Rightarrow> ''Permission: '' @ ap_tool a))\<rparr>"

definition observation :: "durable_view \<Rightarrow> task_control \<Rightarrow> observation_view" where
  "observation r s =
     (let open_ones = filter (\<lambda>i. open_input (pi_state i)) (tc_inputs s); n = tc_native s in
      \<lparr>ov_task_id = dv_task_id r, ov_request_key = dv_request_key r, ov_agent_id = dv_agent_id r, ov_source_view = dv_source_view r,
       ov_revision = tc_revision s, ov_generation = tc_generation s, ov_phase = tc_phase s, ov_outcome = tc_outcome s,
       ov_native = n\<lparr>nv_obligations := take 4 (nv_obligations n)\<rparr>, ov_obligations_count = length (nv_obligations n),
       ov_obligations_truncated = (4 < length (nv_obligations n)), ov_updated_at = tc_updated_at s,
       ov_inputs = map input_summary (take 8 (sort_key (\<lambda>i. if pi_state i = Input_pending then 0 else (1::nat)) open_ones)),
       ov_inputs_count = length open_ones,
       ov_attention = (case tc_attention s of Some [] \<Rightarrow> None | a \<Rightarrow> a), ov_telemetry_omitted = tc_telemetry_omitted s\<rparr>)"

definition read_task :: "durable_view \<Rightarrow> client_actor \<Rightarrow> task_control \<Rightarrow> observation_view res" where
  "read_task r actor s = andThen (owns s (ca_owner actor) None) (\<lambda>_. Inr (observation r s))"

text \<open>The decision of \<open>wait\<close> under the lock: an observation at once, or a registered waiter.\<close>

definition wait_first :: "nat \<Rightarrow> durable_view \<Rightarrow> client_actor \<Rightarrow> nat \<Rightarrow> nat \<Rightarrow> task_control \<Rightarrow> (observation_view option \<times> nat) res" where
  "wait_first maxWaiters r actor after_revision waiting s =
     andThen (owns s (ca_owner actor) None) (\<lambda>_.
     andThen (guard_fail (tc_revision s < after_revision) ''CURSOR_INVALID'') (\<lambda>_.
     (let task = observation r s in
      if tc_phase s = Terminal_phase \<or> after_revision < tc_revision s \<or> list_ex (\<lambda>i. iv_state i = Input_pending) (ov_inputs task)
      then Inr (Some task, waiting)
      else andThen (guard_fail (maxWaiters \<le> waiting) ''WAITER_CAPACITY_EXCEEDED'') (\<lambda>_. Inr (None, waiting + 1)))))"

datatype wait_kind = Wait_changed | Wait_terminal | Wait_input_required | Wait_elapsed

definition wait_kind_of :: "nat \<Rightarrow> observation_view \<Rightarrow> wait_kind" where
  "wait_kind_of after_revision task =
     (if ov_phase task = Terminal_phase then Wait_terminal
      else if list_ex (\<lambda>i. iv_state i = Input_pending) (ov_inputs task) then Wait_input_required
      else if after_revision < ov_revision task then Wait_changed else Wait_elapsed)"

section \<open>The publication fence\<close>

text \<open>The tasks that a publication reserved, each with the token of its publication.\<close>

type_synonym publications = "(string \<times> string) list"

text \<open>\<open>#awaitPublication\<close>: a task that another publication reserved is waited for (\<open>False\<close>);
  re-entering one's own publication is refused.\<close>

definition awaitPublication :: "publications \<Rightarrow> string option \<Rightarrow> string \<Rightarrow> bool res" where
  "awaitPublication ps context_token i =
     (case map_of ps i of
        None \<Rightarrow> Inr True
      | Some t \<Rightarrow> if context_token = Some t then fail ''COORDINATION_TASK_BUSY'' else Inr False)"

definition reserve_publication :: "publications \<Rightarrow> string \<Rightarrow> string list \<Rightarrow> publications option" where
  "reserve_publication ps token ids =
     (let ordered = js_sort (uniq ids) in
      if list_ex (\<lambda>i. map_of ps i \<noteq> None) ordered then None else Some (fold (\<lambda>i. AList.update i token) ordered ps))"

definition release_publication :: "publications \<Rightarrow> string \<Rightarrow> string list \<Rightarrow> publications" where
  "release_publication ps token ids =
     fold (\<lambda>i ps. if map_of ps i = Some token then AList.delete i ps else ps) (js_sort (uniq ids)) ps"

text \<open>One turn of the loop of \<open>change\<close>: nothing is read or stored while the task is reserved.\<close>

definition change_turn :: "(string \<Rightarrow> string) \<Rightarrow> formats \<Rightarrow> string \<Rightarrow> publications \<Rightarrow> (task_control \<Rightarrow> (task_control \<times> 'a) res)
    \<Rightarrow> task_control \<Rightarrow> (task_control \<times> 'a) res option" where
  "change_turn sha z now ps f s = (if map_of ps (tc_task_id s) \<noteq> None then None else Some (change sha z now f s))"

section \<open>Releasing reserved slots\<close>

record slot_bundle =
  sb_key :: string
  sb_digest :: string
  sb_case :: string
  sb_expected_revision :: nat
  sb_case_revision :: nat
  sb_case_generation :: nat
  sb_task :: string
  sb_run :: string
  sb_generation :: nat
  sb_workspace :: string
  sb_fingerprint :: string
  sb_sources :: "(string \<times> nat) list"

definition bundle_identity :: "slot_bundle \<Rightarrow> string \<times> nat \<Rightarrow> slot_identity" where
  "bundle_identity b src = \<lparr>sl_key = sb_key b, sl_digest = sb_digest b, sl_case = sb_case b, sl_expected_revision = sb_expected_revision b,
     sl_case_revision = sb_case_revision b, sl_case_generation = sb_case_generation b, sl_task = sb_task b, sl_run = sb_run b,
     sl_generation = sb_generation b, sl_workspace = sb_workspace b, sl_fingerprint = sb_fingerprint b,
     sl_source = fst src, sl_source_revision = snd src\<rparr>"

definition slot_hash :: "(string \<Rightarrow> string) \<Rightarrow> slot_identity \<Rightarrow> string" where
  "slot_hash sha i = canonical_hash sha (JObj (slot_fields i))"

definition slot_for :: "string \<Rightarrow> string \<Rightarrow> slot \<Rightarrow> bool" where
  "slot_for k src x = (sl_key (sl_identity x) = k \<and> sl_source (sl_identity x) = src)"

definition release_slot :: "slot \<Rightarrow> slot" where "release_slot x = x\<lparr>sl_state := Released_slot\<rparr>"

fun release_sources :: "(string \<Rightarrow> string) \<Rightarrow> slot_bundle \<Rightarrow> (string \<times> nat) list \<Rightarrow> slot list \<Rightarrow> slot list res" where
  "release_sources sha b [] xs = Inr xs"
| "release_sources sha b (src # srcs) xs =
     (case List.find (slot_for (sb_key b) (fst src)) xs of
        None \<Rightarrow> fail ''PEER_DELIVERY_RESERVATION_MANIFEST''
      | Some x \<Rightarrow>
          andThen (guard_fail (slot_hash sha (sl_identity x) \<noteq> slot_hash sha (bundle_identity b src)) ''PEER_DELIVERY_KEY_CONFLICT'') (\<lambda>_.
          andThen (guard_fail (sl_state x = Consumed_slot) ''PEER_DELIVERY_RESERVATION_CONSUMED'') (\<lambda>_.
          release_sources sha b srcs (update_first (slot_for (sb_key b) (fst src)) release_slot xs))))"

definition releasePeerDeliverySlots :: "(string \<Rightarrow> string) \<Rightarrow> slot_bundle \<Rightarrow> task_control \<Rightarrow> (task_control \<times> unit) res" where
  "releasePeerDeliverySlots sha b s =
     (case tc_slots s of
        None \<Rightarrow> Inr (s, ())
      | Some xs \<Rightarrow>
          andThen (guard_fail (tc_phase s = Finalizing_phase \<or> settled_task s) ''PEER_DELIVERY_STALE'') (\<lambda>_.
          (let mine = filter (\<lambda>x. sl_key (sl_identity x) = sb_key b) xs; srcs = map fst (sb_sources b) in
           if mine = [] then Inr (s, ())
           else andThen (guard_fail (\<not> distinct srcs \<or> length mine \<noteq> length srcs
               \<or> list_ex (\<lambda>x. sl_source (sl_identity x) \<notin> set srcs) mine) ''PEER_DELIVERY_RESERVATION_MANIFEST'') (\<lambda>_.
             andThen (release_sources sha b (sb_sources b) xs) (\<lambda>xs'. Inr (s\<lparr>tc_slots := Some xs'\<rparr>, ()))))))"

definition releasePeerDeliverySlotsInPublication :: "(string \<Rightarrow> string) \<Rightarrow> formats \<Rightarrow> string \<Rightarrow> publications \<Rightarrow> string option \<Rightarrow> slot_bundle
    \<Rightarrow> task_control \<Rightarrow> (task_control \<times> unit) res" where
  "releasePeerDeliverySlotsInPublication sha z now ps token b s =
     andThen (guard_fail (token = None \<or> map_of ps (sb_task b) \<noteq> token) ''PEER_DELIVERY_RESERVATION_SCOPE'') (\<lambda>_.
     change sha z now (releasePeerDeliverySlots sha b) s)"

end
