(* ===== verification/Task_Inputs.thy ===== *)
theory Task_Inputs
  imports Task_Control
begin

text \<open>
  The input broker (src/src/core/input-broker.ts): a worker's question becomes a durable
  input; a client claims, dismisses or answers it; the intent to answer is stored before the
  native callback runs. \<open>waiters\<close> are the native callbacks of this process, by input.
\<close>

type_synonym waiters = "(string \<times> string) list"

definition find_input :: "task_control \<Rightarrow> string \<Rightarrow> pending_input option" where
  "find_input s i = List.find (\<lambda>x. pi_id x = i) (tc_inputs s)"

definition update_input :: "string \<Rightarrow> (pending_input \<Rightarrow> pending_input) \<Rightarrow> task_control \<Rightarrow> task_control" where
  "update_input i f s = s\<lparr>tc_inputs := update_first (\<lambda>x. pi_id x = i) f (tc_inputs s)\<rparr>"

definition closing_task :: "task_control \<Rightarrow> bool" where
  "closing_task s = (tc_cancel s \<noteq> None \<or> tc_phase s = Terminal_phase \<or> tc_phase s = Finalizing_phase \<or> tc_settled s \<noteq> None)"

section \<open>Requesting\<close>

definition reserve_waiter :: "nat \<Rightarrow> string \<Rightarrow> string \<Rightarrow> waiters \<Rightarrow> waiters res" where
  "reserve_waiter maxPending task i ws =
     andThen (guard_fail (maxPending \<le> length (filter (\<lambda>w. snd w = task) ws)) ''INPUT_CAPACITY_EXCEEDED'') (\<lambda>_.
     Inr (AList.update i task ws))"

definition request_input :: "(string \<Rightarrow> string) \<Rightarrow> formats \<Rightarrow> nat \<Rightarrow> string \<Rightarrow> input_data \<Rightarrow> string \<Rightarrow> string \<Rightarrow> waiters \<Rightarrow> task_control
    \<Rightarrow> (waiters \<times> task_control \<times> pending_input) res" where
  "request_input sha z maxPending now d native_id fresh ws s =
     andThen (reserve_waiter maxPending (tc_task_id s) fresh ws) (\<lambda>ws'.
     andThen (change sha z now (requestInput sha d native_id fresh) s) (\<lambda>(s', i). Inr (ws', s', i)))"

text \<open>The end of a request: its waiter goes, and an aborted one is withdrawn.\<close>

definition withdraw_pending :: "pending_input \<Rightarrow> pending_input" where
  "withdraw_pending i = (if pi_state i = Input_pending then i\<lparr>pi_state := Input_withdrawn, pi_claim := None\<rparr> else i)"

definition abort_request :: "string \<Rightarrow> task_control \<Rightarrow> (task_control \<times> unit) res" where
  "abort_request i s = Inr (update_input i withdraw_pending s, ())"

definition end_request :: "(string \<Rightarrow> string) \<Rightarrow> formats \<Rightarrow> string \<Rightarrow> bool \<Rightarrow> string \<Rightarrow> waiters \<Rightarrow> task_control \<Rightarrow> (waiters \<times> task_control) res" where
  "end_request sha z now aborted i ws s =
     (if aborted then andThen (change sha z now (abort_request i) s) (\<lambda>(s', _). Inr (AList.delete i ws, s'))
      else Inr (AList.delete i ws, s))"

section \<open>Presenting\<close>

definition claim_input :: "waiters \<Rightarrow> string \<Rightarrow> client_actor \<Rightarrow> nat \<Rightarrow> string \<Rightarrow> task_control \<Rightarrow> (task_control \<times> pending_input) res" where
  "claim_input ws i actor generation fresh s =
     andThen (owns s (ca_owner actor) (Some generation)) (\<lambda>_.
     (case find_input s i of
        None \<Rightarrow> fail ''STALE_INPUT''
      | Some x \<Rightarrow>
          andThen (guard_fail (pi_state x \<noteq> Input_pending \<or> closing_task s) ''STALE_INPUT'') (\<lambda>_.
          andThen (guard_fail (map_of ws i = None) ''INPUT_RUNTIME_UNAVAILABLE'') (\<lambda>_.
          andThen (guard_fail (\<not> if_some (\<lambda>c. ic_client c = ca_client actor) (pi_claim x)) ''INPUT_ALREADY_PRESENTED'') (\<lambda>_.
          (let x' = x\<lparr>pi_claim := Some (case pi_claim x of
                 None \<Rightarrow> \<lparr>ic_id = fresh, ic_client = ca_client actor, ic_generation = generation\<rparr> | Some c \<Rightarrow> c)\<rparr> in
           Inr (update_input i (\<lambda>_. x') s, x')))))))"

definition dismiss_input :: "string \<Rightarrow> client_actor \<Rightarrow> string \<Rightarrow> task_control \<Rightarrow> (task_control \<times> unit) res" where
  "dismiss_input i actor claim s =
     Inr (update_input i (\<lambda>x. case pi_claim x of
       Some c \<Rightarrow> if ic_id c = claim \<and> ic_client c = ca_client actor then no_claim x else x | None \<Rightarrow> x) s, ())"

section \<open>Answering\<close>

definition answer_hash :: "(string \<Rightarrow> string) \<Rightarrow> string \<Rightarrow> string \<Rightarrow> nat \<Rightarrow> string \<Rightarrow> string" where
  "answer_hash sha task i generation answer = canonical_hash sha (JObj
     [(''taskId'', JStr task), (''id'', JStr i), (''generation'', jnat generation), (''answer'', JStr answer)])"

definition claimed_by :: "client_actor \<Rightarrow> string \<Rightarrow> pending_input \<Rightarrow> bool" where
  "claimed_by actor claim x = (case pi_claim x of None \<Rightarrow> False | Some c \<Rightarrow> ic_id c = claim \<and> ic_client c = ca_client actor)"

definition answer_offered :: "input_data \<Rightarrow> string \<Rightarrow> bool" where
  "answer_offered d answer = (case d of
     Permission a \<Rightarrow> list_ex (\<lambda>c. ch_id c = answer \<and> (ch_scope c = ''once'' \<or> starts_with (ch_decision c) ''denied'')) (ap_choices a)
   | Clarification q cs t \<Rightarrow> if_some (\<lambda>xs. answer \<in> set xs) cs)"

definition answer_intent :: "string \<Rightarrow> string \<Rightarrow> pending_input \<Rightarrow> pending_input" where
  "answer_intent k answer x = x\<lparr>pi_answer := Some answer, pi_key := Some k, pi_state := Answer_intent, pi_claim := None\<rparr>"

definition answered_task :: "string \<Rightarrow> string \<Rightarrow> string \<Rightarrow> control_receipt \<Rightarrow> task_control \<Rightarrow> task_control" where
  "answered_task i k answer r s =
     (let s' = (update_input i (answer_intent k answer) s)\<lparr>tc_receipts := tc_receipts s @ [r]\<rparr> in
      if list_ex (\<lambda>x. pi_state x = Input_pending) (tc_inputs s') then s' else s'\<lparr>tc_phase := Active_phase\<rparr>)"

text \<open>The draft, the receipt, and whether the native callback is to be released.\<close>

definition answer_input :: "(string \<Rightarrow> string) \<Rightarrow> nat \<Rightarrow> string \<Rightarrow> waiters \<Rightarrow> string \<Rightarrow> string \<Rightarrow> client_actor \<Rightarrow> nat \<Rightarrow> string \<Rightarrow> string
    \<Rightarrow> string \<Rightarrow> task_control \<Rightarrow> (task_control \<times> control_receipt \<times> bool) res" where
  "answer_input sha maximum now ws task i actor generation claim k answer s =
     andThen (owns s (ca_owner actor) (Some generation)) (\<lambda>_.
     andThen (receipt_of maximum s k Input_receipt (answer_hash sha task i generation answer)) (\<lambda>old.
     (case old of
        Some r \<Rightarrow> Inr (s, r, False)
      | None \<Rightarrow>
          (case find_input s i of
             None \<Rightarrow> fail ''STALE_INPUT''
           | Some x \<Rightarrow>
               andThen (guard_fail (pi_state x \<noteq> Input_pending \<or> \<not> claimed_by actor claim x \<or> closing_task s) ''STALE_INPUT'') (\<lambda>_.
               andThen (guard_fail (map_of ws i = None) ''INPUT_RUNTIME_UNAVAILABLE'') (\<lambda>_.
               andThen (guard_fail (pi_digest x \<noteq> canonical_hash sha (input_data_json (pi_data x)) \<or> pi_run x \<noteq> nv_run (tc_native s)
                   \<or> Some (pi_turn x) \<noteq> nv_turn (tc_native s)) ''STALE_INPUT'') (\<lambda>_.
               andThen (guard_fail (\<not> answer_offered (pi_data x) answer \<or> answer = [] \<or> 16384 < length answer) ''INPUT_ANSWER_INVALID'') (\<lambda>_.
               (let r = \<lparr>cr_key = k, cr_hash = answer_hash sha task i generation answer, cr_kind = Input_receipt,
                      cr_outcome = Intent_outcome, cr_at = now, cr_input = Some i, cr_generation = generation\<rparr> in
                Inr (answered_task i k answer r s, r, True))))))))))"

text \<open>Releasing the native callback after the intent is stored. A callback that went in
  between leaves the delivery unknown; it is never sent again.\<close>

definition unknown_answer :: "string \<Rightarrow> task_control \<Rightarrow> (task_control \<times> unit) res" where
  "unknown_answer i s =
     Inr ((update_input i (\<lambda>x. if pi_state x = Answer_intent then x\<lparr>pi_state := Delivery_unknown\<rparr> else x) s)\<lparr>tc_phase := Attention_phase\<rparr>, ())"

datatype answer_end = Answered control_receipt "string option" | Answer_lost error

definition answer_request :: "(string \<Rightarrow> string) \<Rightarrow> formats \<Rightarrow> nat \<Rightarrow> string \<Rightarrow> waiters \<Rightarrow> waiters \<Rightarrow> string \<Rightarrow> string \<Rightarrow> client_actor \<Rightarrow> nat
    \<Rightarrow> string \<Rightarrow> string \<Rightarrow> string \<Rightarrow> task_control \<Rightarrow> (task_control \<times> answer_end) res" where
  "answer_request sha z maximum now ws later task i actor generation claim k answer s =
     andThen (change sha z now (answer_input sha maximum now ws task i actor generation claim k answer) s) (\<lambda>(s', r, dispatch).
     (if \<not> dispatch then Inr (s', Answered r None)
      else if map_of later i \<noteq> None then Inr (s', Answered r (Some answer))
      else (case change sha z now (unknown_answer i) s' of
          Inl e \<Rightarrow> Inr (s', Answer_lost e)
        | Inr (s'', _) \<Rightarrow> Inr (s'', Answer_lost (BridgeError ''INPUT_DELIVERY_UNKNOWN'')))))"

section \<open>Native withdrawal and settlement\<close>

definition withdrawn_natively :: "string \<Rightarrow> task_control \<Rightarrow> pending_input \<Rightarrow> bool" where
  "withdrawn_natively native_id s x = (pi_native_id x = native_id \<and> Some (pi_turn x) = nv_turn (tc_native s) \<and> pi_state x = Input_pending)"

text \<open>The answer lists the inputs whose callbacks are rejected.\<close>

definition withdraw_native :: "string \<Rightarrow> task_control \<Rightarrow> (task_control \<times> string list) res" where
  "withdraw_native native_id s =
     Inr (s\<lparr>tc_inputs := map (\<lambda>x. if withdrawn_natively native_id s x then withdraw_pending x else x) (tc_inputs s)\<rparr>,
       map pi_id (filter (withdrawn_natively native_id s) (tc_inputs s)))"

definition settle_turn :: "string \<Rightarrow> task_control \<Rightarrow> (task_control \<times> unit) res" where
  "settle_turn turn s =
     Inr (s\<lparr>tc_inputs := map (\<lambda>x. if pi_turn x = turn \<and> pi_state x = Answer_intent then x\<lparr>pi_state := Input_settled\<rparr> else x) (tc_inputs s)\<rparr>, ())"

end
