(* ===== verification/Task_Events.thy ===== *)
theory Task_Events
  imports Task_Inputs
begin

text \<open>
  What the coordinator (src/src/core/coordinator.ts) changes in a task's control: native
  events, the peer deliveries it queues, dispatches and acknowledges, the delivery slots it
  reserves, and the settlement of a run. Workspace and resource records, and the coordination
  authority, are read elsewhere: what was read is an argument.
\<close>

section \<open>Native events\<close>

datatype native_event =
    Turn_started string "string option"
  | Turn_correlated string string string
  | Turn_settled string "string option"
  | Operation_started string string
  | Operation_finished string
  | Process_observed nat string string
  | Runtime_unknown string

definition native_text :: "string \<Rightarrow> bool" where
  "native_text s = (s \<noteq> [] \<and> length s \<le> 256 \<and> CHR 0x00 \<notin> set s)"

definition CORRELATION_INVALID :: string where "CORRELATION_INVALID = ''NATIVE_CORRELATION_INVALID''"
definition OBLIGATION_INVALID :: string where "OBLIGATION_INVALID = ''NATIVE_OBLIGATION_INVALID''"

definition with_native :: "(native_evidence \<Rightarrow> native_evidence) \<Rightarrow> task_control \<Rightarrow> task_control" where
  "with_native f s = s\<lparr>tc_native := f (tc_native s)\<rparr>"

definition correlation_refused :: "string \<Rightarrow> string \<Rightarrow> string \<Rightarrow> task_control \<Rightarrow> bool" where
  "correlation_refused provisional turn session s =
     (let n = tc_native s in
      \<not> native_text provisional \<or> \<not> native_text turn \<or> \<not> native_text session \<or> nv_turn n \<noteq> Some provisional \<or> nv_session n \<noteq> Some session
      \<or> nv_coverage n \<noteq> Unknown_coverage \<or> nv_state n \<noteq> Live_native \<or> tc_cancel s \<noteq> None \<or> tc_settled s \<noteq> None \<or> nv_obligations n \<noteq> []
      \<or> list_ex (\<lambda>i. open_input (pi_state i) \<and> pi_turn i \<noteq> provisional) (tc_inputs s)
      \<or> list_ex (\<lambda>i. pi_turn i = provisional \<and> pi_state i = Delivery_unknown) (tc_inputs s))"

definition correlated_input :: "string \<Rightarrow> string \<Rightarrow> pending_input \<Rightarrow> pending_input" where
  "correlated_input provisional turn i =
     (if pi_turn i = provisional \<and> (pi_state i = Input_pending \<or> pi_state i = Answer_intent) then i\<lparr>pi_turn := turn\<rparr> else i)"

definition correlateNativeTurn :: "string \<Rightarrow> string \<Rightarrow> string \<Rightarrow> task_control \<Rightarrow> task_control res" where
  "correlateNativeTurn provisional turn session s =
     andThen (guard_fail (correlation_refused provisional turn session s) CORRELATION_INVALID) (\<lambda>_.
     Inr (with_native (\<lambda>n. n\<lparr>nv_turn := Some turn\<rparr>) (s\<lparr>tc_inputs := map (correlated_input provisional turn) (tc_inputs s)\<rparr>)))"

definition turn_started :: "string \<Rightarrow> string option \<Rightarrow> task_control \<Rightarrow> task_control res" where
  "turn_started turn session s =
     andThen (guard_fail (\<not> native_text turn \<or> \<not> if_some native_text session
         \<or> (nv_session (tc_native s) \<noteq> None \<and> nv_session (tc_native s) \<noteq> session)) CORRELATION_INVALID) (\<lambda>_.
     andThen (guard_fail (nv_obligations (tc_native s) \<noteq> [] \<or> list_ex (\<lambda>i. pi_state i = Input_pending) (tc_inputs s))
         ''NATIVE_OBLIGATIONS_PENDING'') (\<lambda>_.
     (let s' = with_native (\<lambda>n. n\<lparr>nv_turn := Some turn, nv_state := Live_native, nv_coverage := Unknown_coverage,
            nv_session := (case session of None \<Rightarrow> nv_session n | Some x \<Rightarrow> Some x)\<rparr>) s in
      Inr (if tc_cancel s = None then s'\<lparr>tc_phase := Active_phase\<rparr> else s'))))"

definition native_step :: "native_event \<Rightarrow> task_control \<Rightarrow> task_control res" where
  "native_step e s = (case e of
     Turn_started turn session \<Rightarrow> turn_started turn session s
   | Turn_correlated p turn session \<Rightarrow> correlateNativeTurn p turn session s
   | Turn_settled turn session \<Rightarrow>
       andThen (guard_fail (nv_turn (tc_native s) \<noteq> Some turn \<or> nv_session (tc_native s) \<noteq> session) CORRELATION_INVALID) (\<lambda>_.
       Inr (with_native (\<lambda>n. n\<lparr>nv_coverage := Turn_scoped\<rparr>) s))
   | Operation_started i k \<Rightarrow>
       andThen (guard_fail (list_ex (\<lambda>b. ob_id b = i) (nv_obligations (tc_native s)) \<or> 256 \<le> length (nv_obligations (tc_native s)))
         OBLIGATION_INVALID) (\<lambda>_.
       Inr (with_native (\<lambda>n. n\<lparr>nv_obligations := nv_obligations n @ [\<lparr>ob_id = i, ob_kind = k\<rparr>]\<rparr>) s))
   | Operation_finished i \<Rightarrow>
       andThen (guard_fail (\<not> list_ex (\<lambda>b. ob_id b = i) (nv_obligations (tc_native s))) OBLIGATION_INVALID) (\<lambda>_.
       Inr (with_native (\<lambda>n. n\<lparr>nv_obligations := takeWhile (\<lambda>b. ob_id b \<noteq> i) (nv_obligations n)
           @ tl (dropWhile (\<lambda>b. ob_id b \<noteq> i) (nv_obligations n))\<rparr>) s))
   | Process_observed pid boot started \<Rightarrow>
       Inr (with_native (\<lambda>n. n\<lparr>nv_process := Some \<lparr>np_pid = pid, np_boot = boot, np_started = started\<rparr>, nv_state := Live_native\<rparr>) s)
   | Runtime_unknown reason \<Rightarrow>
       (let s' = with_native (\<lambda>n. n\<lparr>nv_state := Unknown_native, nv_limitation := Some reason\<rparr>) s in
        Inr (if tc_cancel s = None then s'\<lparr>tc_phase := Attention_phase\<rparr> else s')))"

definition LATE_EVENT :: string where "LATE_EVENT = ''Native event arrived after durable completion admission''"
definition LATE_ATTENTION :: string where
  "LATE_ATTENTION = ''Late native evidence conflicts with completion; preserve exact resources for reconciliation''"

datatype event_end = Event_recorded | Event_late | Event_after_result

text \<open>\<open>saved\<close>: whether a result is stored already.\<close>

definition native_change :: "string \<Rightarrow> bool \<Rightarrow> native_event \<Rightarrow> task_control \<Rightarrow> (task_control \<times> event_end) res" where
  "native_change now saved e s =
     andThen (guard_fail (tc_phase s = Terminal_phase) ''STALE_NATIVE_EVENT'') (\<lambda>_.
     (if tc_settled s \<noteq> None then
        (if saved then Inr (s, Event_after_result)
         else Inr ((with_native (\<lambda>n. n\<lparr>nv_state := Unknown_native, nv_coverage := Unknown_coverage, nv_limitation := Some LATE_EVENT\<rparr>) s)
             \<lparr>tc_phase := Attention_phase, tc_settled := Some Interrupted, tc_attention := Some LATE_ATTENTION\<rparr>, Event_late))
      else andThen (native_step e (with_native (\<lambda>n. n\<lparr>nv_observed_at := Some now\<rparr>) s)) (\<lambda>s'. Inr (s', Event_recorded))))"

definition native_event :: "(string \<Rightarrow> string) \<Rightarrow> formats \<Rightarrow> string \<Rightarrow> bool \<Rightarrow> bool \<Rightarrow> native_event \<Rightarrow> task_control
    \<Rightarrow> (task_control \<times> event_end) res" where
  "native_event sha z now writing saved e s =
     andThen (guard_fail writing ''NATIVE_EVENT_AFTER_COMPLETION'') (\<lambda>_.
     andThen (change sha z now (native_change now saved e) s) (\<lambda>(s', r).
     (case e of Turn_settled turn session \<Rightarrow>
          (if r = Event_recorded then andThen (change sha z now (settle_turn turn) s') (\<lambda>(s'', _). Inr (s'', r)) else Inr (s', r))
        | _ \<Rightarrow> Inr (s', r))))"

section \<open>Run phases\<close>

definition run_phase :: "task_phase \<Rightarrow> task_control \<Rightarrow> (task_control \<times> unit) res" where
  "run_phase next s = Inr (if tc_cancel s = None \<and> tc_settled s = None then s\<lparr>tc_phase := next\<rparr> else s, ())"

definition start_run :: "task_control \<Rightarrow> (task_control \<times> unit) res" where
  "start_run s = andThen (guard_fail (tc_cancel s \<noteq> None) ''TASK_CANCELLED'') (\<lambda>_.
     Inr ((with_native (\<lambda>n. n\<lparr>nv_state := Unknown_native\<rparr>) s)\<lparr>tc_phase := Active_phase\<rparr>, ()))"

definition omit_telemetry :: "task_control \<Rightarrow> (task_control \<times> unit) res" where
  "omit_telemetry s = Inr (s\<lparr>tc_telemetry_omitted := True\<rparr>, ())"

definition settle_never_started :: "task_control \<Rightarrow> (task_control \<times> unit) res" where
  "settle_never_started s =
     andThen (guard_fail (tc_cancel s = None \<or> nv_state (tc_native s) \<noteq> Not_started_native) ''COORDINATION_CANCELLATION_CONFLICT'') (\<lambda>_.
     Inr (s\<lparr>tc_phase := Terminal_phase, tc_outcome := Some Cancelled, tc_settled := Some Cancelled, tc_attention := None\<rparr>, ()))"

end
