(* ===== verification/Task_Peers.thy ===== *)
theory Task_Peers
  imports Task_Events
begin

text \<open>
  Peer deliveries and their slots in a task's control (src/src/core/coordinator.ts and
  src/src/contracts/peer-delivery.ts): reserving the slots of an extension, queueing an
  envelope, dispatching it and acknowledging it, and the settlement of a run.
\<close>

section \<open>Where a task works\<close>

text \<open>What the live entry and the resource record of the recipient say.\<close>

record task_place =
  pl_coordinated :: bool
  pl_workspace :: "string option"
  pl_source_view :: string
  pl_pending :: bool
  pl_path :: "string option"
  pl_base :: "string option"
  pl_branch :: "string option"
  pl_target :: "string option"

definition workspace_fingerprint :: "(string \<Rightarrow> string) \<Rightarrow> string \<Rightarrow> task_place \<Rightarrow> string \<Rightarrow> string" where
  "workspace_fingerprint sha task p workspace = canonical_hash sha (JObj ([(''task_id'', JStr task), (''source_view'', JStr (pl_source_view p)),
     (''workspace'', JStr workspace)] @ opt_field ''base_commit'' JStr (pl_base p) @ opt_field ''branch_ref'' JStr (pl_branch p)
     @ opt_field ''target_ref'' JStr (pl_target p)))"

datatype validity = Valid_current | Valid_stale | Valid_revoked | Valid_cancelled | Valid_replaced

text \<open>\<open>#peerReceiptBinding\<close>; \<open>None\<close> is a task without a live entry.\<close>

definition peerReceiptBinding :: "(string \<Rightarrow> string) \<Rightarrow> task_place option \<Rightarrow> string \<Rightarrow> task_control \<Rightarrow> envelope \<Rightarrow> validity" where
  "peerReceiptBinding sha place task s e =
     (if tc_cancel s \<noteq> None \<or> tc_phase s = Stopping_phase then Valid_cancelled
      else if tc_phase s = Terminal_phase \<or> tc_phase s = Finalizing_phase \<or> tc_settled s \<noteq> None then Valid_stale
      else if tc_phase s = Attention_phase \<or> nv_state (tc_native s) \<noteq> Live_native then Valid_stale
      else case place of
        None \<Rightarrow> Valid_replaced
      | Some p \<Rightarrow>
          (case pl_workspace p of
             None \<Rightarrow> Valid_replaced
           | Some w \<Rightarrow>
               if \<not> pl_coordinated p \<or> \<not> pl_pending p \<or> pl_path p \<noteq> Some w \<or> en_task e \<noteq> task \<or> en_run e \<noteq> nv_run (tc_native s)
                 \<or> en_workspace e \<noteq> w \<or> en_fingerprint e \<noteq> workspace_fingerprint sha task p w then Valid_replaced
               else if en_generation e \<noteq> tc_generation s then Valid_stale else Valid_current))"

section \<open>Reserving slots\<close>

definition reserved_slot :: "slot_bundle \<Rightarrow> string \<times> nat \<Rightarrow> slot" where
  "reserved_slot b src = \<lparr>sl_identity = bundle_identity b src, sl_state = Reserved_slot, sl_delivery = None\<rparr>"

fun reserve_sources :: "(string \<Rightarrow> string) \<Rightarrow> slot_bundle \<Rightarrow> nat \<Rightarrow> (string \<times> nat) list \<Rightarrow> slot list \<Rightarrow> slot list res" where
  "reserve_sources sha b retained [] xs = Inr xs"
| "reserve_sources sha b retained (src # srcs) xs =
     (case List.find (slot_for (sb_key b) (fst src)) xs of
        Some x \<Rightarrow>
          andThen (guard_fail (slot_hash sha (sl_identity x) \<noteq> slot_hash sha (bundle_identity b src)) ''PEER_DELIVERY_KEY_CONFLICT'') (\<lambda>_.
          andThen (guard_fail (sl_state x = Released_slot) ''PEER_DELIVERY_RESERVATION_RELEASED'') (\<lambda>_.
          reserve_sources sha b retained srcs xs))
      | None \<Rightarrow>
          andThen (guard_fail (MAX_PEER_DELIVERIES \<le> retained + length (filter is_reserved xs)) ''PEER_DELIVERY_CAPACITY'') (\<lambda>_.
          reserve_sources sha b retained srcs (xs @ [reserved_slot b src])))"

definition recipient_ready :: "(string \<Rightarrow> string) \<Rightarrow> task_place option \<Rightarrow> slot_bundle \<Rightarrow> task_control \<Rightarrow> bool" where
  "recipient_ready sha place b s =
     (case place of
        None \<Rightarrow> False
      | Some p \<Rightarrow> pl_workspace p = Some (sb_workspace b) \<and> pl_coordinated p \<and> tc_phase s = Active_phase \<and> tc_cancel s = None
          \<and> tc_settled s = None \<and> nv_state (tc_native s) = Live_native \<and> nv_run (tc_native s) = sb_run b
          \<and> tc_generation s = sb_generation b \<and> pl_pending p \<and> pl_path p = Some (sb_workspace b)
          \<and> workspace_fingerprint sha (sb_task b) p (sb_workspace b) = sb_fingerprint b)"

definition reservePeerDeliverySlots :: "(string \<Rightarrow> string) \<Rightarrow> task_place option \<Rightarrow> slot_bundle \<Rightarrow> task_control \<Rightarrow> (task_control \<times> unit) res" where
  "reservePeerDeliverySlots sha place b s =
     andThen (guard_fail (\<not> recipient_ready sha place b s) ''PEER_DELIVERY_STALE'') (\<lambda>_.
     (let xs = slots_of s in
      andThen (guard_fail (list_ex (\<lambda>x. sl_state x \<noteq> Released_slot \<and> sl_case (sl_identity x) = sb_case b
          \<and> sl_case_revision (sl_identity x) = sb_case_revision b \<and> sl_case_generation (sl_identity x) = sb_case_generation b
          \<and> sl_key (sl_identity x) \<noteq> sb_key b) xs) ''PEER_DELIVERY_RESERVATION_CONFLICT'') (\<lambda>_.
      andThen (reserve_sources sha b (length (deliveries_of s)) (sb_sources b) xs) (\<lambda>xs'. Inr (s\<lparr>tc_slots := Some xs'\<rparr>, ())))))"

text \<open>What the schema accepts as a bundle.\<close>

definition bundle_ok :: "formats \<Rightarrow> slot_bundle \<Rightarrow> bool" where
  "bundle_ok z b = (bounded_text 128 (sb_key b) \<and> hash_format (sb_digest b) \<and> uuid_format z (sb_case b)
    \<and> counted (sb_expected_revision b) \<and> counted (sb_case_revision b) \<and> counted (sb_case_generation b) \<and> uuid_format z (sb_task b)
    \<and> uuid_format z (sb_run b) \<and> counted (sb_generation b) \<and> bounded_text 4096 (sb_workspace b) \<and> hash_format (sb_fingerprint b)
    \<and> 1 \<le> length (sb_sources b) \<and> length (sb_sources b) \<le> MAX_PEER_DELIVERIES
    \<and> list_all (\<lambda>src. uuid_format z (fst src) \<and> counted (snd src)) (sb_sources b)
    \<and> sb_case_revision b = sb_expected_revision b + 1 \<and> unique_by fst (sb_sources b))"

section \<open>Queueing\<close>

record delivery_source =
  ds_key :: string
  ds_source :: string
  ds_source_revision :: nat
  ds_case :: string
  ds_case_revision :: nat
  ds_case_generation :: nat
  ds_evidence :: string
  ds_evidence_revision :: nat
  ds_digest :: string
  ds_content :: string

definition source_of_envelope :: "envelope \<Rightarrow> delivery_source" where
  "source_of_envelope e = \<lparr>ds_key = en_key e, ds_source = en_source e, ds_source_revision = en_source_revision e, ds_case = en_case e,
     ds_case_revision = en_case_revision e, ds_case_generation = en_case_generation e, ds_evidence = en_evidence e,
     ds_evidence_revision = en_evidence_revision e, ds_digest = en_digest e, ds_content = en_content e\<rparr>"

definition source_hash :: "(string \<Rightarrow> string) \<Rightarrow> delivery_source \<Rightarrow> string" where
  "source_hash sha d = canonical_hash sha (JObj [(''source_work_id'', JStr (ds_source d)), (''source_work_revision'', jnat (ds_source_revision d)),
     (''case_id'', JStr (ds_case d)), (''case_revision'', jnat (ds_case_revision d)), (''case_generation'', jnat (ds_case_generation d)),
     (''evidence_id'', JStr (ds_evidence d)), (''evidence_revision'', jnat (ds_evidence_revision d)), (''evidence_digest'', JStr (ds_digest d)),
     (''content'', JStr (ds_content d)), (''idempotency_key'', JStr (ds_key d))])"

definition immutablePeerEnvelope :: "(string \<Rightarrow> string) \<Rightarrow> formats \<Rightarrow> envelope \<Rightarrow> envelope res" where
  "immutablePeerEnvelope sha z e =
     (if envelope_ok z e \<and> en_digest e = sha (en_content e) then Inr e else fail ''PEER_DELIVERY_INVALID'')"

text \<open>The envelope a recipient with a live coordinated workspace would get.\<close>

definition queued_envelope :: "(string \<Rightarrow> string) \<Rightarrow> formats \<Rightarrow> task_place option \<Rightarrow> string \<Rightarrow> string \<Rightarrow> delivery_source \<Rightarrow> task_control
    \<Rightarrow> envelope option res" where
  "queued_envelope sha z place task fresh d s =
     (case place of
        None \<Rightarrow> Inr None
      | Some p \<Rightarrow>
          (case pl_workspace p of
             None \<Rightarrow> Inr None
           | Some w \<Rightarrow>
               if \<not> pl_coordinated p \<or> \<not> pl_pending p \<or> pl_path p \<noteq> Some w \<or> nv_state (tc_native s) \<noteq> Live_native then Inr None
               else andThen (immutablePeerEnvelope sha z \<lparr>en_id = fresh, en_key = ds_key d, en_task = task, en_run = nv_run (tc_native s),
                   en_generation = tc_generation s, en_workspace = w, en_fingerprint = workspace_fingerprint sha task p w,
                   en_source = ds_source d, en_source_revision = ds_source_revision d, en_case = ds_case d,
                   en_case_revision = ds_case_revision d, en_case_generation = ds_case_generation d, en_evidence = ds_evidence d,
                   en_evidence_revision = ds_evidence_revision d, en_digest = ds_digest d, en_content = ds_content d\<rparr>) (\<lambda>e. Inr (Some e))))"

definition validity_text :: "validity \<Rightarrow> string" where
  "validity_text v = (case v of Valid_current \<Rightarrow> ''CURRENT'' | Valid_stale \<Rightarrow> ''STALE'' | Valid_revoked \<Rightarrow> ''REVOKED''
     | Valid_cancelled \<Rightarrow> ''CANCELLED'' | Valid_replaced \<Rightarrow> ''REPLACED'')"

datatype 'a attempt = Retry | Attempted 'a

definition recipient_matches :: "string \<Rightarrow> envelope \<Rightarrow> slot_identity \<Rightarrow> bool" where
  "recipient_matches task e i = (sl_task i = task \<and> sl_run i = en_run e \<and> sl_generation i = en_generation e
     \<and> sl_workspace i = en_workspace e \<and> sl_fingerprint i = en_fingerprint e)"

definition case_matches :: "delivery_source \<Rightarrow> slot_identity \<Rightarrow> bool" where
  "case_matches d i = (sl_case i = ds_case d \<and> sl_case_revision i = ds_case_revision d \<and> sl_case_generation i = ds_case_generation d
     \<and> sl_source i = ds_source d)"

definition slot_awaits :: "string \<Rightarrow> envelope \<Rightarrow> delivery_source \<Rightarrow> slot \<Rightarrow> bool" where
  "slot_awaits task e d x = (sl_state x = Reserved_slot \<and> recipient_matches task e (sl_identity x) \<and> case_matches d (sl_identity x)
     \<and> sl_source_revision (sl_identity x) = ds_source_revision d)"

definition slot_served :: "string \<Rightarrow> envelope \<Rightarrow> delivery_source \<Rightarrow> string \<Rightarrow> slot \<Rightarrow> bool" where
  "slot_served task e d k x = (sl_state x = Consumed_slot \<and> sl_key (sl_identity x) = k \<and> case_matches d (sl_identity x)
     \<and> sl_source_revision (sl_identity x) \<le> ds_source_revision d \<and> recipient_matches task e (sl_identity x))"

definition consume_slot :: "string \<Rightarrow> slot \<Rightarrow> slot" where
  "consume_slot i x = x\<lparr>sl_state := Consumed_slot, sl_delivery := Some i\<rparr>"

definition slot_guards :: "string \<Rightarrow> envelope \<Rightarrow> delivery_source \<Rightarrow> string option \<Rightarrow> task_control \<Rightarrow> unit res" where
  "slot_guards task e d operation s =
     (let xs = slots_of s; awaiting = List.find (slot_awaits task e d) xs in
      andThen (guard_fail (list_ex (\<lambda>x. sl_state x = Released_slot \<and> case_matches d (sl_identity x)
          \<and> operation = Some (sl_key (sl_identity x))) xs) ''PEER_DELIVERY_RESERVATION_RELEASED'') (\<lambda>_.
      andThen (guard_fail (\<exists>x \<in> set_option awaiting. operation \<noteq> Some (sl_key (sl_identity x))) ''PEER_DELIVERY_RESERVATION_REQUIRED'') (\<lambda>_.
      andThen (guard_fail (awaiting = None \<and> (\<exists>k \<in> set_option operation. k \<noteq> [] \<and> \<not> list_ex (slot_served task e d k) xs))
          ''PEER_DELIVERY_RESERVATION_STALE'') (\<lambda>_.
      guard_fail (awaiting = None \<and> MAX_PEER_DELIVERIES \<le> length (deliveries_of s) + length (filter is_reserved xs))
        (if list_ex (\<lambda>x. sl_case (sl_identity x) = ds_case d \<and> sl_case_revision (sl_identity x) = ds_case_revision d
            \<and> sl_source (sl_identity x) = ds_source d) xs then ''PEER_DELIVERY_CAPACITY_PENDING'' else ''PEER_DELIVERY_CAPACITY'')))))"

definition queued_state :: "string \<Rightarrow> string \<Rightarrow> envelope \<Rightarrow> delivery_source \<Rightarrow> task_control \<Rightarrow> task_control" where
  "queued_state now task e d s =
     s\<lparr>tc_deliveries := Some (deliveries_of s @ [\<lparr>dl_envelope = e, dl_state = Del_queued, dl_queued_at = now, dl_intent_at = None,
         dl_delivered_at = None, dl_observed_at = None, dl_turn = None, dl_session = None, dl_disposition_at = None\<rparr>]),
       tc_slots := map_option (update_first (slot_awaits task e d) (consume_slot (en_id e))) (tc_slots s)\<rparr>"

definition queuePeerDelivery :: "(string \<Rightarrow> string) \<Rightarrow> formats \<Rightarrow> string \<Rightarrow> string \<Rightarrow> nat \<Rightarrow> envelope option \<Rightarrow> validity \<Rightarrow> delivery_source
    \<Rightarrow> string option \<Rightarrow> task_control \<Rightarrow> (task_control \<times> envelope attempt) res" where
  "queuePeerDelivery sha z now task captured queued valid d operation s =
     (if tc_revision s \<noteq> captured then Inr (s, Retry)
      else andThen (guard_fail (tc_cancel s \<noteq> None) ''PEER_DELIVERY_CANCELLED'') (\<lambda>_.
      andThen (guard_fail (tc_phase s = Finalizing_phase \<or> settled_task s) ''PEER_DELIVERY_STALE'') (\<lambda>_.
      (case queued of
         None \<Rightarrow> fail ''PEER_DELIVERY_UNAVAILABLE''
       | Some e \<Rightarrow>
           andThen (guard_fail (valid \<noteq> Valid_current) (''PEER_DELIVERY_'' @ validity_text valid)) (\<lambda>_.
           (case List.find (\<lambda>x. en_key (dl_envelope x) = ds_key d) (deliveries_of s) of
              Some prior \<Rightarrow>
                andThen (guard_fail (source_hash sha (source_of_envelope (dl_envelope prior)) \<noteq> source_hash sha d) ''PEER_DELIVERY_KEY_CONFLICT'') (\<lambda>_.
                andThen (immutablePeerEnvelope sha z (dl_envelope prior)) (\<lambda>old. Inr (s, Attempted old)))
            | None \<Rightarrow>
                andThen (slot_guards task e d operation s) (\<lambda>_. Inr (queued_state now task e d s, Attempted e))))))))"

section \<open>Dispatch\<close>

definition delivery_with_id :: "string \<Rightarrow> delivery \<Rightarrow> bool" where
  "delivery_with_id i d = (en_id (dl_envelope d) = i)"

definition with_deliveries :: "(delivery list \<Rightarrow> delivery list) \<Rightarrow> task_control \<Rightarrow> task_control" where
  "with_deliveries f s = s\<lparr>tc_deliveries := map_option f (tc_deliveries s)\<rparr>"

definition validity_state :: "validity \<Rightarrow> delivery_state \<Rightarrow> delivery_state" where
  "validity_state v st = (case v of Valid_current \<Rightarrow> st | Valid_stale \<Rightarrow> Del_stale | Valid_revoked \<Rightarrow> Del_revoked
     | Valid_cancelled \<Rightarrow> Del_cancelled | Valid_replaced \<Rightarrow> Del_replaced)"

definition disposed :: "string \<Rightarrow> validity \<Rightarrow> delivery \<Rightarrow> delivery" where
  "disposed now v d = d\<lparr>dl_state := validity_state v (dl_state d), dl_disposition_at := Some now\<rparr>"

definition intended :: "string \<Rightarrow> delivery \<Rightarrow> delivery" where
  "intended now d = d\<lparr>dl_state := Del_intent, dl_intent_at := Some now\<rparr>"

datatype dispatch_end = Dispatch_retry | Dispatch_drain | Dispatch_value envelope

definition next_queued :: "task_control \<Rightarrow> delivery option" where
  "next_queued s = List.find (\<lambda>d. dl_state d = Del_queued) (deliveries_of s)"

text \<open>One turn of the peer port's \<open>next\<close>: \<open>head\<close> is the queued delivery it had read.\<close>

definition dispatch_next :: "(string \<Rightarrow> string) \<Rightarrow> formats \<Rightarrow> string \<Rightarrow> nat \<Rightarrow> delivery \<Rightarrow> validity \<Rightarrow> task_control
    \<Rightarrow> (task_control \<times> dispatch_end) res" where
  "dispatch_next sha z now captured head valid s =
     (if tc_revision s \<noteq> captured then Inr (s, Dispatch_retry)
      else case next_queued s of
        None \<Rightarrow> Inr (s, Dispatch_retry)
      | Some d \<Rightarrow>
          if en_id (dl_envelope d) \<noteq> en_id (dl_envelope head) then Inr (s, Dispatch_retry)
          else if valid \<noteq> Valid_current
          then Inr (with_deliveries (update_first (\<lambda>x. dl_state x = Del_queued) (disposed now valid)) s, Dispatch_drain)
          else andThen (guard_fail (native_incomplete s (Some Completed)) ''PEER_DELIVERY_TURN_PENDING'') (\<lambda>_.
            andThen (immutablePeerEnvelope sha z (dl_envelope d)) (\<lambda>e.
            Inr (with_deliveries (update_first (\<lambda>x. dl_state x = Del_queued) (intended now)) s, Dispatch_value e))))"

text \<open>An intent whose envelope was not handed out yet is disposed of.\<close>

definition withhold :: "string \<Rightarrow> string \<Rightarrow> validity \<Rightarrow> task_control \<Rightarrow> (task_control \<times> unit) res" where
  "withhold now i valid s =
     Inr (with_deliveries (update_first (delivery_with_id i) (\<lambda>d. if dl_state d = Del_intent then disposed now valid d else d)) s, ())"

section \<open>Acknowledgement\<close>

datatype receipt_target = To_delivered | To_observed

definition target_state :: "receipt_target \<Rightarrow> delivery_state" where
  "target_state t = (case t of To_delivered \<Rightarrow> Del_delivered | To_observed \<Rightarrow> Del_observed)"

definition before_target :: "receipt_target \<Rightarrow> delivery_state" where
  "before_target t = (case t of To_delivered \<Rightarrow> Del_intent | To_observed \<Rightarrow> Del_delivered)"

datatype receipt_end = Receipt_retry | Receipt_missing | Receipt_accepted | Receipt_refused validity

definition acknowledged :: "string \<Rightarrow> receipt_target \<Rightarrow> string \<Rightarrow> string \<Rightarrow> delivery \<Rightarrow> delivery" where
  "acknowledged now t turn session d =
     (let d' = d\<lparr>dl_state := target_state t, dl_turn := Some turn, dl_session := Some session\<rparr> in
      case t of To_delivered \<Rightarrow> d'\<lparr>dl_delivered_at := Some now\<rparr> | To_observed \<Rightarrow> d'\<lparr>dl_observed_at := Some now\<rparr>)"

definition receipt_evidenced :: "receipt_target \<Rightarrow> string \<Rightarrow> string \<Rightarrow> delivery \<Rightarrow> task_control \<Rightarrow> bool" where
  "receipt_evidenced t turn session d s =
     (let n = tc_native s in
      native_text turn \<and> nv_turn n = Some turn \<and> nv_session n = Some session
      \<and> \<not> (t = To_delivered \<and> nv_coverage n = Turn_scoped)
      \<and> \<not> (t = To_observed \<and> (nv_coverage n \<noteq> Turn_scoped \<or> dl_turn d \<noteq> Some turn \<or> dl_session d \<noteq> Some session \<or> nv_obligations n \<noteq> [])))"

definition acceptPeerReceipt :: "string \<Rightarrow> nat \<Rightarrow> validity \<Rightarrow> string \<Rightarrow> string \<Rightarrow> string \<Rightarrow> receipt_target \<Rightarrow> task_control
    \<Rightarrow> (task_control \<times> receipt_end) res" where
  "acceptPeerReceipt now captured binding k turn session t s =
     (let mine = (\<lambda>d. en_key (dl_envelope d) = k) in
      if tc_revision s \<noteq> captured then Inr (s, Receipt_retry)
      else case List.find mine (deliveries_of s) of
        None \<Rightarrow> Inr (s, Receipt_missing)
      | Some d \<Rightarrow>
          if binding \<noteq> Valid_current then
            (if dl_state d = Del_intent \<or> dl_state d = Del_delivered
             then Inr (with_deliveries (update_first mine (\<lambda>d. d\<lparr>dl_state := Del_unknown, dl_disposition_at := Some now\<rparr>)) s, Receipt_refused binding)
             else Inr (s, Receipt_refused binding))
          else if dl_state d = target_state t \<and> dl_turn d = Some turn \<and> dl_session d = Some session
            \<and> nv_turn (tc_native s) = Some turn \<and> nv_session (tc_native s) = Some session then Inr (s, Receipt_accepted)
          else if dl_state d \<noteq> before_target t \<or> \<not> receipt_evidenced t turn session d s then Inr (s, Receipt_refused Valid_stale)
          else Inr (with_deliveries (update_first mine (acknowledged now t turn session)) s, Receipt_accepted))"

section \<open>Settlement of a run\<close>

record settlement =
  st_outcome :: outcome
  st_native_issue :: bool
  st_peer_issue :: bool

text \<open>\<open>recheckCompletion\<close>: native changes since the admission of a completion end it as interrupted.\<close>

definition recheckCompletion :: "(string \<Rightarrow> string) \<Rightarrow> completion_binding option \<Rightarrow> task_control \<Rightarrow> settlement \<Rightarrow> settlement" where
  "recheckCompletion sha binding s r =
     (let n = tc_native s in
      if nv_limitation n = Some LATE_EVENT
      then r\<lparr>st_native_issue := (tc_attention s \<noteq> Some []), st_outcome := (if st_outcome r = Completed then Interrupted else st_outcome r)\<rparr>
      else if st_outcome r \<noteq> Completed then r
      else if nv_coverage n \<noteq> Turn_scoped \<or> nv_obligations n \<noteq> [] \<or> nv_state n = Unknown_native
      then r\<lparr>st_native_issue := (tc_attention s \<noteq> Some []), st_outcome := Interrupted\<rparr>
      else if tc_settled s \<noteq> Some Completed \<or> unresolvedPeerCompletion sha s binding None \<noteq> None
      then r\<lparr>st_peer_issue := True, st_outcome := Interrupted\<rparr>
      else r)"

definition settled_delivery :: "string \<Rightarrow> bool \<Rightarrow> bool \<Rightarrow> delivery \<Rightarrow> delivery" where
  "settled_delivery now cancelled issue d =
     (if issue then d
      else if dl_state d = Del_queued then d\<lparr>dl_state := (if cancelled then Del_cancelled else Del_stale), dl_disposition_at := Some now\<rparr>
      else if dl_state d = Del_intent \<or> dl_state d = Del_delivered then d\<lparr>dl_state := Del_unknown, dl_disposition_at := Some now\<rparr>
      else d)"

definition settleRun :: "(string \<Rightarrow> string) \<Rightarrow> string \<Rightarrow> completion_binding option \<Rightarrow> settlement \<Rightarrow> task_control \<Rightarrow> (task_control \<times> settlement) res" where
  "settleRun sha now binding r s =
     (let r1 = recheckCompletion sha binding s r;
          r2 = (if tc_cancel s = None then r1 else r1\<lparr>st_outcome := Cancelled\<rparr>);
          r3 = (if st_outcome r2 = Completed \<and> list_ex (\<lambda>d. dl_state d = Del_intent \<or> dl_state d = Del_delivered) (deliveries_of s)
                then r2\<lparr>st_outcome := Interrupted\<rparr> else r2) in
      Inr ((with_deliveries (map (settled_delivery now (tc_cancel s \<noteq> None) (st_native_issue r2 \<or> st_peer_issue r2))) s)
             \<lparr>tc_phase := Finalizing_phase, tc_settled := Some (st_outcome r3)\<rparr>, r3))"

end
