(* ===== verification/Task_Keeps.thy ===== *)
theory Task_Keeps
  imports Task_Peers
begin

text \<open>
  Every operation on a stored task control leaves a control that the store accepts: what is
  read back after a commit is again well-formed, so a commit never ends in \<open>STORE_CORRUPT\<close>
  for want of one of these checks. Parts first, operations after.
\<close>

section \<open>Changing one part\<close>

named_theorems part_defs

lemmas [part_defs] = storable_def task_control_ok_def validateTaskControl_def slots_consistent_def

lemma if_some_simps [simp]: "if_some p None" "if_some p (Some x) = p x"
  by (simp_all add: if_some_def)

lemma if_some_map [simp]: "if_some p (map_option f x) = if_some (\<lambda>y. p (f y)) x"
  by (cases x) simp_all

lemma if_some_mono: "if_some p x \<Longrightarrow> (\<And>y. p y \<Longrightarrow> q y) \<Longrightarrow> if_some q x"
  by (cases x) simp_all

definition stamp :: "string \<Rightarrow> nat \<Rightarrow> task_control \<Rightarrow> task_control" where
  "stamp now n s = s\<lparr>tc_revision := n, tc_updated_at := now\<rparr>"

abbreviation stamped :: "string \<Rightarrow> task_control \<Rightarrow> task_control" where
  "stamped now s \<equiv> stamp now (Suc (tc_revision s)) s"

lemma storable_stamped:
  assumes "storable sha z s" and "int (tc_revision s) < MAX_SAFE_INTEGER" and "instant_format z now"
  shows "storable sha z (stamped now s)"
  using assms unfolding part_defs stamp_def by (auto simp: counted_def list_all_iff intro: if_some_mono)

definition input_fits :: "formats \<Rightarrow> task_control \<Rightarrow> pending_input \<Rightarrow> bool" where
  "input_fits z v i = (input_ok z i \<and> pi_run i = nv_run (tc_native v) \<and> pi_revision i \<le> tc_revision v
     \<and> if_some (\<lambda>c. ic_generation c = tc_generation v) (pi_claim i))"

lemma storable_inputsD:
  assumes "storable sha z v"
  shows "length (tc_inputs v) \<le> 4096" "list_all (input_fits z v) (tc_inputs v)" "unique_by pi_id (tc_inputs v)"
    "tc_phase v = Terminal_phase \<Longrightarrow> \<not> list_ex (\<lambda>i. open_input (pi_state i)) (tc_inputs v)"
  using assms unfolding part_defs by (auto simp: list_all_iff input_fits_def)

lemma storable_inputs:
  assumes "storable sha z v" "length xs \<le> 4096" "list_all (input_fits z v) xs" "unique_by pi_id xs"
    and "tc_phase v = Terminal_phase \<Longrightarrow> \<not> list_ex (\<lambda>i. open_input (pi_state i)) xs"
  shows "storable sha z (v\<lparr>tc_inputs := xs\<rparr>)"
  using assms unfolding part_defs by (auto simp: list_all_iff input_fits_def)

lemma storable_phase:
  assumes "storable sha z v" "tc_phase v \<noteq> Terminal_phase" "p \<noteq> Terminal_phase"
  shows "storable sha z (v\<lparr>tc_phase := p\<rparr>)"
  using assms unfolding part_defs by auto

lemma storable_receipts:
  assumes "storable sha z v" "length rs \<le> 4096" "list_all (control_receipt_ok z) rs" "unique_by cr_key rs"
  shows "storable sha z (v\<lparr>tc_receipts := rs\<rparr>)"
  using assms unfolding part_defs by auto

lemma storable_cancel:
  assumes "storable sha z v" "units_in 1 2048 (cn_reason c)" "instant_format z (cn_at c)" "key_format (cn_key c)" "tc_outcome v \<noteq> Some Completed"
  shows "storable sha z (v\<lparr>tc_cancel := Some c\<rparr>)"
  using assms unfolding part_defs by auto

lemma storable_settled: "storable sha z v \<Longrightarrow> storable sha z (v\<lparr>tc_settled := q\<rparr>)"
  unfolding part_defs by auto

lemma storable_telemetry: "storable sha z v \<Longrightarrow> storable sha z (v\<lparr>tc_telemetry_omitted := b\<rparr>)"
  unfolding part_defs by auto

lemma storable_attention: "storable sha z v \<Longrightarrow> if_some (units_in 0 2048) a \<Longrightarrow> storable sha z (v\<lparr>tc_attention := a\<rparr>)"
  unfolding part_defs by auto

lemma storable_native:
  assumes "storable sha z v" "native_ok z n" "nv_run n = nv_run (tc_native v)"
  shows "storable sha z (v\<lparr>tc_native := n\<rparr>)"
  using assms unfolding part_defs by auto

lemma storable_terminal:
  assumes "storable sha z v" "q = Some Completed \<Longrightarrow> tc_cancel v = None" "q \<noteq> None"
    and "\<not> list_ex (\<lambda>i. open_input (pi_state i)) (tc_inputs v)"
  shows "storable sha z (v\<lparr>tc_phase := Terminal_phase, tc_outcome := q\<rparr>)"
  using assms unfolding part_defs by auto

lemma storable_owner:
  assumes "storable sha z v" "hash_format owner" "counted g" "\<forall>i \<in> set (tc_inputs v). pi_claim i = None"
  shows "storable sha z (v\<lparr>tc_owner := owner, tc_generation := g\<rparr>)"
  using assms unfolding part_defs by (auto simp: list_all_iff)

section \<open>Updating inputs one by one\<close>

text \<open>A step of an input that keeps what ties it to its task.\<close>

definition input_step :: "formats \<Rightarrow> task_control \<Rightarrow> (pending_input \<Rightarrow> pending_input) \<Rightarrow> bool" where
  "input_step z v f = (\<forall>i \<in> set (tc_inputs v). input_fits z v i \<longrightarrow> input_fits z v (f i) \<and> pi_id (f i) = pi_id i
     \<and> (open_input (pi_state (f i)) \<longrightarrow> open_input (pi_state i)))"

lemma storable_map_inputs:
  assumes ok: "storable sha z v" and f: "input_step z v f"
  shows "storable sha z (v\<lparr>tc_inputs := map f (tc_inputs v)\<rparr>)"
proof (rule storable_inputs [OF ok])
  note d = storable_inputsD [OF ok]
  show "length (map f (tc_inputs v)) \<le> 4096" using d(1) by simp
  show "list_all (input_fits z v) (map f (tc_inputs v))" using d(2) f by (simp add: list_all_iff input_step_def)
  have "map pi_id (map f (tc_inputs v)) = map pi_id (tc_inputs v)" using d(2) f by (simp add: list_all_iff input_step_def)
  then show "unique_by pi_id (map f (tc_inputs v))" using d(3) unfolding unique_by_def by metis
  show "tc_phase v = Terminal_phase \<Longrightarrow> \<not> list_ex (\<lambda>i. open_input (pi_state i)) (map f (tc_inputs v))"
    using d(2,4) f by (auto simp: list_all_iff list_ex_iff input_step_def)
qed

lemma update_input_map:
  assumes "storable sha z v"
  shows "update_input i f v = v\<lparr>tc_inputs := map (\<lambda>x. if pi_id x = i then f x else x) (tc_inputs v)\<rparr>"
proof -
  have "update_first (\<lambda>x. pi_id x = i) f (tc_inputs v) = map (\<lambda>x. if pi_id x = i then f x else x) (tc_inputs v)"
    using storable_inputsD(3) [OF assms] by (intro update_first_map_key) (simp add: unique_by_def)
  then show ?thesis by (simp add: update_input_def)
qed

lemma storable_update_input:
  assumes ok: "storable sha z v" and f: "\<And>x. x \<in> set (tc_inputs v) \<Longrightarrow> pi_id x = i \<Longrightarrow> input_fits z v x \<Longrightarrow> input_fits z v (f x) \<and> pi_id (f x) = pi_id x
     \<and> (open_input (pi_state (f x)) \<longrightarrow> open_input (pi_state x))"
  shows "storable sha z (update_input i f v)"
  unfolding update_input_map [OF ok] using f by (intro storable_map_inputs [OF ok]) (auto simp: input_step_def)

lemma find_inputD: "find_input s i = Some x \<Longrightarrow> x \<in> set (tc_inputs s) \<and> pi_id x = i"
  by (auto simp: find_input_def find_Some_iff)

lemma input_fits_parts:
  "input_fits z v i \<Longrightarrow> input_fits z v (no_claim i)"
  "input_fits z v i \<Longrightarrow> input_fits z v (withdraw_pending i)"
  "input_fits z v i \<Longrightarrow> input_fits z v (cancelled_input i)"
  by (auto simp: input_fits_def input_ok_def no_claim_def withdraw_pending_def cancelled_input_def answered_def)

lemma input_parts [simp]:
  "pi_id (no_claim i) = pi_id i" "pi_id (withdraw_pending i) = pi_id i" "pi_id (cancelled_input i) = pi_id i"
  "pi_state (no_claim i) = pi_state i"
  by (simp_all add: no_claim_def withdraw_pending_def cancelled_input_def)

lemma open_parts [simp]:
  "open_input (pi_state (withdraw_pending i)) = (open_input (pi_state i) \<and> pi_state i \<noteq> Input_pending)"
  "open_input (pi_state (cancelled_input i)) = (open_input (pi_state i) \<and> pi_state i \<noteq> Input_pending)"
  by (auto simp: open_input_def withdraw_pending_def cancelled_input_def)

section \<open>Updating deliveries\<close>

definition delivery_fits :: "(string \<Rightarrow> string) \<Rightarrow> formats \<Rightarrow> task_control \<Rightarrow> delivery \<Rightarrow> bool" where
  "delivery_fits sha z v d = (delivery_ok z d \<and> en_task (dl_envelope d) = tc_task_id v \<and> en_digest (dl_envelope d) = sha (en_content (dl_envelope d)))"

lemma storable_deliveriesD:
  assumes "storable sha z v"
  shows "list_all (delivery_fits sha z v) (deliveries_of v)" "unique_by (\<lambda>d. en_key (dl_envelope d)) (deliveries_of v)"
    "length (deliveries_of v) \<le> MAX_PEER_DELIVERIES"
  using assms unfolding part_defs by (auto simp: list_all_iff delivery_fits_def unique_by_def split: option.splits)

text \<open>A step that keeps each envelope keeps what the slots say of it.\<close>

lemma delivered_for_envelopes:
  "map dl_envelope ds = map dl_envelope es \<Longrightarrow> delivered_for ds x = delivered_for es x"
proof -
  assume eq: "map dl_envelope ds = map dl_envelope es"
  have "delivered_for as x = list_ex (\<lambda>e. sl_delivery x = Some (en_id e) \<and> same_direction e (sl_identity x)) (map dl_envelope as)" for as
    by (induction as) (simp_all add: delivered_for_def)
  then show ?thesis using eq by metis
qed

lemma storable_deliveries:
  assumes ok: "storable sha z v" and env: "map dl_envelope ds = map dl_envelope (deliveries_of v)"
    and fits: "list_all (delivery_fits sha z v) ds" and some: "tc_deliveries v \<noteq> None"
  shows "storable sha z (v\<lparr>tc_deliveries := Some ds\<rparr>)"
proof -
  obtain es where es: "tc_deliveries v = Some es" using some by blast
  have len: "length ds = length es" using arg_cong [OF env, of length] by (simp add: es)
  have "map (\<lambda>d. en_key (dl_envelope d)) ds = map (\<lambda>d. en_key (dl_envelope d)) es"
    using arg_cong [OF env, of "map en_key"] by (simp add: es comp_def)
  moreover have "delivered_for ds x = delivered_for es x" for x using env by (intro delivered_for_envelopes) (simp add: es)
  ultimately show ?thesis
    using ok fits unfolding part_defs by (auto simp: es len unique_by_def list_all_iff delivery_fits_def)
qed

lemma storable_with_deliveries:
  assumes ok: "storable sha z v" and env: "map dl_envelope (f (deliveries_of v)) = map dl_envelope (deliveries_of v)"
    and fits: "list_all (delivery_fits sha z v) (deliveries_of v) \<Longrightarrow> list_all (delivery_fits sha z v) (f (deliveries_of v))"
  shows "storable sha z (with_deliveries f v)"
proof (cases "tc_deliveries v")
  case None
  then show ?thesis using ok by (simp add: with_deliveries_def) (metis None task_control.surjective task_control.update_convs(11))
next
  case (Some ds)
  then show ?thesis
    using storable_deliveries [OF ok env] fits storable_deliveriesD(1) [OF ok] by (simp add: with_deliveries_def)
qed

lemma stamp_simps [simp]:
  "tc_task_id (stamp now n s) = tc_task_id s" "tc_revision (stamp now n s) = n" "tc_owner (stamp now n s) = tc_owner s"
  "tc_generation (stamp now n s) = tc_generation s" "tc_phase (stamp now n s) = tc_phase s" "tc_outcome (stamp now n s) = tc_outcome s"
  "tc_native (stamp now n s) = tc_native s" "tc_inputs (stamp now n s) = tc_inputs s" "tc_receipts (stamp now n s) = tc_receipts s"
  "tc_deliveries (stamp now n s) = tc_deliveries s" "tc_cancel (stamp now n s) = tc_cancel s" "tc_settled (stamp now n s) = tc_settled s"
  "tc_attention (stamp now n s) = tc_attention s" "tc_slots (stamp now n s) = tc_slots s"
  by (simp_all add: stamp_def)

lemma stamp_update [simp]:
  "stamp now n (s\<lparr>tc_owner := a\<rparr>) = (stamp now n s)\<lparr>tc_owner := a\<rparr>"
  "stamp now n (s\<lparr>tc_generation := b\<rparr>) = (stamp now n s)\<lparr>tc_generation := b\<rparr>"
  "stamp now n (s\<lparr>tc_phase := c\<rparr>) = (stamp now n s)\<lparr>tc_phase := c\<rparr>"
  "stamp now n (s\<lparr>tc_outcome := e\<rparr>) = (stamp now n s)\<lparr>tc_outcome := e\<rparr>"
  "stamp now n (s\<lparr>tc_native := f\<rparr>) = (stamp now n s)\<lparr>tc_native := f\<rparr>"
  "stamp now n (s\<lparr>tc_inputs := g\<rparr>) = (stamp now n s)\<lparr>tc_inputs := g\<rparr>"
  "stamp now n (s\<lparr>tc_receipts := h\<rparr>) = (stamp now n s)\<lparr>tc_receipts := h\<rparr>"
  "stamp now n (s\<lparr>tc_deliveries := i\<rparr>) = (stamp now n s)\<lparr>tc_deliveries := i\<rparr>"
  "stamp now n (s\<lparr>tc_cancel := j\<rparr>) = (stamp now n s)\<lparr>tc_cancel := j\<rparr>"
  "stamp now n (s\<lparr>tc_settled := k\<rparr>) = (stamp now n s)\<lparr>tc_settled := k\<rparr>"
  "stamp now n (s\<lparr>tc_attention := l\<rparr>) = (stamp now n s)\<lparr>tc_attention := l\<rparr>"
  "stamp now n (s\<lparr>tc_telemetry_omitted := m\<rparr>) = (stamp now n s)\<lparr>tc_telemetry_omitted := m\<rparr>"
  "stamp now n (s\<lparr>tc_slots := q\<rparr>) = (stamp now n s)\<lparr>tc_slots := q\<rparr>"
  by (cases s; simp add: stamp_def)+

lemma stamp_parts [simp]:
  "stamp now n (update_input i f s) = update_input i f (stamp now n s)"
  "stamp now n (with_native nf s) = with_native nf (stamp now n s)"
  "stamp now n (with_deliveries df s) = with_deliveries df (stamp now n s)"
  by (simp_all add: update_input_def with_native_def with_deliveries_def)

lemma commit_draft_stamp: "commit_draft sha z now old draft =
    (if canonical_hash sha (task_control_json old) = canonical_hash sha (task_control_json draft) then Inr old
     else if storable sha z (stamp now (Suc (tc_revision old)) draft) then Inr (stamp now (Suc (tc_revision old)) draft) else fail STORE_CORRUPT)"
  by (simp add: commit_draft_def stamp_def)

section \<open>Operations that commit\<close>

text \<open>
  What a client of \<open>change\<close> relies on: from a stored control that the operation admits, below
  the last revision, the draft is one the store accepts under the next revision.
\<close>

locale control_operation =
  fixes sha :: "string \<Rightarrow> string" and z :: formats and now :: string and admits :: "task_control \<Rightarrow> bool"
    and operation :: "task_control \<Rightarrow> (task_control \<times> 'a) res"
  assumes draft: "storable sha z s \<Longrightarrow> storable sha z (stamped now s) \<Longrightarrow> instant_format z now \<Longrightarrow> admits s
    \<Longrightarrow> operation s = Inr (d, v) \<Longrightarrow> storable sha z (stamp now (Suc (tc_revision s)) d)"
begin

lemma commits:
  assumes "storable sha z s" "int (tc_revision s) < MAX_SAFE_INTEGER" "instant_format z now" "admits s" "operation s = Inr (d, v)"
  shows "\<exists>t. change sha z now operation s = Inr (t, v) \<and> storable sha z t \<and> (t = s \<or> t = stamp now (Suc (tc_revision s)) d)"
  using draft [OF assms(1) storable_stamped [OF assms(1-3)] assms(3-5)] assms by (simp add: change_def commit_draft_stamp)

lemma keeps:
  assumes "storable sha z s" "int (tc_revision s) < MAX_SAFE_INTEGER" "instant_format z now" "admits s"
    and "change sha z now operation s = Inr (t, v)"
  shows "storable sha z t"
proof -
  obtain d where d: "operation s = Inr (d, v)" using assms(5) by (auto simp: change_def andThen_Inr_iff)
  then show ?thesis using commits [OF assms(1-4) d] assms(5) by auto
qed

end

section \<open>Inputs\<close>

lemma release_client_step: "control_operation sha z now (\<lambda>_. True) (releaseClient client)"
  using input_fits_parts(1) by unfold_locales (auto simp: releaseClient_def input_step_def split: if_splits intro!: storable_map_inputs [where v = "stamp _ _ _", simplified])

lemma abort_request_step: "control_operation sha z now (\<lambda>_. True) (abort_request i)"
  using input_fits_parts(2) by unfold_locales (auto simp: abort_request_def intro!: storable_update_input)

lemma dismiss_step: "control_operation sha z now (\<lambda>_. True) (dismiss_input i actor claim)"
  using input_fits_parts(1) by unfold_locales (auto simp: dismiss_input_def split: option.splits if_splits intro!: storable_update_input)

lemma withdraw_native_step: "control_operation sha z now (\<lambda>_. True) (withdraw_native native_id)"
  using input_fits_parts(2) by unfold_locales (auto simp: withdraw_native_def input_step_def split: if_splits intro!: storable_map_inputs [where v = "stamp _ _ _", simplified])

lemma settle_turn_step: "control_operation sha z now (\<lambda>_. True) (settle_turn turn)"
  by unfold_locales (auto simp: settle_turn_def input_step_def input_fits_def input_ok_def answered_def open_input_def
      split: if_splits intro!: storable_map_inputs [where v = "stamp _ _ _", simplified])

lemma omit_telemetry_step: "control_operation sha z now (\<lambda>_. True) omit_telemetry"
  by unfold_locales (auto simp: omit_telemetry_def storable_telemetry)

interpretation release_client: control_operation sha z now "\<lambda>_. True" "releaseClient client" for sha z now client
  by (rule release_client_step)
interpretation abort_input: control_operation sha z now "\<lambda>_. True" "abort_request i" for sha z now i
  by (rule abort_request_step)
interpretation dismiss: control_operation sha z now "\<lambda>_. True" "dismiss_input i actor claim" for sha z now i actor claim
  by (rule dismiss_step)
interpretation native_withdrawal: control_operation sha z now "\<lambda>_. True" "withdraw_native native_id" for sha z now native_id
  by (rule withdraw_native_step)
interpretation turn_settlement: control_operation sha z now "\<lambda>_. True" "settle_turn turn" for sha z now turn
  by (rule settle_turn_step)
interpretation telemetry: control_operation sha z now "\<lambda>_. True" omit_telemetry for sha z now
  by (rule omit_telemetry_step)

end
