(* ===== verification/Task_Steps.thy ===== *)
theory Task_Steps
  imports Task_Keeps
begin

text \<open>
  The operations whose drafts the store accepts under conditions: each \<open>..._admits\<close> says what
  the caller ensures of the arguments and of the state, and each interpretation that the
  operation is one of those a task can commit.
\<close>

section \<open>Receipts\<close>

lemma find_receipt_None: "find_receipt s k = None \<Longrightarrow> k \<notin> cr_key ` set (tc_receipts s)"
  by (auto simp: find_receipt_def find_None_iff)

lemma receipt_of_None:
  "receipt_of maximum s k kind hash = Inr None \<Longrightarrow> find_receipt s k = None \<and> length (tc_receipts s) < maximum"
  by (auto simp: receipt_of_def Let_def andThen_Inr_iff guard_fail_Inr split: if_splits)

lemma receipt_of_Some:
  "receipt_of maximum s k kind hash = Inr (Some r) \<Longrightarrow> find_receipt s k = Some r \<and> cr_kind r = kind \<and> cr_hash r = hash"
  by (auto simp: receipt_of_def Let_def andThen_Inr_iff guard_fail_Inr)

lemma storable_receiptsD:
  assumes "storable sha z v"
  shows "list_all (control_receipt_ok z) (tc_receipts v)" "unique_by cr_key (tc_receipts v)" "counted (tc_generation v)" "native_ok z (tc_native v)"
    "(tc_phase v = Terminal_phase) = (tc_outcome v \<noteq> None)" "tc_outcome v = Some Completed \<Longrightarrow> tc_cancel v = None"
  using assms unfolding part_defs by auto

lemma storable_add_receipt:
  assumes ok: "storable sha z v" and none: "find_receipt v (cr_key r) = None" "length (tc_receipts v) < 4096" and r: "control_receipt_ok z r"
  shows "storable sha z (v\<lparr>tc_receipts := tc_receipts v @ [r]\<rparr>)"
  using storable_receiptsD(1,2) [OF ok] none(2) r find_receipt_None [OF none(1)]
  by (intro storable_receipts [OF ok]) (auto simp: unique_by_append1)

lemma find_receipt_stamp [simp]: "find_receipt (stamp now n s) k = find_receipt s k"
  by (simp add: find_receipt_def)

section \<open>Cancellation\<close>

definition digests :: "(string \<Rightarrow> string) \<Rightarrow> bool" where
  "digests sha = (\<forall>t. hash_format (sha t))"

lemma digest_format [simp]: "digests sha \<Longrightarrow> hash_format (canonical_hash sha v)"
  by (simp add: digests_def canonical_hash_def)

definition cancel_admits :: "(string \<Rightarrow> string) \<Rightarrow> nat \<Rightarrow> nat \<Rightarrow> string \<Rightarrow> string \<Rightarrow> task_control \<Rightarrow> bool" where
  "cancel_admits sha maximum generation k reason s =
     (digests sha \<and> maximum \<le> 4096 \<and> key_format k \<and> units_in 1 2048 reason \<and> counted generation)"

lemma cancelled_deliveries_fit:
  assumes "list_all (delivery_fits sha z v) ds" "instant_format z now"
  shows "list_all (delivery_fits sha z v) (map (cancelled_delivery now) ds)"
proof -
  have "delivery_fits sha z v (cancelled_delivery now d)" if "delivery_fits sha z v d" for d
    using that assms(2) by (auto simp: delivery_fits_def delivery_ok_def cancelled_delivery_def delivery_evidenced_def)
  then show ?thesis using assms(1) by (simp add: list_all_iff)
qed

lemma cancelled_envelope [simp]: "dl_envelope (cancelled_delivery now d) = dl_envelope d"
  by (simp add: cancelled_delivery_def)

lemma record_cancellation_draft:
  assumes ok: "storable sha z v" and now: "instant_format z now" and admits: "cancel_admits sha maximum generation k reason s"
    and none: "find_receipt v k = None" "length (tc_receipts v) < maximum"
  shows "storable sha z (fst (record_cancellation sha now i generation k reason v))"
proof -
  define r where "r = \<lparr>cr_key = k, cr_hash = cancel_hash sha i generation reason, cr_kind = Cancel_receipt,
      cr_outcome = (if settled_task v then Already_terminal else Accepted_outcome), cr_at = now, cr_input = None, cr_generation = generation\<rparr>"
  define v1 where "v1 = v\<lparr>tc_receipts := tc_receipts v @ [r]\<rparr>"
  have ok1: "storable sha z v1" unfolding v1_def
    using admits none now by (intro storable_add_receipt [OF ok]) (auto simp: r_def cancel_admits_def control_receipt_ok_def cancel_hash_def)
  show ?thesis
  proof (cases "settled_task v")
    case True
    then show ?thesis using ok1 by (simp add: record_cancellation_def Let_def v1_def r_def)
  next
    case False
    have outcome: "tc_outcome v1 \<noteq> Some Completed"
      using False storable_receiptsD(5) [OF ok] by (auto simp: settled_task_def v1_def)
    let ?c = "\<lparr>cn_reason = reason, cn_at = now, cn_key = k\<rparr>"
    have ok2: "storable sha z (v1\<lparr>tc_cancel := Some ?c\<rparr>)"
      using admits now outcome by (intro storable_cancel [OF ok1]) (auto simp: cancel_admits_def)
    have ok3: "storable sha z (v1\<lparr>tc_cancel := Some ?c, tc_phase := Stopping_phase\<rparr>)"
      using False by (intro storable_phase [OF ok2]) (auto simp: settled_task_def v1_def)
    have ok4: "storable sha z (v1\<lparr>tc_cancel := Some ?c, tc_phase := Stopping_phase, tc_inputs := map cancelled_input (tc_inputs v)\<rparr>)"
      using storable_map_inputs [OF ok3, of cancelled_input] input_fits_parts(3) by (simp add: input_step_def v1_def)
    have "storable sha z (with_deliveries (map (cancelled_delivery now))
        (v1\<lparr>tc_cancel := Some ?c, tc_phase := Stopping_phase, tc_inputs := map cancelled_input (tc_inputs v)\<rparr>))"
      by (rule storable_with_deliveries [OF ok4]) (auto simp: comp_def cancelled_deliveries_fit now)
    then show ?thesis
      using False by (simp add: record_cancellation_def Let_def with_deliveries_def v1_def r_def)
  qed
qed

lemma record_cancellation_stamp:
  "fst (record_cancellation sha now i generation k reason (stamp at n s)) = stamp at n (fst (record_cancellation sha now i generation k reason s))"
  by (simp add: record_cancellation_def Let_def settled_task_def)

interpretation cancelling: control_operation sha z now "cancel_admits sha maximum generation k reason" "cancel sha maximum now i actor generation k reason"
  for sha z now maximum i actor generation k reason
proof
  fix s d v
  assume ok: "storable sha z (stamped now s)" and now: "instant_format z now" and admits: "cancel_admits sha maximum generation k reason s"
    and d: "cancel sha maximum now i actor generation k reason s = Inr (d, v)"
  have "d = s \<or> (receipt_of maximum s k Cancel_receipt (cancel_hash sha i generation reason) = Inr None
      \<and> d = fst (record_cancellation sha now i generation k reason s))"
    using d by (auto simp: cancel_def andThen_Inr_iff receipt_of_def Let_def split: option.split_asm)
  then show "storable sha z (stamp now (Suc (tc_revision s)) d)"
    using ok record_cancellation_draft [OF ok now admits, of i] receipt_of_None
    by (auto simp: record_cancellation_stamp)
qed

section \<open>Adoption\<close>

definition adopt_admits :: "(string \<Rightarrow> string) \<Rightarrow> nat \<Rightarrow> client_actor \<Rightarrow> string \<Rightarrow> task_control \<Rightarrow> bool" where
  "adopt_admits sha maximum actor k s =
     (digests sha \<and> maximum \<le> 4096 \<and> key_format k \<and> hash_format (ca_owner actor) \<and> int (tc_generation s) < MAX_SAFE_INTEGER)"

interpretation adopting: control_operation sha z now "adopt_admits sha maximum actor k" "adopt sha maximum now i actor k"
  for sha z now maximum i actor k
proof
  fix s d v
  assume ok: "storable sha z (stamped now s)" and now: "instant_format z now" and admits: "adopt_admits sha maximum actor k s"
    and d: "adopt sha maximum now i actor k s = Inr (d, v)"
  show "storable sha z (stamp now (Suc (tc_revision s)) d)"
  proof (cases "receipt_of maximum s k Attach_receipt (adopt_hash sha i (ca_owner actor)) = Inr None")
    case False
    then show ?thesis using d ok by (auto simp: adopt_def andThen_Inr_iff split: option.split_asm)
  next
    case True
    let ?r = "\<lparr>cr_key = k, cr_hash = adopt_hash sha i (ca_owner actor), cr_kind = Attach_receipt, cr_outcome = Adopted_outcome,
        cr_at = now, cr_input = None, cr_generation = Suc (tc_generation s)\<rparr>"
    let ?v = "stamped now s"
    have g: "counted (Suc (tc_generation s))" using admits by (simp add: adopt_admits_def counted_def)
    have ok1: "storable sha z (?v\<lparr>tc_inputs := map no_claim (tc_inputs ?v)\<rparr>)"
      using input_fits_parts(1) by (intro storable_map_inputs [OF ok]) (simp add: input_step_def)
    have ok2: "storable sha z (?v\<lparr>tc_inputs := map no_claim (tc_inputs ?v), tc_owner := ca_owner actor, tc_generation := Suc (tc_generation s)\<rparr>)"
      using admits g by (intro storable_owner [OF ok1]) (auto simp: adopt_admits_def no_claim_def)
    have "storable sha z (?v\<lparr>tc_inputs := map no_claim (tc_inputs ?v), tc_owner := ca_owner actor, tc_generation := Suc (tc_generation s),
        tc_receipts := tc_receipts ?v @ [?r]\<rparr>)"
      using admits now g receipt_of_None [OF True] storable_add_receipt [OF ok2, of ?r]
      by (auto simp: adopt_admits_def control_receipt_ok_def adopt_hash_def find_receipt_def)
    moreover have "d = s\<lparr>tc_inputs := map no_claim (tc_inputs s), tc_owner := ca_owner actor, tc_generation := Suc (tc_generation s),
        tc_receipts := tc_receipts s @ [?r]\<rparr>"
      using d True by (cases s) (auto simp: adopt_def Let_def)
    ultimately show ?thesis by simp
  qed
qed

section \<open>Input requests\<close>

definition request_admits :: "(string \<Rightarrow> string) \<Rightarrow> formats \<Rightarrow> input_data \<Rightarrow> string \<Rightarrow> string \<Rightarrow> task_control \<Rightarrow> bool" where
  "request_admits sha z d native_id fresh s =
     (digests sha \<and> uuid_format z fresh \<and> units_in 1 256 native_id \<and> input_data_ok d \<and> units_in 1 256 (nv_run (tc_native s))
      \<and> fresh \<notin> pi_id ` set (tc_inputs s) \<and> length (tc_inputs s) < 4096)"

interpretation requesting: control_operation sha z now "request_admits sha z q native_id fresh" "requestInput sha q native_id fresh"
  for sha z now q native_id fresh
proof
  fix s d v
  assume ok: "storable sha z (stamped now s)" and admits: "request_admits sha z q native_id fresh s" and now: "instant_format z now"
    and d: "requestInput sha q native_id fresh s = Inr (d, v)"
  let ?v = "stamped now s"
  define phase where "phase = (case q of Clarification t cs True \<Rightarrow> Attention_phase | _ \<Rightarrow> Awaiting_phase)"
  have d': "d = s\<lparr>tc_inputs := tc_inputs s @ [v], tc_phase := phase\<rparr>" and open_task: "tc_phase s \<noteq> Terminal_phase"
    and v: "v = \<lparr>pi_id = fresh, pi_native_id = native_id, pi_run = nv_run (tc_native s),
            pi_turn = (case nv_turn (tc_native s) of None \<Rightarrow> nv_run (tc_native s) | Some t \<Rightarrow> t), pi_data = q,
            pi_digest = canonical_hash sha (input_data_json q), pi_revision = Suc (tc_revision s), pi_state = Input_pending,
            pi_claim = None, pi_answer = None, pi_key = None\<rparr>"
    using d by (auto simp: requestInput_def Let_def andThen_Inr_iff guard_fail_Inr phase_def)
  have native: "native_ok z (tc_native s)" using storable_receiptsD(4) [OF ok] by simp
  have turn: "units_in 1 256 (pi_turn v)"
    using admits native by (auto simp: v request_admits_def native_ok_def split: option.split)
  have fits: "input_fits z ?v v"
    using admits turn native ok unfolding part_defs by (auto simp: v input_fits_def input_ok_def request_admits_def answered_def native_ok_def)
  have "storable sha z (?v\<lparr>tc_inputs := tc_inputs s @ [v]\<rparr>)"
    using admits fits open_task storable_inputsD [OF ok]
    by (intro storable_inputs [OF ok]) (auto simp: request_admits_def unique_by_append1 v)
  then have "storable sha z (?v\<lparr>tc_inputs := tc_inputs s @ [v], tc_phase := phase\<rparr>)"
    using open_task by (intro storable_phase) (auto simp: phase_def split: input_data.split bool.split)
  then show "storable sha z (stamp now (Suc (tc_revision s)) d)" by (simp add: d')
qed

section \<open>The completion fence\<close>

definition running_task :: "task_control \<Rightarrow> bool" where
  "running_task s = (tc_phase s \<noteq> Terminal_phase)"

interpretation completing: control_operation sha z now running_task "admitCompletion sha run generation requested binding"
  for sha z now run generation requested binding
proof
  fix s d v
  assume ok: "storable sha z (stamped now s)" and run: "running_task s" and now: "instant_format z now"
    and d: "admitCompletion sha run generation requested binding s = Inr (d, v)"
  have "d = s \<or> (\<exists>q. d = s\<lparr>tc_phase := Finalizing_phase, tc_settled := Some q\<rparr>)"
    using d by (auto simp: admitCompletion_def Let_def split: option.split_asm)
  moreover have "storable sha z ((stamped now s)\<lparr>tc_phase := Finalizing_phase, tc_settled := Some q\<rparr>)" for q
    using run by (intro storable_settled storable_phase [OF ok]) (auto simp: running_task_def)
  ultimately show "storable sha z (stamp now (Suc (tc_revision s)) d)" using ok by auto
qed

section \<open>Presenting and answering\<close>

definition claim_admits :: "formats \<Rightarrow> client_actor \<Rightarrow> string \<Rightarrow> task_control \<Rightarrow> bool" where
  "claim_admits z actor fresh s = (uuid_format z fresh \<and> uuid_format z (ca_client actor))"

interpretation claiming: control_operation sha z now "claim_admits z actor fresh" "claim_input ws i actor generation fresh"
  for sha z now ws i actor generation fresh
proof
  fix s d v
  assume ok: "storable sha z (stamped now s)" and admits: "claim_admits z actor fresh s" and now: "instant_format z now"
    and d: "claim_input ws i actor generation fresh s = Inr (d, v)"
  obtain x where x: "find_input s i = Some x" and pending: "pi_state x = Input_pending" and g: "generation = tc_generation s"
    and v: "v = x\<lparr>pi_claim := Some (case pi_claim x of None \<Rightarrow> \<lparr>ic_id = fresh, ic_client = ca_client actor, ic_generation = generation\<rparr> | Some c \<Rightarrow> c)\<rparr>"
    and d': "d = update_input i (\<lambda>_. v) s"
    using d by (auto simp: claim_input_def owns_def andThen_Inr_iff guard_fail_Inr Let_def split: option.split_asm)
  have mem: "x \<in> set (tc_inputs s)" "pi_id x = i" using find_inputD [OF x] by auto
  have "input_fits z (stamped now s) x" using storable_inputsD(2) [OF ok] mem(1) by (simp add: list_all_iff)
  moreover have "counted (tc_generation s)" using storable_receiptsD(3) [OF ok] by simp
  ultimately have fits: "input_fits z (stamped now s) v"
    using admits pending g by (auto simp: v input_fits_def input_ok_def claim_admits_def claim_ok_def answered_def split: option.split)
  have only: "y = x" if "y \<in> set (tc_inputs s)" "pi_id y = i" for y
    using storable_inputsD(3) [OF ok] that mem by (auto dest: unique_by_inj)
  have "storable sha z (update_input i (\<lambda>_. v) (stamped now s))"
    using fits pending by (intro storable_update_input [OF ok]) (auto simp: v dest!: only)
  then show "storable sha z (stamp now (Suc (tc_revision s)) d)" by (simp add: d')
qed

definition answer_admits :: "(string \<Rightarrow> string) \<Rightarrow> formats \<Rightarrow> nat \<Rightarrow> string \<Rightarrow> string \<Rightarrow> task_control \<Rightarrow> bool" where
  "answer_admits sha z maximum i k s = (digests sha \<and> maximum \<le> 4096 \<and> key_format k \<and> uuid_format z i)"

lemma utf16_length: "length (utf16 s) \<le> length s"
proof (induction s rule: length_induct)
  case (1 s)
  show ?case
  proof (cases s)
    case (Cons a t)
    have tl: "length (utf16 t) \<le> length t" using 1 Cons by (simp del: utf16.simps)
    have two: "length (utf16 t') \<le> length t'" if "t = c # t'" for c t' using 1 Cons that by (simp del: utf16.simps)
    have three: "length (utf16 t') \<le> length t'" if "t = b # c # t'" for b c t' using 1 Cons that by (simp del: utf16.simps)
    have four: "length (utf16 t') \<le> length t'" if "t = b # c # d # t'" for b c d t' using 1 Cons that by (simp del: utf16.simps)
    show ?thesis
      unfolding Cons utf16.simps Let_def
      using tl by (simp only: list.size split: if_split list.split) (auto simp del: utf16.simps dest: two three four)
  qed simp
qed

lemma answered_task_phase:
  "answered_task i k answer r s = (let s' = (update_input i (answer_intent k answer) s)\<lparr>tc_receipts := tc_receipts s @ [r]\<rparr> in
     s'\<lparr>tc_phase := (if list_ex (\<lambda>x. pi_state x = Input_pending) (tc_inputs s') then tc_phase s' else Active_phase)\<rparr>)"
  by (simp add: answered_task_def Let_def)

interpretation answering: control_operation sha z now "answer_admits sha z maximum i k"
    "answer_input sha maximum now ws task i actor generation claim k answer"
  for sha z now maximum i k ws task actor generation claim answer
proof
  fix s d v
  assume ok: "storable sha z (stamped now s)" and admits: "answer_admits sha z maximum i k s" and now: "instant_format z now"
    and d: "answer_input sha maximum now ws task i actor generation claim k answer s = Inr (d, v)"
  define r where "r = \<lparr>cr_key = k, cr_hash = answer_hash sha task i generation answer, cr_kind = Input_receipt,
      cr_outcome = Intent_outcome, cr_at = now, cr_input = Some i, cr_generation = generation\<rparr>"
  let ?v = "stamped now s"
  have "d = s \<or> (\<exists>x. receipt_of maximum s k Input_receipt (answer_hash sha task i generation answer) = Inr None \<and> find_input s i = Some x
      \<and> pi_state x = Input_pending \<and> \<not> closing_task s \<and> length answer \<le> 16384 \<and> generation = tc_generation s \<and> d = answered_task i k answer r s)"
    using d unfolding answer_input_def owns_def r_def
    by (auto simp: andThen_Inr_iff guard_fail_Inr Let_def split: option.split_asm)
  then show "storable sha z (stamp now (Suc (tc_revision s)) d)"
  proof (elim disjE exE conjE)
    assume "d = s"
    then show ?thesis using ok by simp
  next
    fix x
    assume none: "receipt_of maximum s k Input_receipt (answer_hash sha task i generation answer) = Inr None" and x: "find_input s i = Some x"
      and pending: "pi_state x = Input_pending" and running: "\<not> closing_task s" and short: "length answer \<le> 16384"
      and g: "generation = tc_generation s" and d': "d = answered_task i k answer r s"
    have mem: "x \<in> set (tc_inputs s)" "pi_id x = i" using find_inputD [OF x] by auto
    have units: "units_in 0 16384 answer" using short utf16_length [of answer] by (simp add: units_in_def)
    have only: "y = x" if "y \<in> set (tc_inputs s)" "pi_id y = i" for y
      using storable_inputsD(3) [OF ok] that mem by (auto dest: unique_by_inj)
    have ok1: "storable sha z (update_input i (answer_intent k answer) ?v)"
      using units admits pending only
      by (intro storable_update_input [OF ok])
        (auto simp: input_fits_def input_ok_def answer_intent_def answer_admits_def answered_def open_input_def dest!: only)
    have c: "control_receipt_ok z r"
      using admits now g storable_receiptsD(3) [OF ok] by (auto simp: r_def control_receipt_ok_def answer_admits_def answer_hash_def)
    have ok2: "storable sha z ((update_input i (answer_intent k answer) ?v)\<lparr>tc_receipts := tc_receipts s @ [r]\<rparr>)"
      using storable_add_receipt [OF ok1, of r] c admits receipt_of_None [OF none]
      by (auto simp: find_receipt_def update_input_def r_def answer_admits_def)
    have "tc_phase s \<noteq> Terminal_phase" using running by (simp add: closing_task_def)
    then have "storable sha z ((update_input i (answer_intent k answer) ?v)\<lparr>tc_receipts := tc_receipts s @ [r], tc_phase := p\<rparr>)"
      if "p \<noteq> Terminal_phase" for p using that by (intro storable_phase [OF ok2]) (auto simp: update_input_def)
    then show ?thesis using \<open>tc_phase s \<noteq> Terminal_phase\<close> by (simp add: d' answered_task_phase Let_def update_input_def)
  qed
qed

interpretation losing: control_operation sha z now running_task "unknown_answer i" for sha z now i
proof
  fix s d v
  assume ok: "storable sha z (stamped now s)" and run: "running_task s" and d: "unknown_answer i s = Inr (d, v)"
  have "storable sha z (update_input i (\<lambda>x. if pi_state x = Answer_intent then x\<lparr>pi_state := Delivery_unknown\<rparr> else x) (stamped now s))"
    by (intro storable_update_input [OF ok]) (auto simp: input_fits_def input_ok_def answered_def open_input_def split: if_splits)
  then show "storable sha z (stamp now (Suc (tc_revision s)) d)"
    using d run by (auto simp: unknown_answer_def running_task_def update_input_def intro!: storable_phase)
qed

end
