(* ===== verification/Task_Event_Steps.thy ===== *)
theory Task_Event_Steps
  imports Task_Steps
begin

text \<open>
  Native events, dispatch, acknowledgement and settlement leave a control that the store
  accepts. Texts of a native event that the code does not bound itself are bounded by what
  the operation admits.
\<close>

section \<open>Native events\<close>

definition event_admits :: "native_event \<Rightarrow> task_control \<Rightarrow> bool" where
  "event_admits e s = (case e of
     Operation_started i k \<Rightarrow> units_in 1 256 i \<and> units_in 1 128 k
   | Process_observed pid boot started \<Rightarrow> counted pid \<and> units_in 1 128 boot \<and> units_in 1 128 started
   | Runtime_unknown reason \<Rightarrow> units_in 0 1024 reason
   | _ \<Rightarrow> True)"

lemma utf16_nonempty: "s \<noteq> [] \<Longrightarrow> utf16 s \<noteq> []"
  by (cases s) (auto simp: Let_def split: list.split)

lemma native_text_fits: "native_text t \<Longrightarrow> units_in 1 256 t \<and> bounded_text 256 t"
  using utf16_length [of t] utf16_nonempty [of t]
  by (auto simp: native_text_def units_in_def bounded_text_def Suc_le_eq simp del: utf16.simps)

lemma storable_with_native:
  assumes "storable sha z v" "native_ok z (f (tc_native v))" "nv_run (f (tc_native v)) = nv_run (tc_native v)"
  shows "storable sha z (with_native f v)"
  using storable_native [OF assms] by (simp add: with_native_def)

lemma with_native_phase [simp]:
  "tc_phase (with_native f v) = tc_phase v" "tc_native (with_native f v) = f (tc_native v)" "tc_inputs (with_native f v) = tc_inputs v"
  "tc_cancel (with_native f v) = tc_cancel v" "tc_settled (with_native f v) = tc_settled v"
  by (simp_all add: with_native_def)

lemma finished_obligations: "set (takeWhile p xs @ tl (dropWhile p xs)) \<subseteq> set xs"
  by (auto dest: set_takeWhileD intro: set_dropWhileD list.set_sel(2) [rotated])
    (metis empty_iff list.sel(2) list.set(1) list.set_sel(2) set_dropWhileD)

lemma finished_length: "length (takeWhile p xs @ tl (dropWhile p xs)) \<le> length xs"
proof -
  have "length (takeWhile p xs) + length (dropWhile p xs) = length xs" by (metis length_append takeWhile_dropWhile_id)
  then show ?thesis by simp
qed

lemma correlated_fits: "units_in 1 256 turn \<Longrightarrow> input_fits z v i \<Longrightarrow> input_fits z v (correlated_input provisional turn i)"
  by (auto simp: correlated_input_def input_fits_def input_ok_def)

lemma native_step_keeps:
  assumes ok: "storable sha z v" and run: "tc_phase v \<noteq> Terminal_phase" and e: "event_admits e v" and d: "native_step e v = Inr d"
  shows "storable sha z d"
proof -
  have n: "native_ok z (tc_native v)" by (rule storable_receiptsD(4) [OF ok])
  show ?thesis
  proof (cases e)
    case (Turn_started turn session)
    let ?f = "\<lambda>n. n\<lparr>nv_turn := Some turn, nv_state := Live_native, nv_coverage := Unknown_coverage,
        nv_session := (case session of None \<Rightarrow> nv_session n | Some x \<Rightarrow> Some x)\<rparr>"
    have t: "native_text turn" "if_some native_text session" and d': "d = (if tc_cancel v = None then (with_native ?f v)\<lparr>tc_phase := Active_phase\<rparr> else with_native ?f v)"
      using d by (auto simp: Turn_started native_step_def turn_started_def andThen_Inr_iff guard_fail_Inr Let_def)
    have "storable sha z (with_native ?f v)"
      using t n by (intro storable_with_native [OF ok]) (auto simp: native_ok_def dest: native_text_fits split: option.split)
    then show ?thesis using run by (simp add: d' storable_phase)
  next
    case (Turn_correlated p turn session)
    have t: "units_in 1 256 turn"
      and d': "d = with_native (\<lambda>n. n\<lparr>nv_turn := Some turn\<rparr>) (v\<lparr>tc_inputs := map (correlated_input p turn) (tc_inputs v)\<rparr>)"
      using d native_text_fits by (auto simp: Turn_correlated native_step_def correlateNativeTurn_def correlation_refused_def andThen_Inr_iff guard_fail_Inr Let_def)
    have "storable sha z (v\<lparr>tc_inputs := map (correlated_input p turn) (tc_inputs v)\<rparr>)"
      using correlated_fits [OF t] by (intro storable_map_inputs [OF ok]) (auto simp: input_step_def correlated_input_def)
    then show ?thesis unfolding d' using t n by (intro storable_with_native) (auto simp: native_ok_def)
  next
    case (Operation_finished i)
    let ?f = "\<lambda>n. n\<lparr>nv_obligations := takeWhile (\<lambda>b. ob_id b \<noteq> i) (nv_obligations n) @ tl (dropWhile (\<lambda>b. ob_id b \<noteq> i) (nv_obligations n))\<rparr>"
    let ?xs = "nv_obligations (tc_native v)"
    have "length (takeWhile (\<lambda>b. ob_id b \<noteq> i) ?xs @ tl (dropWhile (\<lambda>b. ob_id b \<noteq> i) ?xs)) \<le> 256"
      using n finished_length [of "\<lambda>b. ob_id b \<noteq> i" ?xs] by (simp add: native_ok_def)
    moreover have "list_all (\<lambda>b. units_in 1 256 (ob_id b) \<and> units_in 1 128 (ob_kind b))
        (takeWhile (\<lambda>b. ob_id b \<noteq> i) ?xs @ tl (dropWhile (\<lambda>b. ob_id b \<noteq> i) ?xs))"
      using n finished_obligations [of "\<lambda>b. ob_id b \<noteq> i" ?xs] unfolding native_ok_def list_all_iff by blast
    ultimately have "native_ok z (?f (tc_native v))" using n by (simp add: native_ok_def)
    then have "storable sha z (with_native ?f v)" by (intro storable_with_native [OF ok]) simp_all
    moreover have "d = with_native ?f v" using d by (auto simp: Operation_finished native_step_def andThen_Inr_iff guard_fail_Inr)
    ultimately show ?thesis by simp
  next
    case (Runtime_unknown reason)
    let ?f = "\<lambda>n. n\<lparr>nv_state := Unknown_native, nv_limitation := Some reason\<rparr>"
    have "storable sha z (with_native ?f v)"
      using e n by (intro storable_with_native [OF ok]) (auto simp: Runtime_unknown event_admits_def native_ok_def)
    then show ?thesis using d run by (auto simp: Runtime_unknown native_step_def Let_def intro!: storable_phase split: if_splits)
  qed (use d e n in \<open>auto simp: native_step_def event_admits_def andThen_Inr_iff guard_fail_Inr native_ok_def intro!: storable_with_native [OF ok]\<close>)
qed

lemma native_step_stamp:
  "native_step e (stamp now n s) = map_sum id (stamp now n) (native_step e s)"
  by (cases e) (auto simp: native_step_def turn_started_def correlateNativeTurn_def correlation_refused_def guard_fail_def Let_def)

interpretation native_events: control_operation sha z now "event_admits e" "native_change now saved e" for sha z now e saved
proof
  fix s d v
  assume ok: "storable sha z (stamped now s)" and now: "instant_format z now" and e: "event_admits e s"
    and d: "native_change now saved e s = Inr (d, v)"
  have run: "tc_phase s \<noteq> Terminal_phase" using d by (auto simp: native_change_def andThen_Inr_iff guard_fail_Inr)
  have n: "native_ok z (tc_native s)" using storable_receiptsD(4) [OF ok] by simp
  let ?seen = "\<lambda>n. n\<lparr>nv_observed_at := Some now\<rparr>"
  let ?late = "\<lambda>n. n\<lparr>nv_state := Unknown_native, nv_coverage := Unknown_coverage, nv_limitation := Some LATE_EVENT\<rparr>"
  have seen: "storable sha z (with_native ?seen (stamped now s))"
    using n now by (intro storable_with_native [OF ok]) (auto simp: native_ok_def)
  have late: "storable sha z (with_native ?late (stamped now s))"
    using n by (intro storable_with_native [OF ok]) (auto simp: native_ok_def LATE_EVENT_def units_in_def)
  consider "d = s" | "d = (with_native ?late s)\<lparr>tc_phase := Attention_phase, tc_settled := Some Interrupted, tc_attention := Some LATE_ATTENTION\<rparr>"
    | "native_step e (with_native ?seen s) = Inr d"
    using d by (auto simp: native_change_def andThen_Inr_iff guard_fail_Inr split: if_splits)
  then show "storable sha z (stamp now (Suc (tc_revision s)) d)"
  proof cases
    case 1
    then show ?thesis using ok by simp
  next
    case 2
    have "if_some (units_in 0 2048) (Some LATE_ATTENTION)" by (simp add: LATE_ATTENTION_def units_in_def)
    then show ?thesis
      using run late by (auto simp: 2 intro!: storable_attention storable_settled storable_phase)
  next
    case 3
    have "event_admits e (with_native ?seen (stamped now s))" using e by (simp add: event_admits_def split: native_event.splits)
    moreover have "native_step e (with_native ?seen (stamped now s)) = Inr (stamp now (Suc (tc_revision s)) d)"
      using native_step_stamp [of e now "Suc (tc_revision s)" "with_native ?seen s"] 3 by simp
    ultimately show ?thesis using native_step_keeps [OF seen] run by auto
  qed
qed

interpretation run_phases: control_operation sha z now "\<lambda>s. running_task s \<and> p \<noteq> Terminal_phase" "run_phase p" for sha z now p
  by unfold_locales (auto simp: run_phase_def running_task_def intro!: storable_phase)

interpretation run_starts: control_operation sha z now running_task start_run for sha z now
  by unfold_locales (auto simp: start_run_def running_task_def andThen_Inr_iff native_ok_def
      intro!: storable_phase storable_with_native dest: storable_receiptsD(4))

section \<open>Deliveries\<close>

lemma update_first_envelopes:
  "(\<And>d. dl_envelope (f d) = dl_envelope d) \<Longrightarrow> map dl_envelope (update_first p f ds) = map dl_envelope ds"
  by (induction ds) auto

lemma update_first_fits:
  "list_all q ds \<Longrightarrow> (\<And>d. d \<in> set ds \<Longrightarrow> p d \<Longrightarrow> q d \<Longrightarrow> q (f d)) \<Longrightarrow> list_all q (update_first p f ds)"
  by (induction ds) auto

lemma storable_update_delivery:
  assumes "storable sha z v" and "\<And>d. dl_envelope (f d) = dl_envelope d"
    and "\<And>d. d \<in> set (deliveries_of v) \<Longrightarrow> p d \<Longrightarrow> delivery_fits sha z v d \<Longrightarrow> delivery_fits sha z v (f d)"
  shows "storable sha z (with_deliveries (update_first p f) v)"
  using assms by (intro storable_with_deliveries) (auto intro: update_first_envelopes update_first_fits)

interpretation dispatching: control_operation sha z now "\<lambda>_. True" "dispatch_next sha z now captured head valid" for sha z now captured head valid
proof
  fix s d v
  assume ok: "storable sha z (stamped now s)" and now: "instant_format z now" and d: "dispatch_next sha z now captured head valid s = Inr (d, v)"
  have "storable sha z (with_deliveries (update_first (\<lambda>x. dl_state x = Del_queued) (disposed now valid)) (stamped now s))" if "valid \<noteq> Valid_current"
    using that now by (intro storable_update_delivery [OF ok])
      (auto simp: disposed_def delivery_fits_def delivery_ok_def delivery_evidenced_def validity_state_def split: validity.splits)
  moreover have "storable sha z (with_deliveries (update_first (\<lambda>x. dl_state x = Del_queued) (intended now)) (stamped now s))"
    using now by (intro storable_update_delivery [OF ok]) (auto simp: intended_def delivery_fits_def delivery_ok_def delivery_evidenced_def)
  ultimately show "storable sha z (stamp now (Suc (tc_revision s)) d)"
    using d ok by (auto simp: dispatch_next_def andThen_Inr_iff guard_fail_Inr split: if_splits option.split_asm)
qed

interpretation withholding: control_operation sha z now "\<lambda>_. True" "withhold now i valid" for sha z now i valid
proof
  fix s d v
  assume ok: "storable sha z (stamped now s)" and now: "instant_format z now" and d: "withhold now i valid s = Inr (d, v)"
  have "storable sha z (with_deliveries (update_first (delivery_with_id i) (\<lambda>d. if dl_state d = Del_intent then disposed now valid d else d)) (stamped now s))"
    using now by (intro storable_update_delivery [OF ok])
      (auto simp: disposed_def delivery_fits_def delivery_ok_def delivery_evidenced_def validity_state_def split: validity.splits)
  then show "storable sha z (stamp now (Suc (tc_revision s)) d)" using d by (auto simp: withhold_def)
qed

definition receipt_admits :: "string \<Rightarrow> task_control \<Rightarrow> bool" where
  "receipt_admits session s = bounded_text 256 session"

lemma acknowledged_fits:
  assumes "delivery_fits sha z v d" "instant_format z now" "native_text turn" "bounded_text 256 session" "dl_state d = before_target t"
  shows "delivery_fits sha z v (acknowledged now t turn session d)"
  using assms native_text_fits [OF assms(3)]
  by (cases t) (auto simp: acknowledged_def Let_def delivery_fits_def delivery_ok_def delivery_evidenced_def before_target_def target_state_def)

interpretation acknowledging: control_operation sha z now "receipt_admits session" "acceptPeerReceipt now captured binding k turn session t"
  for sha z now captured binding k turn session t
proof
  fix s d v
  assume ok: "storable sha z (stamped now s)" and now: "instant_format z now" and admits: "receipt_admits session s"
    and d: "acceptPeerReceipt now captured binding k turn session t s = Inr (d, v)"
  let ?mine = "\<lambda>d. en_key (dl_envelope d) = k"
  have one: "y = x" if "List.find ?mine (deliveries_of s) = Some x" "y \<in> set (deliveries_of s)" "en_key (dl_envelope y) = k" for x y
    using unique_by_inj [OF storable_deliveriesD(2) [OF ok], of y x] find_SomeD [OF that(1)] that(2,3) by simp
  have lost: "storable sha z (with_deliveries (update_first ?mine (\<lambda>d. d\<lparr>dl_state := Del_unknown, dl_disposition_at := Some now\<rparr>)) (stamped now s))"
    if x: "List.find ?mine (deliveries_of s) = Some x" and st: "dl_state x = Del_intent \<or> dl_state x = Del_delivered" for x
  proof (rule storable_update_delivery [OF ok])
    fix y assume y: "y \<in> set (deliveries_of (stamped now s))" "en_key (dl_envelope y) = k" "delivery_fits sha z (stamped now s) y"
    then have "y = x" using one [OF x] by simp
    then show "delivery_fits sha z (stamped now s) (y\<lparr>dl_state := Del_unknown, dl_disposition_at := Some now\<rparr>)"
      using y(3) st now by (auto simp: delivery_fits_def delivery_ok_def delivery_evidenced_def)
  qed simp
  have took: "storable sha z (with_deliveries (update_first ?mine (acknowledged now t turn session)) (stamped now s))"
    if x: "List.find ?mine (deliveries_of s) = Some x" and st: "dl_state x = before_target t" "receipt_evidenced t turn session x s" for x
  proof (rule storable_update_delivery [OF ok])
    fix y assume y: "y \<in> set (deliveries_of (stamped now s))" "en_key (dl_envelope y) = k" "delivery_fits sha z (stamped now s) y"
    then have "y = x" using one [OF x] by simp
    then show "delivery_fits sha z (stamped now s) (acknowledged now t turn session y)"
      using y(3) st now admits by (intro acknowledged_fits) (auto simp: receipt_admits_def receipt_evidenced_def Let_def)
  qed (simp add: acknowledged_def Let_def split: receipt_target.split)
  show "storable sha z (stamp now (Suc (tc_revision s)) d)"
    using d ok lost took by (auto simp: acceptPeerReceipt_def Let_def split: if_splits option.split_asm)
qed

end
