(* ===== verification/Task_Slots.thy ===== *)
theory Task_Slots
  imports Task_Event_Steps
begin

text \<open>
  Delivery slots: reserving, consuming and releasing them, and queueing the deliveries that
  consume them, keeps the capacity of the recipient and what the slots say of its
  deliveries. A reservation is admitted while the slots it adds fit the stored list, which
  also counts released ones; \<open>full_slots_refuse\<close> (Task_Fences) shows what happens otherwise.
\<close>

section \<open>The slots of a control\<close>

definition slots_fit :: "formats \<Rightarrow> task_control \<Rightarrow> slot list \<Rightarrow> bool" where
  "slots_fit z v xs = (length xs \<le> MAX_PEER_DELIVERIES \<and> list_all (slot_ok z) xs \<and> slots_consistent v xs)"

lemma storable_slotsD: "storable sha z v \<Longrightarrow> slots_fit z v (slots_of v)"
  using storable_deliveriesD(3) [of sha z v]
  unfolding part_defs by (auto simp: slots_fit_def slots_consistent_def unique_by_def split: option.split)

lemma storable_slots: "storable sha z v \<Longrightarrow> slots_fit z v xs \<Longrightarrow> storable sha z (v\<lparr>tc_slots := Some xs\<rparr>)"
  unfolding slots_fit_def part_defs by auto

lemma found_first:
  "List.find p xs = Some x \<Longrightarrow> \<exists>ys zs. xs = ys @ x # zs \<and> update_first p f xs = ys @ f x # zs"
proof (induction xs)
  case (Cons y ys)
  show ?case
  proof (cases "p y")
    case True
    then show ?thesis using Cons.prems by (intro exI [of _ "[]"] exI [of _ ys]) simp
  next
    case False
    then obtain as bs where "ys = as @ x # bs" "update_first p f ys = as @ f x # bs" using Cons by auto
    then show ?thesis using False by (intro exI [of _ "y # as"] exI [of _ bs]) simp
  qed
qed simp

definition identities_fit :: "string \<Rightarrow> slot_identity list \<Rightarrow> bool" where
  "identities_fit task is = (distinct (map (\<lambda>i. sl_key i @ '':'' @ sl_source i) is) \<and> list_all (\<lambda>i. sl_task i = task) is
     \<and> list_all (\<lambda>i. list_all (\<lambda>j. sl_key i = sl_key j \<longrightarrow> sl_digest i = sl_digest j) is) is)"

lemma slots_fit_alt:
  "slots_fit z v xs = (length xs \<le> MAX_PEER_DELIVERIES \<and> length (deliveries_of v) + length (filter is_reserved xs) \<le> MAX_PEER_DELIVERIES
     \<and> identities_fit (tc_task_id v) (map sl_identity xs)
     \<and> list_all (\<lambda>x. slot_ok z x \<and> (sl_state x = Consumed_slot \<longrightarrow> delivered_for (deliveries_of v) x)) xs)"
  by (simp add: slots_fit_def slots_consistent_def identities_fit_def unique_by_def list_all_iff comp_def) blast

lemma slots_fit_split:
  assumes fit: "slots_fit z v (ys @ x # zs)" and same: "sl_identity x' = sl_identity x" and ok: "slot_ok z x'"
    and kept: "is_reserved x' \<Longrightarrow> is_reserved x" and consumed: "sl_state x' = Consumed_slot \<Longrightarrow> delivered_for (deliveries_of v) x'"
  shows "slots_fit z v (ys @ x' # zs)"
proof -
  have "length (filter is_reserved (ys @ x' # zs)) \<le> length (filter is_reserved (ys @ x # zs))" using kept by simp
  then show ?thesis using fit ok consumed unfolding slots_fit_alt by (simp add: same)
qed

lemma slots_fit_stamp [simp]: "slots_fit z (stamp now n s) xs = slots_fit z s xs"
  by (simp add: slots_fit_def slots_consistent_def)

section \<open>Releasing\<close>

lemma release_sources_fit:
  "release_sources sha b srcs xs = Inr xs' \<Longrightarrow> slots_fit z v xs \<Longrightarrow> slots_fit z v xs'"
proof (induction srcs arbitrary: xs)
  case (Cons src srcs)
  obtain x where x: "List.find (slot_for (sb_key b) (fst src)) xs = Some x" and state: "sl_state x \<noteq> Consumed_slot"
    and rest: "release_sources sha b srcs (update_first (slot_for (sb_key b) (fst src)) release_slot xs) = Inr xs'"
    using Cons.prems(1) by (auto simp: andThen_Inr_iff guard_fail_Inr split: option.split_asm)
  obtain ys zs where split: "xs = ys @ x # zs" "update_first (slot_for (sb_key b) (fst src)) release_slot xs = ys @ release_slot x # zs"
    using found_first [OF x] by blast
  have "slot_ok z (release_slot x)"
    using Cons.prems(2) state unfolding slots_fit_def split(1) by (auto simp: slot_ok_def Let_def release_slot_def)
  then have "slots_fit z v (ys @ release_slot x # zs)"
    using slots_fit_split [of z v ys x zs "release_slot x"] Cons.prems(2) unfolding split(1) by (simp add: release_slot_def is_reserved_def)
  then show ?case using Cons.IH rest split(2) by simp
qed simp

interpretation releasing: control_operation sha z now "\<lambda>_. True" "releasePeerDeliverySlots sha b" for sha z now b
proof
  fix s d v
  assume ok: "storable sha z (stamped now s)" and d: "releasePeerDeliverySlots sha b s = Inr (d, v)"
  show "storable sha z (stamp now (Suc (tc_revision s)) d)"
  proof (cases "tc_slots s")
    case (Some xs)
    have fit: "slots_fit z (stamped now s) xs" using storable_slotsD [OF ok] Some by simp
    show ?thesis
      using d ok storable_slots [OF ok] release_sources_fit [OF _ fit]
      by (auto simp: releasePeerDeliverySlots_def Some andThen_Inr_iff guard_fail_Inr Let_def split: if_splits)
  qed (use d ok in \<open>simp add: releasePeerDeliverySlots_def\<close>)
qed

section \<open>Reserving\<close>

definition reserve_admits :: "formats \<Rightarrow> slot_bundle \<Rightarrow> task_control \<Rightarrow> bool" where
  "reserve_admits z b s = (bundle_ok z b \<and> sb_task b = tc_task_id s \<and> (\<forall>u. uuid_format z u \<longrightarrow> CHR '':'' \<notin> set u)
     \<and> length (slots_of s) + length (sb_sources b) \<le> MAX_PEER_DELIVERIES
     \<and> list_all (\<lambda>x. sl_key (sl_identity x) = sb_key b \<longrightarrow> sl_digest (sl_identity x) = sb_digest b) (slots_of s))"

lemma colon_split:
  "CHR '':'' \<notin> set a \<Longrightarrow> CHR '':'' \<notin> set b \<Longrightarrow> k @ CHR '':'' # a = l @ CHR '':'' # b \<Longrightarrow> k = l \<and> a = b"
proof -
  assume no: "CHR '':'' \<notin> set a" "CHR '':'' \<notin> set b" and eq: "k @ CHR '':'' # a = l @ CHR '':'' # b"
  have "takeWhile (\<lambda>c. c \<noteq> CHR '':'') (List.rev (m @ CHR '':'' # c)) = List.rev c" if "CHR '':'' \<notin> set c" for m c
    using that by (simp add: takeWhile_append)
  from this [OF no(1), of k] this [OF no(2), of l] have "a = b" using eq by (metis rev_rev_ident)
  then show ?thesis using eq by simp
qed

lemma reserve_sources_fit:
  "reserve_sources sha b (length (deliveries_of v)) srcs xs = Inr xs' \<Longrightarrow> slots_fit z v xs \<Longrightarrow> bundle_ok z b \<Longrightarrow> set srcs \<subseteq> set (sb_sources b)
    \<Longrightarrow> sb_task b = tc_task_id v \<Longrightarrow> \<forall>u. uuid_format z u \<longrightarrow> CHR '':'' \<notin> set u \<Longrightarrow> length xs + length srcs \<le> MAX_PEER_DELIVERIES
    \<Longrightarrow> list_all (\<lambda>x. sl_key (sl_identity x) = sb_key b \<longrightarrow> sl_digest (sl_identity x) = sb_digest b) xs \<Longrightarrow> slots_fit z v xs'"
proof (induction srcs arbitrary: xs)
  case (Cons src srcs)
  show ?case
  proof (cases "List.find (slot_for (sb_key b) (fst src)) xs")
    case (Some x)
    then show ?thesis using Cons by (auto simp: andThen_Inr_iff guard_fail_Inr)
  next
    case None
    let ?x = "reserved_slot b src"
    have room: "length (deliveries_of v) + length (filter is_reserved xs) < MAX_PEER_DELIVERIES"
      and rest: "reserve_sources sha b (length (deliveries_of v)) srcs (xs @ [?x]) = Inr xs'"
      using Cons.prems(1) None by (auto simp: andThen_Inr_iff guard_fail_Inr)
    have src: "uuid_format z (fst src)" "counted (snd src)" using Cons.prems(3,4) by (auto simp: bundle_ok_def list_all_iff)
    have slot: "slot_ok z ?x"
      using Cons.prems(3) src by (auto simp: slot_ok_def Let_def reserved_slot_def bundle_identity_def bundle_ok_def)
    have absent: "sl_key i \<noteq> sb_key b \<or> sl_source i \<noteq> fst src" if "i \<in> sl_identity ` set xs" for i
      using that None by (auto simp: find_None_iff slot_for_def)
    have colon: "CHR '':'' \<notin> set (sl_source i)" if "i \<in> sl_identity ` set xs" for i
      using that Cons.prems(2,6) by (auto simp: slots_fit_alt list_all_iff slot_ok_def Let_def)
    let ?new = "bundle_identity b src"
    have old: "identities_fit (tc_task_id v) (map sl_identity xs)" using Cons.prems(2) by (simp add: slots_fit_alt)
    have "CHR '':'' \<notin> set (fst src)" using src(1) Cons.prems(6) by simp
    then have ne: "sl_key i @ '':'' @ sl_source i \<noteq> sb_key b @ '':'' @ fst src" if "i \<in> sl_identity ` set xs" for i
      using colon_split [OF colon [OF that], of "fst src" "sl_key i" "sb_key b"] absent [OF that] by auto
    have "sb_key b @ '':'' @ fst src \<notin> set (map (\<lambda>i. sl_key i @ '':'' @ sl_source i) (map sl_identity xs))"
    proof
      assume "sb_key b @ '':'' @ fst src \<in> set (map (\<lambda>i. sl_key i @ '':'' @ sl_source i) (map sl_identity xs))"
      then obtain i where i: "i \<in> set (map sl_identity xs)" "sb_key b @ '':'' @ fst src = sl_key i @ '':'' @ sl_source i"
        unfolding set_map by (elim imageE) blast
      from i(1) have "i \<in> sl_identity ` set xs" by simp
      from ne [OF this] show False using i(2) [symmetric] by (rule notE)
    qed
    then have d: "distinct (map (\<lambda>i. sl_key i @ '':'' @ sl_source i) (map sl_identity xs @ [?new]))"
      using old unfolding identities_fit_def by (simp only: map_append list.map distinct_append) (simp add: bundle_identity_def)
    have same: "sl_digest i = sl_digest ?new" if "i \<in> set (map sl_identity xs)" "sl_key i = sl_key ?new" for i
      using Cons.prems(8) that by (auto simp: bundle_identity_def list_all_iff)
    have "identities_fit (tc_task_id v) (map sl_identity xs @ [?new])"
      unfolding identities_fit_def
    proof (intro conjI d)
      show "list_all (\<lambda>i. sl_task i = tc_task_id v) (map sl_identity xs @ [?new])"
        using old Cons.prems(5) by (simp add: identities_fit_def bundle_identity_def)
      show "list_all (\<lambda>i. list_all (\<lambda>j. sl_key i = sl_key j \<longrightarrow> sl_digest i = sl_digest j) (map sl_identity xs @ [?new])) (map sl_identity xs @ [?new])"
        unfolding list_all_iff
      proof (intro ballI impI)
        fix i j assume i: "i \<in> set (map sl_identity xs @ [?new])" and j: "j \<in> set (map sl_identity xs @ [?new])" and eq: "sl_key i = sl_key j"
        have old': "sl_digest a = sl_digest b" if "a \<in> set (map sl_identity xs)" "b \<in> set (map sl_identity xs)" "sl_key a = sl_key b" for a b
          using old that unfolding identities_fit_def list_all_iff by blast
        show "sl_digest i = sl_digest j"
          using i j eq same [of i] same [of j] old' [of i j] by (simp only: set_append list.set Un_iff insert_iff empty_iff) metis
      qed
    qed
    then have "slots_fit z v (xs @ [?x])"
      using Cons.prems(2,7) room slot unfolding slots_fit_alt by (simp add: reserved_slot_def is_reserved_def)
    then show ?thesis
      using Cons.IH [OF rest] Cons.prems(3-8) by (simp add: reserved_slot_def bundle_identity_def)
  qed
qed simp

interpretation reserving: control_operation sha z now "reserve_admits z b" "reservePeerDeliverySlots sha place b" for sha z now b place
proof
  fix s d v
  assume ok: "storable sha z (stamped now s)" and admits: "reserve_admits z b s" and d: "reservePeerDeliverySlots sha place b s = Inr (d, v)"
  obtain xs where xs: "reserve_sources sha b (length (deliveries_of s)) (sb_sources b) (slots_of s) = Inr xs" "d = s\<lparr>tc_slots := Some xs\<rparr>"
    using d by (auto simp: reservePeerDeliverySlots_def andThen_Inr_iff guard_fail_Inr Let_def)
  have "slots_fit z (stamped now s) xs"
    using reserve_sources_fit [of sha b "stamped now s" "sb_sources b" "slots_of s" xs z] xs(1) storable_slotsD [OF ok] admits
    unfolding reserve_admits_def by simp
  then show "storable sha z (stamp now (Suc (tc_revision s)) d)" using storable_slots [OF ok] xs(2) by simp
qed

section \<open>Queueing\<close>

definition queue_admits :: "(string \<Rightarrow> string) \<Rightarrow> formats \<Rightarrow> string \<Rightarrow> envelope option \<Rightarrow> delivery_source \<Rightarrow> task_control \<Rightarrow> bool" where
  "queue_admits sha z task queued d s = (task = tc_task_id s
     \<and> if_some (\<lambda>e. envelope_ok z e \<and> en_digest e = sha (en_content e) \<and> en_task e = task \<and> source_of_envelope e = d) queued)"

lemma delivered_for_append: "delivered_for ds x \<Longrightarrow> delivered_for (ds @ es) x"
  by (simp add: delivered_for_def)

lemma storable_deliveries_free:
  assumes "storable sha z v" "tc_slots v = None" "list_all (delivery_fits sha z v) ds" "unique_by (\<lambda>d. en_key (dl_envelope d)) ds"
    "length ds \<le> MAX_PEER_DELIVERIES"
  shows "storable sha z (v\<lparr>tc_deliveries := Some ds\<rparr>)"
proof -
  have "list_all (delivery_ok z) ds" "list_all (\<lambda>d. en_task (dl_envelope d) = tc_task_id v) ds"
    "list_all (\<lambda>d. en_digest (dl_envelope d) = sha (en_content (dl_envelope d))) ds"
    using assms(3) by (simp_all add: list_all_iff delivery_fits_def)
  with assms show ?thesis unfolding part_defs by (auto simp: if_some_def)
qed

lemma storable_no_slots: "storable sha z v \<Longrightarrow> storable sha z (v\<lparr>tc_slots := None\<rparr>)"
  unfolding part_defs by auto

lemma storable_add_delivery:
  assumes ok: "storable sha z v" and fits: "delivery_fits sha z v d" and new: "en_key (dl_envelope d) \<notin> (\<lambda>x. en_key (dl_envelope x)) ` set (deliveries_of v)"
    and room: "length (deliveries_of v) < MAX_PEER_DELIVERIES"
    and slots: "case tc_slots v of None \<Rightarrow> xs = None | Some ys \<Rightarrow> \<exists>zs. xs = Some zs \<and> slots_fit z (v\<lparr>tc_deliveries := Some (deliveries_of v @ [d])\<rparr>) zs"
  shows "storable sha z (v\<lparr>tc_deliveries := Some (deliveries_of v @ [d]), tc_slots := xs\<rparr>)"
proof -
  let ?ds = "deliveries_of v @ [d]" and ?w = "v\<lparr>tc_deliveries := Some (deliveries_of v @ [d])\<rparr>"
  have ds: "list_all (delivery_fits sha z v) ?ds" "unique_by (\<lambda>d. en_key (dl_envelope d)) ?ds" "length ?ds \<le> MAX_PEER_DELIVERIES"
    using storable_deliveriesD [OF ok] fits new room by (auto simp: unique_by_append1)
  have swap: "?w\<lparr>tc_slots := None\<rparr> = (v\<lparr>tc_slots := None\<rparr>)\<lparr>tc_deliveries := Some ?ds\<rparr>" by (cases v) simp
  have none: "storable sha z (?w\<lparr>tc_slots := None\<rparr>)"
    unfolding swap using ds by (intro storable_deliveries_free storable_no_slots ok) (auto simp: delivery_fits_def list_all_iff)
  show ?thesis
  proof (cases xs)
    case None
    then show ?thesis using none by simp
  next
    case (Some zs)
    have "slots_fit z ?w zs" using slots Some by (auto split: option.split_asm)
    then have "slots_fit z (?w\<lparr>tc_slots := None\<rparr>) zs" by (simp add: slots_fit_alt)
    from storable_slots [OF none this] show ?thesis by (simp add: Some)
  qed
qed

text \<open>A slot that awaited the delivery is consumed by it.\<close>

lemma consumed_slots_fit:
  assumes fit: "slots_fit z v xs" and e: "envelope_ok z e" "source_of_envelope e = d" "en_task e = task" and del: "dl_envelope del = e"
    and room: "List.find (slot_awaits task e d) xs = None \<Longrightarrow> length (deliveries_of v) + length (filter is_reserved xs) < MAX_PEER_DELIVERIES"
  shows "slots_fit z (v\<lparr>tc_deliveries := Some (deliveries_of v @ [del])\<rparr>) (update_first (slot_awaits task e d) (consume_slot (en_id e)) xs)"
proof (cases "List.find (slot_awaits task e d) xs")
  case None
  then have "update_first (slot_awaits task e d) (consume_slot (en_id e)) xs = xs"
    by (auto simp: find_None_iff intro!: update_first_id)
  moreover have "length (filter is_reserved xs) + length (deliveries_of v) < MAX_PEER_DELIVERIES" using room [OF None] by simp
  ultimately show ?thesis
    using fit by (auto simp: slots_fit_alt list_all_iff intro: delivered_for_append)
next
  case (Some x)
  obtain ys zs where split: "xs = ys @ x # zs" "update_first (slot_awaits task e d) (consume_slot (en_id e)) xs = ys @ consume_slot (en_id e) x # zs"
    using found_first [OF Some] by blast
  have awaits: "slot_awaits task e d x" using find_SomeD [OF Some] by simp
  have slot: "slot_ok z x" using fit by (simp add: split(1) slots_fit_alt)
  have "same_direction e (sl_identity x)"
    using awaits e(2,3) by (auto simp: slot_awaits_def same_direction_def recipient_matches_def case_matches_def source_of_envelope_def)
  then have served: "delivered_for (deliveries_of v @ [del]) (consume_slot (en_id e) x)"
    by (simp add: delivered_for_def consume_slot_def del)
  have "slot_ok z (consume_slot (en_id e) x)" using slot e(1) by (auto simp: slot_ok_def Let_def consume_slot_def envelope_ok_def)
  moreover have "is_reserved x" "\<not> is_reserved (consume_slot (en_id e) x)"
    using awaits by (simp_all add: slot_awaits_def is_reserved_def consume_slot_def)
  ultimately show ?thesis
    using fit served unfolding split(2) unfolding split(1) slots_fit_alt
    by (auto simp: list_all_iff consume_slot_def [of _ x] intro: delivered_for_append)
qed

interpretation queueing: control_operation sha z now "queue_admits sha z task queued q"
    "queuePeerDelivery sha z now task captured queued valid q operation"
  for sha z now task captured queued valid q operation
proof
  fix s d v
  assume ok: "storable sha z (stamped now s)" and now: "instant_format z now" and admits: "queue_admits sha z task queued q s"
    and d: "queuePeerDelivery sha z now task captured queued valid q operation s = Inr (d, v)"
  show "storable sha z (stamp now (Suc (tc_revision s)) d)"
  proof (cases "d = s")
    case True
    then show ?thesis using ok by simp
  next
    case False
    obtain e where e: "queued = Some e" and none: "List.find (\<lambda>x. en_key (dl_envelope x) = ds_key q) (deliveries_of s) = None"
      and guards: "slot_guards task e q operation s = Inr ()" and d': "d = queued_state now task e q s"
      using d False by (auto simp: queuePeerDelivery_def andThen_Inr_iff guard_fail_Inr split: option.split_asm if_splits)
    let ?v = "stamped now s"
    let ?del = "\<lparr>dl_envelope = e, dl_state = Del_queued, dl_queued_at = now, dl_intent_at = None,
         dl_delivered_at = None, dl_observed_at = None, dl_turn = None, dl_session = None, dl_disposition_at = None\<rparr>"
    have env: "envelope_ok z e" "en_digest e = sha (en_content e)" "en_task e = task" "source_of_envelope e = q" "task = tc_task_id s"
      using admits e by (auto simp: queue_admits_def)
    have room: "length (deliveries_of s) + length (filter is_reserved (slots_of s)) < MAX_PEER_DELIVERIES"
      if "List.find (slot_awaits task e q) (slots_of s) = None"
      using guards that by (auto simp: slot_guards_def andThen_Inr_iff guard_fail_Inr Let_def)
    have fit: "slots_fit z ?v (slots_of s)" using storable_slotsD [OF ok] by simp
    have less: "length (deliveries_of s) < MAX_PEER_DELIVERIES"
    proof (cases "List.find (slot_awaits task e q) (slots_of s)")
      case None
      then show ?thesis using room by simp
    next
      case (Some x)
      then have "x \<in> set (filter is_reserved (slots_of s))" using find_SomeD by (fastforce simp: slot_awaits_def is_reserved_def)
      then have "0 < length (filter is_reserved (slots_of s))" by (rule length_pos_if_in_set)
      moreover have "length (deliveries_of s) + length (filter is_reserved (slots_of s)) \<le> MAX_PEER_DELIVERIES"
        using fit unfolding slots_fit_alt by simp
      ultimately show ?thesis by linarith
    qed
    have key: "en_key e = ds_key q" using env(4) by (auto simp: source_of_envelope_def)
    have "storable sha z (?v\<lparr>tc_deliveries := Some (deliveries_of ?v @ [?del]),
        tc_slots := map_option (update_first (slot_awaits task e q) (consume_slot (en_id e))) (tc_slots s)\<rparr>)"
    proof (rule storable_add_delivery [OF ok])
      show "delivery_fits sha z ?v ?del" using env now by (simp add: delivery_fits_def delivery_ok_def delivery_evidenced_def)
      show "en_key (dl_envelope ?del) \<notin> (\<lambda>x. en_key (dl_envelope x)) ` set (deliveries_of ?v)" using none by (auto simp: find_None_iff key)
      show "length (deliveries_of ?v) < MAX_PEER_DELIVERIES" using less by simp
      show "case tc_slots ?v of None \<Rightarrow> map_option (update_first (slot_awaits task e q) (consume_slot (en_id e))) (tc_slots s) = None
        | Some ys \<Rightarrow> \<exists>zs. map_option (update_first (slot_awaits task e q) (consume_slot (en_id e))) (tc_slots s) = Some zs
            \<and> slots_fit z (?v\<lparr>tc_deliveries := Some (deliveries_of ?v @ [?del])\<rparr>) zs"
        using consumed_slots_fit [OF fit env(1,4,3), of ?del] room by (auto split: option.split)
    qed
    then show ?thesis by (simp add: d' queued_state_def)
  qed
qed

section \<open>Settlement\<close>

lemma settled_envelope [simp]: "dl_envelope (settled_delivery now c i d) = dl_envelope d"
  by (simp add: settled_delivery_def)

interpretation settling: control_operation sha z now running_task "settleRun sha now binding r" for sha z now binding r
proof
  fix s d v
  assume ok: "storable sha z (stamped now s)" and now: "instant_format z now" and run: "running_task s" and d: "settleRun sha now binding r s = Inr (d, v)"
  have fits: "list_all (delivery_fits sha z v) (map (settled_delivery now c i) ds)" if "list_all (delivery_fits sha z v) ds" for c i v ds
  proof -
    have "delivery_fits sha z v (settled_delivery now c i d)" if "delivery_fits sha z v d" for d
      using that now by (auto simp: delivery_fits_def delivery_ok_def settled_delivery_def delivery_evidenced_def)
    then show ?thesis using that by (simp add: list_all_iff)
  qed
  have "storable sha z (with_deliveries (map (settled_delivery now c i)) (stamped now s))" for c i
    by (rule storable_with_deliveries [OF ok]) (simp_all add: comp_def fits)
  then have "storable sha z ((with_deliveries (map (settled_delivery now c i)) (stamped now s))\<lparr>tc_phase := Finalizing_phase, tc_settled := q\<rparr>)" for c i q
    using run by (intro storable_settled storable_phase) (auto simp: running_task_def with_deliveries_def)
  then show "storable sha z (stamp now (Suc (tc_revision s)) d)" using d by (auto simp: settleRun_def Let_def)
qed

end
