(* ===== verification/Task_Ends.thy ===== *)
theory Task_Ends
  imports Task_Peers
begin

text \<open>
  The ends of a task in the coordinator (src/src/core/coordinator.ts): cancellation before a
  native start, the recovered queue, the stop of a private worker, and the publication of a
  result under the task's lock. The result itself and its resources are stored elsewhere: what
  they say is an argument.
\<close>

section \<open>Before a native start\<close>

definition LINK_PENDING :: string where
  "LINK_PENDING = ''Cancellation is retained while exact coordinated link settlement remains pending''"

definition await_link :: "task_control \<Rightarrow> (task_control \<times> unit) res" where
  "await_link s = Inr (if tc_cancel s \<noteq> None \<and> nv_state (tc_native s) = Not_started_native \<and> tc_phase s \<noteq> Terminal_phase
     then s\<lparr>tc_phase := Attention_phase, tc_attention := Some LINK_PENDING\<rparr> else s, ())"

datatype link_end = Link_skipped | Link_awaited | Link_settled | Link_conflict

text \<open>\<open>settleNeverStartedCoordinatedCancellation\<close>: \<open>linked\<close>, whether the link is stored, and \<open>agrees\<close>,
  whether a saved result, if there is one, is the cancelled one of a worker never started.\<close>

definition cancel_never_started :: "(string \<Rightarrow> string) \<Rightarrow> formats \<Rightarrow> string \<Rightarrow> bool \<Rightarrow> bool \<Rightarrow> task_control \<Rightarrow> (task_control \<times> link_end) res" where
  "cancel_never_started sha z now linked agrees s =
     (if tc_cancel s = None \<or> tc_phase s = Terminal_phase \<or> nv_state (tc_native s) \<noteq> Not_started_native then Inr (s, Link_skipped)
      else if \<not> linked then andThen (change sha z now await_link s) (\<lambda>(t, _). Inr (t, Link_awaited))
      else andThen (guard_fail (\<not> agrees) ''COORDINATION_CANCELLATION_CONFLICT'') (\<lambda>_.
        andThen (change sha z now settle_never_started s) (\<lambda>(t, _). Inr (t, Link_settled))))"

definition RECOVERED_QUEUED :: string where "RECOVERED_QUEUED = ''Recovered queued''"

definition end_recovered :: "task_control \<Rightarrow> (task_control \<times> unit) res" where
  "end_recovered s = Inr (s\<lparr>tc_phase := Terminal_phase, tc_outcome := Some Cancelled, tc_attention := None\<rparr>, ())"

definition cancelRecoveredQueue :: "(string \<Rightarrow> string) \<Rightarrow> formats \<Rightarrow> string \<Rightarrow> task_control \<Rightarrow> task_control res" where
  "cancelRecoveredQueue sha z now s =
     (if nv_state (tc_native s) \<noteq> Not_started_native \<or> \<not> (case tc_attention s of None \<Rightarrow> False | Some a \<Rightarrow> starts_with a RECOVERED_QUEUED)
      then Inr s else andThen (change sha z now end_recovered s) (\<lambda>(t, _). Inr t))"

definition RETAINED_QUEUED :: string where
  "RETAINED_QUEUED = ''Recovered queued work: retained during explicit frozen-service shutdown; cancel explicitly before resubmitting''"

definition retain_queued :: "task_control \<Rightarrow> (task_control \<times> unit) res" where
  "retain_queued s = Inr (s\<lparr>tc_phase := Attention_phase, tc_attention := Some RETAINED_QUEUED\<rparr>, ())"

section \<open>A private worker's stop\<close>

definition stop_private :: "string \<Rightarrow> nat \<Rightarrow> task_control \<Rightarrow> (task_control \<times> unit) res" where
  "stop_private run generation s =
     andThen (guard_fail (nv_run (tc_native s) \<noteq> run \<or> tc_generation s \<noteq> generation \<or> tc_cancel s \<noteq> None
       \<or> nv_coverage (tc_native s) \<noteq> Turn_scoped \<or> nv_obligations (tc_native s) \<noteq> []) ''PRIVATE_GIT_STOP_UNCONFIRMED'') (\<lambda>_.
     Inr (with_native (\<lambda>n. n\<lparr>nv_state := Stopped_native\<rparr>) s, ()))"

section \<open>Publishing the result\<close>

datatype worker_stop = Stop_confirmed | Stop_unconfirmed | Stop_not_started

text \<open>
  What the publication reads: the worker's stop, whether private Git resources exist and are
  unresolved, the settlement so far, what happened while the result was written (a late native
  event by its kind, or a failed write), and the attention of the retained peer and native
  issues, already cut to its length.
\<close>

record ending =
  nd_stop :: worker_stop
  nd_private :: bool
  nd_unresolved :: bool
  nd_late :: "string option"
  nd_write_error :: "error option"
  nd_peer_attention :: string
  nd_native_attention :: string

definition ended_native :: "ending \<Rightarrow> native_evidence \<Rightarrow> native_evidence" where
  "ended_native e n = n\<lparr>nv_state :=
     (if nd_private e then
        (if nv_state n = Stopped_native \<and> nd_stop e = Stop_confirmed then Stopped_native
         else if nv_state n = Not_started_native \<and> nd_stop e = Stop_not_started then Not_started_native else Unknown_native)
      else if nv_limitation n = Some LATE_EVENT then Unknown_native
      else if nd_stop e = Stop_confirmed then Stopped_native
      else if nd_stop e = Stop_not_started then Not_started_native else Unknown_native)\<rparr>"

definition ended_input :: "pending_input \<Rightarrow> pending_input" where
  "ended_input i = i\<lparr>pi_claim := None,
     pi_state := (case pi_state i of Input_pending \<Rightarrow> Input_withdrawn | Answer_intent \<Rightarrow> Delivery_unknown | x \<Rightarrow> x)\<rparr>"

definition post_write_conflict :: "ending \<Rightarrow> string option" where
  "post_write_conflict e = (case nd_late e of
     Some k \<Rightarrow> Some (''Native event arrived during immutable result publication ('' @ k @ '')'')
   | None \<Rightarrow> if nd_write_error e \<noteq> None then Some ''Immutable result write completed but its caller failed'' else None)"

definition PRIVATE_ATTENTION :: string where
  "PRIVATE_ATTENTION = ''Private Git preparation or publication remains unresolved; retain all task resources''"
definition SHUTDOWN_ATTENTION :: string where
  "SHUTDOWN_ATTENTION = ''Native shutdown or input delivery remains unconfirmed; explicit reconciliation is required''"

definition ended_inputs :: "ending \<Rightarrow> settlement \<Rightarrow> task_control \<Rightarrow> task_control" where
  "ended_inputs e r s =
     (let d = s\<lparr>tc_native := ended_native e (tc_native s), tc_inputs := map ended_input (tc_inputs s)\<rparr> in
      if nd_unresolved e \<or> st_peer_issue r \<or> st_native_issue r \<or> nd_stop e = Stop_unconfirmed
         \<or> list_ex (\<lambda>i. pi_state i = Delivery_unknown) (tc_inputs d)
      then d\<lparr>tc_phase := Attention_phase, tc_attention := Some (
        if nd_unresolved e then PRIVATE_ATTENTION else if st_peer_issue r then nd_peer_attention e
        else if st_native_issue r then nd_native_attention e else SHUTDOWN_ATTENTION)\<rparr>
      else d\<lparr>tc_phase := Terminal_phase, tc_outcome := Some (st_outcome r)\<rparr>)"

definition ended_control :: "ending \<Rightarrow> settlement \<Rightarrow> task_control \<Rightarrow> task_control" where
  "ended_control e r s =
     (case post_write_conflict e of
        Some c \<Rightarrow> (with_native (\<lambda>n. n\<lparr>nv_state := Unknown_native, nv_coverage := Unknown_coverage, nv_limitation := Some c\<rparr>) s)
          \<lparr>tc_phase := Attention_phase, tc_outcome := None, tc_attention := Some (c @ ''; retained result requires reconciliation'')\<rparr>
      | None \<Rightarrow> ended_inputs e r s)"

text \<open>The store writes the next revision, whatever it changes.\<close>

definition store_next :: "(string \<Rightarrow> string) \<Rightarrow> formats \<Rightarrow> string \<Rightarrow> task_control \<Rightarrow> task_control res" where
  "store_next sha z now draft =
     (let next = draft\<lparr>tc_revision := tc_revision draft + 1, tc_updated_at := now\<rparr> in
      if storable sha z next then Inr next else fail STORE_CORRUPT)"

definition settled_again :: "(string \<Rightarrow> string) \<Rightarrow> formats \<Rightarrow> string \<Rightarrow> settlement \<Rightarrow> task_control \<Rightarrow> task_control res" where
  "settled_again sha z now r s =
     (if tc_settled s \<noteq> Some (st_outcome r) \<or> tc_phase s \<noteq> Finalizing_phase
      then store_next sha z now (s\<lparr>tc_phase := Finalizing_phase, tc_settled := Some (st_outcome r)\<rparr>) else Inr s)"

text \<open>
  The publication, and the control that is stored after it: a failed write of the result stops
  it when no result is stored (\<open>kept\<close>), after the settlement was stored again.
\<close>

definition publish_result :: "(string \<Rightarrow> string) \<Rightarrow> formats \<Rightarrow> string \<Rightarrow> completion_binding option \<Rightarrow> ending \<Rightarrow> bool \<Rightarrow> settlement \<Rightarrow> task_control
    \<Rightarrow> task_control \<times> settlement res" where
  "publish_result sha z now binding e kept r s =
     (let r' = recheckCompletion sha binding s r in
      case settled_again sha z now r' s of
        Inl x \<Rightarrow> (s, Inl x)
      | Inr t \<Rightarrow>
          (case (nd_write_error e, kept) of
             (Some x, False) \<Rightarrow> (t, Inl x)
           | _ \<Rightarrow> (case store_next sha z now (ended_control e r' t) of Inl x \<Rightarrow> (t, Inl x) | Inr u \<Rightarrow> (u, Inr r'))))"

end
