(* ===== verification/Task_Lasting.thy ===== *)
theory Task_Lasting
  imports Task_Slots Task_Ends
begin

text \<open>
  What a task's control never loses: receipts, an accepted cancellation, and the answer of an
  input. Operations extend the interface of the commits with that law, and the law holds
  along every sequence of commits.
\<close>

section \<open>What lasts\<close>

definition input_lasts :: "pending_input \<Rightarrow> pending_input \<Rightarrow> bool" where
  "input_lasts x y = (pi_id y = pi_id x \<and> pi_native_id y = pi_native_id x \<and> pi_data y = pi_data x \<and> pi_digest y = pi_digest x
     \<and> (pi_state x \<noteq> Input_pending \<longrightarrow> pi_state y \<noteq> Input_pending \<and> pi_answer y = pi_answer x \<and> pi_key y = pi_key x))"

text \<open>A delivery keeps its envelope and, once out of the queue, does not return to it.\<close>

definition delivery_lasts :: "delivery \<Rightarrow> delivery \<Rightarrow> bool" where
  "delivery_lasts x y = (dl_envelope y = dl_envelope x \<and> (dl_state x \<noteq> Del_queued \<longrightarrow> dl_state y \<noteq> Del_queued))"

definition grown :: "('a \<Rightarrow> 'a \<Rightarrow> bool) \<Rightarrow> 'a list \<Rightarrow> 'a list \<Rightarrow> bool" where
  "grown r xs ys = (length xs \<le> length ys \<and> list_all2 r xs (take (length xs) ys))"

definition lasting :: "task_control \<Rightarrow> task_control \<Rightarrow> bool" where
  "lasting s t = (tc_task_id t = tc_task_id s \<and> nv_run (tc_native t) = nv_run (tc_native s) \<and> prefix (tc_receipts s) (tc_receipts t)
     \<and> (\<forall>c. tc_cancel s = Some c \<longrightarrow> tc_cancel t = Some c) \<and> tc_generation s \<le> tc_generation t
     \<and> tc_revision s \<le> tc_revision t \<and> grown input_lasts (tc_inputs s) (tc_inputs t)
     \<and> grown delivery_lasts (deliveries_of s) (deliveries_of t))"

lemma input_lasts_refl [simp]: "input_lasts x x"
  by (simp add: input_lasts_def)

lemma delivery_lasts_refl [simp]: "delivery_lasts x x"
  by (simp add: delivery_lasts_def)

lemma input_lasts_trans: "input_lasts x y \<Longrightarrow> input_lasts y w \<Longrightarrow> input_lasts x w"
  by (auto simp: input_lasts_def)

lemma delivery_lasts_trans: "delivery_lasts x y \<Longrightarrow> delivery_lasts y w \<Longrightarrow> delivery_lasts x w"
  by (auto simp: delivery_lasts_def)

lemma grown_nth: "grown r xs ys = (length xs \<le> length ys \<and> (\<forall>n < length xs. r (xs ! n) (ys ! n)))"
  by (auto simp: grown_def list_all2_conv_all_nth)

lemma grown_refl: "(\<And>x. r x x) \<Longrightarrow> grown r xs xs"
  by (simp add: grown_nth)

lemma grown_Nil [simp]: "grown r [] ys"
  by (simp add: grown_def)

lemma grown_lasts [simp]: "grown input_lasts is is" "grown delivery_lasts ds ds"
  by (simp_all add: grown_refl)

lemma grown_trans: "(\<And>x y w. r x y \<Longrightarrow> r y w \<Longrightarrow> r x w) \<Longrightarrow> grown r xs ys \<Longrightarrow> grown r ys ws \<Longrightarrow> grown r xs ws"
  unfolding grown_nth by (meson le_trans less_le_trans)

lemma grown_map: "(\<And>x. r x (f x)) \<Longrightarrow> grown r xs (map f xs)"
  by (simp add: grown_nth)

lemma grown_add: "(\<And>x. r x x) \<Longrightarrow> grown r xs (xs @ ys)"
  by (simp add: grown_nth nth_append)

lemma grown_adds [simp]: "grown input_lasts is (is @ js)" "grown delivery_lasts ds (ds @ es)"
  by (simp_all add: grown_add)

lemma grown_update: "(\<And>x. r x x) \<Longrightarrow> (\<And>x. x \<in> set xs \<Longrightarrow> p x \<Longrightarrow> r x (f x)) \<Longrightarrow> grown r xs (update_first p f xs)"
proof (induction xs)
  case (Cons x xs)
  then show ?case by (auto simp: grown_def list.rel_refl)
qed (simp add: grown_def)

lemma grown_found:
  assumes "grown r xs ys" "\<And>x y. r x y \<Longrightarrow> key y = key x" "distinct (map key ys)" "x \<in> set xs" "y \<in> set ys" "key y = key x"
  shows "r x y"
proof -
  obtain n where n: "n < length xs" "xs ! n = x" using assms(4) by (auto simp: in_set_conv_nth)
  then have y: "n < length ys" "r x (ys ! n)" using assms(1) by (auto simp: grown_nth)
  then have "ys ! n \<in> set ys" "key (ys ! n) = key y" using assms(2,6) by auto
  then have "ys ! n = y" using assms(3,5) by (auto simp: distinct_map dest: inj_onD)
  then show ?thesis using y by simp
qed

lemma lasting_refl [simp]: "lasting s s"
  by (simp add: lasting_def)

lemma lasting_trans: "lasting s t \<Longrightarrow> lasting t u \<Longrightarrow> lasting s u"
  using grown_trans [where r = input_lasts, OF input_lasts_trans] grown_trans [where r = delivery_lasts, OF delivery_lasts_trans]
  unfolding lasting_def by (auto intro: prefix_order.trans)

lemma lasting_stamp: "lasting s d \<Longrightarrow> tc_revision d = tc_revision s \<Longrightarrow> lasting s (stamp now (Suc (tc_revision s)) d)"
  by (simp add: lasting_def)

lemma lasting_commit:
  "lasting s d \<Longrightarrow> tc_revision d = tc_revision s \<Longrightarrow> commit_draft sha z now s d = Inr t \<Longrightarrow> lasting s t"
  by (auto simp: commit_draft_stamp lasting_stamp split: if_splits)

text \<open>A change that leaves the lasting parts alone.\<close>

definition apart :: "task_control \<Rightarrow> task_control \<Rightarrow> bool" where
  "apart s d = (tc_task_id d = tc_task_id s \<and> nv_run (tc_native d) = nv_run (tc_native s) \<and> tc_receipts d = tc_receipts s
     \<and> tc_cancel d = tc_cancel s \<and> tc_generation d = tc_generation s \<and> tc_revision d = tc_revision s)"

lemma lasting_apart: "apart s d \<Longrightarrow> grown input_lasts (tc_inputs s) (tc_inputs d) \<Longrightarrow> grown delivery_lasts (deliveries_of s) (deliveries_of d)
    \<Longrightarrow> lasting s d"
  by (simp add: apart_def lasting_def)

lemmas grown_maps = grown_map [of input_lasts] grown_map [of delivery_lasts]
lemmas grown_updates = grown_update [of input_lasts, OF input_lasts_refl] grown_update [of delivery_lasts, OF delivery_lasts_refl]

lemma grown_deliveries: "(\<And>ds. grown delivery_lasts ds (f ds)) \<Longrightarrow> grown delivery_lasts (deliveries_of s)
    (case tc_deliveries s of None \<Rightarrow> [] | Some x \<Rightarrow> ((\<lambda>ds. ds) \<circ> f) x)"
  by (simp split: option.split)

lemma delivery_lasts_parts [simp]:
  "delivery_lasts d (cancelled_delivery now d)" "delivery_lasts d (settled_delivery now c i d)" "delivery_lasts d (intended now d)"
  "valid \<noteq> Valid_current \<Longrightarrow> delivery_lasts d (disposed now valid d)" "dl_state d = Del_intent \<Longrightarrow> delivery_lasts d (disposed now valid d)"
  "delivery_lasts d (acknowledged now t turn session d)" "delivery_lasts d (d\<lparr>dl_state := Del_unknown, dl_disposition_at := x\<rparr>)"
  "delivery_lasts d (if b then f d else d) = (b \<longrightarrow> delivery_lasts d (f d))"
  by (auto simp: delivery_lasts_def cancelled_delivery_def settled_delivery_def intended_def disposed_def acknowledged_def target_state_def
      validity_state_def Let_def split: validity.split receipt_target.split)

lemma input_lasts_parts [simp]:
  "input_lasts x (no_claim x)" "input_lasts x (withdraw_pending x)" "input_lasts x (cancelled_input x)" "input_lasts x (correlated_input p t x)"
  "input_lasts x (if b then f x else x) = (b \<longrightarrow> input_lasts x (f x))"
  by (auto simp: input_lasts_def no_claim_def withdraw_pending_def cancelled_input_def correlated_input_def)

section \<open>Every operation\<close>

locale lasting_operation = control_operation sha z now admits operation
  for sha z now admits and operation :: "task_control \<Rightarrow> (task_control \<times> 'a) res" +
  assumes lasts: "operation s = Inr (d, v) \<Longrightarrow> lasting s d \<and> tc_revision d = tc_revision s"
begin

lemma change_lasts: "change sha z now operation s = Inr (t, v) \<Longrightarrow> lasting s t"
  using lasts lasting_commit by (fastforce simp: change_def andThen_Inr_iff)

end

lemmas draft_simps = apart_def update_input_def with_native_def with_deliveries_def

interpretation release_client: lasting_operation sha z now "\<lambda>_. True" "releaseClient client" for sha z now client
  by unfold_locales (auto simp: releaseClient_def apart_def intro!: lasting_apart grown_maps)

interpretation abort_input: lasting_operation sha z now "\<lambda>_. True" "abort_request i" for sha z now i
  by unfold_locales (auto simp: abort_request_def draft_simps intro!: lasting_apart grown_updates)

interpretation dismiss: lasting_operation sha z now "\<lambda>_. True" "dismiss_input i actor claim" for sha z now i actor claim
  by unfold_locales (auto simp: dismiss_input_def draft_simps intro!: lasting_apart grown_updates split: option.split)

interpretation native_withdrawal: lasting_operation sha z now "\<lambda>_. True" "withdraw_native native_id" for sha z now native_id
  by unfold_locales (auto simp: withdraw_native_def apart_def intro!: lasting_apart grown_maps)

interpretation turn_settlement: lasting_operation sha z now "\<lambda>_. True" "settle_turn turn" for sha z now turn
  by unfold_locales (auto simp: settle_turn_def apart_def input_lasts_def intro!: lasting_apart grown_maps)

interpretation telemetry: lasting_operation sha z now "\<lambda>_. True" omit_telemetry for sha z now
  by unfold_locales (auto simp: omit_telemetry_def apart_def intro!: lasting_apart)

lemma cancellation_lasts: "lasting s (fst (record_cancellation sha now i generation k reason s))" if "tc_cancel s = None"
  using that by (auto simp: record_cancellation_def Let_def lasting_def intro!: grown_maps grown_deliveries)

lemma cancel_drafts: "cancel sha maximum now i actor generation k reason s = Inr (d, v)
    \<Longrightarrow> d = s \<or> tc_cancel s = None \<and> d = fst (record_cancellation sha now i generation k reason s)"
  by (auto simp: cancel_def andThen_Inr_iff split: option.split_asm)

lemma record_cancellation_revision [simp]: "tc_revision (fst (record_cancellation sha now i generation k reason s)) = tc_revision s"
  by (simp add: record_cancellation_def Let_def)

interpretation cancelling: lasting_operation sha z now "cancel_admits sha maximum generation k reason" "cancel sha maximum now i actor generation k reason"
  for sha z now maximum generation k reason i actor
  by unfold_locales (auto dest!: cancel_drafts simp: cancellation_lasts)

lemma adopt_drafts: "adopt sha maximum now i actor k s = Inr (d, v) \<Longrightarrow> d = s
    \<or> (\<exists>r. d = s\<lparr>tc_owner := ca_owner actor, tc_generation := tc_generation s + 1, tc_inputs := map no_claim (tc_inputs s),
          tc_receipts := tc_receipts s @ [r]\<rparr>)"
  unfolding adopt_def by (cases "receipt_of maximum s k Attach_receipt (adopt_hash sha i (ca_owner actor))") (auto simp: Let_def split: option.split_asm)

interpretation adopting: lasting_operation sha z now "adopt_admits sha maximum actor k" "adopt sha maximum now i actor k" for sha z now maximum actor k i
  by unfold_locales (auto dest!: adopt_drafts simp: lasting_def intro!: grown_maps)

interpretation requesting: lasting_operation sha z now "request_admits sha z q native_id fresh" "requestInput sha q native_id fresh"
  for sha z now q native_id fresh
  by unfold_locales (auto simp: requestInput_def Let_def andThen_Inr_iff guard_fail_Inr apart_def intro!: lasting_apart)

interpretation completing: lasting_operation sha z now running_task "admitCompletion sha run generation requested binding"
  for sha z now run generation requested binding
  by unfold_locales (auto simp: admitCompletion_def Let_def apart_def intro!: lasting_apart split: option.split_asm)

interpretation losing: lasting_operation sha z now running_task "unknown_answer i" for sha z now i
  by unfold_locales (auto simp: unknown_answer_def draft_simps input_lasts_def intro!: lasting_apart grown_updates)

lemma claim_lasts: "claim_input ws i actor generation fresh s = Inr (d, v) \<Longrightarrow> storable sha z s \<Longrightarrow> lasting s d \<and> tc_revision d = tc_revision s"
proof -
  assume d: "claim_input ws i actor generation fresh s = Inr (d, v)" and ok: "storable sha z s"
  obtain x where x: "find_input s i = Some x" and pending: "pi_state x = Input_pending" "pi_id v = pi_id x" "pi_native_id v = pi_native_id x"
      "pi_data v = pi_data x" "pi_digest v = pi_digest x"
    and d': "d = update_input i (\<lambda>_. v) s"
    using d by (auto simp: claim_input_def owns_def andThen_Inr_iff guard_fail_Inr Let_def split: option.split_asm)
  have only: "y = x" if "y \<in> set (tc_inputs s)" "pi_id y = i" for y
    using unique_by_inj [OF storable_inputsD(3) [OF ok], of y x] find_inputD [OF x] that by simp
  have "input_lasts x v" using pending by (simp add: input_lasts_def)
  then have "grown input_lasts (tc_inputs s) (tc_inputs d)" unfolding d' update_input_def
    by (auto intro!: grown_updates dest!: only)
  then show ?thesis by (auto simp: d' draft_simps intro: lasting_apart)
qed

lemma answered_lasts:
  "(d = s \<or> (\<exists>x r. find_input s i = Some x \<and> pi_state x = Input_pending \<and> d = answered_task i k answer r s)) \<Longrightarrow> storable sha z s
    \<Longrightarrow> lasting s d \<and> tc_revision d = tc_revision s"
proof (elim disjE exE conjE)
  fix x r assume ok: "storable sha z s" and x: "find_input s i = Some x" "pi_state x = Input_pending" and d: "d = answered_task i k answer r s"
  have only: "y = x" if "y \<in> set (tc_inputs s)" "pi_id y = i" for y
    using unique_by_inj [OF storable_inputsD(3) [OF ok], of y x] find_inputD [OF x(1)] that by simp
  have "input_lasts x (answer_intent k answer x)" using x(2) by (simp add: input_lasts_def answer_intent_def)
  then have "grown input_lasts (tc_inputs s) (update_first (\<lambda>x. pi_id x = i) (answer_intent k answer) (tc_inputs s))"
    by (intro grown_updates) (auto dest!: only)
  then show ?thesis by (simp add: d answered_task_phase Let_def update_input_def lasting_def)
qed simp

lemma answer_cases:
  "answer_input sha maximum now ws task i actor generation claim k answer s = Inr (d, r, b) \<Longrightarrow>
    \<not> b \<and> d = s \<or> b \<and> (\<exists>x. find_input s i = Some x \<and> pi_state x = Input_pending \<and> \<not> closing_task s \<and> d = answered_task i k answer r s)"
  unfolding answer_input_def owns_def by (auto simp: andThen_Inr_iff guard_fail_Inr Let_def split: option.split_asm)

lemma native_step_lasts: "native_step e s = Inr d \<Longrightarrow> apart s d \<and> tc_deliveries d = tc_deliveries s \<and> grown input_lasts (tc_inputs s) (tc_inputs d)"
  by (cases e) (auto simp: native_step_def turn_started_def correlateNativeTurn_def andThen_Inr_iff guard_fail_Inr Let_def draft_simps intro!: grown_maps)

lemma apart_trans: "apart s t \<Longrightarrow> apart t u \<Longrightarrow> apart s u"
  by (simp add: apart_def)

lemma native_change_lasts: "native_change now saved e s = Inr (d, v) \<Longrightarrow> apart s d \<and> tc_deliveries d = tc_deliveries s \<and> grown input_lasts (tc_inputs s) (tc_inputs d)"
proof -
  assume d: "native_change now saved e s = Inr (d, v)"
  let ?s = "with_native (\<lambda>n. n\<lparr>nv_observed_at := Some now\<rparr>) s"
  consider "apart s d" "tc_deliveries d = tc_deliveries s" "tc_inputs d = tc_inputs s" | "native_step e ?s = Inr d"
    using d by (auto simp: native_change_def andThen_Inr_iff guard_fail_Inr draft_simps split: if_splits)
  then show ?thesis
  proof cases
    case 2
    have "apart s ?s" "tc_deliveries ?s = tc_deliveries s" "tc_inputs ?s = tc_inputs s" by (auto simp: draft_simps)
    then show ?thesis using native_step_lasts [OF 2] apart_trans by auto
  qed simp
qed

interpretation native_events: lasting_operation sha z now "event_admits e" "native_change now saved e" for sha z now e saved
  by unfold_locales (auto dest!: native_change_lasts intro: lasting_apart simp: apart_def)

interpretation run_phases: lasting_operation sha z now "\<lambda>s. running_task s \<and> p \<noteq> Terminal_phase" "run_phase p" for sha z now p
  by unfold_locales (auto simp: run_phase_def apart_def intro!: lasting_apart)

interpretation run_starts: lasting_operation sha z now running_task start_run for sha z now
  by unfold_locales (auto simp: start_run_def andThen_Inr_iff guard_fail_Inr draft_simps intro!: lasting_apart)

interpretation dispatching: lasting_operation sha z now "\<lambda>_. True" "dispatch_next sha z now captured head valid" for sha z now captured head valid
  by unfold_locales (auto simp: dispatch_next_def andThen_Inr_iff guard_fail_Inr draft_simps intro!: lasting_apart grown_deliveries grown_updates grown_maps split: if_splits option.split_asm)

interpretation withholding: lasting_operation sha z now "\<lambda>_. True" "withhold now i valid" for sha z now i valid
  by unfold_locales (auto simp: withhold_def draft_simps intro!: lasting_apart grown_deliveries grown_updates grown_maps)

interpretation acknowledging: lasting_operation sha z now "receipt_admits session" "acceptPeerReceipt now captured binding k turn session t"
  for sha z now session captured binding k turn t
  by unfold_locales (auto simp: acceptPeerReceipt_def Let_def draft_simps intro!: lasting_apart grown_deliveries grown_updates grown_maps split: if_splits option.split_asm)

interpretation releasing: lasting_operation sha z now "\<lambda>_. True" "releasePeerDeliverySlots sha b" for sha z now b
  by unfold_locales (auto simp: releasePeerDeliverySlots_def andThen_Inr_iff guard_fail_Inr Let_def apart_def intro!: lasting_apart split: if_splits option.split_asm)

interpretation reserving: lasting_operation sha z now "reserve_admits z b" "reservePeerDeliverySlots sha place b" for sha z now b place
  by unfold_locales (auto simp: reservePeerDeliverySlots_def andThen_Inr_iff guard_fail_Inr Let_def apart_def intro!: lasting_apart)

interpretation queueing: lasting_operation sha z now "queue_admits sha z task queued q" "queuePeerDelivery sha z now task captured queued valid q operation"
  for sha z now task queued q captured valid operation
  by unfold_locales (auto simp: queuePeerDelivery_def andThen_Inr_iff guard_fail_Inr queued_state_def apart_def intro!: lasting_apart split: if_splits option.split_asm)

interpretation settling: lasting_operation sha z now running_task "settleRun sha now binding r" for sha z now binding r
  by unfold_locales (auto simp: settleRun_def Let_def draft_simps intro!: lasting_apart grown_deliveries grown_updates grown_maps)

section \<open>The ends of a task\<close>

definition no_open_inputs :: "task_control \<Rightarrow> bool" where
  "no_open_inputs s = (\<not> list_ex (\<lambda>i. open_input (pi_state i)) (tc_inputs s))"

interpretation awaiting_link: lasting_operation sha z now "\<lambda>_. True" await_link for sha z now
proof
  fix s d v
  assume ok: "storable sha z (stamped now s)" and d: "await_link s = Inr (d, v)"
  have "if_some (units_in 0 2048) (Some LINK_PENDING)" by code_simp
  then have "storable sha z ((stamped now s)\<lparr>tc_phase := Attention_phase, tc_attention := Some LINK_PENDING\<rparr>)"
    if "tc_phase s \<noteq> Terminal_phase" using that by (intro storable_attention storable_phase [OF ok]) auto
  then show "storable sha z (stamp now (Suc (tc_revision s)) d)" using d ok by (auto simp: await_link_def)
qed (auto simp: await_link_def apart_def intro!: lasting_apart)

interpretation never_started: lasting_operation sha z now no_open_inputs settle_never_started for sha z now
proof
  fix s d v
  assume ok: "storable sha z (stamped now s)" and no: "no_open_inputs s" and d: "settle_never_started s = Inr (d, v)"
  have "storable sha z ((stamped now s)\<lparr>tc_phase := Terminal_phase, tc_outcome := Some Cancelled, tc_settled := Some Cancelled, tc_attention := None\<rparr>)"
    using no by (intro storable_attention storable_settled storable_terminal [OF ok]) (auto simp: no_open_inputs_def)
  then show "storable sha z (stamp now (Suc (tc_revision s)) d)" using d by (auto simp: settle_never_started_def andThen_Inr_iff)
qed (auto simp: settle_never_started_def andThen_Inr_iff apart_def intro!: lasting_apart)

interpretation recovered_queue: lasting_operation sha z now no_open_inputs end_recovered for sha z now
proof
  fix s d v
  assume ok: "storable sha z (stamped now s)" and no: "no_open_inputs s" and d: "end_recovered s = Inr (d, v)"
  have "storable sha z ((stamped now s)\<lparr>tc_phase := Terminal_phase, tc_outcome := Some Cancelled, tc_attention := None\<rparr>)"
    using no by (intro storable_attention storable_terminal [OF ok]) (auto simp: no_open_inputs_def)
  then show "storable sha z (stamp now (Suc (tc_revision s)) d)" using d by (auto simp: end_recovered_def)
qed (auto simp: end_recovered_def apart_def intro!: lasting_apart)

interpretation retaining_queue: lasting_operation sha z now running_task retain_queued for sha z now
proof
  fix s d v
  assume ok: "storable sha z (stamped now s)" and run: "running_task s" and d: "retain_queued s = Inr (d, v)"
  have "if_some (units_in 0 2048) (Some RETAINED_QUEUED)" by code_simp
  then have "storable sha z ((stamped now s)\<lparr>tc_phase := Attention_phase, tc_attention := Some RETAINED_QUEUED\<rparr>)"
    using run by (intro storable_attention storable_phase [OF ok]) (auto simp: running_task_def)
  then show "storable sha z (stamp now (Suc (tc_revision s)) d)" using d by (auto simp: retain_queued_def)
qed (auto simp: retain_queued_def apart_def intro!: lasting_apart)

interpretation private_stop: lasting_operation sha z now "\<lambda>_. True" "stop_private run generation" for sha z now run generation
proof
  fix s d v
  assume ok: "storable sha z (stamped now s)" and d: "stop_private run generation s = Inr (d, v)"
  have "native_ok z (nv\<lparr>nv_state := x\<rparr>)" if "native_ok z nv" for nv x using that by (simp add: native_ok_def)
  then have "storable sha z (with_native (\<lambda>n. n\<lparr>nv_state := Stopped_native\<rparr>) (stamped now s))"
    using storable_receiptsD(4) [OF ok] unfolding with_native_def by (intro storable_native [OF ok]) auto
  then show "storable sha z (stamp now (Suc (tc_revision s)) d)" using d by (auto simp: stop_private_def andThen_Inr_iff)
qed (auto simp: stop_private_def andThen_Inr_iff draft_simps intro!: lasting_apart)

text \<open>The publication of the result.\<close>

lemma store_next_stored: "store_next sha z now d = Inr t \<Longrightarrow> storable sha z t \<and> t = stamp now (Suc (tc_revision d)) d"
  by (auto simp: store_next_def stamp_def Let_def split: if_splits)

lemma lasting_stamped: "lasting s d \<Longrightarrow> lasting s (stamp now (Suc (tc_revision d)) d)"
  by (simp add: lasting_def)

lemma ended_input_lasts [simp]: "input_lasts x (ended_input x)"
  by (auto simp: input_lasts_def ended_input_def split: input_state.split)

lemma ended_control_lasts: "lasting s (ended_control e r s)"
  unfolding ended_control_def
  by (rule lasting_apart) (auto simp: ended_inputs_def ended_native_def Let_def draft_simps split: option.split intro!: grown_maps)

lemma settled_again_lasts:
  assumes ok: "storable sha z s" and t: "settled_again sha z now r s = Inr t"
  shows "storable sha z t \<and> lasting s t"
proof (cases "t = s")
  case False
  let ?d = "s\<lparr>tc_phase := Finalizing_phase, tc_settled := Some (st_outcome r)\<rparr>"
  have again: "store_next sha z now ?d = Inr t" using t False by (auto simp: settled_again_def split: if_splits)
  have "storable sha z t" "t = stamp now (Suc (tc_revision ?d)) ?d"
    using store_next_stored [OF again] by blast+
  moreover have "lasting s ?d" by (rule lasting_apart) (simp_all add: apart_def)
  ultimately show ?thesis using lasting_stamped by metis
qed (use ok in simp)

lemma publish_lasts: "storable sha z s \<Longrightarrow> publish_result sha z now binding e kept r s = (t, x) \<Longrightarrow> storable sha z t \<and> lasting s t"
proof -
  assume ok: "storable sha z s" and p: "publish_result sha z now binding e kept r s = (t, x)"
  let ?r = "recheckCompletion sha binding s r"
  consider "t = s" | "settled_again sha z now ?r s = Inr t"
    | w where "settled_again sha z now ?r s = Inr w" "store_next sha z now (ended_control e ?r w) = Inr t"
    using p by (auto simp: publish_result_def Let_def split: sum.split_asm option.split_asm bool.split_asm)
  then show ?thesis
  proof cases
    case 3
    then have w: "storable sha z w" "lasting s w" using settled_again_lasts [OF ok] by auto
    have t: "storable sha z t" "t = stamp now (Suc (tc_revision (ended_control e ?r w))) (ended_control e ?r w)"
      using store_next_stored [OF 3(2)] by auto
    then show ?thesis using w(2) ended_control_lasts lasting_stamped lasting_trans by metis
  qed (use ok settled_again_lasts [OF ok] in auto)
qed

end
