(* ===== verification/Task_History.thy ===== *)
theory Task_History
  imports Task_Lasting
begin

text \<open>
  Sequences of commits on one task's control: the operations of the runtime as one type, the
  controls they reach, and what holds along every such sequence. The safety of answers, of
  completion and of cancellation follows.
\<close>

section \<open>Operations and histories\<close>

datatype control_op =
    Op_cancel string client_actor nat string string
  | Op_adopt string client_actor string
  | Op_release string
  | Op_request input_data string string
  | Op_abort string
  | Op_claim waiters string client_actor nat string
  | Op_dismiss string client_actor string
  | Op_answer waiters string string client_actor nat string string string
  | Op_lose string
  | Op_withdraw string
  | Op_settle_turn string
  | Op_complete string nat "outcome option" "completion_binding option"
  | Op_native bool native_event
  | Op_phase task_phase
  | Op_start
  | Op_telemetry
  | Op_queue string nat "envelope option" validity delivery_source "string option"
  | Op_dispatch nat delivery validity
  | Op_withhold string validity
  | Op_acknowledge nat validity string string string receipt_target
  | Op_reserve "task_place option" slot_bundle
  | Op_release_slots slot_bundle
  | Op_settle "completion_binding option" settlement
  | Op_await_link
  | Op_never_started
  | Op_recovered
  | Op_retain
  | Op_stop string nat

definition draft_only :: "(task_control \<times> 'a) res \<Rightarrow> (task_control \<times> unit) res" where
  "draft_only r = map_sum id (\<lambda>p. (fst p, ())) r"

fun control_draft :: "(string \<Rightarrow> string) \<Rightarrow> formats \<Rightarrow> nat \<Rightarrow> string \<Rightarrow> control_op \<Rightarrow> task_control \<Rightarrow> (task_control \<times> unit) res" where
  "control_draft sha z m now (Op_cancel i a g k r) s = draft_only (cancel sha m now i a g k r s)"
| "control_draft sha z m now (Op_adopt i a k) s = draft_only (adopt sha m now i a k s)"
| "control_draft sha z m now (Op_release c) s = releaseClient c s"
| "control_draft sha z m now (Op_request d n i) s = draft_only (requestInput sha d n i s)"
| "control_draft sha z m now (Op_abort i) s = abort_request i s"
| "control_draft sha z m now (Op_claim ws i a g f) s = draft_only (claim_input ws i a g f s)"
| "control_draft sha z m now (Op_dismiss i a c) s = dismiss_input i a c s"
| "control_draft sha z m now (Op_answer ws t i a g c k x) s = draft_only (answer_input sha m now ws t i a g c k x s)"
| "control_draft sha z m now (Op_lose i) s = unknown_answer i s"
| "control_draft sha z m now (Op_withdraw n) s = draft_only (withdraw_native n s)"
| "control_draft sha z m now (Op_settle_turn t) s = settle_turn t s"
| "control_draft sha z m now (Op_complete r g q b) s = draft_only (admitCompletion sha r g q b s)"
| "control_draft sha z m now (Op_native saved e) s = draft_only (native_change now saved e s)"
| "control_draft sha z m now (Op_phase p) s = run_phase p s"
| "control_draft sha z m now Op_start s = start_run s"
| "control_draft sha z m now Op_telemetry s = omit_telemetry s"
| "control_draft sha z m now (Op_queue t n e v d k) s = draft_only (queuePeerDelivery sha z now t n e v d k s)"
| "control_draft sha z m now (Op_dispatch n h v) s = draft_only (dispatch_next sha z now n h v s)"
| "control_draft sha z m now (Op_withhold i v) s = withhold now i v s"
| "control_draft sha z m now (Op_acknowledge n v k t x q) s = draft_only (acceptPeerReceipt now n v k t x q s)"
| "control_draft sha z m now (Op_reserve p b) s = reservePeerDeliverySlots sha p b s"
| "control_draft sha z m now (Op_release_slots b) s = releasePeerDeliverySlots sha b s"
| "control_draft sha z m now (Op_settle b r) s = draft_only (settleRun sha now b r s)"
| "control_draft sha z m now Op_await_link s = await_link s"
| "control_draft sha z m now Op_never_started s = settle_never_started s"
| "control_draft sha z m now Op_recovered s = end_recovered s"
| "control_draft sha z m now Op_retain s = retain_queued s"
| "control_draft sha z m now (Op_stop r g) s = stop_private r g s"

fun op_admits :: "(string \<Rightarrow> string) \<Rightarrow> formats \<Rightarrow> nat \<Rightarrow> control_op \<Rightarrow> task_control \<Rightarrow> bool" where
  "op_admits sha z m (Op_cancel i a g k r) s = cancel_admits sha m g k r s"
| "op_admits sha z m (Op_adopt i a k) s = adopt_admits sha m a k s"
| "op_admits sha z m (Op_request d n i) s = request_admits sha z d n i s"
| "op_admits sha z m (Op_claim ws i a g f) s = claim_admits z a f s"
| "op_admits sha z m (Op_answer ws t i a g c k x) s = answer_admits sha z m i k s"
| "op_admits sha z m (Op_lose i) s = running_task s"
| "op_admits sha z m (Op_complete r g q b) s = running_task s"
| "op_admits sha z m (Op_native saved e) s = event_admits e s"
| "op_admits sha z m (Op_phase p) s = (running_task s \<and> p \<noteq> Terminal_phase)"
| "op_admits sha z m Op_start s = running_task s"
| "op_admits sha z m (Op_queue t n e v d k) s = queue_admits sha z t e d s"
| "op_admits sha z m (Op_acknowledge n v k t x q) s = receipt_admits x s"
| "op_admits sha z m (Op_reserve p b) s = reserve_admits z b s"
| "op_admits sha z m (Op_settle b r) s = running_task s"
| "op_admits sha z m Op_never_started s = no_open_inputs s"
| "op_admits sha z m Op_recovered s = no_open_inputs s"
| "op_admits sha z m Op_retain s = running_task s"
| "op_admits sha z m _ s = True"

text \<open>What the type of an argument says in the source: a run enters three phases.\<close>

definition op_typed :: "control_op \<Rightarrow> bool" where
  "op_typed opn = (case opn of Op_phase p \<Rightarrow> p = Starting_phase \<or> p = Active_phase \<or> p = Finalizing_phase | _ \<Rightarrow> True)"

inductive controlled :: "(string \<Rightarrow> string) \<Rightarrow> formats \<Rightarrow> nat \<Rightarrow> task_control \<Rightarrow> task_control \<Rightarrow> bool" for sha z m where
  same: "controlled sha z m s s"
| commit: "controlled sha z m s t \<Longrightarrow> op_typed opn \<Longrightarrow> change sha z now (control_draft sha z m now opn) t = Inr (u, ()) \<Longrightarrow> controlled sha z m s u"
| publish: "controlled sha z m s t \<Longrightarrow> publish_result sha z now binding e kept r t = (u, x) \<Longrightarrow> controlled sha z m s u"

lemma draft_only_Inr: "(draft_only r = Inr (d, u)) = (\<exists>v. r = Inr (d, v))"
  by (cases r) (auto simp: draft_only_def)

lemmas op_drafts = cancelling.draft adopting.draft release_client.draft requesting.draft abort_input.draft claiming.draft dismiss.draft
  answering.draft losing.draft native_withdrawal.draft turn_settlement.draft completing.draft native_events.draft run_phases.draft
  run_starts.draft telemetry.draft queueing.draft dispatching.draft withholding.draft acknowledging.draft reserving.draft releasing.draft
  settling.draft awaiting_link.draft never_started.draft recovered_queue.draft retaining_queue.draft private_stop.draft

lemmas op_lasts = cancelling.lasts adopting.lasts release_client.lasts requesting.lasts abort_input.lasts dismiss.lasts
  losing.lasts native_withdrawal.lasts turn_settlement.lasts completing.lasts native_events.lasts run_phases.lasts
  run_starts.lasts telemetry.lasts queueing.lasts dispatching.lasts withholding.lasts acknowledging.lasts reserving.lasts releasing.lasts
  settling.lasts awaiting_link.lasts never_started.lasts recovered_queue.lasts retaining_queue.lasts private_stop.lasts

interpretation operations: control_operation sha z now "op_admits sha z m opn" "control_draft sha z m now opn" for sha z now m opn
proof
  fix s d v
  assume "storable sha z s" "storable sha z (stamped now s)" "instant_format z now" "op_admits sha z m opn s" "control_draft sha z m now opn s = Inr (d, v)"
  then show "storable sha z (stamp now (Suc (tc_revision s)) d)"
    by (cases opn) (auto simp: draft_only_Inr intro: op_drafts)
qed

lemma answer_input_lasts:
  "answer_input sha m now ws task i actor g c k x s = Inr (d, r) \<Longrightarrow> storable sha z s \<Longrightarrow> lasting s d \<and> tc_revision d = tc_revision s"
proof -
  assume d: "answer_input sha m now ws task i actor g c k x s = Inr (d, r)" and ok: "storable sha z s"
  have "d = s \<or> (\<exists>y r. find_input s i = Some y \<and> pi_state y = Input_pending \<and> d = answered_task i k x r s)"
    using answer_cases [where b = "snd r" and r = "fst r"] d by fastforce
  then show ?thesis using answered_lasts [OF _ ok] by blast
qed

lemma draft_lasts:
  "storable sha z s \<Longrightarrow> control_draft sha z m now opn s = Inr (d, v) \<Longrightarrow> lasting s d \<and> tc_revision d = tc_revision s"
  by (cases opn) (auto simp: draft_only_Inr dest: op_lasts claim_lasts answer_input_lasts)

lemma change_stored: "change sha z now f s = Inr (t, v) \<Longrightarrow> t = s \<or> storable sha z t"
  by (auto simp: change_def andThen_Inr_iff commit_draft_stamp split: if_splits)

lemma controlled_history: "controlled sha z m s t \<Longrightarrow> storable sha z s \<Longrightarrow> storable sha z t \<and> lasting s t"
proof (induction rule: controlled.induct)
  case (commit s t opn now u)
  then have t: "storable sha z t" "lasting s t" by auto
  obtain d where d: "control_draft sha z m now opn t = Inr (d, ())" and u: "commit_draft sha z now t d = Inr u"
    using commit.hyps(3) by (auto simp: change_def andThen_Inr_iff)
  have "lasting t u" using draft_lasts [OF t(1) d] lasting_commit [OF _ _ u] by simp
  then show ?case using change_stored [OF commit.hyps(3)] t lasting_trans by blast
next
  case (publish s t now binding e kept r u x)
  then show ?case using publish_lasts [OF _ publish.hyps(2)] lasting_trans by blast
qed simp

end
