(* ===== verification/Task_Safety.thy ===== *)
theory Task_Safety
  imports Task_History
begin

text \<open>
  What follows for answers, dispatches, cancellation and completion along every sequence of
  commits and publications of results; and the fence of a publication.
\<close>

section \<open>Inputs and deliveries along a history\<close>

lemma unique_ids: "storable sha z s \<Longrightarrow> distinct (map pi_id (tc_inputs s))"
  using storable_inputsD(3) by (simp add: unique_by_def)

lemma unique_keys: "storable sha z s \<Longrightarrow> distinct (map (\<lambda>d. en_key (dl_envelope d)) (deliveries_of s))"
  using storable_deliveriesD(2) by (simp add: unique_by_def)

lemma input_found:
  assumes "lasting t u" "storable sha z t" "storable sha z u" "find_input t i = Some x" "find_input u i = Some y"
  shows "input_lasts x y"
  using assms find_inputD [OF assms(4)] find_inputD [OF assms(5)] unique_ids [OF assms(3)]
  by (intro grown_found [where r = input_lasts and key = pi_id]) (auto simp: lasting_def input_lasts_def)

lemma delivery_found:
  assumes "lasting t u" "storable sha z t" "storable sha z u" "x \<in> set (deliveries_of t)" "y \<in> set (deliveries_of u)"
    and "en_key (dl_envelope y) = en_key (dl_envelope x)"
  shows "delivery_lasts x y"
  using assms unique_keys [OF assms(3)]
  by (intro grown_found [where r = delivery_lasts and key = "\<lambda>d. en_key (dl_envelope d)"]) (auto simp: lasting_def delivery_lasts_def)

lemma find_update_input:
  assumes "find_input s i = Some x" "pi_id (f x) = i"
  shows "find_input (update_input i f s) i = Some (f x)"
proof -
  have "List.find (\<lambda>y. pi_id y = i) (update_first (\<lambda>y. pi_id y = i) f ys) = Some (f x)"
    if "List.find (\<lambda>y. pi_id y = i) ys = Some x" for ys using that assms(2) by (induction ys) (auto split: if_splits)
  then show ?thesis using assms(1) by (simp add: find_input_def update_input_def)
qed

lemma find_input_answered: "find_input (answered_task i k x r s) j = find_input (update_input i (answer_intent k x) s) j"
  by (simp add: answered_task_def Let_def find_input_def)

lemma find_input_stamp [simp]: "find_input (stamp now n s) i = find_input s i"
  by (simp add: find_input_def)

lemma change_cases:
  "change sha z now f s = Inr (t, v) \<Longrightarrow> \<exists>d. f s = Inr (d, v) \<and> (t = s \<or> t = stamp now (Suc (tc_revision s)) d \<and> storable sha z t)"
  by (auto simp: change_def andThen_Inr_iff commit_draft_stamp split: if_splits)

text \<open>An answer that was stored leaves its input out of the pending ones.\<close>

lemma answered_input:
  assumes "change sha z now (answer_input sha m now ws task i actor g c k x) s = Inr (t, r, True)" "t \<noteq> s"
  shows "\<exists>y. find_input t i = Some y \<and> pi_state y = Answer_intent \<and> pi_answer y = Some x \<and> storable sha z t"
proof -
  obtain d where d: "answer_input sha m now ws task i actor g c k x s = Inr (d, r, True)"
    and t: "t = stamp now (Suc (tc_revision s)) d" "storable sha z t"
    using change_cases [OF assms(1)] assms(2) by auto
  obtain y where y: "find_input s i = Some y" "d = answered_task i k x r s" using answer_cases [OF d] by blast
  have "find_input d i = Some (answer_intent k x y)"
    unfolding y(2) find_input_answered using find_inputD [OF y(1)] by (intro find_update_input [OF y(1)]) (simp add: answer_intent_def)
  then show ?thesis using t by (simp add: answer_intent_def)
qed

lemma found_later:
  assumes "lasting t u" "find_input t i = Some x" "storable sha z u"
  shows "\<exists>y. find_input u i = Some y"
proof -
  obtain n where n: "n < length (tc_inputs t)" "tc_inputs t ! n = x" using find_inputD [OF assms(2)] by (auto simp: in_set_conv_nth)
  then have "n < length (tc_inputs u)" "input_lasts x (tc_inputs u ! n)" using assms(1) by (auto simp: lasting_def grown_nth)
  then have "tc_inputs u ! n \<in> set (tc_inputs u)" "pi_id (tc_inputs u ! n) = i" using find_inputD [OF assms(2)] by (auto simp: input_lasts_def)
  then show ?thesis unfolding find_input_def by (metis (mono_tags, lifting) find_None_iff not_Some_eq)
qed

lemma answered_history:
  assumes s: "change sha z now (answer_input sha m now ws task i actor g c k x) s = Inr (t, r, True)" "t \<noteq> s" and h: "controlled sha z m' t u"
  shows "\<exists>y. find_input u i = Some y \<and> pi_state y \<noteq> Input_pending \<and> pi_answer y = Some x \<and> storable sha z u"
proof -
  obtain y where y: "find_input t i = Some y" "pi_state y = Answer_intent" "pi_answer y = Some x" "storable sha z t" using answered_input [OF s] by blast
  have u: "storable sha z u" "lasting t u" using controlled_history [OF h y(4)] by auto
  obtain w where w: "find_input u i = Some w" using found_later [OF u(2) y(1) u(1)] by blast
  then show ?thesis using input_found [OF u(2) y(4) u(1) y(1) w] y u by (auto simp: input_lasts_def)
qed

section \<open>Dispatch\<close>

lemma dispatched_input:
  assumes "dispatch_next sha z now n h v s = Inr (d, Dispatch_value e)"
  shows "\<exists>x. x \<in> set (deliveries_of s) \<and> dl_state x = Del_queued \<and> dl_envelope x = e \<and> next_queued s = Some x
    \<and> d = with_deliveries (update_first (\<lambda>x. dl_state x = Del_queued) (intended now)) s"
proof -
  have "\<exists>x. next_queued s = Some x \<and> dl_envelope x = e \<and> d = with_deliveries (update_first (\<lambda>x. dl_state x = Del_queued) (intended now)) s"
    using assms unfolding dispatch_next_def immutablePeerEnvelope_def
    by (auto simp: andThen_Inr_iff guard_fail_Inr split: option.split_asm if_splits)
  then show ?thesis using find_SomeD by (fastforce simp: next_queued_def)
qed

lemma dispatched_delivery:
  assumes "change sha z now (dispatch_next sha z now n h v) s = Inr (t, Dispatch_value e)" "t \<noteq> s"
  shows "\<exists>y. y \<in> set (deliveries_of t) \<and> dl_envelope y = e \<and> dl_state y = Del_intent \<and> storable sha z t"
proof -
  obtain d where d: "dispatch_next sha z now n h v s = Inr (d, Dispatch_value e)" and t: "t = stamp now (Suc (tc_revision s)) d" "storable sha z t"
    using change_cases [OF assms(1)] assms(2) by auto
  obtain x where x: "List.find (\<lambda>d. dl_state d = Del_queued) (deliveries_of s) = Some x" "dl_envelope x = e"
    and d': "d = with_deliveries (update_first (\<lambda>x. dl_state x = Del_queued) (intended now)) s"
    using dispatched_input [OF d] by (auto simp: next_queued_def)
  obtain ys zs where "update_first (\<lambda>x. dl_state x = Del_queued) (intended now) (deliveries_of s) = ys @ intended now x # zs"
    using found_first [OF x(1)] by blast
  then have "intended now x \<in> set (deliveries_of d)" unfolding d' with_deliveries_def by (auto split: option.split_asm)
  then show ?thesis using t x(2) by (intro exI [of _ "intended now x"]) (simp add: intended_def)
qed

lemma dispatched_history:
  assumes s: "change sha z now (dispatch_next sha z now n h v) s = Inr (t, Dispatch_value e)" "t \<noteq> s" and h: "controlled sha z m t u"
    and again: "dispatch_next sha z now' n' h' v' u = Inr (d, Dispatch_value e')"
  shows "en_key e' \<noteq> en_key e"
proof
  assume same: "en_key e' = en_key e"
  obtain y where y: "y \<in> set (deliveries_of t)" "dl_envelope y = e" "dl_state y = Del_intent" "storable sha z t"
    using dispatched_delivery [OF s] by blast
  have u: "storable sha z u" "lasting t u" using controlled_history [OF h y(4)] by auto
  obtain w where w: "w \<in> set (deliveries_of u)" "dl_state w = Del_queued" "dl_envelope w = e'" using dispatched_input [OF again] by blast
  show False using delivery_found [OF u(2) y(4) u(1) y(1) w(1)] y w same by (simp add: delivery_lasts_def)
qed

end
