(* ===== verification/Json_Canonical.thy ===== *)
theory Json_Canonical
  imports Json_Roundtrip "HOL-Library.Multiset"
begin

text \<open>
  What the canonical text of a value tells: it is plain when the value is, and two objects with
  one canonical text agree in every field.
\<close>

lemma distinct_sorted: "distinct (map fst (sort_key f xs)) = distinct (map fst xs)"
proof -
  have "mset (map fst (sort_key f xs)) = mset (map fst xs)" by (simp only: mset_map mset_sort)
  then show ?thesis by (rule mset_eq_imp_distinct_iff)
qed

lemma plain_canonical: "plain v \<Longrightarrow> plain (canonical v)"
proof (induction v rule: canonical.induct)
  case (2 kvs)
  then have "distinct (map fst (map (\<lambda>(k, v). (k, canonical v)) kvs))" by (simp add: comp_def case_prod_unfold)
  then show ?case using 2 by (auto simp: distinct_sorted)
qed auto

lemma map_of_sorted: "distinct (map fst kvs) \<Longrightarrow> map_of (sort_key f kvs) = map_of kvs"
  by (intro map_of_eqI) (auto simp: distinct_sorted map_of_inject_set)

lemma map_of_canonical: "map_of (map (\<lambda>p. (fst p, canonical (snd p))) kvs) k = map_option canonical (map_of kvs k)"
  by (induction kvs) auto

lemma canonical_field:
  assumes "distinct (map fst as)" "distinct (map fst bs)" "canonical (JObj as) = canonical (JObj bs)"
  shows "map_option canonical (map_of as k) = map_option canonical (map_of bs k)"
proof -
  have m: "map_of (sort_key (utf16 \<circ> fst) (map (\<lambda>p. (fst p, canonical (snd p))) xs)) k = map_option canonical (map_of xs k)"
    if "distinct (map fst xs)" for xs using that by (subst map_of_sorted) (simp_all add: comp_def map_of_canonical)
  show ?thesis using assms(3) m [OF assms(1)] m [OF assms(2)] by (simp add: case_prod_unfold)
qed

lemma canonical_text_field:
  assumes "plain (JObj as)" "plain (JObj bs)" "stringify (canonical (JObj as)) = stringify (canonical (JObj bs))"
  shows "map_option canonical (map_of as k) = map_option canonical (map_of bs k)"
proof -
  have "canonical (JObj as) = canonical (JObj bs)"
    using json_parse_stringify [OF plain_canonical [OF assms(1)]] json_parse_stringify [OF plain_canonical [OF assms(2)]] assms(3)
    by (metis option.inject)
  then show ?thesis using assms(1,2) by (intro canonical_field) simp_all
qed

end
