(* ===== verification/Task_Completion.thy ===== *)
theory Task_Completion
  imports Task_Safety Json_Canonical
begin

text \<open>
  Completion: what a task has accounted for when its control is published as completed. The
  completion fence (\<open>unresolvedPeerCompletion\<close> in src/src/core/task-control.ts) is compared with
  a statement over the fields of the deliveries and slots.
\<close>

section \<open>What a completed task owes to its peers\<close>

text \<open>Two envelopes belong to one obligation when they tell of one source in one case, to one run of
  the recipient in one workspace. The newest delivery of an obligation is the last one queued.\<close>

definition same_obligation :: "envelope \<Rightarrow> envelope \<Rightarrow> bool" where
  "same_obligation e f = (en_case e = en_case f \<and> en_case_revision e = en_case_revision f \<and> en_case_generation e = en_case_generation f
    \<and> en_source e = en_source f \<and> en_task e = en_task f \<and> en_run e = en_run f \<and> en_generation e = en_generation f
    \<and> en_workspace e = en_workspace f \<and> en_fingerprint e = en_fingerprint f)"

definition newest :: "delivery list \<Rightarrow> envelope \<Rightarrow> delivery option" where
  "newest ds e = List.find (\<lambda>d. same_obligation (dl_envelope d) e) (rev ds)"

definition for_this_run :: "task_control \<Rightarrow> completion_binding option \<Rightarrow> envelope \<Rightarrow> bool" where
  "for_this_run s binding e = (en_task e = tc_task_id s \<and> en_run e = nv_run (tc_native s) \<and> en_generation e = tc_generation s
    \<and> (case binding of None \<Rightarrow> True | Some b \<Rightarrow> en_workspace e = bd_workspace b \<and> en_fingerprint e = bd_fingerprint b))"

definition later_evidence :: "envelope \<Rightarrow> envelope \<Rightarrow> bool" where
  "later_evidence e f = (en_source_revision e < en_source_revision f
    \<or> en_source_revision e = en_source_revision f \<and> en_evidence_revision e < en_evidence_revision f)"

text \<open>Nothing is awaited from a delivery that was observed or withdrawn; one that was never handed out
  may give way to an observed one with later evidence. An observed delivery that is the newest of
  its obligation belongs to this run.\<close>

definition delivery_accounted :: "task_control \<Rightarrow> completion_binding option \<Rightarrow> delivery \<Rightarrow> bool" where
  "delivery_accounted s binding d = (let n = newest (deliveries_of s) (dl_envelope d) in
     (dl_state d \<in> {Del_observed, Del_stale, Del_revoked, Del_cancelled, Del_replaced}
       \<or> dl_state d = Del_queued \<and> (case n of None \<Rightarrow> False
           | Some y \<Rightarrow> dl_state y = Del_observed \<and> later_evidence (dl_envelope d) (dl_envelope y)))
     \<and> (n = Some d \<and> dl_state d = Del_observed \<longrightarrow> for_this_run s binding (dl_envelope d)))"

text \<open>The delivery that took a slot is the one the slot was reserved for, and the newest delivery of
  its obligation was observed in this run, at the slot's source revision or a later one.\<close>

definition slot_answered :: "task_control \<Rightarrow> completion_binding option \<Rightarrow> slot \<Rightarrow> bool" where
  "slot_answered s binding x = (sl_state x = Consumed_slot \<and> (\<exists>d \<in> set (deliveries_of s).
      sl_delivery x = Some (en_id (dl_envelope d)) \<and> same_direction (dl_envelope d) (sl_identity x)
      \<and> (case newest (deliveries_of s) (dl_envelope d) of None \<Rightarrow> False
         | Some y \<Rightarrow> dl_state y = Del_observed \<and> for_this_run s binding (dl_envelope y)
             \<and> sl_source_revision (sl_identity x) \<le> en_source_revision (dl_envelope y))))"

section \<open>The groups of the code\<close>

text \<open>The code compares obligations by the hash of their text. The text tells them apart, so the hash
  does when it has no collision among the deliveries of the task.\<close>

definition obligation_fields :: "envelope \<Rightarrow> (string \<times> jval) list" where
  "obligation_fields e = [(''case_id'', JStr (en_case e)), (''case_revision'', jnat (en_case_revision e)),
     (''case_generation'', jnat (en_case_generation e)), (''source_work_id'', JStr (en_source e)), (''recipient_task_id'', JStr (en_task e)),
     (''recipient_run_id'', JStr (en_run e)), (''recipient_control_generation'', jnat (en_generation e)),
     (''recipient_workspace'', JStr (en_workspace e)), (''recipient_workspace_fingerprint'', JStr (en_fingerprint e))]"

definition obligation_text :: "envelope \<Rightarrow> string" where
  "obligation_text e = stringify (canonical (JObj (obligation_fields e)))"

definition obligations_told :: "(string \<Rightarrow> string) \<Rightarrow> delivery list \<Rightarrow> bool" where
  "obligations_told sha ds = inj_on sha (set (map (obligation_text \<circ> dl_envelope) ds))"

lemma obligation_text_inj: "obligation_text e = obligation_text f \<longleftrightarrow> same_obligation e f"
proof
  assume "obligation_text e = obligation_text f"
  moreover have plain: "plain (JObj (obligation_fields e))" for e by (simp add: obligation_fields_def jnat_def)
  ultimately have eq: "map_option canonical (map_of (obligation_fields e) k) = map_option canonical (map_of (obligation_fields f) k)" for k
    unfolding obligation_text_def by (intro canonical_text_field [OF plain plain])
  show "same_obligation e f"
    using eq [of "''case_id''"] eq [of "''case_revision''"] eq [of "''case_generation''"] eq [of "''source_work_id''"]
      eq [of "''recipient_task_id''"] eq [of "''recipient_run_id''"] eq [of "''recipient_control_generation''"]
      eq [of "''recipient_workspace''"] eq [of "''recipient_workspace_fingerprint''"]
    by (simp add: obligation_fields_def same_obligation_def jnat_def)
qed (simp add: obligation_text_def obligation_fields_def same_obligation_def)

lemma same_group:
  assumes "obligations_told sha ds" "d \<in> set ds" "e \<in> set ds"
  shows "delivery_group sha d = delivery_group sha e \<longleftrightarrow> same_obligation (dl_envelope d) (dl_envelope e)"
proof -
  have "delivery_group sha x = sha (obligation_text (dl_envelope x))" for x
    by (simp only: delivery_group_def obligation_text_def obligation_fields_def canonical_hash_def Let_def)
  then show ?thesis
    using assms by (auto simp: obligations_told_def obligation_text_inj [symmetric] dest: inj_onD)
qed

lemma latest_find: "map_of (latest_deliveries sha ds) g = List.find (\<lambda>d. delivery_group sha d = g) (rev ds)"
  by (induction ds rule: rev_induct) (auto simp: latest_deliveries_def update_conv')

lemma latest_newest:
  assumes "obligations_told sha ds" "d \<in> set ds"
  shows "map_of (latest_deliveries sha ds) (delivery_group sha d) = newest ds (dl_envelope d)"
  unfolding latest_find newest_def using same_group [OF assms(1) _ assms(2)] by (intro find_cong) auto

lemma current_for_run: "current_delivery s binding None d = for_this_run s binding (dl_envelope d)"
  by (simp add: current_delivery_def for_this_run_def Let_def if_some_def cong: option.case_cong)

section \<open>The fence\<close>

lemma first_issue_None: "(first_issue f xs = None) = (\<forall>x \<in> set xs. f x = None)"
  by (induction xs) (auto split: option.split)

lemma unresolved_None:
  "(unresolvedPeerCompletion sha s binding c = None) =
    ((\<forall>d \<in> set (deliveries_of s). unsettled_state (dl_state d) \<longrightarrow>
        superseded d (map_of (latest_deliveries sha (deliveries_of s)) (delivery_group sha d)))
    \<and> (\<forall>(g, d) \<in> set (latest_deliveries sha (deliveries_of s)). dl_state d = Del_observed \<longrightarrow> current_delivery s binding c d)
    \<and> (\<forall>x \<in> set (slots_of s). slot_issue sha s binding c x = None))"
proof -
  have first: "(case x of None \<Rightarrow> r | Some i \<Rightarrow> Some i) = None \<longleftrightarrow> x = None \<and> r = None" for x r :: "peer_issue option"
    by (cases x) simp_all
  have test: "(if p then Some i else None) = None \<longleftrightarrow> \<not> p" for p and i :: peer_issue by simp
  show ?thesis
    unfolding unresolvedPeerCompletion_def Let_def first first_issue_None test
    unfolding case_prod_unfold test de_Morgan_conj not_not imp_conv_disj by blast
qed

lemma settled_states: "\<not> unsettled_state q \<longleftrightarrow> q \<in> {Del_observed, Del_stale, Del_revoked, Del_cancelled, Del_replaced}"
  by (cases q) (simp_all add: unsettled_state_def)

lemma superseded_later: "superseded d n = (dl_state d = Del_queued \<and> (case n of None \<Rightarrow> False
    | Some y \<Rightarrow> dl_state y = Del_observed \<and> later_evidence (dl_envelope d) (dl_envelope y)))"
  by (auto simp: superseded_def later_evidence_def split: option.split)

lemma peers_resolved:
  assumes "unresolvedPeerCompletion sha s binding None = None" "obligations_told sha (deliveries_of s)"
  shows "list_all (delivery_accounted s binding) (deliveries_of s)"
    "list_all (\<lambda>x. sl_state x = Released_slot \<or> slot_answered s binding x) (slots_of s)"
proof -
  let ?ds = "deliveries_of s"
  note raw = assms(1) [unfolded unresolved_None] and newest = latest_newest [OF assms(2)]
  show "list_all (delivery_accounted s binding) ?ds"
    unfolding list_all_iff delivery_accounted_def Let_def
  proof (intro ballI conjI impI)
    fix d
    assume d: "d \<in> set ?ds"
    have "unsettled_state (dl_state d) \<Longrightarrow> superseded d (newest ?ds (dl_envelope d))"
      unfolding newest [OF d, symmetric] using raw d by blast
    then show "dl_state d \<in> {Del_observed, Del_stale, Del_revoked, Del_cancelled, Del_replaced}
        \<or> dl_state d = Del_queued \<and> (case newest ?ds (dl_envelope d) of None \<Rightarrow> False
           | Some y \<Rightarrow> dl_state y = Del_observed \<and> later_evidence (dl_envelope d) (dl_envelope y))"
      using settled_states superseded_later by blast
    assume "newest ?ds (dl_envelope d) = Some d \<and> dl_state d = Del_observed"
    then have "(delivery_group sha d, d) \<in> set (latest_deliveries sha ?ds)" "dl_state d = Del_observed"
      using newest [OF d] by (auto dest: map_of_SomeD)
    then show "for_this_run s binding (dl_envelope d)" using raw current_for_run by blast
  qed
  have "slot_answered s binding x" if x: "slot_issue sha s binding None x = None" "sl_state x \<noteq> Released_slot" for x
  proof -
    obtain d where d: "List.find (\<lambda>d. Some (en_id (dl_envelope d)) = sl_delivery x) ?ds = Some d"
      and parts: "sl_state x = Consumed_slot" "same_direction (dl_envelope d) (sl_identity x)"
      and n: "case map_of (latest_deliveries sha ?ds) (delivery_group sha d) of None \<Rightarrow> False | Some n \<Rightarrow>
        dl_state n = Del_observed \<and> current_delivery s binding None n \<and> sl_source_revision (sl_identity x) \<le> en_source_revision (dl_envelope n)"
      using x by (cases "sl_state x") (auto simp: slot_issue_def Let_def not_less split: option.split_asm if_splits)
    have mem: "d \<in> set ?ds" "sl_delivery x = Some (en_id (dl_envelope d))" using find_SomeD [OF d] by auto
    show ?thesis
      unfolding slot_answered_def using parts mem n [unfolded newest [OF mem(1)] current_for_run] by blast
  qed
  then show "list_all (\<lambda>x. sl_state x = Released_slot \<or> slot_answered s binding x) (slots_of s)"
    using raw unfolding list_all_iff by blast
qed

lemma recheck_completed:
  assumes "st_outcome (recheckCompletion sha binding s r) = Completed"
  shows "recheckCompletion sha binding s r = r" "tc_settled s = Some Completed" "unresolvedPeerCompletion sha s binding None = None"
    "nv_coverage (tc_native s) = Turn_scoped" "nv_obligations (tc_native s) = []" "nv_limitation (tc_native s) \<noteq> Some LATE_EVENT"
  using assms by (auto simp: recheckCompletion_def Let_def split: if_splits)

lemma published_cases:
  assumes "publish_result sha z now binding e kept r s = (u, Inr r')"
  obtains t where "r' = recheckCompletion sha binding s r" "settled_again sha z now r' s = Inr t" "store_next sha z now (ended_control e r' t) = Inr u"
  using assms by (auto simp: publish_result_def Let_def split: sum.split_asm option.split_asm bool.split_asm)

lemma settled_again_draft: "settled_again sha z now r s = Inr t \<Longrightarrow> tc_settled s = Some (st_outcome r)
    \<Longrightarrow> \<exists>n q at. t = s\<lparr>tc_phase := q, tc_revision := n, tc_updated_at := at\<rparr> \<and> tc_settled t = tc_settled s"
  unfolding settled_again_def store_next_def Let_def
  by (cases s) (auto split: if_splits)

text \<open>A completed task: what it accounted for when it ended.\<close>

definition completion_accounted :: "completion_binding option \<Rightarrow> task_control \<Rightarrow> bool" where
  "completion_accounted binding s = (tc_cancel s = None \<and> no_open_inputs s \<and> nv_coverage (tc_native s) = Turn_scoped
     \<and> nv_obligations (tc_native s) = [] \<and> list_all (delivery_accounted s binding) (deliveries_of s)
     \<and> list_all (\<lambda>x. sl_state x = Released_slot \<or> slot_answered s binding x) (slots_of s))"

lemma accounted_same:
  assumes "tc_task_id t = tc_task_id s" "nv_run (tc_native t) = nv_run (tc_native s)" "tc_generation t = tc_generation s"
    "tc_deliveries t = tc_deliveries s"
  shows "delivery_accounted t binding = delivery_accounted s binding" "slot_answered t binding = slot_answered s binding"
proof -
  have run: "for_this_run t binding = for_this_run s binding" using assms by (simp add: fun_eq_iff for_this_run_def)
  then show "delivery_accounted t binding = delivery_accounted s binding" "slot_answered t binding = slot_answered s binding"
    unfolding fun_eq_iff delivery_accounted_def slot_answered_def run assms(4) by simp_all
qed

lemma ended_inputs_parts [simp]:
  "tc_task_id (ended_inputs e r s) = tc_task_id s" "nv_run (tc_native (ended_inputs e r s)) = nv_run (tc_native s)"
  "tc_generation (ended_inputs e r s) = tc_generation s" "tc_deliveries (ended_inputs e r s) = tc_deliveries s"
  "tc_slots (ended_inputs e r s) = tc_slots s" "nv_coverage (tc_native (ended_inputs e r s)) = nv_coverage (tc_native s)"
  "nv_obligations (tc_native (ended_inputs e r s)) = nv_obligations (tc_native s)"
  by (auto simp: ended_inputs_def Let_def ended_native_def)

lemma published_completion:
  assumes p: "publish_result sha z now binding e kept r s = (u, Inr r')" and u: "tc_phase u = Terminal_phase" "tc_outcome u = Some Completed"
    and told: "obligations_told sha (deliveries_of u)"
  shows "completion_accounted binding u \<and> nd_stop e \<noteq> Stop_unconfirmed"
proof -
  obtain t where r': "r' = recheckCompletion sha binding s r" and t: "settled_again sha z now r' s = Inr t"
    and last: "store_next sha z now (ended_control e r' t) = Inr u" using p by (rule published_cases)
  note stored = store_next_stored [OF last]
  have "post_write_conflict e = None" using stored u by (auto simp: ended_control_def split: option.split_asm)
  then have inputs: "u = stamp now (Suc (tc_revision (ended_inputs e r' t))) (ended_inputs e r' t)"
    using stored by (simp add: ended_control_def)
  have "tc_phase (ended_inputs e r' t) = Terminal_phase" "tc_outcome (ended_inputs e r' t) = Some Completed" using inputs u by auto
  then have ended: "nd_stop e \<noteq> Stop_unconfirmed" "st_outcome r' = Completed" by (auto simp: ended_inputs_def Let_def split: if_splits)
  note c = recheck_completed [OF ended(2) [unfolded r']]
  obtain n q at where t': "t = s\<lparr>tc_phase := q, tc_revision := n, tc_updated_at := at\<rparr>"
    using settled_again_draft [OF t] c(2) ended(2) by auto
  have same: "tc_task_id u = tc_task_id s" "nv_run (tc_native u) = nv_run (tc_native s)" "tc_generation u = tc_generation s"
    "tc_deliveries u = tc_deliveries s" "tc_slots u = tc_slots s" "nv_coverage (tc_native u) = nv_coverage (tc_native s)"
    "nv_obligations (tc_native u) = nv_obligations (tc_native s)"
    by (simp_all add: inputs t')
  have ok: "storable sha z u" using stored by blast
  have "no_open_inputs u" using storable_inputsD(4) [OF ok u(1)] by (simp add: no_open_inputs_def)
  moreover have "tc_cancel u = None" using storable_receiptsD(6) [OF ok u(2)] .
  ultimately show ?thesis
    using ended(1) c(4,5) peers_resolved [OF c(3)] told accounted_same [OF same(1-4)]
    unfolding completion_accounted_def by (simp add: same)
qed

end
