(* ===== verification/Task_Fences.thy ===== *)
theory Task_Fences
  imports Task_Safety
begin

text \<open>
  The fences of a task's control: cancellation and the room that is kept for it, the capacity of
  slots, and the publication that holds several tasks.
\<close>

section \<open>Cancellation\<close>

text \<open>What a task refuses once it is cancelled.\<close>

lemma cancelled_refuses:
  assumes "tc_cancel u = Some c"
  shows "requestInput sha d n f u = fail ''STALE_INPUT''" "claim_input ws i actor g f u \<noteq> Inr (w, x)"
    "answer_input sha m now ws task i actor g k key answer u \<noteq> Inr (w, r, True)" "start_run u = fail ''TASK_CANCELLED''"
    "reservePeerDeliverySlots sha place b u = fail ''PEER_DELIVERY_STALE''"
    "queuePeerDelivery sha z now task (tc_revision u) e v q operation u = fail ''PEER_DELIVERY_CANCELLED''"
proof -
  show "requestInput sha d n f u = fail ''STALE_INPUT''" using assms by (simp add: requestInput_def guard_fail_def)
  show "start_run u = fail ''TASK_CANCELLED''" using assms by (simp add: start_run_def guard_fail_def)
  have "closing_task u" using assms by (simp add: closing_task_def)
  then show "claim_input ws i actor g f u \<noteq> Inr (w, x)" "answer_input sha m now ws task i actor g k key answer u \<noteq> Inr (w, r, True)"
    by (auto simp: claim_input_def andThen_Inr_iff guard_fail_Inr dest!: answer_cases split: option.split_asm)
  have "\<not> recipient_ready sha place b u" using assms by (auto simp: recipient_ready_def split: option.split)
  then show "reservePeerDeliverySlots sha place b u = fail ''PEER_DELIVERY_STALE''"
    by (simp add: reservePeerDeliverySlots_def guard_fail_def)
  show "queuePeerDelivery sha z now task (tc_revision u) e v q operation u = fail ''PEER_DELIVERY_CANCELLED''"
    using assms by (simp add: queuePeerDelivery_def guard_fail_def)
qed

section \<open>The room kept for a cancellation\<close>

definition room :: "nat \<Rightarrow> task_control \<Rightarrow> bool" where
  "room m s = (length (tc_receipts s) < m \<or> tc_cancel s \<noteq> None \<or> tc_settled s \<noteq> None \<or> tc_outcome s \<noteq> None)"

definition quiet :: "task_control \<Rightarrow> task_control \<Rightarrow> bool" where
  "quiet s d = (tc_receipts d = tc_receipts s \<and> (tc_cancel s \<noteq> None \<longrightarrow> tc_cancel d \<noteq> None) \<and> (tc_settled s \<noteq> None \<longrightarrow> tc_settled d \<noteq> None)
     \<and> (tc_outcome s \<noteq> None \<longrightarrow> tc_outcome d \<noteq> None))"

lemma quiet_room: "quiet s d \<Longrightarrow> room m s \<Longrightarrow> room m d"
  by (auto simp: quiet_def room_def)

lemma room_stamp [simp]: "room m (stamp now n s) = room m s"
  by (simp add: room_def stamp_def)

lemma native_step_quiet: "native_step e s = Inr d \<Longrightarrow> quiet s d"
  by (cases e) (auto simp: native_step_def turn_started_def correlateNativeTurn_def andThen_Inr_iff guard_fail_Inr Let_def quiet_def with_native_def)

lemma native_change_quiet: "native_change now saved e s = Inr (d, v) \<Longrightarrow> quiet s d"
  using native_step_quiet [of e "with_native (\<lambda>n. n\<lparr>nv_observed_at := Some now\<rparr>) s" d]
  by (auto simp: native_change_def andThen_Inr_iff guard_fail_Inr quiet_def with_native_def split: if_splits)

lemma answered_room:
  assumes "answer_input sha m now ws task i actor g c k x s = Inr (d, v)" "room m s"
  shows "room m d"
proof -
  have "d = s \<or> (\<exists>y r. receipt_of m s k Input_receipt (answer_hash sha task i g x) = Inr None \<and> d = answered_task i k x r s)"
    using assms(1) unfolding answer_input_def by (auto simp: andThen_Inr_iff guard_fail_Inr Let_def split: option.split_asm)
  moreover have "length (tc_receipts s) < m - 1" if "receipt_of m s k Input_receipt h = Inr None" for h
    using that by (auto simp: receipt_of_def Let_def andThen_Inr_iff guard_fail_Inr split: if_splits)
  moreover have "room m (answered_task i k x r s)" if "length (tc_receipts s) < m - 1" for r
    using that by (auto simp: room_def answered_task_phase Let_def update_input_def)
  ultimately show ?thesis using assms(2) by auto
qed

lemma adopted_room:
  assumes "adopt sha m now i actor k s = Inr (d, v)" "room m s"
  shows "room m d"
proof (cases "receipt_of m s k Attach_receipt (adopt_hash sha i (ca_owner actor)) = Inr None")
  case True
  then have "length (tc_receipts s) < m - 1" by (auto simp: receipt_of_def Let_def andThen_Inr_iff guard_fail_Inr split: if_splits)
  then show ?thesis using assms True by (auto simp: adopt_def Let_def room_def less_diff_conv)
next
  case False
  then have "d = s" using assms(1) unfolding adopt_def
    by (cases "receipt_of m s k Attach_receipt (adopt_hash sha i (ca_owner actor))") (auto split: option.split_asm)
  then show ?thesis using assms(2) by simp
qed

lemma cancelled_room:
  assumes "cancel sha m now i actor g k reason s = Inr (d, v)" "room m s" "storable sha z s"
  shows "room m d"
proof -
  have "settled_task s \<Longrightarrow> tc_settled s \<noteq> None \<or> tc_outcome s \<noteq> None"
    using storable_receiptsD(5) [OF assms(3)] by (auto simp: settled_task_def)
  then have "room m (fst (record_cancellation sha now i g k reason s))"
    by (cases "settled_task s") (auto simp: record_cancellation_def Let_def room_def)
  then show ?thesis using cancel_drafts [OF assms(1)] assms(2) by auto
qed

lemma claim_quiet: "claim_input ws i actor g f s = Inr (d, v) \<Longrightarrow> quiet s d"
  by (auto simp: claim_input_def andThen_Inr_iff guard_fail_Inr Let_def quiet_def update_input_def split: option.split_asm)

lemma queue_quiet: "queuePeerDelivery sha z now t n e v q k s = Inr (d, w) \<Longrightarrow> quiet s d"
  by (auto simp: queuePeerDelivery_def andThen_Inr_iff guard_fail_Inr queued_state_def quiet_def split: if_splits option.split_asm)

lemma dispatch_quiet: "dispatch_next sha z now n h v s = Inr (d, w) \<Longrightarrow> quiet s d"
  by (auto simp: dispatch_next_def andThen_Inr_iff guard_fail_Inr quiet_def with_deliveries_def split: if_splits option.split_asm)

lemma acknowledge_quiet: "acceptPeerReceipt now n v k t x q s = Inr (d, w) \<Longrightarrow> quiet s d"
  by (auto simp: acceptPeerReceipt_def Let_def quiet_def with_deliveries_def split: if_splits option.split_asm)

lemma release_quiet: "releasePeerDeliverySlots sha b s = Inr (d, w) \<Longrightarrow> quiet s d"
  by (auto simp: releasePeerDeliverySlots_def Let_def andThen_Inr_iff guard_fail_Inr quiet_def split: if_splits option.split_asm)

lemma complete_quiet: "admitCompletion sha r g q b s = Inr (d, w) \<Longrightarrow> quiet s d"
  by (auto simp: admitCompletion_def Let_def quiet_def split: option.split_asm)

lemma ends_quiet:
  "await_link s = Inr (d, v) \<Longrightarrow> quiet s d" "settle_never_started s = Inr (d, v) \<Longrightarrow> quiet s d" "end_recovered s = Inr (d, v) \<Longrightarrow> quiet s d"
  "retain_queued s = Inr (d, v) \<Longrightarrow> quiet s d" "stop_private r g s = Inr (d, v) \<Longrightarrow> quiet s d" "run_phase p s = Inr (d, v) \<Longrightarrow> quiet s d"
  "start_run s = Inr (d, v) \<Longrightarrow> quiet s d" "omit_telemetry s = Inr (d, v) \<Longrightarrow> quiet s d"
  by (auto simp: await_link_def settle_never_started_def end_recovered_def retain_queued_def stop_private_def run_phase_def start_run_def
      omit_telemetry_def andThen_Inr_iff guard_fail_Inr quiet_def with_native_def)

lemma inputs_quiet:
  "releaseClient c s = Inr (d, v) \<Longrightarrow> quiet s d" "requestInput sha q n i s = Inr (d, w) \<Longrightarrow> quiet s d" "abort_request i s = Inr (d, v) \<Longrightarrow> quiet s d"
  "dismiss_input i actor c s = Inr (d, v) \<Longrightarrow> quiet s d" "unknown_answer i s = Inr (d, v) \<Longrightarrow> quiet s d"
  "withdraw_native n s = Inr (d, ids) \<Longrightarrow> quiet s d" "settle_turn t s = Inr (d, v) \<Longrightarrow> quiet s d"
  by (auto simp: releaseClient_def requestInput_def abort_request_def dismiss_input_def unknown_answer_def withdraw_native_def settle_turn_def
      andThen_Inr_iff guard_fail_Inr quiet_def update_input_def Let_def)

lemma deliveries_quiet:
  "withhold now i v s = Inr (d, u) \<Longrightarrow> quiet s d" "reservePeerDeliverySlots sha p b s = Inr (d, u) \<Longrightarrow> quiet s d"
  "settleRun sha now c r s = Inr (d, w) \<Longrightarrow> quiet s d"
  by (auto simp: withhold_def reservePeerDeliverySlots_def settleRun_def andThen_Inr_iff guard_fail_Inr quiet_def with_deliveries_def Let_def)

lemmas op_quiet = claim_quiet queue_quiet dispatch_quiet acknowledge_quiet release_quiet complete_quiet ends_quiet inputs_quiet deliveries_quiet
  native_change_quiet

lemma draft_room: "control_draft sha z m now opn s = Inr (d, v) \<Longrightarrow> storable sha z s \<Longrightarrow> room m s \<Longrightarrow> room m d"
  by (cases opn) (auto simp: draft_only_Inr intro: op_quiet [THEN quiet_room] answered_room adopted_room cancelled_room)

lemma published_room: "publish_result sha z now binding e kept r s = (t, x) \<Longrightarrow> room m s \<Longrightarrow> room m t"
  by (auto simp: publish_result_def Let_def settled_again_def store_next_def room_def ended_control_def ended_inputs_def with_native_def
      split: sum.split_asm option.split_asm bool.split_asm if_splits)

lemma controlled_room: "controlled sha z m s t \<Longrightarrow> storable sha z s \<Longrightarrow> room m s \<Longrightarrow> room m t"
proof (induction rule: controlled.induct)
  case (commit s t opn now u)
  have "storable sha z t" using controlled_history [OF commit.hyps(1) commit.prems(1)] by simp
  moreover have "room m t" using commit by blast
  ultimately show ?case using change_cases [OF commit.hyps(3)] draft_room by fastforce
qed (auto dest: published_room)

lemma cancel_accepted:
  assumes "room m u" "storable sha z u" "tc_cancel u = None" "\<not> settled_task u" "find_receipt u k = None" "tc_owner u = ca_owner actor"
  shows "\<exists>r. cancel sha m now i actor (tc_generation u) k reason u = Inr (fst (record_cancellation sha now i (tc_generation u) k reason u), r)
    \<and> cr_outcome r = Accepted_outcome"
proof -
  have "length (tc_receipts u) < m"
    using assms(1,3,4) storable_receiptsD(5) [OF assms(2)] by (auto simp: room_def settled_task_def)
  then show ?thesis
    using assms(3-6) by (auto simp: cancel_def owns_def guard_fail_def receipt_of_def record_cancellation_def Let_def)
qed

section \<open>The capacity of slots\<close>

lemma reserve_sources_length:
  "reserve_sources sha b n srcs xs = Inr ys \<Longrightarrow> length xs \<le> length ys"
proof (induction srcs arbitrary: xs)
  case (Cons src srcs)
  then show ?case by (fastforce simp: andThen_Inr_iff split: option.split_asm)
qed simp

lemma reserve_sources_adds:
  "reserve_sources sha b n srcs xs = Inr ys \<Longrightarrow> src \<in> set srcs \<Longrightarrow> List.find (slot_for (sb_key b) (fst src)) xs = None \<Longrightarrow> length xs < length ys"
proof (induction srcs arbitrary: xs)
  case (Cons a srcs)
  show ?case
  proof (cases "List.find (slot_for (sb_key b) (fst a)) xs")
    case None
    then have "reserve_sources sha b n srcs (xs @ [reserved_slot b a]) = Inr ys" using Cons.prems(1) by (simp add: andThen_Inr_iff)
    then show ?thesis using reserve_sources_length by fastforce
  next
    case (Some x)
    then have "src \<in> set srcs" using Cons.prems(2,3) by auto
    then show ?thesis using Some Cons by (auto simp: andThen_Inr_iff)
  qed
qed simp

lemma full_slots_refuse:
  assumes "reservePeerDeliverySlots sha place b s = Inr (d, v)" "length (slots_of s) = MAX_PEER_DELIVERIES"
    and "src \<in> set (sb_sources b)" "List.find (slot_for (sb_key b) (fst src)) (slots_of s) = None"
    and "canonical_hash sha (task_control_json s) \<noteq> canonical_hash sha (task_control_json d)"
  shows "change sha z now (reservePeerDeliverySlots sha place b) s = fail STORE_CORRUPT"
proof -
  obtain xs where xs: "reserve_sources sha b (length (deliveries_of s)) (sb_sources b) (slots_of s) = Inr xs" "d = s\<lparr>tc_slots := Some xs\<rparr>"
    using assms(1) by (auto simp: reservePeerDeliverySlots_def andThen_Inr_iff Let_def)
  have "MAX_PEER_DELIVERIES < length xs" using reserve_sources_adds [OF xs(1) assms(3,4)] assms(2) by simp
  then have "\<not> storable sha z (stamp now n d)" for n unfolding xs(2) part_defs by simp
  then show ?thesis using assms(1,5) by (simp add: change_def commit_draft_stamp)
qed

section \<open>The publication fence\<close>

lemma map_of_reserved: "map_of (fold (\<lambda>i. AList.update i token) ids ps) i = (if i \<in> set ids then Some token else map_of ps i)"
  by (induction ids arbitrary: ps) (auto simp: update_conv')

lemma map_of_released: "map_of (fold (\<lambda>i ps. if map_of ps i = Some token then AList.delete i ps else ps) ids ps) i =
    (if i \<in> set ids \<and> map_of ps i = Some token then None else map_of ps i)"
  by (induction ids arbitrary: ps) (auto simp: delete_conv')

lemma reserved_publication:
  assumes "reserve_publication ps token ids = Some qs"
  shows "map_of qs i = (if i \<in> set ids then Some token else map_of ps i)" "i \<in> set ids \<Longrightarrow> map_of ps i = None"
  using assms by (auto simp: reserve_publication_def Let_def map_of_reserved js_sort_def list_ex_iff split: if_splits)

lemma reserve_publication_None: "(reserve_publication ps token ids = None) = (\<exists>i \<in> set ids. map_of ps i \<noteq> None)"
  by (auto simp: reserve_publication_def Let_def js_sort_def list_ex_iff)

lemma released_publication:
  "map_of (release_publication ps token ids) i = (if i \<in> set ids \<and> map_of ps i = Some token then None else map_of ps i)"
  by (simp add: release_publication_def map_of_released js_sort_def)

text \<open>What other publications do while one is made: they are reserved, and they are released, in time,
  late, repeatedly or in part.\<close>

inductive meanwhile :: "string \<Rightarrow> publications \<Rightarrow> publications \<Rightarrow> bool" for token where
  reserves: "other \<noteq> token \<Longrightarrow> reserve_publication ps other js = Some qs \<Longrightarrow> meanwhile token ps qs"
| releases: "other \<noteq> token \<Longrightarrow> meanwhile token ps (release_publication ps other js)"

lemma meanwhile_held: "meanwhile token ps qs \<Longrightarrow> map_of ps i = Some token \<Longrightarrow> map_of qs i = Some token"
proof (induction rule: meanwhile.induct)
  case (reserves other ps js qs)
  then show ?case using reserved_publication [OF reserves.hyps(2), of i] by auto
qed (simp add: released_publication)

lemma held_meanwhile: "(meanwhile token)\<^sup>*\<^sup>* ps qs \<Longrightarrow> map_of ps i = Some token \<Longrightarrow> map_of qs i = Some token"
  by (induction rule: rtranclp_induct) (auto intro: meanwhile_held)

lemma publication_held:
  assumes "reserve_publication ps token ids = Some qs" and "(meanwhile token)\<^sup>*\<^sup>* qs rs" and "i \<in> set ids"
  shows "map_of rs i = Some token"
  using held_meanwhile [OF assms(2)] reserved_publication(1) [OF assms(1)] assms(3) by simp

end
