(* ===== verification/Task_Examples.thy ===== *)
theory Task_Examples
  imports Task_Completion Task_Fences
begin

text \<open>
  Concrete controls for the witnesses: a task that asked a question, one with a queued
  delivery, one with a full list of slots, and a digest that tells their drafts apart by a
  mark in the text.
\<close>

section \<open>A digest that reads one field\<close>

definition field_sha :: "string \<Rightarrow> jval \<Rightarrow> string \<Rightarrow> string" where
  "field_sha k x t = replicate 64 (case json_parse t of
     Some (JObj kvs) \<Rightarrow> if map_of kvs k = Some x then CHR ''a'' else CHR ''b'' | _ \<Rightarrow> CHR ''b'')"

lemma field_sha_hash:
  assumes "plain (JObj kvs)"
  shows "canonical_hash (field_sha k x) (JObj kvs) =
    replicate 64 (if map_option canonical (map_of kvs k) = Some x then CHR ''a'' else CHR ''b'')"
proof -
  have c: "canonical (JObj kvs) = JObj (sort_key (utf16 \<circ> fst) (map (\<lambda>(k, v). (k, canonical v)) kvs))" by simp
  have "json_parse (stringify (canonical (JObj kvs))) = Some (canonical (JObj kvs))"
    by (rule json_parse_stringify [OF plain_canonical [OF assms]])
  moreover have "map_of (sort_key (utf16 \<circ> fst) (map (\<lambda>(k, v). (k, canonical v)) kvs)) k = map_option canonical (map_of kvs k)"
    using assms by (subst map_of_sorted) (simp_all add: comp_def case_prod_unfold map_of_canonical)
  ultimately show ?thesis by (simp add: canonical_hash_def field_sha_def c del: canonical.simps)
qed

lemma field_digests [simp]: "digests (field_sha k x)"
proof -
  have "hash_format (replicate 64 (CHR ''a''))" "hash_format (replicate 64 (CHR ''b''))" by code_simp+
  then show ?thesis by (auto simp: digests_def field_sha_def split: option.split jval.split)
qed

section \<open>Every task control is plain\<close>

definition plain_subject :: "pending_input \<Rightarrow> bool" where
  "plain_subject i = (case pi_data i of Permission a \<Rightarrow> plain (ap_subject a) | _ \<Rightarrow> True)"

lemma plain_task_tables [simp]:
  "plain (literal phases a)" "plain (literal native_states b)" "plain (literal coverages c)" "plain (literal input_states d)"
  "plain (literal receipt_kinds e)" "plain (literal receipt_outcomes f)" "plain (literal delivery_states g)" "plain (literal slot_states h)"
  subgoal by (cases a) (simp_all add: literal_def phases_def)
  subgoal by (cases b) (simp_all add: literal_def native_states_def)
  subgoal by (cases c) (simp_all add: literal_def coverages_def)
  subgoal by (cases d) (simp_all add: literal_def input_states_def)
  subgoal by (cases e) (simp_all add: literal_def receipt_kinds_def)
  subgoal by (cases f) (simp_all add: literal_def receipt_outcomes_def)
  subgoal by (cases g) (simp_all add: literal_def delivery_states_def)
  subgoal by (cases h) (simp_all add: literal_def slot_states_def)
  done

lemma plain_task_parts [simp]:
  "plain (process_json p)" "plain (obligation_json ob)" "plain (approval_choice_json ch)" "plain (claim_json c)" "plain (cancellation_json cn)"
  "plain (control_receipt_json r)" "plain (envelope_json e)" "plain (delivery_json d)" "plain (slot_json x)" "plain (native_json n)"
  by (simp_all add: process_json_def obligation_json_def approval_choice_json_def claim_json_def cancellation_json_def
      control_receipt_json_def envelope_json_def delivery_json_def slot_json_def slot_fields_def native_json_def ball_Un plain_jlist)

lemma plain_input: "plain_subject i \<Longrightarrow> plain (input_json i)"
  by (auto simp: plain_subject_def input_json_def input_data_json_def approval_json_def ball_Un plain_jlist split: input_data.split)

lemma plain_task: "list_all plain_subject (tc_inputs s) \<Longrightarrow> plain (task_control_json s)"
  by (simp add: task_control_json_def ball_Un plain_jlist plain_input list_all_iff)

section \<open>Controls\<close>

definition any_format :: formats where
  "any_format = \<lparr>uuid_format = (\<lambda>_. True), instant_format = (\<lambda>_. True)\<rparr>"

definition demo_owner :: string where "demo_owner = replicate 64 (CHR ''c'')"
definition demo_client :: client_actor where "demo_client = \<lparr>ca_owner = demo_owner, ca_client = ''client''\<rparr>"

definition demo_initial :: task_control where "demo_initial = initialControl ''t0'' ''run'' ''task'' demo_owner"

definition demo_question :: input_data where "demo_question = Clarification ''Which'' None False"

definition demo_claimed :: pending_input where
  "demo_claimed = \<lparr>pi_id = ''i1'', pi_native_id = ''n1'', pi_run = ''run'', pi_turn = ''turn'', pi_data = demo_question,
     pi_digest = replicate 64 (CHR ''b''), pi_revision = 2, pi_state = Input_pending,
     pi_claim = Some \<lparr>ic_id = ''c1'', ic_client = ''client'', ic_generation = 1\<rparr>, pi_answer = None, pi_key = None\<rparr>"

definition demo_asked :: task_control where
  "demo_asked = demo_initial\<lparr>tc_revision := 3, tc_phase := Awaiting_phase,
     tc_native := (tc_native demo_initial)\<lparr>nv_turn := Some ''turn'', nv_state := Live_native\<rparr>, tc_inputs := [demo_claimed]\<rparr>"

lemma any_formats [simp]: "uuid_format any_format x" "instant_format any_format x"
  by (simp_all add: any_format_def)

lemma initial_storable: "storable sha any_format demo_initial"
proof -
  have "task_control_ok any_format demo_initial" by code_simp
  then show ?thesis by (simp add: storable_def demo_initial_def initialControl_def)
qed

lemma change_stores:
  assumes "f s = Inr (d, v)" "canonical_hash sha (task_control_json s) \<noteq> canonical_hash sha (task_control_json d)"
    and "storable sha z (stamp now (Suc (tc_revision s)) d)"
  shows "change sha z now f s = Inr (stamp now (Suc (tc_revision s)) d, v)"
  using assms by (simp add: change_def commit_draft_stamp)

section \<open>An answer and a cancellation\<close>

definition phase_sha :: "string \<Rightarrow> string" where "phase_sha = field_sha ''phase'' (JStr ''awaiting_input'')"

lemma phase_hash: "list_all plain_subject (tc_inputs s) \<Longrightarrow>
    canonical_hash phase_sha (task_control_json s) = replicate 64 (if tc_phase s = Awaiting_phase then CHR ''a'' else CHR ''b'')"
proof -
  assume "list_all plain_subject (tc_inputs s)"
  from plain_task [OF this] obtain kvs where kvs: "task_control_json s = JObj kvs" "plain (JObj kvs)" by (simp add: task_control_json_def)
  have "map_of kvs ''phase'' = Some (literal phases (tc_phase s))" using kvs(1) by (auto simp: task_control_json_def)
  moreover have "(canonical (literal phases q) = JStr ''awaiting_input'') = (q = Awaiting_phase)" for q
    by (cases q) (simp_all add: literal_def phases_def)
  ultimately show ?thesis unfolding phase_sha_def kvs(1) field_sha_hash [OF kvs(2)] by simp
qed

lemma storable_revision: "storable sha z s \<Longrightarrow> tc_revision s \<le> n \<Longrightarrow> int n \<le> MAX_SAFE_INTEGER \<Longrightarrow> storable sha z (s\<lparr>tc_revision := n\<rparr>)"
  unfolding part_defs by (auto simp: counted_def list_all_iff)

lemma claimed_ok: "input_ok any_format demo_claimed"
  by code_simp

lemma live_native: "native_ok any_format (n\<lparr>nv_turn := Some ''turn'', nv_state := Live_native\<rparr>)" if "native_ok any_format n" for n
proof -
  have "units_in 1 256 ''turn''" by code_simp
  then show ?thesis using that by (simp add: native_ok_def)
qed

lemma initial_native: "native_ok any_format (tc_native demo_initial)"
  using storable_receiptsD(4) [OF initial_storable] .

lemma asked_storable: "storable sha any_format demo_asked"
  unfolding demo_asked_def
  using claimed_ok live_native [OF initial_native]
  by (intro storable_inputs storable_native storable_phase storable_revision initial_storable)
    (auto simp: demo_initial_def initialControl_def MAX_SAFE_INTEGER_def input_fits_def demo_claimed_def unique_by_def)

lemma question_hash: "canonical_hash phase_sha (input_data_json demo_question) = replicate 64 (CHR ''b'')"
  unfolding phase_sha_def demo_question_def input_data_json_def by (simp add: field_sha_hash opt_field_def)

definition demo_answer_receipt :: control_receipt where
  "demo_answer_receipt = \<lparr>cr_key = ''k1'', cr_hash = answer_hash phase_sha ''task'' ''i1'' 1 ''yes'', cr_kind = Input_receipt,
     cr_outcome = Intent_outcome, cr_at = ''t1'', cr_input = Some ''i1'', cr_generation = 1\<rparr>"

abbreviation demo_answering :: "task_control \<Rightarrow> (task_control \<times> control_receipt \<times> bool) res" where
  "demo_answering \<equiv> answer_input phase_sha 8 ''t1'' [(''i1'', ''task'')] ''task'' ''i1'' demo_client 1 ''c1'' ''k1'' ''yes''"

definition demo_answered :: task_control where
  "demo_answered = answered_task ''i1'' ''k1'' ''yes'' demo_answer_receipt demo_asked"

lemma demo_answers: "demo_answering demo_asked = Inr (demo_answered, demo_answer_receipt, True)"
  using question_hash
  by (simp add: answer_input_def owns_def receipt_of_def find_receipt_def find_input_def Let_def guard_fail_def claimed_by_def closing_task_def
      answer_offered_def demo_answered_def demo_answer_receipt_def demo_asked_def demo_claimed_def demo_client_def demo_initial_def
      initialControl_def demo_question_def)

lemma demo_answer_change:
  "change phase_sha any_format ''t1'' demo_answering demo_asked = Inr (stamp ''t1'' 4 demo_answered, demo_answer_receipt, True)"
proof -
  have admits: "answer_admits phase_sha any_format 8 ''i1'' ''k1'' demo_asked"
    by (simp add: answer_admits_def phase_sha_def) (code_simp)
  have "storable phase_sha any_format (stamped ''t1'' demo_asked)"
    by (rule storable_stamped [OF asked_storable]) (simp_all add: demo_asked_def MAX_SAFE_INTEGER_def)
  from answering.draft [OF asked_storable this _ admits demo_answers]
  have "storable phase_sha any_format (stamp ''t1'' (Suc (tc_revision demo_asked)) demo_answered)" by simp
  moreover have "list_all plain_subject (tc_inputs demo_asked)" "tc_phase demo_asked = Awaiting_phase"
    "list_all plain_subject (tc_inputs demo_answered)" "tc_phase demo_answered = Active_phase"
    by code_simp+
  ultimately show ?thesis using change_stores [where f = demo_answering and s = demo_asked, OF demo_answers] by (simp add: phase_hash demo_asked_def)
qed

lemma demo_answer_stored: "stamp ''t1'' 4 demo_answered \<noteq> demo_asked"
proof
  assume "stamp ''t1'' 4 demo_answered = demo_asked"
  then have "tc_revision (stamp ''t1'' 4 demo_answered) = tc_revision demo_asked" by (rule arg_cong)
  then show False by (simp add: demo_asked_def)
qed

definition demo_cancelled :: task_control where
  "demo_cancelled = demo_initial\<lparr>tc_phase := Stopping_phase, tc_cancel := Some \<lparr>cn_reason = ''stop'', cn_at = ''t1'', cn_key = ''k1''\<rparr>\<rparr>"

lemma cancelled_storable: "storable sha any_format demo_cancelled"
proof -
  have "task_control_ok any_format demo_cancelled" by code_simp
  then show ?thesis by (simp add: storable_def demo_cancelled_def demo_initial_def initialControl_def)
qed

section \<open>A dispatch\<close>

definition demo_envelope :: envelope where
  "demo_envelope = \<lparr>en_id = ''d1'', en_key = ''dk'', en_task = ''task'', en_run = ''run'', en_generation = 1, en_workspace = ''w'',
     en_fingerprint = replicate 64 (CHR ''f''), en_source = ''s1'', en_source_revision = 1, en_case = ''c1'', en_case_revision = 2,
     en_case_generation = 1, en_evidence = replicate 64 (CHR ''e''), en_evidence_revision = 1, en_digest = replicate 64 (CHR ''b''),
     en_content = ''hello''\<rparr>"

lemma quoted_length: "length (quote s) \<le> 6 * length s + 2"
proof -
  have "length (esc_char a) \<le> 6" for a by (simp add: esc_char_def Let_def)
  then have "length (concat (map esc_char s)) \<le> 6 * length s" by (induction s) (auto intro!: add_mono)
  then show ?thesis by (simp add: quote_def)
qed

definition flat_bound :: "jval \<Rightarrow> nat" where
  "flat_bound v = (case v of JStr s \<Rightarrow> 6 * length s + 2 | _ \<Rightarrow> length (stringify v))"

lemma object_bound: "length (stringify (JObj kvs)) \<le> 2 + sum_list (map (\<lambda>(k, v). 6 * length k + flat_bound v + 4) kvs)"
proof -
  let ?f = "\<lambda>(k, v). if v = JUndef then [] else [quote k @ '':'' @ stringify v]"
  have joined: "length (joined '','' xs) \<le> sum_list (map (\<lambda>x. length x + 1) xs)" for xs
    by (induction "'',''" xs rule: joined.induct) auto
  have one: "sum_list (map (\<lambda>x. length x + 1) (?f (k, v))) \<le> 6 * length k + flat_bound v + 4" for k v
  proof (cases v)
    case (JStr x)
    then show ?thesis using quoted_length [of k] quoted_length [of x] by (simp add: flat_bound_def)
  qed (use quoted_length [of k] in \<open>simp_all add: flat_bound_def\<close>)
  have "sum_list (map (\<lambda>x. length x + 1) (concat (map ?f kvs))) \<le> sum_list (map (\<lambda>(k, v). 6 * length k + flat_bound v + 4) kvs)"
  proof (induction kvs)
    case (Cons kv kvs)
    then show ?case using one [of "fst kv" "snd kv"] by (cases kv) (simp only: list.map concat.simps map_append sum_list.append sum_list.Cons prod.case fst_conv snd_conv add_mono)
  qed simp
  with joined [of "concat (map ?f kvs)"] show ?thesis by simp
qed

lemma demo_envelope_bytes: "length (stringify (envelope_json demo_envelope)) \<le> MAX_PEER_DELIVERY_ENVELOPE_BYTES"
  unfolding envelope_json_def
  by (rule order_trans [OF object_bound]) (simp add: flat_bound_def demo_envelope_def jnat_def int_text_def digits_of.simps MAX_PEER_DELIVERY_ENVELOPE_BYTES_def)

definition demo_queued :: delivery where
  "demo_queued = \<lparr>dl_envelope = demo_envelope, dl_state = Del_queued, dl_queued_at = ''t1'', dl_intent_at = None, dl_delivered_at = None,
     dl_observed_at = None, dl_turn = None, dl_session = None, dl_disposition_at = None\<rparr>"

definition delivery_sha :: "string \<Rightarrow> string" where
  "delivery_sha = field_sha ''peer_deliveries'' (canonical (jlist delivery_json [demo_queued]))"

definition demo_ready :: task_control where
  "demo_ready = demo_initial\<lparr>tc_phase := Active_phase,
     tc_native := (tc_native demo_initial)\<lparr>nv_turn := Some ''turn'', nv_state := Live_native, nv_coverage := Turn_scoped\<rparr>,
     tc_deliveries := Some [demo_queued]\<rparr>"

definition demo_dispatched :: task_control where
  "demo_dispatched = with_deliveries (update_first (\<lambda>x. dl_state x = Del_queued) (intended ''t2'')) demo_ready"

lemma deliveries_hash: "list_all plain_subject (tc_inputs s) \<Longrightarrow> canonical_hash delivery_sha (task_control_json s) =
    replicate 64 (if map_option (\<lambda>ds. canonical (jlist delivery_json ds)) (tc_deliveries s) = Some (canonical (jlist delivery_json [demo_queued]))
      then CHR ''a'' else CHR ''b'')"
proof -
  assume "list_all plain_subject (tc_inputs s)"
  from plain_task [OF this] obtain kvs where kvs: "task_control_json s = JObj kvs" "plain (JObj kvs)" by (simp add: task_control_json_def)
  have "map_of kvs ''peer_deliveries'' = map_option (jlist delivery_json) (tc_deliveries s)"
    using kvs(1) by (auto simp: task_control_json_def opt_field_def split: option.split)
  then show ?thesis
    unfolding delivery_sha_def kvs(1) field_sha_hash [OF kvs(2)] by (cases "tc_deliveries s") simp_all
qed

lemma delivery_told: "dl_state d \<noteq> dl_state e \<Longrightarrow> canonical (delivery_json d) \<noteq> canonical (delivery_json e)"
proof
  assume ne: "dl_state d \<noteq> dl_state e" and eq: "canonical (delivery_json d) = canonical (delivery_json e)"
  obtain as bs where ab: "delivery_json d = JObj as" "delivery_json e = JObj bs" by (simp add: delivery_json_def)
  have "distinct (map fst as)" "distinct (map fst bs)"
    using plain_task_parts(8) [of d] plain_task_parts(8) [of e] unfolding ab by simp_all
  from canonical_field [OF this] eq have "map_option canonical (map_of as ''state'') = map_option canonical (map_of bs ''state'')" by (simp only: ab)
  then have "canonical (literal delivery_states (dl_state d)) = canonical (literal delivery_states (dl_state e))"
    using ab by (auto simp: delivery_json_def)
  then show False using ne by (cases "dl_state d"; cases "dl_state e") (simp_all add: literal_def delivery_states_def)
qed

lemma hello_digest: "delivery_sha ''hello'' = replicate 64 (CHR ''b'')"
proof -
  have "json_parse ''hello'' = None" by code_simp
  then show ?thesis by (simp add: delivery_sha_def field_sha_def)
qed

lemma demo_envelope_ok: "envelope_ok any_format demo_envelope"
proof -
  have "bounded_text 128 (en_key demo_envelope) \<and> bounded_text 4096 (en_workspace demo_envelope) \<and> bounded_text 16384 (en_content demo_envelope)"
    "hash_format (replicate 64 (CHR ''f'')) \<and> hash_format (replicate 64 (CHR ''e'')) \<and> hash_format (replicate 64 (CHR ''b''))"
    by code_simp+
  moreover have "en_fingerprint demo_envelope = replicate 64 (CHR ''f'')" "en_evidence demo_envelope = replicate 64 (CHR ''e'')"
    "en_digest demo_envelope = replicate 64 (CHR ''b'')" "en_generation demo_envelope = 1" "en_source_revision demo_envelope = 1"
    "en_case_revision demo_envelope = 2" "en_case_generation demo_envelope = 1" "en_evidence_revision demo_envelope = 1"
    by (simp_all add: demo_envelope_def)
  ultimately show ?thesis using demo_envelope_bytes
    unfolding envelope_ok_def by (simp add: counted_def MAX_SAFE_INTEGER_def)
qed

lemma scoped_storable: "storable delivery_sha any_format (demo_initial\<lparr>tc_phase := Active_phase,
     tc_native := (tc_native demo_initial)\<lparr>nv_turn := Some ''turn'', nv_state := Live_native, nv_coverage := Turn_scoped\<rparr>, tc_deliveries := None\<rparr>)"
proof -
  have "native_ok any_format (n\<lparr>nv_coverage := Turn_scoped\<rparr>)" if "native_ok any_format n" for n using that by (simp add: native_ok_def)
  from this [OF live_native [OF initial_native]]
  have "storable delivery_sha any_format (demo_initial\<lparr>tc_phase := Active_phase,
     tc_native := (tc_native demo_initial)\<lparr>nv_turn := Some ''turn'', nv_state := Live_native, nv_coverage := Turn_scoped\<rparr>\<rparr>)"
    by (intro storable_native storable_phase initial_storable) (auto simp: demo_initial_def initialControl_def)
  then show ?thesis by (simp add: demo_initial_def initialControl_def)
qed

lemma ready_storable: "storable delivery_sha any_format demo_ready"
proof -
  have none: "storable delivery_sha any_format (demo_ready\<lparr>tc_deliveries := None\<rparr>)"
    using scoped_storable by (simp add: demo_ready_def)
  have "storable delivery_sha any_format ((demo_ready\<lparr>tc_deliveries := None\<rparr>)\<lparr>tc_deliveries := Some [demo_queued]\<rparr>)"
  proof (rule storable_deliveries_free [OF none])
    show "list_all (delivery_fits delivery_sha any_format (demo_ready\<lparr>tc_deliveries := None\<rparr>)) [demo_queued]"
      using demo_envelope_ok hello_digest
      by (simp add: delivery_fits_def delivery_ok_def demo_queued_def delivery_evidenced_def demo_envelope_def demo_ready_def demo_initial_def initialControl_def)
  qed (simp_all add: demo_ready_def demo_initial_def initialControl_def unique_by_def MAX_PEER_DELIVERIES_def)
  then show ?thesis by (simp add: demo_ready_def)
qed

abbreviation demo_dispatching :: "task_control \<Rightarrow> (task_control \<times> dispatch_end) res" where
  "demo_dispatching \<equiv> dispatch_next delivery_sha any_format ''t2'' 1 demo_queued Valid_current"

lemma demo_dispatches: "demo_dispatching demo_ready = Inr (demo_dispatched, Dispatch_value demo_envelope)"
proof -
  have "delivery_ok any_format demo_queued" "en_digest demo_envelope = delivery_sha (en_content demo_envelope)"
    using storable_deliveriesD(1) [OF ready_storable] by (simp_all add: demo_ready_def delivery_fits_def demo_queued_def)
  then have "immutablePeerEnvelope delivery_sha any_format demo_envelope = Inr demo_envelope"
    by (simp add: immutablePeerEnvelope_def delivery_ok_def demo_queued_def)
  then show ?thesis
    by (simp add: dispatch_next_def next_queued_def native_incomplete_def guard_fail_def demo_dispatched_def demo_ready_def demo_queued_def
        demo_initial_def initialControl_def)
qed

lemma demo_dispatch_change:
  "change delivery_sha any_format ''t2'' demo_dispatching demo_ready = Inr (stamp ''t2'' 2 demo_dispatched, Dispatch_value demo_envelope)"
proof -
  have "storable delivery_sha any_format (stamped ''t2'' demo_ready)"
    by (rule storable_stamped [OF ready_storable]) (simp_all add: demo_ready_def demo_initial_def initialControl_def MAX_SAFE_INTEGER_def)
  from dispatching.draft [OF ready_storable this _ _ demo_dispatches]
  have "storable delivery_sha any_format (stamp ''t2'' (Suc (tc_revision demo_ready)) demo_dispatched)" by simp
  moreover have "tc_deliveries demo_ready = Some [demo_queued]" "tc_deliveries demo_dispatched = Some [intended ''t2'' demo_queued]"
    by (simp_all add: demo_ready_def demo_dispatched_def with_deliveries_def demo_queued_def)
  moreover have "canonical (delivery_json (intended ''t2'' demo_queued)) \<noteq> canonical (delivery_json demo_queued)"
    by (rule delivery_told) (simp add: intended_def demo_queued_def)
  moreover have "tc_inputs demo_ready = []" "tc_inputs demo_dispatched = []" "tc_revision demo_ready = 1"
    by (simp_all add: demo_ready_def demo_dispatched_def with_deliveries_def demo_initial_def initialControl_def)
  ultimately show ?thesis
    using change_stores [where f = demo_dispatching and s = demo_ready, OF demo_dispatches] by (simp add: deliveries_hash jlist_def numeral_2_eq_2)
qed

lemma demo_dispatch_stored: "stamp ''t2'' 2 demo_dispatched \<noteq> demo_ready"
proof
  assume "stamp ''t2'' 2 demo_dispatched = demo_ready"
  then have "tc_revision (stamp ''t2'' 2 demo_dispatched) = tc_revision demo_ready" by (rule arg_cong)
  then show False by (simp add: demo_ready_def demo_initial_def initialControl_def)
qed

section \<open>A completed task\<close>

text \<open>It owed the answer of one slot. The delivery that took the slot was never handed out, as a later
  one of the same obligation was observed.\<close>

definition demo_later :: envelope where
  "demo_later = demo_envelope\<lparr>en_id := ''d2'', en_key := ''dl'', en_evidence_revision := 2\<rparr>"

definition demo_observed_delivery :: delivery where
  "demo_observed_delivery = \<lparr>dl_envelope = demo_later, dl_state = Del_observed, dl_queued_at = ''t1'', dl_intent_at = Some ''t1'',
     dl_delivered_at = Some ''t1'', dl_observed_at = Some ''t2'', dl_turn = Some ''turn'', dl_session = Some ''x'', dl_disposition_at = None\<rparr>"

definition demo_taken :: slot where
  "demo_taken = \<lparr>sl_identity = \<lparr>sl_key = ''k'', sl_digest = replicate 64 (CHR ''b''), sl_case = ''c1'', sl_expected_revision = 1,
     sl_case_revision = 2, sl_case_generation = 1, sl_task = ''task'', sl_run = ''run'', sl_generation = 1, sl_workspace = ''w'',
     sl_fingerprint = replicate 64 (CHR ''f''), sl_source = ''s1'', sl_source_revision = 1\<rparr>,
     sl_state = Consumed_slot, sl_delivery = Some ''d1''\<rparr>"

definition demo_place_bound :: completion_binding where
  "demo_place_bound = \<lparr>bd_workspace = ''w'', bd_fingerprint = replicate 64 (CHR ''f'')\<rparr>"

definition demo_done :: task_control where
  "demo_done = demo_initial\<lparr>tc_phase := Finalizing_phase, tc_settled := Some Completed,
     tc_native := (tc_native demo_initial)\<lparr>nv_turn := Some ''turn'', nv_state := Live_native, nv_coverage := Turn_scoped\<rparr>,
     tc_deliveries := Some [demo_queued, demo_observed_delivery], tc_slots := Some [demo_taken]\<rparr>"

definition demo_ending :: ending where
  "demo_ending = \<lparr>nd_stop = Stop_confirmed, nd_private = False, nd_unresolved = False, nd_late = None, nd_write_error = None,
     nd_peer_attention = [], nd_native_attention = []\<rparr>"

definition demo_settlement :: settlement where
  "demo_settlement = \<lparr>st_outcome = Completed, st_native_issue = False, st_peer_issue = False\<rparr>"

definition demo_completed :: task_control where
  "demo_completed = stamp ''t3'' 2 (ended_control demo_ending demo_settlement demo_done)"

lemma native_states_ok: "native_ok z n \<Longrightarrow> native_ok z (n\<lparr>nv_coverage := c\<rparr>)" "native_ok z n \<Longrightarrow> native_ok z (n\<lparr>nv_state := x\<rparr>)"
  by (simp_all add: native_ok_def)

lemma demo_later_ok: "envelope_ok any_format demo_later"
proof -
  have "bounded_text 128 (en_key demo_later)" by code_simp
  moreover have "length (stringify (envelope_json demo_later)) \<le> MAX_PEER_DELIVERY_ENVELOPE_BYTES"
    unfolding envelope_json_def
    by (rule order_trans [OF object_bound])
      (simp add: flat_bound_def demo_later_def demo_envelope_def jnat_def int_text_def digits_of.simps MAX_PEER_DELIVERY_ENVELOPE_BYTES_def)
  ultimately show ?thesis
    using demo_envelope_ok by (simp add: envelope_ok_def demo_later_def counted_def MAX_SAFE_INTEGER_def)
qed

lemma done_storable: "storable delivery_sha any_format demo_done"
proof -
  let ?s = "demo_initial\<lparr>tc_phase := Finalizing_phase, tc_settled := Some Completed,
     tc_native := (tc_native demo_initial)\<lparr>nv_turn := Some ''turn'', nv_state := Live_native, nv_coverage := Turn_scoped\<rparr>\<rparr>"
  have s: "storable delivery_sha any_format ?s"
    using native_states_ok(1) [OF live_native [OF initial_native]]
    by (intro storable_native storable_settled storable_phase initial_storable) (auto simp: demo_initial_def initialControl_def)
  have fits: "delivery_fits delivery_sha any_format ?s demo_queued" "delivery_fits delivery_sha any_format ?s demo_observed_delivery"
  proof -
    have "bounded_text 256 ''turn''" "bounded_text 256 ''x''" by code_simp+
    then show "delivery_fits delivery_sha any_format ?s demo_queued" "delivery_fits delivery_sha any_format ?s demo_observed_delivery"
      using demo_envelope_ok demo_later_ok hello_digest
      by (simp_all add: delivery_fits_def delivery_ok_def demo_queued_def demo_observed_delivery_def demo_later_def delivery_evidenced_def
          demo_envelope_def demo_initial_def initialControl_def)
  qed
  have ds: "storable delivery_sha any_format (?s\<lparr>tc_deliveries := Some [demo_queued, demo_observed_delivery]\<rparr>)" (is "storable _ _ ?d")
    by (rule storable_deliveries_free [OF s]) (use fits in \<open>simp_all add: demo_initial_def initialControl_def unique_by_def MAX_PEER_DELIVERIES_def
        demo_queued_def demo_observed_delivery_def demo_later_def demo_envelope_def\<close>)
  have "slots_fit any_format ?d [demo_taken]"
  proof -
    have "hash_format (replicate 64 (CHR ''b''))" "hash_format (replicate 64 (CHR ''f''))" "bounded_text 128 ''k''" "bounded_text 4096 ''w''" by code_simp+
    then have "slot_ok any_format demo_taken" by (simp add: slot_ok_def demo_taken_def Let_def counted_def MAX_SAFE_INTEGER_def)
    moreover have "delivered_for [demo_queued, demo_observed_delivery] demo_taken"
      by (simp add: delivered_for_def demo_taken_def demo_queued_def demo_envelope_def same_direction_def)
    ultimately show ?thesis
      by (simp add: slots_fit_alt identities_fit_def MAX_PEER_DELIVERIES_def is_reserved_def)
        (simp add: demo_taken_def demo_initial_def initialControl_def)
  qed
  from storable_slots [OF ds this] show ?thesis by (simp add: demo_done_def)
qed

lemma demo_done_parts:
  "tc_settled demo_done = Some Completed" "tc_phase demo_done = Finalizing_phase" "tc_revision demo_done = 1"
  "nv_coverage (tc_native demo_done) = Turn_scoped" "nv_obligations (tc_native demo_done) = []" "nv_state (tc_native demo_done) = Live_native"
  "nv_limitation (tc_native demo_done) = None" "nv_run (tc_native demo_done) = ''run''" "tc_generation demo_done = 1"
  "tc_task_id demo_done = ''task''" "tc_inputs demo_done = []" "tc_cancel demo_done = None" "tc_outcome demo_done = None"
  "tc_deliveries demo_done = Some [demo_queued, demo_observed_delivery]" "tc_slots demo_done = Some [demo_taken]"
  by (simp_all add: demo_done_def demo_initial_def initialControl_def)

lemma done_ended: "ended_control demo_ending demo_settlement demo_done =
    (demo_done\<lparr>tc_native := (tc_native demo_done)\<lparr>nv_state := Stopped_native\<rparr>\<rparr>)\<lparr>tc_phase := Terminal_phase, tc_outcome := Some Completed\<rparr>"
  by (simp add: ended_control_def ended_inputs_def ended_native_def demo_ending_def demo_settlement_def post_write_conflict_def Let_def
      demo_done_def demo_initial_def initialControl_def)

lemma completed_storable: "storable delivery_sha any_format demo_completed"
proof -
  have step: "storable delivery_sha any_format (stamped ''t3'' demo_done)"
    by (rule storable_stamped [OF done_storable]) (simp_all add: demo_done_parts MAX_SAFE_INTEGER_def)
  have "storable delivery_sha any_format (((stamped ''t3'' demo_done)\<lparr>tc_native := (tc_native demo_done)\<lparr>nv_state := Stopped_native\<rparr>\<rparr>)
      \<lparr>tc_phase := Terminal_phase, tc_outcome := Some Completed\<rparr>)"
    using native_states_ok(2) [OF storable_receiptsD(4) [OF done_storable]]
    by (intro storable_terminal storable_native step) (auto simp: demo_done_parts)
  then show ?thesis by (simp add: demo_completed_def done_ended demo_done_parts numeral_2_eq_2)
qed

lemma demo_resolved: "unresolvedPeerCompletion delivery_sha demo_done (Some demo_place_bound) None = None"
proof -
  have same: "delivery_group delivery_sha demo_observed_delivery = delivery_group delivery_sha demo_queued"
    by (simp add: delivery_group_def Let_def demo_observed_delivery_def demo_queued_def demo_later_def)
  then have latest: "latest_deliveries delivery_sha [demo_queued, demo_observed_delivery] = [(delivery_group delivery_sha demo_queued, demo_observed_delivery)]"
    by (simp add: latest_deliveries_def)
  have current: "current_delivery demo_done (Some demo_place_bound) None demo_observed_delivery"
    by (simp add: current_delivery_def Let_def demo_done_parts demo_observed_delivery_def demo_later_def demo_envelope_def demo_place_bound_def)
  have superseded: "superseded demo_queued (Some demo_observed_delivery)"
    by (simp add: superseded_def demo_queued_def demo_observed_delivery_def demo_later_def demo_envelope_def)
  have states: "dl_state demo_observed_delivery = Del_observed" "\<not> unsettled_state Del_observed"
    by (simp_all add: demo_observed_delivery_def unsettled_state_def)
  have "slot_issue delivery_sha demo_done (Some demo_place_bound) None demo_taken = None"
    using current states(1)
    by (simp add: slot_issue_def Let_def demo_done_parts latest)
      (simp add: demo_taken_def demo_queued_def demo_envelope_def same_direction_def demo_observed_delivery_def demo_later_def)
  then show ?thesis
    using current superseded states by (simp add: unresolvedPeerCompletion_def Let_def demo_done_parts latest same)
qed

lemma demo_publishes:
  "publish_result delivery_sha any_format ''t3'' (Some demo_place_bound) demo_ending True demo_settlement demo_done = (demo_completed, Inr demo_settlement)"
proof -
  have "recheckCompletion delivery_sha (Some demo_place_bound) demo_done demo_settlement = demo_settlement"
    using demo_done_parts demo_resolved by (simp add: recheckCompletion_def demo_settlement_def Let_def)
  moreover have "store_next delivery_sha any_format ''t3'' (ended_control demo_ending demo_settlement demo_done) = Inr demo_completed"
    using completed_storable demo_done_parts
    by (simp add: store_next_def demo_completed_def stamp_def Let_def done_ended numeral_2_eq_2)
  ultimately show ?thesis
    using demo_done_parts by (simp add: publish_result_def settled_again_def demo_settlement_def demo_ending_def Let_def)
qed

lemma completed_parts:
  "tc_phase demo_completed = Terminal_phase" "tc_outcome demo_completed = Some Completed" "deliveries_of demo_completed = [demo_queued, demo_observed_delivery]"
  "slots_of demo_completed = [demo_taken]"
  by (simp_all add: demo_completed_def done_ended demo_done_parts)

lemma completed_told: "obligations_told sha (deliveries_of demo_completed)"
proof -
  have "obligation_text (dl_envelope demo_observed_delivery) = obligation_text (dl_envelope demo_queued)"
    by (simp add: obligation_text_inj same_obligation_def demo_observed_delivery_def demo_queued_def demo_later_def)
  then show ?thesis by (simp add: obligations_told_def completed_parts)
qed

section \<open>A full list of slots\<close>

definition demo_slot :: "nat \<Rightarrow> slot" where
  "demo_slot n = \<lparr>sl_identity = \<lparr>sl_key = ''k'', sl_digest = replicate 64 (CHR ''b''), sl_case = ''c1'', sl_expected_revision = 1,
     sl_case_revision = 2, sl_case_generation = 1, sl_task = ''task'', sl_run = ''run'', sl_generation = 1, sl_workspace = ''w'',
     sl_fingerprint = replicate 64 (CHR ''b''), sl_source = replicate n (CHR ''a''), sl_source_revision = 1\<rparr>,
     sl_state = Released_slot, sl_delivery = None\<rparr>"

definition demo_slots :: "slot list" where "demo_slots = map demo_slot [0..<64]"

definition slots_sha :: "string \<Rightarrow> string" where
  "slots_sha = field_sha ''peer_delivery_reservations'' (canonical (jlist slot_json demo_slots))"

definition demo_full :: task_control where
  "demo_full = demo_initial\<lparr>tc_phase := Active_phase,
     tc_native := (tc_native demo_initial)\<lparr>nv_turn := Some ''turn'', nv_state := Live_native\<rparr>, tc_slots := Some demo_slots\<rparr>"

definition demo_place :: task_place where
  "demo_place = \<lparr>pl_coordinated = True, pl_workspace = Some ''w'', pl_source_view = ''v'', pl_pending = True, pl_path = Some ''w'',
     pl_base = None, pl_branch = None, pl_target = None\<rparr>"

definition demo_bundle :: slot_bundle where
  "demo_bundle = \<lparr>sb_key = ''k2'', sb_digest = replicate 64 (CHR ''b''), sb_case = ''c1'', sb_expected_revision = 2, sb_case_revision = 3,
     sb_case_generation = 1, sb_task = ''task'', sb_run = ''run'', sb_generation = 1, sb_workspace = ''w'',
     sb_fingerprint = replicate 64 (CHR ''b''), sb_sources = [(''z'', 1)]\<rparr>"

definition demo_overfull :: task_control where
  "demo_overfull = demo_full\<lparr>tc_slots := Some (demo_slots @ [reserved_slot demo_bundle (''z'', 1)])\<rparr>"

lemma no_slot: "List.find (slot_for ''k2'' x) demo_slots = None"
  by (auto simp: find_None_iff demo_slots_def demo_slot_def slot_for_def)

lemma none_reserved: "filter is_reserved demo_slots = []"
  by (simp add: demo_slots_def filter_empty_conv is_reserved_def demo_slot_def)

lemma slot_demo_ok: "slot_ok any_format (demo_slot n)"
proof -
  have "hash_format (replicate 64 (CHR ''b''))" "bounded_text 128 ''k''" "bounded_text 4096 ''w''" by code_simp+
  then show ?thesis by (simp add: slot_ok_def demo_slot_def Let_def counted_def MAX_SAFE_INTEGER_def)
qed

lemma full_storable: "storable slots_sha any_format demo_full"
proof -
  have "storable slots_sha any_format (demo_initial\<lparr>tc_phase := Active_phase,
     tc_native := (tc_native demo_initial)\<lparr>nv_turn := Some ''turn'', nv_state := Live_native\<rparr>\<rparr>)" (is "storable _ _ ?s")
    using live_native [OF initial_native]
    by (intro storable_native storable_phase initial_storable) (auto simp: demo_initial_def initialControl_def)
  moreover have "slots_fit any_format ?s demo_slots"
  proof -
    have "distinct (map (\<lambda>n. ''k:'' @ replicate n (CHR ''a'')) [0..<64])" by (simp add: distinct_map inj_on_def)
    then show ?thesis
      using slot_demo_ok none_reserved
      by (simp add: slots_fit_alt identities_fit_def demo_slots_def list_all_iff MAX_PEER_DELIVERIES_def comp_def)
        (simp add: demo_slot_def demo_initial_def initialControl_def)
  qed
  ultimately show ?thesis unfolding demo_full_def by (rule storable_slots)
qed

lemma place_hash: "workspace_fingerprint slots_sha ''task'' demo_place ''w'' = replicate 64 (CHR ''b'')"
  unfolding workspace_fingerprint_def slots_sha_def by (subst field_sha_hash) (simp_all add: demo_place_def opt_field_def)

lemma demo_reserves: "reservePeerDeliverySlots slots_sha (Some demo_place) demo_bundle demo_full = Inr (demo_overfull, ())"
proof -
  have "tc_slots demo_full = Some demo_slots" "tc_deliveries demo_full = None" by (simp_all add: demo_full_def demo_initial_def initialControl_def)
  moreover have "recipient_ready slots_sha (Some demo_place) demo_bundle demo_full"
    using place_hash by (simp add: recipient_ready_def demo_place_def demo_bundle_def demo_full_def demo_initial_def initialControl_def)
  moreover have "\<not> list_ex (\<lambda>x. sl_state x \<noteq> Released_slot \<and> P x) demo_slots" for P
    by (simp add: list_ex_iff demo_slots_def demo_slot_def)
  ultimately show ?thesis
    using no_slot none_reserved
    by (simp add: reservePeerDeliverySlots_def guard_fail_def Let_def demo_overfull_def MAX_PEER_DELIVERIES_def)
      (simp add: demo_bundle_def guard_fail_def MAX_PEER_DELIVERIES_def)
qed

lemma overfull_told: "canonical_hash slots_sha (task_control_json demo_full) \<noteq> canonical_hash slots_sha (task_control_json demo_overfull)"
proof -
  have h: "canonical_hash slots_sha (task_control_json s) = replicate 64 (if canonical (jlist slot_json xs) = canonical (jlist slot_json demo_slots)
      then CHR ''a'' else CHR ''b'')" if "tc_inputs s = []" "tc_slots s = Some xs" for s xs
  proof -
    have "plain (task_control_json s)" using that by (intro plain_task) simp
    then obtain kvs where kvs: "task_control_json s = JObj kvs" "plain (JObj kvs)" by (simp add: task_control_json_def)
    have "map_of kvs ''peer_delivery_reservations'' = Some (jlist slot_json xs)"
      using kvs(1) that by (auto simp: task_control_json_def opt_field_def split: option.split)
    then show ?thesis unfolding slots_sha_def kvs(1) field_sha_hash [OF kvs(2)] by simp
  qed
  have "length demo_slots \<noteq> length (demo_slots @ [reserved_slot demo_bundle (''z'', 1)])" by simp
  then have "canonical (jlist slot_json (demo_slots @ [reserved_slot demo_bundle (''z'', 1)])) \<noteq> canonical (jlist slot_json demo_slots)"
    unfolding jlist_def canonical.simps jval.inject by (metis length_map)
  moreover have "tc_inputs demo_full = []" "tc_slots demo_full = Some demo_slots" "tc_inputs demo_overfull = []"
    "tc_slots demo_overfull = Some (demo_slots @ [reserved_slot demo_bundle (''z'', 1)])"
    by (simp_all add: demo_full_def demo_overfull_def demo_initial_def initialControl_def)
  ultimately show ?thesis using h [of demo_full] h [of demo_overfull] by simp
qed

end
