(* ===== verification/Captured_Sources.thy ===== *)
theory Captured_Sources
  imports Structural_Match "HOL-Library.AList"
begin

text \<open>
  Captured source files (src/src/observation/model.ts, \<open>SourceFile\<close>) and the cache that keeps
  captured pairs for later detail (src/src/observation/cache.ts). The loop that evicts the
  oldest pairs is a partial function: \<open>None\<close> is a loop that never ends.
\<close>

section \<open>Captured files\<close>

record present_file =
  pf_source :: source_identity
  pf_mode :: string
  pf_sha :: string
  pf_bytes :: nat
  pf_text :: string
  pf_consistency :: consistency
  pf_blob :: "string option"

datatype source_file =
    Present_file present_file
  | Absent_file source_identity
  | Missing_file source_identity
  | Other_file source_identity entry_kind "string option" "string option"

record cached_pair =
  ca_work :: string
  ca_revision :: nat
  ca_input :: source_file
  ca_observed :: source_file

fun file_bytes :: "source_file \<Rightarrow> nat" where
  "file_bytes (Present_file f) = pf_bytes f"
| "file_bytes _ = 0"

definition pairBytes :: "cached_pair \<Rightarrow> nat" where
  "pairBytes p = file_bytes (ca_input p) + file_bytes (ca_observed p)"

definition MAX_CAPTURE_BYTES :: int where "MAX_CAPTURE_BYTES = 67108864"
definition MAX_CAPTURE_PAIRS :: nat where "MAX_CAPTURE_PAIRS = 32"

section \<open>The cache\<close>

record pair_cache =
  ce_entries :: "(string \<times> cached_pair) list"
  ce_bytes :: int

definition empty_cache :: pair_cache where "empty_cache = \<lparr>ce_entries = [], ce_bytes = 0\<rparr>"

definition crowded :: "int \<Rightarrow> pair_cache \<Rightarrow> bool" where
  "crowded n s = (MAX_CAPTURE_PAIRS \<le> length (ce_entries s) \<or> MAX_CAPTURE_BYTES < ce_bytes s + n)"

partial_function (option) make_room :: "int \<Rightarrow> pair_cache \<Rightarrow> pair_cache option" where
  "make_room n s = (if crowded n s
     then (case ce_entries s of [] \<Rightarrow> Some s
       | (i, p) # es \<Rightarrow> make_room n \<lparr>ce_entries = es, ce_bytes = ce_bytes s - int (pairBytes p)\<rparr>)
     else Some s)"

declare make_room.simps [code]

text \<open>\<open>None\<close>: the call does not return. The identity is what \<open>randomUUID\<close> gave.\<close>

definition put :: "string \<Rightarrow> cached_pair \<Rightarrow> pair_cache \<Rightarrow> (pair_cache \<times> string) res option" where
  "put fresh p s =
     (if MAX_CAPTURE_BYTES < int (pairBytes p) then Some (fail ''STRUCTURAL_CAPTURE_TOO_LARGE'')
      else map_option (\<lambda>t. Inr (\<lparr>ce_entries = AList.update fresh p (ce_entries t), ce_bytes = ce_bytes t + int (pairBytes p)\<rparr>, fresh))
        (make_room (int (pairBytes p)) s))"

definition get_pair :: "string \<Rightarrow> pair_cache \<Rightarrow> cached_pair res" where
  "get_pair i s = (case map_of (ce_entries s) i of None \<Rightarrow> fail ''STRUCTURAL_DETAIL_UNAVAILABLE'' | Some p \<Rightarrow> Inr p)"

definition clear_cache :: "pair_cache \<Rightarrow> pair_cache" where "clear_cache s = empty_cache"

section \<open>The invariant\<close>

definition held_bytes :: "(string \<times> cached_pair) list \<Rightarrow> int" where
  "held_bytes es = sum_list (map (\<lambda>(i, p). int (pairBytes p)) es)"

definition cache_ok :: "pair_cache \<Rightarrow> bool" where
  "cache_ok s = (distinct (map fst (ce_entries s)) \<and> length (ce_entries s) \<le> MAX_CAPTURE_PAIRS
     \<and> ce_bytes s = held_bytes (ce_entries s) \<and> ce_bytes s \<le> MAX_CAPTURE_BYTES)"

text \<open>Entries beside which a pair of that size has its place.\<close>

definition spacious :: "int \<Rightarrow> (string \<times> cached_pair) list \<Rightarrow> bool" where
  "spacious n es = (length es < MAX_CAPTURE_PAIRS \<and> held_bytes es + n \<le> MAX_CAPTURE_BYTES)"

lemma held_bytes_simps [simp]: "held_bytes [] = 0" "held_bytes (e # es) = int (pairBytes (snd e)) + held_bytes es"
  "held_bytes (es @ fs) = held_bytes es + held_bytes fs"
  by (simp_all add: held_bytes_def case_prod_unfold)

lemma make_room_returns:
  assumes "ce_bytes s = held_bytes (ce_entries s)" "n \<le> MAX_CAPTURE_BYTES"
  shows "\<exists>k \<le> length (ce_entries s). make_room n s = Some \<lparr>ce_entries = drop k (ce_entries s), ce_bytes = held_bytes (drop k (ce_entries s))\<rparr>
    \<and> spacious n (drop k (ce_entries s)) \<and> (\<forall>j < k. \<not> spacious n (drop j (ce_entries s)))"
  using assms
proof (induction "ce_entries s" arbitrary: s)
  case Nil
  then have "\<not> crowded n s" "s = \<lparr>ce_entries = [], ce_bytes = 0\<rparr>" by (auto simp: crowded_def MAX_CAPTURE_PAIRS_def)
  then show ?case using Nil by (intro exI [of _ 0]) (simp add: make_room.simps spacious_def MAX_CAPTURE_PAIRS_def)
next
  case (Cons e es)
  have same: "crowded n s = (\<not> spacious n (ce_entries s))" using Cons.prems(1) by (auto simp: crowded_def spacious_def)
  show ?case
  proof (cases "crowded n s")
    case False
    moreover have "s = \<lparr>ce_entries = ce_entries s, ce_bytes = held_bytes (ce_entries s)\<rparr>" using Cons.prems(1) by simp
    ultimately show ?thesis using same by (intro exI [of _ 0]) (simp add: make_room.simps)
  next
    case True
    let ?t = "\<lparr>ce_entries = es, ce_bytes = ce_bytes s - int (pairBytes (snd e))\<rparr>"
    have "ce_bytes ?t = held_bytes (ce_entries ?t)" using Cons.prems(1) Cons.hyps(2) [symmetric] by simp
    then obtain k where k: "k \<le> length es" "make_room n ?t = Some \<lparr>ce_entries = drop k es, ce_bytes = held_bytes (drop k es)\<rparr>"
      "spacious n (drop k es)" "\<forall>j < k. \<not> spacious n (drop j es)"
      using Cons.hyps(1) [of ?t] Cons.prems(2) by auto
    have "make_room n s = make_room n ?t"
      using True Cons.hyps(2) [symmetric] by (subst make_room.simps) (simp add: case_prod_unfold)
    moreover have "\<not> spacious n (drop j (ce_entries s))" if "j < Suc k" for j
      using that k(4) True same Cons.hyps(2) [symmetric] by (cases j) auto
    ultimately show ?thesis using k Cons.hyps(2) [symmetric] by (intro exI [of _ "Suc k"]) auto
  qed
qed

lemma update_new: "k \<notin> fst ` set xs \<Longrightarrow> AList.update k v xs = xs @ [(k, v)]"
  by (induction xs) auto

lemma put_returns:
  assumes ok: "cache_ok s" and new: "fresh \<notin> fst ` set (ce_entries s)" and fits: "int (pairBytes p) \<le> MAX_CAPTURE_BYTES"
  shows "\<exists>k t. put fresh p s = Some (Inr (t, fresh)) \<and> ce_entries t = drop k (ce_entries s) @ [(fresh, p)] \<and> cache_ok t
    \<and> spacious (int (pairBytes p)) (drop k (ce_entries s)) \<and> (\<forall>j < k. \<not> spacious (int (pairBytes p)) (drop j (ce_entries s)))"
proof -
  obtain k where k: "make_room (int (pairBytes p)) s = Some \<lparr>ce_entries = drop k (ce_entries s), ce_bytes = held_bytes (drop k (ce_entries s))\<rparr>"
    "spacious (int (pairBytes p)) (drop k (ce_entries s))" "\<forall>j < k. \<not> spacious (int (pairBytes p)) (drop j (ce_entries s))"
    using make_room_returns [of s "int (pairBytes p)"] ok fits by (auto simp: cache_ok_def)
  let ?es = "drop k (ce_entries s)"
  have keys: "fresh \<notin> fst ` set ?es" using new by (auto dest: in_set_dropD)
  have kept: "distinct (map fst ?es)" using ok by (simp add: cache_ok_def distinct_drop flip: drop_map)
  let ?t = "\<lparr>ce_entries = ?es @ [(fresh, p)], ce_bytes = held_bytes ?es + int (pairBytes p)\<rparr>"
  have "put fresh p s = Some (Inr (?t, fresh))" using k(1) fits by (simp add: put_def update_new [OF keys])
  moreover have "cache_ok ?t"
    using kept keys k(2) by (simp add: cache_ok_def spacious_def)
  ultimately show ?thesis using k(2,3) by (intro exI [of _ k] exI [of _ ?t]) simp
qed

inductive cache_reached :: "pair_cache \<Rightarrow> bool" where
  start: "cache_reached empty_cache"
| put: "cache_reached s \<Longrightarrow> fresh \<notin> fst ` set (ce_entries s) \<Longrightarrow> put fresh p s = Some (Inr (t, i)) \<Longrightarrow> cache_reached t"
| clear: "cache_reached s \<Longrightarrow> cache_reached (clear_cache s)"

lemma empty_cache_ok: "cache_ok empty_cache"
  by (simp add: cache_ok_def empty_cache_def MAX_CAPTURE_BYTES_def)

lemma reached_cache_ok: "cache_reached s \<Longrightarrow> cache_ok s"
proof (induction rule: cache_reached.induct)
  case (put s fresh p t i)
  have "int (pairBytes p) \<le> MAX_CAPTURE_BYTES" using put.hyps(3) by (auto simp: put_def split: if_splits)
  from put_returns [OF put.IH put.hyps(2) this] show ?case using put.hyps(3) by auto
qed (simp_all add: empty_cache_ok clear_cache_def)

lemma get_put: "cache_ok t \<Longrightarrow> ce_entries t = es @ [(i, p)] \<Longrightarrow> get_pair i t = Inr p"
  by (auto simp: get_pair_def cache_ok_def map_of_append map_add_def rev_image_eqI split: option.split dest!: map_of_SomeD)

end
