(* ===== verification/Utf8_Text.thy ===== *)
theory Utf8_Text
  imports Json "HOL-Library.Word"
begin

text \<open>
  Text as code points, as UTF-8 bytes and as UTF-16 code units, and the map from the string
  indices of a native parser to offsets in the captured UTF-8 source
  (src/src/observation/ranges.ts). Code units and offsets have their widths of 16 and 32 bits.
\<close>

section \<open>Code points and their encodings\<close>

definition scalar :: "nat \<Rightarrow> bool" where
  "scalar n = (n < 1114112 \<and> \<not> (55296 \<le> n \<and> n \<le> 57343))"

definition point_bytes :: "nat \<Rightarrow> nat list" where
  "point_bytes n =
     (if n < 128 then [n]
      else if n < 2048 then [192 + n div 64, 128 + n mod 64]
      else if n < 65536 then [224 + n div 4096, 128 + n div 64 mod 64, 128 + n mod 64]
      else [240 + n div 262144, 128 + n div 4096 mod 64, 128 + n div 64 mod 64, 128 + n mod 64])"

definition utf8 :: "nat list \<Rightarrow> string" where
  "utf8 ns = map char_of (concat (map point_bytes ns))"

definition point_units :: "nat \<Rightarrow> nat list" where
  "point_units n = (if n < 65536 then [n] else [55296 + (n - 65536) div 1024, 56320 + (n - 65536) mod 1024])"

definition units :: "nat list \<Rightarrow> nat list" where
  "units ns = concat (map point_units ns)"

definition well_formed :: "string \<Rightarrow> bool" where
  "well_formed s = (\<exists>ns. list_all scalar ns \<and> s = utf8 ns)"

lemma utf8_simps [simp]: "utf8 [] = []" "utf8 (n # ns) = map char_of (point_bytes n) @ utf8 ns"
  by (simp_all add: utf8_def)

lemma units_simps [simp]: "units [] = []" "units (n # ns) = point_units n @ units ns" "units (ms @ ns) = units ms @ units ns"
  by (simp_all add: units_def)

lemma point_bytes_bound: "n < 1114112 \<Longrightarrow> b \<in> set (point_bytes n) \<Longrightarrow> b < 256"
  by (auto simp: point_bytes_def split: if_splits)

lemma byte_char: "b < 256 \<Longrightarrow> of_char (char_of b :: char) = (b :: nat)"
  by (simp add: of_char_of)

lemma digits64: "(n div 4096) * 4096 + (n div 64 mod 64) * 64 + n mod 64 = (n :: nat)"
proof -
  have "n div 64 div 64 = n div 4096" by (simp add: div_mult2_eq [symmetric])
  then show ?thesis using div_mult_mod_eq [of n 64] div_mult_mod_eq [of "n div 64" 64] by linarith
qed

lemma digits64_4: "(n div 262144) * 262144 + (n div 4096 mod 64) * 4096 + (n div 64 mod 64) * 64 + n mod 64 = (n :: nat)"
proof -
  have "n div 4096 div 64 = n div 262144" by (simp add: div_mult2_eq [symmetric])
  then show ?thesis using digits64 [of n] div_mult_mod_eq [of "n div 4096" 64] by linarith
qed

lemma utf16_point: "scalar n \<Longrightarrow> utf16 (map char_of (point_bytes n) @ s) = point_units n @ utf16 s"
proof -
  assume n: "scalar n"
  consider "n < 128" | "128 \<le> n" "n < 2048" | "2048 \<le> n" "n < 65536" | "65536 \<le> n" by linarith
  then show ?thesis
  proof cases
    case 1
    then show ?thesis by (simp add: point_bytes_def point_units_def byte_char)
  next
    case 2
    then have "n div 64 < 32" by simp
    then show ?thesis using 2 by (simp add: point_bytes_def point_units_def byte_char)
  next
    case 3
    then have "n div 4096 < 16" by simp
    then show ?thesis using 3 digits64 [of n] by (simp add: point_bytes_def point_units_def byte_char)
  next
    case 4
    then have "n div 262144 < 5" using n by (simp add: scalar_def)
    then show ?thesis using 4 digits64_4 [of n] by (simp add: point_bytes_def point_units_def byte_char Let_def)
  qed
qed

lemma utf16_utf8: "list_all scalar ns \<Longrightarrow> utf16 (utf8 ns) = units ns"
  by (induction ns) (simp_all add: utf16_point)

lemma point_units_inj: "scalar m \<Longrightarrow> scalar n \<Longrightarrow> point_units m @ us = point_units n @ vs \<Longrightarrow> m = n \<and> us = vs"
proof -
  assume mn: "scalar m" "scalar n" and eq: "point_units m @ us = point_units n @ vs"
  have pair: "n = 65536 + (((55296 + (n - 65536) div 1024) - 55296) * 1024 + ((56320 + (n - 65536) mod 1024) - 56320))" if "65536 \<le> n" for n :: nat
    using that by simp
  show ?thesis
  proof (cases "m < 65536"; cases "n < 65536")
    assume "\<not> m < 65536" "\<not> n < 65536"
    then have "(m - 65536) div 1024 = (n - 65536) div 1024" "(m - 65536) mod 1024 = (n - 65536) mod 1024" "us = vs"
      using eq by (auto simp: point_units_def)
    moreover then have "m - 65536 = n - 65536" by (metis div_mult_mod_eq)
    ultimately show ?thesis using \<open>\<not> m < 65536\<close> \<open>\<not> n < 65536\<close> by simp
  qed (use mn eq in \<open>auto simp: point_units_def scalar_def\<close>)
qed

lemma units_inj: "list_all scalar ms \<Longrightarrow> list_all scalar ns \<Longrightarrow> units ms = units ns \<Longrightarrow> ms = ns"
proof (induction ms arbitrary: ns)
  case Nil
  then show ?case by (cases ns) (auto simp: point_units_def split: if_splits)
next
  case (Cons m ms)
  then show ?case
  proof (cases ns)
    case Nil
    then show ?thesis using Cons.prems by (auto simp: point_units_def split: if_splits)
  next
    case (Cons n ns')
    then show ?thesis using Cons.prems Cons.IH [of ns'] point_units_inj [of m n "units ms" "units ns'"] by simp
  qed
qed

lemma utf16_inj_on: "inj_on utf16 {s. well_formed s}"
  by (rule inj_onI) (auto simp: well_formed_def utf16_utf8 dest: units_inj)

section \<open>Offsets of string indices\<close>

abbreviation NO_OFFSET :: "32 word" where "NO_OFFSET \<equiv> 0xFFFFFFFF"

definition codePointAt :: "16 word list \<Rightarrow> nat \<Rightarrow> nat" where
  "codePointAt us i = (let u = unat (us ! i) in
     if 55296 \<le> u \<and> u \<le> 56319 \<and> Suc i < length us \<and> 56320 \<le> unat (us ! Suc i) \<and> unat (us ! Suc i) \<le> 57343
     then (u - 55296) * 1024 + (unat (us ! Suc i) - 56320) + 65536 else u)"

definition point_width :: "nat \<Rightarrow> nat" where
  "point_width n = (if n \<le> 127 then 1 else if n \<le> 2047 then 2 else if n \<le> 65535 then 3 else 4)"

function fill_offsets :: "16 word list \<Rightarrow> nat \<Rightarrow> nat \<Rightarrow> 32 word list \<Rightarrow> 32 word list res" where
  "fill_offsets us i b offs =
     (if i < length us then
        (let offs' = offs[i := word_of_nat b]; n = codePointAt us i; width = (if 65535 < n then 2 else 1) in
         andThen (guard_fail (55296 \<le> n \<and> n \<le> 57343) ''SOURCE_ENCODING_UNSUPPORTED'') (\<lambda>_.
         fill_offsets us (i + width) (b + point_width n) (if width = 2 then offs'[Suc i := NO_OFFSET] else offs')))
      else Inr (offs[length us := word_of_nat b]))"
  by pat_completeness auto
termination by (relation "measure (\<lambda>(us, i, b, offs). length us - i)") auto

declare fill_offsets.simps [simp del]

definition utf8_source_ranges :: "16 word list \<Rightarrow> 32 word list res" where
  "utf8_source_ranges us = fill_offsets us 0 0 (replicate (Suc (length us)) 0)"

definition byte_offset :: "32 word list \<Rightarrow> int \<Rightarrow> nat res" where
  "byte_offset offs i =
     (if 9007199254740991 < abs i \<or> i < 0 \<or> int (length offs) \<le> i \<or> offs ! nat i = NO_OFFSET then fail ''SOURCE_RANGE_INVALID''
      else Inr (unat (offs ! nat i)))"

definition byteRange :: "32 word list \<Rightarrow> int \<Rightarrow> int \<Rightarrow> (nat \<times> nat) res" where
  "byteRange offs start end =
     andThen (byte_offset offs start) (\<lambda>a. andThen (byte_offset offs end) (\<lambda>b.
     andThen (guard_fail (b < a) ''SOURCE_RANGE_INVALID'') (\<lambda>_. Inr (a, b))))"

section \<open>The offsets are those of the UTF-8 text\<close>

definition source_units :: "nat list \<Rightarrow> 16 word list" where
  "source_units ns = map word_of_nat (units ns)"

fun offsets_of :: "nat \<Rightarrow> nat list \<Rightarrow> 32 word list" where
  "offsets_of b [] = [word_of_nat b]"
| "offsets_of b (n # ns) = word_of_nat b # (if n < 65536 then [] else [NO_OFFSET]) @ offsets_of (b + point_width n) ns"

lemma width_bytes: "point_width n = length (point_bytes n)"
  by (simp add: point_width_def point_bytes_def)

lemma source_units_simps [simp]: "source_units [] = []" "source_units (ms @ ns) = source_units ms @ source_units ns"
  "source_units (n # ns) = map word_of_nat (point_units n) @ source_units ns"
  by (simp_all add: source_units_def)

lemma unat_unit: "n < 65536 \<Longrightarrow> unat (word_of_nat n :: 16 word) = n"
  by (simp add: unat_of_nat)

lemma code_point_at:
  assumes "scalar n"
  shows "codePointAt (pre @ map word_of_nat (point_units n) @ us) (length pre) = n"
proof (cases "n < 65536")
  case True
  then have "\<not> (55296 \<le> n \<and> n \<le> 56319)" using assms by (auto simp: scalar_def)
  then show ?thesis using True by (auto simp: codePointAt_def point_units_def nth_append unat_unit Let_def)
next
  case False
  let ?h = "55296 + (n - 65536) div 1024" and ?l = "56320 + (n - 65536) mod 1024"
  have "n - 65536 < 1024 * 1024" using assms by (auto simp: scalar_def)
  then have "(n - 65536) div 1024 < 1024" by (rule less_mult_imp_div_less)
  then have "unat (word_of_nat ?h :: 16 word) = ?h" "unat (word_of_nat ?l :: 16 word) = ?l" "?h \<le> 56319" "?l \<le> 57343"
    by (simp_all add: unat_unit del: of_nat_add)
  then show ?thesis using False by (simp add: codePointAt_def point_units_def nth_append Let_def del: of_nat_add)
qed

lemma fill_offsets_result:
  assumes "list_all scalar (ms @ ns)" "length pre = length (units ms)" "length rest = Suc (length (units ns))"
  shows "fill_offsets (source_units (ms @ ns)) (length pre) b (pre @ rest) = Inr (pre @ offsets_of b ns)"
  using assms
proof (induction ns arbitrary: ms b pre rest)
  case Nil
  then obtain r where "rest = [r]" by (auto simp: length_Suc_conv)
  then show ?case using Nil by (subst fill_offsets.simps) (simp add: source_units_def list_update_append)
next
  case (Cons n ns)
  let ?us = "source_units (ms @ n # ns)"
  have n: "scalar n" and len: "length pre = length (source_units ms)" using Cons.prems by (simp_all add: source_units_def)
  have at: "codePointAt ?us (length pre) = n"
    using code_point_at [OF n, of "source_units ms" "source_units ns"] len by simp
  have inside: "length pre < length ?us" using len by (simp add: point_units_def)
  have onward: "fill_offsets ?us (length pre') (b + point_width n) (pre' @ rest') = Inr (pre' @ offsets_of (b + point_width n) ns)"
    if "length pre' = length (units (ms @ [n]))" "length rest' = Suc (length (units ns))" for pre' rest'
    using Cons.IH [of "ms @ [n]" pre' rest' "b + point_width n"] Cons.prems that by simp
  have ok: "\<not> (55296 \<le> n \<and> n \<le> 57343)" using n by (auto simp: scalar_def)
  show ?case
  proof (cases "n < 65536")
    case True
    then obtain r rest' where r: "rest = r # rest'" "length rest' = Suc (length (units ns))"
      using Cons.prems(3) by (auto simp: point_units_def length_Suc_conv)
    from onward [of "pre @ [word_of_nat b]" rest'] show ?thesis
      using True Cons.prems(2) r at inside ok
      by (subst fill_offsets.simps) (simp add: Let_def list_update_append point_units_def guard_fail_def)
  next
    case False
    then obtain r q rest' where r: "rest = r # q # rest'" "length rest' = Suc (length (units ns))"
      using Cons.prems(3) by (auto simp: point_units_def length_Suc_conv)
    from onward [of "pre @ [word_of_nat b, NO_OFFSET]" rest'] show ?thesis
      using False Cons.prems(2) r at inside ok
      by (subst fill_offsets.simps) (simp add: Let_def list_update_append point_units_def guard_fail_def)
  qed
qed

lemma source_ranges_result:
  assumes "list_all scalar ns"
  shows "utf8_source_ranges (source_units ns) = Inr (offsets_of 0 ns)"
  using fill_offsets_result [of "[]" ns "[]" "replicate (Suc (length (source_units ns))) 0" 0] assms
  by (simp add: utf8_source_ranges_def source_units_def)

lemma length_offsets [simp]: "length (offsets_of b ns) = Suc (length (units ns))"
  by (induction ns arbitrary: b) (simp_all add: point_units_def)

lemma offsets_nth: "k \<le> length ns \<Longrightarrow> offsets_of b ns ! length (units (take k ns)) = word_of_nat (b + length (utf8 (take k ns)))"
proof (induction ns arbitrary: b k)
  case (Cons n ns)
  then show ?case
    using Cons.IH [of "k - 1" "b + point_width n"]
    by (cases k) (auto simp: point_units_def width_bytes add.assoc)
qed simp

lemma offsets_inside: "k < length ns \<Longrightarrow> 65536 \<le> ns ! k \<Longrightarrow> offsets_of b ns ! Suc (length (units (take k ns))) = NO_OFFSET"
proof (induction ns arbitrary: b k)
  case (Cons n ns)
  then show ?case
    using Cons.IH [of "k - 1" "b + point_width n"]
    by (cases k) (auto simp: point_units_def)
qed simp

text \<open>On a code point boundary the offset is the length of the text before it; inside a pair of
  surrogates there is none.\<close>

lemma byte_offset_prefix:
  assumes "length (units ns) \<le> 9007199254740991" "length (utf8 ns) < 4294967295" "k \<le> length ns"
  shows "byte_offset (offsets_of 0 ns) (int (length (units (take k ns)))) = Inr (length (utf8 (take k ns)))"
proof -
  have u: "length (units (take k ns)) \<le> length (units ns)" "length (utf8 (take k ns)) \<le> length (utf8 ns)"
    by (metis append_take_drop_id units_simps(3) length_append le_add1)
      (metis append_take_drop_id utf8_def map_append concat_append length_append le_add1)
  have "unat (word_of_nat (length (utf8 (take k ns))) :: 32 word) = length (utf8 (take k ns))"
    using u(2) assms(2) by (simp add: unat_of_nat)
  moreover from this have "(word_of_nat (length (utf8 (take k ns))) :: 32 word) \<noteq> NO_OFFSET"
    using u(2) assms(2) by auto
  ultimately show ?thesis
    using u(1) assms(1) offsets_nth [OF assms(3), of 0] by (simp add: byte_offset_def)
qed

lemma byte_offset_inside:
  "k < length ns \<Longrightarrow> 65536 \<le> ns ! k \<Longrightarrow> byte_offset (offsets_of 0 ns) (int (Suc (length (units (take k ns))))) = fail ''SOURCE_RANGE_INVALID''"
  using offsets_inside [of k ns 0] by (simp add: byte_offset_def del: of_nat_Suc)

lemma word_unat: "word_of_nat (unat w) = (w :: 16 word)"
  by simp

lemma codePointAt_cases:
  assumes "i < length us" "n = codePointAt us i" "\<not> (55296 \<le> n \<and> n \<le> 57343)"
  shows "scalar n \<and> drop i us = map word_of_nat (point_units n) @ drop (i + (if 65535 < n then 2 else 1)) us"
proof -
  have "unat (us ! j) < 2 ^ LENGTH(16)" for j by (rule unsigned_less)
  then have small: "unat (us ! j) < 65536" for j by simp
  have here: "drop i us = us ! i # drop (Suc i) us" using assms(1) by (simp add: Cons_nth_drop_Suc)
  show ?thesis
  proof (cases "n = unat (us ! i)")
    case True
    then show ?thesis using assms small [of i] here by (auto simp: scalar_def point_units_def)
  next
    case False
    let ?u = "unat (us ! i)" and ?l = "unat (us ! Suc i)"
    have u: "55296 \<le> ?u" "?u \<le> 56319" "Suc i < length us" "56320 \<le> ?l" "?l \<le> 57343"
      and n: "n = (?u - 55296) * 1024 + (?l - 56320) + 65536"
      using False assms(2) by (auto simp: codePointAt_def Let_def split: if_splits)
    have "?l - 56320 < 1024" using u by linarith
    then have "(n - 65536) div 1024 = ?u - 55296" "(n - 65536) mod 1024 = ?l - 56320" using n by simp_all
    then have "point_units n = [?u, ?l]" using u n by (simp add: point_units_def)
    moreover have "drop (Suc i) us = us ! Suc i # drop (Suc (Suc i)) us" using u(3) by (simp add: Cons_nth_drop_Suc)
    moreover have "scalar n" "65535 < n" using u n by (auto simp: scalar_def)
    ultimately show ?thesis using here by (simp add: word_unat)
  qed
qed

lemma fill_offsets_units:
  "fill_offsets us i b offs = Inr r \<Longrightarrow> i \<le> length us \<Longrightarrow> \<exists>ns. list_all scalar ns \<and> drop i us = source_units ns"
proof (induction us i b offs rule: fill_offsets.induct)
  case (1 us i b offs)
  show ?case
  proof (cases "i < length us")
    case True
    let ?n = "codePointAt us i"
    have ok: "\<not> (55296 \<le> ?n \<and> ?n \<le> 57343)" using 1(2) True by (subst (asm) fill_offsets.simps) (auto simp: Let_def guard_fail_def)
    note cases = codePointAt_cases [OF True refl ok]
    have "i + (if 65535 < ?n then 2 else 1) \<le> length us"
      using True cases by (cases "65535 < ?n") (auto simp: point_units_def dest: arg_cong [where f = length])
    moreover have "fill_offsets us (i + (if 65535 < ?n then 2 else 1)) (b + point_width ?n)
        (if (if 65535 < ?n then 2 else 1 :: nat) = 2 then offs[i := word_of_nat b, Suc i := NO_OFFSET] else offs[i := word_of_nat b]) = Inr r"
      using 1(2) True ok by (subst (asm) fill_offsets.simps) (simp add: Let_def guard_fail_def)
    ultimately obtain ns where "list_all scalar ns" "drop (i + (if 65535 < ?n then 2 else 1)) us = source_units ns"
      using 1(1) [OF True refl refl refl] by blast
    then show ?thesis using cases by (intro exI [of _ "?n # ns"]) simp
  next
    case False
    then show ?thesis by (intro exI [of _ "[]"]) simp
  qed
qed

lemma source_ranges_sound: "utf8_source_ranges us = Inr offs \<Longrightarrow> \<exists>ns. list_all scalar ns \<and> us = source_units ns \<and> offs = offsets_of 0 ns"
  using fill_offsets_units [of us 0 0 "replicate (Suc (length us)) 0" offs] source_ranges_result
  by (auto simp: utf8_source_ranges_def)

lemma fill_offsets_error: "fill_offsets us i b offs = Inl e \<Longrightarrow> e = BridgeError ''SOURCE_ENCODING_UNSUPPORTED''"
proof (induction us i b offs rule: fill_offsets.induct)
  case (1 us i b offs)
  show ?case
  proof (cases "i < length us \<and> \<not> (55296 \<le> codePointAt us i \<and> codePointAt us i \<le> 57343)")
    case True
    then show ?thesis using 1(1) [OF _ refl refl refl] 1(2) by (subst (asm) fill_offsets.simps) (auto simp: Let_def guard_fail_def)
  next
    case False
    then show ?thesis using 1(2) by (subst (asm) fill_offsets.simps) (auto simp: Let_def guard_fail_def split: if_splits)
  qed
qed

lemma bytes_of_units: "length (utf8 ns) \<le> 3 * length (units ns)"
  by (induction ns) (auto simp: point_bytes_def point_units_def)

lemma prefix_bytes: "k \<le> m \<Longrightarrow> length (utf8 (take k ns)) \<le> length (utf8 (take m ns))"
proof -
  assume "k \<le> m"
  then have "take m ns = take k ns @ drop k (take m ns)" by (metis append_take_drop_id min.absorb1 take_take)
  then have "utf8 (take m ns) = utf8 (take k ns) @ utf8 (drop k (take m ns))" by (metis utf8_def map_append concat_append)
  then show ?thesis by simp
qed

text \<open>The longest string of the engine has 536870888 code units.\<close>

definition MAX_STRING_UNITS :: nat where "MAX_STRING_UNITS = 536870888"

lemma byte_range_prefixes:
  assumes "length (units ns) \<le> MAX_STRING_UNITS" "k \<le> m" "m \<le> length ns"
  shows "byteRange (offsets_of 0 ns) (int (length (units (take k ns)))) (int (length (units (take m ns))))
    = Inr (length (utf8 (take k ns)), length (utf8 (take m ns)))"
proof -
  have small: "length (units ns) \<le> 9007199254740991" "length (utf8 ns) < 4294967295"
    using assms(1) bytes_of_units [of ns] by (simp_all add: MAX_STRING_UNITS_def)
  show ?thesis
    using byte_offset_prefix [OF small] assms(2,3) prefix_bytes [OF assms(2), of ns] by (simp add: byteRange_def guard_fail_def)
qed

lemma source_ranges_cases:
  "case utf8_source_ranges us of
     Inl e \<Rightarrow> e = BridgeError ''SOURCE_ENCODING_UNSUPPORTED'' \<and> (\<nexists>ns. list_all scalar ns \<and> us = source_units ns)
   | Inr offs \<Rightarrow> \<exists>ns. list_all scalar ns \<and> us = source_units ns \<and> offs = offsets_of 0 ns"
proof (cases "utf8_source_ranges us")
  case (Inl e)
  have "\<nexists>ns. list_all scalar ns \<and> us = source_units ns" using Inl source_ranges_result by auto
  moreover have "e = BridgeError ''SOURCE_ENCODING_UNSUPPORTED''" using Inl unfolding utf8_source_ranges_def by (rule fill_offsets_error)
  ultimately show ?thesis using Inl by simp
next
  case (Inr offs)
  then show ?thesis using source_ranges_sound [OF Inr] by simp
qed

end
