(* ===== verification/Inventory_Page.thy ===== *)
theory Inventory_Page
  imports Utf8_Text "HOL-Library.Product_Lexorder"
begin

text \<open>
  A bounded page of source paths (src/src/observation/inventory-selection.ts): the least paths
  after the cursor, prioritised ones first, and the cursor the next page continues from. The
  order of paths is that of their code units.
\<close>

section \<open>The page\<close>

record source_page =
  sp_limit :: nat
  sp_after :: "string option"
  sp_priority :: "(string \<times> nat) list"
  sp_paths :: "string list"
  sp_overflow :: bool

fun add_priority :: "string \<Rightarrow> (string \<times> nat) list \<Rightarrow> (string \<times> nat) list" where
  "add_priority path m = (if map_of m path = None then m @ [(path, length m)] else m)"

definition new_page :: "int \<Rightarrow> string option \<Rightarrow> string list option \<Rightarrow> source_page res" where
  "new_page limit after priority =
     andThen (guard_fail (limit < 1 \<or> 256 < limit \<or> (\<exists>ps \<in> set_option priority. 256 < length ps)) ''STRUCTURAL_INVENTORY_LIMIT_INVALID'') (\<lambda>_.
     andThen (guard_fail (\<exists>a \<in> set_option after. 4096 < length a \<or> CHR 0x00 \<in> set a) ''STRUCTURAL_INVENTORY_CURSOR_INVALID'') (\<lambda>_.
     Inr \<lparr>sp_limit = nat limit, sp_after = after,
       sp_priority = fold add_priority (if after = None then (case priority of None \<Rightarrow> [] | Some ps \<Rightarrow> ps) else []) [],
       sp_paths = [], sp_overflow = False\<rparr>))"

definition page_compare :: "(string \<times> nat) list \<Rightarrow> string \<Rightarrow> string \<Rightarrow> int" where
  "page_compare pr a b =
     (case (map_of pr a, map_of pr b) of
        (None, None) \<Rightarrow> (if js_less a b then -1 else if js_less b a then 1 else 0)
      | (None, Some r) \<Rightarrow> 1
      | (Some l, None) \<Rightarrow> -1
      | (Some l, Some r) \<Rightarrow> int l - int r)"

text \<open>\<open>[...xs].sort(compare)\<close>: stable.\<close>

fun insert_by :: "('a \<Rightarrow> 'a \<Rightarrow> int) \<Rightarrow> 'a \<Rightarrow> 'a list \<Rightarrow> 'a list" where
  "insert_by cmp x [] = [x]"
| "insert_by cmp x (y # ys) = (if cmp x y \<le> 0 then x # y # ys else y # insert_by cmp x ys)"

definition sort_by :: "('a \<Rightarrow> 'a \<Rightarrow> int) \<Rightarrow> 'a list \<Rightarrow> 'a list" where
  "sort_by cmp xs = foldr (insert_by cmp) xs []"

definition add_path :: "string \<Rightarrow> source_page \<Rightarrow> source_page" where
  "add_path path s =
     (if (\<exists>a \<in> set_option (sp_after s). \<not> js_less a path) \<or> path \<in> set (sp_paths s) then s
      else if length (sp_paths s) < sp_limit s then s\<lparr>sp_paths := sp_paths s @ [path]\<rparr>
      else let largest = last (sort_by (page_compare (sp_priority s)) (sp_paths s)) in
        if page_compare (sp_priority s) path largest < 0
        then s\<lparr>sp_overflow := True, sp_paths := filter (\<lambda>p. p \<noteq> largest) (sp_paths s) @ [path]\<rparr>
        else s\<lparr>sp_overflow := True\<rparr>)"

definition removeBeneath :: "string \<Rightarrow> source_page \<Rightarrow> source_page" where
  "removeBeneath boundary s = s\<lparr>sp_paths := filter (\<lambda>p. \<not> (p = boundary \<or> starts_with p (boundary @ ''/''))) (sp_paths s)\<rparr>"

definition page_result :: "bool \<Rightarrow> source_page \<Rightarrow> string list \<times> string option" where
  "page_result further s =
     (let paths = sort_by (page_compare (sp_priority s)) (sp_paths s);
          ordinary = filter (\<lambda>p. map_of (sp_priority s) p = None) paths;
          cursor = (if ordinary \<noteq> [] then last ordinary else case sp_after s of Some a \<Rightarrow> a | None \<Rightarrow> []) in
      (paths, if (sp_overflow s \<or> further) \<and> paths \<noteq> [] then Some cursor else None))"

section \<open>The order of a page\<close>

definition page_key :: "(string \<times> nat) list \<Rightarrow> string \<Rightarrow> nat \<times> nat \<times> nat list" where
  "page_key pr x = (case map_of pr x of Some n \<Rightarrow> (0, n, []) | None \<Rightarrow> (1, 0, utf16 x))"

lemma compare_key: "(page_compare pr a b < 0) = (page_key pr a < page_key pr b)" "(page_compare pr a b \<le> 0) = (page_key pr a \<le> page_key pr b)"
  by (auto simp: page_compare_def page_key_def js_less_def less_prod_def less_eq_prod_def split: option.split)

lemma sort_by_key: "(\<And>a b. (cmp a b \<le> 0) = (f a \<le> f b)) \<Longrightarrow> sort_by cmp xs = sort_key f xs"
proof -
  assume cmp: "\<And>a b. (cmp a b \<le> 0) = (f a \<le> f b)"
  have "insert_by cmp x ys = insort_key f x ys" for x ys by (induction ys) (auto simp: cmp)
  then have "insert_by cmp = insort_key f" by (intro ext)
  then show ?thesis by (simp add: sort_by_def sort_key_def)
qed

lemma page_sort: "sort_by (page_compare pr) xs = sort_key (page_key pr) xs"
  by (rule sort_by_key) (rule compare_key(2))

lemma last_largest: "x \<in> set xs \<Longrightarrow> page_key pr x \<le> page_key pr (last (sort_key (page_key pr) xs))"
proof -
  assume x: "x \<in> set xs"
  let ?ys = "sort_key (page_key pr) xs"
  have "sorted (map (page_key pr) ?ys)" by simp
  moreover obtain k where k: "k < length ?ys" "?ys ! k = x" using x by (metis in_set_conv_nth set_sort)
  ultimately have "map (page_key pr) ?ys ! k \<le> map (page_key pr) ?ys ! (length ?ys - 1)"
    by (intro sorted_nth_mono) auto
  moreover have "?ys \<noteq> []" using x by (metis empty_iff empty_set set_sort)
  ultimately show ?thesis using k by (simp add: last_conv_nth)
qed

lemma length_filter_other: "distinct xs \<Longrightarrow> x \<in> set xs \<Longrightarrow> length (filter (\<lambda>p. p \<noteq> x) xs) = length xs - 1"
proof -
  assume "distinct xs" "x \<in> set xs"
  moreover have "filter (\<lambda>p. p \<noteq> x) xs = removeAll x xs" by (induction xs) auto
  ultimately show ?thesis by (simp add: distinct_remove1_removeAll [symmetric] length_remove1)
qed

section \<open>What a page holds\<close>

definition eligible :: "string option \<Rightarrow> string \<Rightarrow> bool" where
  "eligible after x = (\<forall>a \<in> set_option after. js_less a x)"

text \<open>Whatever was added and has its place after the cursor is on the page, or the page is full of
  paths before it.\<close>

definition page_holds :: "string set \<Rightarrow> source_page \<Rightarrow> bool" where
  "page_holds added s = (distinct (sp_paths s) \<and> 0 < sp_limit s \<and> length (sp_paths s) \<le> sp_limit s
     \<and> set (sp_paths s) \<subseteq> {x \<in> added. eligible (sp_after s) x}
     \<and> (\<forall>x \<in> added. eligible (sp_after s) x \<longrightarrow> x \<notin> set (sp_paths s) \<longrightarrow>
          sp_overflow s \<and> length (sp_paths s) = sp_limit s \<and> (\<forall>y \<in> set (sp_paths s). page_key (sp_priority s) y \<le> page_key (sp_priority s) x)))"

lemma new_page_holds: "new_page limit after priority = Inr s \<Longrightarrow> page_holds {} s"
  by (auto simp: new_page_def andThen_Inr_iff guard_fail_Inr page_holds_def)

lemma add_path_holds:
  assumes s: "page_holds added s"
  shows "page_holds (insert path added) (add_path path s)"
proof (cases "eligible (sp_after s) path \<and> path \<notin> set (sp_paths s)")
  case False
  then have "add_path path s = s" by (auto simp: add_path_def eligible_def)
  then show ?thesis using s False by (auto simp: page_holds_def)
next
  case True
  then have ok: "\<not> ((\<exists>a \<in> set_option (sp_after s). \<not> js_less a path) \<or> path \<in> set (sp_paths s))" by (auto simp: eligible_def)
  let ?pr = "sp_priority s"
  let ?largest = "last (sort_key (page_key ?pr) (sp_paths s))"
  show ?thesis
  proof (cases "length (sp_paths s) < sp_limit s")
    case less: True
    then show ?thesis using s True ok by (auto simp: add_path_def page_holds_def)
  next
    case full: False
    have nonempty: "sp_paths s \<noteq> []" using full s by (auto simp: page_holds_def)
    then have mem: "?largest \<in> set (sp_paths s)" by (metis last_in_set set_sort set_empty)
    have top: "page_key ?pr y \<le> page_key ?pr ?largest" if "y \<in> set (sp_paths s)" for y using that by (rule last_largest)
    show ?thesis
    proof (cases "page_key ?pr path < page_key ?pr ?largest")
      case smaller: True
      let ?kept = "filter (\<lambda>p. p \<noteq> ?largest) (sp_paths s) @ [path]"
      have step: "add_path path s = s\<lparr>sp_overflow := True, sp_paths := ?kept\<rparr>"
        using ok full smaller by (simp add: add_path_def page_sort compare_key Let_def)
      have raw: "distinct (sp_paths s)" "length (sp_paths s) = sp_limit s" "0 < sp_limit s"
        using s full by (auto simp: page_holds_def)
      have len: "length ?kept = sp_limit s" using length_filter_other [OF raw(1) mem] raw(2,3) by simp
      have below: "page_key ?pr y \<le> page_key ?pr x" if x: "x \<in> insert path added" "eligible (sp_after s) x" "x \<notin> set ?kept" and y: "y \<in> set ?kept" for x y
      proof -
        have "page_key ?pr ?largest \<le> page_key ?pr x"
          using x s mem by (cases "x = ?largest") (auto simp: page_holds_def)
        moreover have "page_key ?pr y \<le> page_key ?pr ?largest" using y smaller top by auto
        ultimately show ?thesis by simp
      qed
      have sub: "set ?kept \<subseteq> {x \<in> insert path added. eligible (sp_after s) x}" "distinct ?kept"
        using s True by (auto simp: page_holds_def)
      show ?thesis
        unfolding page_holds_def step using sub below len raw(3) by simp
    next
      case larger: False
      then show ?thesis using s True ok full top
        by (auto simp: add_path_def page_holds_def page_sort compare_key Let_def not_less intro: order_trans)
    qed
  qed
qed

lemma add_paths_hold: "page_holds added s \<Longrightarrow> page_holds (added \<union> set xs) (fold add_path xs s)"
proof (induction xs arbitrary: added s)
  case (Cons x xs)
  from Cons.IH [OF add_path_holds [OF Cons.prems, of x]] show ?case by simp
qed simp

lemma add_path_frame [simp]: "sp_after (add_path x s) = sp_after s" "sp_priority (add_path x s) = sp_priority s" "sp_limit (add_path x s) = sp_limit s"
  by (simp_all add: add_path_def Let_def)

lemma add_paths_frame [simp]: "sp_after (fold add_path xs s) = sp_after s" "sp_priority (fold add_path xs s) = sp_priority s"
  "sp_limit (fold add_path xs s) = sp_limit s"
  by (induction xs arbitrary: s) simp_all

section \<open>The continuation\<close>

lemma js_less_empty: "x \<noteq> [] \<Longrightarrow> well_formed x \<Longrightarrow> js_less [] x"
proof -
  assume "x \<noteq> []" "well_formed x"
  moreover have "well_formed []" by (auto simp: well_formed_def intro: exI [of _ "[]"])
  ultimately have "utf16 x \<noteq> utf16 []" using inj_onD [OF utf16_inj_on, of x "[]"] by auto
  then show ?thesis by (cases "utf16 x") (simp_all add: js_less_def)
qed

lemma ordinary_below:
  assumes s: "page_holds added s" and x: "x \<in> added" "eligible (sp_after s) x" "x \<notin> set (sp_paths s)" and formed: "\<forall>y \<in> added. well_formed y"
    and c: "c \<in> set (sp_paths s)" "map_of (sp_priority s) c = None"
  shows "js_less c x"
proof -
  have "c \<in> added" "page_key (sp_priority s) c \<le> page_key (sp_priority s) x" using s x c(1) by (auto simp: page_holds_def)
  moreover have "utf16 c \<noteq> utf16 x" using utf16_inj_on formed x(1,3) c(1) calculation(1) by (auto dest: inj_onD)
  ultimately show ?thesis using c(2) by (auto simp: page_key_def js_less_def split: option.split_asm)
qed

lemma page_continues:
  assumes s: "page_holds added s" and formed: "\<forall>y \<in> added. well_formed y"
    and x: "x \<in> added" "eligible (sp_after s) x" "x \<noteq> []"
  shows "x \<in> set (fst (page_result further s)) \<or> (\<exists>c. snd (page_result further s) = Some c \<and> js_less c x)"
proof (cases "x \<in> set (sp_paths s)")
  case False
  let ?paths = "sort_key (page_key (sp_priority s)) (sp_paths s)"
  let ?ordinary = "filter (\<lambda>p. map_of (sp_priority s) p = None) ?paths"
  let ?c = "if ?ordinary \<noteq> [] then last ?ordinary else case sp_after s of Some a \<Rightarrow> a | None \<Rightarrow> []"
  have full: "sp_overflow s" "sp_paths s \<noteq> []" using s x False by (auto simp: page_holds_def)
  have "js_less ?c x"
  proof (cases "?ordinary = []")
    case True
    then show ?thesis using x js_less_empty formed by (auto simp: eligible_def split: option.split)
  next
    case some: False
    then have "last ?ordinary \<in> set ?ordinary" by (rule last_in_set)
    then show ?thesis using some ordinary_below [OF s x(1,2) False formed] by simp
  qed
  moreover have "?paths \<noteq> []" using full(2) by (metis set_sort set_empty)
  ultimately show ?thesis using full(1) by (simp add: page_result_def page_sort Let_def)
qed (simp add: page_result_def page_sort Let_def)

end
