(* ===== verification/Examples_Sources.thy ===== *)
theory Examples_Sources
  imports Captured_Sources Inventory_Page
begin

text \<open>
  Concrete captures, texts and pages of paths for the witnesses, and a page that skips a path
  once a boundary was found.
\<close>

section \<open>A cache that is full\<close>

definition demo_capture_of :: "nat \<Rightarrow> cached_pair" where
  "demo_capture_of n = \<lparr>ca_work = ''w1'', ca_revision = 1,
     ca_input = Absent_file (Git_source ''repo'' Sha1 (replicate 40 (CHR ''a'')) (replicate 40 (CHR ''b'')) ''a.ts''),
     ca_observed = Present_file \<lparr>pf_source = Working_source ''repo'' Sha1 ''w'' 1 ''g'' 1 ''h'' ''a.ts'', pf_mode = ''100644'',
       pf_sha = replicate 64 (CHR ''c''), pf_bytes = n, pf_text = replicate n (CHR ''x''), pf_consistency = Sampled_file, pf_blob = None\<rparr>\<rparr>"

definition demo_crowded :: pair_cache where
  "demo_crowded = \<lparr>ce_entries = [(''1'', demo_capture_of 40000000), (''2'', demo_capture_of 20000000)], ce_bytes = 60000000\<rparr>"

lemma demo_capture_bytes [simp]: "pairBytes (demo_capture_of n) = n"
  by (simp add: demo_capture_of_def pairBytes_def)

lemma demo_crowded_reached: "cache_reached demo_crowded"
proof -
  let ?one = "\<lparr>ce_entries = [(''1'', demo_capture_of 40000000)], ce_bytes = 40000000\<rparr>"
  have "put ''1'' (demo_capture_of 40000000) empty_cache = Some (Inr (?one, ''1''))"
    by (simp add: put_def empty_cache_def make_room.simps crowded_def MAX_CAPTURE_BYTES_def MAX_CAPTURE_PAIRS_def)
  from cache_reached.put [OF cache_reached.start _ this] have one: "cache_reached ?one" by (simp add: empty_cache_def)
  have "put ''2'' (demo_capture_of 20000000) ?one = Some (Inr (demo_crowded, ''2''))"
    by (simp add: put_def demo_crowded_def make_room.simps crowded_def MAX_CAPTURE_BYTES_def MAX_CAPTURE_PAIRS_def)
  from cache_reached.put [OF one _ this] show ?thesis by simp
qed

section \<open>A text with a supplementary character\<close>

text \<open>The letter a, the character U+1F600 and the letter \<open>\<Pi>\<close>, as the parser sees them.\<close>

definition demo_points :: "nat list" where "demo_points = [97, 128512, 928]"

lemma demo_units: "source_units demo_points = [97, 55357, 56832, 928]"
  by (simp add: demo_points_def source_units_def point_units_def)

section \<open>Pages of paths\<close>

definition demo_page :: "string option \<Rightarrow> source_page" where
  "demo_page after = \<lparr>sp_limit = 2, sp_after = after, sp_priority = [], sp_paths = [], sp_overflow = False\<rparr>"

lemma demo_new_page: "new_page 2 None None = Inr (demo_page None)"
  by (simp add: new_page_def guard_fail_def demo_page_def)

lemma ascii_formed: "list_all (\<lambda>c. of_char c < (128 :: nat)) s \<Longrightarrow> well_formed s"
proof -
  assume ascii: "list_all (\<lambda>c. of_char c < (128 :: nat)) s"
  then have "list_all scalar (map of_char s) \<and> s = utf8 (map of_char s)"
    by (induction s) (auto simp: scalar_def point_bytes_def)
  then show ?thesis unfolding well_formed_def by blast
qed

text \<open>A boundary found after a path found no room: the page that had room for it in the end neither
  lists it nor is continued before it.\<close>

lemma late_boundary_skips:
  "page_result False (add_path ''d'' (removeBeneath ''b'' (fold add_path [''a'', ''b/x'', ''c''] (demo_page None)))) = ([''a'', ''d''], Some ''d'')"
  by code_simp

end
