(* ===== verification/Spec2Isabelle.thy ===== *)
theory Spec2Isabelle
  imports Examples_Requests Peer_Operations Publication_Limits Shown_Overlaps Examples_Observation Task_Examples Examples_Sources
begin

text \<open>
  Passeur delegates coding tasks to agent processes and lets their sessions coordinate. This
  library models the parts of it that decide: the coordination record of a repository and the
  service over it (src/src/contracts/coordination-control.ts, src/src/coordination/), its durable
  store (src/src/store/coordination-store.ts), the control of one task (src/src/core/task-control.ts,
  input-broker.ts, coordinator.ts), and the comparison of observed declarations
  (src/src/observation/).

  How the parts interact. A worker or an operator sends a command to the coordination service. A
  section under the service's mutex reads the record from the store, decides on it, and publishes
  the next record; the store checks that the next record is one its reader accepts and one that
  may follow, and replaces the file by a rename. Beside the record the service keeps in memory
  which tasks and cases are in transition. Each task has a control of its own, changed under the
  task's lock: clients answer its inputs and cancel it, the coordinator reports native events to
  it, queues and dispatches deliveries of peers, and ends it with a result. A peer publication
  holds the controls of its recipients while it is made. Observed changes of declarations are
  compared file by file and indexed, so that two works on one declaration learn of each other.

  \<^bold>\<open>Conventions.\<close> A TypeScript type is a \<open>record\<close> or \<open>datatype\<close> with the source's fields and
  alternatives under a short prefix; an optional property is an \<open>option\<close>; a string is the list of
  its UTF-8 bytes, so that the byte bounds of the code are lengths (\<open>utf16\<close> gives the code units
  where the code orders or counts by those); a safe integer is a \<open>nat\<close> or \<open>int\<close> with its bound
  written out; a \<open>Map\<close> is an association list in insertion order. A thrown \<open>BridgeError\<close> is
  \<open>Inl (BridgeError code)\<close>, a \<open>TypeError\<close> is \<open>Inl JsError\<close>. \<open>structuredClone\<close> and mutation of the
  draft is passing the next state; a section under a mutex or lock is one atomic step. SHA-256 is
  the argument \<open>sha\<close>, the formats decided by the schema library are the argument \<open>formats\<close>, a fresh
  UUID and the time are arguments, and what the file system or another component answered is an
  argument as well. Where the code compares by hash, the model compares the hashes.

  \<^bold>\<open>Foundations.\<close> Prelude: results, errors, list lemmas and the rule collections. Json: JavaScript
  values, \<open>JSON.stringify\<close> and \<open>JSON.parse\<close> (with fuel: the length of the text, which every nested
  value shortens), the canonical value that is hashed; a number literal with a fraction is never
  read as an integer, though JavaScript rounds one that is close enough. Json_Roundtrip: parsing a
  printed value gives it back. Json_Canonical: what a canonical text tells of an object's fields.

  \<^bold>\<open>The coordination record\<close> (src/src/contracts/coordination-control.ts). Control_Types: the data and
  its JSON. Control_Decode: the decoders. Control_Wf, Control_Wf_Cases: what they accept, both
  ways. Control_Check: \<open>decodeControl\<close>, the reader. Control_Transition: \<open>assertControlTransition\<close>,
  which record may follow which. Control_Text, Control_History: the stored text reads back; what
  every chain of publications keeps. Peer_Resolution, Peer_Encoding, Peer_Operations: the records
  peers retain in notes (src/src/coordination/peer-resolution.ts) and the operations workers ask
  of peers (src/src/contracts/peer-operations.ts).

  \<^bold>\<open>Commands\<close> (src/src/coordination/control.ts). Peer_Lineage, Control_Apply, Control_Commit: who may
  see what, the effect of each command, the record that is published. Control_Frame,
  Control_Accept, Control_Publish, Control_Publish_Cases, Control_Follow: every accepted command
  yields a record the reader accepts and that may follow. Submission_Inputs, Submission,
  Submission_Accept, Submission_Keeps, Submission_Ops, Submission_Ends, Submission_Follow,
  Submission_Service: the same for announcements and bindings. Publication_Limits: the conditions
  that the service leaves to the reader, each necessary and sufficient for the record to be
  accepted, and the relation \<open>recorded\<close> of the records that the service reaches.

  \<^bold>\<open>Store and service.\<close> Control_Store, Store_Chain: the durable store over a file system whose
  answers and failures are arguments; through failures, closings and reopenings the stored record
  stays on a chain of checked publications. Control_Ledger: the section around every decision,
  over the locale \<open>ledger\<close>, interpreted on the store. Service_Memory, Control_Service,
  Service_Observed, Service_Commands, Service_Recovery, Control_Reads: memory, commands,
  extensions, deliveries, operator recovery, and what reading discloses. Shown_Overlaps: which
  overlaps an actor is shown.

  \<^bold>\<open>The control of a task.\<close> Task_Types: the data, its JSON and its schema (src/src/contracts/tasks.ts,
  peer-delivery.ts). Task_Control: commits, ownership, receipts, cancellation, adoption, the
  completion fence and the fence of publications (src/src/core/task-control.ts). Task_Inputs: the
  input broker (src/src/core/input-broker.ts). Task_Events, Task_Peers, Task_Ends: what the
  coordinator changes (src/src/core/coordinator.ts). Task_Keeps, Task_Steps, Task_Event_Steps,
  Task_Slots: every operation, under the condition \<open>op_admits\<close> that names what the code leaves
  unchecked, leaves a control its schema accepts (locale \<open>control_operation\<close>, interpreted once per
  operation). Task_Lasting: what no operation loses (locale \<open>lasting_operation\<close>). Task_History: the
  operations as one type and the relation \<open>controlled\<close> of the controls that commits and published
  results reach. Task_Safety, Task_Completion, Task_Fences: answers, dispatches, completion,
  cancellation, slots and publications along those histories; Task_Completion compares the fence
  of a completion with a statement over the fields of deliveries and slots.

  \<^bold>\<open>Observation.\<close> Structural_Match, Structural_Facts: the comparison of two captures
  (src/src/observation/match.ts). Correspondence, Correspondence_Facts: the index of works that
  changed one declaration (src/src/observation/correspondence.ts), its refinement of a search of
  the reports, and its bounds. Captured_Sources: the cache of captured pairs
  (src/src/observation/cache.ts), whose evicting loop is a \<open>partial_function\<close>, so that it returns is
  a theorem. Utf8_Text: the offsets of a source text (src/src/observation/ranges.ts), over code
  points, bytes and code units. Inventory_Page: the pages of source paths
  (src/src/observation/inventory-selection.ts).
  Examples, Examples_Service, Examples_Requests, Examples_Observation, Examples_Sources,
  Task_Examples: concrete values at which the properties are applied.

  \<^bold>\<open>Not modelled.\<close> The adapters that drive agent processes, the command line, sockets and process
  election, the Model Context Protocol surface, Git worktrees and the parsers of observed files:
  process, network and third-party glue. Of src/src/coordination/control.ts the operations that
  workers ask of peers (lines 533 to 797, 805 to 1024, 1111 to 1169 and 1409 to 1556): their
  requests, records and currency are modelled, the sections that publish them are not, so
  \<open>recorded\<close> speaks of the operations modelled here. Timers, deadlines and promises are scheduling;
  where a decision depends on one, its outcome is an argument. The result and resource records of
  a task are stored elsewhere: what they say when a task ends is an argument.
\<close>

section \<open>The coordination record\<close>

text \<open>C1: a command of an authenticated owner, on a record the reader accepts and under a new key, whose
  commit succeeds makes a record within the byte bound of the store. The service itself does not
  check that a claimed case has at most 64 members with its lead, that a note on a work is read by
  at most 64 parents with the work's owner, that a selection still names the works whose deliveries
  or disclosures the case records and has the works' object formats, or that a task's identity is
  not yet an item's. The stored text reads back unchanged exactly if these conditions of the
  command (publishable) hold, and then the record may follow its predecessor; otherwise the
  reader, which the store asks first, refuses it.\<close>

theorem committed_record_is_readable:
  assumes "requested sha s p cmd fresh" and "commit sha s p cmd observed fresh = Inr (t, r)"
  shows "(load_control sha (control_text t) (cs_repository_id s) = Inr t) = publishable s p cmd observed
    \<and> (publishable s p cmd observed \<longrightarrow> assertControlTransition sha s t = Inr ()) \<and> length (control_text t) \<le> CONTROL_MAX_BYTES"
proof -
  note accepted = commit_accepted_iff [OF assms]
  have "cs_repository_id t = cs_repository_id s"
    by (rule commit_InrD [OF assms(2)]) (simp add: same_rest_def)
  then have "(load_control sha (control_text t) (cs_repository_id s) = Inr t) = control_ok sha t"
    using load_control_text [of sha t] load_control_sound [of sha "control_text t"] by auto
  moreover have "checkCapacity t = Inr ()" by (rule commit_InrD [OF assms(2)])
  ultimately show ?thesis using accepted checkCapacityD(6) [of t] by simp
qed

theorem committed_record_is_readable_witness:
  "load_control demo_sha (control_text demo_one) ''repo'' = Inr demo_one
    \<and> assertControlTransition demo_sha demo_empty demo_one = Inr () \<and> length (control_text demo_one) \<le> CONTROL_MAX_BYTES"
  using committed_record_is_readable [OF _ demo_register_commits] demo_register_committing
  by (simp add: committing_iff demo_empty_def)

text \<open>C2: whatever value the reader accepted, the text stored for the record it returned
  reads back as the same record.\<close>

theorem stored_record_reads_back:
  assumes "decodeControl sha v repo = Inr s"
  shows "load_control sha (control_text s) repo = Inr s"
  using load_control_text decodeControl_sound [OF assms] by blast

theorem stored_record_reads_back_witness:
  "load_control demo_sha (control_text demo_one) ''repo'' = Inr demo_one"
proof -
  have "decodeControl demo_sha (control_json demo_one) (cs_repository_id demo_one) = Inr demo_one"
    by (rule decodeControl_json [OF demo_one_ok])
  then have "load_control demo_sha (control_text demo_one) (cs_repository_id demo_one) = Inr demo_one"
    by (rule stored_record_reads_back)
  then show ?thesis by (simp add: demo_one_repository)
qed

text \<open>C3: a publication adds exactly one retained operation, stamped with the new revision,
  to exactly one of the three histories.\<close>

theorem publication_adds_one_operation:
  assumes "decodeControl sha v repo = Inr s" and "decodeControl sha u repo = Inr t"
    and "assertControlTransition sha s t = Inr ()"
  shows "next_operation s t"
  using publication_appends publication.publish decodeControl_sound assms by blast

theorem publication_adds_one_operation_witness: "next_operation demo_empty demo_one"
proof (rule publication_adds_one_operation)
  show "decodeControl demo_sha (control_json demo_empty) ''repo'' = Inr demo_empty"
    using decodeControl_json [OF demo_empty_ok] by (simp add: demo_empty_def)
  show "decodeControl demo_sha (control_json demo_one) ''repo'' = Inr demo_one"
    using decodeControl_json [OF demo_one_ok] by (simp add: demo_one_repository)
  show "assertControlTransition demo_sha demo_empty demo_one = Inr ()" by (rule demo_one_follows)
qed

text \<open>C4: over any chain of publications the histories only grow, every note keeps its words,
  author and audience, acknowledgments accumulate in order and a withdrawal is final.\<close>

theorem publications_preserve_notes:
  assumes "publications sha s t" and "find_note s i = Some n"
  shows "prefix (cs_receipts s) (cs_receipts t) \<and> (\<exists>m. find_note t i = Some m \<and> note_grows n m)"
  using publications_history publications_note assms by blast

theorem publications_preserve_notes_witness:
  "prefix (cs_receipts demo_two) (cs_receipts demo_three)
    \<and> (\<exists>m. find_note demo_three demo_note_id = Some m \<and> note_grows demo_note m)"
proof (rule publications_preserve_notes)
  show "publications demo_sha demo_two demo_three" using demo_three_published by (rule r_into_rtranclp)
  show "find_note demo_two demo_note_id = Some demo_note" by code_simp
qed

section \<open>Peer resolution\<close>

text \<open>C5: reading a retained note never fails: any text decodes to a record or is an
  ordinary note.\<close>

theorem retained_text_reads: "\<exists>r. retainedPeerRecord sha t = Inr r"
  by (rule retainedPeerRecord_total)

section \<open>The durable store\<close>

text \<open>C6: a checked publication whose write steps all succeed is acknowledged, and the next
  snapshot returns exactly the published record.\<close>

theorem checked_publication_is_acknowledged:
  assumes "snapshot sha st d = Inr s" and "control_ok sha t" and "assertControlTransition sha s t = Inr ()"
    and "length (control_text t) \<le> CONTROL_MAX_BYTES" and "assertMutable st authority = Inr ()" and "env = (\<lambda>_. Inr ())"
  shows "\<exists>d'. publish sha st d authority env (control_json s) (control_json t) = ((st, d'), Inr ()) \<and> snapshot sha st d' = Inr t"
  using publish_succeeds [OF assms(1-5), of env] assms(6) by auto

theorem checked_publication_is_acknowledged_witness:
  "\<exists>d'. publish demo_sha demo_store (demo_disk demo_one) (Inr ()) (\<lambda>_. Inr ()) (control_json demo_one) (control_json demo_two)
      = ((demo_store, d'), Inr ()) \<and> snapshot demo_sha demo_store d' = Inr demo_two"
  by (rule checked_publication_is_acknowledged [OF demo_snapshots(1) demo_two_ok demo_two_follows demo_sizes(2) demo_mutable refl])

text \<open>C7: a publication that fails leaves the handle and the disk untouched, or else it reports
  an uncertain outcome and the handle refuses every further mutation until it is reopened.\<close>

theorem failed_publication_is_contained:
  assumes "publish sha st d authority env expected candidate = ((st', d'), Inl e)"
  shows "(st', d') = (st, d) \<or> e = BridgeError ''COORDINATION_PUBLICATION_UNCERTAIN'' \<and> st_uncertain st'
    \<and> (\<forall>authority'. assertMutable st' authority' \<noteq> Inr ())"
  by (rule failed_publication [OF assms])

theorem failed_publication_is_contained_witness:
  "(demo_store\<lparr>st_uncertain := True\<rparr>, demo_disk demo_one) = (demo_store, demo_disk demo_one)
    \<or> BridgeError ''COORDINATION_PUBLICATION_UNCERTAIN'' = BridgeError ''COORDINATION_PUBLICATION_UNCERTAIN''
      \<and> st_uncertain (demo_store\<lparr>st_uncertain := True\<rparr>)
      \<and> (\<forall>authority'. assertMutable (demo_store\<lparr>st_uncertain := True\<rparr>) authority' \<noteq> Inr ())"
  by (rule failed_publication_is_contained [OF demo_rename_fails])

text \<open>C8: whatever sequence of publications, failures, closings and reopenings a store goes
  through, the record on disk is one that a chain of checked publications leads to.\<close>

theorem stored_record_is_published:
  assumes "(store_step sha)\<^sup>*\<^sup>* x y" and "reaches sha s0 x"
  shows "reaches sha s0 y"
  by (rule store_run_reaches [OF assms])

theorem stored_record_is_published_witness: "reaches demo_sha demo_one (demo_store, demo_disk demo_two)"
  by (rule stored_record_is_published [OF demo_store_run demo_reaches])

text \<open>C9: what one section acknowledged as published stays: after any further sections, with any
  outcomes, the stored record is one that follows the acknowledged one.\<close>

theorem acknowledged_publication_stays:
  assumes "serve store_ready (store_view sha) (store_put sha) x e d = (x', Inr a)"
    and "store_view sha x = Inr s" and "d s = Inr (Publication t b)" and "control_ok sha t"
  shows "\<exists>u. store_view sha (served store_ready (store_view sha) (store_put sha) x' ops) = Inr u \<and> publications sha t u"
  by (rule durable.acknowledged_stays [OF assms])

theorem acknowledged_publication_stays_witness:
  "\<exists>u. store_view demo_sha (served store_ready (store_view demo_sha) (store_put demo_sha) (demo_store, demo_disk demo_two)
      [(all_well, demo_section)]) = Inr u \<and> publications demo_sha demo_two u"
  by (rule acknowledged_publication_stays [OF demo_served demo_view demo_section_publishes demo_two_ok])

section \<open>Commands of the service\<close>

text \<open>C10: a command that the service executes on a record the reader accepts yields a record that is
  accepted exactly if the conditions hold that the service leaves to the reader (publishable, as
  listed for a commit), and then it may follow.\<close>

theorem executed_command_is_accepted:
  assumes "control_ok sha s" "sha_hex sha" "int (cs_revision s + 1) \<le> MAX_SAFE_INTEGER" "fresh_id s fresh"
    and "parentId actor = Inr p" "decodeCommand raw = Inr cmd"
    and "execute sha auth m0 s0 m s actor raw versions observed fresh = Inr (Publication t r)"
  shows "control_ok sha t = publishable s p cmd observed
    \<and> (publishable s p cmd observed \<longrightarrow> assertControlTransition sha s t = Inr ())"
  using execute_accepted_iff [OF assms] by blast

theorem executed_command_is_accepted_witness:
  "control_ok demo_sha demo_two \<and> assertControlTransition demo_sha demo_one demo_two = Inr ()"
  using executed_command_is_accepted [OF demo_one_ok demo_sha_hex demo_post_room(1,2) demo_post_request(1,2) demo_executes] demo_post_room(3) by simp

text \<open>C11: a key is answered once: after a command was published, a later run of the same request,
  in any later record and memory, yields the retained receipt or an error, never a second effect.\<close>

theorem repeated_command_replays:
  assumes "execute sha auth m0 s0 m s actor raw versions observed fresh = Inr (Publication t r)"
    and "control_ok sha u" "prefix (cs_receipts t) (cs_receipts u)"
    and "execute sha auth' m1 s1 m2 u actor raw versions' observed' fresh' = Inr x"
  shows "x = Retained r"
  by (rule execute_replays [OF assms])

theorem repeated_command_replays_witness: "Retained demo_posted = (Retained demo_posted :: receipt outcome_of)"
  by (rule repeated_command_replays [OF demo_executes demo_three_ok demo_three_receipts demo_repeats])

text \<open>C12: a retirement of an enrolled task that began after the source facts of a command were
  read refuses the publication of that command, at any later time.\<close>

theorem retirement_refuses_stale_sources:
  assumes "prepareSourceCommand sha m s actor raw = Inr (Inspect c ws versions)" and "t \<in> fst ` set versions"
    and "service_step\<^sup>*\<^sup>* (m, as) (m1, as1)" and "reserveRetirement m1 s1 traw = Inr (m2, t)" and "retired_works s1 t \<noteq> []"
    and "service_step\<^sup>*\<^sup>* (m2, as2) (m3, as3)"
  shows "executeCommand sha m3 u p cmd versions guard observed fresh \<noteq> Inr (Publication x r)"
  by (rule retirement_fences [OF assms])

theorem retirement_refuses_stale_sources_witness:
  "executeCommand demo_sha demo_retired demo_tasks demo_alice demo_select [(demo_id (CHR ''5''), 0)] None True demo_note_id
     \<noteq> Inr (Publication demo_tasks demo_posted)"
  by (rule retirement_refuses_stale_sources [OF demo_prepares _ rtranclp.rtrancl_refl demo_retires demo_enrolled rtranclp.rtrancl_refl]) simp

text \<open>C13: extending an observed case yields a record that is accepted and may follow exactly if the
  case had fewer than 64 inputs, which the service does not check, and its delivery fields are
  stored in the order in which they are first written (extension_room).\<close>

theorem extended_case_is_accepted:
  assumes "control_ok sha s" and "sha_hex sha" and "int (cs_revision s + 1) \<le> MAX_SAFE_INTEGER"
    and "extendObservedCase sha m s (JStr p) i = Inr (Publication t r)"
    and "xi_case_id i = JStr ci" and "find_case s ci = Some c"
  shows "(control_ok sha t \<and> assertControlTransition sha s t = Inr ()) = extension_room c"
  by (rule extension_accepted_iff [OF assms])

theorem extended_case_is_accepted_witness:
  "control_ok demo_sha demo_extended \<and> assertControlTransition demo_sha demo_observed demo_extended = Inr ()"
proof -
  have "int (cs_revision demo_observed + 1) \<le> MAX_SAFE_INTEGER" "xi_case_id demo_extension = JStr (demo_id (CHR ''7''))"
    "find_case demo_observed (demo_id (CHR ''7'')) = Some demo_case" "extension_room demo_case" by code_simp+
  then show ?thesis using extended_case_is_accepted [OF demo_observed_ok demo_sha_hex _ demo_extends] by blast
qed

text \<open>C14: recording the delivery to a task of an observed case yields a record that is accepted and
  may follow exactly if three conditions hold that the service does not check: the operation key
  names no recovery or submission of the owner, the observation digest has the form of a digest,
  and the case has observed fewer than 64 deliveries, its delivery fields in stored order
  (delivery_clear).\<close>

theorem delivered_case_is_accepted:
  assumes "control_ok sha s" and "sha_hex sha" and "int (cs_revision s + 1) \<le> MAX_SAFE_INTEGER"
    and "observeCaseDelivery sha s (JStr p) i guard = Inr (Publication t r)"
    and "yi_case_id i = JStr ci" and "find_case s ci = Some c"
  shows "(control_ok sha t \<and> assertControlTransition sha s t = Inr ()) = delivery_clear s p i c"
  by (rule delivery_accepted_iff [OF assms])

theorem delivered_case_is_accepted_witness:
  "control_ok demo_sha demo_delivered \<and> assertControlTransition demo_sha demo_extended demo_delivered = Inr ()"
  using delivered_case_is_accepted [OF demo_extended_ok demo_sha_hex _ demo_delivers] demo_delivery_facts
  by (simp add: delivery_clear_def)

text \<open>C15: an operator recovery yields a record that is accepted and may follow, unless the
  operator adopts a work for a parent to whom an observed case disclosed it.\<close>

theorem recovered_record_is_accepted:
  assumes "control_ok sha s" and "sha_hex sha" and "int (cs_revision s + 1) \<le> MAX_SAFE_INTEGER"
    and "recoverAuthorized sha m s actor raw = Inr (Publication t r)" and "adoption_undisclosed s (rv_action (rr_command r))"
  shows "control_ok sha t \<and> assertControlTransition sha s t = Inr ()"
proof -
  obtain p cmd where cmd: "recovering sha s p cmd" "recovered_record sha s p cmd = Inr (Publication t r)" "rr_command r = cmd"
    by (rule recover_Inr [OF assms(4,1-3)])
  then show ?thesis
    using recovery_accepted [OF cmd(1,2)] recovery_follows [OF cmd(1,2)] assms(5) by simp
qed

theorem recovered_record_is_accepted_witness:
  "control_ok demo_sha demo_recovered \<and> assertControlTransition demo_sha demo_observed demo_recovered = Inr ()"
  by (rule recovered_record_is_accepted [OF demo_observed_ok demo_sha_hex _ demo_recovers]) (rule demo_recovery_facts)+

text \<open>C16: recovery that adopts a work for such a parent makes a record no reader accepts.\<close>

theorem disclosed_adoption_is_rejected:
  assumes "control_ok sha s" and "recovered_record sha s p cmd = Inr (Publication t r)" and "\<not> adoption_undisclosed s (rv_action cmd)"
  shows "\<not> control_ok sha t"
  by (rule disclosed_adoption_rejected [OF assms])

theorem disclosed_adoption_is_rejected_witness: "\<not> control_ok demo_sha demo_adopted"
  by (rule disclosed_adoption_is_rejected [OF demo_extended_ok demo_adopts demo_disclosed])

section \<open>Submissions\<close>

text \<open>C17: from any record the service reaches, a submission operation that publishes (an announcement, a
  withdrawal, a binding, a disposition, terminal evidence) yields a record that is accepted and may
  follow, exactly if an announcement finds the list shorter than the limit of works, which the
  capacity check of the service does not measure.\<close>

theorem submission_is_accepted:
  assumes "recorded sha s" "sha_hex sha" "int (cs_revision s + 1) \<le> MAX_SAFE_INTEGER"
    and "submission_operation sha s actor req = Inr (Publication t x)"
  shows "(control_ok sha t \<and> assertControlTransition sha s t = Inr ()) = announcement_room s req"
  using submission_accepted_iff [OF assms] by (simp add: store_accepts_def)

theorem submission_is_accepted_witness: "control_ok demo_sha demo_announced \<and> assertControlTransition demo_sha demo_empty demo_announced = Inr ()"
proof -
  have "recorded demo_sha demo_empty" by (rule recorded.start [OF demo_empty_ok]) code_simp
  moreover have "int (cs_revision demo_empty + 1) \<le> MAX_SAFE_INTEGER" "announcement_room demo_empty (Announce_request demo_announcement_raw)"
    by code_simp+
  ultimately show ?thesis using submission_is_accepted [OF _ demo_sha_hex _ demo_announces] by blast
qed

text \<open>C18: a repeated submission request is answered, in any later record, with the item that its
  first run retained.\<close>

theorem repeated_submission_replays:
  assumes "control_ok sha u" "event_subjects_ok u" "control_ok sha s"
    and "submission_operation sha s actor req = Inr (Publication t x)" and "prefix (cs_events t) (cs_events u)"
  shows "\<exists>y. submission_operation sha u actor req = Inr (Retained y) \<and> item_identity y = item_identity x"
  by (rule operation_replays [OF assms])

theorem repeated_submission_replays_witness:
  "\<exists>y. submission_operation demo_sha demo_announced (JStr demo_alice) (Announce_request demo_announcement_raw) = Inr (Retained y)
    \<and> item_identity y = item_identity (Announcement_item demo_announcement)"
  by (rule repeated_submission_replays [OF demo_announced_ok demo_announced_subjects demo_empty_ok demo_announces]) simp

section \<open>Reservations and disclosure\<close>



text \<open>C20: two regions overlap exactly when some path lies in both.\<close>

theorem overlap_is_common_path: "overlap a b = (\<exists>q. covers a q \<and> covers b q)"
  by (rule overlap_common_path)

text \<open>C21: in a record of works with distinct identities, the overlaps an actor is shown for a work it
  may read are complete and exact: each other active
  work that the actor may read and that shares a path with the work appears once, with exactly
  those of its areas that share a path with an area of the work, and nothing else appears.\<close>

theorem shown_overlaps_are_exact:
  assumes "distinct (map w_id (cs_works s))" and "overlaps sha s (JStr p) (JStr j) = Inr xs"
  shows "\<exists>target \<in> set (cs_works s). w_id target = j \<and> canReadSelectedWork sha s p target \<and> distinct (map fst xs)
    \<and> (\<forall>i areas. (i, areas) \<in> set xs \<longleftrightarrow> areas \<noteq> [] \<and> (\<exists>w \<in> set (cs_works s). w_id w = i \<and> i \<noteq> j \<and> w_state w = Active
        \<and> canReadSelectedWork sha s p w
        \<and> areas = filter (\<lambda>a. \<exists>b \<in> set (w_areas target). \<exists>q. covers a q \<and> covers b q) (w_areas w)))"
  by (rule overlaps_exact [OF assms])

theorem shown_overlaps_are_exact_witness:
  "\<exists>w \<in> set (cs_works demo_shared). w_id w = demo_work_id \<and> w_state w = Active \<and> canReadSelectedWork demo_sha demo_shared demo_bob w"
proof -
  have "distinct (map w_id (cs_works demo_shared))" by code_simp
  from shown_overlaps_are_exact [OF this demo_overlaps] obtain target where
    "(demo_work_id, [\<lparr>r_kind = RFile, r_path = ''a''\<rparr>]) \<in> set [(demo_work_id, [\<lparr>r_kind = RFile, r_path = ''a''\<rparr>])] \<Longrightarrow>
      \<exists>w \<in> set (cs_works demo_shared). w_id w = demo_work_id \<and> w_state w = Active \<and> canReadSelectedWork demo_sha demo_shared demo_bob w"
    by blast
  then show ?thesis by simp
qed

text \<open>C22: the source of a work is opened to another parent only under a current grant, and its
  detail only under a detail grant.\<close>

theorem source_is_granted:
  assumes "sourceWork s (JStr p) raw detail = Inr w" and "w_owner w \<noteq> p"
  shows "w_state w = Active \<and> (\<exists>g \<in> set (work_grants w). g_recipient g = p \<and> g_work_revision g = w_revision w
    \<and> (detail \<longrightarrow> g_scope g = Detail_scope))"
  by (rule source_needs_grant [OF assms])

theorem source_is_granted_witness:
  "w_state demo_granted_work = Active \<and> (\<exists>g \<in> set (work_grants demo_granted_work). g_recipient g = demo_bob
    \<and> g_work_revision g = w_revision demo_granted_work \<and> (True \<longrightarrow> g_scope g = Detail_scope))"
  by (rule source_is_granted [OF demo_opens]) code_simp

section \<open>The control of a task\<close>

text \<open>C23: a commit of any operation on a storable task control, under the operation's conditions,
  never ends in the corrupt-store error: it leaves the control as it was, or it stores one
  that the reader accepts, at the next revision.\<close>

theorem admitted_operation_commits:
  assumes "storable sha z s" "int (tc_revision s) < MAX_SAFE_INTEGER" "instant_format z now" "op_admits sha z m opn s"
    and "control_draft sha z m now opn s = Inr (d, ())"
  shows "\<exists>t. change sha z now (control_draft sha z m now opn) s = Inr (t, ()) \<and> storable sha z t
    \<and> (t = s \<or> t = stamp now (Suc (tc_revision s)) d)"
  using operations.commits [OF assms] by blast

theorem admitted_operation_commits_witness:
  "\<exists>t. change phase_sha any_format ''t1'' (control_draft phase_sha any_format 8 ''t1'' (Op_answer [(''i1'', ''task'')] ''task'' ''i1'' demo_client 1 ''c1'' ''k1'' ''yes'')) demo_asked
      = Inr (t, ()) \<and> storable phase_sha any_format t \<and> (t = demo_asked \<or> t = stamp ''t1'' (Suc (tc_revision demo_asked)) demo_answered)"
proof (rule admitted_operation_commits [OF asked_storable])
  show "op_admits phase_sha any_format 8 (Op_answer [(''i1'', ''task'')] ''task'' ''i1'' demo_client 1 ''c1'' ''k1'' ''yes'') demo_asked"
    by (simp add: answer_admits_def phase_sha_def) (code_simp)
  show "control_draft phase_sha any_format 8 ''t1'' (Op_answer [(''i1'', ''task'')] ''task'' ''i1'' demo_client 1 ''c1'' ''k1'' ''yes'') demo_asked = Inr (demo_answered, ())"
    using demo_answers by (simp add: draft_only_def)
qed (simp_all add: demo_asked_def MAX_SAFE_INTEGER_def)

text \<open>C24: an answer that was stored stays the answer of its input along every later sequence of
  operations, and no later answer to that input is ever released to the agent.\<close>

theorem answer_is_released_once:
  assumes "change sha z now (answer_input sha m now ws task i actor g c k x) s = Inr (t, r, True)" "t \<noteq> s"
    and "controlled sha z m' t u"
  shows "(\<exists>y. find_input u i = Some y \<and> pi_answer y = Some x)
    \<and> answer_input sha m now' ws' task' i actor' g' c' k' x' u \<noteq> Inr (d, r', True)"
  using answered_history [OF assms] by (auto dest: answer_cases)

theorem answer_is_released_once_witness:
  "answer_input phase_sha 8 ''t2'' [(''i1'', ''task'')] ''task'' ''i1'' demo_client 1 ''c1'' ''k2'' ''no'' (stamp ''t1'' 4 demo_answered)
    \<noteq> Inr (demo_answered, demo_answer_receipt, True)"
  using answer_is_released_once [OF demo_answer_change demo_answer_stored controlled.same] by blast

text \<open>C25: an envelope that was handed out for dispatch, its intent stored, is not handed out again
  whatever is committed later, nor is another one with its key.\<close>

theorem delivery_is_dispatched_once:
  assumes "change sha z now (dispatch_next sha z now n h v) s = Inr (t, Dispatch_value e)" "t \<noteq> s"
    and "controlled sha z m t u" and "en_key e' = en_key e"
  shows "dispatch_next sha z now' n' h' v' u \<noteq> Inr (d, Dispatch_value e')"
  using dispatched_history [OF assms(1-3)] assms(4) by blast

theorem delivery_is_dispatched_once_witness:
  "dispatch_next delivery_sha any_format ''t3'' 2 demo_queued Valid_current (stamp ''t2'' 2 demo_dispatched) \<noteq> Inr (demo_ready, Dispatch_value demo_envelope)"
  by (rule delivery_is_dispatched_once [OF demo_dispatch_change demo_dispatch_stored controlled.same [where m = 8]]) simp

text \<open>C26: a cancelled task stays cancelled: along every sequence of operations it keeps its
  cancellation and its receipts, never completes, and takes no new input, claim, answer,
  start, slot or delivery.\<close>

theorem cancelled_task_stays_cancelled:
  assumes "storable sha z s" "tc_cancel s = Some c" "controlled sha z m s u"
  shows "tc_cancel u = Some c \<and> tc_outcome u \<noteq> Some Completed \<and> (\<exists>rs. tc_receipts u = tc_receipts s @ rs)
    \<and> requestInput sha d n f u = fail ''STALE_INPUT'' \<and> claim_input ws i actor g f u \<noteq> Inr (w, x)
    \<and> answer_input sha m now ws task i actor g k key reply u \<noteq> Inr (w, r, True) \<and> start_run u = fail ''TASK_CANCELLED''
    \<and> reservePeerDeliverySlots sha place b u = fail ''PEER_DELIVERY_STALE''
    \<and> queuePeerDelivery sha z now task (tc_revision u) e v q operation u = fail ''PEER_DELIVERY_CANCELLED''"
proof -
  have u: "storable sha z u" "lasting s u" using controlled_history [OF assms(3,1)] by auto
  then have c: "tc_cancel u = Some c" using assms(2) by (auto simp: lasting_def)
  have "tc_outcome u \<noteq> Some Completed" using storable_receiptsD(6) [OF u(1)] c by fastforce
  moreover have "\<exists>rs. tc_receipts u = tc_receipts s @ rs" using u(2) by (auto simp: lasting_def prefix_def)
  ultimately show ?thesis using c by (intro conjI cancelled_refuses [OF c])
qed

theorem cancelled_task_stays_cancelled_witness: "tc_outcome demo_cancelled \<noteq> Some Completed \<and> start_run demo_cancelled = fail ''TASK_CANCELLED''"
  using cancelled_task_stays_cancelled [OF cancelled_storable [where sha = slots_sha] _ controlled.same [where m = 8]]
  by (simp add: demo_cancelled_def)

text \<open>C27: the reserve of one receipt is kept for cancellation: from the control a task starts with,
  whatever operations it went through, a cancellation by its owner under a new key is accepted
  while the task has no outcome yet, and stops it.\<close>

theorem cancellation_finds_room:
  assumes "storable sha z (initialControl now0 run task owner)" "0 < m" "controlled sha z m (initialControl now0 run task owner) u"
    and "tc_cancel u = None" "\<not> settled_task u" "find_receipt u k = None" "tc_owner u = ca_owner actor"
  shows "\<exists>d r. cancel sha m now i actor (tc_generation u) k reason u = Inr (d, r) \<and> cr_outcome r = Accepted_outcome
    \<and> tc_cancel d = Some \<lparr>cn_reason = reason, cn_at = now, cn_key = k\<rparr> \<and> tc_phase d = Stopping_phase
    \<and> list_all (\<lambda>x. pi_state x \<noteq> Input_pending) (tc_inputs d)"
proof -
  have u: "storable sha z u" using controlled_history [OF assms(3,1)] by simp
  have "room m (initialControl now0 run task owner)" using assms(2) by (simp add: room_def initialControl_def)
  then have "room m u" by (rule controlled_room [OF assms(3,1)])
  from cancel_accepted [OF this u assms(4-7)] show ?thesis
    using assms(5) by (fastforce simp: record_cancellation_def Let_def cancelled_input_def list_all_iff)
qed

theorem cancellation_finds_room_witness:
  "\<exists>d r. cancel slots_sha 8 ''t1'' ''task'' demo_client 1 ''k1'' ''stop'' demo_initial = Inr (d, r) \<and> cr_outcome r = Accepted_outcome"
  using cancellation_finds_room [OF initial_storable [where sha = slots_sha, unfolded demo_initial_def] _ controlled.same [where m = 8],
      where k = "''k1''" and actor = demo_client]
  by (fastforce simp: initialControl_def settled_task_def find_receipt_def demo_client_def demo_initial_def)

text \<open>C28: a task whose control was published as completed has accounted for everything it owed: it
  was not cancelled, no input is open, the native turn was scoped and left no obligation, and its
  processes were seen to stop. Every delivery was observed or withdrawn, or was never handed out
  and the newest delivery of its source, case and recipient was observed with later evidence; an
  observed delivery that is the newest belongs to this run of the task, its control generation and
  its workspace. Every slot was released, or taken by the delivery it was reserved for, and the
  newest delivery of that source, case and recipient was observed in this run, at the slot's source
  revision or later. The code groups deliveries by a hash, which is taken not to collide on the
  deliveries of the task.\<close>

theorem completed_task_is_accounted:
  assumes "publish_result sha z now binding e kept r s = (u, Inr r')" "tc_phase u = Terminal_phase" "tc_outcome u = Some Completed"
    and "obligations_told sha (deliveries_of u)"
  shows "completion_accounted binding u \<and> nd_stop e \<noteq> Stop_unconfirmed"
  by (rule published_completion [OF assms])

theorem completed_task_is_accounted_witness:
  "list_all (delivery_accounted demo_completed (Some demo_place_bound)) [demo_queued, demo_observed_delivery]
    \<and> slot_answered demo_completed (Some demo_place_bound) demo_taken"
proof -
  have "completion_accounted (Some demo_place_bound) demo_completed"
    using completed_task_is_accounted [OF demo_publishes completed_parts(1,2) completed_told] by blast
  moreover have "sl_state demo_taken \<noteq> Released_slot" by (simp add: demo_taken_def)
  ultimately show ?thesis unfolding completion_accounted_def completed_parts by simp
qed

text \<open>C29: from its reservation to its own release a publication holds all its tasks, whatever other
  publications are reserved meanwhile and however often, late or wrongly others are released: no
  other publication takes one of the tasks and no change of theirs has its turn. Its own release
  frees exactly its tasks, and their changes have their turn again. A publication takes all the
  tasks it names or none.\<close>

theorem publication_excludes_tasks:
  assumes "reserve_publication ps token ids = Some qs" and "(meanwhile token)\<^sup>*\<^sup>* qs rs"
  shows "(\<forall>i \<in> set ids. map_of rs i = Some token)
    \<and> (\<forall>other js. (reserve_publication rs other js = None) = (\<exists>j \<in> set js. map_of rs j \<noteq> None))
    \<and> (\<forall>s. tc_task_id s \<in> set ids \<longrightarrow> change_turn sha z now rs f s = None
        \<and> change_turn sha z now (release_publication rs token ids) f s = Some (change sha z now f s))
    \<and> (\<forall>i. map_of (release_publication rs token ids) i = (if i \<in> set ids then None else map_of rs i))"
  using publication_held [OF assms] reserve_publication_None by (auto simp: change_turn_def released_publication)

theorem publication_excludes_tasks_witness:
  "change_turn slots_sha any_format ''t1'' (release_publication [(''task'', ''p2'')] ''p1'' [''task'']) start_run demo_initial = None"
proof -
  have "reserve_publication [] ''p2'' [''task''] = Some [(''task'', ''p2'')]" by code_simp
  moreover have "(meanwhile ''p2'')\<^sup>*\<^sup>* [(''task'', ''p2'')] (release_publication [(''task'', ''p2'')] ''p1'' [''task''])"
    by (intro r_into_rtranclp meanwhile.releases) simp
  ultimately show ?thesis
    using publication_excludes_tasks [where sha = slots_sha and z = any_format and now = "''t1''" and f = start_run]
    by (fastforce simp: demo_initial_def initialControl_def)
qed

text \<open>C30: a recipient whose list of slots is full of released ones passes every check of a new
  reservation, and the change then ends in the corrupt-store error, not in the capacity error.\<close>

theorem full_slots_end_corrupt:
  assumes "reservePeerDeliverySlots sha place b s = Inr (d, v)" "length (slots_of s) = MAX_PEER_DELIVERIES"
    and "src \<in> set (sb_sources b)" "List.find (slot_for (sb_key b) (fst src)) (slots_of s) = None"
    and "canonical_hash sha (task_control_json s) \<noteq> canonical_hash sha (task_control_json d)"
  shows "change sha z now (reservePeerDeliverySlots sha place b) s = fail STORE_CORRUPT"
  by (rule full_slots_refuse [OF assms])

theorem full_slots_end_corrupt_witness:
  "storable slots_sha any_format demo_full
    \<and> change slots_sha any_format ''t1'' (reservePeerDeliverySlots slots_sha (Some demo_place) demo_bundle) demo_full = fail STORE_CORRUPT"
proof -
  have "slots_of demo_full = demo_slots" by (simp add: demo_full_def)
  then show ?thesis
    using full_slots_end_corrupt [OF demo_reserves, where src = "(''z'', 1)"] no_slot overfull_told full_storable
    by (simp add: demo_slots_def demo_bundle_def MAX_PEER_DELIVERIES_def)
qed

section \<open>The observed declarations\<close>

text \<open>C31: every declaration of either capture is accounted for exactly once: it is the input or the
  observed side of one reported change, or it is in one of the silent pairs, whose two sides
  agree in header, defaults and body.\<close>

theorem compared_declarations_are_accounted:
  assumes "compareExtractions a b = Inr c"
  shows "mset (x_declarations a) = mset (inputs_of (sc_changes c)) + mset (map fst (silent_pairs a b))
    \<and> mset (x_declarations b) = mset (observed_of (sc_changes c)) + mset (map snd (silent_pairs a b))
    \<and> (\<forall>(x, y) \<in> set (silent_pairs a b). header x = header y \<and> sameDefaults x y \<and> \<not> body_differs x y)"
  using declarations_accounted [OF assms] silent_unchanged [of _ _ a b] by (auto simp: unchanged_iff)

theorem compared_declarations_are_accounted_witness:
  "mset [demo_declaration ''f()''] = mset (inputs_of (sc_changes (comparison_of demo_before demo_after))) + mset (map fst (silent_pairs demo_before demo_after))"
  using compared_declarations_are_accounted [OF demo_compared(1)] by (simp add: demo_before_def demo_capture_def)

text \<open>C32: a removal is reported only for a declaration of the input with a complete header, when both
  captures are complete and the observed one holds fewer declarations of that subject.\<close>

theorem reported_removal_is_sound:
  assumes "compareExtractions a b = Inr c" and "dc \<in> set (sc_changes c)" and "dc_kind dc = Removed"
  shows "\<exists>d \<in> set (x_declarations a). dc_input dc = Some d \<and> d_header_complete d \<and> complete_extraction a \<and> complete_extraction b
    \<and> length (group_of (x_declarations b) (subject_key d)) < length (group_of (x_declarations a) (subject_key d))"
  by (rule removals_are_sound [OF assms])

theorem reported_removal_is_sound_witness:
  "complete_extraction demo_gone \<and> (\<exists>d \<in> set (x_declarations demo_before). dc_input demo_removal = Some d)"
proof -
  have "dc_kind demo_removal = Removed" by code_simp
  then show ?thesis using reported_removal_is_sound [OF demo_compared(2), of demo_removal] demo_removed by auto
qed

text \<open>C33: a capture compared with itself shows no addition, removal, signature, default or body
  change, nor a change of its region: only what could not be told apart or observed.\<close>

theorem self_comparison_is_silent:
  assumes "compareExtractions a a = Inr c"
  shows "(\<forall>dc \<in> set (sc_changes c). dc_kind dc \<in> {Ambiguous_change, Unobserved}) \<and> \<not> sc_region_changed c"
  by (rule self_comparison [OF assms])

theorem self_comparison_is_silent_witness: "\<not> sc_region_changed (comparison_of demo_before demo_before)"
  using self_comparison_is_silent [OF demo_compared(3)] by simp

text \<open>C34: comparing in the other direction succeeds as well and tells the same with the sides
  exchanged: the same coverage, limitations and region change, and every change mirrored.\<close>

theorem comparison_swaps:
  assumes "compareExtractions a b = Inr c"
  shows "\<exists>d. compareExtractions b a = Inr d \<and> mset (sc_changes d) = image_mset mirrored (mset (sc_changes c))
    \<and> sc_coverage d = sc_coverage c \<and> sc_region_changed d = sc_region_changed c \<and> set (sc_limitations d) = set (sc_limitations c)"
  by (rule swapped_comparison [OF assms])

theorem comparison_swaps_witness: "\<exists>d. compareExtractions demo_gone demo_before = Inr d \<and> mset (sc_changes d) = {#mirrored demo_removal#}"
  using comparison_swaps [OF demo_compared(2)] by (auto simp: demo_removed)

text \<open>C35: the index of correspondences, with its anchors updated in place, does what its reports alone
  say: an update returns the pairs and resolutions found by searching all reports, a query the
  pairs of its region, and a removal drops exactly the reports of the work.\<close>

theorem index_refines_reports:
  assumes "index_reached sha s"
  shows "map_sum id update_view (upsert sha s report) = spec_upsert sha (ix_reports s) report
    \<and> mset (pairsFor sha s work path) = mset (spec_pairs sha (ix_reports s) work path)
    \<and> ix_reports (remove_work s work) = filter (\<lambda>(k, r). ir_work_id r \<noteq> work) (ix_reports s)"
  using upsert_refines(1) pairsFor_refines remove_refines(2) reached_ok [OF assms] by blast

theorem index_refines_reports_witness:
  "map_sum id update_view (upsert digest_d demo_first (demo_report ''w2'')) = spec_upsert digest_d (ix_reports demo_first) (demo_report ''w2'')"
  using index_refines_reports [OF demo_reached(1)] by blast

text \<open>C36: no sequence of updates and removals takes the index over its bounds: at most 8192 reports,
  each of at most 256 candidates, and at most 8192 anchors, which its counter counts exactly.\<close>

theorem index_stays_bounded:
  assumes "index_reached sha s"
  shows "length (ix_reports s) \<le> 8192 \<and> (\<forall>(k, r) \<in> set (ix_reports s). length (ir_candidates r) \<le> 256)
    \<and> ix_size s = sum_list (map (\<lambda>(k, r). int (length (ir_candidates r))) (ix_reports s)) \<and> ix_size s \<le> 8192"
  using reached_ok [OF assms]
  by (auto simp: index_ok_def reports_ok_def candidates_ok_def total_def MAX_REPORTS_def MAX_ANCHORS_def MAX_ANCHORS_PER_REPORT_def)

theorem index_stays_bounded_witness: "ix_size demo_second \<le> 8192"
  using index_stays_bounded [OF demo_reached(2)] by blast

text \<open>C37: a pair that one work is shown is shown to the other work too, with the two changes
  exchanged and, for works with ASCII identities, under the same pair identity.\<close>

theorem shown_pair_is_mirrored:
  assumes "index_reached sha s" "p \<in> set (pairsFor sha s work path)"
  shows "\<exists>path' q. q \<in> set (pairsFor sha s (cp_other_work p) path') \<and> cp_current_work p = work \<and> cp_current_work q = cp_other_work p
    \<and> cp_other_work q = work \<and> cp_subject_id q = cp_subject_id p \<and> cp_current_change q = cp_other_change p
    \<and> cp_other_change q = cp_current_change p \<and> (is_ascii work \<and> is_ascii (cp_other_work p) \<longrightarrow> cp_pair_id q = cp_pair_id p)"
proof -
  have ok: "index_ok s" by (rule reached_ok [OF assms(1)])
  have same: "set (pairsFor sha s w q) = set (spec_pairs sha (ix_reports s) w q)" for w q
    using pairsFor_refines [OF ok] by (rule mset_eq_setD)
  show ?thesis using pair_mirrored [of "ix_reports s" p sha work path] ok assms(2) by (simp add: same index_ok_def)
qed

theorem shown_pair_is_mirrored_witness:
  "\<exists>path' q. q \<in> set (pairsFor digest_d demo_second (cp_other_work (hd (pairsFor digest_d demo_second ''w1'' ''a.ts''))) path') \<and> cp_other_work q = ''w1''"
proof -
  have "hd (pairsFor digest_d demo_second ''w1'' ''a.ts'') \<in> set (pairsFor digest_d demo_second ''w1'' ''a.ts'')"
    using demo_pairs by (intro hd_in_set) auto
  from shown_pair_is_mirrored [OF demo_reached(2) this] show ?thesis by blast
qed

section \<open>Observed sources\<close>

text \<open>C38: keeping a captured pair that fits the byte bound always returns: it drops the oldest pairs, no
  more of them than it must, keeps the rest in order, and the pair is then found under its new
  identity; the cache holds at most 32 pairs and 64 MiB, counted exactly.\<close>

theorem captured_pair_is_kept:
  assumes "cache_reached s" "fresh \<notin> fst ` set (ce_entries s)" "int (pairBytes p) \<le> MAX_CAPTURE_BYTES"
  shows "\<exists>k t. put fresh p s = Some (Inr (t, fresh)) \<and> ce_entries t = drop k (ce_entries s) @ [(fresh, p)] \<and> get_pair fresh t = Inr p
    \<and> length (ce_entries t) \<le> 32 \<and> ce_bytes t = held_bytes (ce_entries t) \<and> ce_bytes t \<le> 67108864
    \<and> (\<forall>j < k. 32 \<le> length (drop j (ce_entries s)) \<or> 67108864 < held_bytes (drop j (ce_entries s)) + int (pairBytes p))"
proof -
  obtain k t where t: "put fresh p s = Some (Inr (t, fresh))" "ce_entries t = drop k (ce_entries s) @ [(fresh, p)]" "cache_ok t"
    "\<forall>j < k. \<not> spacious (int (pairBytes p)) (drop j (ce_entries s))"
    using put_returns [OF reached_cache_ok [OF assms(1)] assms(2,3)] by blast
  moreover have "get_pair fresh t = Inr p" by (rule get_put [OF t(3,2)])
  ultimately show ?thesis
    by (intro exI [of _ k] exI [of _ t]) (auto simp: cache_ok_def spacious_def MAX_CAPTURE_PAIRS_def MAX_CAPTURE_BYTES_def)
qed

theorem captured_pair_is_kept_witness:
  "\<exists>t. put ''3'' (demo_capture_of 30000000) demo_crowded = Some (Inr (t, ''3'')) \<and> get_pair ''3'' t = Inr (demo_capture_of 30000000)"
  using captured_pair_is_kept [OF demo_crowded_reached, of "''3''" "demo_capture_of 30000000"]
  by (auto simp: demo_crowded_def MAX_CAPTURE_BYTES_def)

text \<open>C39: the offsets computed for a source text are those of its UTF-8 bytes: the computation succeeds
  exactly for texts without lone surrogates; between two boundaries of code points the range is the
  range of the UTF-8 bytes, and an index inside a surrogate pair has none. The text is no longer
  than a string of the engine may be.\<close>

theorem byte_ranges_are_utf8:
  assumes "length us \<le> MAX_STRING_UNITS"
  shows "case utf8_source_ranges us of
      Inl e \<Rightarrow> e = BridgeError ''SOURCE_ENCODING_UNSUPPORTED'' \<and> (\<nexists>ns. list_all scalar ns \<and> us = source_units ns)
    | Inr offs \<Rightarrow> \<exists>ns. list_all scalar ns \<and> us = source_units ns
        \<and> (\<forall>k m. k \<le> m \<and> m \<le> length ns \<longrightarrow> byteRange offs (int (length (units (take k ns)))) (int (length (units (take m ns))))
              = Inr (length (utf8 (take k ns)), length (utf8 (take m ns))))
        \<and> (\<forall>k < length ns. 65536 \<le> ns ! k \<longrightarrow> byte_offset offs (int (Suc (length (units (take k ns))))) = fail ''SOURCE_RANGE_INVALID'')"
proof (cases "utf8_source_ranges us")
  case (Inl e)
  then show ?thesis using source_ranges_cases [of us] by simp
next
  case (Inr offs)
  then obtain ns where ns: "list_all scalar ns" "us = source_units ns" "offs = offsets_of 0 ns" using source_ranges_cases [of us] by auto
  have "length (units ns) \<le> MAX_STRING_UNITS" using assms ns(2) by (simp add: source_units_def)
  then show ?thesis using Inr ns byte_range_prefixes byte_offset_inside by auto
qed

theorem byte_ranges_are_utf8_witness: "\<exists>offs. utf8_source_ranges (source_units demo_points) = Inr offs"
proof (rule ccontr)
  have short: "length (source_units demo_points) \<le> MAX_STRING_UNITS" by (simp add: demo_units MAX_STRING_UNITS_def)
  assume "\<nexists>offs. utf8_source_ranges (source_units demo_points) = Inr offs"
  then obtain e where "utf8_source_ranges (source_units demo_points) = Inl e" by (cases "utf8_source_ranges (source_units demo_points)") auto
  moreover have "list_all scalar demo_points" by (simp add: demo_points_def scalar_def)
  ultimately show False using byte_ranges_are_utf8 [OF short] by auto
qed

text \<open>C40: paging through source paths skips nothing: every path that was offered to a page and comes
  after the page's cursor is on the page, or comes after the cursor the page continues from,
  whatever paths have priority. This holds of pages from which no boundary was removed.\<close>

theorem pages_skip_nothing:
  assumes "new_page limit after priority = Inr s" and "x \<in> set xs" "x \<noteq> []" "\<forall>y \<in> set xs. well_formed y"
    and "case after of None \<Rightarrow> True | Some a \<Rightarrow> js_less a x"
  shows "x \<in> set (fst (page_result further (fold add_path xs s)))
    \<or> (\<exists>c. snd (page_result further (fold add_path xs s)) = Some c \<and> js_less c x)"
proof -
  have "page_holds (set xs) (fold add_path xs s)" using add_paths_hold [OF new_page_holds [OF assms(1)], of xs] by simp
  moreover have "sp_after s = after" using assms(1) by (auto simp: new_page_def andThen_Inr_iff guard_fail_Inr)
  ultimately show ?thesis
    using page_continues [of "set xs" "fold add_path xs s" x further] assms(2-5) by (auto simp: eligible_def split: option.splits)
qed

theorem pages_skip_nothing_witness:
  "''c'' \<in> set (fst (page_result False (fold add_path [''b'', ''c'', ''a''] (demo_page None))))
    \<or> (\<exists>c. snd (page_result False (fold add_path [''b'', ''c'', ''a''] (demo_page None))) = Some c \<and> js_less c ''c'')"
proof (rule pages_skip_nothing [OF demo_new_page])
  show "\<forall>y \<in> set [''b'', ''c'', ''a'']. well_formed y" by (auto intro!: ascii_formed)
qed simp_all

end
